(* ===== verification/Esdb_Prelude.thy ===== *)
theory Esdb_Prelude
  imports Main "HOL-Library.Word"
begin

text \<open>
  Shared ground of the development: the machine types, byte strings under the order the
  code compares them with (\<open>ByteLess\<close> of src/src/esdb_store.cpp, which is also the order of
  SQLite's BINARY collation), the ordered map \<open>std::map\<close> as a sorted association list with
  the contract its clients use (locale \<open>ordered_map\<close>), and the lemmas on lists and words
  that several components need.
\<close>

section \<open>Machine types\<close>

type_synonym byte = "8 word"
type_synonym u32 = "32 word"
type_synonym u64 = "64 word"

named_theorems word_nat \<open>moving machine comparisons to natural numbers\<close>

lemma u64_less_iff [word_nat]: "(a :: u64) < b \<longleftrightarrow> unat a < unat b"
  by (simp add: word_less_nat_alt)

lemma u64_le_iff [word_nat]: "(a :: u64) \<le> b \<longleftrightarrow> unat a \<le> unat b"
  by (simp add: word_le_nat_alt)

lemma u32_less_iff [word_nat]: "(a :: u32) < b \<longleftrightarrow> unat a < unat b"
  by (simp add: word_less_nat_alt)

lemma u32_le_iff [word_nat]: "(a :: u32) \<le> b \<longleftrightarrow> unat a \<le> unat b"
  by (simp add: word_le_nat_alt)

lemma unat_Suc_u64:
  assumes "unat (w :: u64) + 1 < 2 ^ 64"
  shows "unat (w + 1) = unat w + 1"
  using assms by (simp add: unat_word_ariths)

lemma unat_u64_bound: "unat (w :: u64) < 2 ^ 64"
  using unsigned_less [of w] by simp

lemma unat_u32_bound: "unat (w :: u32) < 2 ^ 32"
  using unsigned_less [of w] by simp

section \<open>Byte strings under the byte-wise order\<close>

text \<open>
  \<open>std::string\<close> is a byte sequence. \<open>ByteLess\<close> compares the common prefix byte by byte
  (as unsigned bytes) and then the lengths. Wrapping the byte list in a constructor lets the
  order be an instance of \<^theory_text>\<open>linorder\<close>, so that the library's sorted-list lemmas apply.
\<close>

datatype cpp_string = Str (bytes: "byte list")

fun byte_less :: "byte list \<Rightarrow> byte list \<Rightarrow> bool" where
  "byte_less (a # as) (b # bs) =
     (if a < b then True else if b < a then False else byte_less as bs)"
| "byte_less [] bs = (length ([] :: byte list) < length bs)"
| "byte_less (a # as) [] = (length (a # as) < length ([] :: byte list))"

lemma byte_less_irrefl [simp]: "\<not> byte_less as as"
  by (induction as) auto

lemma byte_less_trans: "byte_less as bs \<Longrightarrow> byte_less bs cs \<Longrightarrow> byte_less as cs"
proof (induction as bs arbitrary: cs rule: byte_less.induct)
  case (1 a as b bs)
  then show ?case
    by (cases cs) (auto split: if_splits)
next
  case (2 bs)
  then show ?case by (cases cs; cases bs) auto
next
  case (3 a as)
  then show ?case by simp
qed

lemma byte_less_total: "as \<noteq> bs \<Longrightarrow> \<not> byte_less as bs \<Longrightarrow> byte_less bs as"
proof (induction as bs rule: byte_less.induct)
  case (1 a as b bs)
  then show ?case by (auto split: if_splits)
next
  case (2 bs)
  then show ?case by (cases bs) auto
next
  case (3 a as)
  then show ?case by simp
qed

instantiation cpp_string :: linorder
begin

definition less_cpp_string :: "cpp_string \<Rightarrow> cpp_string \<Rightarrow> bool" where
  "less_cpp_string s t \<longleftrightarrow> byte_less (bytes s) (bytes t)"

definition less_eq_cpp_string :: "cpp_string \<Rightarrow> cpp_string \<Rightarrow> bool" where
  "less_eq_cpp_string s t \<longleftrightarrow> s = t \<or> byte_less (bytes s) (bytes t)"

instance
proof
  fix x y z :: cpp_string
  show "x < y \<longleftrightarrow> x \<le> y \<and> \<not> y \<le> x"
    unfolding less_cpp_string_def less_eq_cpp_string_def
    using byte_less_trans byte_less_irrefl by blast
  show "x \<le> x"
    by (simp add: less_eq_cpp_string_def)
  show "x \<le> z" if "x \<le> y" "y \<le> z"
    using that byte_less_trans by (auto simp: less_eq_cpp_string_def)
  show "x = y" if "x \<le> y" "y \<le> x"
    using that byte_less_trans byte_less_irrefl
    unfolding less_eq_cpp_string_def by blast
  show "x \<le> y \<or> y \<le> x"
    unfolding less_eq_cpp_string_def
    using byte_less_total cpp_string.expand by blast
qed

end

text \<open>A C string argument: the bytes up to the terminator; \<open>std::string(text)\<close> copies them.\<close>

definition c_str :: "byte list \<Rightarrow> cpp_string" where
  "c_str text = Str (takeWhile (\<lambda>b. b \<noteq> 0) text)"

text \<open>An ASCII literal of the source as bytes.\<close>

definition ascii :: "string \<Rightarrow> byte list" where
  "ascii s = map (\<lambda>c. of_nat (of_char c)) s"

text \<open>Bytes as the characters of a C string, and the decimal digits \<open>%u\<close> and SQL's CAST print.\<close>

definition chars :: "byte list \<Rightarrow> string" where
  "chars text = map (\<lambda>b. char_of (unat b)) text"

fun decimal :: "nat \<Rightarrow> byte list" where
  "decimal n = (if n < 10 then [of_nat (48 + n)] else decimal (n div 10) @ [of_nat (48 + n mod 10)])"

declare decimal.simps [simp del]

section \<open>Ordered maps\<close>

text \<open>
  \<open>std::map\<close> is a standard container: a finite map iterated in key order. It is modelled by
  the list of its entries in that order.
\<close>

fun map_put :: "'k::linorder \<Rightarrow> 'v \<Rightarrow> ('k \<times> 'v) list \<Rightarrow> ('k \<times> 'v) list" where
  "map_put k v [] = [(k, v)]"
| "map_put k v ((k', v') # m) =
     (if k < k' then (k, v) # (k', v') # m
      else if k = k' then (k, v) # m
      else (k', v') # map_put k v m)"

fun map_erase :: "'k::linorder \<Rightarrow> ('k \<times> 'v) list \<Rightarrow> ('k \<times> 'v) list" where
  "map_erase k [] = []"
| "map_erase k ((k', v') # m) = (if k = k' then m else (k', v') # map_erase k m)"

definition map_after :: "'k::linorder \<Rightarrow> ('k \<times> 'v) list \<Rightarrow> ('k \<times> 'v) list" where
  "map_after k m = dropWhile (\<lambda>p. fst p \<le> k) m"

abbreviation ordered_keys :: "('k::linorder \<times> 'v) list \<Rightarrow> bool" where
  "ordered_keys m \<equiv> sorted_wrt (<) (map fst m)"

lemma set_map_put: "set (map_put k v m) \<subseteq> insert (k, v) (set m)"
  by (induction k v m rule: map_put.induct) auto

lemma set_map_erase: "set (map_erase k m) \<subseteq> set m"
  by (induction k m rule: map_erase.induct) auto

lemma set_map_after: "set (map_after k m) \<subseteq> set m"
  by (auto simp: map_after_def dest: set_dropWhileD)

lemma ordered_map_put: "ordered_keys m \<Longrightarrow> ordered_keys (map_put k v m)"
proof (induction k v m rule: map_put.induct)
  case (1 k v)
  then show ?case by simp
next
  case (2 k v k' v' m)
  then show ?case
    using set_map_put [of k v m] by fastforce
qed

lemma ordered_map_erase: "ordered_keys m \<Longrightarrow> ordered_keys (map_erase k m)"
proof (induction k m rule: map_erase.induct)
  case (1 k)
  then show ?case by simp
next
  case (2 k k' v' m)
  then show ?case
    using set_map_erase [of k m] by fastforce
qed

lemma map_of_below: "\<forall>p \<in> set m. (k :: 'k::linorder) < fst p \<Longrightarrow> map_of m k = None"
  by (induction m) auto

lemma map_of_map_put:
  "ordered_keys m \<Longrightarrow> map_of (map_put k v m) = (map_of m)(k \<mapsto> v)"
  by (induction k v m rule: map_put.induct) (auto simp: fun_eq_iff)

lemma map_of_map_erase:
  "ordered_keys m \<Longrightarrow> map_of (map_erase k m) = (map_of m)(k := None)"
  by (induction k m rule: map_erase.induct) (auto simp: fun_eq_iff map_of_below)

text \<open>Two entry lists in key order with the same lookup are the same map.\<close>

lemma ordered_map_of_Some:
  "ordered_keys m \<Longrightarrow> map_of m k = Some v \<longleftrightarrow> (k, v) \<in> set m"
  by (induction m) (auto dest: map_of_SomeD)

lemma ordered_keys_distinct: "ordered_keys m \<Longrightarrow> distinct (map fst m)"
  by (induction m) auto

lemma ordered_map_ext:
  assumes "ordered_keys m" and "ordered_keys m'" and "map_of m = map_of m'"
  shows "m = m'"
proof -
  have "set m = set m'"
    using assms ordered_map_of_Some by (metis (no_types) subrelI subset_antisym)
  moreover have "sorted (map fst m)" "sorted (map fst m')"
    using assms(1,2) by (auto intro: strict_sorted_imp_sorted)
  moreover have "distinct (map fst m)" "distinct (map fst m')"
    using assms(1,2) by (auto intro: ordered_keys_distinct)
  ultimately show ?thesis
    by (metis map_sorted_distinct_set_unique distinct_map inj_on_Un inf.idem
        distinct_map sup.idem)
qed

lemma map_after_filter:
  "ordered_keys m \<Longrightarrow> map_after k m = filter (\<lambda>p. k < fst p) m"
proof (induction m)
  case Nil
  then show ?case by (simp add: map_after_def)
next
  case (Cons p m)
  show ?case
  proof (cases "fst p \<le> k")
    case True
    with Cons show ?thesis by (simp add: map_after_def)
  next
    case False
    with Cons.prems have "\<forall>q \<in> set (p # m). k < fst q"
      by (fastforce simp: not_le)
    with False show ?thesis
      by (simp add: map_after_def)
  qed
qed

text \<open>
  The contract a client of the ordered map relies on, whatever represents it: lookup after
  an insertion or a removal, and iteration in strictly ascending key order.
\<close>

locale ordered_map =
  fixes entries :: "'m \<Rightarrow> ('k::linorder \<times> 'v) list"
    and empty :: "'m"
    and put :: "'k \<Rightarrow> 'v \<Rightarrow> 'm \<Rightarrow> 'm"
    and erase :: "'k \<Rightarrow> 'm \<Rightarrow> 'm"
    and after :: "'k \<Rightarrow> 'm \<Rightarrow> ('k \<times> 'v) list"
    and inv :: "'m \<Rightarrow> bool"
  assumes inv_empty: "inv empty"
    and inv_put: "inv m \<Longrightarrow> inv (put k v m)"
    and inv_erase: "inv m \<Longrightarrow> inv (erase k m)"
    and entries_empty: "entries empty = []"
    and entries_ascending: "inv m \<Longrightarrow> sorted_wrt (<) (map fst (entries m))"
    and lookup_put: "inv m \<Longrightarrow> map_of (entries (put k v m)) = (map_of (entries m))(k \<mapsto> v)"
    and lookup_erase: "inv m \<Longrightarrow> map_of (entries (erase k m)) = (map_of (entries m))(k := None)"
    and entries_after: "inv m \<Longrightarrow> after k m = filter (\<lambda>p. k < fst p) (entries m)"
begin

text \<open>Undoing an insertion: erase a fresh key, or put the previous value back.\<close>

lemma undo_fresh_put:
  assumes "inv m" and "map_of (entries m) k = None"
  shows "entries (erase k (put k v m)) = entries m"
proof (rule ordered_map_ext)
  show "ordered_keys (entries (erase k (put k v m)))" "ordered_keys (entries m)"
    using assms(1) by (auto intro: entries_ascending inv_put inv_erase)
  show "map_of (entries (erase k (put k v m))) = map_of (entries m)"
    using assms by (auto simp: lookup_put lookup_erase inv_put)
qed

lemma undo_overwrite:
  assumes "inv m" and "map_of (entries m) k = Some v"
  shows "entries (put k v (put k w m)) = entries m"
proof (rule ordered_map_ext)
  show "ordered_keys (entries (put k v (put k w m)))" "ordered_keys (entries m)"
    using assms(1) by (auto intro: entries_ascending inv_put)
  show "map_of (entries (put k v (put k w m))) = map_of (entries m)"
    using assms by (auto simp: lookup_put inv_put)
qed

text \<open>Paging with the last key seen visits the rest of the map and repeats nothing.\<close>

lemma page_then_rest:
  assumes "inv m" and "entries m = xs @ (k, v) # ys"
  shows "after k m = ys"
proof -
  have "sorted_wrt (<) (map fst (xs @ (k, v) # ys))"
    using entries_ascending [OF assms(1)] assms(2) by simp
  then show ?thesis
    using assms by (force simp: entries_after sorted_wrt_append filter_empty_conv
        filter_id_conv)
qed

end

interpretation std_map: ordered_map "\<lambda>m. m" "[]" map_put map_erase map_after ordered_keys
  by unfold_locales
    (auto simp: map_of_map_put map_of_map_erase map_after_filter
      intro: ordered_map_put ordered_map_erase)

end
