(* ===== verification/Esdb_Status.thy ===== *)
theory Esdb_Status
  imports Esdb_Prelude
begin

text \<open>
  The deterministic status model (include/esdb/esdb_types.h) and the error record every
  fallible call fills (\<open>set_error\<close>, \<open>fail\<close>, \<open>map_sqlite_status\<close> and the name tables of
  src/esdb_runtime.cpp). What SQLite says about its last failure (\<open>sqlite3_extended_errcode\<close>,
  \<open>sqlite3_errmsg\<close>) and its table of result texts (\<open>sqlite3_errstr\<close>) are arguments.
\<close>

section \<open>Status and phase\<close>

datatype esdb_status =
    ESDB_OK
  | ESDB_ERR_INVALID_ARGUMENT
  | ESDB_ERR_OUT_OF_MEMORY
  | ESDB_ERR_IO
  | ESDB_ERR_SQLITE
  | ESDB_ERR_BUSY
  | ESDB_ERR_NOT_FOUND
  | ESDB_ERR_TYPE_MISMATCH
  | ESDB_ERR_BUFFER_TOO_SMALL
  | ESDB_ERR_CONSTRAINT
  | ESDB_ERR_CORRUPT
  | ESDB_ERR_UNSUPPORTED
  | ESDB_ERR_INVALID_STATE
  | ESDB_ERR_MIGRATION
  | ESDB_ERR_INTERNAL
  | ESDB_ERR_GAP

fun status_code :: "esdb_status \<Rightarrow> u32" where
  "status_code ESDB_OK = 0"
| "status_code ESDB_ERR_INVALID_ARGUMENT = 1"
| "status_code ESDB_ERR_OUT_OF_MEMORY = 2"
| "status_code ESDB_ERR_IO = 3"
| "status_code ESDB_ERR_SQLITE = 4"
| "status_code ESDB_ERR_BUSY = 5"
| "status_code ESDB_ERR_NOT_FOUND = 6"
| "status_code ESDB_ERR_TYPE_MISMATCH = 7"
| "status_code ESDB_ERR_BUFFER_TOO_SMALL = 8"
| "status_code ESDB_ERR_CONSTRAINT = 9"
| "status_code ESDB_ERR_CORRUPT = 10"
| "status_code ESDB_ERR_UNSUPPORTED = 11"
| "status_code ESDB_ERR_INVALID_STATE = 12"
| "status_code ESDB_ERR_MIGRATION = 13"
| "status_code ESDB_ERR_INTERNAL = 14"
| "status_code ESDB_ERR_GAP = 15"

datatype esdb_phase =
    ESDB_PHASE_NONE
  | ESDB_PHASE_OPEN
  | ESDB_PHASE_CONFIGURE
  | ESDB_PHASE_EXEC
  | ESDB_PHASE_TRANSACTION
  | ESDB_PHASE_SAVEPOINT
  | ESDB_PHASE_MIGRATION
  | ESDB_PHASE_INTEGRITY
  | ESDB_PHASE_BACKUP
  | ESDB_PHASE_VALUE
  | ESDB_PHASE_STORE
  | ESDB_PHASE_SUBSCRIPTION
  | ESDB_PHASE_HEALTH
  | ESDB_PHASE_OBJECT_STORE

fun phase_code :: "esdb_phase \<Rightarrow> u32" where
  "phase_code ESDB_PHASE_NONE = 0"
| "phase_code ESDB_PHASE_OPEN = 1"
| "phase_code ESDB_PHASE_CONFIGURE = 2"
| "phase_code ESDB_PHASE_EXEC = 3"
| "phase_code ESDB_PHASE_TRANSACTION = 4"
| "phase_code ESDB_PHASE_SAVEPOINT = 5"
| "phase_code ESDB_PHASE_MIGRATION = 6"
| "phase_code ESDB_PHASE_INTEGRITY = 7"
| "phase_code ESDB_PHASE_BACKUP = 8"
| "phase_code ESDB_PHASE_VALUE = 9"
| "phase_code ESDB_PHASE_STORE = 10"
| "phase_code ESDB_PHASE_SUBSCRIPTION = 11"
| "phase_code ESDB_PHASE_HEALTH = 12"
| "phase_code ESDB_PHASE_OBJECT_STORE = 13"

text \<open>
  The name tables switch on the raw 32-bit code a C caller passes, so a code outside the
  enumeration is answered too.
\<close>

definition esdb_status_name :: "u32 \<Rightarrow> string" where
  "esdb_status_name status =
     (if status = 0 then ''ok''
      else if status = 1 then ''invalid_argument''
      else if status = 2 then ''out_of_memory''
      else if status = 3 then ''io''
      else if status = 4 then ''sqlite''
      else if status = 5 then ''busy''
      else if status = 6 then ''not_found''
      else if status = 7 then ''type_mismatch''
      else if status = 8 then ''buffer_too_small''
      else if status = 9 then ''constraint''
      else if status = 10 then ''corrupt''
      else if status = 11 then ''unsupported''
      else if status = 12 then ''invalid_state''
      else if status = 13 then ''migration''
      else if status = 14 then ''internal''
      else if status = 15 then ''gap''
      else ''unknown'')"

definition esdb_phase_name :: "u32 \<Rightarrow> string" where
  "esdb_phase_name phase =
     (if phase = 0 then ''none''
      else if phase = 1 then ''open''
      else if phase = 2 then ''configure''
      else if phase = 3 then ''exec''
      else if phase = 4 then ''transaction''
      else if phase = 5 then ''savepoint''
      else if phase = 6 then ''migration''
      else if phase = 7 then ''integrity''
      else if phase = 8 then ''backup''
      else if phase = 9 then ''value''
      else if phase = 10 then ''store''
      else if phase = 11 then ''subscription''
      else if phase = 12 then ''health''
      else if phase = 13 then ''object_store''
      else ''unknown'')"

lemma esdb_status_name_code_inject:
  "esdb_status_name (status_code s) = esdb_status_name (status_code t) \<longleftrightarrow> s = t"
  by (cases s; cases t; simp add: esdb_status_name_def)

section \<open>SQLite result codes\<close>

text \<open>The codes of sqlite3.h the sources name (src/third_party/sqlite/sqlite3.h).\<close>

abbreviation "SQLITE_OK \<equiv> (0 :: int)"
abbreviation "SQLITE_ERROR \<equiv> (1 :: int)"
abbreviation "SQLITE_PERM \<equiv> (3 :: int)"
abbreviation "SQLITE_ABORT \<equiv> (4 :: int)"
abbreviation "SQLITE_BUSY \<equiv> (5 :: int)"
abbreviation "SQLITE_LOCKED \<equiv> (6 :: int)"
abbreviation "SQLITE_NOMEM \<equiv> (7 :: int)"
abbreviation "SQLITE_READONLY \<equiv> (8 :: int)"
abbreviation "SQLITE_IOERR \<equiv> (10 :: int)"
abbreviation "SQLITE_CORRUPT \<equiv> (11 :: int)"
abbreviation "SQLITE_NOTFOUND \<equiv> (12 :: int)"
abbreviation "SQLITE_FULL \<equiv> (13 :: int)"
abbreviation "SQLITE_CANTOPEN \<equiv> (14 :: int)"
abbreviation "SQLITE_CONSTRAINT \<equiv> (19 :: int)"
abbreviation "SQLITE_MISMATCH \<equiv> (20 :: int)"
abbreviation "SQLITE_MISUSE \<equiv> (21 :: int)"
abbreviation "SQLITE_RANGE \<equiv> (25 :: int)"
abbreviation "SQLITE_NOTADB \<equiv> (26 :: int)"
abbreviation "SQLITE_ROW \<equiv> (100 :: int)"
abbreviation "SQLITE_DONE \<equiv> (101 :: int)"

text \<open>\<open>code & 0xff\<close> on a two's complement \<open>int\<close> is the residue modulo 256.\<close>

definition map_sqlite_status :: "int \<Rightarrow> esdb_status" where
  "map_sqlite_status code =
     (let primary = code mod 256 in
      if primary = SQLITE_OK \<or> primary = SQLITE_DONE \<or> primary = SQLITE_ROW then ESDB_OK
      else if primary = SQLITE_BUSY \<or> primary = SQLITE_LOCKED then ESDB_ERR_BUSY
      else if primary = SQLITE_NOMEM then ESDB_ERR_OUT_OF_MEMORY
      else if primary = SQLITE_IOERR \<or> primary = SQLITE_CANTOPEN \<or> primary = SQLITE_READONLY
        \<or> primary = SQLITE_FULL \<or> primary = SQLITE_PERM then ESDB_ERR_IO
      else if primary = SQLITE_CONSTRAINT then ESDB_ERR_CONSTRAINT
      else if primary = SQLITE_CORRUPT \<or> primary = SQLITE_NOTADB then ESDB_ERR_CORRUPT
      else if primary = SQLITE_NOTFOUND then ESDB_ERR_NOT_FOUND
      else if primary = SQLITE_MISUSE then ESDB_ERR_INVALID_STATE
      else if primary = SQLITE_RANGE then ESDB_ERR_INVALID_ARGUMENT
      else if primary = SQLITE_MISMATCH then ESDB_ERR_TYPE_MISMATCH
      else ESDB_ERR_SQLITE)"

lemma map_sqlite_status_extended:
  "0 \<le> k \<Longrightarrow> map_sqlite_status (code + 256 * k) = map_sqlite_status code"
  by (simp add: map_sqlite_status_def)

lemma map_sqlite_status_ok_iff:
  "map_sqlite_status code = ESDB_OK \<longleftrightarrow> code mod 256 \<in> {SQLITE_OK, SQLITE_ROW, SQLITE_DONE}"
  by (auto simp: map_sqlite_status_def Let_def)

section \<open>The error record\<close>

record esdb_error =
  err_status :: esdb_status
  err_phase :: esdb_phase
  err_sqlite_code :: int
  err_sqlite_extended_code :: int
  err_message :: string

definition clear_error :: esdb_error where
  "clear_error =
     \<lparr>err_status = ESDB_OK, err_phase = ESDB_PHASE_NONE, err_sqlite_code = 0,
      err_sqlite_extended_code = 0, err_message = []\<rparr>"

text \<open>\<open>copy_message\<close>: at most \<open>ESDB_ERROR_MESSAGE_CAPACITY - 1\<close> = 255 bytes and a terminator.\<close>

definition copy_message :: "string option \<Rightarrow> string" where
  "copy_message message = (case message of None \<Rightarrow> [] | Some text \<Rightarrow> take 255 text)"

text \<open>What SQLite reports about a connection's last failure, when a connection is given.\<close>

record sqlite_diagnosis =
  dg_extended_errcode :: int
  dg_errmsg :: string

definition set_error ::
  "(int \<Rightarrow> string) \<Rightarrow> sqlite_diagnosis option \<Rightarrow> esdb_status \<Rightarrow> esdb_phase \<Rightarrow> int \<Rightarrow> string option
   \<Rightarrow> esdb_error" where
  "set_error errstr db status phase sqlite_code message =
     (let blank = (\<lambda>m. m = None \<or> m = Some []);
          resolved = message;
          resolved = (if blank resolved \<and> db \<noteq> None
            then Some (dg_errmsg (the db)) else resolved);
          resolved = (if blank resolved \<and> sqlite_code \<noteq> SQLITE_OK
            then Some (errstr sqlite_code) else resolved)
      in \<lparr>err_status = status, err_phase = phase, err_sqlite_code = sqlite_code,
          err_sqlite_extended_code =
            (case db of None \<Rightarrow> sqlite_code | Some d \<Rightarrow> dg_extended_errcode d),
          err_message = copy_message (case resolved of None \<Rightarrow> Some [] | Some m \<Rightarrow> Some m)\<rparr>)"

lemma set_error_fields [simp]:
  "err_status (set_error errstr db st ph code msg) = st"
  "err_phase (set_error errstr db st ph code msg) = ph"
  "err_sqlite_code (set_error errstr db st ph code msg) = code"
  by (simp_all add: set_error_def Let_def)

lemma set_error_message_bound: "length (err_message (set_error errstr db st ph code msg)) \<le> 255"
  by (simp add: set_error_def Let_def copy_message_def split: option.splits)

section \<open>Outcomes\<close>

text \<open>
  A fallible call returns its status; on \<open>ESDB_OK\<close> its out parameters are written, on any
  other status they keep the values they were cleared to and the error record holds what
  the second argument of \<open>Failed\<close> says.
\<close>

datatype 'a outcome = Done 'a | Failed esdb_status esdb_error

fun status_of :: "'a outcome \<Rightarrow> esdb_status" where
  "status_of (Done _) = ESDB_OK"
| "status_of (Failed status _) = status"

fun out_of :: "'a \<Rightarrow> 'a outcome \<Rightarrow> 'a" where
  "out_of _ (Done x) = x"
| "out_of cleared (Failed _ _) = cleared"

fun error_of :: "'a outcome \<Rightarrow> esdb_error" where
  "error_of (Done _) = clear_error"
| "error_of (Failed _ error) = error"

section \<open>Connection metrics\<close>

text \<open>The counters and the last error of \<open>esdb_database\<close> (src/esdb_internal.hpp).\<close>

record db_metrics =
  dm_operation_count :: u64
  dm_error_count :: u64
  dm_busy_count :: u64
  dm_commit_count :: u64
  dm_rollback_count :: u64
  dm_last_error :: esdb_error

definition count_operation :: "db_metrics \<Rightarrow> db_metrics" where
  "count_operation m = m\<lparr>dm_operation_count := dm_operation_count m + 1\<rparr>"

definition count_commit :: "db_metrics \<Rightarrow> db_metrics" where
  "count_commit m = m\<lparr>dm_commit_count := dm_commit_count m + 1\<rparr>"

definition count_rollback :: "db_metrics \<Rightarrow> db_metrics" where
  "count_rollback m = m\<lparr>dm_rollback_count := dm_rollback_count m + 1\<rparr>"

text \<open>\<open>fail\<close> records the error, bumps the counters and hands the status back.\<close>

definition fail_with :: "esdb_error \<Rightarrow> db_metrics \<Rightarrow> 'a outcome \<times> db_metrics" where
  "fail_with recorded m =
     (Failed (err_status recorded) recorded,
      m\<lparr>dm_error_count := dm_error_count m + 1,
        dm_busy_count := (if err_status recorded = ESDB_ERR_BUSY
          then dm_busy_count m + 1 else dm_busy_count m),
        dm_last_error := recorded\<rparr>)"

end
