(* ===== verification/Utf8_Validation.thy ===== *)
theory Utf8_Validation
  imports Esdb_Status
begin

unbundle bit_operations_syntax

text \<open>
  The validators every public entry point starts with: \<open>valid_utf8\<close>, \<open>valid_c_string\<close> and
  \<open>valid_savepoint_name\<close> of src/esdb_runtime.cpp. The UTF-8 scanner is proved to accept
  exactly the encodings of sequences of Unicode scalar values (the abstract specification,
  \<open>utf8_encode\<close> after RFC 3629), so it refuses overlong forms, surrogates, truncated
  sequences and code points above U+10FFFF, and nothing else.
\<close>

section \<open>The scanner\<close>

text \<open>The lead byte gives the initial bits and the number of continuation bytes.\<close>

definition utf8_lead :: "byte \<Rightarrow> (u32 \<times> nat) option" where
  "utf8_lead c =
     (if 0xc2 \<le> c \<and> c \<le> 0xdf then Some (ucast (c AND 0x1f), 1)
      else if 0xe0 \<le> c \<and> c \<le> 0xef then Some (ucast (c AND 0x0f), 2)
      else if 0xf0 \<le> c \<and> c \<le> 0xf4 then Some (ucast (c AND 0x07), 3)
      else None)"

text \<open>The inner loop over \<open>need\<close> continuation bytes.\<close>

fun utf8_continue :: "nat \<Rightarrow> u32 \<Rightarrow> byte list \<Rightarrow> u32 option" where
  "utf8_continue 0 code s = Some code"
| "utf8_continue (Suc need) code [] = None"
| "utf8_continue (Suc need) code (cc # s) =
     (if cc AND 0xc0 \<noteq> 0x80 then None
      else utf8_continue need (push_bit 6 code OR ucast (cc AND 0x3f)) s)"

text \<open>The outer loop, on the bytes from position \<open>i\<close> on.\<close>

function utf8_scan :: "byte list \<Rightarrow> bool" where
  "utf8_scan [] = True"
| "utf8_scan (c # s) =
     (if c \<le> 0x7f then utf8_scan s
      else (case utf8_lead c of
          None \<Rightarrow> False
        | Some (code0, need) \<Rightarrow>
            if length s < need then False
            else (case utf8_continue need code0 s of
                None \<Rightarrow> False
              | Some code \<Rightarrow>
                  if (need = 2 \<and> code < 0x800) \<or> (need = 3 \<and> code < 0x10000) then False
                  else if 0xd800 \<le> code \<and> code \<le> 0xdfff then False
                  else if 0x10ffff < code then False
                  else utf8_scan (drop need s))))"
  by pat_completeness auto
termination
  by (relation "measure length") auto

definition valid_utf8 :: "byte list option \<Rightarrow> nat \<Rightarrow> bool" where
  "valid_utf8 text n =
     (if n = 0 then True
      else (case text of None \<Rightarrow> False | Some s \<Rightarrow> utf8_scan (take n s)))"

text \<open>
  \<open>valid_c_string\<close> measures the text up to \<open>max_bytes + 1\<close> bytes, so it never reads past the
  bound; \<open>None\<close> is the null pointer, and the terminator is the first zero byte or the end
  of the list.
\<close>

fun bounded_strlen :: "nat \<Rightarrow> byte list \<Rightarrow> nat" where
  "bounded_strlen fuel [] = 0"
| "bounded_strlen 0 (b # s) = 0"
| "bounded_strlen (Suc fuel) (b # s) = (if b = 0 then 0 else Suc (bounded_strlen fuel s))"

definition valid_c_string :: "byte list option \<Rightarrow> nat \<Rightarrow> bool" where
  "valid_c_string text max_bytes =
     (case text of
        None \<Rightarrow> False
      | Some s \<Rightarrow>
          if s = [] \<or> hd s = 0 then False
          else (let len = bounded_strlen (Suc max_bytes) s
                in 0 < len \<and> len \<le> max_bytes \<and> valid_utf8 (Some s) len))"

definition valid_object_store_name :: "byte list option \<Rightarrow> bool" where
  "valid_object_store_name text = valid_c_string text 255"

definition valid_object_store_key :: "byte list option \<Rightarrow> bool" where
  "valid_object_store_key text = valid_c_string text 4096"

section \<open>Savepoint names\<close>

definition savepoint_char :: "byte \<Rightarrow> bool" where
  "savepoint_char c \<longleftrightarrow>
     (65 \<le> c \<and> c \<le> 90) \<or> (97 \<le> c \<and> c \<le> 122) \<or> (48 \<le> c \<and> c \<le> 57) \<or> c = 95"

text \<open>The scan: \<open>None\<close> when a byte is refused or the bound is passed, else the length.\<close>

fun savepoint_scan :: "nat \<Rightarrow> byte list \<Rightarrow> nat option" where
  "savepoint_scan len [] = Some len"
| "savepoint_scan len (c # s) =
     (if c = 0 then Some len
      else if \<not> savepoint_char c then None
      else if 64 < Suc len then None
      else savepoint_scan (Suc len) s)"

definition ascii_lower :: "byte \<Rightarrow> byte" where
  "ascii_lower c = (if 65 \<le> c \<and> c \<le> 90 then c - 65 + 97 else c)"

text \<open>The bytes of the reserved prefix \<open>__esdb_\<close>.\<close>

definition reserved_prefix :: "byte list" where
  "reserved_prefix = [95, 95, 101, 115, 100, 98, 95]"

definition valid_savepoint_name :: "byte list option \<Rightarrow> bool" where
  "valid_savepoint_name text =
     (case text of
        None \<Rightarrow> False
      | Some s \<Rightarrow>
          if s = [] \<or> hd s = 0 then False
          else (case savepoint_scan 0 s of
              None \<Rightarrow> False
            | Some len \<Rightarrow>
                if len = 0 then False
                else if length reserved_prefix \<le> len
                  \<and> map ascii_lower (take (length reserved_prefix) s) = reserved_prefix
                then False
                else True))"

section \<open>The specification: encodings of scalar values\<close>

definition scalar_value :: "nat \<Rightarrow> bool" where
  "scalar_value n \<longleftrightarrow> n \<le> 0x10FFFF \<and> \<not> (0xD800 \<le> n \<and> n \<le> 0xDFFF)"

definition utf8_encode :: "nat \<Rightarrow> byte list" where
  "utf8_encode n =
     (if n < 0x80 then [of_nat n]
      else if n < 0x800 then [of_nat (0xC0 + n div 64), of_nat (0x80 + n mod 64)]
      else if n < 0x10000 then
        [of_nat (0xE0 + n div 4096), of_nat (0x80 + n div 64 mod 64), of_nat (0x80 + n mod 64)]
      else
        [of_nat (0xF0 + n div 262144), of_nat (0x80 + n div 4096 mod 64),
         of_nat (0x80 + n div 64 mod 64), of_nat (0x80 + n mod 64)])"

definition utf8_text :: "byte list \<Rightarrow> bool" where
  "utf8_text bs \<longleftrightarrow> (\<exists>cps. list_all scalar_value cps \<and> bs = concat (map utf8_encode cps))"

subsection \<open>Bytes as numbers\<close>

lemma byte_bound: "unat (c :: byte) < 256"
  using unsigned_less [of c] by simp

lemma byte_le_iff: "(a :: byte) \<le> b \<longleftrightarrow> unat a \<le> unat b"
  by (simp add: word_le_nat_alt)

lemma byte_eq_of_nat: "unat (b :: byte) = k \<Longrightarrow> b = of_nat k"
  by auto

lemma unat_of_nat_byte: "k < 256 \<Longrightarrow> unat (of_nat k :: byte) = k"
  by (simp add: unat_of_nat)

lemma high_bits: "cc AND 0xc0 = push_bit 6 (drop_bit 6 (cc :: byte))"
proof -
  have "0xc0 = (push_bit 6 (mask 2) :: byte)"
    by (simp add: mask_eq_exp_minus_1)
  moreover have "cc AND push_bit 6 (mask 2) = push_bit 6 (drop_bit 6 cc)"
    by (rule bit_word_eqI) (auto simp: bit_simps)
  ultimately show ?thesis
    by (simp only:)
qed

lemma continuation_byte: "cc AND 0xc0 = 0x80 \<longleftrightarrow> 128 \<le> unat (cc :: byte) \<and> unat cc < 192"
proof -
  have "unat (drop_bit 6 cc) = unat cc div 64"
    using byte_bound [of cc]
    by (simp only: unsigned_drop_bit_eq drop_bit_eq_div [of 6 "_ :: nat"])
      (simp add: take_bit_nat_eq_self)
  then have "unat (cc AND 0xc0) = take_bit 8 (unat cc div 64 * 64)"
    unfolding high_bits unsigned_push_bit_eq push_bit_eq_mult [of 6 "unat _"] by simp
  also have "\<dots> = unat cc div 64 * 64"
    using byte_bound [of cc] by (intro take_bit_nat_eq_self) auto
  finally have *: "unat (cc AND 0xc0) = unat cc div 64 * 64" .
  have "cc AND 0xc0 = 0x80 \<longleftrightarrow> unat (cc AND 0xc0) = unat (0x80 :: byte)"
    by (simp add: word_unat_eq_iff)
  also have "\<dots> \<longleftrightarrow> unat cc div 64 * 64 = 128"
    by (simp only: *) simp
  also have "\<dots> \<longleftrightarrow> 128 \<le> unat cc \<and> unat cc < 192"
    by auto
  finally show ?thesis .
qed

lemma unat_and_mask_byte: "unat (c AND mask n :: byte) = unat c mod 2 ^ n"
proof -
  have "unat (take_bit n c) = take_bit n (unat c)"
    by (rule unsigned_take_bit_eq)
  then show ?thesis
    by (simp only: take_bit_eq_mask [of n c] take_bit_eq_mod [of n "unat c"])
qed

lemma continuation_bits: "unat (cc AND 0x3f :: byte) = unat cc mod 64"
  using unat_and_mask_byte [of cc 6] by (simp add: mask_eq_exp_minus_1)

lemma lead_bits:
  "unat (c AND 0x1f :: byte) = unat c mod 32"
  "unat (c AND 0x0f :: byte) = unat c mod 16"
  "unat (c AND 0x07 :: byte) = unat c mod 8"
  using unat_and_mask_byte [of c 5] unat_and_mask_byte [of c 4] unat_and_mask_byte [of c 3]
  by (simp_all add: mask_eq_exp_minus_1)

lemma unat_ucast_byte: "unat (ucast (c :: byte) :: u32) = unat c"
  using byte_bound [of c] by (simp add: unsigned_ucast_eq take_bit_nat_eq_self)

lemma push_or_add:
  assumes "x < 64"
  shows "push_bit 6 (a :: nat) OR x = a * 64 + x"
proof -
  have "push_bit 6 a AND x = 0"
  proof (rule bit_eqI)
    fix n
    have "\<not> bit x n" if "6 \<le> n"
    proof -
      have "x < 2 ^ n"
        using assms power_increasing [OF that, of "2 :: nat"] by simp
      then show ?thesis by (simp add: bit_iff_odd)
    qed
    then show "bit (push_bit 6 a AND x) n \<longleftrightarrow> bit (0 :: nat) n"
      by (auto simp: bit_simps)
  qed
  then have "push_bit 6 a OR x = push_bit 6 a + x"
    by (simp add: disjunctive_add_eq_or)
  then show ?thesis
    by (simp add: push_bit_eq_mult)
qed

lemma shift_in_bits:
  assumes "unat (code :: u32) < 2 ^ 26"
  shows "unat (push_bit 6 code OR ucast (cc AND 0x3f :: byte)) = unat code * 64 + unat cc mod 64"
proof -
  have "push_bit 6 (unat code) < 2 ^ 32"
    using assms by (simp add: push_bit_eq_mult)
  then have "unat (push_bit 6 code) = push_bit 6 (unat code)"
    by (simp add: unsigned_push_bit_eq take_bit_nat_eq_self)
  then show ?thesis
    by (simp add: unsigned_or_eq push_or_add unat_ucast_byte continuation_bits)
qed


subsection \<open>The scanner on numbers\<close>

fun continue_nat :: "nat \<Rightarrow> nat \<Rightarrow> byte list \<Rightarrow> nat option" where
  "continue_nat 0 code s = Some code"
| "continue_nat (Suc need) code [] = None"
| "continue_nat (Suc need) code (cc # s) =
     (if 128 \<le> unat cc \<and> unat cc < 192
      then continue_nat need (code * 64 + unat cc mod 64) s else None)"

lemma utf8_continue_nat:
  "(unat code + 1) * 64 ^ need \<le> 2 ^ 32 \<Longrightarrow>
     map_option unat (utf8_continue need code s) = continue_nat need (unat code) s"
proof (induction need code s rule: utf8_continue.induct)
  case (1 code s)
  then show ?case by simp
next
  case (2 need code)
  then show ?case by simp
next
  case (3 need code cc s)
  have "(unat code + 1) * 64 \<le> (unat code + 1) * 64 ^ Suc need"
    by (rule mult_le_mono2) simp
  with "3.prems" have small: "unat code < 2 ^ 26"
    by (simp del: power_Suc)
  have "(unat code * 64 + unat cc mod 64 + 1) * 64 ^ need \<le> ((unat code + 1) * 64) * 64 ^ need"
    by (rule mult_le_mono1) (simp add: Suc_le_eq)
  also have "\<dots> \<le> 2 ^ 32"
    using "3.prems" by (simp only: mult.assoc power_Suc)
  finally show ?case
    using "3.IH" by (auto simp: continuation_byte shift_in_bits [OF small])
qed

definition lead_nat :: "nat \<Rightarrow> (nat \<times> nat) option" where
  "lead_nat c =
     (if 194 \<le> c \<and> c \<le> 223 then Some (c mod 32, 1)
      else if 224 \<le> c \<and> c \<le> 239 then Some (c mod 16, 2)
      else if 240 \<le> c \<and> c \<le> 244 then Some (c mod 8, 3)
      else None)"

lemma utf8_lead_nat:
  "map_option (apfst unat) (utf8_lead c) = lead_nat (unat c)"
  by (simp add: utf8_lead_def lead_nat_def byte_le_iff unat_ucast_byte lead_bits)

definition code_allowed :: "nat \<Rightarrow> nat \<Rightarrow> bool" where
  "code_allowed need code \<longleftrightarrow>
     \<not> (need = 2 \<and> code < 0x800) \<and> \<not> (need = 3 \<and> code < 0x10000) \<and> scalar_value code"

declare utf8_scan.simps(2) [simp del]

text \<open>One step of the scanner, in numbers.\<close>

lemma utf8_scan_Cons:
  "utf8_scan (c # s) \<longleftrightarrow>
     (if unat c < 128 then utf8_scan s
      else \<exists>code0 need code. lead_nat (unat c) = Some (code0, need) \<and> need \<le> length s \<and>
        continue_nat need code0 s = Some code \<and> code_allowed need code \<and>
        utf8_scan (drop need s))"
proof (cases "unat c < 128")
  case True
  then show ?thesis by (simp add: byte_le_iff utf8_scan.simps(2))
next
  case False
  then have big: "\<not> c \<le> 0x7f"
    by (simp add: byte_le_iff)
  show ?thesis
  proof (cases "utf8_lead c")
    case None
    then have "lead_nat (unat c) = None"
      using utf8_lead_nat [of c] by simp
    with None big False show ?thesis by (simp add: utf8_scan.simps(2))
  next
    case (Some p)
    then obtain code0 need where p: "utf8_lead c = Some (code0, need)"
      by (cases p) auto
    then have l: "lead_nat (unat c) = Some (unat code0, need)"
      using utf8_lead_nat [of c] by simp
    then have "unat code0 < 32" "need \<le> 3"
      using mod_less_divisor [of 32 "unat c"] mod_less_divisor [of 16 "unat c"]
        mod_less_divisor [of 8 "unat c"]
      unfolding lead_nat_def by (auto split: if_splits simp del: mod_less_divisor)
    moreover from this have "64 ^ need \<le> (64 :: nat) ^ 3"
      by (intro power_increasing) auto
    ultimately have "(unat code0 + 1) * 64 ^ need \<le> 32 * 64 ^ 3"
      by (intro mult_le_mono) auto
    then have "(unat code0 + 1) * 64 ^ need \<le> 2 ^ 32"
      by simp
    then have m: "map_option unat (utf8_continue need code0 s) = continue_nat need (unat code0) s"
      by (rule utf8_continue_nat)
    show ?thesis
    proof (cases "utf8_continue need code0 s")
      case None
      with m have "continue_nat need (unat code0) s = None" by simp
      with None p l big False show ?thesis by (simp add: utf8_scan.simps(2))
    next
      case (Some code)
      with m have "continue_nat need (unat code0) s = Some (unat code)" by simp
      with Some p l big False show ?thesis
        by (auto simp: utf8_scan.simps(2) code_allowed_def scalar_value_def u32_less_iff u32_le_iff)
    qed
  qed
qed

subsection \<open>Soundness\<close>

lemma mod_window:
  fixes u :: nat
  assumes "k * m \<le> u" and "u < k * m + m"
  shows "u = k * m + u mod m"
proof -
  have "u div m = k"
    using assms by (auto intro!: div_nat_eqI simp: ac_simps)
  then show ?thesis
    by (metis div_mult_mod_eq)
qed

lemma digits_64:
  fixes a b d e :: nat
  assumes "b < 64" "d < 64" "e < 64"
  shows "(a * 64 + b) div 64 = a" "(a * 64 + b) mod 64 = b"
    "((a * 64 + b) * 64 + d) div 4096 = a" "((a * 64 + b) * 64 + d) div 64 mod 64 = b"
    "((a * 64 + b) * 64 + d) mod 64 = d"
    "(((a * 64 + b) * 64 + d) * 64 + e) div 262144 = a"
    "(((a * 64 + b) * 64 + d) * 64 + e) div 4096 mod 64 = b"
    "(((a * 64 + b) * 64 + d) * 64 + e) div 64 mod 64 = d"
    "(((a * 64 + b) * 64 + d) * 64 + e) mod 64 = e"
proof -
  have d1: "(x * 64 + y) div 64 = x" "(x * 64 + y) mod 64 = y" if "y < 64" for x y :: nat
    using that by simp_all
  have d2: "n div 4096 = n div 64 div 64" "n div 262144 = n div 64 div 64 div 64" for n :: nat
    by (simp_all add: div_mult2_eq [symmetric])
  show "(a * 64 + b) div 64 = a" "(a * 64 + b) mod 64 = b"
    "((a * 64 + b) * 64 + d) div 4096 = a" "((a * 64 + b) * 64 + d) div 64 mod 64 = b"
    "((a * 64 + b) * 64 + d) mod 64 = d"
    "(((a * 64 + b) * 64 + d) * 64 + e) div 262144 = a"
    "(((a * 64 + b) * 64 + d) * 64 + e) div 4096 mod 64 = b"
    "(((a * 64 + b) * 64 + d) * 64 + e) div 64 mod 64 = d"
    "(((a * 64 + b) * 64 + d) * 64 + e) mod 64 = e"
    by (simp_all only: d2 d1 [OF assms(1)] d1 [OF assms(2)] d1 [OF assms(3)])
qed

lemma continuation_number: "128 \<le> unat x \<Longrightarrow> unat x < 192 \<Longrightarrow> unat x = 128 + unat (x :: byte) mod 64"
  using mod_window [of 2 64 "unat x"] by simp

lemma encode_two:
  assumes "194 \<le> unat c" "unat c \<le> 223" "128 \<le> unat x" "unat x < 192"
  shows "utf8_encode (unat c mod 32 * 64 + unat x mod 64) = [c, x]"
proof -
  define a where "a = unat c mod 32"
  define b where "b = unat x mod 64"
  have cx: "unat c = 192 + a" "unat x = 128 + b"
    unfolding a_def b_def using assms mod_window [of 6 32 "unat c"]
      continuation_number [of x] by simp_all
  note bs = this [THEN byte_eq_of_nat]
  have "2 \<le> a"
    using assms(1) cx(1) by linarith
  moreover have "a < 32" "b < 64"
    by (simp_all add: a_def b_def)
  ultimately have lt: "2 \<le> a" "a < 32" "b < 64"
    by simp_all
  define n where "n = a * 64 + b"
  have "n div 64 = a" "n mod 64 = b" "128 \<le> n" "n < 2048"
    unfolding n_def using lt by simp_all
  then have "utf8_encode n = [c, x]"
    unfolding bs by (simp add: utf8_encode_def)
  then show ?thesis
    by (simp add: n_def a_def b_def)
qed

lemma encode_three:
  assumes "224 \<le> unat c" "unat c \<le> 239" "128 \<le> unat x" "unat x < 192"
    "128 \<le> unat y" "unat y < 192"
    and big: "2048 \<le> (unat c mod 16 * 64 + unat x mod 64) * 64 + unat y mod 64"
  shows "utf8_encode ((unat c mod 16 * 64 + unat x mod 64) * 64 + unat y mod 64) = [c, x, y]"
proof -
  define a where "a = unat c mod 16"
  define b where "b = unat x mod 64"
  define d where "d = unat y mod 64"
  define n where "n = (a * 64 + b) * 64 + d"
  have "unat c = 224 + a" "unat x = 128 + b" "unat y = 128 + d"
    unfolding a_def b_def d_def using assms(1-6) mod_window [of 14 16 "unat c"]
      continuation_number [of x] continuation_number [of y] by simp_all
  note bs = this [THEN byte_eq_of_nat]
  have "a < 16" "b < 64" "d < 64"
    by (simp_all add: a_def b_def d_def)
  then have "n div 4096 = a" "n div 64 mod 64 = b" "n mod 64 = d" "n < 65536"
    unfolding n_def by (simp_all only: digits_64 [of b d 0 a]) simp_all
  moreover have "2048 \<le> n"
    using big by (simp add: n_def a_def b_def d_def)
  ultimately have "utf8_encode n = [c, x, y]"
    unfolding bs by (simp add: utf8_encode_def)
  then show ?thesis
    by (simp add: n_def a_def b_def d_def)
qed

lemma encode_four:
  assumes "240 \<le> unat c" "unat c \<le> 244" "128 \<le> unat x" "unat x < 192"
    "128 \<le> unat y" "unat y < 192" "128 \<le> unat z" "unat z < 192"
    and big: "65536 \<le> ((unat c mod 8 * 64 + unat x mod 64) * 64 + unat y mod 64) * 64 + unat z mod 64"
  shows "utf8_encode (((unat c mod 8 * 64 + unat x mod 64) * 64 + unat y mod 64) * 64 + unat z mod 64)
    = [c, x, y, z]"
proof -
  define a where "a = unat c mod 8"
  define b where "b = unat x mod 64"
  define d where "d = unat y mod 64"
  define e where "e = unat z mod 64"
  define n where "n = ((a * 64 + b) * 64 + d) * 64 + e"
  have "unat c = 240 + a" "unat x = 128 + b" "unat y = 128 + d" "unat z = 128 + e"
    unfolding a_def b_def d_def e_def using assms(1-8) mod_window [of 30 8 "unat c"]
      continuation_number [of x] continuation_number [of y] continuation_number [of z]
    by simp_all
  note bs = this [THEN byte_eq_of_nat]
  have "b < 64" "d < 64" "e < 64"
    by (simp_all add: b_def d_def e_def)
  then have "n div 262144 = a" "n div 4096 mod 64 = b" "n div 64 mod 64 = d" "n mod 64 = e"
    unfolding n_def by (simp_all only: digits_64 [of b d e a])
  moreover have "65536 \<le> n"
    using big by (simp add: n_def a_def b_def d_def e_def)
  ultimately have "utf8_encode n = [c, x, y, z]"
    unfolding bs by (simp add: utf8_encode_def)
  then show ?thesis
    by (simp add: n_def a_def b_def d_def e_def)
qed

lemma continue_nat_Suc:
  "continue_nat (Suc n) k s = Some code \<longleftrightarrow>
     (\<exists>x t. s = x # t \<and> 128 \<le> unat x \<and> unat x < 192 \<and>
        continue_nat n (k * 64 + unat x mod 64) t = Some code)"
  by (cases s) auto

lemma scan_step_sound:
  assumes "lead_nat (unat c) = Some (code0, need)" and "continue_nat need code0 s = Some code"
    and "code_allowed need code"
  shows "c # take need s = utf8_encode code"
proof -
  consider (two) "need = 1" "194 \<le> unat c" "unat c \<le> 223" "code0 = unat c mod 32"
    | (three) "need = 2" "224 \<le> unat c" "unat c \<le> 239" "code0 = unat c mod 16"
    | (four) "need = 3" "240 \<le> unat c" "unat c \<le> 244" "code0 = unat c mod 8"
    using assms(1) by (auto simp: lead_nat_def split: if_splits)
  then show ?thesis
  proof cases
    case two
    with assms(2) obtain x t where "s = x # t" "128 \<le> unat x" "unat x < 192"
      "code = code0 * 64 + unat x mod 64"
      by (auto simp: continue_nat_Suc)
    with two show ?thesis by (simp add: encode_two)
  next
    case three
    with assms(2) obtain x y t where *: "s = x # y # t" "128 \<le> unat x" "unat x < 192"
      "128 \<le> unat y" "unat y < 192" "code = (code0 * 64 + unat x mod 64) * 64 + unat y mod 64"
      unfolding numeral_2_eq_2 three(1) continue_nat_Suc by auto
    with three assms(3) have "utf8_encode code = [c, x, y]"
      by (simp only: code_allowed_def not_less encode_three simp_thms)
    with three * show ?thesis by (simp add: numeral_2_eq_2)
  next
    case four
    with assms(2) obtain x y z t where *: "s = x # y # z # t" "128 \<le> unat x" "unat x < 192"
      "128 \<le> unat y" "unat y < 192" "128 \<le> unat z" "unat z < 192"
      "code = ((code0 * 64 + unat x mod 64) * 64 + unat y mod 64) * 64 + unat z mod 64"
      unfolding numeral_3_eq_3 four(1) continue_nat_Suc by auto
    with four assms(3) have "utf8_encode code = [c, x, y, z]"
      by (simp only: code_allowed_def not_less encode_four simp_thms)
    with four * show ?thesis by (simp add: numeral_3_eq_3)
  qed
qed

lemma utf8_encode_nonempty [simp]: "0 < length (utf8_encode n)"
  by (simp add: utf8_encode_def)

lemma utf8_scan_sound: "utf8_scan bs \<Longrightarrow> utf8_text bs"
proof (induction "length bs" arbitrary: bs rule: less_induct)
  case less
  show ?case
  proof (cases bs)
    case Nil
    then show ?thesis
      unfolding utf8_text_def by (intro exI [of _ "[]"]) simp
  next
    case (Cons c s)
    obtain n t where "scalar_value n" "bs = utf8_encode n @ t" "utf8_scan t" "length t < length bs"
    proof (cases "unat c < 128")
      case True
      then have "c = of_nat (unat c)" "scalar_value (unat c)" "utf8_scan s"
        using less.prems Cons by (auto simp: utf8_scan_Cons scalar_value_def)
      with True Cons that [of "unat c" s] show thesis
        by (simp add: utf8_encode_def)
    next
      case False
      then obtain code0 need code where *: "lead_nat (unat c) = Some (code0, need)"
        "continue_nat need code0 s = Some code" "code_allowed need code" "utf8_scan (drop need s)"
        using less.prems Cons by (auto simp: utf8_scan_Cons)
      from scan_step_sound [OF *(1-3)] have "bs = utf8_encode code @ drop need s"
        using Cons by (metis append_Cons append_take_drop_id)
      moreover have "length (drop need s) < length bs"
        using Cons by simp
      ultimately show thesis
        using * that [of code "drop need s"] by (simp add: code_allowed_def)
    qed
    with less.hyps obtain cps where "list_all scalar_value cps" "t = concat (map utf8_encode cps)"
      unfolding utf8_text_def by blast
    with \<open>scalar_value n\<close> \<open>bs = utf8_encode n @ t\<close> show ?thesis
      unfolding utf8_text_def by (intro exI [of _ "n # cps"]) simp
  qed
qed

subsection \<open>Completeness\<close>

lemma digits_split:
  fixes n :: nat
  shows "n = n div 64 * 64 + n mod 64"
    "n = (n div 4096 * 64 + n div 64 mod 64) * 64 + n mod 64"
    "n = ((n div 262144 * 64 + n div 4096 mod 64) * 64 + n div 64 mod 64) * 64 + n mod 64"
proof -
  have d2: "n div 4096 = n div 64 div 64" "n div 262144 = n div 64 div 64 div 64"
    by (simp_all add: div_mult2_eq [symmetric])
  show "n = n div 64 * 64 + n mod 64"
    "n = (n div 4096 * 64 + n div 64 mod 64) * 64 + n mod 64"
    "n = ((n div 262144 * 64 + n div 4096 mod 64) * 64 + n div 64 mod 64) * 64 + n mod 64"
    by (simp_all only: d2 div_mult_mod_eq)
qed

lemma mod_of_window: "a < m \<Longrightarrow> (k * m + a) mod m = (a :: nat)"
  by simp

lemma utf8_scan_encode:
  assumes "scalar_value n"
  shows "utf8_scan (utf8_encode n @ t) = utf8_scan t"
proof -
  have n: "n \<le> 0x10FFFF" using assms by (simp add: scalar_value_def)
  consider "n < 0x80" | "0x80 \<le> n" "n < 0x800" | "0x800 \<le> n" "n < 0x10000" | "0x10000 \<le> n"
    by linarith
  then show ?thesis
  proof cases
    case 1
    then show ?thesis by (simp add: utf8_encode_def utf8_scan_Cons unat_of_nat_byte)
  next
    case 2
    define a where "a = n div 64"
    define b where "b = n mod 64"
    have "2 \<le> a" "a < 32" "b < 64" "a * 64 + b = n"
      using 2 digits_split(1) [of n] by (auto simp: a_def b_def)
    moreover have "utf8_encode n = [of_nat (192 + a), of_nat (128 + b)]"
      using 2 by (simp add: utf8_encode_def a_def b_def)
    moreover have "lead_nat (192 + a) = Some (a, 1)"
      using \<open>2 \<le> a\<close> \<open>a < 32\<close> mod_of_window [of a 32 6] by (simp add: lead_nat_def)
    moreover have "continue_nat 1 a (of_nat (128 + b) # t) = Some n"
      using \<open>b < 64\<close> \<open>a * 64 + b = n\<close> mod_of_window [of b 64 2]
      by (simp add: unat_of_nat_byte del: of_nat_add)
    ultimately show ?thesis
      using assms by (simp add: utf8_scan_Cons unat_of_nat_byte code_allowed_def del: of_nat_add)
  next
    case 3
    define a where "a = n div 4096"
    define b where "b = n div 64 mod 64"
    define d where "d = n mod 64"
    have "a < 16" "b < 64" "d < 64" "(a * 64 + b) * 64 + d = n"
      using 3 digits_split(2) [of n] by (auto simp: a_def b_def d_def)
    moreover have "utf8_encode n = [of_nat (224 + a), of_nat (128 + b), of_nat (128 + d)]"
      using 3 by (simp add: utf8_encode_def a_def b_def d_def)
    moreover have "lead_nat (224 + a) = Some (a, 2)"
      using \<open>a < 16\<close> mod_of_window [of a 16 14] by (simp add: lead_nat_def)
    moreover have "continue_nat 2 a (of_nat (128 + b) # of_nat (128 + d) # t) = Some n"
      using \<open>b < 64\<close> \<open>d < 64\<close> \<open>(a * 64 + b) * 64 + d = n\<close> mod_of_window [of b 64 2]
        mod_of_window [of d 64 2]
      by (simp add: numeral_2_eq_2 unat_of_nat_byte del: of_nat_add)
    ultimately show ?thesis
      using assms 3
      by (simp add: utf8_scan_Cons unat_of_nat_byte code_allowed_def numeral_2_eq_2 del: of_nat_add)
  next
    case 4
    define a where "a = n div 262144"
    define b where "b = n div 4096 mod 64"
    define d where "d = n div 64 mod 64"
    define e where "e = n mod 64"
    have "a < 5" "b < 64" "d < 64" "e < 64" "((a * 64 + b) * 64 + d) * 64 + e = n"
      using n digits_split(3) [of n] by (auto simp: a_def b_def d_def e_def)
    moreover have "utf8_encode n = [of_nat (240 + a), of_nat (128 + b), of_nat (128 + d), of_nat (128 + e)]"
      using 4 by (simp add: utf8_encode_def a_def b_def d_def e_def)
    moreover have "lead_nat (240 + a) = Some (a, 3)"
      using \<open>a < 5\<close> mod_of_window [of a 8 30] by (simp add: lead_nat_def)
    moreover have "continue_nat 3 a (of_nat (128 + b) # of_nat (128 + d) # of_nat (128 + e) # t) = Some n"
      using \<open>b < 64\<close> \<open>d < 64\<close> \<open>e < 64\<close> \<open>((a * 64 + b) * 64 + d) * 64 + e = n\<close>
        mod_of_window [of b 64 2] mod_of_window [of d 64 2] mod_of_window [of e 64 2]
      by (simp add: numeral_3_eq_3 unat_of_nat_byte del: of_nat_add)
    ultimately show ?thesis
      using assms 4
      by (simp add: utf8_scan_Cons unat_of_nat_byte code_allowed_def numeral_3_eq_3 del: of_nat_add)
  qed
qed

lemma utf8_scan_complete: "utf8_text bs \<Longrightarrow> utf8_scan bs"
proof -
  have "list_all scalar_value cps \<Longrightarrow> utf8_scan (concat (map utf8_encode cps))" for cps
    by (induction cps) (auto simp: utf8_scan_encode)
  then show "utf8_text bs \<Longrightarrow> utf8_scan bs"
    by (auto simp: utf8_text_def)
qed

lemma utf8_scan_iff: "utf8_scan bs \<longleftrightarrow> utf8_text bs"
  using utf8_scan_sound utf8_scan_complete by blast

text \<open>
  C36: the UTF-8 validator accepts a non-null buffer exactly when its bytes are the encoding
  of a sequence of Unicode scalar values: no overlong form, surrogate, truncated sequence or
  code point above U+10FFFF passes, and no well-formed text is refused.
\<close>

theorem valid_utf8_accepts_exactly_utf8:
  "valid_utf8 (Some bs) (length bs) = utf8_text bs"
  by (simp add: valid_utf8_def utf8_scan_iff [symmetric])

section \<open>C strings and savepoint names\<close>

abbreviation c_bytes :: "byte list \<Rightarrow> byte list" where
  "c_bytes s \<equiv> takeWhile (\<lambda>b. b \<noteq> 0) s"

lemma bounded_strlen_eq: "bounded_strlen fuel s = min fuel (length (c_bytes s))"
  by (induction fuel s rule: bounded_strlen.induct) auto

lemma take_c_bytes [simp]: "take (length (c_bytes s)) s = c_bytes s"
  by (metis takeWhile_eq_take)

lemma c_string_iff:
  "valid_c_string text max_bytes =
     (case text of None \<Rightarrow> False
      | Some s \<Rightarrow> c_bytes s \<noteq> [] \<and> length (c_bytes s) \<le> max_bytes \<and> utf8_text (c_bytes s))"
proof (cases "text")
  case None
  then show ?thesis by (simp add: valid_c_string_def)
next
  case (Some s)
  have empty: "s = [] \<or> hd s = 0 \<longleftrightarrow> c_bytes s = []"
    by (cases s) auto
  have "valid_utf8 (Some s) (length (c_bytes s)) = utf8_text (c_bytes s)" if "c_bytes s \<noteq> []"
    using that by (simp add: valid_utf8_def utf8_scan_iff)
  then show ?thesis
    using Some empty by (auto simp: valid_c_string_def bounded_strlen_eq Let_def min_def)
qed

text \<open>
  A C-string argument is accepted exactly when it is non-null, non-empty, at most
  \<open>max_bytes\<close> bytes before its terminator, and well-formed UTF-8.
\<close>

theorem valid_c_string_iff:
  "valid_c_string text max_bytes =
     (case text of None \<Rightarrow> False
      | Some s \<Rightarrow> c_bytes s \<noteq> [] \<and> length (c_bytes s) \<le> max_bytes \<and> utf8_text (c_bytes s))"
  by (rule c_string_iff)

lemma savepoint_scan_eq:
  "savepoint_scan n s =
     (if list_all savepoint_char (c_bytes s) \<and> n + length (c_bytes s) \<le> max n 64
      then Some (n + length (c_bytes s)) else None)"
  by (induction n s rule: savepoint_scan.induct) auto

lemma savepoint_name_iff:
  "valid_savepoint_name text =
     (case text of None \<Rightarrow> False
      | Some s \<Rightarrow> c_bytes s \<noteq> [] \<and> length (c_bytes s) \<le> 64 \<and> list_all savepoint_char (c_bytes s)
          \<and> take 7 (map ascii_lower (c_bytes s)) \<noteq> reserved_prefix)"
proof (cases "text")
  case None
  then show ?thesis by (simp add: valid_savepoint_name_def)
next
  case (Some s)
  have empty: "s = [] \<or> hd s = 0 \<longleftrightarrow> c_bytes s = []"
    by (cases s) auto
  have len: "length reserved_prefix = 7"
    by (simp add: reserved_prefix_def)
  have "(7 \<le> length (c_bytes s) \<and> map ascii_lower (take 7 s) = reserved_prefix)
      \<longleftrightarrow> take 7 (map ascii_lower (c_bytes s)) = reserved_prefix"
  proof (cases "7 \<le> length (c_bytes s)")
    case True
    then have "take 7 s = take 7 (take (length (c_bytes s)) s)"
      by (simp only: take_take min.absorb1)
    then have "take 7 s = take 7 (c_bytes s)"
      by (simp only: take_c_bytes)
    with True show ?thesis by (simp add: take_map)
  next
    case False
    then have "length (take 7 (map ascii_lower (c_bytes s))) \<noteq> length reserved_prefix"
      by (simp add: len)
    with False show ?thesis by metis
  qed
  note reserved = this
  show ?thesis
  proof (cases "c_bytes s = []")
    case True
    with Some empty show ?thesis by (simp add: valid_savepoint_name_def)
  next
    case False
    with Some empty reserved show ?thesis
      by (simp add: valid_savepoint_name_def savepoint_scan_eq len)
  qed
qed

text \<open>
  A public savepoint name is one to sixty-four bytes of \<open>[A-Za-z0-9_]\<close> that does not
  start, in any case, with the reserved prefix \<open>__esdb_\<close>: it can be spliced into SQL text
  unquoted, and it can never name the internal scope \<open>__esdb_mutation\<close> under SQLite's
  case-insensitive comparison of identifiers.
\<close>

theorem valid_savepoint_name_iff:
  "valid_savepoint_name text =
     (case text of None \<Rightarrow> False
      | Some s \<Rightarrow> c_bytes s \<noteq> [] \<and> length (c_bytes s) \<le> 64 \<and> list_all savepoint_char (c_bytes s)
          \<and> take 7 (map ascii_lower (c_bytes s)) \<noteq> reserved_prefix)"
  by (rule savepoint_name_iff)

end
