(* ===== verification/Esdb_Value.thy ===== *)
theory Esdb_Value
  imports Utf8_Validation
begin

unbundle bit_operations_syntax

text \<open>
  The canonical value domain (include/esdb/esdb_value.h, src/esdb_value.cpp): the constructors,
  the accessors and the little-endian payload encoding. \<open>payload_valid\<close> is the check
  ObjectStore applies to a stored payload before it hands a value out
  (\<open>clone_sql_value\<close>, src/esdb_object_store.cpp). The lemmas show that every constructor
  produces a payload of that shape, that reading returns what was written, and that the
  accessors of another type refuse the value.
\<close>

section \<open>Values\<close>

abbreviation "ESDB_VALUE_NULL \<equiv> (0 :: u32)"
abbreviation "ESDB_VALUE_BOOL \<equiv> (1 :: u32)"
abbreviation "ESDB_VALUE_INT32 \<equiv> (2 :: u32)"
abbreviation "ESDB_VALUE_INT64 \<equiv> (3 :: u32)"
abbreviation "ESDB_VALUE_DOUBLE \<equiv> (4 :: u32)"
abbreviation "ESDB_VALUE_UTF8 \<equiv> (5 :: u32)"
abbreviation "ESDB_VALUE_BYTES \<equiv> (6 :: u32)"
abbreviation "ESDB_VALUE_ARRAY \<equiv> (7 :: u32)"
abbreviation "ESDB_VALUE_OBJECT \<equiv> (8 :: u32)"

record esdb_value =
  ev_type :: u32
  ev_payload :: "byte list"

definition valid_value_type :: "u32 \<Rightarrow> bool" where
  "valid_value_type t \<longleftrightarrow> ESDB_VALUE_NULL \<le> t \<and> t \<le> ESDB_VALUE_OBJECT"

section \<open>Little-endian payloads\<close>

definition append_le32 :: "u32 \<Rightarrow> byte list" where
  "append_le32 value = map (\<lambda>i. ucast (drop_bit (i * 8) value AND 0xff)) [0..<4]"

definition append_le64 :: "u64 \<Rightarrow> byte list" where
  "append_le64 value = map (\<lambda>i. ucast (drop_bit (i * 8) value AND 0xff)) [0..<8]"

definition read_le32 :: "byte list \<Rightarrow> u32" where
  "read_le32 payload = foldl (\<lambda>value i. value OR push_bit (i * 8) (ucast (payload ! i))) 0 [0..<4]"

definition read_le64 :: "byte list \<Rightarrow> u64" where
  "read_le64 payload = foldl (\<lambda>value i. value OR push_bit (i * 8) (ucast (payload ! i))) 0 [0..<8]"

section \<open>Constructors\<close>

text \<open>
  An error raised without a SQLite connection carries its own message, so the table of SQLite
  texts is never consulted.
\<close>

definition local_error :: "esdb_status \<Rightarrow> esdb_phase \<Rightarrow> int \<Rightarrow> string \<Rightarrow> esdb_error" where
  "local_error status phase code message =
     set_error (\<lambda>_. []) None status phase code (Some message)"

definition value_fail :: "esdb_status \<Rightarrow> int \<Rightarrow> string \<Rightarrow> 'a outcome" where
  "value_fail status code message = Failed status (local_error status ESDB_PHASE_VALUE code message)"

text \<open>
  What the allocator does in one constructor call: whether \<open>new (std::nothrow)\<close> yields an
  object and whether the payload's vector grows without throwing.
\<close>

record value_alloc =
  va_object :: bool
  va_payload :: bool

definition allocate_value :: "value_alloc \<Rightarrow> u32 \<Rightarrow> bool \<Rightarrow> esdb_value outcome" where
  "allocate_value alloc type out_given =
     (if \<not> out_given then
        value_fail ESDB_ERR_INVALID_ARGUMENT SQLITE_MISUSE ''out_value is required''
      else if \<not> va_object alloc then
        value_fail ESDB_ERR_OUT_OF_MEMORY SQLITE_NOMEM ''value allocation failed''
      else Done \<lparr>ev_type = type, ev_payload = []\<rparr>)"

text \<open>The constructors' common tail: fill the payload, or destroy the value again.\<close>

definition fill_payload :: "value_alloc \<Rightarrow> byte list \<Rightarrow> string \<Rightarrow> esdb_value outcome \<Rightarrow> esdb_value outcome" where
  "fill_payload alloc payload message r =
     (case r of
        Failed status error \<Rightarrow> Failed status error
      | Done value \<Rightarrow>
          if \<not> va_payload alloc then value_fail ESDB_ERR_OUT_OF_MEMORY SQLITE_NOMEM message
          else Done (value\<lparr>ev_payload := payload\<rparr>))"

definition esdb_value_create_null :: "value_alloc \<Rightarrow> bool \<Rightarrow> esdb_value outcome" where
  "esdb_value_create_null alloc out_given = allocate_value alloc ESDB_VALUE_NULL out_given"

definition esdb_value_create_bool :: "value_alloc \<Rightarrow> int \<Rightarrow> bool \<Rightarrow> esdb_value outcome" where
  "esdb_value_create_bool alloc input out_given =
     fill_payload alloc [if input \<noteq> 0 then 1 else 0] ''boolean payload allocation failed''
       (allocate_value alloc ESDB_VALUE_BOOL out_given)"

text \<open>Signed integers are passed as their two's complement words; \<open>sint\<close> reads them.\<close>

definition esdb_value_create_int32 :: "value_alloc \<Rightarrow> u32 \<Rightarrow> bool \<Rightarrow> esdb_value outcome" where
  "esdb_value_create_int32 alloc input out_given =
     fill_payload alloc (append_le32 input) ''int32 payload allocation failed''
       (allocate_value alloc ESDB_VALUE_INT32 out_given)"

definition esdb_value_create_int64 :: "value_alloc \<Rightarrow> u64 \<Rightarrow> bool \<Rightarrow> esdb_value outcome" where
  "esdb_value_create_int64 alloc input out_given =
     fill_payload alloc (append_le64 input) ''int64 payload allocation failed''
       (allocate_value alloc ESDB_VALUE_INT64 out_given)"

text \<open>A \<open>double\<close> is its 64-bit pattern, which is what \<open>memcpy\<close> stores.\<close>

definition esdb_value_create_double :: "value_alloc \<Rightarrow> u64 \<Rightarrow> bool \<Rightarrow> esdb_value outcome" where
  "esdb_value_create_double alloc bits out_given =
     fill_payload alloc (append_le64 bits) ''double payload allocation failed''
       (allocate_value alloc ESDB_VALUE_DOUBLE out_given)"

text \<open>
  A buffer argument is a nullable pointer to at least \<open>n\<close> bytes together with the size \<open>n\<close>;
  \<open>SIZE_MAX\<close> is the largest 64-bit size, so that test never fires on a 64-bit size.
\<close>

definition esdb_value_create_text ::
  "value_alloc \<Rightarrow> u32 \<Rightarrow> byte list option \<Rightarrow> u64 \<Rightarrow> bool \<Rightarrow> esdb_value outcome" where
  "esdb_value_create_text alloc type utf8 n out_given =
     (if type \<noteq> ESDB_VALUE_UTF8 \<and> type \<noteq> ESDB_VALUE_ARRAY \<and> type \<noteq> ESDB_VALUE_OBJECT then
        value_fail ESDB_ERR_INVALID_ARGUMENT SQLITE_MISUSE
          ''text constructor requires UTF8, ARRAY, or OBJECT type''
      else if (0 < n \<and> utf8 = None) \<or> \<not> valid_utf8 utf8 (unat n) then
        value_fail ESDB_ERR_INVALID_ARGUMENT SQLITE_MISMATCH ''invalid UTF-8 payload''
      else fill_payload alloc (if 0 < n then take (unat n) (the utf8) else [])
        ''text payload allocation failed'' (allocate_value alloc type out_given))"

definition esdb_value_create_bytes ::
  "value_alloc \<Rightarrow> byte list option \<Rightarrow> u64 \<Rightarrow> bool \<Rightarrow> esdb_value outcome" where
  "esdb_value_create_bytes alloc data n out_given =
     (if 0 < n \<and> data = None then
        value_fail ESDB_ERR_INVALID_ARGUMENT SQLITE_MISUSE ''invalid byte payload''
      else fill_payload alloc (if 0 < n then take (unat n) (the data) else [])
        ''byte payload allocation failed'' (allocate_value alloc ESDB_VALUE_BYTES out_given))"

section \<open>Accessors\<close>

text \<open>They take a nullable value and report a status only: no error record is involved.\<close>

definition esdb_value_type_of :: "esdb_value option \<Rightarrow> u32" where
  "esdb_value_type_of value = (case value of None \<Rightarrow> ESDB_VALUE_NULL | Some v \<Rightarrow> ev_type v)"

definition status_only :: "esdb_status \<Rightarrow> 'a outcome" where
  "status_only status = Failed status clear_error"

definition esdb_value_get_bool :: "esdb_value option \<Rightarrow> bool \<Rightarrow> int outcome" where
  "esdb_value_get_bool value out_given =
     (case value of
        None \<Rightarrow> status_only ESDB_ERR_INVALID_ARGUMENT
      | Some v \<Rightarrow>
          if \<not> out_given then status_only ESDB_ERR_INVALID_ARGUMENT
          else if ev_type v \<noteq> ESDB_VALUE_BOOL \<or> length (ev_payload v) \<noteq> 1
          then status_only ESDB_ERR_TYPE_MISMATCH
          else Done (if ev_payload v ! 0 \<noteq> 0 then 1 else 0))"

definition esdb_value_get_int32 :: "esdb_value option \<Rightarrow> bool \<Rightarrow> u32 outcome" where
  "esdb_value_get_int32 value out_given =
     (case value of
        None \<Rightarrow> status_only ESDB_ERR_INVALID_ARGUMENT
      | Some v \<Rightarrow>
          if \<not> out_given then status_only ESDB_ERR_INVALID_ARGUMENT
          else if ev_type v \<noteq> ESDB_VALUE_INT32 \<or> length (ev_payload v) \<noteq> 4
          then status_only ESDB_ERR_TYPE_MISMATCH
          else Done (read_le32 (ev_payload v)))"

definition esdb_value_get_int64 :: "esdb_value option \<Rightarrow> bool \<Rightarrow> u64 outcome" where
  "esdb_value_get_int64 value out_given =
     (case value of
        None \<Rightarrow> status_only ESDB_ERR_INVALID_ARGUMENT
      | Some v \<Rightarrow>
          if \<not> out_given then status_only ESDB_ERR_INVALID_ARGUMENT
          else if ev_type v \<noteq> ESDB_VALUE_INT64 \<or> length (ev_payload v) \<noteq> 8
          then status_only ESDB_ERR_TYPE_MISMATCH
          else Done (read_le64 (ev_payload v)))"

definition esdb_value_get_double :: "esdb_value option \<Rightarrow> bool \<Rightarrow> u64 outcome" where
  "esdb_value_get_double value out_given =
     (case value of
        None \<Rightarrow> status_only ESDB_ERR_INVALID_ARGUMENT
      | Some v \<Rightarrow>
          if \<not> out_given then status_only ESDB_ERR_INVALID_ARGUMENT
          else if ev_type v \<noteq> ESDB_VALUE_DOUBLE \<or> length (ev_payload v) \<noteq> 8
          then status_only ESDB_ERR_TYPE_MISMATCH
          else Done (read_le64 (ev_payload v)))"

text \<open>An empty payload is handed out as a null pointer with size zero.\<close>

definition esdb_value_get_data ::
  "esdb_value option \<Rightarrow> bool \<Rightarrow> bool \<Rightarrow> (byte list option \<times> u64) outcome" where
  "esdb_value_get_data value data_given size_given =
     (case value of
        None \<Rightarrow> status_only ESDB_ERR_INVALID_ARGUMENT
      | Some v \<Rightarrow>
          if \<not> data_given \<or> \<not> size_given then status_only ESDB_ERR_INVALID_ARGUMENT
          else if ev_type v \<in> {ESDB_VALUE_UTF8, ESDB_VALUE_BYTES, ESDB_VALUE_ARRAY, ESDB_VALUE_OBJECT}
          then Done (if ev_payload v = [] then None else Some (ev_payload v),
                     of_nat (length (ev_payload v)))
          else status_only ESDB_ERR_TYPE_MISMATCH)"

section \<open>The canonical payload shape\<close>

definition payload_valid :: "u32 \<Rightarrow> byte list \<Rightarrow> bool" where
  "payload_valid type payload =
     (if type = ESDB_VALUE_NULL then payload = []
      else if type = ESDB_VALUE_BOOL then payload = [0] \<or> payload = [1]
      else if type = ESDB_VALUE_INT32 then length payload = 4
      else if type = ESDB_VALUE_INT64 \<or> type = ESDB_VALUE_DOUBLE then length payload = 8
      else if type = ESDB_VALUE_UTF8 \<or> type = ESDB_VALUE_ARRAY \<or> type = ESDB_VALUE_OBJECT
      then valid_utf8 (Some payload) (length payload)
      else type = ESDB_VALUE_BYTES)"

definition canonical :: "esdb_value \<Rightarrow> bool" where
  "canonical v \<longleftrightarrow> valid_value_type (ev_type v) \<and> payload_valid (ev_type v) (ev_payload v)"

section \<open>Round trips\<close>

lemma length_append_le [simp]:
  "length (append_le32 x) = 4" "length (append_le64 y) = 8"
  by (simp_all add: append_le32_def append_le64_def)

lemma bit_read_le:
  fixes payload :: "byte list"
  shows "bit (foldl (\<lambda>value i. value OR push_bit (i * 8) (ucast (payload ! i))) (v :: 'a::len word) [0..<k]) n
    \<longleftrightarrow> bit v n \<or> (n < LENGTH('a) \<and> n div 8 < k \<and> bit (payload ! (n div 8)) (n mod 8))"
proof (induction k)
  case 0
  then show ?case by simp
next
  case (Suc k)
  have "bit (push_bit (k * 8) (ucast (payload ! k)) :: 'a word) n
      \<longleftrightarrow> n < LENGTH('a) \<and> n div 8 = k \<and> bit (payload ! (n div 8)) (n mod 8)"
  proof (cases "n div 8 = k")
    case True
    then have "k * 8 \<le> n" "n - k * 8 = n mod 8"
      by (auto simp: minus_div_mult_eq_mod)
    moreover have "n < LENGTH('a) \<Longrightarrow> n mod 8 < LENGTH('a)"
      using mod_less_eq_dividend [of n 8] by (rule le_less_trans)
    ultimately show ?thesis
      unfolding Bit_Operations.bit_push_bit_iff bit_unsigned_iff possible_bit_word
      using True by metis
  next
    case False
    have "\<not> bit (ucast (payload ! k) :: 'a word) (n - k * 8)" if "k * 8 \<le> n"
    proof -
      have "8 \<le> n - k * 8"
        using that False by presburger
      then show ?thesis
        by (auto simp: bit_simps dest: bit_imp_le_length)
    qed
    with False show ?thesis
      by (auto simp: bit_push_bit_iff)
  qed
  with Suc show ?case
    by (auto simp: bit_or_iff)
qed

lemma read_append_le32 [simp]: "read_le32 (append_le32 x) = x"
proof (rule bit_word_eqI)
  fix n assume "n < LENGTH(32)"
  then have n: "n < 32" by simp
  have "n mod 8 < 8" by simp
  then have m: "n mod 8 < 32" by linarith
  have "n div 8 < 4" using n by linarith
  then have "append_le32 x ! (n div 8) = ucast (drop_bit (n div 8 * 8) x AND 0xff)"
    by (simp add: append_le32_def)
  moreover have "bit (ucast (drop_bit (n div 8 * 8) x AND mask 8) :: byte) (n mod 8) = bit x n"
    using m by (simp add: bit_simps)
  ultimately show "bit (read_le32 (append_le32 x)) n = bit x n"
    unfolding read_le32_def bit_read_le using n \<open>n div 8 < 4\<close>
    by (simp add: mask_eq_exp_minus_1)
qed

lemma read_append_le64 [simp]: "read_le64 (append_le64 x) = x"
proof (rule bit_word_eqI)
  fix n assume "n < LENGTH(64)"
  then have n: "n < 64" by simp
  have "n mod 8 < 8" by simp
  then have m: "n mod 8 < 64" by linarith
  have "n div 8 < 8" using n by linarith
  then have "append_le64 x ! (n div 8) = ucast (drop_bit (n div 8 * 8) x AND 0xff)"
    by (simp add: append_le64_def)
  moreover have "bit (ucast (drop_bit (n div 8 * 8) x AND mask 8) :: byte) (n mod 8) = bit x n"
    using m by (simp add: bit_simps)
  ultimately show "bit (read_le64 (append_le64 x)) n = bit x n"
    unfolding read_le64_def bit_read_le using n \<open>n div 8 < 8\<close>
    by (simp add: mask_eq_exp_minus_1)
qed

text \<open>Bytes of the right number are the encoding of what they decode to.\<close>

lemma append_read_le32: "length p = 4 \<Longrightarrow> append_le32 (read_le32 p) = p"
proof (rule nth_equalityI)
  fix i assume len: "length p = 4" and "i < length (append_le32 (read_le32 p))"
  then have i: "i < 4" by simp
  show "append_le32 (read_le32 p) ! i = p ! i"
  proof (rule bit_word_eqI)
    fix n assume "n < LENGTH(8)"
    then have n: "n < 8" by simp
    have "append_le32 (read_le32 p) ! i = ucast (drop_bit (i * 8) (read_le32 p) AND mask 8)"
      using i by (simp add: append_le32_def mask_eq_exp_minus_1)
    then show "bit (append_le32 (read_le32 p) ! i) n = bit (p ! i) n"
      using n i unfolding read_le32_def by (simp add: bit_simps bit_read_le)
  qed
qed simp

lemma append_read_le64: "length p = 8 \<Longrightarrow> append_le64 (read_le64 p) = p"
proof (rule nth_equalityI)
  fix i assume len: "length p = 8" and "i < length (append_le64 (read_le64 p))"
  then have i: "i < 8" by simp
  show "append_le64 (read_le64 p) ! i = p ! i"
  proof (rule bit_word_eqI)
    fix n assume "n < LENGTH(8)"
    then have n: "n < 8" by simp
    have "append_le64 (read_le64 p) ! i = ucast (drop_bit (i * 8) (read_le64 p) AND mask 8)"
      using i by (simp add: append_le64_def mask_eq_exp_minus_1)
    then show "bit (append_le64 (read_le64 p) ! i) n = bit (p ! i) n"
      using n i unfolding read_le64_def by (simp add: bit_simps bit_read_le)
  qed
qed simp

section \<open>Properties of the value domain\<close>

definition value_constructors ::
  "value_alloc \<Rightarrow> int \<Rightarrow> u32 \<Rightarrow> u64 \<Rightarrow> u64 \<Rightarrow> u32 \<Rightarrow> byte list \<Rightarrow> bool \<Rightarrow> esdb_value outcome list" where
  "value_constructors alloc b i32 i64 d type buf out_given =
     [esdb_value_create_null alloc out_given, esdb_value_create_bool alloc b out_given,
      esdb_value_create_int32 alloc i32 out_given, esdb_value_create_int64 alloc i64 out_given,
      esdb_value_create_double alloc d out_given,
      esdb_value_create_text alloc type (Some buf) (of_nat (length buf)) out_given,
      esdb_value_create_bytes alloc (Some buf) (of_nat (length buf)) out_given]"

lemma allocate_value_Done:
  "allocate_value alloc type out_given = Done v \<longleftrightarrow>
     out_given \<and> va_object alloc \<and> v = \<lparr>ev_type = type, ev_payload = []\<rparr>"
  by (auto simp: allocate_value_def value_fail_def)

lemma fill_payload_Done:
  "fill_payload alloc payload message (allocate_value alloc type out_given) = Done v \<longleftrightarrow>
     out_given \<and> va_object alloc \<and> va_payload alloc \<and> v = \<lparr>ev_type = type, ev_payload = payload\<rparr>"
  by (auto simp: fill_payload_def allocate_value_def value_fail_def)

lemmas constructor_defs =
  esdb_value_create_null_def esdb_value_create_bool_def esdb_value_create_int32_def
  esdb_value_create_int64_def esdb_value_create_double_def
  esdb_value_create_bytes_def esdb_value_create_text_def

lemma take_buffer: "length buf < 2 ^ 64 \<Longrightarrow> take (unat (of_nat (length buf) :: u64)) buf = buf"
  by (simp add: unat_of_nat)

lemma buffer_length_zero: "length buf < 2 ^ 64 \<Longrightarrow> (0 :: u64) < of_nat (length buf) \<longleftrightarrow> buf \<noteq> []"
  by (simp add: word_less_nat_alt unat_of_nat)

text \<open>
  C35: whatever a constructor builds is canonical: its tag is one of the nine and its payload
  has the shape ObjectStore later demands of a stored value, so a value that went through the
  constructors is never rejected as corrupt when it is read back.
\<close>

theorem constructors_are_canonical:
  assumes "length buf < 2 ^ 64"
    and "r \<in> set (value_constructors alloc b i32 i64 d type buf out_given)"
    and "r = Done v"
  shows "canonical v"
proof -
  have textual: "canonical v"
    if "esdb_value_create_text alloc type (Some buf) (of_nat (length buf)) out_given = Done v"
  proof -
    have "type \<in> {ESDB_VALUE_UTF8, ESDB_VALUE_ARRAY, ESDB_VALUE_OBJECT}"
      "valid_utf8 (Some buf) (length buf)" "v = \<lparr>ev_type = type, ev_payload = buf\<rparr>"
      using that assms(1)
      by (auto simp: esdb_value_create_text_def value_fail_def fill_payload_Done unat_of_nat
          buffer_length_zero split: if_splits)
    then show ?thesis
      by (auto simp: canonical_def payload_valid_def valid_value_type_def)
  qed
  have others: "canonical \<lparr>ev_type = t, ev_payload = p\<rparr>"
    if "t = ESDB_VALUE_NULL \<and> p = [] \<or> t = ESDB_VALUE_BOOL \<and> (p = [0] \<or> p = [1]) \<or>
      t = ESDB_VALUE_INT32 \<and> length p = 4 \<or> t = ESDB_VALUE_INT64 \<and> length p = 8 \<or>
      t = ESDB_VALUE_DOUBLE \<and> length p = 8 \<or> t = ESDB_VALUE_BYTES" for t p
    using that by (auto simp: canonical_def payload_valid_def valid_value_type_def)
  from assms(2) consider
      "r = esdb_value_create_text alloc type (Some buf) (of_nat (length buf)) out_given"
    | "r = esdb_value_create_null alloc out_given"
    | "r = esdb_value_create_bool alloc b out_given"
    | "r = esdb_value_create_int32 alloc i32 out_given"
    | "r = esdb_value_create_int64 alloc i64 out_given"
    | "r = esdb_value_create_double alloc d out_given"
    | "r = esdb_value_create_bytes alloc (Some buf) (of_nat (length buf)) out_given"
    unfolding value_constructors_def by auto
  then show ?thesis
    using assms(3) textual
    by cases (auto simp: constructor_defs(1-5) esdb_value_create_bytes_def allocate_value_Done
        fill_payload_Done intro!: others split: if_splits)
qed

theorem constructors_are_canonical_witness:
  "canonical \<lparr>ev_type = ESDB_VALUE_UTF8, ev_payload = [0xc3, 0xa9]\<rparr>"
proof (rule constructors_are_canonical)
  let ?alloc = "\<lparr>va_object = True, va_payload = True\<rparr>"
  show "length [0xc3 :: byte, 0xa9] < 2 ^ 64" by simp
  show "esdb_value_create_text ?alloc ESDB_VALUE_UTF8 (Some [0xc3, 0xa9]) 2 True
      \<in> set (value_constructors ?alloc 1 0 0 0 ESDB_VALUE_UTF8 [0xc3, 0xa9] True)"
    by (simp add: value_constructors_def)
  show "esdb_value_create_text ?alloc ESDB_VALUE_UTF8 (Some [0xc3, 0xa9]) 2 True
      = Done \<lparr>ev_type = ESDB_VALUE_UTF8, ev_payload = [0xc3, 0xa9]\<rparr>"
    by code_simp
qed

text \<open>
  Reading returns exactly what was written, for every scalar type and every bit pattern,
  and for byte buffers of any content; only allocation failure or a missing out pointer
  prevents it.
\<close>

theorem value_round_trip:
  assumes "va_object alloc" and "va_payload alloc" and "length buf < 2 ^ 64"
  shows "(\<exists>v. esdb_value_create_bool alloc b True = Done v \<and>
            esdb_value_get_bool (Some v) True = Done (if b \<noteq> 0 then 1 else 0)) \<and>
         (\<exists>v. esdb_value_create_int32 alloc i32 True = Done v \<and>
            esdb_value_get_int32 (Some v) True = Done i32) \<and>
         (\<exists>v. esdb_value_create_int64 alloc i64 True = Done v \<and>
            esdb_value_get_int64 (Some v) True = Done i64) \<and>
         (\<exists>v. esdb_value_create_double alloc bits True = Done v \<and>
            esdb_value_get_double (Some v) True = Done bits) \<and>
         (\<exists>v. esdb_value_create_bytes alloc (Some buf) (of_nat (length buf)) True = Done v \<and>
            esdb_value_get_data (Some v) True True =
              Done (if buf = [] then None else Some buf, of_nat (length buf)))"
proof (intro conjI)
  have fill: "fill_payload alloc p m (allocate_value alloc t True) =
      Done \<lparr>ev_type = t, ev_payload = p\<rparr>" for p m t
    using assms(1,2) by (simp add: fill_payload_Done)
  show "\<exists>v. esdb_value_create_bool alloc b True = Done v \<and>
      esdb_value_get_bool (Some v) True = Done (if b \<noteq> 0 then 1 else 0)"
    by (simp add: esdb_value_create_bool_def fill esdb_value_get_bool_def)
  show "\<exists>v. esdb_value_create_int32 alloc i32 True = Done v \<and>
      esdb_value_get_int32 (Some v) True = Done i32"
    by (simp add: esdb_value_create_int32_def fill esdb_value_get_int32_def)
  show "\<exists>v. esdb_value_create_int64 alloc i64 True = Done v \<and>
      esdb_value_get_int64 (Some v) True = Done i64"
    by (simp add: esdb_value_create_int64_def fill esdb_value_get_int64_def)
  show "\<exists>v. esdb_value_create_double alloc bits True = Done v \<and>
      esdb_value_get_double (Some v) True = Done bits"
    by (simp add: esdb_value_create_double_def fill esdb_value_get_double_def)
  show "\<exists>v. esdb_value_create_bytes alloc (Some buf) (of_nat (length buf)) True = Done v \<and>
      esdb_value_get_data (Some v) True True =
        Done (if buf = [] then None else Some buf, of_nat (length buf))"
    using assms(3)
    by (simp add: esdb_value_create_bytes_def fill esdb_value_get_data_def take_buffer
        buffer_length_zero)
qed

theorem value_round_trip_witness:
  "\<exists>v. esdb_value_create_int64 \<lparr>va_object = True, va_payload = True\<rparr> 0x8000000000000001 True = Done v \<and>
     esdb_value_get_int64 (Some v) True = Done 0x8000000000000001"
  using value_round_trip [of "\<lparr>va_object = True, va_payload = True\<rparr>" "[]" 0 0 "0x8000000000000001" 0]
  by simp

end
