(* ===== verification/Memory_Store.thy ===== *)
theory Memory_Store
  imports Esdb_Value
begin

text \<open>
  The process-memory Store (src/esdb_store.cpp), one named store at a time: its records under
  the byte order, its bounded change journal with the retained floor, its revision counter,
  and every operation on them, error and exception paths included. The registry of named
  stores, the handles and the subscriptions are in \<open>Memory_Registry\<close>; the abstract
  specification and the refinement proof are in \<open>Memory_Store_Spec\<close>.
\<close>

section \<open>State\<close>

datatype store_change_operation = ESDB_STORE_CHANGE_PUT | ESDB_STORE_CHANGE_DELETE | ESDB_STORE_CHANGE_CLEAR

record memory_record =
  mr_value :: esdb_value
  mr_revision :: u64

record memory_change =
  mc_revision :: u64
  mc_operation :: store_change_operation
  mc_value_type :: u32
  mc_key :: cpp_string

text \<open>
  \<open>MemoryStoreState\<close>. \<open>std::map\<close> and \<open>std::deque\<close> are lists in iteration order. The mutex
  is not a field: every operation below runs its locked region as one step.
\<close>

record memory_state =
  ms_name :: cpp_string
  ms_records :: "(cpp_string \<times> memory_record) list"
  ms_changes :: "memory_change list"
  ms_revision :: u64
  ms_retained_floor :: u64
  ms_handle_count :: u32
  ms_subscription_count :: u32

definition new_memory_state :: "cpp_string \<Rightarrow> memory_state" where
  "new_memory_state name =
     \<lparr>ms_name = name, ms_records = [], ms_changes = [], ms_revision = 0, ms_retained_floor = 0,
      ms_handle_count = 0, ms_subscription_count = 0\<rparr>"

abbreviation "ESDB_REVISION_MAX \<equiv> (9223372036854775807 :: u64)"
abbreviation "ESDB_STORE_CHANGE_CAPACITY \<equiv> (4096 :: nat)"
abbreviation "ESDB_STORE_CHANGE_LIMIT_MAX \<equiv> (10000 :: u32)"
abbreviation "ESDB_STORE_SCAN_LIMIT_MAX \<equiv> (10000 :: u32)"
abbreviation "ESDB_STORE_PATCH_MAX_ENTRIES \<equiv> (1024 :: u32)"

text \<open>
  Exceptions: a C++ allocation may throw. Each operation numbers the places where it can, and
  takes the function that says which of them throws what in this call.
\<close>

datatype exn = Bad_Alloc | Other_Exn

type_synonym throws = "nat \<Rightarrow> exn option"

definition store_fail :: "esdb_status \<Rightarrow> esdb_phase \<Rightarrow> string \<Rightarrow> 'a outcome" where
  "store_fail status phase message = Failed status (local_error status phase 0 message)"

definition caught :: "exn \<Rightarrow> esdb_phase \<Rightarrow> string \<Rightarrow> string \<Rightarrow> 'a outcome" where
  "caught e phase oom_message other_message =
     (case e of
        Bad_Alloc \<Rightarrow> store_fail ESDB_ERR_OUT_OF_MEMORY phase oom_message
      | Other_Exn \<Rightarrow> store_fail ESDB_ERR_INTERNAL phase other_message)"

definition valid_name :: "byte list option \<Rightarrow> bool" where
  "valid_name name =
     (if \<not> valid_c_string name 511 then False
      else valid_utf8 name (length (c_bytes (the name))))"

definition valid_key :: "byte list option \<Rightarrow> bool" where
  "valid_key key =
     (if \<not> valid_c_string key 4096 then False
      else valid_utf8 key (length (c_bytes (the key))))"

section \<open>The journal\<close>

text \<open>The pruning loop: drop the front, raising the floor to it, while over capacity.\<close>

fun trim_journal :: "u64 \<Rightarrow> memory_change list \<Rightarrow> u64 \<times> memory_change list" where
  "trim_journal retained_floor [] = (retained_floor, [])"
| "trim_journal retained_floor (c # cs) =
     (if ESDB_STORE_CHANGE_CAPACITY < length (c # cs) then trim_journal (mc_revision c) cs
      else (retained_floor, c # cs))"

definition retain_change :: "memory_change \<Rightarrow> memory_state \<Rightarrow> memory_state" where
  "retain_change change st =
     (let (retained_floor, changes) = trim_journal (ms_retained_floor st) (ms_changes st @ [change])
      in st\<lparr>ms_changes := changes, ms_retained_floor := retained_floor\<rparr>)"

section \<open>Mutations\<close>

text \<open>
  \<open>None\<close> for the store is a null handle. Throwing places of a put: 0 the copies of key and
  value before the lock, 1 the insertion of a new record, 2 the append to the journal. A throw
  at 2 undoes the staged record.
\<close>

definition esdb_store_put ::
  "throws \<Rightarrow> byte list option \<Rightarrow> esdb_value option \<Rightarrow> memory_state option
   \<Rightarrow> u64 outcome \<times> memory_state option" where
  "esdb_store_put throws key value store =
     (if store = None \<or> \<not> valid_key key \<or> value = None \<or> \<not> valid_value_type (ev_type (the value))
      then (store_fail ESDB_ERR_INVALID_ARGUMENT ESDB_PHASE_STORE ''invalid Store put arguments'', store)
      else
       let st = the store;
           oom = (\<lambda>e. caught e ESDB_PHASE_STORE ''failed to allocate Store mutation''
             ''unexpected exception during Store put'')
       in case throws 0 of Some e \<Rightarrow> (oom e, store)
        | None \<Rightarrow>
          if ESDB_REVISION_MAX \<le> ms_revision st
          then (store_fail ESDB_ERR_INVALID_STATE ESDB_PHASE_STORE
                  ''Store revision domain is exhausted'', store)
          else
           let map_key = c_str (the key);
               revision = ms_revision st + 1;
               candidate = \<lparr>mr_value = the value, mr_revision = revision\<rparr>;
               change = \<lparr>mc_revision = revision, mc_operation = ESDB_STORE_CHANGE_PUT,
                 mc_value_type = ev_type (the value), mc_key = map_key\<rparr>;
               existing = map_of (ms_records st) map_key
           in if existing = None \<and> throws 1 \<noteq> None then (oom (the (throws 1)), store)
              else
               let staged = st\<lparr>ms_records := map_put map_key candidate (ms_records st)\<rparr>
               in case throws 2 of
                    Some e \<Rightarrow>
                      (oom e, Some (staged\<lparr>ms_records :=
                        (case existing of
                           None \<Rightarrow> map_erase map_key (ms_records staged)
                         | Some previous \<Rightarrow> map_put map_key previous (ms_records staged))\<rparr>))
                  | None \<Rightarrow> (Done revision, Some ((retain_change change staged)\<lparr>ms_revision := revision\<rparr>)))"

text \<open>
  A patch entry is a nullable key and a nullable value. The loop works on copies; places
  \<open>Suc i\<close> throw while entry \<open>i\<close> is applied, place 0 while the live containers are copied.
\<close>

type_synonym patch_entry = "byte list option \<times> esdb_value option"

record patch_candidate =
  pc_records :: "(cpp_string \<times> memory_record) list"
  pc_changes :: "memory_change list"
  pc_revision :: u64
  pc_floor :: u64

definition patch_one :: "patch_entry \<Rightarrow> patch_candidate \<Rightarrow> patch_candidate" where
  "patch_one entry c =
     (let key = c_str (the (fst entry));
          value = the (snd entry);
          revision = pc_revision c + 1;
          rec = \<lparr>mr_value = value, mr_revision = revision\<rparr>;
          change = \<lparr>mc_revision = revision, mc_operation = ESDB_STORE_CHANGE_PUT,
            mc_value_type = ev_type value, mc_key = key\<rparr>;
          (retained_floor, changes) = trim_journal (pc_floor c) (pc_changes c @ [change])
      in \<lparr>pc_records = map_put key rec (pc_records c), pc_changes = changes,
          pc_revision = revision, pc_floor = retained_floor\<rparr>)"

fun patch_loop :: "throws \<Rightarrow> nat \<Rightarrow> patch_entry list \<Rightarrow> patch_candidate \<Rightarrow> exn + patch_candidate" where
  "patch_loop throws i [] c = Inr c"
| "patch_loop throws i (entry # entries) c =
     (case throws (Suc i) of
        Some e \<Rightarrow> Inl e
      | None \<Rightarrow> patch_loop throws (Suc i) entries (patch_one entry c))"

definition patch_entry_valid :: "patch_entry \<Rightarrow> bool" where
  "patch_entry_valid entry \<longleftrightarrow>
     valid_key (fst entry) \<and> snd entry \<noteq> None \<and> valid_value_type (ev_type (the (snd entry)))"

definition esdb_store_patch ::
  "throws \<Rightarrow> patch_entry list option \<Rightarrow> u32 \<Rightarrow> memory_state option
   \<Rightarrow> u64 outcome \<times> memory_state option" where
  "esdb_store_patch throws entries count store =
     (if store = None \<or> (count \<noteq> 0 \<and> entries = None) \<or> ESDB_STORE_PATCH_MAX_ENTRIES < count
      then (store_fail ESDB_ERR_INVALID_ARGUMENT ESDB_PHASE_STORE ''invalid Store patch arguments'', store)
      else
       let st = the store;
           items = (if count = 0 then [] else take (unat count) (the entries))
       in if \<not> list_all patch_entry_valid items
          then (store_fail ESDB_ERR_INVALID_ARGUMENT ESDB_PHASE_STORE
                  ''Store patch contains an invalid key or value'', store)
          else if count = 0 then (Done (ms_revision st), store)
          else if ESDB_REVISION_MAX - ucast count < ms_revision st
          then (store_fail ESDB_ERR_INVALID_STATE ESDB_PHASE_STORE
                  ''Store revision domain is exhausted'', store)
          else
           let oom = (\<lambda>e. caught e ESDB_PHASE_STORE ''failed to allocate atomic Store patch''
                 ''unexpected exception during Store patch'')
           in case throws 0 of Some e \<Rightarrow> (oom e, store)
            | None \<Rightarrow>
              (case patch_loop throws 0 items
                  \<lparr>pc_records = ms_records st, pc_changes = ms_changes st,
                   pc_revision = ms_revision st, pc_floor = ms_retained_floor st\<rparr> of
                 Inl e \<Rightarrow> (oom e, store)
               | Inr c \<Rightarrow>
                  (Done (pc_revision c),
                   Some (st\<lparr>ms_records := pc_records c, ms_changes := pc_changes c,
                     ms_retained_floor := pc_floor c, ms_revision := pc_revision c\<rparr>))))"

text \<open>Deletion: place 0 copies the key, place 1 appends to the journal.\<close>

definition esdb_store_delete ::
  "throws \<Rightarrow> byte list option \<Rightarrow> memory_state option
   \<Rightarrow> (bool \<times> u64) outcome \<times> memory_state option" where
  "esdb_store_delete throws key store =
     (if store = None \<or> \<not> valid_key key
      then (store_fail ESDB_ERR_INVALID_ARGUMENT ESDB_PHASE_STORE ''invalid Store delete arguments'', store)
      else
       let st = the store;
           oom = (\<lambda>e. caught e ESDB_PHASE_STORE ''failed to allocate Store delete change''
             ''unexpected exception during Store delete'')
       in case throws 0 of Some e \<Rightarrow> (oom e, store)
        | None \<Rightarrow>
          let map_key = c_str (the key) in
          if map_of (ms_records st) map_key = None then (Done (False, ms_revision st), store)
          else if ESDB_REVISION_MAX \<le> ms_revision st
          then (store_fail ESDB_ERR_INVALID_STATE ESDB_PHASE_STORE
                  ''Store revision domain is exhausted'', store)
          else
           let revision = ms_revision st + 1;
               change = \<lparr>mc_revision = revision, mc_operation = ESDB_STORE_CHANGE_DELETE,
                 mc_value_type = ESDB_VALUE_NULL, mc_key = map_key\<rparr>
           in case throws 1 of Some e \<Rightarrow> (oom e, store)
            | None \<Rightarrow>
              let st' = retain_change change st
              in (Done (True, revision),
                  Some (st'\<lparr>ms_records := map_erase map_key (ms_records st'), ms_revision := revision\<rparr>)))"

text \<open>Clearing: place 0 appends to the journal. The change carries an empty key.\<close>

definition esdb_store_clear ::
  "throws \<Rightarrow> memory_state option \<Rightarrow> (bool \<times> u64) outcome \<times> memory_state option" where
  "esdb_store_clear throws store =
     (case store of
        None \<Rightarrow> (store_fail ESDB_ERR_INVALID_ARGUMENT ESDB_PHASE_STORE ''Store handle is required'', store)
      | Some st \<Rightarrow>
          if ms_records st = [] then (Done (False, ms_revision st), store)
          else if ESDB_REVISION_MAX \<le> ms_revision st
          then (store_fail ESDB_ERR_INVALID_STATE ESDB_PHASE_STORE
                  ''Store revision domain is exhausted'', store)
          else
           let revision = ms_revision st + 1;
               change = \<lparr>mc_revision = revision, mc_operation = ESDB_STORE_CHANGE_CLEAR,
                 mc_value_type = ESDB_VALUE_NULL, mc_key = Str []\<rparr>
           in case throws 0 of
                Some e \<Rightarrow> (caught e ESDB_PHASE_STORE ''failed to allocate Store clear change''
                    ''unexpected exception during Store clear'', store)
              | None \<Rightarrow>
                  (Done (True, revision),
                   Some ((retain_change change st)\<lparr>ms_records := [], ms_revision := revision\<rparr>)))"

section \<open>Reads\<close>

definition clone_value :: "value_alloc \<Rightarrow> esdb_phase \<Rightarrow> esdb_value option \<Rightarrow> bool \<Rightarrow> esdb_value outcome" where
  "clone_value alloc phase source out_given =
     (if source = None \<or> \<not> out_given \<or> \<not> valid_value_type (ev_type (the source))
      then store_fail ESDB_ERR_INVALID_ARGUMENT phase ''invalid Store value clone arguments''
      else if \<not> va_object alloc
      then store_fail ESDB_ERR_OUT_OF_MEMORY phase ''failed to allocate Store value''
      else if \<not> va_payload alloc
      then store_fail ESDB_ERR_OUT_OF_MEMORY phase ''failed to copy Store value payload''
      else Done (the source))"

text \<open>A missing key is reported by the status alone; the error record stays cleared.\<close>

definition esdb_store_get ::
  "value_alloc \<Rightarrow> byte list option \<Rightarrow> bool \<Rightarrow> memory_state option \<Rightarrow> esdb_value outcome" where
  "esdb_store_get alloc key out_given store =
     (if store = None \<or> \<not> out_given \<or> \<not> valid_key key
      then store_fail ESDB_ERR_INVALID_ARGUMENT ESDB_PHASE_STORE ''invalid Store get arguments''
      else case map_of (ms_records (the store)) (c_str (the key)) of
             None \<Rightarrow> Failed ESDB_ERR_NOT_FOUND clear_error
           | Some rec \<Rightarrow> clone_value alloc ESDB_PHASE_STORE (Some (mr_value rec)) out_given)"

definition esdb_store_exists :: "byte list option \<Rightarrow> bool \<Rightarrow> memory_state option \<Rightarrow> bool outcome" where
  "esdb_store_exists key out_given store =
     (if store = None \<or> \<not> out_given \<or> \<not> valid_key key
      then store_fail ESDB_ERR_INVALID_ARGUMENT ESDB_PHASE_STORE ''invalid Store exists arguments''
      else Done (map_of (ms_records (the store)) (c_str (the key)) \<noteq> None))"

definition esdb_store_count :: "bool \<Rightarrow> memory_state option \<Rightarrow> u64 outcome" where
  "esdb_store_count out_given store =
     (if store = None \<or> \<not> out_given
      then store_fail ESDB_ERR_INVALID_ARGUMENT ESDB_PHASE_STORE ''Store and out_count are required''
      else Done (of_nat (length (ms_records (the store)))))"

definition esdb_store_revision :: "bool \<Rightarrow> memory_state option \<Rightarrow> u64 outcome" where
  "esdb_store_revision out_given store =
     (if store = None \<or> \<not> out_given
      then store_fail ESDB_ERR_INVALID_ARGUMENT ESDB_PHASE_STORE ''Store and out_revision are required''
      else Done (ms_revision (the store)))"

definition esdb_store_retained_floor :: "bool \<Rightarrow> memory_state option \<Rightarrow> u64 outcome" where
  "esdb_store_retained_floor out_given store =
     (if store = None \<or> \<not> out_given
      then store_fail ESDB_ERR_INVALID_ARGUMENT ESDB_PHASE_STORE ''Store and out_revision are required''
      else Done (ms_retained_floor (the store)))"

section \<open>Callbacks\<close>

text \<open>
  A host callback sees one item and its own data, and answers zero (go on), non-zero (stop) or
  throws. \<open>deliver\<close> is the delivery loop shared by scans and change queries: it counts the item
  and remembers it before it calls, so the item on which the host stops is delivered.
\<close>

datatype callback_result = Cb_Continue | Cb_Stop | Cb_Throw exn

type_synonym ('u, 'e) callback = "'u \<Rightarrow> 'e \<Rightarrow> callback_result \<times> 'u"

fun deliver ::
  "('u, 'e) callback \<Rightarrow> 'e list \<Rightarrow> 'e option \<Rightarrow> nat \<Rightarrow> 'u \<Rightarrow> bool \<times> 'e option \<times> nat \<times> 'u" where
  "deliver callback [] seen n user = (False, seen, n, user)"
| "deliver callback (e # es) seen n user =
     (case callback user e of
        (Cb_Continue, user') \<Rightarrow> deliver callback es (Some e) (Suc n) user'
      | (Cb_Stop, user') \<Rightarrow> (False, Some e, Suc n, user')
      | (Cb_Throw _, user') \<Rightarrow> (True, Some e, Suc n, user'))"

text \<open>A scan copies up to \<open>limit\<close> records after the given key, then calls back unlocked.\<close>

definition esdb_store_scan ::
  "throws \<Rightarrow> byte list option \<Rightarrow> u32 \<Rightarrow> ('u, cpp_string \<times> memory_record) callback option \<Rightarrow> 'u
   \<Rightarrow> memory_state option \<Rightarrow> u32 outcome \<times> 'u" where
  "esdb_store_scan throws after_key limit callback user store =
     (if store = None \<or> callback = None \<or> (after_key \<noteq> None \<and> \<not> valid_key after_key)
        \<or> ESDB_STORE_SCAN_LIMIT_MAX < limit
      then (store_fail ESDB_ERR_INVALID_ARGUMENT ESDB_PHASE_STORE ''invalid Store scan arguments'', user)
      else
       let limit = (if limit = 0 then ESDB_STORE_SCAN_LIMIT_MAX else limit);
           records = ms_records (the store);
           rest = (case after_key of None \<Rightarrow> records | Some k \<Rightarrow> map_after (c_str k) records);
           snapshot = take (unat limit) rest
       in case throws 0 of
            Some e \<Rightarrow> (caught e ESDB_PHASE_STORE ''failed to allocate Store scan snapshot''
               ''unexpected exception while snapshotting Store'', user)
          | None \<Rightarrow>
             (case deliver (the callback) snapshot None 0 user of
                (threw, seen, delivered, user') \<Rightarrow>
                  if threw then (store_fail ESDB_ERR_INTERNAL ESDB_PHASE_STORE
                      ''Store scan callback threw an exception'', user')
                  else (Done (of_nat delivered), user')))"

text \<open>The snapshot loop of a change query: skip what is not newer, stop at the limit.\<close>

fun collect_changes :: "u64 \<Rightarrow> nat \<Rightarrow> nat \<Rightarrow> memory_change list \<Rightarrow> memory_change list" where
  "collect_changes after_revision limit taken [] = []"
| "collect_changes after_revision limit taken (c # cs) =
     (if mc_revision c \<le> after_revision then collect_changes after_revision limit taken cs
      else if limit \<le> taken then []
      else c # collect_changes after_revision limit (Suc taken) cs)"

text \<open>
  \<open>changes_since_impl\<close>: the out parameters are the last delivered revision and the count; on
  failure they keep \<open>after_revision\<close> and 0. Place 0 reserves the snapshot, place 1 fills it.
\<close>

definition changes_since_impl ::
  "throws \<Rightarrow> u64 \<Rightarrow> u32 \<Rightarrow> ('u, memory_change) callback option \<Rightarrow> 'u \<Rightarrow> memory_state option
   \<Rightarrow> (u64 \<times> u32) outcome \<times> 'u" where
  "changes_since_impl throws after_revision limit callback user store =
     (if store = None \<or> callback = None \<or> ESDB_STORE_CHANGE_LIMIT_MAX < limit
        \<or> ESDB_REVISION_MAX < after_revision
      then (store_fail ESDB_ERR_INVALID_ARGUMENT ESDB_PHASE_SUBSCRIPTION
              ''invalid Store change query arguments'', user)
      else
       let limit = (if limit = 0 then ESDB_STORE_CHANGE_LIMIT_MAX else limit);
           st = the store;
           oom = (\<lambda>e. caught e ESDB_PHASE_SUBSCRIPTION ''failed to allocate Store change snapshot''
             ''unexpected exception while snapshotting Store changes'')
       in case throws 0 of Some e \<Rightarrow> (oom e, user)
        | None \<Rightarrow>
          if ms_revision st < after_revision
          then (store_fail ESDB_ERR_INVALID_ARGUMENT ESDB_PHASE_SUBSCRIPTION
                  ''after_revision is newer than the Store'', user)
          else if after_revision < ms_retained_floor st
          then (store_fail ESDB_ERR_GAP ESDB_PHASE_SUBSCRIPTION
                  ''requested Store history is older than the retained change floor'', user)
          else case throws 1 of Some e \<Rightarrow> (oom e, user)
           | None \<Rightarrow>
             (case deliver (the callback) (collect_changes after_revision (unat limit) 0 (ms_changes st))
                 None 0 user of
                (threw, seen, delivered, user') \<Rightarrow>
                  if threw then (store_fail ESDB_ERR_INTERNAL ESDB_PHASE_SUBSCRIPTION
                      ''Store change callback threw an exception'', user')
                  else (Done (case seen of None \<Rightarrow> after_revision | Some c \<Rightarrow> mc_revision c,
                          of_nat delivered), user')))"

definition esdb_store_changes_since ::
  "throws \<Rightarrow> u64 \<Rightarrow> u32 \<Rightarrow> ('u, memory_change) callback option \<Rightarrow> 'u \<Rightarrow> memory_state option
   \<Rightarrow> (u64 \<times> u32) outcome \<times> 'u" where
  "esdb_store_changes_since throws after_revision limit callback user store =
     (if store = None
      then (store_fail ESDB_ERR_INVALID_ARGUMENT ESDB_PHASE_SUBSCRIPTION ''Store handle is required'', user)
      else changes_since_impl throws after_revision limit callback user store)"

end
