(* ===== verification/Memory_Store_Spec.thy ===== *)
theory Memory_Store_Spec
  imports Memory_Store
begin

text \<open>
  What a process-memory Store promises, as an abstract machine: an append-only log of events.
  The records are the replay of the log, the revision is its length, the journal is its last
  4096 events and the retained floor is how many were dropped. Every operation of
  \<open>Memory_Store\<close> is shown to refine one transition of this machine, and the properties of
  the store are read off the log.
\<close>

section \<open>The log\<close>

datatype store_event = Ev_Put cpp_string esdb_value | Ev_Delete cpp_string | Ev_Clear

type_synonym history = "store_event list"

fun apply_event :: "nat \<Rightarrow> store_event \<Rightarrow> (cpp_string \<rightharpoonup> memory_record) \<Rightarrow> (cpp_string \<rightharpoonup> memory_record)" where
  "apply_event r (Ev_Put k v) m = m(k \<mapsto> \<lparr>mr_value = v, mr_revision = of_nat r\<rparr>)"
| "apply_event r (Ev_Delete k) m = m(k := None)"
| "apply_event r Ev_Clear m = Map.empty"

fun replay_from :: "nat \<Rightarrow> history \<Rightarrow> (cpp_string \<rightharpoonup> memory_record) \<Rightarrow> (cpp_string \<rightharpoonup> memory_record)" where
  "replay_from n [] m = m"
| "replay_from n (e # h) m = replay_from (Suc n) h (apply_event (Suc n) e m)"

definition replay :: "history \<Rightarrow> (cpp_string \<rightharpoonup> memory_record)" where
  "replay h = replay_from 0 h Map.empty"

fun event_change :: "nat \<Rightarrow> store_event \<Rightarrow> memory_change" where
  "event_change r (Ev_Put k v) =
     \<lparr>mc_revision = of_nat r, mc_operation = ESDB_STORE_CHANGE_PUT, mc_value_type = ev_type v, mc_key = k\<rparr>"
| "event_change r (Ev_Delete k) =
     \<lparr>mc_revision = of_nat r, mc_operation = ESDB_STORE_CHANGE_DELETE,
      mc_value_type = ESDB_VALUE_NULL, mc_key = k\<rparr>"
| "event_change r Ev_Clear =
     \<lparr>mc_revision = of_nat r, mc_operation = ESDB_STORE_CHANGE_CLEAR,
      mc_value_type = ESDB_VALUE_NULL, mc_key = Str []\<rparr>"

definition log_changes :: "history \<Rightarrow> memory_change list" where
  "log_changes h = map (\<lambda>i. event_change (Suc i) (h ! i)) [0..<length h]"

lemma replay_from_append:
  "replay_from n (h @ h') m = replay_from (n + length h) h' (replay_from n h m)"
  by (induction n h m rule: replay_from.induct) auto

lemma replay_Nil [simp]: "replay [] = Map.empty"
  by (simp add: replay_def)

lemma replay_snoc [simp]: "replay (h @ [e]) = apply_event (Suc (length h)) e (replay h)"
  by (simp add: replay_def replay_from_append)

lemma length_log_changes [simp]: "length (log_changes h) = length h"
  by (simp add: log_changes_def)

lemma log_changes_Nil [simp]: "log_changes [] = []"
  by (simp add: log_changes_def)

lemma log_changes_snoc [simp]:
  "log_changes (h @ [e]) = log_changes h @ [event_change (Suc (length h)) e]"
  by (simp add: log_changes_def nth_append)

lemma nth_log_changes: "i < length h \<Longrightarrow> log_changes h ! i = event_change (Suc i) (h ! i)"
  by (simp add: log_changes_def)

lemma revision_event_change [simp]: "mc_revision (event_change r e) = of_nat r"
  by (cases e) auto

section \<open>The refinement relation\<close>

text \<open>
  The bound on the length is the revision domain: \<open>ESDB_REVISION_MAX\<close> is \<open>2 ^ 63 - 1\<close>, so a
  revision never wraps its 64-bit word.
\<close>

text \<open>The events the validators let through: well-formed keys, known value types.\<close>

definition key_ok :: "cpp_string \<Rightarrow> bool" where
  "key_ok k \<longleftrightarrow> bytes k \<noteq> [] \<and> length (bytes k) \<le> 4096 \<and> utf8_text (bytes k)"

fun event_ok :: "store_event \<Rightarrow> bool" where
  "event_ok (Ev_Put k v) = (key_ok k \<and> valid_value_type (ev_type v))"
| "event_ok (Ev_Delete k) = key_ok k"
| "event_ok Ev_Clear = True"

lemma valid_key_ok: "valid_key key \<Longrightarrow> key_ok (c_str (the key))"
  by (cases key) (auto simp: valid_key_def c_string_iff key_ok_def c_str_def split: if_splits)

definition refines :: "memory_state \<Rightarrow> history \<Rightarrow> bool" where
  "refines st h \<longleftrightarrow>
     ordered_keys (ms_records st) \<and> map_of (ms_records st) = replay h \<and>
     list_all event_ok h \<and> length h < 2 ^ 63 \<and> unat (ms_revision st) = length h \<and>
     unat (ms_retained_floor st) = length h - ESDB_STORE_CHANGE_CAPACITY \<and>
     ms_changes st = drop (length h - ESDB_STORE_CHANGE_CAPACITY) (log_changes h)"

lemma refines_new: "refines (new_memory_state name) []"
  by (simp add: refines_def new_memory_state_def)

lemma revision_domain: "\<not> ESDB_REVISION_MAX \<le> w \<Longrightarrow> unat w + 1 < 2 ^ 63"
  by (simp add: word_le_nat_alt)

lemma next_revision:
  assumes "unat w = length h" and "\<not> ESDB_REVISION_MAX \<le> w"
  shows "w + 1 = of_nat (Suc (length h))" and "unat (w + 1) = Suc (length h)"
proof -
  from revision_domain [OF assms(2)] have "unat (w + 1) = unat w + 1"
    by (intro unat_Suc_u64) simp
  with assms(1) show "unat (w + 1) = Suc (length h)" by simp
  then have "of_nat (unat (w + 1)) = (of_nat (Suc (length h)) :: u64)"
    by (simp only:)
  then show "w + 1 = of_nat (Suc (length h))"
    by (simp del: of_nat_Suc)
qed

text \<open>The pruning loop keeps the last 4096 entries; the floor is the last revision dropped.\<close>

lemma trim_journal_eq:
  "trim_journal f cs =
     (if length cs \<le> ESDB_STORE_CHANGE_CAPACITY then f
      else mc_revision (cs ! (length cs - Suc ESDB_STORE_CHANGE_CAPACITY)),
      drop (length cs - ESDB_STORE_CHANGE_CAPACITY) cs)"
proof (induction f cs rule: trim_journal.induct)
  case (1 f)
  then show ?case by simp
next
  case (2 f c cs)
  show ?case
  proof (cases "ESDB_STORE_CHANGE_CAPACITY < length (c # cs)")
    case False
    then show ?thesis by auto
  next
    case True
    then have *: "length (c # cs) - ESDB_STORE_CHANGE_CAPACITY
        = Suc (length cs - ESDB_STORE_CHANGE_CAPACITY)"
      by simp
    show ?thesis
    proof (cases "length cs = ESDB_STORE_CHANGE_CAPACITY")
      case True
      with 2 show ?thesis by simp
    next
      case False
      with True have "\<not> length cs \<le> ESDB_STORE_CHANGE_CAPACITY"
        "length (c # cs) - Suc ESDB_STORE_CHANGE_CAPACITY
          = Suc (length cs - Suc ESDB_STORE_CHANGE_CAPACITY)"
        by simp_all
      with 2 True * show ?thesis by simp
    qed
  qed
qed

lemma trim_log:
  assumes "unat f = length h - ESDB_STORE_CHANGE_CAPACITY" and "Suc (length h) < 2 ^ 64"
    and "trim_journal f (drop (length h - ESDB_STORE_CHANGE_CAPACITY) (log_changes h)
        @ [event_change (Suc (length h)) e]) = (f', cs')"
  shows "unat f' = length (h @ [e]) - ESDB_STORE_CHANGE_CAPACITY"
    and "cs' = drop (length (h @ [e]) - ESDB_STORE_CHANGE_CAPACITY) (log_changes (h @ [e]))"
proof -
  let ?d = "length h - ESDB_STORE_CHANGE_CAPACITY"
  let ?cs = "drop ?d (log_changes h) @ [event_change (Suc (length h)) e]"
  have cs: "?cs = drop ?d (log_changes (h @ [e]))"
    by simp
  have len: "length ?cs = Suc (min (length h) ESDB_STORE_CHANGE_CAPACITY)"
    by auto
  show "cs' = drop (length (h @ [e]) - ESDB_STORE_CHANGE_CAPACITY) (log_changes (h @ [e]))"
  proof -
    have "cs' = drop (length ?cs - ESDB_STORE_CHANGE_CAPACITY) ?cs"
      using assms(3) by (simp add: trim_journal_eq)
    also have "\<dots> = drop (length ?cs - ESDB_STORE_CHANGE_CAPACITY + ?d) (log_changes (h @ [e]))"
      unfolding cs by simp
    also have "length ?cs - ESDB_STORE_CHANGE_CAPACITY + ?d
        = length (h @ [e]) - ESDB_STORE_CHANGE_CAPACITY"
      unfolding len by auto
    finally show ?thesis .
  qed
  show "unat f' = length (h @ [e]) - ESDB_STORE_CHANGE_CAPACITY"
  proof (cases "length h < ESDB_STORE_CHANGE_CAPACITY")
    case True
    then show ?thesis
      using assms(1,3) by (simp add: trim_journal_eq)
  next
    case False
    then have "\<not> length ?cs \<le> ESDB_STORE_CHANGE_CAPACITY" "length ?cs - Suc ESDB_STORE_CHANGE_CAPACITY = 0"
      unfolding len by auto
    then have "f' = mc_revision (?cs ! 0)"
      using assms(3) by (simp only: trim_journal_eq if_False prod.inject)
    also have "?cs ! 0 = log_changes (h @ [e]) ! ?d"
      unfolding cs by (subst nth_drop) auto
    also have "\<dots> = event_change (Suc ?d) ((h @ [e]) ! ?d)"
      by (rule nth_log_changes) simp
    finally have "f' = of_nat (Suc ?d)" by simp
    moreover have "Suc ?d < 2 ^ 64"
      using assms(2) by simp
    ultimately have "unat f' = Suc ?d"
      by (simp add: unat_of_nat del: of_nat_Suc)
    with False show ?thesis by simp
  qed
qed

text \<open>One transition: a record update paired with its event keeps the relation.\<close>

lemma refines_step:
  assumes "refines st h" and "\<not> ESDB_REVISION_MAX \<le> ms_revision st"
    and "ordered_keys records" and "map_of records = apply_event (Suc (length h)) e (replay h)"
    and "change = event_change (Suc (length h)) e" and "event_ok e"
  shows "refines ((retain_change change st)\<lparr>ms_records := records, ms_revision := ms_revision st + 1\<rparr>)
    (h @ [e])"
proof -
  obtain f' cs' where t: "trim_journal (ms_retained_floor st) (ms_changes st @ [change]) = (f', cs')"
    by fastforce
  have st: "unat (ms_revision st) = length h" "ms_changes st = drop (length h - 4096) (log_changes h)"
    "unat (ms_retained_floor st) = length h - 4096"
    using assms(1) by (auto simp: refines_def)
  have len: "Suc (length h) < 2 ^ 63"
    using revision_domain [OF assms(2)] st(1) by simp
  then have "unat f' = length (h @ [e]) - 4096"
    "cs' = drop (length (h @ [e]) - 4096) (log_changes (h @ [e]))"
    using trim_log [of "ms_retained_floor st" h e f' cs'] t st assms(5) by simp_all
  moreover have "unat (ms_revision st + 1) = Suc (length h)"
    by (rule next_revision(2) [OF st(1) assms(2)])
  ultimately show ?thesis
    using assms(1,3,4,6) len t by (simp add: refines_def retain_change_def)
qed

section \<open>The contract of a mutation\<close>

text \<open>
  What every mutating operation promises: a null handle is refused; a failure of any kind,
  thrown exceptions included, leaves the store exactly as it was; a success is the transition
  that appends the operation's events to the log and touches nothing else.
\<close>

definition same_identity :: "memory_state \<Rightarrow> memory_state \<Rightarrow> bool" where
  "same_identity st st' \<longleftrightarrow> ms_name st' = ms_name st \<and>
     ms_handle_count st' = ms_handle_count st \<and>
     ms_subscription_count st' = ms_subscription_count st"

lemma same_identity_refl [simp]: "same_identity st st"
  by (simp add: same_identity_def)

locale store_mutation =
  fixes mutate :: "memory_state option \<Rightarrow> 'a outcome \<times> memory_state option"
    and events :: "'a \<Rightarrow> history"
  assumes null_refused: "mutate None = (r, store') \<Longrightarrow> status_of r \<noteq> ESDB_OK \<and> store' = None"
    and failure_keeps: "ordered_keys (ms_records st) \<Longrightarrow> mutate (Some st) = (Failed s e, store')
      \<Longrightarrow> s \<noteq> ESDB_OK \<and> err_status e = s \<and> store' = Some st"
    and success_appends: "refines st h \<Longrightarrow> mutate (Some st) = (Done a, store') \<Longrightarrow>
      \<exists>st'. store' = Some st' \<and> refines st' (h @ events a) \<and> same_identity st st'"
begin

text \<open>The one-step simulation, with the log of the result named in both cases.\<close>

lemma simulates:
  assumes "refines st h"
  shows "\<exists>st'. snd (mutate (Some st)) = Some st' \<and> same_identity st st' \<and>
    refines st' (h @ (case fst (mutate (Some st)) of Done a \<Rightarrow> events a | Failed _ _ \<Rightarrow> []))"
proof (cases "mutate (Some st)")
  case (Pair r store')
  show ?thesis
  proof (cases r)
    case (Done a)
    with Pair success_appends [OF assms, of a store'] show ?thesis by auto
  next
    case (Failed s e)
    with Pair failure_keeps [of st s e store'] assms show ?thesis
      by (auto simp: refines_def)
  qed
qed

lemma failure_atomic:
  assumes "refines st h" and "status_of (fst (mutate (Some st))) \<noteq> ESDB_OK"
  shows "snd (mutate (Some st)) = Some st"
proof (cases "mutate (Some st)")
  case (Pair r store')
  with assms failure_keeps [of st _ _ store'] show ?thesis
    by (cases r) (auto simp: refines_def)
qed

end

lemma store_fail_status [simp]: "status_of (store_fail s ph m) = s"
  by (simp add: store_fail_def)

lemma store_fail_Failed: "store_fail s ph m = Failed s' e \<longleftrightarrow> s' = s \<and> e = local_error s ph 0 m"
  by (auto simp: store_fail_def)

lemma store_fail_Done [simp]: "store_fail s ph m \<noteq> Done a"
  by (simp add: store_fail_def)

lemma local_error_status [simp]: "err_status (local_error s ph c m) = s"
  by (simp add: local_error_def)

lemma caught_Done [simp]: "caught x ph m m' \<noteq> Done a"
  by (cases x) (auto simp: caught_def)

lemma caught_Failed:
  "caught x ph m m' = Failed s e \<Longrightarrow>
     (s = ESDB_ERR_OUT_OF_MEMORY \<or> s = ESDB_ERR_INTERNAL) \<and> err_status e = s"
  by (cases x) (auto simp: caught_def store_fail_def)

lemma caught_status: "status_of (caught x ph m m') \<noteq> ESDB_OK"
  by (cases x) (auto simp: caught_def)

lemmas failure_simps = store_fail_Failed caught_Failed caught_status

subsection \<open>Put\<close>

lemma staged_put_undone:
  assumes "ordered_keys records"
  shows "(case map_of records k of
      None \<Rightarrow> map_erase k (map_put k v records)
    | Some previous \<Rightarrow> map_put k previous (map_put k v records)) = records"
  using assms std_map.undo_fresh_put [of records k v] std_map.undo_overwrite [of records k _ v]
  by (auto split: option.splits)

lemma put_failure_keeps:
  assumes "ordered_keys (ms_records st)"
    and "esdb_store_put throws key value (Some st) = (Failed s e, store')"
  shows "s \<noteq> ESDB_OK \<and> err_status e = s \<and> store' = Some st"
proof -
  have undo: "map_of (ms_records st) k = None \<Longrightarrow>
      map_erase k (map_put k v (ms_records st)) = ms_records st"
    "map_of (ms_records st) k = Some p \<Longrightarrow>
      map_put k p (map_put k v (ms_records st)) = ms_records st" for k v p
    using staged_put_undone [OF assms(1), of k v] by simp_all
  show ?thesis
    using assms(2)
    by (auto simp: esdb_store_put_def Let_def store_fail_Failed undo
        dest: caught_Failed split: if_splits option.splits)
qed

lemma put_success_shape:
  assumes "esdb_store_put throws key value (Some st) = (Done revision, store')"
  shows "valid_key key \<and> value \<noteq> None \<and> valid_value_type (ev_type (the value)) \<and>
    \<not> ESDB_REVISION_MAX \<le> ms_revision st \<and> revision = ms_revision st + 1 \<and>
    store' = Some ((retain_change
        \<lparr>mc_revision = ms_revision st + 1, mc_operation = ESDB_STORE_CHANGE_PUT,
         mc_value_type = ev_type (the value), mc_key = c_str (the key)\<rparr>
        (st\<lparr>ms_records := map_put (c_str (the key))
          \<lparr>mr_value = the value, mr_revision = ms_revision st + 1\<rparr> (ms_records st)\<rparr>))
      \<lparr>ms_revision := ms_revision st + 1\<rparr>)"
  using assms
  by (auto simp: esdb_store_put_def Let_def split: if_splits option.splits)

lemma retain_change_records [simp]:
  "retain_change change (st\<lparr>ms_records := records\<rparr>)
     = (retain_change change st)\<lparr>ms_records := records\<rparr>"
  by (simp add: retain_change_def split_beta Let_def)

lemma retain_change_identity [simp]:
  "ms_name (retain_change change st) = ms_name st"
  "ms_records (retain_change change st) = ms_records st"
  "ms_revision (retain_change change st) = ms_revision st"
  "ms_handle_count (retain_change change st) = ms_handle_count st"
  "ms_subscription_count (retain_change change st) = ms_subscription_count st"
  by (simp_all add: retain_change_def split_beta Let_def)

lemma put_success_appends:
  assumes "refines st h" and "esdb_store_put throws key value (Some st) = (Done revision, store')"
  shows "\<exists>st'. store' = Some st' \<and> refines st' (h @ [Ev_Put (c_str (the key)) (the value)]) \<and>
    same_identity st st'"
proof -
  note shape = put_success_shape [OF assms(2)]
  from assms(1) have st: "ordered_keys (ms_records st)" "map_of (ms_records st) = replay h"
    "unat (ms_revision st) = length h"
    by (auto simp: refines_def)
  with shape have rev: "ms_revision st + 1 = of_nat (Suc (length h))"
    by (intro next_revision(1)) auto
  have "refines ((retain_change
        \<lparr>mc_revision = ms_revision st + 1, mc_operation = ESDB_STORE_CHANGE_PUT,
         mc_value_type = ev_type (the value), mc_key = c_str (the key)\<rparr> st)
      \<lparr>ms_records := map_put (c_str (the key))
          \<lparr>mr_value = the value, mr_revision = ms_revision st + 1\<rparr> (ms_records st),
       ms_revision := ms_revision st + 1\<rparr>) (h @ [Ev_Put (c_str (the key)) (the value)])"
    using shape st(1,2) by (intro refines_step [OF assms(1)])
      (simp_all only: rev, simp_all add: map_of_map_put ordered_map_put valid_key_ok)
  with shape show ?thesis
    by (simp add: same_identity_def)
qed

interpretation put: store_mutation "esdb_store_put throws key v"
    "\<lambda>_. [Ev_Put (c_str (the key)) (the v)]" for throws key v
proof
  show "esdb_store_put throws key v None = (r, store') \<Longrightarrow> status_of r \<noteq> ESDB_OK \<and> store' = None"
    for r store'
    by (auto simp: esdb_store_put_def)
qed (use put_failure_keeps put_success_appends in \<open>blast+\<close>)

subsection \<open>Patch\<close>

definition entry_event :: "patch_entry \<Rightarrow> store_event" where
  "entry_event entry = Ev_Put (c_str (the (fst entry))) (the (snd entry))"

definition with_candidate :: "memory_state \<Rightarrow> patch_candidate \<Rightarrow> memory_state" where
  "with_candidate st c = st\<lparr>ms_records := pc_records c, ms_changes := pc_changes c,
     ms_retained_floor := pc_floor c, ms_revision := pc_revision c\<rparr>"

lemma patch_one_is_put:
  assumes "patch_entry_valid entry" and "\<not> ESDB_REVISION_MAX \<le> pc_revision c"
  shows "esdb_store_put (\<lambda>_. None) (fst entry) (snd entry) (Some (with_candidate st c))
    = (Done (pc_revision c + 1), Some (with_candidate st (patch_one entry c)))"
  using assms
  by (auto simp: esdb_store_put_def patch_entry_valid_def with_candidate_def patch_one_def
      retain_change_def Let_def split: prod.splits)

lemma patch_loop_refines:
  assumes "refines (with_candidate st c) h" and "list_all patch_entry_valid entries"
    and "length h + length entries < 2 ^ 63" and "patch_loop throws i entries c = Inr c'"
  shows "refines (with_candidate st c') (h @ map entry_event entries)"
  using assms
proof (induction throws i entries c arbitrary: h rule: patch_loop.induct)
  case (1 throws i c)
  then show ?case by simp
next
  case (2 throws i entry entries c)
  from "2.prems"(1) have "unat (pc_revision c) = length h"
    by (simp add: refines_def with_candidate_def)
  with "2.prems"(3) have "\<not> ESDB_REVISION_MAX \<le> pc_revision c"
    by (simp add: word_le_nat_alt)
  from patch_one_is_put [OF _ this] "2.prems"(2)
  have "esdb_store_put (\<lambda>_. None) (fst entry) (snd entry) (Some (with_candidate st c))
    = (Done (pc_revision c + 1), Some (with_candidate st (patch_one entry c)))"
    by simp
  from put_success_appends [OF "2.prems"(1) this]
  have "refines (with_candidate st (patch_one entry c)) (h @ [entry_event entry])"
    by (auto simp: entry_event_def)
  with "2.IH" [of "h @ [entry_event entry]"] "2.prems" show ?case
    by (auto split: option.splits)
qed

lemma patch_domain:
  assumes "\<not> ESDB_REVISION_MAX - ucast (count :: u32) < w"
  shows "unat w + unat count < 2 ^ 63"
proof -
  have c: "unat (ucast count :: u64) = unat count"
    using unat_u32_bound [of count] by (simp add: unsigned_ucast_eq take_bit_nat_eq_self)
  have "unat (ESDB_REVISION_MAX - ucast count) = 2 ^ 63 - 1 - unat count"
    using c unat_u32_bound [of count] by (subst unat_sub) (auto simp: word_le_nat_alt)
  with assms have "unat w \<le> 2 ^ 63 - 1 - unat count"
    by (simp add: word_less_nat_alt)
  with unat_u32_bound [of count] show ?thesis by simp
qed

definition patch_items :: "patch_entry list option \<Rightarrow> u32 \<Rightarrow> patch_entry list" where
  "patch_items entries count = (if count = 0 then [] else take (unat count) (the entries))"

definition candidate_of :: "memory_state \<Rightarrow> patch_candidate" where
  "candidate_of st = \<lparr>pc_records = ms_records st, pc_changes = ms_changes st,
     pc_revision = ms_revision st, pc_floor = ms_retained_floor st\<rparr>"

lemma patch_success_shape:
  assumes "esdb_store_patch throws entries count (Some st) = (Done revision, store')" and "count \<noteq> 0"
  shows "\<exists>c. list_all patch_entry_valid (patch_items entries count) \<and>
    \<not> ESDB_REVISION_MAX - ucast count < ms_revision st \<and>
    patch_loop throws 0 (patch_items entries count) (candidate_of st) = Inr c \<and>
    store' = Some (with_candidate st c) \<and> revision = pc_revision c"
proof -
  have conds: "list_all patch_entry_valid (patch_items entries count)" "throws 0 = None"
    "\<not> ESDB_REVISION_MAX - ucast count < ms_revision st" "entries \<noteq> None"
    "\<not> ESDB_STORE_PATCH_MAX_ENTRIES < count"
    using assms by (auto simp: esdb_store_patch_def Let_def patch_items_def
        split: if_splits option.splits)
  with assms have "(case patch_loop throws 0 (patch_items entries count) (candidate_of st) of
      Inl e \<Rightarrow> (caught e ESDB_PHASE_STORE ''failed to allocate atomic Store patch''
                 ''unexpected exception during Store patch'', Some st)
    | Inr c \<Rightarrow> (Done (pc_revision c), Some (with_candidate st c))) = (Done revision, store')"
    by (simp add: esdb_store_patch_def Let_def patch_items_def candidate_of_def with_candidate_def
        cong: sum.case_cong)
  with conds show ?thesis
    by (cases "patch_loop throws 0 (patch_items entries count) (candidate_of st)") auto
qed

lemma patch_success_appends:
  assumes "refines st h" and "esdb_store_patch throws entries count (Some st) = (Done revision, store')"
  shows "\<exists>st'. store' = Some st' \<and>
    refines st' (h @ map entry_event (patch_items entries count)) \<and> same_identity st st'"
proof (cases "count = 0")
  case True
  with assms show ?thesis
    by (auto simp: esdb_store_patch_def Let_def patch_items_def split: if_splits)
next
  case False
  let ?c = "candidate_of st"
  from patch_success_shape [OF assms(2) False] obtain c where
    valid: "list_all patch_entry_valid (patch_items entries count)"
    and room: "\<not> ESDB_REVISION_MAX - ucast count < ms_revision st"
    and loop: "patch_loop throws 0 (patch_items entries count) ?c = Inr c"
    and out: "store' = Some (with_candidate st c)" "revision = pc_revision c"
    by blast
  have "with_candidate st ?c = st"
    by (simp add: with_candidate_def candidate_of_def)
  moreover have "length (patch_items entries count) \<le> unat count"
    by (simp add: patch_items_def)
  moreover have "unat (ms_revision st) = length h"
    using assms(1) by (simp add: refines_def)
  ultimately have "refines (with_candidate st c) (h @ map entry_event (patch_items entries count))"
    using patch_loop_refines [of st ?c h "patch_items entries count" throws 0 c]
      assms(1) valid loop patch_domain [OF room] by auto
  then show ?thesis
    using out(1) by (auto simp: same_identity_def with_candidate_def)
qed

lemma patch_failure_keeps:
  assumes "esdb_store_patch throws entries count (Some st) = (Failed s e, store')"
  shows "s \<noteq> ESDB_OK \<and> err_status e = s \<and> store' = Some st"
  using assms
  by (auto simp: esdb_store_patch_def Let_def store_fail_Failed
      dest: caught_Failed split: if_splits option.splits sum.splits)

interpretation patch: store_mutation "esdb_store_patch throws entries count"
    "\<lambda>_. map entry_event (patch_items entries count)" for throws entries count
proof
  show "esdb_store_patch throws entries count None = (r, store') \<Longrightarrow>
      status_of r \<noteq> ESDB_OK \<and> store' = None" for r store'
    by (auto simp: esdb_store_patch_def)
qed (use patch_failure_keeps patch_success_appends in \<open>blast+\<close>)

subsection \<open>Delete and clear\<close>

lemma delete_failure_keeps:
  assumes "esdb_store_delete throws key (Some st) = (Failed s e, store')"
  shows "s \<noteq> ESDB_OK \<and> err_status e = s \<and> store' = Some st"
  using assms
  by (auto simp: esdb_store_delete_def Let_def store_fail_Failed
      dest: caught_Failed split: if_splits option.splits)

definition delete_events :: "byte list option \<Rightarrow> bool \<times> u64 \<Rightarrow> history" where
  "delete_events key r = (if fst r then [Ev_Delete (c_str (the key))] else [])"

lemma delete_success_appends:
  assumes "refines st h" and "esdb_store_delete throws key (Some st) = (Done r, store')"
  shows "\<exists>st'. store' = Some st' \<and> refines st' (h @ delete_events key r) \<and> same_identity st st'"
proof (cases "fst r")
  case False
  with assms show ?thesis
    by (auto simp: esdb_store_delete_def Let_def delete_events_def split: if_splits option.splits)
next
  case True
  let ?k = "c_str (the key)"
  from assms(1) have st: "ordered_keys (ms_records st)" "map_of (ms_records st) = replay h"
    "unat (ms_revision st) = length h"
    by (auto simp: refines_def)
  from True assms(2) have room: "\<not> ESDB_REVISION_MAX \<le> ms_revision st"
    and valid: "valid_key key"
    and store': "store' = Some ((retain_change \<lparr>mc_revision = ms_revision st + 1,
        mc_operation = ESDB_STORE_CHANGE_DELETE, mc_value_type = ESDB_VALUE_NULL, mc_key = ?k\<rparr> st)
      \<lparr>ms_records := map_erase ?k (ms_records st), ms_revision := ms_revision st + 1\<rparr>)"
    by (auto simp: esdb_store_delete_def Let_def split: if_splits option.splits)
  have rev: "ms_revision st + 1 = of_nat (Suc (length h))"
    using st(3) room by (rule next_revision(1))
  have "refines ((retain_change \<lparr>mc_revision = ms_revision st + 1,
        mc_operation = ESDB_STORE_CHANGE_DELETE, mc_value_type = ESDB_VALUE_NULL, mc_key = ?k\<rparr> st)
      \<lparr>ms_records := map_erase ?k (ms_records st), ms_revision := ms_revision st + 1\<rparr>)
      (h @ [Ev_Delete ?k])"
    using room valid st(1,2) by (intro refines_step [OF assms(1)])
      (simp_all only: rev, simp_all add: map_of_map_erase ordered_map_erase valid_key_ok)
  with True store' show ?thesis
    by (simp add: same_identity_def delete_events_def)
qed

interpretation delete: store_mutation "esdb_store_delete throws key" "delete_events key"
  for throws key
proof
  show "esdb_store_delete throws key None = (r, store') \<Longrightarrow> status_of r \<noteq> ESDB_OK \<and> store' = None"
    for r store'
    by (auto simp: esdb_store_delete_def)
qed (use delete_failure_keeps delete_success_appends in \<open>blast+\<close>)

definition clear_events :: "bool \<times> u64 \<Rightarrow> history" where
  "clear_events r = (if fst r then [Ev_Clear] else [])"

lemma clear_failure_keeps:
  assumes "esdb_store_clear throws (Some st) = (Failed s e, store')"
  shows "s \<noteq> ESDB_OK \<and> err_status e = s \<and> store' = Some st"
  using assms
  by (auto simp: esdb_store_clear_def Let_def store_fail_Failed
      dest: caught_Failed split: if_splits option.splits)

lemma clear_success_appends:
  assumes "refines st h" and "esdb_store_clear throws (Some st) = (Done r, store')"
  shows "\<exists>st'. store' = Some st' \<and> refines st' (h @ clear_events r) \<and> same_identity st st'"
proof (cases "fst r")
  case False
  with assms show ?thesis
    by (auto simp: esdb_store_clear_def Let_def clear_events_def split: if_splits option.splits)
next
  case True
  from assms(1) have st: "unat (ms_revision st) = length h"
    by (auto simp: refines_def)
  from True assms(2) have room: "\<not> ESDB_REVISION_MAX \<le> ms_revision st"
    and store': "store' = Some ((retain_change \<lparr>mc_revision = ms_revision st + 1,
        mc_operation = ESDB_STORE_CHANGE_CLEAR, mc_value_type = ESDB_VALUE_NULL, mc_key = Str []\<rparr> st)
      \<lparr>ms_records := [], ms_revision := ms_revision st + 1\<rparr>)"
    by (auto simp: esdb_store_clear_def Let_def split: if_splits option.splits)
  have rev: "ms_revision st + 1 = of_nat (Suc (length h))"
    using st room by (rule next_revision(1))
  have "refines ((retain_change \<lparr>mc_revision = ms_revision st + 1,
        mc_operation = ESDB_STORE_CHANGE_CLEAR, mc_value_type = ESDB_VALUE_NULL, mc_key = Str []\<rparr> st)
      \<lparr>ms_records := [], ms_revision := ms_revision st + 1\<rparr>) (h @ [Ev_Clear])"
    using room by (intro refines_step [OF assms(1)]) (simp_all only: rev, simp_all)
  with True store' show ?thesis
    by (simp add: same_identity_def clear_events_def)
qed

interpretation clear: store_mutation "esdb_store_clear throws" clear_events for throws
proof
  show "esdb_store_clear throws None = (r, store') \<Longrightarrow> status_of r \<noteq> ESDB_OK \<and> store' = None"
    for r store'
    by (auto simp: esdb_store_clear_def)
qed (use clear_failure_keeps clear_success_appends in \<open>blast+\<close>)

section \<open>Delivery\<close>

text \<open>A callback that also records what it was shown, to state what a host sees.\<close>

definition logged :: "('u, 'e) callback \<Rightarrow> ('u \<times> 'e list, 'e) callback" where
  "logged callback = (\<lambda>(user, seen) e. case callback user e of (r, user') \<Rightarrow> (r, (user', seen @ [e])))"

lemma deliver_logged:
  "deliver (logged callback) es prev n (user, seen) = (threw, prev', m, (user', seen')) \<Longrightarrow>
     \<exists>k \<le> length es. m = n + k \<and> seen' = seen @ take k es \<and>
       prev' = (if k = 0 then prev else Some (es ! (k - 1)))"
proof (induction es arbitrary: prev n user seen)
  case Nil
  then show ?case by simp
next
  case (Cons e es)
  obtain r u where cb: "callback user e = (r, u)"
    by fastforce
  show ?case
  proof (cases r)
    case Cb_Continue
    with cb Cons.prems have "deliver (logged callback) es (Some e) (Suc n) (u, seen @ [e])
        = (threw, prev', m, (user', seen'))"
      by (simp add: logged_def)
    from Cons.IH [OF this] obtain k where
      "k \<le> length es" "m = Suc n + k" "seen' = (seen @ [e]) @ take k es"
      "prev' = (if k = 0 then Some e else Some (es ! (k - 1)))"
      by blast
    then show ?thesis
      by (intro exI [of _ "Suc k"]) (auto simp: nth_Cons')
  next
    case Cb_Stop
    with cb Cons.prems show ?thesis
      by (intro exI [of _ 1]) (auto simp: logged_def)
  next
    case Cb_Throw
    with cb Cons.prems show ?thesis
      by (intro exI [of _ 1]) (auto simp: logged_def)
  qed
qed

lemma deliver_all:
  assumes "\<And>user e. fst (callback user e) = Cb_Continue"
  shows "\<exists>user'. deliver callback es prev n user =
    (False, if es = [] then prev else Some (last es), n + length es, user')"
proof (induction es arbitrary: prev n user)
  case Nil
  then show ?case by simp
next
  case (Cons e es)
  obtain u where "callback user e = (Cb_Continue, u)"
    using assms [of user e] by (metis prod.collapse)
  with Cons [of "Some e" "Suc n" u] show ?case by auto
qed

lemma collect_changes_eq:
  "collect_changes a limit taken cs = take (limit - taken) (filter (\<lambda>c. a < mc_revision c) cs)"
proof (induction a limit taken cs rule: collect_changes.induct)
  case (1 a limit taken)
  then show ?case by simp
next
  case (2 a limit taken c cs)
  show ?case
  proof (cases "mc_revision c \<le> a")
    case True
    with 2 show ?thesis by (simp add: not_less)
  next
    case newer: False
    show ?thesis
    proof (cases "limit \<le> taken")
      case True
      with newer show ?thesis by simp
    next
      case False
      then have "limit - taken = Suc (limit - Suc taken)" by simp
      with 2(2) [OF newer False] newer False show ?thesis by (auto dest: leD)
    qed
  qed
qed

lemma log_revision:
  assumes "length h < 2 ^ 63" and "i < length h"
  shows "unat (mc_revision (log_changes h ! i)) = Suc i"
  using assms by (simp add: nth_log_changes unat_of_nat del: of_nat_Suc)

lemma newer_changes:
  assumes "length h < 2 ^ 63" and "d \<le> unat a" and "unat a \<le> length h"
  shows "filter (\<lambda>c. a < mc_revision c) (drop d (log_changes h)) = drop (unat a) (log_changes h)"
proof -
  let ?L = "log_changes h"
  have "drop d ?L = take (unat a - d) (drop d ?L) @ drop (unat a) ?L"
    using assms(2) by (metis append_take_drop_id drop_drop le_add_diff_inverse2)
  moreover have "\<not> a < mc_revision c" if "c \<in> set (take (unat a - d) (drop d ?L))" for c
  proof -
    from that obtain i where "i < unat a - d" "d + i < length h" "c = ?L ! (d + i)"
      by (auto simp: in_set_conv_nth)
    then show ?thesis
      using log_revision [OF assms(1), of "d + i"] by (simp add: u64_less_iff)
  qed
  moreover have "a < mc_revision c" if "c \<in> set (drop (unat a) ?L)" for c
  proof -
    from that obtain i where "unat a + i < length h" "c = ?L ! (unat a + i)"
      by (auto simp: in_set_conv_nth less_diff_conv add.commute)
    then show ?thesis
      using log_revision [OF assms(1), of "unat a + i"] by (simp add: u64_less_iff)
  qed
  ultimately show ?thesis
    by (metis (no_types, lifting) filter_False filter_True filter_append self_append_conv2)
qed

text \<open>The effective limit of a query: zero asks for the maximum.\<close>

definition change_limit :: "u32 \<Rightarrow> nat" where
  "change_limit limit = (if limit = 0 then 10000 else unat limit)"

lemma changes_since_Done:
  assumes "refines st h"
    and "changes_since_impl throws a limit (Some (logged callback)) (user, []) (Some st)
      = (Done (revision, count), (user', seen))"
  shows "length h - ESDB_STORE_CHANGE_CAPACITY \<le> unat a \<and> unat a \<le> length h \<and>
    unat count \<le> change_limit limit \<and> seen = take (unat count) (drop (unat a) (log_changes h)) \<and>
    length seen = unat count \<and> unat revision = unat a + unat count"
proof -
  let ?L = "log_changes h"
  have st: "length h < 2 ^ 63" "unat (ms_revision st) = length h"
    "unat (ms_retained_floor st) = length h - ESDB_STORE_CHANGE_CAPACITY"
    "ms_changes st = drop (length h - ESDB_STORE_CHANGE_CAPACITY) ?L"
    using assms(1) by (auto simp: refines_def)
  let ?lim = "if limit = 0 then ESDB_STORE_CHANGE_LIMIT_MAX else limit"
  let ?es = "collect_changes a (unat ?lim) 0 (ms_changes st)"
  have lim: "unat ?lim = change_limit limit" "\<not> ESDB_STORE_CHANGE_LIMIT_MAX < limit"
    using assms(2) by (auto simp: change_limit_def changes_since_impl_def split: if_splits)
  obtain threw prev m u' s' where
    d: "deliver (logged callback) ?es None 0 (user, []) = (threw, prev, m, (u', s'))"
    by (metis prod_cases3 surj_pair)
  from assms(2) d have cond: "\<not> ms_revision st < a" "\<not> a < ms_retained_floor st"
    and out: "count = of_nat m" "seen = s'"
      "revision = (case prev of None \<Rightarrow> a | Some c \<Rightarrow> mc_revision c)"
    by (auto simp: changes_since_impl_def Let_def split: if_splits option.splits)
  from cond have a: "length h - ESDB_STORE_CHANGE_CAPACITY \<le> unat a" "unat a \<le> length h"
    by (auto simp: st not_less u64_le_iff)
  have es: "?es = take (change_limit limit) (drop (unat a) ?L)"
    unfolding collect_changes_eq st(4) newer_changes [OF st(1) a] lim(1) by simp
  from deliver_logged [OF d] obtain k where k: "k \<le> length ?es" "m = k" "s' = take k ?es"
    "prev = (if k = 0 then None else Some (?es ! (k - 1)))"
    by auto
  have "k \<le> change_limit limit" "k \<le> length h - unat a"
    using k(1) unfolding es by auto
  moreover have "change_limit limit \<le> 10000"
    using lim(2) by (auto simp: change_limit_def word_less_nat_alt)
  ultimately have count: "unat count = k"
    using out(1) k(2) by (simp add: unat_of_nat)
  have seen: "s' = take k (drop (unat a) ?L)"
    using k(3) \<open>k \<le> change_limit limit\<close> unfolding es by (simp add: min_def)
  have "unat revision = unat a + k"
  proof (cases "k = 0")
    case True
    with out(3) k(4) show ?thesis by simp
  next
    case False
    with \<open>k \<le> length h - unat a\<close> have "?es ! (k - 1) = ?L ! (unat a + (k - 1))"
      "unat a + (k - 1) < length h"
      using k(1) unfolding es by auto
    with False out(3) k(4) show ?thesis
      using log_revision [OF st(1), of "unat a + (k - 1)"] by simp
  qed
  with a count seen out(2) \<open>k \<le> change_limit limit\<close> \<open>k \<le> length h - unat a\<close> show ?thesis
    by simp
qed

section \<open>Reads over the log\<close>

lemma get_replay:
  assumes "refines st h" and "valid_key key" and "va_object alloc" and "va_payload alloc"
  shows "esdb_store_get alloc key True (Some st) =
    (case replay h (c_str (the key)) of
       None \<Rightarrow> Failed ESDB_ERR_NOT_FOUND clear_error
     | Some rec \<Rightarrow> Done (mr_value rec))"
proof -
  have "valid_value_type (ev_type (mr_value rec))"
    if "replay h k = Some rec" and "list_all event_ok h" for k rec
    using that
  proof (induction h rule: rev_induct)
    case Nil
    then show ?case by simp
  next
    case (snoc e h)
    then show ?case by (cases e) (auto split: if_splits)
  qed
  with assms show ?thesis
    by (auto simp: esdb_store_get_def refines_def clone_value_def split: option.splits)
qed

lemma scan_Done:
  assumes "refines st h"
    and "esdb_store_scan throws after limit (Some (logged callback)) (user, []) (Some st)
      = (Done count, (user', seen))"
  shows "unat count \<le> change_limit limit \<and> length seen = unat count \<and>
    seen = take (unat count) (case after of None \<Rightarrow> ms_records st
      | Some k \<Rightarrow> filter (\<lambda>p. c_str k < fst p) (ms_records st))"
proof -
  let ?rest = "case after of None \<Rightarrow> ms_records st
      | Some k \<Rightarrow> filter (\<lambda>p. c_str k < fst p) (ms_records st)"
  have rest: "(case after of None \<Rightarrow> ms_records st | Some k \<Rightarrow> map_after (c_str k) (ms_records st))
      = ?rest"
    using assms(1) by (auto simp: refines_def map_after_filter split: option.splits)
  let ?lim = "if limit = 0 then ESDB_STORE_SCAN_LIMIT_MAX else limit"
  have lim: "unat ?lim = change_limit limit" "\<not> ESDB_STORE_SCAN_LIMIT_MAX < limit"
    using assms(2) by (auto simp: change_limit_def esdb_store_scan_def split: if_splits)
  obtain threw prev m u' s' where
    d: "deliver (logged callback) (take (change_limit limit) ?rest) None 0 (user, [])
      = (threw, prev, m, (u', s'))"
    by (metis prod_cases3 surj_pair)
  have args: "\<not> (after \<noteq> None \<and> \<not> valid_key after)" "throws 0 = None"
    using assms(2) by (auto simp: esdb_store_scan_def Let_def split: if_splits option.splits)
  have "esdb_store_scan throws after limit (Some (logged callback)) (user, []) (Some st)
      = (if threw then (store_fail ESDB_ERR_INTERNAL ESDB_PHASE_STORE
           ''Store scan callback threw an exception'', (u', s'))
         else (Done (of_nat m), (u', s')))"
    unfolding esdb_store_scan_def Let_def option.sel rest lim(1) d using args lim(2) by auto
  with assms(2) have out: "count = of_nat m" "seen = s'"
    by (auto split: if_splits)
  from deliver_logged [OF d] obtain k where k: "k \<le> length (take (change_limit limit) ?rest)"
    "m = k" "s' = take k (take (change_limit limit) ?rest)"
    by auto
  have "k \<le> change_limit limit" "k \<le> length ?rest"
    using k(1) by auto
  moreover have "change_limit limit \<le> 10000"
    using lim(2) by (auto simp: change_limit_def word_less_nat_alt)
  ultimately have "unat count = k"
    using out(1) k(2) by (simp add: unat_of_nat)
  with out(2) k(3) \<open>k \<le> change_limit limit\<close> \<open>k \<le> length ?rest\<close> show ?thesis
    by (simp add: min_def)
qed

section \<open>Properties\<close>

definition sample_value :: esdb_value where
  "sample_value = \<lparr>ev_type = ESDB_VALUE_INT32, ev_payload = [7, 0, 0, 0]\<rparr>"

definition sample_state :: memory_state where
  "sample_state = new_memory_state (Str [])"

lemma sample_key [simp]: "valid_key (Some [107])"
  by code_simp

lemma sample_type [simp]: "valid_value_type (ev_type sample_value)"
  by code_simp

lemma sample_refines: "refines sample_state []"
  by (simp add: sample_state_def refines_new)

definition sample_put :: memory_state where
  "sample_put = the (snd (esdb_store_put (\<lambda>_. None) (Some [107]) (Some sample_value) (Some sample_state)))"

lemma sample_put_run:
  "esdb_store_put (\<lambda>_. None) (Some [107]) (Some sample_value) (Some sample_state) = (Done 1, Some sample_put)"
  unfolding sample_put_def
  by (simp add: esdb_store_put_def sample_state_def new_memory_state_def Let_def)

lemma sample_put_refines: "refines sample_put [Ev_Put (Str [107]) sample_value]"
  using put_success_appends [OF sample_refines sample_put_run] by (simp add: c_str_def)

text \<open>
  C8: a mutation that fails for any reason (bad arguments, an exhausted revision domain, an
  exception at any of its allocation points, in a patch after any number of applied entries)
  leaves the store exactly as it was.
\<close>

theorem mutations_strong_guarantee:
  assumes "refines st h"
  shows "(status_of (fst (esdb_store_put throws key v (Some st))) \<noteq> ESDB_OK \<longrightarrow>
      snd (esdb_store_put throws key v (Some st)) = Some st) \<and>
    (status_of (fst (esdb_store_patch throws entries count (Some st))) \<noteq> ESDB_OK \<longrightarrow>
      snd (esdb_store_patch throws entries count (Some st)) = Some st) \<and>
    (status_of (fst (esdb_store_delete throws key (Some st))) \<noteq> ESDB_OK \<longrightarrow>
      snd (esdb_store_delete throws key (Some st)) = Some st) \<and>
    (status_of (fst (esdb_store_clear throws (Some st))) \<noteq> ESDB_OK \<longrightarrow>
      snd (esdb_store_clear throws (Some st)) = Some st)"
  using put.failure_atomic [OF assms] patch.failure_atomic [OF assms]
    delete.failure_atomic [OF assms] clear.failure_atomic [OF assms] by blast

theorem mutations_strong_guarantee_witness:
  "snd (esdb_store_patch (\<lambda>i. if i = 2 then Some Bad_Alloc else None)
     (Some [(Some [107], Some sample_value), (Some [107], Some sample_value)]) 2 (Some sample_state))
   = Some sample_state"
proof -
  have "status_of (fst (esdb_store_patch (\<lambda>i. if i = 2 then Some Bad_Alloc else None)
     (Some [(Some [107], Some sample_value), (Some [107], Some sample_value)]) 2 (Some sample_state)))
    = ESDB_ERR_OUT_OF_MEMORY"
    by (simp add: esdb_store_patch_def patch_entry_valid_def Let_def sample_state_def
        new_memory_state_def caught_def)
  then show ?thesis
    using mutations_strong_guarantee [OF sample_refines] by fastforce
qed

text \<open>
  C9: every mutation, whatever its outcome, is one transition of the log machine: a success
  appends exactly the operation's events (one for a put, one per entry for a patch, one for a
  delete or a clear that changed something, none otherwise), a failure appends nothing. The
  records stay the replay of the log, the revision its length, the journal its last 4096
  changes and the floor the number dropped.
\<close>

theorem mutations_refine_log:
  assumes "refines st h"
  shows "(\<exists>st'. snd (esdb_store_put throws key v (Some st)) = Some st' \<and> same_identity st st' \<and>
      refines st' (h @ (case fst (esdb_store_put throws key v (Some st)) of
        Done _ \<Rightarrow> [Ev_Put (c_str (the key)) (the v)] | Failed _ _ \<Rightarrow> []))) \<and>
    (\<exists>st'. snd (esdb_store_patch throws entries count (Some st)) = Some st' \<and> same_identity st st' \<and>
      refines st' (h @ (case fst (esdb_store_patch throws entries count (Some st)) of
        Done _ \<Rightarrow> map entry_event (patch_items entries count) | Failed _ _ \<Rightarrow> []))) \<and>
    (\<exists>st'. snd (esdb_store_delete throws key (Some st)) = Some st' \<and> same_identity st st' \<and>
      refines st' (h @ (case fst (esdb_store_delete throws key (Some st)) of
        Done r \<Rightarrow> delete_events key r | Failed _ _ \<Rightarrow> []))) \<and>
    (\<exists>st'. snd (esdb_store_clear throws (Some st)) = Some st' \<and> same_identity st st' \<and>
      refines st' (h @ (case fst (esdb_store_clear throws (Some st)) of
        Done r \<Rightarrow> clear_events r | Failed _ _ \<Rightarrow> [])))"
  using put.simulates [OF assms] patch.simulates [OF assms]
    delete.simulates [OF assms] clear.simulates [OF assms] by blast

theorem mutations_refine_log_witness:
  "\<exists>st'. snd (esdb_store_put (\<lambda>_. None) (Some [107]) (Some sample_value) (Some sample_state)) = Some st' \<and>
     refines st' [Ev_Put (Str [107]) sample_value]"
proof -
  note run = mutations_refine_log [OF sample_refines, of "\<lambda>_. None" "Some [107]" "Some sample_value",
      THEN conjunct1]
  then show ?thesis
    by (auto simp: sample_put_run c_str_def)
qed

text \<open>
  C28: an atomic patch that succeeds is exactly the sequence of the puts of its entries, each
  on the store the previous one left: same final store, same revision.
\<close>

fun put_all :: "patch_entry list \<Rightarrow> memory_state option \<Rightarrow> memory_state option" where
  "put_all [] store = store"
| "put_all (entry # entries) store =
     put_all entries (snd (esdb_store_put (\<lambda>_. None) (fst entry) (snd entry) store))"

lemma patch_loop_puts:
  assumes "list_all patch_entry_valid entries"
    and "unat (pc_revision c) + length entries < 2 ^ 63" and "patch_loop throws i entries c = Inr c'"
  shows "put_all entries (Some (with_candidate st c)) = Some (with_candidate st c')"
  using assms
proof (induction throws i entries c rule: patch_loop.induct)
  case (1 throws i c)
  then show ?case by simp
next
  case (2 throws i entry entries c)
  from "2.prems"(2) have room: "\<not> ESDB_REVISION_MAX \<le> pc_revision c"
    by (simp add: word_le_nat_alt)
  have "pc_revision (patch_one entry c) = pc_revision c + 1"
    by (simp add: patch_one_def Let_def split_beta)
  moreover from "2.prems"(2) have "unat (pc_revision c + 1) = Suc (unat (pc_revision c))"
    using unat_Suc_u64 [of "pc_revision c"] by simp
  ultimately show ?case
    using "2.IH" "2.prems" patch_one_is_put [OF _ room, of entry st] by (auto split: option.splits)
qed

theorem patch_is_sequence_of_puts:
  assumes "refines st h" and "esdb_store_patch throws entries count (Some st) = (Done revision, store')"
  shows "store' = put_all (patch_items entries count) (Some st) \<and>
    revision = ms_revision (the store') \<and>
    unat revision = unat (ms_revision st) + length (patch_items entries count)"
proof (cases "count = 0")
  case True
  with assms show ?thesis
    by (auto simp: esdb_store_patch_def Let_def patch_items_def split: if_splits)
next
  case False
  let ?c = "candidate_of st"
  from patch_success_shape [OF assms(2) False] obtain c where
    valid: "list_all patch_entry_valid (patch_items entries count)"
    and room: "\<not> ESDB_REVISION_MAX - ucast count < ms_revision st"
    and loop: "patch_loop throws 0 (patch_items entries count) ?c = Inr c"
    and out: "store' = Some (with_candidate st c)" "revision = pc_revision c"
    by blast
  have c: "with_candidate st ?c = st"
    by (simp add: with_candidate_def candidate_of_def)
  have len: "length (patch_items entries count) \<le> unat count"
    by (simp add: patch_items_def)
  have rev: "unat (ms_revision st) = length h"
    using assms(1) by (simp add: refines_def)
  with len patch_domain [OF room] have bound: "length h + length (patch_items entries count) < 2 ^ 63"
    by simp
  have "refines (with_candidate st c) (h @ map entry_event (patch_items entries count))"
    using patch_loop_refines [of st ?c h, OF _ valid bound loop] assms(1) c by simp
  then have "unat (pc_revision c) = length h + length (patch_items entries count)"
    by (simp add: refines_def with_candidate_def)
  moreover have "unat (pc_revision ?c) + length (patch_items entries count) < 2 ^ 63"
    using rev bound by (simp add: candidate_of_def)
  from patch_loop_puts [OF valid this loop, of st]
  have "put_all (patch_items entries count) (Some st) = Some (with_candidate st c)"
    using c by simp
  ultimately show ?thesis
    using out rev by (simp add: with_candidate_def)
qed

lemma sample_patch_run:
  "\<exists>store'. esdb_store_patch (\<lambda>_. None) (Some [(Some [107], Some sample_value), (Some [107], Some sample_value)])
     2 (Some sample_state) = (Done 2, Some store')"
  by (simp add: esdb_store_patch_def patch_entry_valid_def Let_def sample_state_def
      new_memory_state_def patch_one_def)

theorem patch_is_sequence_of_puts_witness:
  "\<exists>store'. esdb_store_patch (\<lambda>_. None) (Some [(Some [107], Some sample_value), (Some [107], Some sample_value)])
     2 (Some sample_state) = (Done 2, store') \<and>
   store' = put_all [(Some [107], Some sample_value), (Some [107], Some sample_value)] (Some sample_state)"
proof -
  obtain store' where run: "esdb_store_patch (\<lambda>_. None)
      (Some [(Some [107], Some sample_value), (Some [107], Some sample_value)])
     2 (Some sample_state) = (Done 2, Some store')"
    using sample_patch_run by blast
  have "patch_items (Some [(Some [107], Some sample_value), (Some [107], Some sample_value)]) 2
      = [(Some [107], Some sample_value), (Some [107], Some sample_value)]"
    by (simp add: patch_items_def)
  then show ?thesis
    using run patch_is_sequence_of_puts [OF sample_refines run, THEN conjunct1] by metis
qed

text \<open>
  Reads return what was written. After a successful put the key reads back the value put
  and every other key reads as before; after a delete the key is not found; after a clear no
  key is.
\<close>

theorem read_your_writes:
  assumes "refines st h" and "valid_key key'" and "va_object alloc" and "va_payload alloc"
  shows "(esdb_store_put throws key v (Some st) = (Done r, store') \<longrightarrow>
      esdb_store_get alloc key' True store' =
        (if c_str (the key') = c_str (the key) then Done (the v) else esdb_store_get alloc key' True (Some st))) \<and>
    (esdb_store_delete throws key (Some st) = (Done d, store') \<longrightarrow>
      esdb_store_get alloc key' True store' =
        (if c_str (the key') = c_str (the key) then Failed ESDB_ERR_NOT_FOUND clear_error
         else esdb_store_get alloc key' True (Some st))) \<and>
    (esdb_store_clear throws (Some st) = (Done d, store') \<longrightarrow>
      esdb_store_get alloc key' True store' = Failed ESDB_ERR_NOT_FOUND clear_error)"
proof (intro conjI impI)
  note get = get_replay [OF _ assms(2-4)]
  assume "esdb_store_put throws key v (Some st) = (Done r, store')"
  from put_success_appends [OF assms(1) this] show "esdb_store_get alloc key' True store' =
        (if c_str (the key') = c_str (the key) then Done (the v) else esdb_store_get alloc key' True (Some st))"
    by (auto simp: get get [OF assms(1)])
next
  note get = get_replay [OF _ assms(2-4)]
  assume run: "esdb_store_delete throws key (Some st) = (Done d, store')"
  have "replay h (c_str (the key)) = None" if "\<not> fst d"
    using run assms(1) that
    by (auto simp: esdb_store_delete_def Let_def refines_def split: if_splits option.splits)
  with delete_success_appends [OF assms(1) run] show "esdb_store_get alloc key' True store' =
        (if c_str (the key') = c_str (the key) then Failed ESDB_ERR_NOT_FOUND clear_error
         else esdb_store_get alloc key' True (Some st))"
    by (auto simp: get get [OF assms(1)] delete_events_def split: if_splits option.splits)
next
  note get = get_replay [OF _ assms(2-4)]
  assume run: "esdb_store_clear throws (Some st) = (Done d, store')"
  have "replay h = Map.empty" if "\<not> fst d"
    using run assms(1) that
    by (auto simp: esdb_store_clear_def Let_def refines_def split: if_splits option.splits)
  with clear_success_appends [OF assms(1) run]
  show "esdb_store_get alloc key' True store' = Failed ESDB_ERR_NOT_FOUND clear_error"
    by (auto simp: get clear_events_def split: if_splits)
qed

definition plenty :: value_alloc where
  "plenty = \<lparr>va_object = True, va_payload = True\<rparr>"

lemma plenty_simps [simp]: "va_object plenty" "va_payload plenty"
  by (simp_all add: plenty_def)

theorem read_your_writes_witness:
  "esdb_store_get plenty (Some [107]) True (Some sample_put) = Done sample_value"
  using read_your_writes [OF sample_refines sample_key plenty_simps] sample_put_run
  by fastforce
text \<open>
  A change query from cursor \<open>a\<close> shows the host exactly the next changes of the log, in
  revision order, none skipped and none repeated, however the host stops; the count it reports
  is the number shown and the revision it reports is the cursor to continue from.
\<close>

theorem changes_since_is_next_slice:
  assumes "refines st h"
    and "esdb_store_changes_since throws a limit (Some (logged callback)) (user, []) (Some st)
      = (Done (revision, count), (user', seen))"
  shows "length h - ESDB_STORE_CHANGE_CAPACITY \<le> unat a \<and>
    seen = take (unat count) (drop (unat a) (log_changes h)) \<and> length seen = unat count \<and>
    unat count \<le> change_limit limit \<and> unat revision = unat a + unat count"
proof -
  have "changes_since_impl throws a limit (Some (logged callback)) (user, []) (Some st)
      = (Done (revision, count), (user', seen))"
    using assms(2) by (simp add: esdb_store_changes_since_def)
  from changes_since_Done [OF assms(1) this] show ?thesis by blast
qed

definition go_on :: "(unit, 'e) callback" where
  "go_on user e = (Cb_Continue, user)"

lemma sample_changes_run:
  "esdb_store_changes_since (\<lambda>_. None) 0 0 (Some (logged go_on)) ((), []) (Some sample_put)
     = (Done (1, 1), ((), log_changes [Ev_Put (Str [107]) sample_value]))"
proof -
  have "ms_revision sample_put = 1" "ms_retained_floor sample_put = 0"
    "ms_changes sample_put = log_changes [Ev_Put (Str [107]) sample_value]"
    using sample_put_refines by (auto simp: refines_def word_unat_eq_iff)
  then show ?thesis
    by (simp add: esdb_store_changes_since_def changes_since_impl_def log_changes_def logged_def go_on_def)
qed

theorem changes_since_is_next_slice_witness:
  "snd (snd (esdb_store_changes_since (\<lambda>_. None) 0 0 (Some (logged go_on)) ((), []) (Some sample_put)))
     = take 1 (drop 0 (log_changes [Ev_Put (Str [107]) sample_value]))"
  using changes_since_is_next_slice [OF sample_put_refines sample_changes_run]
  by (simp add: sample_changes_run)

text \<open>
  Which cursors are served. With a host that always continues and no exception, a cursor
  newer than the store is refused as an argument error, a cursor older than the retained window
  of 4096 changes is a \<open>GAP\<close>, and every other cursor is served with as many changes as the
  limit and the log allow, so repeated queries reach the current revision.
\<close>

lemma changes_since_eval:
  assumes "refines st h" and "\<And>u e. fst (callback u e) = Cb_Continue" and "\<And>i. throws i = None"
    and "limit \<le> ESDB_STORE_CHANGE_LIMIT_MAX"
  shows "\<exists>user'. changes_since_impl throws a limit (Some callback) user (Some st) =
    (if ESDB_REVISION_MAX < a
     then (store_fail ESDB_ERR_INVALID_ARGUMENT ESDB_PHASE_SUBSCRIPTION
             ''invalid Store change query arguments'', user)
     else if length h < unat a
     then (store_fail ESDB_ERR_INVALID_ARGUMENT ESDB_PHASE_SUBSCRIPTION
             ''after_revision is newer than the Store'', user)
     else if unat a < length h - ESDB_STORE_CHANGE_CAPACITY
     then (store_fail ESDB_ERR_GAP ESDB_PHASE_SUBSCRIPTION
             ''requested Store history is older than the retained change floor'', user)
     else (Done (of_nat (unat a + min (change_limit limit) (length h - unat a)),
                 of_nat (min (change_limit limit) (length h - unat a))), user'))"
proof -
  let ?L = "log_changes h"
  have st: "length h < 2 ^ 63" "unat (ms_revision st) = length h"
    "unat (ms_retained_floor st) = length h - ESDB_STORE_CHANGE_CAPACITY"
    "ms_changes st = drop (length h - ESDB_STORE_CHANGE_CAPACITY) ?L"
    using assms(1) by (auto simp: refines_def)
  let ?lim = "if limit = 0 then ESDB_STORE_CHANGE_LIMIT_MAX else limit"
  have lim: "unat ?lim = change_limit limit"
    by (simp add: change_limit_def)
  let ?n = "min (change_limit limit) (length h - unat a)"
  define es where "es = collect_changes a (unat ?lim) 0 (ms_changes st)"
  obtain user' where d: "deliver callback es None 0 user
      = (False, if es = [] then None else Some (last es), 0 + length es, user')"
    using deliver_all [of callback es None 0 user] assms(2) by auto
  have impl: "changes_since_impl throws a limit (Some callback) user (Some st) =
    (if ESDB_REVISION_MAX < a
     then (store_fail ESDB_ERR_INVALID_ARGUMENT ESDB_PHASE_SUBSCRIPTION
             ''invalid Store change query arguments'', user)
     else if ms_revision st < a
     then (store_fail ESDB_ERR_INVALID_ARGUMENT ESDB_PHASE_SUBSCRIPTION
             ''after_revision is newer than the Store'', user)
     else if a < ms_retained_floor st
     then (store_fail ESDB_ERR_GAP ESDB_PHASE_SUBSCRIPTION
             ''requested Store history is older than the retained change floor'', user)
     else (Done (if es = [] then a else mc_revision (last es), of_nat (length es)), user'))"
    unfolding changes_since_impl_def Let_def option.sel es_def [symmetric] d
    using assms(3,4) by (auto simp: not_less)
  show ?thesis
  proof (cases "length h < unat a \<or> unat a < length h - ESDB_STORE_CHANGE_CAPACITY")
    case True
    then show ?thesis
      unfolding impl u64_less_iff st by auto
  next
    case False
    then have a: "length h - ESDB_STORE_CHANGE_CAPACITY \<le> unat a" "unat a \<le> length h"
      by auto
    have es: "es = take (change_limit limit) (drop (unat a) ?L)"
      unfolding es_def collect_changes_eq st(4) newer_changes [OF st(1) a] lim by simp
    then have len: "length es = ?n"
      by (simp add: min.commute)
    have nth: "es ! i = ?L ! (unat a + i)" if "i < length es" for i
      using that a unfolding es by simp
    have "(if es = [] then a else mc_revision (last es)) = of_nat (unat a + ?n)"
    proof (cases "es = []")
      case True
      with len show ?thesis by simp
    next
      case False
      then have i: "length es - 1 < length es" by simp
      have "length es \<le> length h - unat a"
        using len by simp
      with i a have "unat a + (length es - 1) < length h" by arith
      moreover have "last es = ?L ! (unat a + (length es - 1))"
        using nth [OF i] last_conv_nth [OF False] by (simp only:)
      ultimately have "unat (mc_revision (last es)) = unat a + length es"
        using log_revision [OF st(1), of "unat a + (length es - 1)"] False by simp
      then show ?thesis
        using False len by (metis of_nat_unat ucast_id)
    qed
    then show ?thesis
      using a unfolding impl u64_less_iff st len by auto
  qed
qed

theorem changes_since_window:
  assumes "refines st h" and "\<And>u e. fst (callback u e) = Cb_Continue" and "\<And>i. throws i = None"
    and "limit \<le> ESDB_STORE_CHANGE_LIMIT_MAX"
  shows "case fst (esdb_store_changes_since throws a limit (Some callback) user (Some st)) of
      Failed s e \<Rightarrow> err_status e = s \<and>
        (if length h < unat a then s = ESDB_ERR_INVALID_ARGUMENT
         else s = ESDB_ERR_GAP \<and> unat a + ESDB_STORE_CHANGE_CAPACITY < length h)
    | Done (revision, count) \<Rightarrow> unat a \<le> length h \<and> length h \<le> unat a + ESDB_STORE_CHANGE_CAPACITY \<and>
        unat count = min (change_limit limit) (length h - unat a) \<and>
        unat revision = unat a + unat count"
proof -
  let ?n = "min (change_limit limit) (length h - unat a)"
  obtain user' where run: "changes_since_impl throws a limit (Some callback) user (Some st) =
    (if ESDB_REVISION_MAX < a
     then (store_fail ESDB_ERR_INVALID_ARGUMENT ESDB_PHASE_SUBSCRIPTION
             ''invalid Store change query arguments'', user)
     else if length h < unat a
     then (store_fail ESDB_ERR_INVALID_ARGUMENT ESDB_PHASE_SUBSCRIPTION
             ''after_revision is newer than the Store'', user)
     else if unat a < length h - ESDB_STORE_CHANGE_CAPACITY
     then (store_fail ESDB_ERR_GAP ESDB_PHASE_SUBSCRIPTION
             ''requested Store history is older than the retained change floor'', user)
     else (Done (of_nat (unat a + ?n), of_nat ?n), user'))"
    using changes_since_eval [where callback = callback and throws = throws and a = a and user = user, OF assms] by (elim exE) (rule that)
  have h: "length h < 2 ^ 63"
    using assms(1) by (simp add: refines_def)
  have "change_limit limit \<le> 10000"
    using assms(4) by (auto simp: change_limit_def word_le_nat_alt)
  then have "unat (of_nat ?n :: u32) = ?n"
    by (simp add: unat_of_nat)
  moreover have "unat (of_nat (unat a + ?n) :: u64) = unat a + ?n" if "unat a \<le> length h"
    using h that by (simp add: unat_of_nat del: of_nat_add)
  moreover have "length h < unat a" if "ESDB_REVISION_MAX < a"
    using h that by (simp add: word_less_nat_alt)
  ultimately show ?thesis
    unfolding esdb_store_changes_since_def run by (auto simp: store_fail_def)
qed

theorem changes_since_window_witness:
  "case fst (esdb_store_changes_since (\<lambda>_. None) 0 1 (Some go_on) () (Some sample_put)) of
     Done (revision, count) \<Rightarrow> unat revision = 1 | Failed s e \<Rightarrow> False"
  using changes_since_window [OF sample_put_refines, of go_on "\<lambda>_. None" 1 0 "()"]
  by (auto simp: go_on_def change_limit_def word_le_nat_alt split: outcome.splits if_splits)
text \<open>
  The retained floor is the revision of the newest change dropped from the journal (0 when
  none was), so the journal holds exactly the revisions above it, in order and without holes.
\<close>

theorem retained_floor_is_newest_dropped:
  assumes "refines st h"
  shows "esdb_store_retained_floor True (Some st) = Done (ms_retained_floor st) \<and>
    (ms_retained_floor st = 0 \<longleftrightarrow> length h \<le> ESDB_STORE_CHANGE_CAPACITY) \<and>
    (ESDB_STORE_CHANGE_CAPACITY < length h \<longrightarrow> ms_retained_floor st =
      mc_revision (log_changes h ! (length h - ESDB_STORE_CHANGE_CAPACITY - 1))) \<and>
    map (unat \<circ> mc_revision) (ms_changes st)
      = [Suc (unat (ms_retained_floor st)) ..< Suc (unat (ms_revision st))]"
proof (intro conjI impI)
  have st: "length h < 2 ^ 63" "unat (ms_revision st) = length h"
    "unat (ms_retained_floor st) = length h - ESDB_STORE_CHANGE_CAPACITY"
    "ms_changes st = drop (length h - ESDB_STORE_CHANGE_CAPACITY) (log_changes h)"
    using assms by (auto simp: refines_def)
  show "esdb_store_retained_floor True (Some st) = Done (ms_retained_floor st)"
    by (simp add: esdb_store_retained_floor_def)
  show "ms_retained_floor st = 0 \<longleftrightarrow> length h \<le> ESDB_STORE_CHANGE_CAPACITY"
    by (simp only: word_unat_eq_iff st unat_0 diff_is_0_eq)
  show "ms_retained_floor st = mc_revision (log_changes h ! (length h - ESDB_STORE_CHANGE_CAPACITY - 1))"
    if "ESDB_STORE_CHANGE_CAPACITY < length h"
    using that log_revision [OF st(1), of "length h - ESDB_STORE_CHANGE_CAPACITY - 1"]
    by (simp add: word_unat_eq_iff st)
  show "map (unat \<circ> mc_revision) (ms_changes st)
      = [Suc (unat (ms_retained_floor st)) ..< Suc (unat (ms_revision st))]"
    by (rule nth_equalityI) (auto simp: st log_revision [OF st(1)] simp del: upt_Suc)
qed

theorem retained_floor_is_newest_dropped_witness:
  "map (unat \<circ> mc_revision) (ms_changes sample_put) = [1 ..< 2]"
  using retained_floor_is_newest_dropped [OF sample_put_refines] sample_put_refines
  by (simp add: refines_def numeral_2_eq_2)

text \<open>
  Scans page. A scan shows a host the records in strictly ascending byte order, each with
  its current value; a second scan that starts after the last key shown continues exactly
  where the first stopped.
\<close>

theorem scans_page:
  assumes "refines st h"
    and "esdb_store_scan throws after limit (Some (logged callback)) (user, []) (Some st)
      = (Done count, (user', seen))"
    and "seen \<noteq> []" and "c_str key = fst (last seen)"
    and "esdb_store_scan throws' (Some key) limit' (Some (logged callback')) (user2, []) (Some st)
      = (Done count', (user2', seen'))"
  shows "sorted_wrt (<) (map fst (seen @ seen')) \<and>
    (\<forall>(k, rec) \<in> set (seen @ seen'). replay h k = Some rec) \<and>
    seen @ seen' = take (unat count + unat count')
      (case after of None \<Rightarrow> ms_records st | Some k \<Rightarrow> filter (\<lambda>p. c_str k < fst p) (ms_records st))"
proof -
  let ?rest = "case after of None \<Rightarrow> ms_records st
      | Some k \<Rightarrow> filter (\<lambda>p. c_str k < fst p) (ms_records st)"
  have st: "ordered_keys (ms_records st)" "map_of (ms_records st) = replay h"
    using assms(1) by (auto simp: refines_def)
  then have rest: "ordered_keys ?rest" "\<And>k rec. (k, rec) \<in> set ?rest \<Longrightarrow> replay h k = Some rec"
    by (auto simp: ordered_keys_distinct sorted_wrt_filter sorted_wrt_map filter_map
        simp flip: st(2) intro!: map_of_is_SomeI split: option.splits)
  note first = scan_Done [OF assms(1,2)] and second = scan_Done [OF assms(1,5)]
  obtain xs v ys where split: "seen = xs @ [(c_str key, v)]" "?rest = seen @ ys"
  proof (rule that)
    show "seen = butlast seen @ [(c_str key, snd (last seen))]"
      using assms(3,4) by simp
    have "seen = take (unat count) ?rest"
      using first by blast
    then show "?rest = seen @ drop (unat count) ?rest"
      by (metis append_take_drop_id)
  qed
  have "filter (\<lambda>p. c_str key < fst p) (ms_records st) = filter (\<lambda>p. c_str key < fst p) ?rest"
  proof (cases after)
    case (Some k)
    have "(c_str key, v) \<in> set ?rest"
      unfolding split(2) split(1) by simp
    then have "c_str k < c_str key"
      by (simp add: Some)
    then show ?thesis
      by (auto simp: Some intro!: filter_cong)
  qed simp
  also have "\<dots> = map_after (c_str key) ?rest"
    by (simp add: map_after_filter [OF rest(1)])
  also have "\<dots> = ys"
    using std_map.page_then_rest [OF rest(1), of xs "c_str key" v ys] split by simp
  finally have "seen' = take (unat count') ys"
    using second by simp
  then have slice: "seen @ seen' = take (unat count + unat count') ?rest"
    unfolding split(2) using first [THEN conjunct2, THEN conjunct1] by simp
  moreover have "sorted_wrt (<) (map fst (seen @ seen'))"
    unfolding slice using sorted_wrt_take [OF rest(1)] by (simp only: take_map)
  moreover have "\<forall>(k, rec) \<in> set (seen @ seen'). replay h k = Some rec"
    unfolding slice using rest(2) by (blast dest: in_set_takeD)
  ultimately show ?thesis by blast
qed

theorem scans_page_witness:
  "snd (snd (esdb_store_scan (\<lambda>_. None) None 1 (Some (logged go_on)) ((), []) (Some sample_put)))
     @ snd (snd (esdb_store_scan (\<lambda>_. None) (Some [107]) 0 (Some (logged go_on)) ((), []) (Some sample_put)))
   = take 1 (ms_records sample_put)"
proof -
  have recs: "ms_records sample_put
      = [(Str [107], \<lparr>mr_value = sample_value, mr_revision = 1\<rparr>)]"
    unfolding sample_put_def
    by (simp add: esdb_store_put_def sample_state_def new_memory_state_def Let_def c_str_def)
  have "esdb_store_scan (\<lambda>_. None) None 1 (Some (logged go_on)) ((), []) (Some sample_put)
      = (Done 1, ((), ms_records sample_put))"
    by (simp add: esdb_store_scan_def recs logged_def go_on_def)
  moreover have "esdb_store_scan (\<lambda>_. None) (Some [107]) 0 (Some (logged go_on)) ((), []) (Some sample_put)
      = (Done 0, ((), []))"
    by (simp add: esdb_store_scan_def recs logged_def go_on_def map_after_def c_str_def)
  ultimately show ?thesis
    using scans_page [OF sample_put_refines, of "\<lambda>_. None" None 1 go_on "()" 1 "()"
        "ms_records sample_put" "[107]" "\<lambda>_. None" 0 go_on "()" 0 "()" "[]"]
    by (simp add: recs c_str_def)
qed

text \<open>
  A mirror driven by the change feed is exact. A client that holds the key set of the
  store at its cursor and applies the changes a query shows it (a PUT adds its key, a DELETE
  removes it, a CLEAR empties the set) ends with exactly the key set the store had at the
  revision the query reported.
\<close>

fun mirror_change :: "memory_change \<Rightarrow> cpp_string set \<Rightarrow> cpp_string set" where
  "mirror_change c keys =
     (case mc_operation c of
        ESDB_STORE_CHANGE_PUT \<Rightarrow> insert (mc_key c) keys
      | ESDB_STORE_CHANGE_DELETE \<Rightarrow> keys - {mc_key c}
      | ESDB_STORE_CHANGE_CLEAR \<Rightarrow> {})"

lemma mirror_slice:
  "a + n \<le> length h \<Longrightarrow>
     fold mirror_change (take n (drop a (log_changes h))) (dom (replay (take a h)))
       = dom (replay (take (a + n) h))"
proof (induction n)
  case 0
  then show ?case by simp
next
  case (Suc n)
  then have i: "a + n < length h" by simp
  then have "take (Suc n) (drop a (log_changes h))
      = take n (drop a (log_changes h)) @ [event_change (Suc (a + n)) (h ! (a + n))]"
    by (simp add: take_Suc_conv_app_nth nth_log_changes)
  moreover have "take (a + Suc n) h = take (a + n) h @ [h ! (a + n)]"
    using i by (simp add: take_Suc_conv_app_nth)
  ultimately show ?case
    using Suc i by (cases "h ! (a + n)") (auto split: if_splits)
qed

theorem mirror_is_exact:
  assumes "refines st h"
    and "esdb_store_changes_since throws a limit (Some (logged callback)) (user, []) (Some st)
      = (Done (revision, count), (user', seen))"
  shows "fold mirror_change seen (dom (replay (take (unat a) h)))
    = dom (replay (take (unat revision) h))"
proof -
  have "changes_since_impl throws a limit (Some (logged callback)) (user, []) (Some st)
      = (Done (revision, count), (user', seen))"
    using assms(2) by (simp add: esdb_store_changes_since_def)
  note slice = changes_since_Done [OF assms(1) this]
  then have "unat a + unat count \<le> length h"
  proof -
    from slice have "length (take (unat count) (drop (unat a) (log_changes h))) = unat count"
      by metis
    then have "unat count \<le> length h - unat a"
      by simp
    with slice show ?thesis by linarith
  qed
  with mirror_slice [OF this] slice show ?thesis by simp
qed

theorem mirror_is_exact_witness:
  "fold mirror_change (log_changes [Ev_Put (Str [107]) sample_value]) {} = {Str [107]}"
  using mirror_is_exact [OF sample_put_refines sample_changes_run] by (simp add: replay_def)

end
