(* ===== verification/Memory_Registry.thy ===== *)
theory Memory_Registry
  imports Memory_Store_Spec
begin

text \<open>
  The registry of named process-memory stores, its handles and its subscriptions (the second
  half of src/esdb_store.cpp). Handles and subscriptions are objects of a heap: a handle names
  the shared state it points at, a subscription its state, its cursor and, while a poll holds
  its mutex, the snapshot that poll took. The transition system at the end lets every other
  operation run between the snapshot of a poll and its completion, as the locks do.
\<close>

section \<open>State\<close>

record store_subscription =
  sb_state :: nat
  sb_revision :: u64
  sb_poll :: "memory_change list option"

record registry_world =
  w_registry :: "cpp_string \<Rightarrow> nat option"
  w_states :: "nat \<Rightarrow> memory_state option"
  w_handles :: "nat \<Rightarrow> nat option"
  w_subscriptions :: "nat \<Rightarrow> store_subscription option"
  w_next :: nat

definition empty_world :: registry_world where
  "empty_world = \<lparr>w_registry = Map.empty, w_states = Map.empty, w_handles = Map.empty,
     w_subscriptions = Map.empty, w_next = 0\<rparr>"

definition update_state :: "nat \<Rightarrow> (memory_state \<Rightarrow> memory_state) \<Rightarrow> registry_world \<Rightarrow> registry_world" where
  "update_state s f w = w\<lparr>w_states := (w_states w)(s := map_option f (w_states w s))\<rparr>"

section \<open>Handles\<close>

text \<open>
  The end of an open: count the handle, then allocate it without throwing (place 2), undoing
  the count when that fails.
\<close>

definition open_handle :: "throws \<Rightarrow> nat \<Rightarrow> registry_world \<Rightarrow> nat outcome \<times> registry_world" where
  "open_handle throws s w =
     (let w = update_state s (\<lambda>st. st\<lparr>ms_handle_count := ms_handle_count st + 1\<rparr>) w in
      if throws 2 \<noteq> None
      then (store_fail ESDB_ERR_OUT_OF_MEMORY ESDB_PHASE_STORE ''failed to allocate Store handle'',
            update_state s (\<lambda>st. st\<lparr>ms_handle_count := ms_handle_count st - 1\<rparr>) w)
      else (Done (w_next w),
            w\<lparr>w_handles := (w_handles w)(w_next w \<mapsto> s), w_next := Suc (w_next w)\<rparr>))"

text \<open>Place 0 builds the key string of the lookup, place 1 creates and registers the state.\<close>

definition esdb_store_open ::
  "throws \<Rightarrow> byte list option \<Rightarrow> bool \<Rightarrow> registry_world \<Rightarrow> nat outcome \<times> registry_world" where
  "esdb_store_open throws name out_given w =
     (if \<not> out_given \<or> \<not> valid_name name
      then (store_fail ESDB_ERR_INVALID_ARGUMENT ESDB_PHASE_STORE
              ''Store name and out_store are required'', w)
      else
       let oom = (\<lambda>e. caught e ESDB_PHASE_STORE ''failed to allocate named Store''
             ''unexpected exception while opening Store'');
           n = c_str (the name)
       in case throws 0 of Some e \<Rightarrow> (oom e, w)
        | None \<Rightarrow>
          (case w_registry w n of
             Some s \<Rightarrow> open_handle throws s w
           | None \<Rightarrow>
              (case throws 1 of Some e \<Rightarrow> (oom e, w)
               | None \<Rightarrow>
                  open_handle throws (w_next w)
                    (w\<lparr>w_registry := (w_registry w)(n \<mapsto> w_next w),
                       w_states := (w_states w)(w_next w \<mapsto> new_memory_state n),
                       w_next := Suc (w_next w)\<rparr>))))"

definition esdb_store_close :: "nat option \<Rightarrow> registry_world \<Rightarrow> registry_world" where
  "esdb_store_close handle w =
     (case handle of
        None \<Rightarrow> w
      | Some h \<Rightarrow>
         (case w_handles w h of
            None \<Rightarrow> w
          | Some s \<Rightarrow>
              (update_state s (\<lambda>st. st\<lparr>ms_handle_count := ms_handle_count st - 1\<rparr>) w)
                \<lparr>w_handles := (w_handles w)(h := None)\<rparr>))"

definition esdb_store_destroy ::
  "byte list option \<Rightarrow> registry_world \<Rightarrow> unit outcome \<times> registry_world" where
  "esdb_store_destroy name w =
     (if \<not> valid_name name
      then (store_fail ESDB_ERR_INVALID_ARGUMENT ESDB_PHASE_STORE ''valid Store name is required'', w)
      else case w_registry w (c_str (the name)) of
        None \<Rightarrow> (store_fail ESDB_ERR_NOT_FOUND ESDB_PHASE_STORE ''named Store does not exist'', w)
      | Some s \<Rightarrow>
          let st = the (w_states w s) in
          if ms_handle_count st \<noteq> 0 \<or> ms_subscription_count st \<noteq> 0
          then (store_fail ESDB_ERR_BUSY ESDB_PHASE_STORE
                  ''named Store still has active handles or subscriptions'', w)
          else (Done (), w\<lparr>w_registry := (w_registry w)(c_str (the name) := None)\<rparr>))"

definition handle_state :: "nat option \<Rightarrow> registry_world \<Rightarrow> memory_state option" where
  "handle_state handle w =
     (case handle of None \<Rightarrow> None
      | Some h \<Rightarrow> (case w_handles w h of None \<Rightarrow> None | Some s \<Rightarrow> w_states w s))"

definition esdb_store_name :: "nat option \<Rightarrow> registry_world \<Rightarrow> cpp_string option" where
  "esdb_store_name handle w = map_option ms_name (handle_state handle w)"

text \<open>An operation of \<open>Memory_Store\<close> through a handle, on the state the handle shares.\<close>

definition on_store ::
  "(memory_state option \<Rightarrow> 'a \<times> memory_state option) \<Rightarrow> nat option \<Rightarrow> registry_world
   \<Rightarrow> 'a \<times> registry_world" where
  "on_store f handle w =
     (case handle_state handle w of
        None \<Rightarrow> (fst (f None), w)
      | Some st \<Rightarrow>
         (case f (Some st) of
            (r, store') \<Rightarrow>
              (r, w\<lparr>w_states := (w_states w)(the (w_handles w (the handle)) := store')\<rparr>)))"

text \<open>An operation that only reads the store.\<close>

definition reading :: "(memory_state option \<Rightarrow> 'r) \<Rightarrow> nat option \<Rightarrow> registry_world \<Rightarrow> 'r \<times> registry_world" where
  "reading f = on_store (\<lambda>store. (f store, store))"

section \<open>Subscriptions\<close>

definition esdb_store_subscribe ::
  "throws \<Rightarrow> u64 \<Rightarrow> bool \<Rightarrow> nat option \<Rightarrow> registry_world \<Rightarrow> nat outcome \<times> registry_world" where
  "esdb_store_subscribe throws after_revision out_given handle w =
     (case handle_state handle w of
        None \<Rightarrow> (store_fail ESDB_ERR_INVALID_ARGUMENT ESDB_PHASE_SUBSCRIPTION
                   ''invalid Store subscription arguments'', w)
      | Some st \<Rightarrow>
          if \<not> out_given \<or> ESDB_REVISION_MAX < after_revision
          then (store_fail ESDB_ERR_INVALID_ARGUMENT ESDB_PHASE_SUBSCRIPTION
                  ''invalid Store subscription arguments'', w)
          else if ms_revision st < after_revision
          then (store_fail ESDB_ERR_INVALID_ARGUMENT ESDB_PHASE_SUBSCRIPTION
                  ''subscription revision is newer than the Store'', w)
          else if after_revision < ms_retained_floor st
          then (store_fail ESDB_ERR_GAP ESDB_PHASE_SUBSCRIPTION
                  ''subscription revision is older than retained Store history'', w)
          else if throws 0 \<noteq> None
          then (store_fail ESDB_ERR_OUT_OF_MEMORY ESDB_PHASE_SUBSCRIPTION
                  ''failed to allocate Store subscription'', w)
          else
           let s = the (w_handles w (the handle));
               sub = \<lparr>sb_state = s, sb_revision = after_revision, sb_poll = None\<rparr>;
               w' = update_state s (\<lambda>st. st\<lparr>ms_subscription_count := ms_subscription_count st + 1\<rparr>) w
           in (Done (w_next w),
               w'\<lparr>w_subscriptions := (w_subscriptions w)(w_next w \<mapsto> sub), w_next := Suc (w_next w)\<rparr>))"

text \<open>The whole poll as its caller sees it; the second component of the result is the out count.\<close>

definition esdb_store_subscription_poll ::
  "throws \<Rightarrow> u32 \<Rightarrow> ('u, memory_change) callback option \<Rightarrow> 'u \<Rightarrow> nat option \<Rightarrow> registry_world
   \<Rightarrow> u32 outcome \<times> 'u \<times> registry_world" where
  "esdb_store_subscription_poll throws limit callback user subscription w =
     (case (subscription, callback) of
        (Some b, Some cb) \<Rightarrow>
         (case w_subscriptions w b of
            None \<Rightarrow> (store_fail ESDB_ERR_INVALID_ARGUMENT ESDB_PHASE_SUBSCRIPTION
                       ''invalid Store subscription poll arguments'', user, w)
          | Some sub \<Rightarrow>
              if sb_poll sub \<noteq> None
              then (store_fail ESDB_ERR_BUSY ESDB_PHASE_SUBSCRIPTION
                      ''Store subscription is already being polled'', user, w)
              else case changes_since_impl throws (sb_revision sub) limit (Some cb) user
                     (w_states w (sb_state sub)) of
                (Done (revision, count), user') \<Rightarrow>
                  (Done count, user',
                   w\<lparr>w_subscriptions := (w_subscriptions w)(b \<mapsto> sub\<lparr>sb_revision := revision\<rparr>)\<rparr>)
              | (Failed status e, user') \<Rightarrow> (Failed status e, user', w))
      | _ \<Rightarrow> (store_fail ESDB_ERR_INVALID_ARGUMENT ESDB_PHASE_SUBSCRIPTION
                ''invalid Store subscription poll arguments'', user, w))"

text \<open>
  The same poll cut where other threads can run: taking the poll mutex and, under the store's
  mutex, the snapshot; then the calls to the host and the cursor update, under no store lock.
\<close>

definition poll_enter :: "throws \<Rightarrow> u32 \<Rightarrow> nat \<Rightarrow> registry_world \<Rightarrow> unit outcome \<times> registry_world" where
  "poll_enter throws limit b w =
     (let sub = the (w_subscriptions w b);
          st = the (w_states w (sb_state sub));
          a = sb_revision sub;
          oom = (\<lambda>e. caught e ESDB_PHASE_SUBSCRIPTION ''failed to allocate Store change snapshot''
             ''unexpected exception while snapshotting Store changes'')
      in if sb_poll sub \<noteq> None
         then (store_fail ESDB_ERR_BUSY ESDB_PHASE_SUBSCRIPTION
                 ''Store subscription is already being polled'', w)
         else if ESDB_STORE_CHANGE_LIMIT_MAX < limit \<or> ESDB_REVISION_MAX < a
         then (store_fail ESDB_ERR_INVALID_ARGUMENT ESDB_PHASE_SUBSCRIPTION
                 ''invalid Store change query arguments'', w)
         else case throws 0 of Some e \<Rightarrow> (oom e, w)
          | None \<Rightarrow>
            if ms_revision st < a
            then (store_fail ESDB_ERR_INVALID_ARGUMENT ESDB_PHASE_SUBSCRIPTION
                    ''after_revision is newer than the Store'', w)
            else if a < ms_retained_floor st
            then (store_fail ESDB_ERR_GAP ESDB_PHASE_SUBSCRIPTION
                    ''requested Store history is older than the retained change floor'', w)
            else case throws 1 of Some e \<Rightarrow> (oom e, w)
             | None \<Rightarrow>
                let limit = (if limit = 0 then ESDB_STORE_CHANGE_LIMIT_MAX else limit);
                    snapshot = collect_changes a (unat limit) 0 (ms_changes st)
                in (Done (), w\<lparr>w_subscriptions := (w_subscriptions w)(b \<mapsto> sub\<lparr>sb_poll := Some snapshot\<rparr>)\<rparr>))"

definition poll_exit ::
  "('u, memory_change) callback \<Rightarrow> 'u \<Rightarrow> nat \<Rightarrow> registry_world \<Rightarrow> u32 outcome \<times> 'u \<times> registry_world" where
  "poll_exit callback user b w =
     (let sub = the (w_subscriptions w b) in
      case deliver callback (the (sb_poll sub)) None 0 user of
        (threw, seen, delivered, user') \<Rightarrow>
          if threw
          then (store_fail ESDB_ERR_INTERNAL ESDB_PHASE_SUBSCRIPTION
                  ''Store change callback threw an exception'', user',
                w\<lparr>w_subscriptions := (w_subscriptions w)(b \<mapsto> sub\<lparr>sb_poll := None\<rparr>)\<rparr>)
          else (Done (of_nat delivered), user',
                w\<lparr>w_subscriptions := (w_subscriptions w)(b \<mapsto> sub\<lparr>sb_poll := None,
                  sb_revision := (case seen of None \<Rightarrow> sb_revision sub | Some c \<Rightarrow> mc_revision c)\<rparr>)\<rparr>))"

definition esdb_store_subscription_revision :: "nat option \<Rightarrow> registry_world \<Rightarrow> u64" where
  "esdb_store_subscription_revision subscription w =
     (case subscription of None \<Rightarrow> 0
      | Some b \<Rightarrow> (case w_subscriptions w b of None \<Rightarrow> 0 | Some sub \<Rightarrow> sb_revision sub))"

definition esdb_store_subscription_destroy :: "nat option \<Rightarrow> registry_world \<Rightarrow> registry_world" where
  "esdb_store_subscription_destroy subscription w =
     (case subscription of None \<Rightarrow> w
      | Some b \<Rightarrow>
         (case w_subscriptions w b of
            None \<Rightarrow> w
          | Some sub \<Rightarrow>
              (update_state (sb_state sub)
                 (\<lambda>st. st\<lparr>ms_subscription_count := ms_subscription_count st - 1\<rparr>) w)
              \<lparr>w_subscriptions := (w_subscriptions w)(b := None)\<rparr>))"

text \<open>An uninterrupted enter and exit is the poll of the code.\<close>

lemma poll_is_enter_exit:
  assumes "w_subscriptions w b = Some sub" and "w_states w (sb_state sub) = Some st"
  shows "esdb_store_subscription_poll throws limit (Some callback) user (Some b) w =
    (case poll_enter throws limit b w of
       (Done _, w') \<Rightarrow> poll_exit callback user b w'
     | (Failed s e, w') \<Rightarrow> (Failed s e, user, w'))"
proof (cases "sb_poll sub = None")
  case True
  then have [simp]: "sub\<lparr>sb_poll := None\<rparr> = sub" "\<And>r. sub\<lparr>sb_poll := None, sb_revision := r\<rparr> = sub\<lparr>sb_revision := r\<rparr>"
    "\<And>r. sub\<lparr>sb_revision := r, sb_poll := None\<rparr> = sub\<lparr>sb_revision := r\<rparr>"
    by (cases sub; simp)+
  have [simp]: "w\<lparr>w_subscriptions := (w_subscriptions w)(b \<mapsto> sub)\<rparr> = w"
    using assms(1) by (cases w) (auto simp: fun_upd_idem)
  show ?thesis
    using True assms
    by (auto simp: esdb_store_subscription_poll_def poll_enter_def poll_exit_def changes_since_impl_def
        Let_def caught_def store_fail_def split: option.splits prod.splits exn.splits)
next
  case False
  with assms show ?thesis
    by (auto simp: esdb_store_subscription_poll_def poll_enter_def store_fail_def)
qed

end
