(* ===== verification/Memory_Registry_Spec.thy ===== *)
theory Memory_Registry_Spec
  imports Memory_Registry
begin

text \<open>
  Every interleaving of the registry's operations, as a labelled transition system. A label
  says what the step did to a log or showed to a subscriber, so that a property of the whole
  system is a property of its traces: the invariant ties the counts of a state to its live
  handles, every live object to a registered state, every state to the log of its trace, and
  every subscription to the slice of the log it has acknowledged.
\<close>

section \<open>Labels and steps\<close>

datatype label =
    L_silent
  | L_mutate nat history
  | L_subscribe nat nat u64
  | L_seen nat "memory_change list"

fun log_label :: "nat \<Rightarrow> label \<Rightarrow> history" where
  "log_label s (L_mutate s' es) = (if s' = s then es else [])"
| "log_label s _ = []"

definition log_of :: "nat \<Rightarrow> label list \<Rightarrow> history" where
  "log_of s tr = concat (map (log_label s) tr)"

fun seen_label :: "nat \<Rightarrow> label \<Rightarrow> memory_change list" where
  "seen_label b (L_seen b' cs) = (if b' = b then cs else [])"
| "seen_label b _ = []"

definition seen_by :: "nat \<Rightarrow> label list \<Rightarrow> memory_change list" where
  "seen_by b tr = concat (map (seen_label b) tr)"

lemma log_of_simps [simp]:
  "log_of s [] = []" "log_of s (tr @ [l]) = log_of s tr @ log_label s l"
  by (simp_all add: log_of_def)

lemma seen_by_simps [simp]:
  "seen_by b [] = []" "seen_by b (tr @ [l]) = seen_by b tr @ seen_label b l"
  by (simp_all add: seen_by_def)

text \<open>The four mutations of a store, with the events their results stand for.\<close>

inductive mutation :: "(memory_state option \<Rightarrow> history \<times> memory_state option) \<Rightarrow> bool" where
  "mutation (\<lambda>store. case esdb_store_put throws key v store of (r, store') \<Rightarrow>
     ((case r of Done _ \<Rightarrow> [Ev_Put (c_str (the key)) (the v)] | Failed _ _ \<Rightarrow> []), store'))"
| "mutation (\<lambda>store. case esdb_store_patch throws entries count store of (r, store') \<Rightarrow>
     ((case r of Done _ \<Rightarrow> map entry_event (patch_items entries count) | Failed _ _ \<Rightarrow> []), store'))"
| "mutation (\<lambda>store. case esdb_store_delete throws key store of (r, store') \<Rightarrow>
     ((case r of Done d \<Rightarrow> delete_events key d | Failed _ _ \<Rightarrow> []), store'))"
| "mutation (\<lambda>store. case esdb_store_clear throws store of (r, store') \<Rightarrow>
     ((case r of Done d \<Rightarrow> clear_events d | Failed _ _ \<Rightarrow> []), store'))"

lemma mutation_step:
  assumes "mutation f" and "refines st h"
  shows "\<exists>es st'. f (Some st) = (es, Some st') \<and> refines st' (h @ es) \<and> same_identity st st'"
  using assms(1)
proof cases
  case (1 throws key v)
  with put.simulates [OF assms(2), of throws key v] show ?thesis
    by (cases "esdb_store_put throws key v (Some st)") auto
next
  case (2 throws entries count)
  with patch.simulates [OF assms(2), of throws entries count] show ?thesis
    by (cases "esdb_store_patch throws entries count (Some st)") auto
next
  case (3 throws key)
  with delete.simulates [OF assms(2), of throws key] show ?thesis
    by (cases "esdb_store_delete throws key (Some st)") auto
next
  case (4 throws)
  with clear.simulates [OF assms(2), of throws] show ?thesis
    by (cases "esdb_store_clear throws (Some st)") auto
qed

text \<open>
  A host only passes live handles and subscriptions, destroys no subscription that is being
  polled, and a process has fewer than \<open>2 ^ 32\<close> live handles and subscriptions: the counters
  of a state are 32-bit. A callback's own data is a number: it can count the calls, hence give
  any sequence of answers.
\<close>

definition live_handles :: "registry_world \<Rightarrow> nat \<Rightarrow> nat set" where
  "live_handles w s = {h. w_handles w h = Some s}"

definition live_subscriptions :: "registry_world \<Rightarrow> nat \<Rightarrow> nat set" where
  "live_subscriptions w s = {b. \<exists>sub. w_subscriptions w b = Some sub \<and> sb_state sub = s}"

inductive registry_step :: "registry_world \<Rightarrow> label \<Rightarrow> registry_world \<Rightarrow> bool" where
  step_open: "esdb_store_open throws name out_given w = (r, w') \<Longrightarrow> registry_step w L_silent w'"
| step_close: "w_handles w h \<noteq> None \<Longrightarrow> registry_step w L_silent (esdb_store_close (Some h) w)"
| step_destroy: "esdb_store_destroy name w = (r, w') \<Longrightarrow>
    (\<And>s. card (live_handles w s) < 2 ^ 32 \<and> card (live_subscriptions w s) < 2 ^ 32) \<Longrightarrow>
    registry_step w L_silent w'"
| step_mutate: "w_handles w h = Some s \<Longrightarrow> mutation f \<Longrightarrow> on_store f (Some h) w = (es, w') \<Longrightarrow>
    registry_step w (L_mutate s es) w'"
| step_subscribe: "w_handles w h = Some s \<Longrightarrow>
    esdb_store_subscribe throws a True (Some h) w = (Done b, w') \<Longrightarrow> registry_step w (L_subscribe b s a) w'"
| step_poll_enter: "w_subscriptions w b \<noteq> None \<Longrightarrow> poll_enter throws limit b w = (r, w') \<Longrightarrow>
    registry_step w L_silent w'"
| step_poll_exit: "w_subscriptions w b = Some sub \<Longrightarrow> sb_poll sub \<noteq> None \<Longrightarrow>
    poll_exit (logged callback) (user :: nat, []) b w = (Done n, (user', cs), w') \<Longrightarrow> registry_step w (L_seen b cs) w'"
| step_poll_thrown: "w_subscriptions w b = Some sub \<Longrightarrow> sb_poll sub \<noteq> None \<Longrightarrow>
    poll_exit (logged callback) (user :: nat, []) b w = (Failed s e, u, w') \<Longrightarrow> registry_step w L_silent w'"
| step_subscription_destroy: "w_subscriptions w b = Some sub \<Longrightarrow> sb_poll sub = None \<Longrightarrow>
    registry_step w L_silent (esdb_store_subscription_destroy (Some b) w)"

inductive registry_run :: "label list \<Rightarrow> registry_world \<Rightarrow> bool" where
  run_start: "registry_run [] empty_world"
| run_step: "registry_run tr w \<Longrightarrow> registry_step w l w' \<Longrightarrow> registry_run (tr @ [l]) w'"

section \<open>Slices of a log\<close>

definition log_slice :: "history \<Rightarrow> nat \<Rightarrow> nat \<Rightarrow> memory_change list" where
  "log_slice h a m = drop a (take m (log_changes h))"

lemma take_log_changes_append:
  "m \<le> length h \<Longrightarrow> take m (log_changes (h @ h')) = take m (log_changes h)"
  by (induction h' rule: rev_induct) (simp_all flip: append_assoc)

lemma log_slice_grow [simp]: "m \<le> length h \<Longrightarrow> log_slice (h @ h') a m = log_slice h a m"
  by (simp add: log_slice_def take_log_changes_append)

lemma log_slice_empty [simp]: "log_slice h a a = []"
  by (simp add: log_slice_def)

lemma log_slice_append: "a \<le> m \<Longrightarrow> m \<le> m' \<Longrightarrow> log_slice h a m @ log_slice h m m' = log_slice h a m'"
proof -
  assume "a \<le> m" "m \<le> m'"
  then have split: "take m' (log_changes h) = take m (log_changes h) @ drop m (take m' (log_changes h))"
    by (metis append_take_drop_id min.absorb1 take_take)
  show ?thesis
  proof (cases "m \<le> length h")
    case True
    with \<open>a \<le> m\<close> show ?thesis
      unfolding log_slice_def by (subst (2) split) simp
  next
    case False
    with \<open>m \<le> m'\<close> show ?thesis
      by (simp add: log_slice_def)
  qed
qed

lemma take_log_slice: "take k (log_slice h a m) = log_slice h a (min (a + k) m)"
  by (simp add: log_slice_def take_drop min.commute add.commute)

lemma length_log_slice [simp]: "m \<le> length h \<Longrightarrow> length (log_slice h a m) = m - a"
  by (simp add: log_slice_def)

section \<open>The invariant\<close>

text \<open>The state a live object points at exists and is the one registered under its name.\<close>

definition registered :: "registry_world \<Rightarrow> nat \<Rightarrow> bool" where
  "registered w s \<longleftrightarrow> (\<exists>st. w_states w s = Some st \<and> w_registry w (ms_name st) = Some s)"

definition fresh_ok :: "registry_world \<Rightarrow> label list \<Rightarrow> bool" where
  "fresh_ok w tr \<longleftrightarrow> (\<forall>i \<ge> w_next w. w_states w i = None \<and> w_handles w i = None \<and>
     w_subscriptions w i = None \<and> seen_by i tr = [] \<and> log_of i tr = [] \<and>
     (\<forall>s a. L_subscribe i s a \<notin> set tr))"

definition states_ok :: "registry_world \<Rightarrow> label list \<Rightarrow> bool" where
  "states_ok w tr \<longleftrightarrow> (\<forall>s st. w_states w s = Some st \<longrightarrow> refines st (log_of s tr))"

definition counts_ok :: "registry_world \<Rightarrow> bool" where
  "counts_ok w \<longleftrightarrow> (\<forall>s st. w_states w s = Some st \<longrightarrow>
     ms_handle_count st = of_nat (card (live_handles w s)) \<and>
     ms_subscription_count st = of_nat (card (live_subscriptions w s)))"

definition registry_ok :: "registry_world \<Rightarrow> bool" where
  "registry_ok w \<longleftrightarrow>
     (\<forall>n s. w_registry w n = Some s \<longrightarrow> map_option ms_name (w_states w s) = Some n) \<and>
     (\<forall>h s. w_handles w h = Some s \<longrightarrow> registered w s) \<and>
     (\<forall>b sub. w_subscriptions w b = Some sub \<longrightarrow> registered w (sb_state sub))"

definition sub_ok :: "label list \<Rightarrow> nat \<Rightarrow> store_subscription \<Rightarrow> bool" where
  "sub_ok tr b sub \<longleftrightarrow>
     (let h = log_of (sb_state sub) tr; r = unat (sb_revision sub) in
      r \<le> length h \<and>
      (\<forall>cs. sb_poll sub = Some cs \<longrightarrow> (\<exists>m. r \<le> m \<and> m \<le> length h \<and> cs = log_slice h r m)) \<and>
      (\<exists>a. L_subscribe b (sb_state sub) a \<in> set tr \<and> unat a \<le> r \<and>
        seen_by b tr = log_slice h (unat a) r) \<and>
      (\<forall>s a a'. L_subscribe b s a \<in> set tr \<longrightarrow> L_subscribe b (sb_state sub) a' \<in> set tr \<longrightarrow>
        s = sb_state sub \<and> a = a'))"

definition subs_ok :: "registry_world \<Rightarrow> label list \<Rightarrow> bool" where
  "subs_ok w tr \<longleftrightarrow> (\<forall>b sub. w_subscriptions w b = Some sub \<longrightarrow> sub_ok tr b sub)"

definition world_ok :: "registry_world \<Rightarrow> label list \<Rightarrow> bool" where
  "world_ok w tr \<longleftrightarrow> fresh_ok w tr \<and> states_ok w tr \<and> counts_ok w \<and> registry_ok w \<and> subs_ok w tr"

lemmas ok_defs = fresh_ok_def states_ok_def counts_ok_def registry_ok_def subs_ok_def

lemma finite_live:
  assumes "fresh_ok w tr"
  shows "finite (live_handles w s)" and "finite (live_subscriptions w s)"
proof -
  have "h < w_next w" if "w_handles w h \<noteq> None \<or> w_subscriptions w h \<noteq> None" for h
    using assms that unfolding fresh_ok_def by (metis not_le)
  then have "live_handles w s \<subseteq> {..<w_next w}" "live_subscriptions w s \<subseteq> {..<w_next w}"
    unfolding live_handles_def live_subscriptions_def by auto
  then show "finite (live_handles w s)" and "finite (live_subscriptions w s)"
    by (auto intro: finite_subset)
qed

lemma world_ok_empty: "world_ok empty_world []"
  by (simp add: world_ok_def ok_defs empty_world_def)

text \<open>A silent label changes no log and nothing seen.\<close>

lemma silent_trace [simp]:
  "log_of s (tr @ [L_silent]) = log_of s tr" "seen_by b (tr @ [L_silent]) = seen_by b tr"
  by simp_all

lemma sub_ok_silent [simp]: "sub_ok (tr @ [L_silent]) b sub = sub_ok tr b sub"
  by (simp add: sub_ok_def)

lemma world_ok_silent: "world_ok w tr \<Longrightarrow> world_ok w (tr @ [L_silent])"
  by (simp add: world_ok_def fresh_ok_def states_ok_def subs_ok_def)

subsection \<open>The moves the operations are made of\<close>

definition new_state_move :: "cpp_string \<Rightarrow> registry_world \<Rightarrow> registry_world" where
  "new_state_move n w = w\<lparr>w_registry := (w_registry w)(n \<mapsto> w_next w),
     w_states := (w_states w)(w_next w \<mapsto> new_memory_state n), w_next := Suc (w_next w)\<rparr>"

lemma new_memory_state_name [simp]: "ms_name (new_memory_state n) = n"
  by (simp add: new_memory_state_def)

lemma registered_new_state:
  "fresh_ok w tr \<Longrightarrow> w_registry w n = None \<Longrightarrow> registered w s \<Longrightarrow> registered (new_state_move n w) s"
proof -
  assume fresh: "fresh_ok w tr" and unused: "w_registry w n = None" and "registered w s"
  then obtain st where st: "w_states w s = Some st" "w_registry w (ms_name st) = Some s"
    by (auto simp: registered_def)
  with unused have "ms_name st \<noteq> n" by auto
  moreover from fresh st have "s \<noteq> w_next w" by (auto simp: fresh_ok_def)
  ultimately show ?thesis
    using st by (auto simp: registered_def new_state_move_def)
qed

lemma new_state_ok:
  assumes "world_ok w tr" and "w_registry w n = None"
  shows "world_ok (new_state_move n w) tr"
proof -
  from assms(1) have ok: "fresh_ok w tr" "states_ok w tr" "counts_ok w" "registry_ok w" "subs_ok w tr"
    by (simp_all add: world_ok_def)
  let ?w = "new_state_move n w"
  have live: "live_handles ?w s = live_handles w s" "live_subscriptions ?w s = live_subscriptions w s" for s
    by (simp_all add: live_handles_def live_subscriptions_def new_state_move_def)
  have no_state: "w_states w (w_next w) = None" "log_of (w_next w) tr = []"
    using ok(1) by (auto simp: fresh_ok_def)
  have "live_handles w (w_next w) = {}" "live_subscriptions w (w_next w) = {}"
    using ok(4) no_state
    by (auto simp: live_handles_def live_subscriptions_def registry_ok_def registered_def) fastforce+
  then have "counts_ok ?w"
    using ok(3) unfolding counts_ok_def live
    by (auto simp: new_state_move_def new_memory_state_def)
  moreover have "fresh_ok ?w tr"
    using ok(1) by (auto simp: fresh_ok_def new_state_move_def)
  moreover have "states_ok ?w tr"
    using ok(2) no_state by (auto simp: states_ok_def new_state_move_def refines_new)
  moreover have "w_registry w m \<noteq> Some (w_next w)" for m
    using ok(4) no_state by (fastforce simp: registry_ok_def)
  then have "registry_ok ?w"
    using ok(4) registered_new_state [OF ok(1) assms(2)]
    by (auto simp: registry_ok_def new_state_move_def)
  moreover have "subs_ok ?w tr"
    using ok(5) by (simp add: subs_ok_def new_state_move_def)
  ultimately show ?thesis
    by (simp add: world_ok_def)
qed

text \<open>Changing a state in place without touching its name.\<close>

lemma registered_update_state [simp]:
  "(\<And>st. ms_name (f st) = ms_name st) \<Longrightarrow> registered (update_state s f w) s' = registered w s'"
  by (auto simp: registered_def update_state_def)

lemma update_state_simps [simp]:
  "w_registry (update_state s f w) = w_registry w" "w_handles (update_state s f w) = w_handles w"
  "w_subscriptions (update_state s f w) = w_subscriptions w" "w_next (update_state s f w) = w_next w"
  "w_states (update_state s f w) s' = (if s' = s then map_option f (w_states w s) else w_states w s')"
  by (simp_all add: update_state_def)

lemma registered_frame:
  "w_states w' = w_states w \<Longrightarrow> w_registry w' = w_registry w \<Longrightarrow> registered w' s = registered w s"
  by (simp add: registered_def)

definition add_handle_move :: "nat \<Rightarrow> registry_world \<Rightarrow> registry_world" where
  "add_handle_move s w =
     (update_state s (\<lambda>st. st\<lparr>ms_handle_count := ms_handle_count st + 1\<rparr>) w)
       \<lparr>w_handles := (w_handles w)(w_next w \<mapsto> s), w_next := Suc (w_next w)\<rparr>"

definition drop_handle_move :: "nat \<Rightarrow> nat \<Rightarrow> registry_world \<Rightarrow> registry_world" where
  "drop_handle_move h s w =
     (update_state s (\<lambda>st. st\<lparr>ms_handle_count := ms_handle_count st - 1\<rparr>) w)
       \<lparr>w_handles := (w_handles w)(h := None)\<rparr>"

definition add_subscription_move :: "nat \<Rightarrow> u64 \<Rightarrow> registry_world \<Rightarrow> registry_world" where
  "add_subscription_move s a w =
     (update_state s (\<lambda>st. st\<lparr>ms_subscription_count := ms_subscription_count st + 1\<rparr>) w)
       \<lparr>w_subscriptions := (w_subscriptions w)
          (w_next w \<mapsto> \<lparr>sb_state = s, sb_revision = a, sb_poll = None\<rparr>), w_next := Suc (w_next w)\<rparr>"

definition drop_subscription_move :: "nat \<Rightarrow> nat \<Rightarrow> registry_world \<Rightarrow> registry_world" where
  "drop_subscription_move b s w =
     (update_state s (\<lambda>st. st\<lparr>ms_subscription_count := ms_subscription_count st - 1\<rparr>) w)
       \<lparr>w_subscriptions := (w_subscriptions w)(b := None)\<rparr>"

lemmas move_defs = add_handle_move_def drop_handle_move_def add_subscription_move_def
  drop_subscription_move_def

lemma refines_counts [simp]:
  "refines (st\<lparr>ms_handle_count := n\<rparr>) h = refines st h"
  "refines (st\<lparr>ms_subscription_count := n\<rparr>) h = refines st h"
  by (simp_all add: refines_def)

lemma registered_moves [simp]:
  "registered (add_handle_move s w) s' = registered w s'"
  "registered (drop_handle_move i s w) s' = registered w s'"
  "registered (add_subscription_move s a w) s' = registered w s'"
  "registered (drop_subscription_move i s w) s' = registered w s'"
  by (auto simp: move_defs registered_def)

lemma live_add_handle:
  "fresh_ok w tr \<Longrightarrow> live_handles (add_handle_move s w) s' =
     (if s' = s then insert (w_next w) (live_handles w s) else live_handles w s')"
  "live_subscriptions (add_handle_move s w) s' = live_subscriptions w s'"
  by (auto simp: live_handles_def live_subscriptions_def move_defs fresh_ok_def)

lemma live_drop_handle:
  "w_handles w h = Some s \<Longrightarrow> live_handles (drop_handle_move h s w) s' =
     (if s' = s then live_handles w s - {h} else live_handles w s')"
  "live_subscriptions (drop_handle_move h s w) s' = live_subscriptions w s'"
  by (auto simp: live_handles_def live_subscriptions_def move_defs)

lemma live_add_subscription:
  "fresh_ok w tr \<Longrightarrow> live_subscriptions (add_subscription_move s a w) s' =
     (if s' = s then insert (w_next w) (live_subscriptions w s) else live_subscriptions w s')"
  "live_handles (add_subscription_move s a w) s' = live_handles w s'"
  by (auto simp: live_handles_def live_subscriptions_def move_defs fresh_ok_def)

lemma live_drop_subscription:
  "w_subscriptions w b = Some sub \<Longrightarrow> sb_state sub = s \<Longrightarrow>
     live_subscriptions (drop_subscription_move b s w) s' =
     (if s' = s then live_subscriptions w s - {b} else live_subscriptions w s')"
  "live_handles (drop_subscription_move b s w) s' = live_handles w s'"
  by (auto simp: live_handles_def live_subscriptions_def move_defs)

lemma fresh_not_live:
  "fresh_ok w tr \<Longrightarrow> w_next w \<notin> live_handles w s"
  "fresh_ok w tr \<Longrightarrow> w_next w \<notin> live_subscriptions w s"
  by (auto simp: fresh_ok_def live_handles_def live_subscriptions_def)

lemma of_nat_card_remove:
  assumes "finite A" and "x \<in> A"
  shows "(of_nat (card A) :: 'a::len word) - 1 = of_nat (card (A - {x}))"
  using card_Suc_Diff1 [OF assms] by (metis add_diff_cancel_left' of_nat_Suc)

lemma add_handle_ok:
  assumes "world_ok w tr" and "registered w s"
  shows "world_ok (add_handle_move s w) tr"
proof -
  from assms(1) have ok: "fresh_ok w tr" "states_ok w tr" "counts_ok w" "registry_ok w" "subs_ok w tr"
    by (simp_all add: world_ok_def)
  have "counts_ok (add_handle_move s w)"
    using ok(3) fresh_not_live(1) [OF ok(1)] finite_live [OF ok(1)]
    by (auto simp: counts_ok_def live_add_handle(1) [OF ok(1)] live_add_handle(2)) (auto simp: move_defs)
  moreover have "fresh_ok (add_handle_move s w) tr"
    using ok(1) assms(2) by (auto simp: fresh_ok_def move_defs registered_def)
  moreover have "states_ok (add_handle_move s w) tr"
    using ok(2) by (auto simp: states_ok_def move_defs)
  moreover have "registry_ok (add_handle_move s w)"
    using ok(4) assms(2) unfolding registry_ok_def registered_moves
    by (auto simp: move_defs option.map_comp comp_def simp del: map_option_eq_Some)
  moreover have "subs_ok (add_handle_move s w) tr"
    using ok(5) by (simp add: subs_ok_def move_defs)
  ultimately show ?thesis by (simp add: world_ok_def)
qed

lemma drop_handle_ok:
  assumes "world_ok w tr" and "w_handles w h = Some s"
  shows "world_ok (drop_handle_move h s w) tr"
proof -
  from assms(1) have ok: "fresh_ok w tr" "states_ok w tr" "counts_ok w" "registry_ok w" "subs_ok w tr"
    by (simp_all add: world_ok_def)
  have "h \<in> live_handles w s"
    using assms(2) by (simp add: live_handles_def)
  from of_nat_card_remove [OF finite_live(1) [OF ok(1)] this, where 'a = 32]
  have "counts_ok (drop_handle_move h s w)"
    using ok(3) by (auto simp: counts_ok_def live_drop_handle(1) [OF assms(2)] live_drop_handle(2))
      (auto simp: move_defs)
  moreover have "fresh_ok (drop_handle_move h s w) tr"
    using ok(1) by (auto simp: fresh_ok_def move_defs)
  moreover have "states_ok (drop_handle_move h s w) tr"
    using ok(2) by (auto simp: states_ok_def move_defs)
  moreover have "registry_ok (drop_handle_move h s w)"
    using ok(4) unfolding registry_ok_def registered_moves
    by (auto simp: move_defs option.map_comp comp_def simp del: map_option_eq_Some)
  moreover have "subs_ok (drop_handle_move h s w) tr"
    using ok(5) by (simp add: subs_ok_def move_defs)
  ultimately show ?thesis by (simp add: world_ok_def)
qed

lemma drop_subscription_ok:
  assumes "world_ok w tr" and "w_subscriptions w b = Some sub" and "sb_state sub = s"
  shows "world_ok (drop_subscription_move b s w) tr"
proof -
  from assms(1) have ok: "fresh_ok w tr" "states_ok w tr" "counts_ok w" "registry_ok w" "subs_ok w tr"
    by (simp_all add: world_ok_def)
  have "b \<in> live_subscriptions w s"
    using assms(2,3) by (simp add: live_subscriptions_def)
  from of_nat_card_remove [OF finite_live(2) [OF ok(1)] this, where 'a = 32]
  have "counts_ok (drop_subscription_move b s w)"
    using ok(3) by (auto simp: counts_ok_def live_drop_subscription(1) [OF assms(2,3)]
        live_drop_subscription(2)) (auto simp: move_defs)
  moreover have "fresh_ok (drop_subscription_move b s w) tr"
    using ok(1) by (auto simp: fresh_ok_def move_defs)
  moreover have "states_ok (drop_subscription_move b s w) tr"
    using ok(2) by (auto simp: states_ok_def move_defs)
  moreover have "registry_ok (drop_subscription_move b s w)"
    using ok(4) unfolding registry_ok_def registered_moves
    by (auto simp: move_defs option.map_comp comp_def simp del: map_option_eq_Some)
  moreover have "subs_ok (drop_subscription_move b s w) tr"
    using ok(5) by (simp add: subs_ok_def move_defs)
  ultimately show ?thesis by (simp add: world_ok_def)
qed

text \<open>Growing a log, by a mutation, keeps every acknowledged slice.\<close>

lemma sub_ok_mutate:
  assumes "sub_ok tr b sub"
  shows "sub_ok (tr @ [L_mutate s es]) b sub"
proof -
  let ?h = "log_of (sb_state sub) tr"
  let ?h' = "log_of (sb_state sub) (tr @ [L_mutate s es])"
  obtain es' where h: "?h' = ?h @ es'" by simp
  have set: "L_subscribe b s' a \<in> set (tr @ [L_mutate s es]) \<longleftrightarrow> L_subscribe b s' a \<in> set tr" for s' a
    by auto
  have seen: "seen_by b (tr @ [L_mutate s es]) = seen_by b tr"
    by simp
  let ?r = "unat (sb_revision sub)"
  from assms have r: "?r \<le> length ?h"
    and poll: "\<forall>cs. sb_poll sub = Some cs \<longrightarrow> (\<exists>m. ?r \<le> m \<and> m \<le> length ?h \<and> cs = log_slice ?h ?r m)"
    and rest: "\<exists>a. L_subscribe b (sb_state sub) a \<in> set tr \<and> unat a \<le> ?r \<and>
        seen_by b tr = log_slice ?h (unat a) ?r"
      "\<forall>s a a'. L_subscribe b s a \<in> set tr \<longrightarrow> L_subscribe b (sb_state sub) a' \<in> set tr \<longrightarrow>
        s = sb_state sub \<and> a = a'"
    unfolding sub_ok_def Let_def by blast+
  have "\<exists>m. ?r \<le> m \<and> m \<le> length (?h @ es') \<and> cs = log_slice (?h @ es') ?r m"
    if "sb_poll sub = Some cs" for cs
  proof -
    from poll that obtain m where "?r \<le> m" "m \<le> length ?h" "cs = log_slice ?h ?r m"
      by blast
    then show ?thesis by (intro exI [of _ m]) simp
  qed
  then show ?thesis
    unfolding sub_ok_def Let_def set seen h log_slice_grow [OF r] using r rest by simp
qed

lemma mutate_ok:
  assumes "world_ok w tr" and "w_states w s = Some st" and "registered w s"
    and "refines st' (log_of s tr @ es)" and "same_identity st st'"
  shows "world_ok (w\<lparr>w_states := (w_states w)(s \<mapsto> st')\<rparr>) (tr @ [L_mutate s es])"
proof -
  from assms(1) have ok: "fresh_ok w tr" "states_ok w tr" "counts_ok w" "registry_ok w" "subs_ok w tr"
    by (simp_all add: world_ok_def)
  let ?w = "w\<lparr>w_states := (w_states w)(s \<mapsto> st')\<rparr>"
  have name: "ms_name st' = ms_name st" "ms_handle_count st' = ms_handle_count st"
    "ms_subscription_count st' = ms_subscription_count st"
    using assms(5) by (simp_all add: same_identity_def)
  have live: "live_handles ?w s' = live_handles w s'" "live_subscriptions ?w s' = live_subscriptions w s'" for s'
    by (simp_all add: live_handles_def live_subscriptions_def)
  have reg: "registered ?w s' = registered w s'" for s'
    using assms(2) name by (auto simp: registered_def)
  have "s < w_next w"
    using ok(1) assms(2) by (metis fresh_ok_def not_le option.distinct(1))
  then have "fresh_ok ?w (tr @ [L_mutate s es])"
    using ok(1) by (auto simp: fresh_ok_def)
  moreover have "states_ok ?w (tr @ [L_mutate s es])"
    using ok(2) assms(4) by (auto simp: states_ok_def)
  moreover have "counts_ok ?w"
    using ok(3) assms(2) name unfolding counts_ok_def live by auto
  moreover have "registry_ok ?w"
    using ok(4) assms(2) name unfolding registry_ok_def reg by fastforce
  moreover have "subs_ok ?w (tr @ [L_mutate s es])"
    using ok(5) sub_ok_mutate by (auto simp: subs_ok_def)
  ultimately show ?thesis by (simp add: world_ok_def)
qed

text \<open>A subscription starts at its cursor with nothing seen.\<close>

lemma sub_ok_subscribe_other:
  assumes "sub_ok tr b sub" and "b \<noteq> b'"
  shows "sub_ok (tr @ [L_subscribe b' s a]) b sub"
proof -
  have "log_of (sb_state sub) (tr @ [L_subscribe b' s a]) = log_of (sb_state sub) tr"
    "seen_by b (tr @ [L_subscribe b' s a]) = seen_by b tr"
    "L_subscribe b s' x \<in> set (tr @ [L_subscribe b' s a]) \<longleftrightarrow> L_subscribe b s' x \<in> set tr" for s' x
    using assms(2) by auto
  with assms(1) show ?thesis by (simp only: sub_ok_def)
qed

lemma add_subscription_ok:
  assumes "world_ok w tr" and "registered w s" and "unat a \<le> length (log_of s tr)"
  shows "world_ok (add_subscription_move s a w) (tr @ [L_subscribe (w_next w) s a])"
proof -
  from assms(1) have ok: "fresh_ok w tr" "states_ok w tr" "counts_ok w" "registry_ok w" "subs_ok w tr"
    by (simp_all add: world_ok_def)
  let ?w = "add_subscription_move s a w" and ?tr = "tr @ [L_subscribe (w_next w) s a]"
  let ?sub = "\<lparr>sb_state = s, sb_revision = a, sb_poll = None\<rparr>"
  have "counts_ok ?w"
    using ok(3) fresh_not_live(2) [OF ok(1)] finite_live [OF ok(1)]
    by (auto simp: counts_ok_def live_add_subscription(1) [OF ok(1)] live_add_subscription(2))
      (auto simp: move_defs)
  moreover have "fresh_ok ?w ?tr"
    using ok(1) assms(2) by (auto simp: fresh_ok_def move_defs registered_def)
  moreover have "states_ok ?w ?tr"
    using ok(2) by (auto simp: states_ok_def move_defs)
  moreover have "registry_ok ?w"
    using ok(4) assms(2) unfolding registry_ok_def registered_moves
    by (auto simp: move_defs option.map_comp comp_def simp del: map_option_eq_Some)
  moreover have "subs_ok ?w ?tr"
  proof -
    have "sub_ok ?tr (w_next w) ?sub"
      using ok(1) assms(3) by (auto simp: sub_ok_def fresh_ok_def)
    moreover have "b \<noteq> w_next w" if "w_subscriptions w b = Some sub" for b sub
      using that ok(1) by (auto simp: fresh_ok_def)
    ultimately show ?thesis
      using ok(5) sub_ok_subscribe_other by (auto simp: subs_ok_def move_defs)
  qed
  ultimately show ?thesis by (simp add: world_ok_def)
qed

text \<open>Updating one subscription, with a label that shows nothing to the others.\<close>

lemma sub_ok_seen_other:
  assumes "sub_ok tr b sub" and "b \<noteq> b'"
  shows "sub_ok (tr @ [L_seen b' cs]) b sub"
proof -
  have "log_of (sb_state sub) (tr @ [L_seen b' cs]) = log_of (sb_state sub) tr"
    "seen_by b (tr @ [L_seen b' cs]) = seen_by b tr"
    "L_subscribe b s' x \<in> set (tr @ [L_seen b' cs]) \<longleftrightarrow> L_subscribe b s' x \<in> set tr" for s' x
    using assms(2) by auto
  with assms(1) show ?thesis by (simp only: sub_ok_def)
qed

lemma update_sub_ok:
  assumes "world_ok w tr" and "w_subscriptions w b = Some sub" and "sb_state sub' = sb_state sub"
    and "sub_ok (tr @ [l]) b sub'" and "l = L_silent \<or> (\<exists>cs. l = L_seen b cs)"
  shows "world_ok (w\<lparr>w_subscriptions := (w_subscriptions w)(b \<mapsto> sub')\<rparr>) (tr @ [l])"
proof -
  from assms(1) have ok: "fresh_ok w tr" "states_ok w tr" "counts_ok w" "registry_ok w" "subs_ok w tr"
    by (simp_all add: world_ok_def)
  let ?w = "w\<lparr>w_subscriptions := (w_subscriptions w)(b \<mapsto> sub')\<rparr>"
  have live: "live_handles ?w s = live_handles w s" "live_subscriptions ?w s = live_subscriptions w s" for s
    using assms(2,3) by (auto simp: live_handles_def live_subscriptions_def)
  have reg: "registered ?w s = registered w s" for s
    by (simp add: registered_def)
  have "b < w_next w"
    using ok(1) assms(2) by (metis fresh_ok_def not_le option.distinct(1))
  then have "fresh_ok ?w (tr @ [l])"
    using ok(1) assms(5) by (auto simp: fresh_ok_def)
  moreover have "states_ok ?w (tr @ [l])"
    using ok(2) assms(5) by (auto simp: states_ok_def)
  moreover have "counts_ok ?w"
    using ok(3) unfolding counts_ok_def live by auto
  moreover have "registry_ok ?w"
    using ok(4) assms(2,3) unfolding registry_ok_def reg by auto
  moreover have "subs_ok ?w (tr @ [l])"
    using ok(5) assms(4,5) sub_ok_seen_other by (auto simp: subs_ok_def)
  ultimately show ?thesis by (simp add: world_ok_def)
qed

text \<open>Unregistering a name nothing points at.\<close>

lemma unregister_ok:
  assumes "world_ok w tr" and "w_registry w n = Some s"
    and "live_handles w s = {}" and "live_subscriptions w s = {}"
  shows "world_ok (w\<lparr>w_registry := (w_registry w)(n := None)\<rparr>) tr"
proof -
  from assms(1) have ok: "fresh_ok w tr" "states_ok w tr" "counts_ok w" "registry_ok w" "subs_ok w tr"
    by (simp_all add: world_ok_def)
  let ?w = "w\<lparr>w_registry := (w_registry w)(n := None)\<rparr>"
  have reg: "registered ?w s'" if other: "registered w s'" "s' \<noteq> s" for s'
  proof -
    from other(1) obtain st where st: "w_states w s' = Some st" "w_registry w (ms_name st) = Some s'"
      by (auto simp: registered_def)
    with other(2) assms(2) have "ms_name st \<noteq> n" by auto
    with st show ?thesis by (simp add: registered_def)
  qed
  have "s' \<noteq> s" if "w_handles w h = Some s'" for h s'
    using that assms(3) by (auto simp: live_handles_def)
  moreover have "sb_state sub \<noteq> s" if "w_subscriptions w b = Some sub" for b sub
    using that assms(4) by (auto simp: live_subscriptions_def)
  ultimately have "registry_ok ?w"
    using ok(4) reg by (auto simp: registry_ok_def)
  moreover have "counts_ok ?w"
    using ok(3) by (simp add: counts_ok_def live_handles_def live_subscriptions_def)
  ultimately show ?thesis
    using ok by (simp add: world_ok_def fresh_ok_def states_ok_def subs_ok_def)
qed

subsection \<open>Every step keeps the invariant\<close>

lemma open_handle_moves:
  "open_handle throws s w = (r, w') \<Longrightarrow> w_states w s \<noteq> None \<Longrightarrow> w' = w \<or> w' = add_handle_move s w"
  by (auto simp: open_handle_def Let_def update_state_def add_handle_move_def option.map_comp comp_def
      fun_upd_idem split: if_splits)

lemma open_ok:
  assumes "world_ok w tr" and "esdb_store_open throws name out_given w = (r, w')"
  shows "world_ok w' tr"
proof -
  let ?n = "c_str (the name)"
  have ok: "fresh_ok w tr" "registry_ok w"
    using assms(1) by (simp_all add: world_ok_def)
  consider "w' = w" | s where "w_registry w ?n = Some s" "open_handle throws s w = (r, w')"
    | "w_registry w ?n = None" "open_handle throws (w_next w) (new_state_move ?n w) = (r, w')"
    using assms(2) unfolding esdb_store_open_def new_state_move_def
    by (auto simp: Let_def split: if_splits option.splits)
  then show ?thesis
  proof cases
    case 1
    with assms(1) show ?thesis by simp
  next
    case (2 s)
    from ok(2) 2(1) have "registered w s"
      by (fastforce simp: registry_ok_def registered_def)
    with 2(2) assms(1) show ?thesis
      using open_handle_moves [OF 2(2)] add_handle_ok [OF assms(1)] by (auto simp: registered_def)
  next
    case 3
    note new = new_state_ok [OF assms(1) 3(1)]
    have "registered (new_state_move ?n w) (w_next w)"
      by (simp add: registered_def new_state_move_def)
    then show ?thesis
      using open_handle_moves [OF 3(2)] add_handle_ok [OF new] new by (auto simp: registered_def)
  qed
qed

lemma of_nat_u32_zero: "n < 2 ^ 32 \<Longrightarrow> (of_nat n :: u32) = 0 \<longleftrightarrow> n = 0"
  by (simp add: word_unat_eq_iff unat_of_nat)

lemma destroy_ok:
  assumes "world_ok w tr" and "esdb_store_destroy name w = (r, w')"
    and "\<And>s. card (live_handles w s) < 2 ^ 32 \<and> card (live_subscriptions w s) < 2 ^ 32"
  shows "world_ok w' tr"
proof -
  have ok: "fresh_ok w tr" "counts_ok w" "registry_ok w"
    using assms(1) by (simp_all add: world_ok_def)
  have "w' = w \<or> (\<exists>s. w_registry w (c_str (the name)) = Some s \<and>
      ms_handle_count (the (w_states w s)) = 0 \<and> ms_subscription_count (the (w_states w s)) = 0 \<and>
      w' = w\<lparr>w_registry := (w_registry w)(c_str (the name) := None)\<rparr>)"
    using assms(2) unfolding esdb_store_destroy_def Let_def
    by (cases "w_registry w (c_str (the name))") (simp_all split: if_splits)
  then consider "w' = w" | s where "w_registry w (c_str (the name)) = Some s"
      "ms_handle_count (the (w_states w s)) = 0" "ms_subscription_count (the (w_states w s)) = 0"
      "w' = w\<lparr>w_registry := (w_registry w)(c_str (the name) := None)\<rparr>"
    by blast
  then show ?thesis
  proof cases
    case 1
    with assms(1) show ?thesis by simp
  next
    case (2 s)
    from ok(3) 2(1) obtain st where "w_states w s = Some st"
      by (fastforce simp: registry_ok_def)
    with ok(2) 2 have "(of_nat (card (live_handles w s)) :: u32) = 0"
      "(of_nat (card (live_subscriptions w s)) :: u32) = 0"
      by (auto simp: counts_ok_def)
    then have "card (live_handles w s) = 0" "card (live_subscriptions w s) = 0"
      using assms(3) [of s] of_nat_u32_zero by blast+
    with finite_live [OF ok(1)] have "live_handles w s = {}" "live_subscriptions w s = {}"
      by auto
    with unregister_ok [OF assms(1) 2(1)] 2(4) show ?thesis by simp
  qed
qed

lemma handle_state_live:
  assumes "world_ok w tr" and "w_handles w h = Some s"
  obtains st where "handle_state (Some h) w = Some st" "w_states w s = Some st"
    "refines st (log_of s tr)" "registered w s"
proof -
  from assms have reg: "registered w s"
    unfolding world_ok_def registry_ok_def by blast
  then obtain st where st: "w_states w s = Some st"
    unfolding registered_def by blast
  with assms(1) have "refines st (log_of s tr)"
    unfolding world_ok_def states_ok_def by blast
  with reg st assms(2) show ?thesis
    by (intro that [of st]) (simp_all add: handle_state_def)
qed

lemma subscribe_ok:
  assumes "world_ok w tr" and "w_handles w h = Some s"
    and "esdb_store_subscribe throws a True (Some h) w = (Done b, w')"
  shows "world_ok w' (tr @ [L_subscribe b s a])"
proof -
  obtain st where st: "handle_state (Some h) w = Some st" "w_states w s = Some st"
    "refines st (log_of s tr)" "registered w s"
    by (rule handle_state_live [OF assms(1,2)])
  from assms(2,3) st(1) have "b = w_next w" "w' = add_subscription_move s a w" "\<not> ms_revision st < a"
    by (auto simp: esdb_store_subscribe_def add_subscription_move_def Let_def split: if_splits)
  moreover from this st(3) have "unat a \<le> length (log_of s tr)"
    by (simp add: refines_def word_less_nat_alt)
  ultimately show ?thesis
    using add_subscription_ok [OF assms(1) st(4)] by simp
qed

lemma subscription_state:
  assumes "world_ok w tr" and "w_subscriptions w b = Some sub"
  obtains st where "w_states w (sb_state sub) = Some st" "refines st (log_of (sb_state sub) tr)"
    "registered w (sb_state sub)"
proof -
  from assms have reg: "registered w (sb_state sub)"
    unfolding world_ok_def registry_ok_def by blast
  then obtain st where st: "w_states w (sb_state sub) = Some st"
    unfolding registered_def by blast
  with assms(1) have "refines st (log_of (sb_state sub) tr)"
    unfolding world_ok_def states_ok_def by blast
  with reg st that show ?thesis by blast
qed

lemma poll_enter_ok:
  assumes "world_ok w tr" and "w_subscriptions w b = Some sub" and "poll_enter throws limit b w = (r, w')"
  shows "world_ok w' (tr @ [L_silent])"
proof (cases r)
  case (Failed s e)
  with assms(2,3) have "w' = w"
    by (auto simp: poll_enter_def Let_def split: if_splits option.splits)
  with assms(1) show ?thesis by (simp add: world_ok_silent)
next
  case (Done u)
  let ?h = "log_of (sb_state sub) tr"
  from assms(1,2) have sub: "sub_ok tr b sub"
    unfolding world_ok_def subs_ok_def by blast
  obtain st where st: "w_states w (sb_state sub) = Some st" "refines st ?h"
    by (rule subscription_state [OF assms(1,2)])
  from Done assms(2,3) st(1) obtain n where
    w': "w' = w\<lparr>w_subscriptions := (w_subscriptions w)(b \<mapsto> sub\<lparr>sb_poll :=
        Some (collect_changes (sb_revision sub) n 0 (ms_changes st))\<rparr>)\<rparr>"
    and floor: "\<not> sb_revision sub < ms_retained_floor st"
    by (auto simp: poll_enter_def Let_def split: if_splits option.splits)
  let ?r = "unat (sb_revision sub)"
  from sub have r: "?r \<le> length ?h"
    by (simp add: sub_ok_def Let_def)
  from st(2) have h: "length ?h < 2 ^ 63"
    "ms_changes st = drop (length ?h - ESDB_STORE_CHANGE_CAPACITY) (log_changes ?h)"
    "length ?h - ESDB_STORE_CHANGE_CAPACITY \<le> ?r"
    using floor by (auto simp: refines_def word_less_nat_alt)
  have "collect_changes (sb_revision sub) n 0 (ms_changes st) = take n (drop ?r (log_changes ?h))"
    unfolding collect_changes_eq h(2) newer_changes [OF h(1,3) r] by simp
  also have "\<dots> = log_slice ?h ?r (min (?r + n) (length ?h))"
    using take_log_slice [of n ?h ?r "length ?h"] by (simp add: log_slice_def)
  finally have cs: "collect_changes (sb_revision sub) n 0 (ms_changes st)
      = log_slice ?h ?r (min (?r + n) (length ?h))" .
  have "sub_ok tr b (sub\<lparr>sb_poll := Some (log_slice ?h ?r (min (?r + n) (length ?h)))\<rparr>)"
    using sub r unfolding sub_ok_def Let_def
    by (auto intro!: exI [of _ "min (?r + n) (length ?h)"])
  then show ?thesis
    unfolding w' cs by (intro update_sub_ok [OF assms(1,2)]) auto
qed

lemma poll_exit_ok:
  assumes "world_ok w tr" and "w_subscriptions w b = Some sub" and "sb_poll sub = Some cs"
    and "poll_exit (logged callback) (user, []) b w = (Done n, (user', seen), w')"
  shows "world_ok w' (tr @ [L_seen b seen])"
proof -
  let ?h = "log_of (sb_state sub) tr" and ?r = "unat (sb_revision sub)"
  from assms(1,2) have sub: "sub_ok tr b sub"
    unfolding world_ok_def subs_ok_def by blast
  obtain st where st: "refines st ?h"
    by (rule subscription_state [OF assms(1,2)])
  then have h: "length ?h < 2 ^ 63"
    by (simp add: refines_def)
  from sub assms(3) obtain m where m: "?r \<le> m" "m \<le> length ?h" "cs = log_slice ?h ?r m"
    unfolding sub_ok_def Let_def by blast
  obtain threw prev k u' s' where d: "deliver (logged callback) cs None 0 (user, []) = (threw, prev, k, (u', s'))"
    by (metis prod_cases3 surj_pair)
  from deliver_logged [OF d] have k: "k \<le> length cs" "s' = take k cs"
    "prev = (if k = 0 then None else Some (cs ! (k - 1)))"
    by auto
  let ?rev = "case prev of None \<Rightarrow> sb_revision sub | Some c \<Rightarrow> mc_revision c"
  from assms(2-4) d have out: "seen = s'"
    "w' = w\<lparr>w_subscriptions := (w_subscriptions w)(b \<mapsto> sub\<lparr>sb_poll := None, sb_revision := ?rev\<rparr>)\<rparr>"
    by (auto simp: poll_exit_def Let_def store_fail_def split: if_splits)
  have rk: "?r + k \<le> length ?h"
    using k(1) m by simp
  have "unat ?rev = ?r + k"
  proof (cases "k = 0")
    case True
    with k(3) show ?thesis by simp
  next
    case False
    then have "k - 1 < length (log_slice ?h ?r m)" "?r + (k - 1) < length ?h"
      using k(1) m rk by auto
    then have "cs ! (k - 1) = log_changes ?h ! (?r + (k - 1))"
      using m by (simp add: log_slice_def)
    with False k(3) log_revision [OF h \<open>?r + (k - 1) < length ?h\<close>] show ?thesis by simp
  qed
  moreover have seen: "seen = log_slice ?h ?r (?r + k)"
  proof -
    have "?r + k \<le> m"
      using k(1) m by simp
    then show ?thesis
      using k(2) m unfolding out(1) by (simp add: take_log_slice min_absorb1)
  qed
  obtain a where a: "L_subscribe b (sb_state sub) a \<in> set tr" "unat a \<le> ?r" "seen_by b tr = log_slice ?h (unat a) ?r"
    using sub unfolding sub_ok_def Let_def by blast
  have "seen_by b tr @ seen = log_slice ?h (unat a) (?r + k)"
    unfolding a(3) seen by (rule log_slice_append) (simp_all add: a(2))
  ultimately have "sub_ok (tr @ [L_seen b seen]) b (sub\<lparr>sb_poll := None, sb_revision := ?rev\<rparr>)"
    using sub a(1,2) rk unfolding sub_ok_def Let_def by auto
  then show ?thesis
    unfolding out(2) by (intro update_sub_ok [OF assms(1,2)]) auto
qed

lemma poll_thrown_ok:
  assumes "world_ok w tr" and "w_subscriptions w b = Some sub"
    and "poll_exit (logged callback) (user, []) b w = (Failed s e, u, w')"
  shows "world_ok w' (tr @ [L_silent])"
proof -
  from assms(2,3) have "w' = w\<lparr>w_subscriptions := (w_subscriptions w)(b \<mapsto> sub\<lparr>sb_poll := None\<rparr>)\<rparr>"
    by (auto simp: poll_exit_def Let_def split: if_splits prod.splits)
  moreover have "sub_ok tr b sub"
    using assms(1,2) unfolding world_ok_def subs_ok_def by blast
  then have "sub_ok (tr @ [L_silent]) b (sub\<lparr>sb_poll := None\<rparr>)"
    unfolding sub_ok_silent by (simp add: sub_ok_def Let_def)
  ultimately show ?thesis
    using update_sub_ok [OF assms(1,2), of "sub\<lparr>sb_poll := None\<rparr>" L_silent] by simp
qed

lemma step_ok:
  assumes "registry_step w l w'" and "world_ok w tr"
  shows "world_ok w' (tr @ [l])"
  using assms
proof cases
  case (step_open throws name out_given r)
  then show ?thesis
    using open_ok [OF assms(2)] by (auto intro: world_ok_silent)
next
  case (step_close h)
  then obtain s where s: "w_handles w h = Some s" by auto
  then have "w' = drop_handle_move h s w"
    using step_close by (simp add: esdb_store_close_def drop_handle_move_def)
  with drop_handle_ok [OF assms(2) s] step_close show ?thesis
    by (simp add: world_ok_silent)
next
  case (step_destroy name r)
  then show ?thesis
    using destroy_ok [OF assms(2)] by (auto intro: world_ok_silent)
next
  case (step_mutate h s f es)
  obtain st where st: "handle_state (Some h) w = Some st" "w_states w s = Some st"
    "refines st (log_of s tr)" "registered w s"
    by (rule handle_state_live [OF assms(2) step_mutate(2)])
  from mutation_step [OF step_mutate(3) st(3)] obtain es' st' where
    m: "f (Some st) = (es', Some st')" "refines st' (log_of s tr @ es')" "same_identity st st'"
    by blast
  with step_mutate(2,4) st(1) have "es' = es" "w' = w\<lparr>w_states := (w_states w)(s \<mapsto> st')\<rparr>"
    by (auto simp: on_store_def)
  with mutate_ok [OF assms(2) st(2,4)] m step_mutate(1) show ?thesis by simp
next
  case (step_subscribe h s throws a b)
  then show ?thesis
    using subscribe_ok [OF assms(2)] by simp
next
  case (step_poll_enter b throws limit r)
  then show ?thesis
    using poll_enter_ok [OF assms(2)] by auto
next
  case (step_poll_exit b sub callback user n user' cs)
  then show ?thesis
    using poll_exit_ok [OF assms(2)] by auto
next
  case (step_poll_thrown b sub callback user s e u)
  then show ?thesis
    using poll_thrown_ok [OF assms(2)] by simp
next
  case (step_subscription_destroy b sub)
  then have "w' = drop_subscription_move b (sb_state sub) w"
    by (simp add: esdb_store_subscription_destroy_def drop_subscription_move_def)
  with drop_subscription_ok [OF assms(2) step_subscription_destroy(3) refl] step_subscription_destroy(1)
  show ?thesis by (simp add: world_ok_silent)
qed

lemma run_ok: "registry_run tr w \<Longrightarrow> world_ok w tr"
  by (induction rule: registry_run.induct) (auto intro: world_ok_empty step_ok)

section \<open>Properties\<close>

text \<open>
  No dangling objects, in any interleaving of opens, closes, mutations, subscriptions,
  polls and destroys: every live handle and every live subscription points at a state that
  exists and is the one registered under its name, so a store cannot be destroyed under its
  users and two handles opened on one name share one state.
\<close>

theorem live_objects_are_registered:
  assumes "registry_run tr w"
  shows "(\<forall>h s. w_handles w h = Some s \<longrightarrow> registered w s) \<and>
    (\<forall>b sub. w_subscriptions w b = Some sub \<longrightarrow> registered w (sb_state sub)) \<and>
    (\<forall>h h'. h \<in> dom (w_handles w) \<longrightarrow> h' \<in> dom (w_handles w) \<longrightarrow>
      esdb_store_name (Some h) w = esdb_store_name (Some h') w \<longrightarrow> w_handles w h = w_handles w h')"
proof -
  have reg: "registry_ok w"
    using run_ok [OF assms] by (simp add: world_ok_def)
  have "w_handles w h = w_handles w h'"
    if live: "w_handles w h = Some s" "w_handles w h' = Some s'"
      and same: "esdb_store_name (Some h) w = esdb_store_name (Some h') w" for h h' s s'
  proof -
    from reg live have "registered w s" "registered w s'"
      unfolding registry_ok_def by blast+
    then obtain st st' where "w_states w s = Some st" "w_registry w (ms_name st) = Some s"
      "w_states w s' = Some st'" "w_registry w (ms_name st') = Some s'"
      unfolding registered_def by blast
    moreover from this same live have "ms_name st = ms_name st'"
      by (simp add: esdb_store_name_def handle_state_def)
    ultimately show ?thesis
      using live by simp
  qed
  with reg show ?thesis
    unfolding registry_ok_def dom_def by auto
qed

definition sample_open :: "registry_world" where
  "sample_open = snd (esdb_store_open (\<lambda>_. None) (Some [107]) True empty_world)"

lemma sample_name [simp]: "valid_name (Some [107])"
  by code_simp

lemma sample_open_eq: "sample_open =
    \<lparr>w_registry = [Str [107] \<mapsto> 0],
     w_states = [0 \<mapsto> (new_memory_state (Str [107]))\<lparr>ms_handle_count := 1\<rparr>],
     w_handles = [1 \<mapsto> 0], w_subscriptions = Map.empty, w_next = Suc (Suc 0)\<rparr>"
  by (simp add: sample_open_def esdb_store_open_def open_handle_def empty_world_def Let_def c_str_def
      update_state_def new_memory_state_def)

lemma sample_open_run: "registry_run [L_silent] sample_open"
proof -
  have "registry_step empty_world L_silent sample_open"
    by (rule step_open [of "\<lambda>_. None" "Some [107]" True _ "fst (esdb_store_open (\<lambda>_. None) (Some [107]) True empty_world)"])
      (simp add: sample_open_def)
  with run_step [OF run_start] show ?thesis by simp
qed

lemma sample_open_handle: "w_handles sample_open 1 = Some 0"
  by (simp add: sample_open_eq c_str_def)

theorem live_objects_are_registered_witness:
  "registry_run [L_silent] sample_open \<and> registered sample_open 0"
  using live_objects_are_registered [OF sample_open_run] sample_open_handle sample_open_run by blast

text \<open>
  Destroy is refused exactly while something is open. In any reachable world, destroying a
  registered name answers \<open>BUSY\<close> when the store has a live handle or subscription and
  otherwise succeeds and removes the name, provided the objects fit the 32-bit counters.
\<close>

theorem destroy_iff_unused:
  assumes "registry_run tr w" and "valid_name name" and "w_registry w (c_str (the name)) = Some s"
    and "card (live_handles w s) < 2 ^ 32" and "card (live_subscriptions w s) < 2 ^ 32"
  shows "esdb_store_destroy name w =
    (if live_handles w s = {} \<and> live_subscriptions w s = {}
     then (Done (), w\<lparr>w_registry := (w_registry w)(c_str (the name) := None)\<rparr>)
     else (store_fail ESDB_ERR_BUSY ESDB_PHASE_STORE
             ''named Store still has active handles or subscriptions'', w))"
proof -
  have ok: "fresh_ok w tr" "counts_ok w" "registry_ok w"
    using run_ok [OF assms(1)] by (simp_all add: world_ok_def)
  from ok(3) assms(3) obtain st where st: "w_states w s = Some st"
    by (fastforce simp: registry_ok_def)
  note zero = of_nat_u32_zero
  have "(ms_handle_count st = 0) = (live_handles w s = {})"
    "(ms_subscription_count st = 0) = (live_subscriptions w s = {})"
    using ok(2) st zero [OF assms(4)] zero [OF assms(5)] finite_live [OF ok(1), of s]
    by (simp_all add: counts_ok_def)
  with assms(2,3) st show ?thesis
    by (simp add: esdb_store_destroy_def)
qed

theorem destroy_iff_unused_witness:
  "esdb_store_destroy (Some [107]) sample_open = (store_fail ESDB_ERR_BUSY ESDB_PHASE_STORE
             ''named Store still has active handles or subscriptions'', sample_open)"
proof -
  have reg: "w_registry sample_open (c_str (the (Some [107]))) = Some 0"
    by (simp add: sample_open_eq c_str_def)
  have live: "live_handles sample_open 0 = {1}" "live_subscriptions sample_open 0 = {}"
    by (auto simp: live_handles_def live_subscriptions_def sample_open_eq split: if_splits)
  show ?thesis
    using destroy_iff_unused [OF sample_open_run sample_name reg] by (simp add: live)
qed

text \<open>
  C29: every interleaving keeps every store a replay of its own log: whatever the order of the
  steps, each state refines the log of the mutations made through any of its handles.
\<close>

theorem states_refine_their_logs:
  assumes "registry_run tr w" and "w_states w s = Some st"
  shows "refines st (log_of s tr)"
  using run_ok [OF assms(1)] assms(2) unfolding world_ok_def states_ok_def by blast

theorem states_refine_their_logs_witness:
  "\<exists>st. w_states sample_open 0 = Some st \<and> refines st []"
proof -
  obtain st where "w_states sample_open 0 = Some st"
    by (simp add: sample_open_eq c_str_def)
  with states_refine_their_logs [OF sample_open_run this] show ?thesis by (simp add: log_of_def)
qed

text \<open>
  C10: subscriptions acknowledge every change exactly once. In any interleaving, also with
  mutations between the snapshot of a poll and its end, the changes a subscription's
  successful polls have shown its host are exactly the changes of the store's log from the
  revision it subscribed at up to its cursor, in order, none lost and none repeated.
\<close>

theorem polls_acknowledge_exactly_once:
  assumes "registry_run tr w" and "w_subscriptions w b = Some sub" and "L_subscribe b s a \<in> set tr"
  shows "sb_state sub = s \<and> unat a \<le> unat (sb_revision sub) \<and>
    unat (sb_revision sub) \<le> length (log_of s tr) \<and>
    seen_by b tr = take (unat (sb_revision sub) - unat a) (drop (unat a) (log_changes (log_of s tr)))"
proof -
  have "sub_ok tr b sub"
    using run_ok [OF assms(1)] assms(2) unfolding world_ok_def subs_ok_def by blast
  with assms(3) show ?thesis
    unfolding sub_ok_def Let_def log_slice_def by (metis drop_take)
qed

definition sample_subscribed :: registry_world where
  "sample_subscribed = snd (esdb_store_subscribe (\<lambda>_. None) 0 True (Some 1) sample_open)"

lemma sample_subscribe_run: "registry_run ([L_silent] @ [L_subscribe 2 0 0]) sample_subscribed"
proof (rule run_step [OF sample_open_run])
  have "esdb_store_subscribe (\<lambda>_. None) 0 True (Some 1) sample_open = (Done 2, sample_subscribed)"
    unfolding sample_subscribed_def
    by (simp add: esdb_store_subscribe_def sample_open_eq handle_state_def new_memory_state_def Let_def)
  then show "registry_step sample_open (L_subscribe 2 0 0) sample_subscribed"
    by (rule step_subscribe [OF sample_open_handle])
qed

theorem polls_acknowledge_exactly_once_witness:
  "\<exists>sub. w_subscriptions sample_subscribed 2 = Some sub \<and> sb_state sub = 0"
proof -
  obtain sub where sub: "w_subscriptions sample_subscribed 2 = Some sub"
    by (simp add: sample_subscribed_def esdb_store_subscribe_def sample_open_eq handle_state_def
        new_memory_state_def Let_def)
  with polls_acknowledge_exactly_once [OF sample_subscribe_run sub, of 0 0] show ?thesis by simp
qed

end
