(* ===== verification/Sqlite_Api.thy ===== *)
theory Sqlite_Api
  imports Memory_Store "HOL-Library.Char_ord"
begin

text \<open>
  The SQLite interface as the code uses it, and the code's own layer over it (the statement
  guard, \<open>exec_sql\<close>, \<open>query_u64\<close>, \<open>query_i64\<close> and \<open>fail\<close> of src/esdb_runtime.cpp). SQLite is not
  part of the repository's program: it is the argument \<open>E\<close> of every definition, a record of
  the functions of sqlite3.h the code calls, over an unknown type of database handles. What
  they are relied on to do is stated in \<open>Sqlite_Contract\<close>.
\<close>

section \<open>The engine\<close>

text \<open>
  The five storage classes; a 64-bit real is its bits. A row is the list of its columns.
\<close>

datatype sql_value = Sql_Null | Sql_Int int | Sql_Real u64 | Sql_Text "byte list" | Sql_Blob "byte list"

type_synonym sql_row = "sql_value list"

text \<open>
  A prepared statement is its text, its parameters (unbound ones are NULL) and, once stepped,
  the row it stands on followed by the rows to come; a write with a RETURNING clause has
  collected its rows in its first step, and no other statement runs between the steps of a
  query. A call that fails answers a code whose class is an error: none of these calls answers
  an OK-class code other than the documented success codes. \<open>sq_step\<close> gets the rows still pending (\<open>None\<close> on the first step) and answers the
  result code and the rows from the new current one on. Finalizing a statement has no effect
  of its own on the data.
\<close>

record 'd sqlite =
  sq_errstr :: "int \<Rightarrow> string"
  sq_diagnosis :: "'d \<Rightarrow> sqlite_diagnosis"
  sq_autocommit :: "'d \<Rightarrow> bool"
  sq_readonly :: "'d \<Rightarrow> int"
  sq_exec :: "string \<Rightarrow> 'd \<Rightarrow> int \<times> string option \<times> 'd"
  sq_prepare :: "string \<Rightarrow> 'd \<Rightarrow> int \<times> 'd"
  sq_bind :: "string \<Rightarrow> nat \<Rightarrow> sql_value \<Rightarrow> 'd \<Rightarrow> int \<times> 'd"
  sq_step :: "string \<Rightarrow> (nat \<Rightarrow> sql_value) \<Rightarrow> sql_row list option \<Rightarrow> 'd \<Rightarrow> int \<times> sql_row list \<times> 'd"
  sq_int_of :: "sql_value \<Rightarrow> int"
  sq_text_of :: "sql_value \<Rightarrow> byte list option"

section \<open>The connection\<close>

text \<open>
  \<open>esdb_database\<close>. The savepoint array and its depth are the list of the names in use, the
  outermost first; a transaction object is a number. Mutexes are not fields: an operation runs
  its locked region as one step.
\<close>

record 'd connection =
  cn_db :: 'd
  cn_transaction_active :: bool
  cn_active_transaction :: "nat option"
  cn_savepoints :: "byte list list"
  cn_schema_ready :: bool
  cn_metrics :: db_metrics

type_synonym ('d, 'a) action = "'d connection \<Rightarrow> 'a outcome \<times> 'd connection"

definition give :: "'a \<Rightarrow> 's \<Rightarrow> 'a outcome \<times> 's" where
  "give x cn = (Done x, cn)"

text \<open>\<open>if (status != ESDB_OK) return status;\<close>\<close>

definition chain ::
  "('s \<Rightarrow> 'a outcome \<times> 's) \<Rightarrow> ('a \<Rightarrow> 's \<Rightarrow> 'b outcome \<times> 's) \<Rightarrow> 's \<Rightarrow> 'b outcome \<times> 's" where
  "chain m f cn =
     (case m cn of
        (Done x, cn') \<Rightarrow> f x cn'
      | (Failed status e, cn') \<Rightarrow> (Failed status e, cn'))"

text \<open>\<open>if (status != ESDB_OK) { cleanup; return status; }\<close>\<close>

definition guarded :: "('s \<Rightarrow> 's) \<Rightarrow> ('s \<Rightarrow> 'a outcome \<times> 's) \<Rightarrow> 's \<Rightarrow> 'a outcome \<times> 's" where
  "guarded cleanup m cn =
     (case m cn of
        (Done x, cn') \<Rightarrow> (Done x, cn')
      | (Failed status e, cn') \<Rightarrow> (Failed status e, cleanup cn'))"

definition metrics_only :: "(db_metrics \<Rightarrow> db_metrics) \<Rightarrow> 'd connection \<Rightarrow> 'd connection" where
  "metrics_only f cn = cn\<lparr>cn_metrics := f (cn_metrics cn)\<rparr>"

text \<open>\<open>fail\<close> with the connection's own handle.\<close>

definition cn_fail ::
  "'d sqlite \<Rightarrow> esdb_status \<Rightarrow> esdb_phase \<Rightarrow> int \<Rightarrow> string option \<Rightarrow> ('d, 'a) action" where
  "cn_fail E status phase sqlite_code message cn =
     (let recorded = set_error (sq_errstr E) (Some (sq_diagnosis E (cn_db cn))) status phase
            sqlite_code message;
          (r, m) = fail_with recorded (cn_metrics cn)
      in (r, cn\<lparr>cn_metrics := m\<rparr>))"

text \<open>A public call with a null database: nothing is recorded, the error record is filled.\<close>

definition null_database ::
  "'d sqlite \<Rightarrow> esdb_phase \<Rightarrow> int \<Rightarrow> string \<Rightarrow> 'a outcome" where
  "null_database E phase sqlite_code message =
     Failed ESDB_ERR_INVALID_ARGUMENT
       (set_error (sq_errstr E) None ESDB_ERR_INVALID_ARGUMENT phase sqlite_code (Some message))"

definition on_database ::
  "'a outcome \<Rightarrow> ('d, 'a) action \<Rightarrow> 'd connection option \<Rightarrow> 'a outcome \<times> 'd connection option" where
  "on_database null_result action database =
     (case database of
        None \<Rightarrow> (null_result, None)
      | Some cn \<Rightarrow> (case action cn of (r, cn') \<Rightarrow> (r, Some cn')))"

section \<open>Statements\<close>

record statement =
  st_sql :: string
  st_params :: "nat \<Rightarrow> sql_value"
  st_rows :: "sql_row list option"

definition prepare :: "'d sqlite \<Rightarrow> string \<Rightarrow> esdb_phase \<Rightarrow> ('d, statement) action" where
  "prepare E sql phase cn =
     (case sq_prepare E sql (cn_db cn) of
        (rc, db) \<Rightarrow>
          let cn = cn\<lparr>cn_db := db\<rparr> in
          if rc \<noteq> SQLITE_OK
          then cn_fail E (map_sqlite_status rc) phase rc None cn
          else (Done \<lparr>st_sql = sql, st_params = (\<lambda>_. Sql_Null), st_rows = None\<rparr>, cn))"

definition step :: "'d sqlite \<Rightarrow> esdb_phase \<Rightarrow> statement \<Rightarrow> ('d, int \<times> statement) action" where
  "step E phase st cn =
     (case sq_step E (st_sql st) (st_params st) (st_rows st) (cn_db cn) of
        (rc, rows, db) \<Rightarrow>
          let cn = cn\<lparr>cn_db := db\<rparr> in
          if rc = SQLITE_ROW \<or> rc = SQLITE_DONE
          then (Done (rc, st\<lparr>st_rows := Some rows\<rparr>), cn)
          else cn_fail E (map_sqlite_status rc) phase rc None cn)"

definition bind_value ::
  "'d sqlite \<Rightarrow> nat \<Rightarrow> sql_value \<Rightarrow> esdb_phase \<Rightarrow> statement \<Rightarrow> ('d, statement) action" where
  "bind_value E index v phase st cn =
     (case sq_bind E (st_sql st) index v (cn_db cn) of
        (rc, db) \<Rightarrow>
          let cn = cn\<lparr>cn_db := db\<rparr> in
          if rc \<noteq> SQLITE_OK
          then cn_fail E (map_sqlite_status rc) phase rc None cn
          else (Done (st\<lparr>st_params := (st_params st)(index := v)\<rparr>), cn))"

text \<open>A C string is bound with size -1: up to its terminator.\<close>

definition bind_text ::
  "'d sqlite \<Rightarrow> nat \<Rightarrow> byte list \<Rightarrow> esdb_phase \<Rightarrow> statement \<Rightarrow> ('d, statement) action" where
  "bind_text E index s = bind_value E index (Sql_Text (takeWhile (\<lambda>b. b \<noteq> 0) s))"

definition bind_blob64 ::
  "'d sqlite \<Rightarrow> nat \<Rightarrow> byte list \<Rightarrow> esdb_phase \<Rightarrow> statement \<Rightarrow> ('d, statement) action" where
  "bind_blob64 E index data = bind_value E index (Sql_Blob data)"

definition bind_zeroblob ::
  "'d sqlite \<Rightarrow> nat \<Rightarrow> nat \<Rightarrow> esdb_phase \<Rightarrow> statement \<Rightarrow> ('d, statement) action" where
  "bind_zeroblob E index n = bind_value E index (Sql_Blob (replicate n 0))"

definition bind_int64 ::
  "'d sqlite \<Rightarrow> nat \<Rightarrow> int \<Rightarrow> esdb_phase \<Rightarrow> statement \<Rightarrow> ('d, statement) action" where
  "bind_int64 E index i = bind_value E index (Sql_Int i)"

definition bind_int ::
  "'d sqlite \<Rightarrow> nat \<Rightarrow> int \<Rightarrow> esdb_phase \<Rightarrow> statement \<Rightarrow> ('d, statement) action" where
  "bind_int E index i = bind_value E index (Sql_Int i)"

text \<open>Columns of the current row: integers and texts read as they are, the rest converts.\<close>

definition column :: "statement \<Rightarrow> nat \<Rightarrow> sql_value" where
  "column st i =
     (case st_rows st of
        Some (row # _) \<Rightarrow> if i < length row then row ! i else Sql_Null
      | _ \<Rightarrow> Sql_Null)"

definition column_int64 :: "'d sqlite \<Rightarrow> statement \<Rightarrow> nat \<Rightarrow> int" where
  "column_int64 E st i = (case column st i of Sql_Int n \<Rightarrow> n | v \<Rightarrow> sq_int_of E v)"

text \<open>\<open>sqlite3_column_int\<close> keeps the low 32 bits.\<close>

definition column_int :: "'d sqlite \<Rightarrow> statement \<Rightarrow> nat \<Rightarrow> int" where
  "column_int E st i = (let n = column_int64 E st i in (n + 2 ^ 31) mod 2 ^ 32 - 2 ^ 31)"

definition column_text :: "'d sqlite \<Rightarrow> statement \<Rightarrow> nat \<Rightarrow> byte list option" where
  "column_text E st i = (case column st i of Sql_Text t \<Rightarrow> Some t | v \<Rightarrow> sq_text_of E v)"

definition is_text :: "sql_value \<Rightarrow> bool" where
  "is_text v = (case v of Sql_Text _ \<Rightarrow> True | _ \<Rightarrow> False)"

definition is_int :: "sql_value \<Rightarrow> bool" where
  "is_int v = (case v of Sql_Int _ \<Rightarrow> True | _ \<Rightarrow> False)"

section \<open>SQL helpers\<close>

definition exec_sql :: "'d sqlite \<Rightarrow> string \<Rightarrow> esdb_phase \<Rightarrow> ('d, unit) action" where
  "exec_sql E sql phase cn =
     (case sq_exec E sql (cn_db cn) of
        (rc, message, db) \<Rightarrow>
          let cn = cn\<lparr>cn_db := db\<rparr> in
          if rc \<noteq> SQLITE_OK
          then cn_fail E (map_sqlite_status rc) phase rc message cn
          else (Done (), cn))"

definition query_integer64 :: "'d sqlite \<Rightarrow> string \<Rightarrow> esdb_phase \<Rightarrow> ('d, int) action" where
  "query_integer64 E sql phase =
     chain (prepare E sql phase) (\<lambda>statement.
     chain (step E phase statement) (\<lambda>(rc, statement).
       if rc \<noteq> SQLITE_ROW
       then cn_fail E ESDB_ERR_SQLITE phase SQLITE_ERROR (Some ''scalar query returned no row'')
       else give (column_int64 E statement 0)))"

definition query_u64 :: "'d sqlite \<Rightarrow> string \<Rightarrow> esdb_phase \<Rightarrow> ('d, u64) action" where
  "query_u64 E sql phase =
     chain (query_integer64 E sql phase) (\<lambda>v.
       if v < 0
       then cn_fail E ESDB_ERR_SQLITE phase SQLITE_RANGE
              (Some ''negative value where unsigned scalar was expected'')
       else give (of_int v))"

definition query_i64 :: "'d sqlite \<Rightarrow> string \<Rightarrow> esdb_phase \<Rightarrow> ('d, int) action" where
  "query_i64 E sql phase = query_integer64 E sql phase"

section \<open>Facts the components share\<close>

named_theorems action_defs

declare give_def [action_defs] chain_def [action_defs] guarded_def [action_defs]

lemma chain_Done:
  "chain m f cn = (Done y, cn') \<longleftrightarrow> (\<exists>x cn1. m cn = (Done x, cn1) \<and> f x cn1 = (Done y, cn'))"
  by (auto simp: chain_def split: prod.splits outcome.splits)

lemma chain_Failed:
  "chain m f cn = (Failed s e, cn') \<longleftrightarrow> m cn = (Failed s e, cn') \<or>
     (\<exists>x cn1. m cn = (Done x, cn1) \<and> f x cn1 = (Failed s e, cn'))"
  by (auto simp: chain_def split: prod.splits outcome.splits)

lemma guarded_Done [simp]: "guarded c m cn = (Done y, cn') \<longleftrightarrow> m cn = (Done y, cn')"
  by (auto simp: guarded_def split: prod.splits outcome.splits)

lemma guarded_Failed:
  "guarded c m cn = (Failed s e, cn') \<longleftrightarrow> (\<exists>cn1. m cn = (Failed s e, cn1) \<and> cn' = c cn1)"
  by (auto simp: guarded_def split: prod.splits outcome.splits)

lemma give_Done [simp]: "give x cn = (Done y, cn') \<longleftrightarrow> y = x \<and> cn' = cn"
  and give_Failed [simp]: "give x cn \<noteq> (Failed s e, cn')"
  by (auto simp: give_def)

lemma cn_fail_Done [simp]: "cn_fail E s ph c m cn \<noteq> (Done y, cn')"
  by (auto simp: cn_fail_def fail_with_def Let_def)

lemma cn_fail_Failed:
  "cn_fail E s ph c m cn = (Failed s' e, cn') \<longleftrightarrow> s' = s \<and>
     e = set_error (sq_errstr E) (Some (sq_diagnosis E (cn_db cn))) s ph c m \<and>
     cn' = cn\<lparr>cn_metrics := snd (fail_with e (cn_metrics cn) :: unit outcome \<times> db_metrics)\<rparr>"
  by (auto simp: cn_fail_def fail_with_def Let_def)

lemma cn_fail_frame [simp]:
  "cn_db (snd (cn_fail E s ph c m cn)) = cn_db cn"
  "cn_transaction_active (snd (cn_fail E s ph c m cn)) = cn_transaction_active cn"
  "cn_savepoints (snd (cn_fail E s ph c m cn)) = cn_savepoints cn"
  "cn_schema_ready (snd (cn_fail E s ph c m cn)) = cn_schema_ready cn"
  by (auto simp: cn_fail_def fail_with_def Let_def)

end
