(* ===== verification/Sqlite_Transactions.thy ===== *)
theory Sqlite_Transactions
  imports Sqlite_Api
begin

text \<open>
  What the code relies on SQLite for in its transactions, as a locale over an unknown type of
  database contents: a connection sees the contents now and, for every open frame (a BEGIN or
  a savepoint), the contents when the frame was opened. One connection is described: what other
  connections commit is not seen between two calls of this one.
\<close>

section \<open>Views, frames and failures\<close>

datatype frame = F_Begin | F_Savepoint string

record 'c tx_view =
  v_now :: 'c
  v_frames :: "(frame \<times> 'c) list"

text \<open>Innermost frame first. What other connections see is the state under the outermost one.\<close>

definition committed :: "'c tx_view \<Rightarrow> 'c" where
  "committed v = (if v_frames v = [] then v_now v else snd (last (v_frames v)))"

text \<open>
  A failing call may leave everything as it was or, in a transaction, have rolled all of it
  back (SQLITE_FULL, SQLITE_IOERR, SQLITE_NOMEM, SQLITE_BUSY and SQLITE_INTERRUPT may). A
  failure in the middle of a sequence of statements leaves the frames or rolls all back.
\<close>

definition rolled_back :: "'c tx_view \<Rightarrow> 'c tx_view \<Rightarrow> bool" where
  "rolled_back v v' \<longleftrightarrow> v_frames v \<noteq> [] \<and> v' = \<lparr>v_now = committed v, v_frames = []\<rparr>"

definition quiet_failure :: "'c tx_view \<Rightarrow> 'c tx_view \<Rightarrow> bool" where
  "quiet_failure v v' \<longleftrightarrow> v' = v \<or> rolled_back v v'"

definition frame_failure :: "'c tx_view \<Rightarrow> 'c tx_view \<Rightarrow> bool" where
  "frame_failure v v' \<longleftrightarrow> v_frames v \<noteq> [] \<longrightarrow> v_frames v' = v_frames v \<or> rolled_back v v'"

lemma quiet_failure_closed [simp]: "v_frames v = [] \<Longrightarrow> quiet_failure v v' \<longleftrightarrow> v' = v"
  by (simp add: quiet_failure_def rolled_back_def)

lemma quiet_frame_failure: "quiet_failure v v' \<Longrightarrow> frame_failure v v'"
  by (auto simp: quiet_failure_def frame_failure_def)

section \<open>The texts\<close>

datatype begin_mode = Deferred | Immediate | Exclusive

fun begin_sql :: "begin_mode \<Rightarrow> string" where
  "begin_sql Deferred = ''BEGIN DEFERRED;''"
| "begin_sql Immediate = ''BEGIN IMMEDIATE;''"
| "begin_sql Exclusive = ''BEGIN EXCLUSIVE;''"

definition savepoint_sql :: "string \<Rightarrow> string" where
  "savepoint_sql name = ''SAVEPOINT '' @ name @ '';''"

definition release_sql :: "string \<Rightarrow> string" where
  "release_sql name = ''RELEASE '' @ name @ '';''"

definition undo_sql :: "string \<Rightarrow> string" where
  "undo_sql name = ''ROLLBACK TO '' @ name @ ''; RELEASE '' @ name @ '';''"

definition plain_char :: "char \<Rightarrow> bool" where
  "plain_char c \<longleftrightarrow> (CHR ''A'' \<le> c \<and> c \<le> CHR ''Z'') \<or> (CHR ''a'' \<le> c \<and> c \<le> CHR ''z'') \<or>
     (CHR ''0'' \<le> c \<and> c \<le> CHR ''9'') \<or> c = CHR ''_''"

definition plain_name :: "string \<Rightarrow> bool" where
  "plain_name name \<longleftrightarrow> name \<noteq> [] \<and> list_all plain_char name"

definition SQL_COMMIT :: string where "SQL_COMMIT = ''COMMIT;''"
definition SQL_ROLLBACK :: string where "SQL_ROLLBACK = ''ROLLBACK;''"

section \<open>The contract\<close>

text \<open>
  A failing call answers an error code, and not SQLITE_NOTFOUND, which the interface the code
  uses keeps to itself.
\<close>

definition error_code :: "int \<Rightarrow> bool" where
  "error_code rc \<longleftrightarrow> map_sqlite_status rc \<noteq> ESDB_OK \<and> map_sqlite_status rc \<noteq> ESDB_ERR_NOT_FOUND"

definition no_savepoint :: "'c tx_view \<Rightarrow> bool" where
  "no_savepoint v \<longleftrightarrow> (\<forall>f \<in> set (v_frames v). fst f = F_Begin)"

text \<open>
  A savepoint outside a transaction opens one, which its release commits; RELEASE and ROLLBACK
  TO act on the innermost frame when it carries the name, and fail when no savepoint is open.
\<close>

locale sql_transactions =
  fixes E :: "'d sqlite" and view :: "'d \<Rightarrow> 'c tx_view"
  assumes autocommit: "sq_autocommit E d \<longleftrightarrow> v_frames (view d) = []"
    and prepare_code: "sq_prepare E sql d = (rc, d') \<Longrightarrow> rc = SQLITE_OK \<or> error_code rc"
    and bind_code: "sq_bind E sql i v d = (rc, d') \<Longrightarrow> rc = SQLITE_OK \<or> error_code rc"
    and step_code: "sq_step E sql p pending d = (rc, rows, d') \<Longrightarrow>
      rc = SQLITE_ROW \<or> rc = SQLITE_DONE \<or> error_code rc"
    and exec_code: "sq_exec E sql d = (rc, m, d') \<Longrightarrow> rc = SQLITE_OK \<or> error_code rc"
    and prepare_view: "sq_prepare E sql d = (rc, d') \<Longrightarrow> view d' = view d"
    and bind_view: "sq_bind E sql i v d = (rc, d') \<Longrightarrow> view d' = view d"
    and begin_law: "sq_exec E (begin_sql mode) d = (rc, m, d') \<Longrightarrow>
      if rc = SQLITE_OK
      then v_frames (view d) = [] \<and> view d' = (view d)\<lparr>v_frames := [(F_Begin, v_now (view d))]\<rparr>
      else quiet_failure (view d) (view d')"
    and commit_law: "sq_exec E SQL_COMMIT d = (rc, m, d') \<Longrightarrow>
      if rc = SQLITE_OK then v_frames (view d) \<noteq> [] \<and> view d' = (view d)\<lparr>v_frames := []\<rparr>
      else quiet_failure (view d) (view d')"
    and rollback_law: "sq_exec E SQL_ROLLBACK d = (rc, m, d') \<Longrightarrow>
      if rc = SQLITE_OK then rolled_back (view d) (view d') else quiet_failure (view d) (view d')"
    and savepoint_law: "sq_exec E (savepoint_sql name) d = (rc, m, d') \<Longrightarrow> plain_name name \<Longrightarrow>
      if rc = SQLITE_OK
      then view d' = (view d)\<lparr>v_frames := (F_Savepoint name, v_now (view d)) # v_frames (view d)\<rparr>
      else quiet_failure (view d) (view d')"
    and release_law: "sq_exec E (release_sql name) d = (rc, m, d') \<Longrightarrow> plain_name name \<Longrightarrow>
      v_frames (view d) = (F_Savepoint name, c) # fs \<Longrightarrow>
      if rc = SQLITE_OK then view d' = (view d)\<lparr>v_frames := fs\<rparr> else quiet_failure (view d) (view d')"
    and release_missing_law: "sq_exec E (release_sql name) d = (rc, m, d') \<Longrightarrow> plain_name name \<Longrightarrow>
      no_savepoint (view d) \<Longrightarrow> rc \<noteq> SQLITE_OK \<and> quiet_failure (view d) (view d')"
    and undo_law: "sq_exec E (undo_sql name) d = (rc, m, d') \<Longrightarrow> plain_name name \<Longrightarrow>
      v_frames (view d) = (F_Savepoint name, c) # fs \<Longrightarrow>
      if rc = SQLITE_OK then view d' = \<lparr>v_now = c, v_frames = fs\<rparr> else frame_failure (view d) (view d')"
    and undo_missing_law: "sq_exec E (undo_sql name) d = (rc, m, d') \<Longrightarrow> plain_name name \<Longrightarrow>
      no_savepoint (view d) \<Longrightarrow> rc \<noteq> SQLITE_OK \<and> quiet_failure (view d) (view d')"

end
