(* ===== verification/Object_Store.thy ===== *)
theory Object_Store
  imports Sqlite_Transactions
begin

text \<open>
  The persistent object store (src/esdb_object_store.cpp): the four tables behind it, the
  mutation scope every write runs in, and its operations, in the order of the source. SQL
  texts are those of the source, byte for byte; what SQLite makes of them is in
  \<open>Sqlite_Contract\<close>. The clock is an argument: \<open>now i\<close> is the \<open>i\<close>-th reading of a call.
\<close>

abbreviation "ESDB_OBJECT_CHANGE_PUT \<equiv> (1 :: int)"
abbreviation "ESDB_OBJECT_CHANGE_DELETE \<equiv> (2 :: int)"
abbreviation "ESDB_OBJECT_CHANGE_LIMIT_MAX \<equiv> (10000 :: u32)"
abbreviation "ESDB_OBJECT_SCAN_LIMIT_MAX \<equiv> (10000 :: u32)"

record object_change =
  oc_revision :: u64
  oc_operation :: int
  oc_value_type :: u32
  oc_store :: cpp_string
  oc_key :: cpp_string

record object_record =
  or_key :: cpp_string
  or_value :: esdb_value
  or_revision :: u64

definition valid_raw_type :: "int \<Rightarrow> bool" where
  "valid_raw_type type = (0 \<le> type \<and> type \<le> 8)"

section \<open>Revision texts\<close>

text \<open>The loop over a C string: it stops at the terminator, explicit or at the end.\<close>

fun parse_digits :: "u64 \<Rightarrow> byte list \<Rightarrow> u64 option" where
  "parse_digits v [] = Some v"
| "parse_digits v (p # ps) =
     (if p = 0 then Some v
      else if p < 48 \<or> 57 < p then None
      else let digit = ucast (p - 48) in
        if (ESDB_REVISION_MAX - digit) div 10 < v then None
        else parse_digits (v * 10 + digit) ps)"

definition parse_revision_text :: "byte list option \<Rightarrow> u64 option" where
  "parse_revision_text text =
     (case text of
        None \<Rightarrow> None
      | Some s \<Rightarrow>
          if s = [] \<or> hd s = 0 then None
          else if hd s = 48 \<and> tl s \<noteq> [] \<and> hd (tl s) \<noteq> 0 then None
          else parse_digits 0 s)"

section \<open>Metadata\<close>

abbreviation "OBJ \<equiv> ESDB_PHASE_OBJECT_STORE"
abbreviation "SUB \<equiv> ESDB_PHASE_SUBSCRIPTION"

definition SQL_READ_REVISION :: string where
  "SQL_READ_REVISION =
     ''SELECT m.value, COALESCE(('' @
     '' SELECT seq FROM sqlite_sequence WHERE name='__esdb_object_changes'),0) '' @
     ''FROM __esdb_meta m WHERE m.key='store_revision';''"

definition read_store_revision_metadata :: "'d sqlite \<Rightarrow> ('d, u64) action" where
  "read_store_revision_metadata E =
     chain (prepare E SQL_READ_REVISION OBJ) (\<lambda>st.
     chain (step E OBJ st) (\<lambda>(rc, st).
       if rc \<noteq> SQLITE_ROW
       then cn_fail E ESDB_ERR_CORRUPT OBJ SQLITE_CORRUPT (Some ''missing ESDB Store revision metadata'')
       else if \<not> is_text (column st 0) \<or> \<not> is_int (column st 1)
       then cn_fail E ESDB_ERR_CORRUPT OBJ SQLITE_CORRUPT
              (Some ''ESDB Store revision metadata has an invalid storage type'')
       else
        let sequence = column_int64 E st 1 in
        case parse_revision_text (column_text E st 0) of
          None \<Rightarrow> cn_fail E ESDB_ERR_CORRUPT OBJ SQLITE_CORRUPT
                    (Some ''ESDB Store revision metadata is inconsistent'')
        | Some revision \<Rightarrow>
            if sequence < 0 \<or> revision \<noteq> of_int sequence
            then cn_fail E ESDB_ERR_CORRUPT OBJ SQLITE_CORRUPT
                   (Some ''ESDB Store revision metadata is inconsistent'')
            else give revision))"

definition SQL_COUNT_TABLES :: string where
  "SQL_COUNT_TABLES =
     ''SELECT COUNT(*) FROM sqlite_master '' @
     ''WHERE type='table' AND name IN('__esdb_meta','__esdb_stores','__esdb_records','__esdb_object_changes');''"

definition inspect_store_table_count :: "'d sqlite \<Rightarrow> ('d, int) action" where
  "inspect_store_table_count E =
     chain (prepare E SQL_COUNT_TABLES OBJ) (\<lambda>st.
     chain (step E OBJ st) (\<lambda>(rc, st).
       if rc \<noteq> SQLITE_ROW
       then cn_fail E ESDB_ERR_SQLITE OBJ SQLITE_ERROR (Some ''failed to inspect ESDB Store schema'')
       else
        let count = column_int E st 0 in
        if count < 0 \<or> 4 < count
        then cn_fail E ESDB_ERR_CORRUPT OBJ SQLITE_CORRUPT
               (Some ''ESDB Store schema table count is invalid'')
        else give count))"

definition require_store_writable :: "'d sqlite \<Rightarrow> ('d, unit) action" where
  "require_store_writable E cn =
     (let read_only = sq_readonly E (cn_db cn) in
      if read_only < 0
      then cn_fail E ESDB_ERR_INTERNAL OBJ SQLITE_ERROR (Some ''SQLite main database was not found'') cn
      else if read_only \<noteq> 0
      then cn_fail E ESDB_ERR_IO OBJ SQLITE_READONLY
             (Some ''ESDB Store mutation requires a writable database'') cn
      else give () cn)"

definition invalid_revision :: "'d sqlite \<Rightarrow> esdb_phase \<Rightarrow> string \<Rightarrow> ('d, 'a) action" where
  "invalid_revision E phase message =
     cn_fail E ESDB_ERR_INVALID_ARGUMENT phase SQLITE_RANGE (Some message)"

section \<open>The mutation scope\<close>

text \<open>
  \<open>StoreMutationScope\<close>: a scope that is open says whether it owns the transaction; the closed
  one is left out, since every function below is only called on an open scope and closes it.
\<close>

definition sync_internal_transaction_state :: "'d sqlite \<Rightarrow> 'd connection \<Rightarrow> 'd connection" where
  "sync_internal_transaction_state E cn =
     (let active = \<not> sq_autocommit E (cn_db cn)
      in cn\<lparr>cn_transaction_active := active,
            cn_savepoints := (if active then cn_savepoints cn else [])\<rparr>)"

definition SQL_BEGIN_IMMEDIATE :: string where "SQL_BEGIN_IMMEDIATE = ''BEGIN IMMEDIATE;''"
definition SQL_SAVEPOINT_MUTATION :: string where
  "SQL_SAVEPOINT_MUTATION = ''SAVEPOINT __esdb_mutation;''"
definition SQL_RELEASE_MUTATION :: string where
  "SQL_RELEASE_MUTATION = ''RELEASE __esdb_mutation;''"
definition SQL_UNDO_MUTATION :: string where
  "SQL_UNDO_MUTATION = ''ROLLBACK TO __esdb_mutation; RELEASE __esdb_mutation;''"

definition begin_store_mutation :: "'d sqlite \<Rightarrow> ('d, bool) action" where
  "begin_store_mutation E cn =
     (let owns = sq_autocommit E (cn_db cn);
          sql = (if owns then SQL_BEGIN_IMMEDIATE else SQL_SAVEPOINT_MUTATION)
      in chain (exec_sql E sql OBJ)
           (\<lambda>_ cn. give owns (if owns then sync_internal_transaction_state E cn else cn)) cn)"

definition rollback_store_mutation :: "'d sqlite \<Rightarrow> bool \<Rightarrow> 'd connection \<Rightarrow> 'd connection" where
  "rollback_store_mutation E owns cn =
     (if owns
      then
       (case exec_sql E SQL_ROLLBACK OBJ cn of
          (r, cn') \<Rightarrow>
            sync_internal_transaction_state E
              (if status_of r = ESDB_OK then metrics_only count_rollback cn' else cn'))
      else snd (exec_sql E SQL_UNDO_MUTATION OBJ cn))"

definition commit_store_mutation :: "'d sqlite \<Rightarrow> bool \<Rightarrow> ('d, unit) action" where
  "commit_store_mutation E owns =
     chain (guarded (rollback_store_mutation E owns)
              (exec_sql E (if owns then SQL_COMMIT else SQL_RELEASE_MUTATION) OBJ))
       (\<lambda>_ cn. give () (if owns
          then sync_internal_transaction_state E (metrics_only count_commit cn) else cn))"

section \<open>The steps of a mutation\<close>

definition SQL_SET_REVISION :: string where
  "SQL_SET_REVISION =
     ''INSERT INTO __esdb_meta(key,value) VALUES('store_revision',CAST(?1 AS TEXT)) '' @
     ''ON CONFLICT(key) DO UPDATE SET value=excluded.value;''"

definition set_store_revision :: "'d sqlite \<Rightarrow> int \<Rightarrow> ('d, unit) action" where
  "set_store_revision E revision =
     chain (prepare E SQL_SET_REVISION OBJ) (\<lambda>st.
     chain (bind_int64 E 1 revision OBJ st) (\<lambda>st.
     chain (step E OBJ st) (\<lambda>(rc, st).
       if rc \<noteq> SQLITE_DONE
       then cn_fail E ESDB_ERR_SQLITE OBJ SQLITE_ERROR (Some ''store revision update did not finish'')
       else give ())))"

definition SQL_INSERT_STORE :: string where
  "SQL_INSERT_STORE =
     ''INSERT INTO __esdb_stores(name, created_at_ms) VALUES(?1, ?2) '' @
     ''ON CONFLICT(name) DO NOTHING;''"

definition SQL_SELECT_STORE :: string where
  "SQL_SELECT_STORE = ''SELECT id FROM __esdb_stores WHERE name=?1;''"

definition register_store :: "'d sqlite \<Rightarrow> int \<Rightarrow> byte list \<Rightarrow> ('d, unit) action" where
  "register_store E now name =
     chain (prepare E SQL_INSERT_STORE OBJ) (\<lambda>st.
     chain (bind_text E 1 name OBJ st) (\<lambda>st.
     chain (bind_int64 E 2 now OBJ st) (\<lambda>st.
     chain (step E OBJ st) (\<lambda>(rc, st).
       if rc \<noteq> SQLITE_DONE
       then cn_fail E ESDB_ERR_SQLITE OBJ SQLITE_ERROR (Some ''store registration did not finish'')
       else give ()))))"

text \<open>A name that is not registered is reported by the status alone, with no error recorded.\<close>

definition find_store :: "'d sqlite \<Rightarrow> byte list \<Rightarrow> ('d, int) action" where
  "find_store E name =
     chain (prepare E SQL_SELECT_STORE OBJ) (\<lambda>st.
     chain (bind_text E 1 name OBJ st) (\<lambda>st.
     chain (step E OBJ st) (\<lambda>(rc, st).
       if rc = SQLITE_DONE then (\<lambda>cn. (Failed ESDB_ERR_NOT_FOUND clear_error, cn))
       else give (column_int64 E st 0))))"

definition get_store_id :: "'d sqlite \<Rightarrow> int \<Rightarrow> byte list \<Rightarrow> bool \<Rightarrow> ('d, int) action" where
  "get_store_id E now name create =
     chain (if create then register_store E now name else give ()) (\<lambda>_. find_store E name)"

definition SQL_INSERT_CHANGE :: string where
  "SQL_INSERT_CHANGE =
     ''INSERT INTO __esdb_object_changes('' @
     ''store_id,key,operation,value_type,changed_at_ms'' @
     '') VALUES(?1,?2,?3,?4,?5) RETURNING revision;''"

definition insert_change ::
  "'d sqlite \<Rightarrow> int \<Rightarrow> byte list \<Rightarrow> int \<Rightarrow> u32 \<Rightarrow> int \<Rightarrow> ('d, int) action" where
  "insert_change E store_id key operation value_type changed_at_ms =
     chain (prepare E SQL_INSERT_CHANGE OBJ) (\<lambda>st.
     chain (bind_int64 E 1 store_id OBJ st) (\<lambda>st.
     chain (bind_text E 2 key OBJ st) (\<lambda>st.
     chain (bind_int E 3 operation OBJ st) (\<lambda>st.
     chain (bind_int E 4 (sint value_type) OBJ st) (\<lambda>st.
     chain (bind_int64 E 5 changed_at_ms OBJ st) (\<lambda>st.
     chain (step E OBJ st) (\<lambda>(rc, st).
       if rc \<noteq> SQLITE_ROW
       then cn_fail E ESDB_ERR_SQLITE OBJ SQLITE_ERROR (Some ''change insert returned no revision'')
       else
        let revision = column_int64 E st 0 in
        if revision \<le> 0
        then cn_fail E ESDB_ERR_CORRUPT OBJ SQLITE_CORRUPT
               (Some ''change insert returned an invalid revision'')
        else
         chain (step E OBJ st) (\<lambda>(rc, st).
           if rc \<noteq> SQLITE_DONE
           then cn_fail E ESDB_ERR_SQLITE OBJ SQLITE_ERROR (Some ''change insert did not finish'')
           else give revision))))))))"

text \<open>
  A stored value read back: the type column through \<open>sqlite3_column_int\<close>, the payload column
  only as a BLOB, the payload checked against the type (\<open>payload_valid\<close>), then copied.
\<close>

definition clone_sql_value ::
  "'d sqlite \<Rightarrow> value_alloc \<Rightarrow> statement \<Rightarrow> nat \<Rightarrow> nat \<Rightarrow> ('d, esdb_value) action" where
  "clone_sql_value E alloc st type_column payload_column =
     (let raw_type = column_int E st type_column in
      if \<not> valid_raw_type raw_type
      then cn_fail E ESDB_ERR_CORRUPT OBJ SQLITE_CORRUPT
             (Some ''record contains an unknown ESDB value type'')
      else case column st payload_column of
        Sql_Blob blob \<Rightarrow>
          let type = word_of_int raw_type in
          if \<not> payload_valid type blob
          then cn_fail E ESDB_ERR_CORRUPT OBJ SQLITE_CORRUPT
                 (Some ''record payload violates its ESDB value type'')
          else if \<not> va_object alloc
          then cn_fail E ESDB_ERR_OUT_OF_MEMORY OBJ SQLITE_NOMEM (Some ''value allocation failed'')
          else if blob \<noteq> [] \<and> \<not> va_payload alloc
          then cn_fail E ESDB_ERR_OUT_OF_MEMORY OBJ SQLITE_NOMEM (Some ''value payload allocation failed'')
          else give \<lparr>ev_type = type, ev_payload = blob\<rparr>
      | _ \<Rightarrow> cn_fail E ESDB_ERR_CORRUPT OBJ SQLITE_CORRUPT
               (Some ''record payload is not a canonical BLOB''))"

section \<open>The schema\<close>

definition SQL_CREATE_SCHEMA :: string where
  "SQL_CREATE_SCHEMA =
     ''CREATE TABLE __esdb_meta('' @
     '' key TEXT PRIMARY KEY,'' @
     '' value TEXT NOT NULL'' @
     '') WITHOUT ROWID;'' @
     ''CREATE TABLE __esdb_stores('' @
     '' id INTEGER PRIMARY KEY,'' @
     '' name TEXT NOT NULL UNIQUE,'' @
     '' created_at_ms INTEGER NOT NULL'' @
     '');'' @
     ''CREATE TABLE __esdb_records('' @
     '' store_id INTEGER NOT NULL,'' @
     '' key TEXT NOT NULL,'' @
     '' type INTEGER NOT NULL,'' @
     '' value BLOB NOT NULL,'' @
     '' revision INTEGER NOT NULL,'' @
     '' created_at_ms INTEGER NOT NULL,'' @
     '' updated_at_ms INTEGER NOT NULL,'' @
     '' PRIMARY KEY(store_id, key),'' @
     '' FOREIGN KEY(store_id) REFERENCES __esdb_stores(id) ON DELETE CASCADE'' @
     '') WITHOUT ROWID;'' @
     ''CREATE TABLE __esdb_object_changes('' @
     '' revision INTEGER PRIMARY KEY AUTOINCREMENT,'' @
     '' store_id INTEGER NOT NULL,'' @
     '' key TEXT NOT NULL,'' @
     '' operation INTEGER NOT NULL,'' @
     '' value_type INTEGER NOT NULL,'' @
     '' changed_at_ms INTEGER NOT NULL,'' @
     '' FOREIGN KEY(store_id) REFERENCES __esdb_stores(id) ON DELETE CASCADE'' @
     '');'' @
     ''CREATE INDEX __esdb_object_changes_store_revision '' @
     '' ON __esdb_object_changes(store_id, revision);'' @
     ''INSERT INTO __esdb_meta(key, value) '' @
     '' VALUES('store_schema_version','1');'' @
     ''INSERT INTO __esdb_meta(key, value) '' @
     '' VALUES('store_revision','0');''"

definition SQL_SCHEMA_VERSION :: string where
  "SQL_SCHEMA_VERSION =
     ''SELECT value FROM __esdb_meta '' @
     ''WHERE key='store_schema_version';''"

text \<open>The partial schema of an interrupted or foreign initialization.\<close>

definition partial_schema :: "'d sqlite \<Rightarrow> ('d, 'a) action" where
  "partial_schema E =
     cn_fail E ESDB_ERR_CORRUPT OBJ SQLITE_CORRUPT (Some ''ESDB Store schema is only partially present'')"

text \<open>
  The creation inside its own scope, with the second inspection under the write lock. The
  partial-schema failure is recorded after the rollback, the others before it.
\<close>

definition create_schema :: "'d sqlite \<Rightarrow> ('d, unit) action" where
  "create_schema E =
     chain (begin_store_mutation E) (\<lambda>owns.
     chain (guarded (rollback_store_mutation E owns) (inspect_store_table_count E)) (\<lambda>count.
       if count \<noteq> 0 \<and> count \<noteq> 4
       then (\<lambda>cn. partial_schema E (rollback_store_mutation E owns cn))
       else
        chain (guarded (rollback_store_mutation E owns)
          (if count = 0 then exec_sql E SQL_CREATE_SCHEMA OBJ else give ()))
          (\<lambda>_. commit_store_mutation E owns)))"

definition check_schema_version :: "'d sqlite \<Rightarrow> ('d, unit) action" where
  "check_schema_version E =
     chain (prepare E SQL_SCHEMA_VERSION OBJ) (\<lambda>st.
     chain (step E OBJ st) (\<lambda>(rc, st).
       if rc \<noteq> SQLITE_ROW
       then cn_fail E ESDB_ERR_CORRUPT OBJ SQLITE_CORRUPT (Some ''missing ESDB Store schema version'')
       else if \<not> is_text (column st 0)
       then cn_fail E ESDB_ERR_CORRUPT OBJ SQLITE_CORRUPT
              (Some ''ESDB Store schema version has an invalid storage type'')
       else case column_text E st 0 of
         None \<Rightarrow> cn_fail E ESDB_ERR_UNSUPPORTED OBJ SQLITE_MISMATCH
                   (Some ''unsupported ESDB Store schema version'')
       | Some version \<Rightarrow>
           if c_bytes version \<noteq> [49]
           then cn_fail E ESDB_ERR_UNSUPPORTED OBJ SQLITE_MISMATCH
                  (Some ''unsupported ESDB Store schema version'')
           else give ()))"

definition ensure_object_store_schema :: "'d sqlite \<Rightarrow> ('d, unit) action" where
  "ensure_object_store_schema E cn =
     (if cn_schema_ready cn then give () cn
      else
       let read_only = sq_readonly E (cn_db cn) in
       if read_only < 0
       then cn_fail E ESDB_ERR_INTERNAL OBJ SQLITE_ERROR (Some ''SQLite main database was not found'') cn
       else
        chain (inspect_store_table_count E) (\<lambda>count.
          if count \<noteq> 0 \<and> count \<noteq> 4 then partial_schema E
          else
           chain (if count = 0
              then (if read_only \<noteq> 0
                then cn_fail E ESDB_ERR_NOT_FOUND OBJ SQLITE_NOTFOUND
                       (Some ''ESDB Store schema is not present in the read-only database'')
                else create_schema E)
              else give ()) (\<lambda>_.
           chain (check_schema_version E) (\<lambda>_.
           chain (read_store_revision_metadata E) (\<lambda>_ cn.
             (Done (), cn\<lparr>cn_schema_ready := True\<rparr>))))) cn)"

section \<open>Operations\<close>

text \<open>
  \<open>count_operation\<close> and \<open>clear_error\<close> open every public call; a null database takes the error
  of the argument check.
\<close>

definition public_call :: "'a outcome \<Rightarrow> ('d, 'a) action \<Rightarrow> 'd connection option \<Rightarrow> 'a outcome \<times> 'd connection option" where
  "public_call null_result action =
     on_database null_result (\<lambda>cn. action (metrics_only count_operation cn))"

definition esdb_object_store_ensure ::
  "'d sqlite \<Rightarrow> int \<Rightarrow> byte list option \<Rightarrow> 'd connection option \<Rightarrow> unit outcome \<times> 'd connection option" where
  "esdb_object_store_ensure E now name =
     public_call (null_database E OBJ SQLITE_MISMATCH ''invalid store ensure arguments'')
       (if \<not> valid_object_store_name name
        then cn_fail E ESDB_ERR_INVALID_ARGUMENT OBJ SQLITE_MISMATCH
               (Some ''invalid store ensure arguments'')
        else
         chain (ensure_object_store_schema E) (\<lambda>_ cn.
           case get_store_id E now (the name) False cn of
             (Done i, cn') \<Rightarrow> (Done (), cn')
           | (Failed status e, cn') \<Rightarrow>
               if status \<noteq> ESDB_ERR_NOT_FOUND then (Failed status e, cn')
               else chain (require_store_writable E) (\<lambda>_.
                    chain (get_store_id E now (the name) True) (\<lambda>_. give ())) cn'))"

definition SQL_UPSERT_RECORD :: string where
  "SQL_UPSERT_RECORD =
     ''INSERT INTO __esdb_records('' @
     ''store_id,key,type,value,revision,created_at_ms,updated_at_ms'' @
     '') VALUES(?1,?2,?3,?4,?5,?6,?6) '' @
     ''ON CONFLICT(store_id,key) DO UPDATE SET '' @
     ''type=excluded.type,'' @
     ''value=excluded.value,'' @
     ''revision=excluded.revision,'' @
     ''updated_at_ms=excluded.updated_at_ms;''"

definition upsert_record ::
  "'d sqlite \<Rightarrow> int \<Rightarrow> byte list \<Rightarrow> esdb_value \<Rightarrow> int \<Rightarrow> int \<Rightarrow> ('d, unit) action" where
  "upsert_record E store_id key v revision now =
     chain (prepare E SQL_UPSERT_RECORD OBJ) (\<lambda>st.
     chain (bind_int64 E 1 store_id OBJ st) (\<lambda>st.
     chain (bind_text E 2 key OBJ st) (\<lambda>st.
     chain (bind_int E 3 (sint (ev_type v)) OBJ st) (\<lambda>st.
     chain (if ev_payload v = [] then bind_zeroblob E 4 0 OBJ st
            else bind_blob64 E 4 (ev_payload v) OBJ st) (\<lambda>st.
     chain (bind_int64 E 5 revision OBJ st) (\<lambda>st.
     chain (bind_int64 E 6 now OBJ st) (\<lambda>st.
     chain (step E OBJ st) (\<lambda>(rc, st).
       if rc \<noteq> SQLITE_DONE
       then cn_fail E ESDB_ERR_SQLITE OBJ SQLITE_ERROR (Some ''record upsert did not finish'')
       else give ()))))))))"

text \<open>The clock is read three times: by the registration, for the change and for the record.\<close>

definition put_body ::
  "'d sqlite \<Rightarrow> (nat \<Rightarrow> int) \<Rightarrow> byte list \<Rightarrow> byte list \<Rightarrow> esdb_value \<Rightarrow> ('d, int) action" where
  "put_body E now name key v =
     chain (get_store_id E (now 0) name True) (\<lambda>store_id.
     chain (insert_change E store_id key ESDB_OBJECT_CHANGE_PUT (ev_type v) (now 1)) (\<lambda>revision.
     chain (upsert_record E store_id key v revision (now 2)) (\<lambda>_.
     chain (set_store_revision E revision) (\<lambda>_. give revision))))"

definition esdb_object_store_put ::
  "'d sqlite \<Rightarrow> (nat \<Rightarrow> int) \<Rightarrow> byte list option \<Rightarrow> byte list option \<Rightarrow> esdb_value option
   \<Rightarrow> 'd connection option \<Rightarrow> u64 outcome \<times> 'd connection option" where
  "esdb_object_store_put E now name key v =
     public_call (null_database E OBJ SQLITE_MISUSE ''invalid store put arguments'')
       (if \<not> valid_object_store_name name \<or> \<not> valid_object_store_key key \<or> v = None
          \<or> \<not> valid_value_type (ev_type (the v))
        then cn_fail E ESDB_ERR_INVALID_ARGUMENT OBJ SQLITE_MISUSE (Some ''invalid store put arguments'')
        else
         chain (ensure_object_store_schema E) (\<lambda>_.
         chain (require_store_writable E) (\<lambda>_.
         chain (begin_store_mutation E) (\<lambda>owns.
         chain (guarded (rollback_store_mutation E owns)
           (put_body E now (the name) (the key) (the v))) (\<lambda>revision.
         chain (commit_store_mutation E owns) (\<lambda>_. give (of_int revision)))))))"

definition SQL_GET_RECORD :: string where
  "SQL_GET_RECORD =
     ''SELECT r.type,r.value '' @
     ''FROM __esdb_records r '' @
     ''JOIN __esdb_stores s ON s.id=r.store_id '' @
     ''WHERE s.name=?1 AND r.key=?2;''"

definition esdb_object_store_get ::
  "'d sqlite \<Rightarrow> value_alloc \<Rightarrow> byte list option \<Rightarrow> byte list option \<Rightarrow> bool
   \<Rightarrow> 'd connection option \<Rightarrow> esdb_value outcome \<times> 'd connection option" where
  "esdb_object_store_get E alloc name key out_given =
     public_call (null_database E OBJ SQLITE_MISUSE ''invalid store get arguments'')
       (if \<not> out_given \<or> \<not> valid_object_store_name name \<or> \<not> valid_object_store_key key
        then cn_fail E ESDB_ERR_INVALID_ARGUMENT OBJ SQLITE_MISUSE (Some ''invalid store get arguments'')
        else
         chain (ensure_object_store_schema E) (\<lambda>_.
         chain (prepare E SQL_GET_RECORD OBJ) (\<lambda>st.
         chain (bind_text E 1 (the name) OBJ st) (\<lambda>st.
         chain (bind_text E 2 (the key) OBJ st) (\<lambda>st.
         chain (step E OBJ st) (\<lambda>(rc, st).
           if rc = SQLITE_DONE then (\<lambda>cn. (Failed ESDB_ERR_NOT_FOUND clear_error, cn))
           else clone_sql_value E alloc st 0 1))))))"

definition SQL_DELETE_RECORD :: string where
  "SQL_DELETE_RECORD =
     ''DELETE FROM __esdb_records '' @
     ''WHERE store_id=?1 AND key=?2 RETURNING 1;''"

definition delete_record :: "'d sqlite \<Rightarrow> int \<Rightarrow> byte list \<Rightarrow> ('d, bool) action" where
  "delete_record E store_id key =
     chain (prepare E SQL_DELETE_RECORD OBJ) (\<lambda>st.
     chain (bind_int64 E 1 store_id OBJ st) (\<lambda>st.
     chain (bind_text E 2 key OBJ st) (\<lambda>st.
     chain (step E OBJ st) (\<lambda>(rc, st).
       if rc \<noteq> SQLITE_ROW then give False
       else
        chain (step E OBJ st) (\<lambda>(rc, st).
          if rc \<noteq> SQLITE_DONE
          then cn_fail E ESDB_ERR_SQLITE OBJ SQLITE_ERROR (Some ''record delete did not finish'')
          else give True)))))"

text \<open>The result is the pair of the out parameters, deleted and revision.\<close>

definition esdb_object_store_delete ::
  "'d sqlite \<Rightarrow> int \<Rightarrow> byte list option \<Rightarrow> byte list option
   \<Rightarrow> 'd connection option \<Rightarrow> (bool \<times> u64) outcome \<times> 'd connection option" where
  "esdb_object_store_delete E now name key =
     public_call (null_database E OBJ SQLITE_MISUSE ''invalid store delete arguments'')
       (if \<not> valid_object_store_name name \<or> \<not> valid_object_store_key key
        then cn_fail E ESDB_ERR_INVALID_ARGUMENT OBJ SQLITE_MISUSE (Some ''invalid store delete arguments'')
        else
         chain (ensure_object_store_schema E) (\<lambda>_ cn.
           case get_store_id E now (the name) False cn of
             (Failed status e, cn') \<Rightarrow>
               if status = ESDB_ERR_NOT_FOUND then (Done (False, 0), cn') else (Failed status e, cn')
           | (Done store_id, cn') \<Rightarrow>
               chain (require_store_writable E) (\<lambda>_.
               chain (begin_store_mutation E) (\<lambda>owns.
               chain (guarded (rollback_store_mutation E owns)
                 (delete_record E store_id (the key))) (\<lambda>deleted.
                 if \<not> deleted
                 then chain (commit_store_mutation E owns) (\<lambda>_. give (False, 0))
                 else
                  chain (guarded (rollback_store_mutation E owns)
                    (insert_change E store_id (the key) ESDB_OBJECT_CHANGE_DELETE ESDB_VALUE_NULL now))
                    (\<lambda>revision.
                  chain (guarded (rollback_store_mutation E owns) (set_store_revision E revision)) (\<lambda>_.
                  chain (commit_store_mutation E owns) (\<lambda>_. give (True, of_int revision))))))) cn'))"

definition SQL_EXISTS :: string where
  "SQL_EXISTS =
     ''SELECT 1 '' @
     ''FROM __esdb_records r '' @
     ''JOIN __esdb_stores s ON s.id=r.store_id '' @
     ''WHERE s.name=?1 AND r.key=?2 LIMIT 1;''"

definition esdb_object_store_exists ::
  "'d sqlite \<Rightarrow> byte list option \<Rightarrow> byte list option \<Rightarrow> bool
   \<Rightarrow> 'd connection option \<Rightarrow> bool outcome \<times> 'd connection option" where
  "esdb_object_store_exists E name key out_given =
     public_call (null_database E OBJ SQLITE_MISUSE ''invalid store exists arguments'')
       (if \<not> out_given \<or> \<not> valid_object_store_name name \<or> \<not> valid_object_store_key key
        then cn_fail E ESDB_ERR_INVALID_ARGUMENT OBJ SQLITE_MISUSE (Some ''invalid store exists arguments'')
        else
         chain (ensure_object_store_schema E) (\<lambda>_.
         chain (prepare E SQL_EXISTS OBJ) (\<lambda>st.
         chain (bind_text E 1 (the name) OBJ st) (\<lambda>st.
         chain (bind_text E 2 (the key) OBJ st) (\<lambda>st.
         chain (step E OBJ st) (\<lambda>(rc, st). give (rc = SQLITE_ROW)))))))"

definition SQL_COUNT_RECORDS :: string where
  "SQL_COUNT_RECORDS =
     ''SELECT COUNT(*) '' @
     ''FROM __esdb_records r '' @
     ''JOIN __esdb_stores s ON s.id=r.store_id '' @
     ''WHERE s.name=?1;''"

definition esdb_object_store_count ::
  "'d sqlite \<Rightarrow> byte list option \<Rightarrow> bool \<Rightarrow> 'd connection option \<Rightarrow> u64 outcome \<times> 'd connection option" where
  "esdb_object_store_count E name out_given =
     public_call (null_database E OBJ SQLITE_MISUSE ''invalid store count arguments'')
       (if \<not> out_given \<or> \<not> valid_object_store_name name
        then cn_fail E ESDB_ERR_INVALID_ARGUMENT OBJ SQLITE_MISUSE (Some ''invalid store count arguments'')
        else
         chain (ensure_object_store_schema E) (\<lambda>_.
         chain (prepare E SQL_COUNT_RECORDS OBJ) (\<lambda>st.
         chain (bind_text E 1 (the name) OBJ st) (\<lambda>st.
         chain (step E OBJ st) (\<lambda>(rc, st).
           if rc \<noteq> SQLITE_ROW
           then cn_fail E ESDB_ERR_SQLITE OBJ SQLITE_ERROR (Some ''store count returned no row'')
           else
            let count = column_int64 E st 0 in
            if count < 0
            then cn_fail E ESDB_ERR_CORRUPT OBJ SQLITE_CORRUPT (Some ''store count is negative'')
            else give (of_int count))))))"

section \<open>Scans and change queries\<close>

text \<open>
  Both collect a snapshot row by row before they call the host. A snapshot has at most as many
  rows as its LIMIT, so the loop gets one step more than that as fuel; the throwing places are
  0 for the reservation and \<open>Suc i\<close> for the \<open>i\<close>-th row.
\<close>

datatype 'e snapshot = Snap_Rows "'e list" | Snap_Thrown exn

fun collect_rows ::
  "nat \<Rightarrow> throws \<Rightarrow> nat \<Rightarrow> 'd sqlite \<Rightarrow> esdb_phase \<Rightarrow> (statement \<Rightarrow> ('d, 'e) action) \<Rightarrow> statement
   \<Rightarrow> 'e list \<Rightarrow> ('d, 'e snapshot) action" where
  "collect_rows 0 throws i E phase read_row st acc = give (Snap_Rows acc)"
| "collect_rows (Suc fuel) throws i E phase read_row st acc =
     chain (step E phase st) (\<lambda>(rc, st).
       if rc = SQLITE_DONE then give (Snap_Rows acc)
       else
        chain (read_row st) (\<lambda>row.
          case throws (Suc i) of
            Some e \<Rightarrow> give (Snap_Thrown e)
          | None \<Rightarrow> collect_rows fuel throws (Suc i) E phase read_row st (acc @ [row])))"

definition SQL_SCAN_AFTER :: string where
  "SQL_SCAN_AFTER =
     ''SELECT r.key,r.type,r.value,r.revision '' @
     ''FROM __esdb_records r '' @
     ''JOIN __esdb_stores s ON s.id=r.store_id '' @
     ''WHERE s.name=?1 AND r.key>?2 '' @
     ''ORDER BY r.key COLLATE BINARY ASC LIMIT ?3;''"

definition SQL_SCAN_ALL :: string where
  "SQL_SCAN_ALL =
     ''SELECT r.key,r.type,r.value,r.revision '' @
     ''FROM __esdb_records r '' @
     ''JOIN __esdb_stores s ON s.id=r.store_id '' @
     ''WHERE s.name=?1 '' @
     ''ORDER BY r.key COLLATE BINARY ASC LIMIT ?2;''"

text \<open>A key with an embedded terminator is shorter as a C string than its column says.\<close>

definition read_record_row :: "'d sqlite \<Rightarrow> value_alloc \<Rightarrow> statement \<Rightarrow> ('d, object_record) action" where
  "read_record_row E alloc st =
     (let key = column_text E st 0;
          raw_revision = column_int64 E st 3
      in if key = None \<or> the key = [] \<or> length (the key) \<noteq> length (c_bytes (the key))
           \<or> \<not> valid_object_store_key key \<or> raw_revision \<le> 0
         then cn_fail E ESDB_ERR_CORRUPT OBJ SQLITE_CORRUPT
                (Some ''Store scan encountered an invalid record'')
         else
          chain (clone_sql_value E alloc st 1 2) (\<lambda>v.
            give \<lparr>or_key = Str (the key), or_value = v, or_revision = of_int raw_revision\<rparr>))"

definition scan_statement ::
  "'d sqlite \<Rightarrow> byte list \<Rightarrow> byte list option \<Rightarrow> u32 \<Rightarrow> ('d, statement) action" where
  "scan_statement E name after_key limit =
     chain (prepare E (if after_key = None then SQL_SCAN_ALL else SQL_SCAN_AFTER) OBJ) (\<lambda>st.
     chain (bind_text E 1 name OBJ st) (\<lambda>st.
       case after_key of
         Some k \<Rightarrow> chain (bind_text E 2 k OBJ st) (\<lambda>st. bind_int E 3 (sint limit) OBJ st)
       | None \<Rightarrow> bind_int E 2 (sint limit) OBJ st))"

text \<open>The outcome carries the count; the host's data comes back with it.\<close>

definition esdb_object_store_scan ::
  "'d sqlite \<Rightarrow> throws \<Rightarrow> value_alloc \<Rightarrow> byte list option \<Rightarrow> byte list option \<Rightarrow> u32
   \<Rightarrow> ('u, object_record) callback option \<Rightarrow> 'u
   \<Rightarrow> 'd connection option \<Rightarrow> (u32 outcome \<times> 'd connection option) \<times> 'u" where
  "esdb_object_store_scan E throws alloc name after_key limit callback user database =
     (let collected =
        public_call (null_database E OBJ SQLITE_MISUSE ''invalid Store scan arguments'')
          (if callback = None \<or> \<not> valid_object_store_name name
             \<or> (after_key \<noteq> None \<and> \<not> valid_object_store_key after_key)
             \<or> ESDB_OBJECT_SCAN_LIMIT_MAX < limit
           then cn_fail E ESDB_ERR_INVALID_ARGUMENT OBJ SQLITE_MISUSE (Some ''invalid Store scan arguments'')
           else
            let limit = (if limit = 0 then ESDB_OBJECT_SCAN_LIMIT_MAX else limit);
                thrown = (\<lambda>e. case e of
                   Bad_Alloc \<Rightarrow> cn_fail E ESDB_ERR_OUT_OF_MEMORY OBJ SQLITE_NOMEM
                     (Some ''failed to allocate Store scan snapshot'')
                 | Other_Exn \<Rightarrow> cn_fail E ESDB_ERR_INTERNAL OBJ SQLITE_ERROR
                     (Some ''unexpected exception while building Store scan snapshot''))
            in case throws 0 of Some e \<Rightarrow> thrown e
             | None \<Rightarrow>
                chain (ensure_object_store_schema E) (\<lambda>_.
                chain (scan_statement E (the name) after_key limit) (\<lambda>st.
                chain (collect_rows (Suc (unat limit)) throws 0 E OBJ (read_record_row E alloc) st [])
                  (\<lambda>snapshot. case snapshot of
                     Snap_Thrown e \<Rightarrow> thrown e
                   | Snap_Rows rows \<Rightarrow> give rows)))) database
      in case collected of
           (Failed status e, database) \<Rightarrow> ((Failed status e, database), user)
         | (Done rows, database) \<Rightarrow>
            (case deliver (the callback) rows None 0 user of
               (threw, seen, delivered, user') \<Rightarrow>
                 ((if threw
                   then on_database (null_database E OBJ SQLITE_ABORT [])
                     (cn_fail E ESDB_ERR_INTERNAL OBJ SQLITE_ABORT
                       (Some ''Store scan callback threw an exception'')) database
                   else (Done (of_nat delivered), database)), user')))"

definition esdb_object_store_revision ::
  "'d sqlite \<Rightarrow> bool \<Rightarrow> 'd connection option \<Rightarrow> u64 outcome \<times> 'd connection option" where
  "esdb_object_store_revision E out_given =
     public_call (null_database E OBJ SQLITE_MISUSE ''database and out_revision are required'')
       (if \<not> out_given
        then cn_fail E ESDB_ERR_INVALID_ARGUMENT OBJ SQLITE_MISUSE
               (Some ''database and out_revision are required'')
        else chain (ensure_object_store_schema E) (\<lambda>_. read_store_revision_metadata E))"

definition SQL_CHANGES_STORE :: string where
  "SQL_CHANGES_STORE =
     ''SELECT c.revision,c.operation,c.value_type,s.name,c.key '' @
     ''FROM __esdb_object_changes c '' @
     ''JOIN __esdb_stores s ON s.id=c.store_id '' @
     ''WHERE c.revision>?1 AND s.name=?2 '' @
     ''ORDER BY c.revision ASC LIMIT ?3;''"

definition SQL_CHANGES_ALL :: string where
  "SQL_CHANGES_ALL =
     ''SELECT c.revision,c.operation,c.value_type,s.name,c.key '' @
     ''FROM __esdb_object_changes c '' @
     ''JOIN __esdb_stores s ON s.id=c.store_id '' @
     ''WHERE c.revision>?1 '' @
     ''ORDER BY c.revision ASC LIMIT ?2;''"

definition read_change_row :: "'d sqlite \<Rightarrow> statement \<Rightarrow> ('d, object_change) action" where
  "read_change_row E st =
     (let raw_revision = column_int64 E st 0;
          operation = column_int E st 1;
          value_type = column_int E st 2;
          store_name = column_text E st 3;
          key = column_text E st 4
      in if raw_revision \<le> 0 \<or> store_name = None \<or> key = None
           \<or> \<not> valid_object_store_name store_name \<or> \<not> valid_object_store_key key
           \<or> \<not> valid_raw_type value_type
           \<or> (operation \<noteq> ESDB_OBJECT_CHANGE_PUT \<and> operation \<noteq> ESDB_OBJECT_CHANGE_DELETE)
           \<or> (operation = ESDB_OBJECT_CHANGE_DELETE \<and> value_type \<noteq> 0)
         then cn_fail E ESDB_ERR_CORRUPT SUB SQLITE_CORRUPT (Some ''invalid change journal row'')
         else give \<lparr>oc_revision = of_int raw_revision, oc_operation = operation,
                oc_value_type = word_of_int value_type, oc_store = c_str (the store_name),
                oc_key = c_str (the key)\<rparr>)"

definition changes_statement ::
  "'d sqlite \<Rightarrow> byte list option \<Rightarrow> u64 \<Rightarrow> u32 \<Rightarrow> ('d, statement) action" where
  "changes_statement E name after_revision limit =
     chain (prepare E (if name = None then SQL_CHANGES_ALL else SQL_CHANGES_STORE) SUB) (\<lambda>st.
     chain (bind_int64 E 1 (sint after_revision) SUB st) (\<lambda>st.
       case name of
         Some n \<Rightarrow> chain (bind_text E 2 n SUB st) (\<lambda>st. bind_int E 3 (sint limit) SUB st)
       | None \<Rightarrow> bind_int E 2 (sint limit) SUB st))"

definition object_store_changes_since_impl ::
  "'d sqlite \<Rightarrow> throws \<Rightarrow> byte list option \<Rightarrow> u64 \<Rightarrow> u32 \<Rightarrow> ('u, object_change) callback option \<Rightarrow> 'u
   \<Rightarrow> 'd connection \<Rightarrow> ((u64 \<times> u32) outcome \<times> 'd connection) \<times> 'u" where
  "object_store_changes_since_impl E throws name after_revision limit callback user cn =
     (if callback = None \<or> ESDB_OBJECT_CHANGE_LIMIT_MAX < limit
      then (cn_fail E ESDB_ERR_INVALID_ARGUMENT SUB SQLITE_MISUSE
              (Some ''invalid change query arguments'') cn, user)
      else if ESDB_REVISION_MAX < after_revision
      then (invalid_revision E SUB ''after_revision exceeds the ESDB revision domain'' cn, user)
      else if name \<noteq> None \<and> \<not> valid_object_store_name name
      then (cn_fail E ESDB_ERR_INVALID_ARGUMENT SUB SQLITE_MISMATCH (Some ''invalid store name'') cn, user)
      else
       let limit = (if limit = 0 then ESDB_OBJECT_CHANGE_LIMIT_MAX else limit);
           thrown = (\<lambda>e. case e of
               Bad_Alloc \<Rightarrow> cn_fail E ESDB_ERR_OUT_OF_MEMORY SUB SQLITE_NOMEM
                 (Some ''failed to allocate change snapshot'')
             | Other_Exn \<Rightarrow> cn_fail E ESDB_ERR_INTERNAL SUB SQLITE_ERROR
                 (Some ''unexpected exception while building change snapshot''));
           collected =
            (case throws 0 of Some e \<Rightarrow> thrown e
             | None \<Rightarrow>
                chain (ensure_object_store_schema E) (\<lambda>_.
                chain (changes_statement E name after_revision limit) (\<lambda>st.
                chain (collect_rows (Suc (unat limit)) throws 0 E SUB (read_change_row E) st [])
                  (\<lambda>snapshot. case snapshot of
                     Snap_Thrown e \<Rightarrow> thrown e
                   | Snap_Rows rows \<Rightarrow> give rows))))
       in case collected cn of
            (Failed status e, cn) \<Rightarrow> ((Failed status e, cn), user)
          | (Done rows, cn) \<Rightarrow>
             (case deliver (the callback) rows None 0 user of
                (threw, seen, delivered, user') \<Rightarrow>
                  ((if threw
                    then cn_fail E ESDB_ERR_INTERNAL SUB SQLITE_ABORT
                           (Some ''change callback threw an exception'') cn
                    else (Done (case seen of None \<Rightarrow> after_revision | Some c \<Rightarrow> oc_revision c,
                            of_nat delivered), cn)), user')))"

definition esdb_object_store_changes_since ::
  "'d sqlite \<Rightarrow> throws \<Rightarrow> byte list option \<Rightarrow> u64 \<Rightarrow> u32 \<Rightarrow> ('u, object_change) callback option \<Rightarrow> 'u
   \<Rightarrow> 'd connection option \<Rightarrow> ((u64 \<times> u32) outcome \<times> 'd connection option) \<times> 'u" where
  "esdb_object_store_changes_since E throws name after_revision limit callback user database =
     (case database of
        None \<Rightarrow> ((null_database E SUB SQLITE_MISUSE ''invalid change query arguments'', None), user)
      | Some cn \<Rightarrow>
         (case object_store_changes_since_impl E throws name after_revision limit callback user
             (metrics_only count_operation cn) of
            ((r, cn'), user') \<Rightarrow> ((r, Some cn'), user')))"

section \<open>Pruning\<close>

definition SQL_PRUNE :: string where
  "SQL_PRUNE = ''DELETE FROM __esdb_object_changes WHERE revision<=?1 RETURNING revision;''"

text \<open>
  The loop counts the rows until the statement is done; it ends because a statement has
  finitely many rows, which the fuel, the engine's own bound on them, stands for: running out
  of it is \<open>None\<close>.
\<close>

fun count_pruned :: "nat \<Rightarrow> 'd sqlite \<Rightarrow> statement \<Rightarrow> u64 \<Rightarrow> ('d, u64 option) action" where
  "count_pruned 0 E st deleted = give None"
| "count_pruned (Suc fuel) E st deleted =
     chain (step E OBJ st) (\<lambda>(rc, st).
       if rc = SQLITE_DONE then give (Some deleted)
       else if column_int64 E st 0 \<le> 0
       then cn_fail E ESDB_ERR_CORRUPT OBJ SQLITE_CORRUPT (Some ''change prune returned an invalid revision'')
       else count_pruned fuel E st (deleted + 1))"

definition esdb_object_store_prune_changes ::
  "nat \<Rightarrow> 'd sqlite \<Rightarrow> u64 \<Rightarrow> 'd connection option \<Rightarrow> u64 option outcome \<times> 'd connection option" where
  "esdb_object_store_prune_changes fuel E through_revision =
     public_call (null_database E OBJ SQLITE_MISUSE ''database is required'')
       (if ESDB_REVISION_MAX < through_revision
        then invalid_revision E OBJ ''through_revision exceeds the ESDB revision domain''
        else
         chain (ensure_object_store_schema E) (\<lambda>_.
         chain (require_store_writable E) (\<lambda>_.
         chain (prepare E SQL_PRUNE OBJ) (\<lambda>st.
         chain (bind_int64 E 1 (sint through_revision) OBJ st) (\<lambda>st.
           count_pruned fuel E st 0)))))"

section \<open>Subscriptions\<close>

text \<open>
  A subscription filters by one store or not at all. Its database pointer is the connection the
  functions below get; \<open>os_polling\<close> says that a poll holds the poll mutex.
\<close>

record object_subscription =
  os_store :: "cpp_string option"
  os_revision :: u64
  os_polling :: bool

definition esdb_object_subscribe ::
  "'d sqlite \<Rightarrow> bool \<Rightarrow> byte list option \<Rightarrow> u64 \<Rightarrow> bool \<Rightarrow> 'd connection option
   \<Rightarrow> object_subscription outcome \<times> 'd connection option" where
  "esdb_object_subscribe E alloc_ok name after_revision out_given =
     public_call (null_database E SUB SQLITE_MISUSE ''invalid subscription arguments'')
       (if \<not> out_given \<or> (name \<noteq> None \<and> \<not> valid_object_store_name name)
        then cn_fail E ESDB_ERR_INVALID_ARGUMENT SUB SQLITE_MISUSE (Some ''invalid subscription arguments'')
        else if ESDB_REVISION_MAX < after_revision
        then invalid_revision E SUB ''after_revision exceeds the ESDB revision domain''
        else
         chain (ensure_object_store_schema E) (\<lambda>_.
           if \<not> alloc_ok
           then cn_fail E ESDB_ERR_OUT_OF_MEMORY SUB SQLITE_NOMEM (Some ''subscription allocation failed'')
           else give \<lparr>os_store = map_option c_str name, os_revision = after_revision, os_polling = False\<rparr>))"

definition esdb_object_subscription_poll ::
  "'d sqlite \<Rightarrow> throws \<Rightarrow> u32 \<Rightarrow> ('u, object_change) callback option \<Rightarrow> 'u
   \<Rightarrow> (object_subscription \<times> 'd connection) option
   \<Rightarrow> (u32 outcome \<times> (object_subscription \<times> 'd connection) option) \<times> 'u" where
  "esdb_object_subscription_poll E throws limit callback user subscription =
     (case subscription of
        None \<Rightarrow> ((null_database E SUB SQLITE_MISUSE ''subscription is required'', None), user)
      | Some (sub, cn) \<Rightarrow>
          let cn = metrics_only count_operation cn in
          if os_polling sub
          then (case cn_fail E ESDB_ERR_BUSY SUB SQLITE_BUSY
                  (Some ''subscription is already being polled'') cn of
                  (r, cn') \<Rightarrow> ((r, Some (sub, cn')), user))
          else
           (case object_store_changes_since_impl E throws (map_option bytes (os_store sub))
               (os_revision sub) limit callback user cn of
              ((Done (revision, count), cn'), user') \<Rightarrow>
                ((Done count, Some (sub\<lparr>os_revision := revision\<rparr>, cn')), user')
            | ((Failed status e, cn'), user') \<Rightarrow> ((Failed status e, Some (sub, cn')), user')))"

definition esdb_object_subscription_revision :: "object_subscription option \<Rightarrow> u64" where
  "esdb_object_subscription_revision subscription =
     (case subscription of None \<Rightarrow> 0 | Some sub \<Rightarrow> os_revision sub)"

end
