(* ===== verification/Sqlite_Contract.thy ===== *)
theory Sqlite_Contract
  imports Object_Store Sqlite_Transactions "HOL-Library.Product_Lexorder" "HOL-Library.Multiset"
begin

text \<open>
  What the object store relies on SQLite for, as a locale: the documented meaning of each SQL
  text of the source on the four tables, and of transactions, savepoints and failures on what
  a connection sees. The contract describes a connection by its view: the tables as it sees
  them now and, for every open frame (a transaction or a savepoint), the tables when the frame
  was opened. An engine with a fault script, in \<open>Sqlite_Reference\<close>, satisfies it.
\<close>

section \<open>The tables\<close>

record record_row =
  rr_type :: int
  rr_payload :: "byte list"
  rr_revision :: int
  rr_created :: int
  rr_updated :: int

record change_row =
  cr_store :: int
  cr_key :: "byte list"
  cr_operation :: int
  cr_type :: int
  cr_at :: int

text \<open>
  The rows of each table under its primary key, and the AUTOINCREMENT sequence of the journal
  (0 when \<open>sqlite_sequence\<close> has no row for it).
\<close>

record store_tables =
  tb_meta :: "(cpp_string \<times> byte list) list"
  tb_stores :: "(int \<times> byte list \<times> int) list"
  tb_records :: "((int \<times> cpp_string) \<times> record_row) list"
  tb_changes :: "(int \<times> change_row) list"
  tb_sequence :: int

text \<open>A database has none of the four tables, some of them, or all.\<close>

datatype database = Absent | Partial nat | Present store_tables

definition key_revision :: cpp_string where
  "key_revision = Str (ascii ''store_revision'')"

definition key_version :: cpp_string where
  "key_version = Str (ascii ''store_schema_version'')"

definition initial_tables :: store_tables where
  "initial_tables =
     \<lparr>tb_meta = map_put key_revision [48] (map_put key_version [49] []), tb_stores = [],
      tb_records = [], tb_changes = [], tb_sequence = 0\<rparr>"

section \<open>The statements\<close>

datatype store_sql =
    Read_Revision | Count_Tables | Set_Revision | Insert_Store | Select_Store | Insert_Change
  | Schema_Version | Upsert_Record | Get_Record | Delete_Record | Exists_Record | Count_Records
  | Scan_All | Scan_After | Changes_All | Changes_Store | Prune_Changes

fun sql_text :: "store_sql \<Rightarrow> string" where
  "sql_text Read_Revision = SQL_READ_REVISION"
| "sql_text Count_Tables = SQL_COUNT_TABLES"
| "sql_text Set_Revision = SQL_SET_REVISION"
| "sql_text Insert_Store = SQL_INSERT_STORE"
| "sql_text Select_Store = SQL_SELECT_STORE"
| "sql_text Insert_Change = SQL_INSERT_CHANGE"
| "sql_text Schema_Version = SQL_SCHEMA_VERSION"
| "sql_text Upsert_Record = SQL_UPSERT_RECORD"
| "sql_text Get_Record = SQL_GET_RECORD"
| "sql_text Delete_Record = SQL_DELETE_RECORD"
| "sql_text Exists_Record = SQL_EXISTS"
| "sql_text Count_Records = SQL_COUNT_RECORDS"
| "sql_text Scan_All = SQL_SCAN_ALL"
| "sql_text Scan_After = SQL_SCAN_AFTER"
| "sql_text Changes_All = SQL_CHANGES_ALL"
| "sql_text Changes_Store = SQL_CHANGES_STORE"
| "sql_text Prune_Changes = SQL_PRUNE"

definition store_id_of :: "byte list \<Rightarrow> store_tables \<Rightarrow> int option" where
  "store_id_of name t = map_option fst (find (\<lambda>(i, n, at). n = name) (tb_stores t))"

definition store_name_of :: "int \<Rightarrow> store_tables \<Rightarrow> byte list option" where
  "store_name_of i t = map_option fst (map_of (tb_stores t) i)"

definition next_row_id :: "(int \<times> 'a) list \<Rightarrow> int" where
  "next_row_id rows = foldr (\<lambda>(i, _) m. max i m) rows 0 + 1"

definition change_sql_row :: "byte list \<Rightarrow> int \<times> change_row \<Rightarrow> sql_row" where
  "change_sql_row name c = [Sql_Int (fst c), Sql_Int (cr_operation (snd c)), Sql_Int (cr_type (snd c)),
     Sql_Text name, Sql_Text (cr_key (snd c))]"

definition journal_rows :: "int \<Rightarrow> (byte list \<Rightarrow> bool) \<Rightarrow> int \<Rightarrow> store_tables \<Rightarrow> sql_row list" where
  "journal_rows a keep limit t =
     take (nat limit)
       (List.map_filter
         (\<lambda>c. case store_name_of (cr_store (snd c)) t of
            Some name \<Rightarrow> if a < fst c \<and> keep name then Some (change_sql_row name c) else None
          | None \<Rightarrow> None)
         (tb_changes t))"

definition scan_rows :: "byte list \<Rightarrow> (cpp_string \<Rightarrow> bool) \<Rightarrow> int \<Rightarrow> store_tables \<Rightarrow> sql_row list" where
  "scan_rows name keep limit t =
     (case store_id_of name t of
        None \<Rightarrow> []
      | Some i \<Rightarrow>
         take (nat limit)
           (map (\<lambda>((_, k), r). [Sql_Text (bytes k), Sql_Int (rr_type r), Sql_Blob (rr_payload r),
                Sql_Int (rr_revision r)])
             (filter (\<lambda>((s, k), r). s = i \<and> keep k) (tb_records t))))"

definition find_record :: "byte list \<Rightarrow> byte list \<Rightarrow> store_tables \<Rightarrow> record_row option" where
  "find_record name key t =
     (case store_id_of name t of None \<Rightarrow> None | Some i \<Rightarrow> map_of (tb_records t) (i, Str key))"

text \<open>
  The answer to a statement: its rows and the tables after it, a refusal (a constraint, a full
  sequence), or nothing the code relies on.
\<close>

datatype answer = Rows "sql_row list" store_tables | Refused | No_Claim

definition sql_max :: int where "sql_max = 2 ^ 63 - 1"

fun answer_of :: "store_sql \<Rightarrow> (nat \<Rightarrow> sql_value) \<Rightarrow> store_tables \<Rightarrow> answer" where
  "answer_of Read_Revision p t =
     Rows (case map_of (tb_meta t) key_revision of
             None \<Rightarrow> [] | Some text \<Rightarrow> [[Sql_Text text, Sql_Int (tb_sequence t)]]) t"
| "answer_of Count_Tables p t = Rows [[Sql_Int 4]] t"
| "answer_of Schema_Version p t =
     Rows (case map_of (tb_meta t) key_version of None \<Rightarrow> [] | Some text \<Rightarrow> [[Sql_Text text]]) t"
| "answer_of Set_Revision p t =
     (case p 1 of
        Sql_Int n \<Rightarrow>
          if 0 \<le> n then Rows [] (t\<lparr>tb_meta := map_put key_revision (decimal (nat n)) (tb_meta t)\<rparr>)
          else No_Claim
      | _ \<Rightarrow> No_Claim)"
| "answer_of Insert_Store p t =
     (case (p 1, p 2) of
        (Sql_Text name, Sql_Int at) \<Rightarrow>
          if store_id_of name t \<noteq> None then Rows [] t
          else if sql_max < next_row_id (tb_stores t) then No_Claim
          else Rows [] (t\<lparr>tb_stores := tb_stores t @ [(next_row_id (tb_stores t), name, at)]\<rparr>)
      | _ \<Rightarrow> No_Claim)"
| "answer_of Select_Store p t =
     (case p 1 of
        Sql_Text name \<Rightarrow> Rows (case store_id_of name t of None \<Rightarrow> [] | Some i \<Rightarrow> [[Sql_Int i]]) t
      | _ \<Rightarrow> No_Claim)"
| "answer_of Insert_Change p t =
     (case (p 1, p 2, p 3, p 4, p 5) of
        (Sql_Int s, Sql_Text key, Sql_Int operation, Sql_Int type, Sql_Int at) \<Rightarrow>
          let revision = max (tb_sequence t + 1) (next_row_id (tb_changes t)) in
          if store_name_of s t = None then No_Claim
          else if sql_max < revision then Refused
          else Rows [[Sql_Int revision]]
            (t\<lparr>tb_changes := tb_changes t @ [(revision, \<lparr>cr_store = s, cr_key = key,
                 cr_operation = operation, cr_type = type, cr_at = at\<rparr>)],
               tb_sequence := revision\<rparr>)
      | _ \<Rightarrow> No_Claim)"
| "answer_of Upsert_Record p t =
     (case (p 1, p 2, p 3, p 4, p 5, p 6) of
        (Sql_Int s, Sql_Text key, Sql_Int type, Sql_Blob payload, Sql_Int revision, Sql_Int now) \<Rightarrow>
          if store_name_of s t = None then No_Claim
          else
           let created = (case map_of (tb_records t) (s, Str key) of
                 None \<Rightarrow> now | Some r \<Rightarrow> rr_created r)
           in Rows [] (t\<lparr>tb_records := map_put (s, Str key)
                \<lparr>rr_type = type, rr_payload = payload, rr_revision = revision,
                 rr_created = created, rr_updated = now\<rparr> (tb_records t)\<rparr>)
      | _ \<Rightarrow> No_Claim)"
| "answer_of Get_Record p t =
     (case (p 1, p 2) of
        (Sql_Text name, Sql_Text key) \<Rightarrow>
          Rows (case find_record name key t of
                  None \<Rightarrow> [] | Some r \<Rightarrow> [[Sql_Int (rr_type r), Sql_Blob (rr_payload r)]]) t
      | _ \<Rightarrow> No_Claim)"
| "answer_of Delete_Record p t =
     (case (p 1, p 2) of
        (Sql_Int s, Sql_Text key) \<Rightarrow>
          if map_of (tb_records t) (s, Str key) = None then Rows [] t
          else Rows [[Sql_Int 1]] (t\<lparr>tb_records := map_erase (s, Str key) (tb_records t)\<rparr>)
      | _ \<Rightarrow> No_Claim)"
| "answer_of Exists_Record p t =
     (case (p 1, p 2) of
        (Sql_Text name, Sql_Text key) \<Rightarrow>
          Rows (if find_record name key t = None then [] else [[Sql_Int 1]]) t
      | _ \<Rightarrow> No_Claim)"
| "answer_of Count_Records p t =
     (case p 1 of
        Sql_Text name \<Rightarrow> Rows [[Sql_Int (int (length (scan_rows name (\<lambda>_. True) sql_max t)))]] t
      | _ \<Rightarrow> No_Claim)"
| "answer_of Scan_All p t =
     (case (p 1, p 2) of
        (Sql_Text name, Sql_Int limit) \<Rightarrow>
          if 0 \<le> limit then Rows (scan_rows name (\<lambda>_. True) limit t) t else No_Claim
      | _ \<Rightarrow> No_Claim)"
| "answer_of Scan_After p t =
     (case (p 1, p 2, p 3) of
        (Sql_Text name, Sql_Text key, Sql_Int limit) \<Rightarrow>
          if 0 \<le> limit then Rows (scan_rows name (\<lambda>k. Str key < k) limit t) t else No_Claim
      | _ \<Rightarrow> No_Claim)"
| "answer_of Changes_All p t =
     (case (p 1, p 2) of
        (Sql_Int a, Sql_Int limit) \<Rightarrow>
          if 0 \<le> limit then Rows (journal_rows a (\<lambda>_. True) limit t) t else No_Claim
      | _ \<Rightarrow> No_Claim)"
| "answer_of Changes_Store p t =
     (case (p 1, p 2, p 3) of
        (Sql_Int a, Sql_Text name, Sql_Int limit) \<Rightarrow>
          if 0 \<le> limit then Rows (journal_rows a (\<lambda>n. n = name) limit t) t else No_Claim
      | _ \<Rightarrow> No_Claim)"
| "answer_of Prune_Changes p t =
     (case p 1 of
        Sql_Int through \<Rightarrow>
          Rows (map (\<lambda>c. [Sql_Int (fst c)]) (filter (\<lambda>c. fst c \<le> through) (tb_changes t)))
            (t\<lparr>tb_changes := filter (\<lambda>c. \<not> fst c \<le> through) (tb_changes t)\<rparr>)
      | _ \<Rightarrow> No_Claim)"

fun reads_only :: "store_sql \<Rightarrow> bool" where
  "reads_only q = (q \<notin> {Set_Revision, Insert_Store, Insert_Change, Upsert_Record, Delete_Record, Prune_Changes})"

text \<open>
  On a database without the tables every statement but the inspection fails to prepare; a
  partial schema supports the inspection only.
\<close>

definition database_answer :: "store_sql \<Rightarrow> (nat \<Rightarrow> sql_value) \<Rightarrow> database \<Rightarrow> answer \<times> (store_tables \<Rightarrow> database)" where
  "database_answer q p db =
     (case db of
        Present t \<Rightarrow> (answer_of q p t, Present)
      | Absent \<Rightarrow> (if q = Count_Tables then Rows [[Sql_Int 0]] initial_tables else No_Claim, \<lambda>_. Absent)
      | Partial n \<Rightarrow>
         (if q = Count_Tables then Rows [[Sql_Int (int n)]] initial_tables else No_Claim, \<lambda>_. Partial n))"

section \<open>Views\<close>

type_synonym sql_view = "database tx_view"

abbreviation "MUTATION_FRAME \<equiv> F_Savepoint ''__esdb_mutation''"

section \<open>The contract\<close>

locale sqlite_engine = sql_transactions E view
  for E :: "'d sqlite" and view :: "'d \<Rightarrow> sql_view" +
  assumes prepare_absent: "sq_prepare E (sql_text q) d = (rc, d') \<Longrightarrow> v_now (view d) = Absent \<Longrightarrow>
      q \<noteq> Count_Tables \<Longrightarrow> rc \<noteq> SQLITE_OK"
    and step_answers: "sq_step E (sql_text q) p None d = (rc, rows, d') \<Longrightarrow> rc = SQLITE_ROW \<or> rc = SQLITE_DONE \<Longrightarrow>
      database_answer q p (v_now (view d)) = (Rows rs t, mk) \<Longrightarrow>
      (if q = Prune_Changes then mset rows = mset rs else rows = rs) \<and>
      rc = (if rows = [] then SQLITE_DONE else SQLITE_ROW) \<and> view d' = (view d)\<lparr>v_now := mk t\<rparr>"
    and step_refuses: "sq_step E (sql_text q) p None d = (rc, rows, d') \<Longrightarrow> rc = SQLITE_ROW \<or> rc = SQLITE_DONE \<Longrightarrow>
      fst (database_answer q p (v_now (view d))) \<noteq> Refused"
    and step_fails: "sq_step E (sql_text q) p None d = (rc, rows, d') \<Longrightarrow> rc \<noteq> SQLITE_ROW \<Longrightarrow> rc \<noteq> SQLITE_DONE \<Longrightarrow>
      quiet_failure (view d) (view d')"
    and step_frames: "sq_step E (sql_text q) p pending d = (rc, rows, d') \<Longrightarrow>
      if rc = SQLITE_ROW \<or> rc = SQLITE_DONE then v_frames (view d') = v_frames (view d)
      else frame_failure (view d) (view d')"
    and more_answers: "sq_step E (sql_text q) p (Some (r # rs)) d = (rc, rows, d') \<Longrightarrow>
      rc = SQLITE_ROW \<or> rc = SQLITE_DONE \<Longrightarrow>
      rows = rs \<and> rc = (if rs = [] then SQLITE_DONE else SQLITE_ROW) \<and> view d' = view d"
    and reads_view: "sq_step E (sql_text q) p pending d = (rc, rows, d') \<Longrightarrow> reads_only q \<Longrightarrow>
      if rc = SQLITE_ROW \<or> rc = SQLITE_DONE then view d' = view d else quiet_failure (view d) (view d')"
    and exec_create_frames: "sq_exec E SQL_CREATE_SCHEMA d = (rc, m, d') \<Longrightarrow>
      if rc = SQLITE_OK then v_frames (view d') = v_frames (view d) else frame_failure (view d) (view d')"
    and exec_create: "sq_exec E SQL_CREATE_SCHEMA d = (SQLITE_OK, m, d') \<Longrightarrow> v_now (view d) = Absent \<Longrightarrow>
      view d' = (view d)\<lparr>v_now := Present initial_tables\<rparr>"

text \<open>The transaction texts of the object store are instances of the transaction laws.\<close>

lemma mutation_texts:
  "SQL_BEGIN_IMMEDIATE = begin_sql Immediate" "SQL_SAVEPOINT_MUTATION = savepoint_sql ''__esdb_mutation''"
  "SQL_RELEASE_MUTATION = release_sql ''__esdb_mutation''" "SQL_UNDO_MUTATION = undo_sql ''__esdb_mutation''"
  by (simp_all add: SQL_BEGIN_IMMEDIATE_def SQL_SAVEPOINT_MUTATION_def SQL_RELEASE_MUTATION_def
      SQL_UNDO_MUTATION_def savepoint_sql_def release_sql_def undo_sql_def)

lemma mutation_name: "plain_name ''__esdb_mutation''"
  by code_simp

context sqlite_engine
begin

lemma exec_begin: "sq_exec E SQL_BEGIN_IMMEDIATE d = (rc, m, d') \<Longrightarrow> v_frames (view d) = [] \<Longrightarrow>
    view d' = (if rc = SQLITE_OK then (view d)\<lparr>v_frames := [(F_Begin, v_now (view d))]\<rparr> else view d)"
  using begin_law [of Immediate d rc m d'] by (auto simp: mutation_texts split: if_splits)

lemma exec_commit: "sq_exec E SQL_COMMIT d = (rc, m, d') \<Longrightarrow> v_frames (view d) = [(F_Begin, db)] \<Longrightarrow>
    if rc = SQLITE_OK then view d' = (view d)\<lparr>v_frames := []\<rparr> else quiet_failure (view d) (view d')"
  using commit_law [of d rc m d'] by simp

lemma exec_rollback: "sq_exec E SQL_ROLLBACK d = (rc, m, d') \<Longrightarrow>
    if rc = SQLITE_OK then rolled_back (view d) (view d') else quiet_failure (view d) (view d')"
  by (rule rollback_law)

lemma exec_savepoint: "sq_exec E SQL_SAVEPOINT_MUTATION d = (rc, m, d') \<Longrightarrow> v_frames (view d) \<noteq> [] \<Longrightarrow>
    if rc = SQLITE_OK
    then view d' = (view d)\<lparr>v_frames := (MUTATION_FRAME, v_now (view d)) # v_frames (view d)\<rparr>
    else quiet_failure (view d) (view d')"
  using savepoint_law [of "''__esdb_mutation''" d rc m d'] by (simp add: mutation_texts mutation_name)

lemma exec_release: "sq_exec E SQL_RELEASE_MUTATION d = (rc, m, d') \<Longrightarrow>
    v_frames (view d) = (MUTATION_FRAME, db) # fs \<Longrightarrow> fs \<noteq> [] \<Longrightarrow>
    if rc = SQLITE_OK then view d' = (view d)\<lparr>v_frames := fs\<rparr> else quiet_failure (view d) (view d')"
  using release_law [of "''__esdb_mutation''" d rc m d' db fs] by (simp add: mutation_texts mutation_name)

lemma exec_undo: "sq_exec E SQL_UNDO_MUTATION d = (rc, m, d') \<Longrightarrow>
    v_frames (view d) = (MUTATION_FRAME, db) # fs \<Longrightarrow> fs \<noteq> [] \<Longrightarrow>
    if rc = SQLITE_OK then view d' = \<lparr>v_now = db, v_frames = fs\<rparr> else frame_failure (view d) (view d')"
  using undo_law [of "''__esdb_mutation''" d rc m d' db fs] by (simp add: mutation_texts mutation_name)

lemma exec_undo_outside: "sq_exec E SQL_UNDO_MUTATION d = (rc, m, d') \<Longrightarrow> v_frames (view d) = [] \<Longrightarrow>
    rc \<noteq> SQLITE_OK \<and> view d' = view d"
  using undo_missing_law [of "''__esdb_mutation''" d rc m d'] by (simp add: mutation_texts mutation_name no_savepoint_def)

end

end
