(* ===== verification/Object_Store_Tables.thy ===== *)
theory Object_Store_Tables
  imports Sqlite_Contract
begin

text \<open>
  The tables of the object store as data: the invariant every operation keeps, what a put and a
  delete mean for the records as a map from store and key to value and revision, and how the
  change journal accounts for the records.
\<close>

section \<open>The effect of the statements\<close>

definition with_revision :: "int \<Rightarrow> store_tables \<Rightarrow> store_tables" where
  "with_revision n t = t\<lparr>tb_meta := map_put key_revision (decimal (nat n)) (tb_meta t)\<rparr>"

definition with_store :: "byte list \<Rightarrow> int \<Rightarrow> store_tables \<Rightarrow> store_tables" where
  "with_store name at t =
     (if store_id_of name t \<noteq> None then t
      else t\<lparr>tb_stores := tb_stores t @ [(next_row_id (tb_stores t), name, at)]\<rparr>)"

definition next_revision :: "store_tables \<Rightarrow> int" where
  "next_revision t = max (tb_sequence t + 1) (next_row_id (tb_changes t))"

definition with_change :: "int \<Rightarrow> byte list \<Rightarrow> int \<Rightarrow> int \<Rightarrow> int \<Rightarrow> store_tables \<Rightarrow> store_tables" where
  "with_change s key operation type at t =
     t\<lparr>tb_changes := tb_changes t @ [(next_revision t, \<lparr>cr_store = s, cr_key = key,
         cr_operation = operation, cr_type = type, cr_at = at\<rparr>)],
       tb_sequence := next_revision t\<rparr>"

definition with_record ::
  "int \<Rightarrow> byte list \<Rightarrow> esdb_value \<Rightarrow> int \<Rightarrow> int \<Rightarrow> store_tables \<Rightarrow> store_tables" where
  "with_record s key v revision now t =
     t\<lparr>tb_records := map_put (s, Str key)
        \<lparr>rr_type = sint (ev_type v), rr_payload = ev_payload v, rr_revision = revision,
         rr_created = (case map_of (tb_records t) (s, Str key) of None \<Rightarrow> now | Some r \<Rightarrow> rr_created r),
         rr_updated = now\<rparr> (tb_records t)\<rparr>"

text \<open>The tables after a put that found its store or registered it.\<close>

definition put_tables :: "(nat \<Rightarrow> int) \<Rightarrow> byte list \<Rightarrow> byte list \<Rightarrow> esdb_value \<Rightarrow> store_tables \<Rightarrow> store_tables" where
  "put_tables now name key v t =
     (let t1 = with_store name (now 0) t;
          s = the (store_id_of name t1);
          r = next_revision t1
      in with_revision r (with_record s key v r (now 2)
           (with_change s key ESDB_OBJECT_CHANGE_PUT (sint (ev_type v)) (now 1) t1)))"

lemma store_id_name: "store_id_of name t = Some i \<Longrightarrow> store_name_of i t \<noteq> None"
  by (auto simp: store_id_of_def store_name_of_def find_Some_iff map_of_eq_None_iff image_iff) 
    (metis fst_conv nth_mem)

lemma store_name_frame [simp]:
  "store_name_of i (with_change s key operation type at t) = store_name_of i t"
  "store_name_of i (with_record s key v r now t) = store_name_of i t"
  by (simp_all add: store_name_of_def with_change_def with_record_def)

definition without_record :: "int \<Rightarrow> byte list \<Rightarrow> store_tables \<Rightarrow> store_tables" where
  "without_record s key t = t\<lparr>tb_records := map_erase (s, Str key) (tb_records t)\<rparr>"

text \<open>The tables after a delete that found its record.\<close>

definition delete_tables :: "int \<Rightarrow> byte list \<Rightarrow> byte list \<Rightarrow> store_tables \<Rightarrow> store_tables" where
  "delete_tables now name key t =
     (let s = the (store_id_of name t)
      in with_revision (next_revision t)
           (with_change s key ESDB_OBJECT_CHANGE_DELETE (sint ESDB_VALUE_NULL) now (without_record s key t)))"

lemma without_record_frame [simp]:
  "store_name_of i (without_record s key t) = store_name_of i t"
  "next_revision (without_record s key t) = next_revision t"
  by (simp_all add: store_name_of_def without_record_def next_revision_def)

text \<open>The value a row holds.\<close>

definition row_value :: "record_row \<Rightarrow> esdb_value" where
  "row_value row = \<lparr>ev_type = word_of_int (rr_type row), ev_payload = rr_payload row\<rparr>"

definition types_small :: "store_tables \<Rightarrow> bool" where
  "types_small t \<longleftrightarrow> (\<forall>r \<in> snd ` set (tb_records t). 0 \<le> rr_type r \<and> rr_type r \<le> 8)"

lemma find_record_small:
  assumes "find_record name key t = Some row" and "types_small t"
  shows "- (2 ^ 31) \<le> rr_type row" "rr_type row < 2 ^ 31"
proof -
  from assms(1) obtain i where "map_of (tb_records t) (i, Str key) = Some row"
    by (auto simp: find_record_def split: option.splits)
  then have "row \<in> snd ` set (tb_records t)"
    by (force dest: map_of_SomeD)
  with assms(2) show "- (2 ^ 31) \<le> rr_type row" "rr_type row < 2 ^ 31"
    by (force simp: types_small_def)+
qed

section \<open>The invariant\<close>

text \<open>The newest change of a record in the journal.\<close>

definition newest_change :: "store_tables \<Rightarrow> int \<times> cpp_string \<Rightarrow> (int \<times> change_row) option" where
  "newest_change t k = find (\<lambda>(r, c). (cr_store c, Str (cr_key c)) = k) (rev (tb_changes t))"

text \<open>
  The journal accounts for the records: the newest change of a key is a put exactly when the
  record is there, with the put's revision and type.
\<close>

definition accounts_for :: "(int \<times> change_row) \<Rightarrow> record_row option \<Rightarrow> bool" where
  "accounts_for c rec =
     (if cr_operation (snd c) = ESDB_OBJECT_CHANGE_PUT
      then (\<exists>row. rec = Some row \<and> rr_revision row = fst c \<and> rr_type row = cr_type (snd c))
      else rec = None)"

definition journal_agrees :: "store_tables \<Rightarrow> bool" where
  "journal_agrees t \<longleftrightarrow>
     (\<forall>k c. newest_change t k = Some c \<longrightarrow> accounts_for c (map_of (tb_records t) k))"

definition stores_wf :: "(int \<times> byte list \<times> int) list \<Rightarrow> bool" where
  "stores_wf stores \<longleftrightarrow> distinct (map fst stores) \<and> distinct (map (fst \<circ> snd) stores) \<and>
     (\<forall>s \<in> set stores. 0 < fst s)"

definition records_wf :: "store_tables \<Rightarrow> bool" where
  "records_wf t \<longleftrightarrow> ordered_keys (tb_records t) \<and>
     (\<forall>p \<in> set (tb_records t). store_name_of (fst (fst p)) t \<noteq> None \<and>
        0 \<le> rr_type (snd p) \<and> rr_type (snd p) \<le> 8 \<and>
        0 < rr_revision (snd p) \<and> rr_revision (snd p) \<le> tb_sequence t)"

definition changes_wf :: "store_tables \<Rightarrow> bool" where
  "changes_wf t \<longleftrightarrow> sorted_wrt (<) (map fst (tb_changes t)) \<and>
     (\<forall>c \<in> set (tb_changes t). 0 < fst c \<and> fst c \<le> tb_sequence t \<and>
        store_name_of (cr_store (snd c)) t \<noteq> None \<and> 0 \<le> cr_type (snd c) \<and> cr_type (snd c) \<le> 8 \<and>
        cr_operation (snd c) \<in> {ESDB_OBJECT_CHANGE_PUT, ESDB_OBJECT_CHANGE_DELETE})"

definition meta_wf :: "store_tables \<Rightarrow> bool" where
  "meta_wf t \<longleftrightarrow> ordered_keys (tb_meta t) \<and> map_of (tb_meta t) key_revision = Some (decimal (nat (tb_sequence t))) \<and>
     map_of (tb_meta t) key_version = Some [49]"

definition store_wf :: "store_tables \<Rightarrow> bool" where
  "store_wf t \<longleftrightarrow> stores_wf (tb_stores t) \<and> records_wf t \<and> changes_wf t \<and> meta_wf t \<and>
     0 \<le> tb_sequence t \<and> tb_sequence t \<le> sql_max \<and> journal_agrees t"

section \<open>The records as a map\<close>

definition store_contents :: "store_tables \<Rightarrow> (byte list \<times> byte list) \<rightharpoonup> (esdb_value \<times> int)" where
  "store_contents t = (\<lambda>(name, key). map_option (\<lambda>r. (row_value r, rr_revision r)) (find_record name key t))"

lemma store_id_of_Some:
  "store_id_of name t = Some i \<Longrightarrow> \<exists>at. (i, name, at) \<in> set (tb_stores t)"
  by (auto simp: store_id_of_def find_Some_iff) (metis nth_mem)

lemma store_id_of_None: "store_id_of name t = None \<longleftrightarrow> name \<notin> (fst \<circ> snd) ` set (tb_stores t)"
  by (force simp: store_id_of_def find_None_iff)

lemma store_id_of_mem:
  assumes "stores_wf (tb_stores t)" and "(i, name, at) \<in> set (tb_stores t)"
  shows "store_id_of name t = Some i"
proof (cases "store_id_of name t")
  case None
  with assms(2) show ?thesis by (force simp: store_id_of_None)
next
  case (Some j)
  from store_id_of_Some [OF this] obtain at' where "(j, name, at') \<in> set (tb_stores t)" by blast
  with assms have "(j, name, at') = (i, name, at)"
    unfolding stores_wf_def by (metis (mono_tags, lifting) comp_apply distinct_map fst_conv inj_onD snd_conv)
  with Some show ?thesis by simp
qed

lemma store_id_of_inj:
  assumes "stores_wf (tb_stores t)" and "store_id_of name t = Some i" and "store_id_of name' t = Some i"
  shows "name' = name"
proof -
  from assms(2,3) obtain at at' where "(i, name, at) \<in> set (tb_stores t)" "(i, name', at') \<in> set (tb_stores t)"
    using store_id_of_Some by blast
  with assms(1) have "(i, name, at) = (i, name', at')"
    unfolding stores_wf_def by (metis distinct_map fst_conv inj_onD)
  then show ?thesis by simp
qed

lemma next_row_id_above: "p \<in> set rows \<Longrightarrow> fst p < next_row_id rows"
  by (induction rows) (fastforce simp: next_row_id_def)+

lemma next_row_id_bound: "\<forall>p \<in> set rows. fst p \<le> n \<Longrightarrow> 0 \<le> n \<Longrightarrow> next_row_id rows \<le> n + 1"
  by (induction rows) (auto simp: next_row_id_def)

lemma next_row_id_positive: "0 < next_row_id rows"
  by (induction rows) (auto simp: next_row_id_def)

lemma next_revision_wf: "store_wf t \<Longrightarrow> next_revision t = tb_sequence t + 1"
  unfolding store_wf_def changes_wf_def next_revision_def
  using next_row_id_bound [of "tb_changes t" "tb_sequence t"] by (simp add: max_def)

section \<open>Frames\<close>

lemma table_frames [simp]:
  "tb_stores (with_revision n t) = tb_stores t" "tb_records (with_revision n t) = tb_records t"
  "tb_changes (with_revision n t) = tb_changes t" "tb_sequence (with_revision n t) = tb_sequence t"
  "tb_stores (with_change s key operation type at t) = tb_stores t"
  "tb_records (with_change s key operation type at t) = tb_records t"
  "tb_sequence (with_change s key operation type at t) = next_revision t"
  "tb_meta (with_change s key operation type at t) = tb_meta t"
  "tb_stores (with_record s key v r now t) = tb_stores t"
  "tb_changes (with_record s key v r now t) = tb_changes t"
  "tb_sequence (with_record s key v r now t) = tb_sequence t"
  "tb_meta (with_record s key v r now t) = tb_meta t"
  "tb_records (with_store name at t) = tb_records t" "tb_changes (with_store name at t) = tb_changes t"
  "tb_sequence (with_store name at t) = tb_sequence t" "tb_meta (with_store name at t) = tb_meta t"
  "tb_stores (without_record s key t) = tb_stores t" "tb_changes (without_record s key t) = tb_changes t"
  "tb_sequence (without_record s key t) = tb_sequence t" "tb_meta (without_record s key t) = tb_meta t"
  by (simp_all add: with_revision_def with_change_def with_record_def with_store_def without_record_def)

lemma next_revision_with_store [simp]: "next_revision (with_store name at t) = next_revision t"
  by (simp add: next_revision_def)

lemma store_id_of_frame: "tb_stores t' = tb_stores t \<Longrightarrow> store_id_of name t' = store_id_of name t"
  and store_name_of_frame: "tb_stores t' = tb_stores t \<Longrightarrow> store_name_of i t' = store_name_of i t"
  and newest_change_frame: "tb_changes t' = tb_changes t \<Longrightarrow> newest_change t' k = newest_change t k"
  by (simp_all add: store_id_of_def store_name_of_def newest_change_def)

lemma find_record_frame:
  "tb_stores t' = tb_stores t \<Longrightarrow> tb_records t' = tb_records t \<Longrightarrow> find_record name key t' = find_record name key t"
  by (simp add: find_record_def store_id_of_frame [of t' t] split: option.splits)

section \<open>Registering a store\<close>

lemma find_append: "find P (xs @ ys) = (case find P xs of None \<Rightarrow> find P ys | Some x \<Rightarrow> Some x)"
  by (induction xs) auto

lemma store_id_with_store:
  "store_id_of name' (with_store name at t) =
     (if name' = name \<and> store_id_of name t = None then Some (next_row_id (tb_stores t)) else store_id_of name' t)"
  by (auto simp: with_store_def store_id_of_def find_append split: option.splits)

lemma store_name_with_store:
  assumes "stores_wf (tb_stores t)" and "store_name_of i t \<noteq> None"
  shows "store_name_of i (with_store name at t) = store_name_of i t"
  using assms by (auto simp: with_store_def store_name_of_def map_add_def split: option.splits)

lemma registered: "\<exists>i. store_id_of name (with_store name at t) = Some i"
  by (simp add: store_id_with_store)

lemma stores_wf_with_store:
  assumes "stores_wf (tb_stores t)"
  shows "stores_wf (tb_stores (with_store name at t))"
proof (cases "store_id_of name t")
  case None
  have "next_row_id (tb_stores t) \<notin> fst ` set (tb_stores t)"
    using next_row_id_above by fastforce
  with assms None next_row_id_positive [of "tb_stores t"] show ?thesis
    by (auto simp: stores_wf_def with_store_def store_id_of_None)
next
  case (Some i)
  with assms show ?thesis by (simp add: with_store_def)
qed

lemma store_wf_with_store:
  assumes "store_wf t"
  shows "store_wf (with_store name at t)"
proof -
  have stores: "stores_wf (tb_stores t)" using assms by (simp add: store_wf_def)
  with assms show ?thesis
    using stores_wf_with_store [OF stores, of name at] store_name_with_store [OF stores, of _ name at]
    unfolding store_wf_def records_wf_def changes_wf_def meta_wf_def journal_agrees_def
    by (simp add: newest_change_frame [of "with_store name at t" t])
qed

lemma find_record_with_store:
  assumes "store_wf t"
  shows "find_record name' key (with_store name at t) = find_record name' key t"
proof (cases "name' = name \<and> store_id_of name t = None")
  case True
  have "map_of (tb_records t) (next_row_id (tb_stores t), Str key) = None"
  proof (rule ccontr)
    assume "map_of (tb_records t) (next_row_id (tb_stores t), Str key) \<noteq> None"
    then obtain row where "((next_row_id (tb_stores t), Str key), row) \<in> set (tb_records t)"
      by (auto dest: map_of_SomeD)
    with assms have "store_name_of (next_row_id (tb_stores t)) t \<noteq> None"
      by (fastforce simp: store_wf_def records_wf_def)
    then obtain x where "(next_row_id (tb_stores t), x) \<in> set (tb_stores t)"
      by (auto simp: store_name_of_def dest: map_of_SomeD)
    from next_row_id_above [OF this] show False by simp
  qed
  with True show ?thesis
    by (simp add: find_record_def store_id_with_store)
next
  case False
  then show ?thesis
    by (auto simp: find_record_def store_id_with_store split: option.splits)
qed

section \<open>Putting\<close>

lemma valid_type_int:
  assumes "valid_value_type w"
  shows "0 \<le> sint w" and "sint w \<le> 8"
proof -
  from assms have bound: "uint w \<le> 8"
    by (simp add: valid_value_type_def word_le_def)
  then have "sint w = uint w"
    unfolding sint_uint using order_trans [OF _ uint_ge_0, of "- (2 ^ 31)" w]
    by (intro signed_take_bit_int_eq_self) simp_all
  with bound show "0 \<le> sint w" and "sint w \<le> 8" by simp_all
qed

lemma newest_with_change:
  "newest_change (with_change s key operation type at t) k =
     (if k = (s, Str key)
      then Some (next_revision t, \<lparr>cr_store = s, cr_key = key, cr_operation = operation, cr_type = type, cr_at = at\<rparr>)
      else newest_change t k)"
  by (auto simp: newest_change_def with_change_def)

lemma changes_wf_with_change:
  assumes "changes_wf t" and "next_revision t = tb_sequence t + 1" and "0 \<le> tb_sequence t"
    and "store_name_of s t \<noteq> None" and "operation \<in> {ESDB_OBJECT_CHANGE_PUT, ESDB_OBJECT_CHANGE_DELETE}"
    and "0 \<le> type" and "type \<le> 8"
  shows "changes_wf (with_change s key operation type at t)"
  using assms unfolding changes_wf_def
  by (force simp: with_change_def sorted_wrt_append store_name_of_def)

lemma meta_wf_with_revision:
  "map_of (tb_meta t) key_version = Some [49] \<Longrightarrow> tb_sequence t = n \<Longrightarrow> ordered_keys (tb_meta t) \<Longrightarrow>
     meta_wf (with_revision n t)"
  by (simp add: meta_wf_def with_revision_def map_of_map_put ordered_map_put key_version_def key_revision_def ascii_def)


lemma ordered_with_record: "ordered_keys (tb_records t) \<Longrightarrow> ordered_keys (tb_records (with_record s key v r now t))"
  by (simp add: with_record_def ordered_map_put)

lemma map_of_with_record:
  "ordered_keys (tb_records t) \<Longrightarrow> map_of (tb_records (with_record s key v r now t)) =
     (map_of (tb_records t))((s, Str key) \<mapsto>
       \<lparr>rr_type = sint (ev_type v), rr_payload = ev_payload v, rr_revision = r,
        rr_created = (case map_of (tb_records t) (s, Str key) of None \<Rightarrow> now | Some r \<Rightarrow> rr_created r),
        rr_updated = now\<rparr>)"
  by (simp add: with_record_def map_of_map_put)

lemma row_value_stored [simp]:
  "row_value \<lparr>rr_type = sint (ev_type v), rr_payload = ev_payload v, rr_revision = r, rr_created = c,
     rr_updated = u\<rparr> = v"
  by (simp add: row_value_def)

text \<open>The tables between the registration and the revision of a put.\<close>

definition put_rows :: "int \<Rightarrow> int \<Rightarrow> int \<Rightarrow> byte list \<Rightarrow> esdb_value \<Rightarrow> store_tables \<Rightarrow> store_tables" where
  "put_rows at now s key v t =
     with_record s key v (next_revision t) now
       (with_change s key ESDB_OBJECT_CHANGE_PUT (sint (ev_type v)) at t)"

lemma put_tables_rows:
  "put_tables now name key v t =
     with_revision (next_revision t)
       (put_rows (now 1) (now 2) (the (store_id_of name (with_store name (now 0) t))) key v
         (with_store name (now 0) t))"
  by (simp add: put_tables_def put_rows_def Let_def)

lemma records_wf_put_rows:
  assumes "store_wf t" and "valid_value_type (ev_type v)" and "store_name_of s t \<noteq> None"
  shows "records_wf (put_rows at now s key v t)"
proof -
  have t: "ordered_keys (tb_records t)" "next_revision t = tb_sequence t + 1" "0 \<le> tb_sequence t"
    using assms(1) next_revision_wf by (auto simp: store_wf_def records_wf_def)
  have old: "store_name_of (fst (fst p)) t \<noteq> None \<and> 0 \<le> rr_type (snd p) \<and> rr_type (snd p) \<le> 8 \<and>
      0 < rr_revision (snd p) \<and> rr_revision (snd p) \<le> tb_sequence t + 1" if "p \<in> set (tb_records t)" for p
    using assms(1) that unfolding store_wf_def records_wf_def by force
  have "p \<in> set (tb_records t) \<or> fst p = (s, Str key) \<and> rr_type (snd p) = sint (ev_type v) \<and>
      rr_revision (snd p) = tb_sequence t + 1"
    if "p \<in> set (tb_records (put_rows at now s key v t))" for p
    using that set_map_put [of "(s, Str key)"] t(2)
    by (fastforce simp: put_rows_def with_record_def)
  then have "store_name_of (fst (fst p)) t \<noteq> None \<and> 0 \<le> rr_type (snd p) \<and> rr_type (snd p) \<le> 8 \<and>
      0 < rr_revision (snd p) \<and> rr_revision (snd p) \<le> tb_sequence t + 1"
    if "p \<in> set (tb_records (put_rows at now s key v t))" for p
    using that old assms(3) valid_type_int [OF assms(2)] t by fastforce
  moreover have "tb_sequence (put_rows at now s key v t) = tb_sequence t + 1"
    "store_name_of i (put_rows at now s key v t) = store_name_of i t" for i
    using t(2) by (simp_all add: put_rows_def)
  ultimately show ?thesis
    using t(1) unfolding records_wf_def by (simp add: put_rows_def ordered_with_record)
qed

lemma journal_agrees_put_rows:
  assumes "store_wf t"
  shows "journal_agrees (put_rows at now s key v t)"
  unfolding journal_agrees_def
proof (intro allI impI)
  fix k c
  assume n: "newest_change (put_rows at now s key v t) k = Some c"
  have ordered: "ordered_keys (tb_records t)"
    using assms by (simp add: store_wf_def records_wf_def)
  have n': "newest_change (put_rows at now s key v t) k =
      newest_change (with_change s key ESDB_OBJECT_CHANGE_PUT (sint (ev_type v)) at t) k"
    by (rule newest_change_frame) (simp add: put_rows_def)
  show "accounts_for c (map_of (tb_records (put_rows at now s key v t)) k)"
  proof (cases "k = (s, Str key)")
    case True
    with n n' ordered show ?thesis
      by (auto simp: newest_with_change put_rows_def map_of_with_record accounts_for_def)
  next
    case False
    with n n' have "newest_change t k = Some c" by (simp add: newest_with_change)
    with assms have "accounts_for c (map_of (tb_records t) k)"
      unfolding store_wf_def journal_agrees_def by blast
    with False ordered show ?thesis
      by (simp add: put_rows_def map_of_with_record)
  qed
qed

lemma store_wf_put_rows:
  assumes "store_wf t" and "valid_value_type (ev_type v)" and "store_name_of s t \<noteq> None"
    and "next_revision t \<le> sql_max"
  shows "store_wf (with_revision (next_revision t) (put_rows at now s key v t))"
proof -
  let ?t = "with_revision (next_revision t) (put_rows at now s key v t)"
  have seq: "next_revision t = tb_sequence t + 1" "0 \<le> tb_sequence t"
    using assms(1) next_revision_wf by (auto simp: store_wf_def)
  have "changes_wf (with_change s key ESDB_OBJECT_CHANGE_PUT (sint (ev_type v)) at t)"
    using assms(1,3) seq valid_type_int [OF assms(2)]
    by (intro changes_wf_with_change) (auto simp: store_wf_def)
  then have "changes_wf ?t"
    by (simp add: changes_wf_def put_rows_def store_name_of_def)
  moreover have "records_wf ?t"
    using records_wf_put_rows [OF assms(1-3), of at now key]
    by (simp add: records_wf_def store_name_of_def)
  moreover have "meta_wf ?t"
    using assms(1) by (intro meta_wf_with_revision) (auto simp: store_wf_def meta_wf_def put_rows_def)
  moreover have "journal_agrees ?t"
    using journal_agrees_put_rows [OF assms(1), of at now s key v]
    by (simp add: journal_agrees_def newest_change_frame [of ?t "put_rows at now s key v t"])
  moreover have "stores_wf (tb_stores ?t)" "tb_sequence ?t = next_revision t"
    using assms(1) by (simp_all add: store_wf_def put_rows_def)
  ultimately show ?thesis
    using assms(4) seq by (simp add: store_wf_def)
qed

lemma store_wf_put_tables:
  assumes "store_wf t" and "valid_value_type (ev_type v)" and "next_revision t \<le> sql_max"
  shows "store_wf (put_tables now name key v t)" and "tb_sequence (put_tables now name key v t) = tb_sequence t + 1"
proof -
  let ?t1 = "with_store name (now 0) t"
  have wf1: "store_wf ?t1" using assms(1) by (rule store_wf_with_store)
  obtain s where s: "store_id_of name ?t1 = Some s" using registered [of name "now 0" t] by blast
  from store_wf_put_rows [OF wf1 assms(2) store_id_name [OF s], of "now 1" "now 2" key] assms(3) s
  show "store_wf (put_tables now name key v t)"
    by (simp add: put_tables_rows)
  show "tb_sequence (put_tables now name key v t) = tb_sequence t + 1"
    using next_revision_wf [OF assms(1)] by (simp add: put_tables_rows put_rows_def)
qed

lemma contents_put_tables:
  assumes "store_wf t"
  shows "store_contents (put_tables now name key v t) = (store_contents t)((name, key) \<mapsto> (v, tb_sequence t + 1))"
proof (rule ext, clarify)
  fix name' key'
  let ?t1 = "with_store name (now 0) t"
  let ?t2 = "put_tables now name key v t"
  have wf1: "store_wf ?t1" using assms by (rule store_wf_with_store)
  then have o1: "ordered_keys (tb_records ?t1)" and stores1: "stores_wf (tb_stores ?t1)"
    by (simp_all add: store_wf_def records_wf_def)
  obtain s where s: "store_id_of name ?t1 = Some s" using registered [of name "now 0" t] by blast
  have ids: "store_id_of n ?t2 = store_id_of n ?t1" for n
    by (rule store_id_of_frame) (simp add: put_tables_rows put_rows_def)
  obtain row where recs: "map_of (tb_records ?t2) = (map_of (tb_records t))((s, Str key) \<mapsto> row)"
    and row: "row_value row = v" "rr_revision row = tb_sequence t + 1"
    using o1 s next_revision_wf [OF assms] by (simp add: put_tables_rows put_rows_def map_of_with_record)
  show "store_contents ?t2 (name', key') = ((store_contents t)((name, key) \<mapsto> (v, tb_sequence t + 1))) (name', key')"
  proof (cases "name' = name \<and> key' = key")
    case True
    with ids s recs row show ?thesis
      by (auto simp: store_contents_def find_record_def)
  next
    case False
    then have "find_record name' key' ?t2 = find_record name' key' ?t1"
      using ids recs s store_id_of_inj [OF stores1 s]
      by (auto simp: find_record_def split: option.splits)
    with False find_record_with_store [OF assms] show ?thesis
      by (auto simp: store_contents_def)
  qed
qed

section \<open>Deleting\<close>

definition delete_rows :: "int \<Rightarrow> int \<Rightarrow> byte list \<Rightarrow> store_tables \<Rightarrow> store_tables" where
  "delete_rows at s key t =
     with_change s key ESDB_OBJECT_CHANGE_DELETE (sint ESDB_VALUE_NULL) at (without_record s key t)"

lemma delete_tables_rows:
  "delete_tables now name key t =
     with_revision (next_revision t) (delete_rows now (the (store_id_of name t)) key t)"
  by (simp add: delete_tables_def delete_rows_def Let_def)

lemma map_of_without_record:
  "ordered_keys (tb_records t) \<Longrightarrow>
     map_of (tb_records (without_record s key t)) = (map_of (tb_records t))((s, Str key) := None)"
  by (simp add: without_record_def map_of_map_erase)

lemma delete_rows_frames [simp]:
  "tb_stores (delete_rows at s key t) = tb_stores t"
  "tb_records (delete_rows at s key t) = tb_records (without_record s key t)"
  "tb_meta (delete_rows at s key t) = tb_meta t" "tb_sequence (delete_rows at s key t) = next_revision t"
  by (simp_all add: delete_rows_def)

lemma newest_delete_rows:
  "newest_change (delete_rows at s key t) k =
     (if k = (s, Str key)
      then Some (next_revision t, \<lparr>cr_store = s, cr_key = key, cr_operation = ESDB_OBJECT_CHANGE_DELETE,
        cr_type = sint ESDB_VALUE_NULL, cr_at = at\<rparr>)
      else newest_change t k)"
  using newest_change_frame [of "without_record s key t" t k]
  by (simp add: delete_rows_def newest_with_change)

lemma store_wf_delete_tables:
  assumes "store_wf t" and "store_id_of name t \<noteq> None" and "next_revision t \<le> sql_max"
  shows "store_wf (delete_tables now name key t)" and "tb_sequence (delete_tables now name key t) = tb_sequence t + 1"
proof -
  obtain s where s: "store_id_of name t = Some s" using assms(2) by blast
  let ?rows = "delete_rows now s key t"
  let ?t = "with_revision (next_revision t) ?rows"
  have seq: "next_revision t = tb_sequence t + 1" "0 \<le> tb_sequence t" and o: "ordered_keys (tb_records t)"
    using assms(1) next_revision_wf by (auto simp: store_wf_def records_wf_def)
  have "changes_wf (without_record s key t)"
    using assms(1) by (simp add: store_wf_def changes_wf_def store_name_of_def)
  then have "changes_wf ?rows"
    using seq store_id_name [OF s] unfolding delete_rows_def by (intro changes_wf_with_change) auto
  then have "changes_wf ?t"
    by (simp add: changes_wf_def store_name_of_def)
  moreover have "store_name_of (fst (fst p)) t \<noteq> None \<and> 0 \<le> rr_type (snd p) \<and> rr_type (snd p) \<le> 8 \<and>
      0 < rr_revision (snd p) \<and> rr_revision (snd p) \<le> next_revision t"
    if "p \<in> set (tb_records ?t)" for p
  proof -
    from that have "p \<in> set (tb_records t)"
      using set_map_erase [of "(s, Str key)" "tb_records t"] by (auto simp: without_record_def)
    with assms(1) seq show ?thesis
      unfolding store_wf_def records_wf_def by force
  qed
  then have "records_wf ?t"
    using o unfolding records_wf_def
    by (simp add: without_record_def ordered_map_erase store_name_of_def)
  moreover have "meta_wf ?t"
    using assms(1) by (intro meta_wf_with_revision) (auto simp: store_wf_def meta_wf_def)
  moreover have "accounts_for c (map_of (tb_records ?t) k)" if "newest_change ?t k = Some c" for k c
  proof (cases "k = (s, Str key)")
    case True
    with that o show ?thesis
      by (auto simp: newest_change_frame [of ?t ?rows] newest_delete_rows map_of_without_record accounts_for_def)
  next
    case False
    with that have "newest_change t k = Some c"
      by (simp add: newest_change_frame [of ?t ?rows] newest_delete_rows)
    with assms(1) have "accounts_for c (map_of (tb_records t) k)"
      unfolding store_wf_def journal_agrees_def by blast
    with False o show ?thesis by (simp add: map_of_without_record)
  qed
  then have "journal_agrees ?t" by (simp add: journal_agrees_def)
  moreover have "stores_wf (tb_stores ?t)" using assms(1) by (simp add: store_wf_def)
  ultimately show "store_wf (delete_tables now name key t)"
    using assms(3) seq s by (simp add: store_wf_def delete_tables_rows)
  show "tb_sequence (delete_tables now name key t) = tb_sequence t + 1"
    using seq by (simp add: delete_tables_rows)
qed

lemma contents_delete_tables:
  assumes "store_wf t" and "store_id_of name t \<noteq> None"
  shows "store_contents (delete_tables now name key t) = (store_contents t)((name, key) := None)"
proof (rule ext, clarify)
  fix name' key'
  obtain s where s: "store_id_of name t = Some s" using assms(2) by blast
  have o: "ordered_keys (tb_records t)" and stores: "stores_wf (tb_stores t)"
    using assms(1) by (simp_all add: store_wf_def records_wf_def)
  let ?t = "delete_tables now name key t"
  have ids: "store_id_of n ?t = store_id_of n t" for n
    by (rule store_id_of_frame) (simp add: delete_tables_rows)
  have recs: "map_of (tb_records ?t) = (map_of (tb_records t))((s, Str key) := None)"
    using s o by (simp add: delete_tables_rows map_of_without_record)
  show "store_contents ?t (name', key') = ((store_contents t)((name, key) := None)) (name', key')"
  proof (cases "store_id_of name' t")
    case None
    with ids s show ?thesis by (auto simp: store_contents_def find_record_def)
  next
    case (Some i)
    then have "i = s \<longleftrightarrow> name' = name"
      using s store_id_of_inj [OF stores s, of name'] by auto
    with Some ids recs show ?thesis by (auto simp: store_contents_def find_record_def)
  qed
qed

section \<open>Pruning\<close>

definition pruned :: "int \<Rightarrow> store_tables \<Rightarrow> store_tables" where
  "pruned through t = t\<lparr>tb_changes := filter (\<lambda>c. \<not> fst c \<le> through) (tb_changes t)\<rparr>"

lemma pruned_frames [simp]:
  "tb_stores (pruned n t) = tb_stores t" "tb_records (pruned n t) = tb_records t"
  "tb_meta (pruned n t) = tb_meta t" "tb_sequence (pruned n t) = tb_sequence t"
  by (simp_all add: pruned_def)

text \<open>A key's newest change survives a pruning unless the pruning reaches it.\<close>

lemma find_filter_decreasing:
  assumes "sorted_wrt (>) (map fst xs)" and "find P (filter (\<lambda>c. \<not> fst c \<le> (n :: int)) xs) = Some c"
  shows "find P xs = Some c"
  using assms
proof (induction xs)
  case (Cons x xs)
  show ?case
  proof (cases "fst x \<le> n")
    case True
    with Cons.prems(1) have "filter (\<lambda>c. \<not> fst c \<le> n) (x # xs) = []"
      by (force simp: filter_empty_conv)
    with Cons.prems(2) show ?thesis by simp
  next
    case False
    with Cons show ?thesis by (auto split: if_splits)
  qed
qed simp

lemma newest_pruned:
  assumes "changes_wf t" and "newest_change (pruned n t) k = Some c"
  shows "newest_change t k = Some c"
  using assms find_filter_decreasing [of "rev (tb_changes t)" _ n]
  by (simp add: newest_change_def pruned_def changes_wf_def rev_filter sorted_wrt_rev rev_map [symmetric])

lemma store_wf_pruned:
  assumes "store_wf t"
  shows "store_wf (pruned n t)" and "store_contents (pruned n t) = store_contents t"
proof -
  have c: "changes_wf t" using assms by (simp add: store_wf_def)
  then have "changes_wf (pruned n t)"
    using sorted_wrt_filter [of "\<lambda>x y. fst x < fst y" "tb_changes t" "\<lambda>c. \<not> fst c \<le> n"]
    by (auto simp: changes_wf_def pruned_def sorted_wrt_map store_name_of_def)
  moreover have "journal_agrees (pruned n t)"
    using assms newest_pruned [OF c] unfolding store_wf_def journal_agrees_def by simp
  ultimately show "store_wf (pruned n t)"
    using assms by (simp add: store_wf_def records_wf_def meta_wf_def store_name_of_def)
  show "store_contents (pruned n t) = store_contents t"
    by (rule ext) (simp add: store_contents_def find_record_frame [of "pruned n t" t])
qed

section \<open>Revision texts\<close>

lemma decimal_digits: "b \<in> set (decimal n) \<Longrightarrow> 48 \<le> b \<and> b \<le> 57"
proof (induction n rule: decimal.induct)
  case (1 n)
  have digit: "48 \<le> (of_nat (48 + m) :: byte) \<and> (of_nat (48 + m) :: byte) \<le> 57" if "m < 10" for m
  proof -
    from that have "m \<in> {0, 1, 2, 3, 4, 5, 6, 7, 8, 9}" by auto
    then show ?thesis by auto
  qed
  show ?case
  proof (cases "n < 10")
    case True
    with 1(2) digit [of n] show ?thesis by (simp add: decimal.simps [of n])
  next
    case False
    with 1 digit [of "n mod 10"] show ?thesis by (auto simp: decimal.simps [of n])
  qed
qed

lemma decimal_not_empty [simp]: "decimal n \<noteq> []"
  by (simp add: decimal.simps [of n])


text \<open>The number the digits of a text stand for.\<close>

definition digits_value :: "nat \<Rightarrow> byte list \<Rightarrow> nat" where
  "digits_value v ds = foldl (\<lambda>v d. v * 10 + unat (d - 48)) v ds"

lemma digits_value_simps [simp]:
  "digits_value v [] = v" "digits_value v (d # ds) = digits_value (v * 10 + unat (d - 48)) ds"
  "digits_value v (ds @ [d]) = digits_value v ds * 10 + unat (d - 48)"
  by (simp_all add: digits_value_def)

lemma digits_value_mono: "v \<le> digits_value v ds"
proof (induction ds arbitrary: v)
  case (Cons d ds)
  have "v \<le> v * 10 + unat (d - 48)" by simp
  also have "\<dots> \<le> digits_value (v * 10 + unat (d - 48)) ds" by (rule Cons.IH)
  finally show ?case by simp
qed simp

lemma digit_nat:
  assumes "m < 10"
  shows "unat ((of_nat (48 + m) :: byte) - 48) = m"
proof -
  from assms have "m \<in> {0, 1, 2, 3, 4, 5, 6, 7, 8, 9}" by auto
  then show ?thesis by auto
qed

lemma digits_value_decimal: "digits_value 0 (decimal n) = n"
proof (induction n rule: decimal.induct)
  case (1 n)
  then show ?case
    using digit_nat [of n] digit_nat [of "n mod 10"] by (auto simp: decimal.simps [of n] simp del: of_nat_add)
qed

lemma parse_digits_value:
  assumes "\<forall>d \<in> set ds. 48 \<le> d \<and> d \<le> 57" and "unat v \<le> 2 ^ 63 - 1"
  shows "parse_digits v ds =
    (if digits_value (unat v) ds \<le> 2 ^ 63 - 1 then Some (of_nat (digits_value (unat v) ds)) else None)"
  using assms
proof (induction ds arbitrary: v)
  case Nil
  then show ?case by simp
next
  case (Cons d ds)
  from Cons.prems(1) have d: "48 \<le> d" "d \<le> 57" "d \<noteq> 0" "\<not> d < 48" "\<not> 57 < d"
    by (auto simp: not_less)
  let ?d = "ucast (d - 48) :: u64"
  have small: "unat (d - 48) \<le> 9"
    using d by (simp add: word_le_nat_alt unat_sub)
  have du: "unat ?d = unat (d - 48)"
    using small by (simp add: unsigned_ucast_eq take_bit_nat_eq_self)
  have sub: "unat (ESDB_REVISION_MAX - ?d) = 2 ^ 63 - 1 - unat (d - 48)"
    using small du by (simp add: unat_sub word_le_nat_alt)
  have guard: "(ESDB_REVISION_MAX - ?d) div 10 < v \<longleftrightarrow> 2 ^ 63 - 1 < unat v * 10 + unat (d - 48)"
    using small sub by (simp add: word_less_nat_alt unat_div)  linarith
  show ?case
  proof (cases "2 ^ 63 - 1 < unat v * 10 + unat (d - 48)")
    case True
    with digits_value_mono [of "unat v * 10 + unat (d - 48)" ds] d guard show ?thesis
      by (simp add: Let_def)
  next
    case False
    have stepped: "unat (v * 10 + ?d) = unat v * 10 + unat (d - 48)"
      using False du by (simp add: unat_word_ariths)
    with False Cons.IH [of "v * 10 + ?d"] Cons.prems d guard show ?thesis
      by (simp add: Let_def)
  qed
qed


lemma parse_digits_needs_digits:
  "parse_digits v ds = Some r \<Longrightarrow> 0 \<notin> set ds \<Longrightarrow> \<forall>d \<in> set ds. 48 \<le> d \<and> d \<le> 57"
proof (induction ds arbitrary: v)
  case (Cons d ds)
  then have d: "d \<noteq> 0" by auto
  with Cons.prems have "\<not> (d < 48 \<or> 57 < d)"
    by (auto split: if_splits)
  moreover from this d Cons.prems obtain v' where "parse_digits v' ds = Some r"
    unfolding parse_digits.simps(2) Let_def by (metis option.distinct(1))
  ultimately show ?case
    using Cons.IH Cons.prems(2) by (auto simp: not_less)
qed simp

lemma parse_digits_c_bytes: "parse_digits v s = parse_digits v (c_bytes s)"
  by (induction v s rule: parse_digits.induct) (auto simp: Let_def)

lemma digits_value_positive:
  "\<forall>d \<in> set ds. 48 \<le> d \<and> d \<le> 57 \<Longrightarrow> ds \<noteq> [] \<Longrightarrow> hd ds \<noteq> 48 \<Longrightarrow> 0 < digits_value 0 ds"
proof (cases ds)
  case (Cons d ds')
  assume "\<forall>d \<in> set ds. 48 \<le> d \<and> d \<le> 57" and "hd ds \<noteq> 48"
  with Cons have "unat (d - 48) \<noteq> 0"
    by (auto simp: unat_eq_0)
  with Cons digits_value_mono [of "unat (d - 48)" ds'] show ?thesis by simp
qed simp

text \<open>A text without a leading zero is the decimal of its value.\<close>

lemma decimal_of_digits:
  assumes "\<forall>d \<in> set ds. 48 \<le> d \<and> d \<le> 57" and "ds \<noteq> []" and "hd ds \<noteq> 48 \<or> tl ds = []"
  shows "decimal (digits_value 0 ds) = ds"
  using assms
proof (induction ds rule: rev_induct)
  case (snoc d ds)
  have d: "48 \<le> d" "d \<le> 57" using snoc.prems(1) by auto
  have small: "unat (d - 48) < 10"
    using d by (simp add: word_le_nat_alt unat_sub)
  have same: "(of_nat (48 + unat (d - 48)) :: byte) = d"
    by simp
  show ?case
  proof (cases "ds = []")
    case True
    with small same show ?thesis by (simp add: decimal.simps [of "unat (d - 48)"])
  next
    case False
    then have h: "hd ds \<noteq> 48" using snoc.prems(3) by (cases ds) auto
    have "0 < digits_value 0 ds"
      using snoc.prems(1) False h by (intro digits_value_positive) auto
    moreover have "decimal (digits_value 0 ds) = ds"
      using snoc False h by auto
    moreover have "(digits_value 0 ds * 10 + unat (d - 48)) div 10 = digits_value 0 ds"
      "(digits_value 0 ds * 10 + unat (d - 48)) mod 10 = unat (d - 48)"
      using small by simp_all
    ultimately show ?thesis
      using same by (simp add: decimal.simps [of "digits_value 0 ds * 10 + unat (d - 48)"])
  qed
qed simp

lemma decimal_no_leading_zero: "hd (decimal n) \<noteq> 48 \<or> tl (decimal n) = []"
proof (induction n rule: decimal.induct)
  case (1 n)
  show ?case
  proof (cases "n < 10")
    case True
    then show ?thesis by (simp add: decimal.simps [of n])
  next
    case False
    then have "n div 10 \<noteq> 0" by auto
    have "hd (decimal (n div 10)) \<noteq> 48"
    proof
      assume "hd (decimal (n div 10)) = 48"
      with 1 False have "decimal (n div 10) = [48]" by (cases "decimal (n div 10)") auto
      with digits_value_decimal [of "n div 10"] \<open>n div 10 \<noteq> 0\<close> show False by simp
    qed
    with False show ?thesis by (simp add: decimal.simps [of n])
  qed
qed

lemma c_bytes_decimal [simp]: "c_bytes (decimal n) = decimal n"
  using decimal_digits [of 0 n] by (auto simp: takeWhile_eq_all_conv)

lemma parse_revision_text_iff:
  "parse_revision_text s0 = Some r \<longleftrightarrow>
     (\<exists>s. s0 = Some s \<and> c_bytes s = decimal (unat r) \<and> unat r \<le> 2 ^ 63 - 1)"
proof (cases s0)
  case None
  then show ?thesis by (simp add: parse_revision_text_def)
next
  case (Some s)
  let ?ds = "c_bytes s"
  have guard: "parse_revision_text (Some s) =
      (if ?ds = [] \<or> hd ?ds = 48 \<and> tl ?ds \<noteq> [] then None else parse_digits 0 ?ds)"
    unfolding parse_digits_c_bytes [of 0 s, symmetric]
    by (cases s; cases "tl s") (auto simp: parse_revision_text_def simp del: parse_digits.simps)
  have zero: "0 \<notin> set ?ds" by (auto dest: set_takeWhileD)
  show ?thesis
  proof
    assume "parse_revision_text s0 = Some r"
    with Some guard have ds: "?ds \<noteq> []" "hd ?ds \<noteq> 48 \<or> tl ?ds = []" "parse_digits 0 ?ds = Some r"
      by (auto split: if_splits)
    note digits = parse_digits_needs_digits [OF ds(3) zero]
    from parse_digits_value [OF digits, of 0] ds(3)
    have "digits_value 0 ?ds \<le> 2 ^ 63 - 1" "r = of_nat (digits_value 0 ?ds)"
      by (auto split: if_splits)
    moreover from this have "unat r = digits_value 0 ?ds"
      by (simp add: unat_of_nat)
    ultimately show "\<exists>s. s0 = Some s \<and> c_bytes s = decimal (unat r) \<and> unat r \<le> 2 ^ 63 - 1"
      using Some decimal_of_digits [OF digits ds(1,2)] by auto
  next
    assume "\<exists>s. s0 = Some s \<and> c_bytes s = decimal (unat r) \<and> unat r \<le> 2 ^ 63 - 1"
    with Some have ds: "?ds = decimal (unat r)" and bound: "unat r \<le> 2 ^ 63 - 1" by auto
    have "\<forall>d \<in> set ?ds. 48 \<le> d \<and> d \<le> 57" using decimal_digits ds by auto
    from parse_digits_value [OF this, of 0] bound
    have "parse_digits 0 ?ds = Some r"
      by (simp add: ds digits_value_decimal)
    with Some guard ds decimal_no_leading_zero [of "unat r"] show "parse_revision_text s0 = Some r"
      by auto
  qed
qed

end
