(* ===== verification/Object_Store_Rules.thy ===== *)
theory Object_Store_Rules
  imports Object_Store_Tables
begin

text \<open>
  Rules for the object store's actions over any engine that satisfies the contract: what every
  action keeps of the open frames, and what each step of a mutation does to the tables when it
  succeeds. The properties of \<open>Object_Store_Spec\<close> are read off these.
\<close>

lemma committed_frames:
  "v_frames v' = v_frames v \<Longrightarrow> v_frames v \<noteq> [] \<Longrightarrow> committed v' = committed v"
  by (simp add: committed_def)

lemma frame_failure_refl [simp]: "frame_failure v v"
  by (simp add: frame_failure_def)

lemma quiet_failure_refl [simp]: "quiet_failure v v"
  by (simp add: quiet_failure_def)

lemma frame_failure_after:
  "v_frames v1 = v_frames v \<Longrightarrow> frame_failure v1 v' \<Longrightarrow> frame_failure v v'"
  using committed_frames [of v1 v] by (auto simp: frame_failure_def rolled_back_def)

lemma frame_failure_committed:
  "frame_failure v v' \<Longrightarrow> v_frames v \<noteq> [] \<Longrightarrow> committed v' = committed v"
  by (auto simp: frame_failure_def rolled_back_def committed_def)

lemma quiet_failure_committed: "quiet_failure v v' \<Longrightarrow> committed v' = committed v"
  by (auto simp: quiet_failure_def rolled_back_def committed_def)

lemma same_view: "v_now v = db \<Longrightarrow> \<lparr>v_now = db, v_frames = v_frames v\<rparr> = v"
  by (cases v) simp

lemma frames_update: "v\<lparr>v_frames := fs\<rparr> = \<lparr>v_now = v_now v, v_frames = fs\<rparr>"
  by (cases v) simp

lemma now_update: "v\<lparr>v_now := db\<rparr> = \<lparr>v_now = db, v_frames = v_frames v\<rparr>"
  by (cases v) simp

definition scope_frame :: "bool \<Rightarrow> frame" where
  "scope_frame owns = (if owns then F_Begin else MUTATION_FRAME)"

definition scope_failure :: "sql_view \<Rightarrow> sql_view \<Rightarrow> bool" where
  "scope_failure v v' \<longleftrightarrow> v' = v \<or> rolled_back v v' \<or>
     v_frames v' = (scope_frame (v_frames v = []), v_now v) # v_frames v"

lemma scope_failure_committed: "scope_failure v v' \<Longrightarrow> committed v' = committed v"
  by (auto simp: scope_failure_def rolled_back_def committed_def)

lemma quiet_scope_failure: "quiet_failure v v' \<Longrightarrow> scope_failure v v'"
  by (auto simp: quiet_failure_def scope_failure_def)

definition in_scope :: "sql_view \<Rightarrow> sql_view \<Rightarrow> bool" where
  "in_scope v v' \<longleftrightarrow> v_frames v' = (scope_frame (v_frames v = []), v_now v) # v_frames v"

definition with_schema :: "store_tables \<Rightarrow> sql_view \<Rightarrow> sql_view" where
  "with_schema t v = \<lparr>v_now = Present t, v_frames = v_frames v\<rparr>"

definition ensure_failure :: "store_tables \<Rightarrow> sql_view \<Rightarrow> sql_view \<Rightarrow> bool" where
  "ensure_failure t v v' \<longleftrightarrow> scope_failure v v' \<or> quiet_failure (with_schema t v) v'"

context sqlite_engine
begin

definition V :: "'d connection \<Rightarrow> sql_view" where
  "V cn = view (cn_db cn)"

section \<open>Keeping the frames\<close>

text \<open>
  \<open>obeys ok bad m P\<close>: the action leaves the schema flag alone; when it succeeds it answers
  something with \<open>P\<close> and the views are related by \<open>ok\<close>, when it fails by \<open>bad\<close>. A step of a
  mutation keeps the frames, a read the whole view.
\<close>

definition obeys ::
  "(sql_view \<Rightarrow> sql_view \<Rightarrow> bool) \<Rightarrow> (sql_view \<Rightarrow> sql_view \<Rightarrow> bool) \<Rightarrow> ('d, 'a) action \<Rightarrow> ('a \<Rightarrow> bool) \<Rightarrow> bool"
where
  "obeys ok bad m P \<longleftrightarrow> (\<forall>cn r cn'. m cn = (r, cn') \<longrightarrow> cn_schema_ready cn' = cn_schema_ready cn \<and>
     (case r of Done x \<Rightarrow> ok (V cn) (V cn') \<and> P x | Failed s e \<Rightarrow> bad (V cn) (V cn')))"

abbreviation keeps :: "('d, 'a) action \<Rightarrow> ('a \<Rightarrow> bool) \<Rightarrow> bool" where
  "keeps \<equiv> obeys (\<lambda>v v'. v_frames v' = v_frames v) frame_failure"

abbreviation reads :: "('d, 'a) action \<Rightarrow> ('a \<Rightarrow> bool) \<Rightarrow> bool" where
  "reads \<equiv> obeys (\<lambda>v v'. v' = v) quiet_failure"

lemma obeys_Done: "obeys ok bad m P \<Longrightarrow> m cn = (Done x, cn') \<Longrightarrow>
    cn_schema_ready cn' = cn_schema_ready cn \<and> ok (V cn) (V cn') \<and> P x"
  unfolding obeys_def by fastforce

lemma obeys_Failed: "obeys ok bad m P \<Longrightarrow> m cn = (Failed s e, cn') \<Longrightarrow>
    cn_schema_ready cn' = cn_schema_ready cn \<and> bad (V cn) (V cn')"
  unfolding obeys_def by fastforce

lemma obeys_chain:
  assumes trans: "\<And>u v w. ok u v \<Longrightarrow> ok v w \<Longrightarrow> ok u w"
    and fails: "\<And>u v w. ok u v \<Longrightarrow> bad v w \<Longrightarrow> bad u w"
    and "obeys ok bad m P" and "\<And>x. P x \<Longrightarrow> obeys ok bad (f x) Q"
  shows "obeys ok bad (chain m f) Q"
  unfolding obeys_def
proof (intro allI impI)
  fix cn r cn'
  assume run: "chain m f cn = (r, cn')"
  show "cn_schema_ready cn' = cn_schema_ready cn \<and>
     (case r of Done x \<Rightarrow> ok (V cn) (V cn') \<and> Q x | Failed s e \<Rightarrow> bad (V cn) (V cn'))"
  proof (cases "m cn")
    case (Pair r1 cn1)
    show ?thesis
    proof (cases r1)
      case (Done x)
      with Pair obeys_Done [OF assms(3)] have 1: "cn_schema_ready cn1 = cn_schema_ready cn"
        "ok (V cn) (V cn1)" "P x"
        by blast+
      from run Pair Done have 2: "f x cn1 = (r, cn')"
        by (simp add: chain_def)
      show ?thesis
      proof (cases r)
        case (Done y)
        with 2 obeys_Done [OF assms(4) [OF 1(3)]] 1 trans show ?thesis by auto
      next
        case (Failed s e)
        with 2 obeys_Failed [OF assms(4) [OF 1(3)]] 1 fails show ?thesis by auto
      qed
    next
      case (Failed s e)
      with run Pair obeys_Failed [OF assms(3)] show ?thesis
        by (auto simp: chain_def)
    qed
  qed
qed

lemma keeps_chain: "keeps m P \<Longrightarrow> (\<And>x. P x \<Longrightarrow> keeps (f x) Q) \<Longrightarrow> keeps (chain m f) Q"
  by (rule obeys_chain [of _ _ m P]) (auto intro: frame_failure_after)

lemma reads_chain: "reads m P \<Longrightarrow> (\<And>x. P x \<Longrightarrow> reads (f x) Q) \<Longrightarrow> reads (chain m f) Q"
  by (rule obeys_chain [of _ _ m P]) auto

lemma V_update [simp]:
  "V (cn\<lparr>cn_metrics := m\<rparr>) = V cn" "V (cn\<lparr>cn_schema_ready := b\<rparr>) = V cn"
  "V (cn\<lparr>cn_transaction_active := b\<rparr>) = V cn" "V (cn\<lparr>cn_savepoints := ss\<rparr>) = V cn"
  by (simp_all add: V_def)

lemma V_metrics_only [simp]: "V (metrics_only f cn) = V cn"
  "cn_schema_ready (metrics_only f cn) = cn_schema_ready cn"
  "cn_db (metrics_only f cn) = cn_db cn"
  by (simp_all add: metrics_only_def)

lemma V_sync [simp]: "V (sync_internal_transaction_state E cn) = V cn"
  "cn_schema_ready (sync_internal_transaction_state E cn) = cn_schema_ready cn"
  "cn_db (sync_internal_transaction_state E cn) = cn_db cn"
  by (simp_all add: sync_internal_transaction_state_def Let_def V_def)

lemma V_cn_fail [simp]: "V (snd (cn_fail E s ph c m cn)) = V cn"
  by (simp add: V_def)

lemma cn_fail_run: "cn_fail E s ph c m cn = (r, cn') \<Longrightarrow>
    V cn' = V cn \<and> cn_schema_ready cn' = cn_schema_ready cn \<and> (\<exists>e. r = Failed s e)"
  by (auto simp: cn_fail_def fail_with_def Let_def V_def)

lemma obeys_fail: "bad v v \<Longrightarrow> (\<And>v. bad v v) \<Longrightarrow> obeys ok bad (cn_fail E s ph c m) P"
  unfolding obeys_def by (auto dest!: cn_fail_run)

lemma obeys_give: "(\<And>v. ok v v) \<Longrightarrow> P x \<Longrightarrow> obeys ok bad (give x) P"
  unfolding obeys_def by (auto simp: give_def)

lemma obeys_if: "(b \<Longrightarrow> obeys ok bad m P) \<Longrightarrow> (\<not> b \<Longrightarrow> obeys ok bad m' P) \<Longrightarrow>
    obeys ok bad (if b then m else m') P"
  by simp

lemma obeys_status: "(\<And>v. bad v v) \<Longrightarrow> obeys ok bad (\<lambda>cn. (Failed s e, cn)) P"
  unfolding obeys_def by auto

section \<open>Primitive calls\<close>

lemma prepare_run:
  assumes "prepare E sql ph cn = (r, cn')"
  shows "V cn' = V cn \<and> cn_schema_ready cn' = cn_schema_ready cn \<and>
    (\<forall>st. r = Done st \<longrightarrow> st = \<lparr>st_sql = sql, st_params = \<lambda>_. Sql_Null, st_rows = None\<rparr> \<and>
      (\<forall>q. sql = sql_text q \<longrightarrow> v_now (V cn) = Absent \<longrightarrow> q = Count_Tables))"
proof (cases "sq_prepare E sql (cn_db cn)")
  case (Pair rc db)
  from prepare_view [OF Pair] have v: "view db = view (cn_db cn)" .
  show ?thesis
  proof (cases "rc = SQLITE_OK")
    case True
    with assms Pair have "r = Done \<lparr>st_sql = sql, st_params = \<lambda>_. Sql_Null, st_rows = None\<rparr>"
      "cn' = cn\<lparr>cn_db := db\<rparr>"
      by (auto simp: prepare_def Let_def)
    with v True Pair prepare_absent show ?thesis
      by (auto simp: V_def)
  next
    case False
    with assms Pair have "cn_fail E (map_sqlite_status rc) ph rc None (cn\<lparr>cn_db := db\<rparr>) = (r, cn')"
      by (auto simp: prepare_def Let_def)
    from cn_fail_run [OF this] v show ?thesis
      by (auto simp: V_def)
  qed
qed

lemma bind_run:
  assumes "bind_value E i v ph st cn = (r, cn')"
  shows "V cn' = V cn \<and> cn_schema_ready cn' = cn_schema_ready cn \<and>
    (\<forall>st'. r = Done st' \<longrightarrow> st' = st\<lparr>st_params := (st_params st)(i := v)\<rparr>)"
proof (cases "sq_bind E (st_sql st) i v (cn_db cn)")
  case (Pair rc db)
  from bind_view [OF Pair] have v: "view db = view (cn_db cn)" .
  show ?thesis
  proof (cases "rc = SQLITE_OK")
    case True
    with assms Pair v show ?thesis
      by (auto simp: bind_value_def Let_def V_def)
  next
    case False
    with assms Pair have "cn_fail E (map_sqlite_status rc) ph rc None (cn\<lparr>cn_db := db\<rparr>) = (r, cn')"
      by (auto simp: bind_value_def Let_def)
    from cn_fail_run [OF this] v show ?thesis
      by (auto simp: V_def)
  qed
qed

lemmas bind_defs = bind_text_def bind_blob64_def bind_zeroblob_def bind_int64_def bind_int_def

lemma obeysI:
  assumes "\<And>v. ok v v" and "\<And>v. bad v v"
    and "\<And>cn r cn'. m cn = (r, cn') \<Longrightarrow> V cn' = V cn \<and> cn_schema_ready cn' = cn_schema_ready cn \<and>
    (\<forall>x. r = Done x \<longrightarrow> P x)"
  shows "obeys ok bad m P"
  unfolding obeys_def
proof (intro allI impI)
  fix cn r cn'
  assume "m cn = (r, cn')"
  from assms(3) [OF this] assms(1,2) show "cn_schema_ready cn' = cn_schema_ready cn \<and>
      (case r of Done x \<Rightarrow> ok (V cn) (V cn') \<and> P x | Failed s e \<Rightarrow> bad (V cn) (V cn'))"
    by (cases r) simp_all
qed

lemma obeys_prepare:
  "(\<And>v. ok v v) \<Longrightarrow> (\<And>v. bad v v) \<Longrightarrow> obeys ok bad (prepare E sql ph) (\<lambda>st. st_sql st = sql)"
  by (rule obeysI) (assumption, assumption, drule prepare_run, auto)

lemma obeys_bind:
  assumes "\<And>v. ok v v" and "\<And>v. bad v v"
  shows "obeys ok bad (bind_value E i v ph st) (\<lambda>st'. st_sql st' = st_sql st)"
proof (rule obeysI [OF assms])
  fix cn r cn'
  assume "bind_value E i v ph st cn = (r, cn')"
  from bind_run [OF this] show "V cn' = V cn \<and> cn_schema_ready cn' = cn_schema_ready cn \<and>
      (\<forall>st'. r = Done st' \<longrightarrow> st_sql st' = st_sql st)"
    by (metis (no_types, lifting) statement.select_convs(1) statement.surjective statement.update_convs(2))
qed

lemma step_run:
  assumes "step E ph st cn = (r, cn')"
  obtains rc rows db where "sq_step E (st_sql st) (st_params st) (st_rows st) (cn_db cn) = (rc, rows, db)"
    "V cn' = view db" "cn_schema_ready cn' = cn_schema_ready cn"
    "if rc = SQLITE_ROW \<or> rc = SQLITE_DONE then r = Done (rc, st\<lparr>st_rows := Some rows\<rparr>)
     else (\<exists>s e. r = Failed s e)"
proof -
  obtain rc rows db where s: "sq_step E (st_sql st) (st_params st) (st_rows st) (cn_db cn) = (rc, rows, db)"
    by (metis prod_cases3)
  show ?thesis
  proof (cases "rc = SQLITE_ROW \<or> rc = SQLITE_DONE")
    case True
    with assms s show ?thesis
      by (intro that [OF s]) (auto simp: step_def Let_def V_def)
  next
    case False
    with assms s have "cn_fail E (map_sqlite_status rc) ph rc None (cn\<lparr>cn_db := db\<rparr>) = (r, cn')"
      by (auto simp: step_def Let_def)
    from cn_fail_run [OF this] False show ?thesis
      by (intro that [OF s]) (auto simp: V_def)
  qed
qed

lemma keeps_step:
  assumes "st_sql st = sql_text q"
  shows "keeps (step E ph st) (\<lambda>(rc, st'). st_sql st' = st_sql st)"
  unfolding obeys_def
proof (intro allI impI)
  fix cn r cn'
  assume "step E ph st cn = (r, cn')"
  then obtain rc rows db where s: "sq_step E (st_sql st) (st_params st) (st_rows st) (cn_db cn) = (rc, rows, db)"
    and *: "V cn' = view db" "cn_schema_ready cn' = cn_schema_ready cn"
      "if rc = SQLITE_ROW \<or> rc = SQLITE_DONE then r = Done (rc, st\<lparr>st_rows := Some rows\<rparr>)
       else (\<exists>s e. r = Failed s e)"
    by (rule step_run)
  from step_frames [OF s [unfolded assms]] * show "cn_schema_ready cn' = cn_schema_ready cn \<and>
     (case r of Done x \<Rightarrow> v_frames (V cn') = v_frames (V cn) \<and> (case x of (rc, st') \<Rightarrow> st_sql st' = st_sql st)
      | Failed s e \<Rightarrow> frame_failure (V cn) (V cn'))"
    by (auto simp: V_def split: if_splits)
qed

lemma reads_step:
  assumes "st_sql st = sql_text q" and "reads_only q"
  shows "reads (step E ph st) (\<lambda>(rc, st'). st_sql st' = st_sql st)"
  unfolding obeys_def
proof (intro allI impI)
  fix cn r cn'
  assume "step E ph st cn = (r, cn')"
  then obtain rc rows db where s: "sq_step E (st_sql st) (st_params st) (st_rows st) (cn_db cn) = (rc, rows, db)"
    and *: "V cn' = view db" "cn_schema_ready cn' = cn_schema_ready cn"
      "if rc = SQLITE_ROW \<or> rc = SQLITE_DONE then r = Done (rc, st\<lparr>st_rows := Some rows\<rparr>)
       else (\<exists>s e. r = Failed s e)"
    by (rule step_run)
  from reads_view [OF s [unfolded assms(1)] assms(2)] *
  show "cn_schema_ready cn' = cn_schema_ready cn \<and>
     (case r of Done x \<Rightarrow> V cn' = V cn \<and> (case x of (rc, st') \<Rightarrow> st_sql st' = st_sql st)
      | Failed s e \<Rightarrow> quiet_failure (V cn) (V cn'))"
    by (auto simp: V_def split: if_splits)
qed

lemma cn_fail_status: "cn_fail E s ph c m cn = (Failed s' e, cn') \<Longrightarrow> s' = s"
  by (auto simp: cn_fail_def fail_with_def Let_def)

text \<open>No failing call of the engine looks like a missing name or key.\<close>

lemma prepare_Failed: "prepare E sql ph cn = (Failed s e, cn') \<Longrightarrow> s \<noteq> ESDB_ERR_NOT_FOUND \<and> s \<noteq> ESDB_OK"
  using prepare_code [of sql "cn_db cn"]
  by (auto simp: prepare_def Let_def error_code_def dest!: cn_fail_status split: prod.splits if_splits)

lemma bind_Failed: "bind_value E i v ph st cn = (Failed s e, cn') \<Longrightarrow> s \<noteq> ESDB_ERR_NOT_FOUND \<and> s \<noteq> ESDB_OK"
  using bind_code [of "st_sql st" i v "cn_db cn"]
  by (auto simp: bind_value_def Let_def error_code_def dest!: cn_fail_status split: prod.splits if_splits)

lemma step_Failed: "step E ph st cn = (Failed s e, cn') \<Longrightarrow> s \<noteq> ESDB_ERR_NOT_FOUND \<and> s \<noteq> ESDB_OK"
  using step_code [of "st_sql st" "st_params st" "st_rows st" "cn_db cn"]
  by (auto simp: step_def Let_def error_code_def dest!: cn_fail_status split: prod.splits if_splits)

text \<open>The first step of a statement the contract answers.\<close>

lemma step_first:
  assumes "step E ph st cn = (Done (rc, st'), cn')" and "st_sql st = sql_text q" and "st_rows st = None"
    and "v_now (V cn) = Present t" and "answer_of q (st_params st) t = Rows rs t'" and "q \<noteq> Prune_Changes"
  shows "rc = (if rs = [] then SQLITE_DONE else SQLITE_ROW)" and "st' = st\<lparr>st_rows := Some rs\<rparr>"
    and "V cn' = (V cn)\<lparr>v_now := Present t'\<rparr>" and "cn_schema_ready cn' = cn_schema_ready cn"
proof -
  obtain rc1 rows db where s: "sq_step E (sql_text q) (st_params st) None (cn_db cn) = (rc1, rows, db)"
    by (metis prod_cases3)
  from assms(1-3) s have ok: "rc1 = SQLITE_ROW \<or> rc1 = SQLITE_DONE" "rc1 = rc"
    "st' = st\<lparr>st_rows := Some rows\<rparr>" "cn' = cn\<lparr>cn_db := db\<rparr>"
    by (auto simp: step_def Let_def split: if_splits)
  have "database_answer q (st_params st) (v_now (view (cn_db cn))) = (Rows rs t', Present)"
    using assms(4,5) by (simp add: database_answer_def V_def)
  from step_answers [OF s ok(1) this] ok assms(6)
  show "rc = (if rs = [] then SQLITE_DONE else SQLITE_ROW)" "st' = st\<lparr>st_rows := Some rs\<rparr>"
    "V cn' = (V cn)\<lparr>v_now := Present t'\<rparr>" "cn_schema_ready cn' = cn_schema_ready cn"
    by (auto simp: V_def)
qed

lemma step_more:
  assumes "step E ph st cn = (Done (rc, st'), cn')" and "st_sql st = sql_text q"
    and "st_rows st = Some (r # rs)"
  shows "rc = (if rs = [] then SQLITE_DONE else SQLITE_ROW)" and "st' = st\<lparr>st_rows := Some rs\<rparr>"
    and "V cn' = V cn" and "cn_schema_ready cn' = cn_schema_ready cn"
proof -
  obtain rc1 rows db where s: "sq_step E (sql_text q) (st_params st) (Some (r # rs)) (cn_db cn) = (rc1, rows, db)"
    by (metis prod_cases3)
  from assms(1-3) s have ok: "rc1 = SQLITE_ROW \<or> rc1 = SQLITE_DONE" "rc1 = rc"
    "st' = st\<lparr>st_rows := Some rows\<rparr>" "cn' = cn\<lparr>cn_db := db\<rparr>"
    by (auto simp: step_def Let_def split: if_splits)
  from more_answers [OF s ok(1)] ok
  show "rc = (if rs = [] then SQLITE_DONE else SQLITE_ROW)" "st' = st\<lparr>st_rows := Some rs\<rparr>"
    "V cn' = V cn" "cn_schema_ready cn' = cn_schema_ready cn"
    by (auto simp: V_def)
qed

section \<open>What the steps of a mutation keep\<close>

lemma store_texts [simp]:
  "SQL_READ_REVISION \<in> range sql_text" "SQL_COUNT_TABLES \<in> range sql_text"
  "SQL_SET_REVISION \<in> range sql_text" "SQL_INSERT_STORE \<in> range sql_text"
  "SQL_SELECT_STORE \<in> range sql_text" "SQL_INSERT_CHANGE \<in> range sql_text"
  "SQL_SCHEMA_VERSION \<in> range sql_text" "SQL_UPSERT_RECORD \<in> range sql_text"
  "SQL_GET_RECORD \<in> range sql_text" "SQL_DELETE_RECORD \<in> range sql_text"
  "SQL_PRUNE \<in> range sql_text"
  by (metis sql_text.simps rangeI)+

lemma keeps_prepare_chain:
  "(\<And>st. st_sql st = sql \<Longrightarrow> keeps (f st) Q) \<Longrightarrow> keeps (chain (prepare E sql ph) f) Q"
  by (rule keeps_chain [OF obeys_prepare]) simp_all

lemma keeps_bind_chain:
  "(\<And>st'. st_sql st' = st_sql st \<Longrightarrow> keeps (f st') Q) \<Longrightarrow> keeps (chain (bind_value E i v ph st) f) Q"
  by (rule keeps_chain [OF obeys_bind]) simp_all

lemma keeps_step_chain:
  assumes "st_sql st \<in> range sql_text" and "\<And>rc st'. st_sql st' = st_sql st \<Longrightarrow> keeps (g rc st') Q"
  shows "keeps (chain (step E ph st) (\<lambda>(rc, st'). g rc st')) Q"
proof -
  from assms(1) obtain q where "st_sql st = sql_text q" by auto
  from keeps_chain [OF keeps_step [OF this], of "\<lambda>(rc, st'). g rc st'"] assms(2) show ?thesis
    by auto
qed

lemma keeps_fail: "keeps (cn_fail E s ph c m) P"
  by (rule obeys_fail) simp_all

lemma keeps_give: "P x \<Longrightarrow> keeps (give x) P"
  by (rule obeys_give) simp_all

lemmas keeps_rules = keeps_prepare_chain keeps_bind_chain keeps_step_chain obeys_if keeps_fail keeps_give

lemma keeps_set_revision: "keeps (set_store_revision E n) (\<lambda>_. True)"
  unfolding set_store_revision_def bind_defs by (intro keeps_rules) simp_all

lemma keeps_register: "keeps (register_store E now name) (\<lambda>_. True)"
  unfolding register_store_def bind_defs by (intro keeps_rules) simp_all

lemma keeps_find: "keeps (find_store E name) (\<lambda>_. True)"
  unfolding find_store_def bind_defs by (intro keeps_rules obeys_status) simp_all

lemma keeps_get_store_id: "keeps (get_store_id E now name create) (\<lambda>_. True)"
  unfolding get_store_id_def
  by (intro keeps_chain [where P = "\<lambda>_. True"] obeys_if keeps_register keeps_find keeps_give) simp_all

lemma keeps_insert_change: "keeps (insert_change E s key operation type at) (\<lambda>_. True)"
  unfolding insert_change_def bind_defs Let_def by (intro keeps_rules) simp_all

lemma keeps_upsert: "keeps (upsert_record E s key v revision now) (\<lambda>_. True)"
  unfolding upsert_record_def bind_defs
  by (cases "ev_payload v = []") (simp_all, (intro keeps_rules; simp)+)

lemma keeps_delete_record: "keeps (delete_record E s key) (\<lambda>_. True)"
  unfolding delete_record_def bind_defs by (intro keeps_rules) simp_all

lemma keeps_put_body: "keeps (put_body E now name key v) (\<lambda>_. True)"
  unfolding put_body_def
  by (intro keeps_chain [where P = "\<lambda>_. True"] keeps_get_store_id keeps_insert_change keeps_upsert
      keeps_set_revision keeps_give) simp_all

lemma reads_prepare_chain:
  "(\<And>st. st_sql st = sql \<Longrightarrow> reads (f st) Q) \<Longrightarrow> reads (chain (prepare E sql ph) f) Q"
  by (rule reads_chain [OF obeys_prepare]) simp_all

lemma reads_bind_chain:
  "(\<And>st'. st_sql st' = st_sql st \<Longrightarrow> reads (f st') Q) \<Longrightarrow> reads (chain (bind_value E i v ph st) f) Q"
  by (rule reads_chain [OF obeys_bind]) simp_all

definition read_sql :: "string set" where
  "read_sql = sql_text ` {q. reads_only q}"

lemma reads_step_chain:
  assumes "st_sql st \<in> read_sql"
    and "\<And>rc st'. st_sql st' = st_sql st \<Longrightarrow> reads (g rc st') Q"
  shows "reads (chain (step E ph st) (\<lambda>(rc, st'). g rc st')) Q"
proof -
  from assms(1) obtain q where "st_sql st = sql_text q" "reads_only q"
    unfolding read_sql_def by blast
  from reads_chain [OF reads_step [OF this], of "\<lambda>(rc, st'). g rc st'"] assms(2) show ?thesis
    by auto
qed

lemma reads_fail: "reads (cn_fail E s ph c m) P"
  by (rule obeys_fail) simp_all

lemma reads_give: "P x \<Longrightarrow> reads (give x) P"
  by (rule obeys_give) simp_all

lemmas reads_rules = reads_prepare_chain reads_bind_chain reads_step_chain obeys_if reads_fail reads_give

lemma sql_text_read: "reads_only q \<Longrightarrow> sql_text q \<in> read_sql"
  by (simp add: read_sql_def)

lemma read_texts [simp]:
  "SQL_READ_REVISION \<in> read_sql" "SQL_COUNT_TABLES \<in> read_sql" "SQL_SELECT_STORE \<in> read_sql"
  "SQL_SCHEMA_VERSION \<in> read_sql" "SQL_GET_RECORD \<in> read_sql"
  using sql_text_read [of Read_Revision] sql_text_read [of Count_Tables] sql_text_read [of Select_Store]
    sql_text_read [of Schema_Version] sql_text_read [of Get_Record] by simp_all

lemma reads_inspect: "reads (inspect_store_table_count E) (\<lambda>_. True)"
  unfolding inspect_store_table_count_def Let_def by (intro reads_rules) simp_all

lemma reads_version: "reads (check_schema_version E) (\<lambda>_. True)"
  unfolding check_schema_version_def
  by (intro reads_rules) (auto intro!: reads_rules split: option.splits)

lemma reads_metadata: "reads (read_store_revision_metadata E) (\<lambda>_. True)"
  unfolding read_store_revision_metadata_def Let_def
  by (intro reads_rules) (auto intro!: reads_rules split: option.splits)

lemma reads_find: "reads (find_store E name) (\<lambda>_. True)"
  unfolding find_store_def bind_defs by (intro reads_rules obeys_status) simp_all

text \<open>Reads leave the view alone, also when they fail, up to an automatic rollback.\<close>

lemma writable_run:
  "require_store_writable E cn = (r, cn') \<Longrightarrow>
     V cn' = V cn \<and> cn_schema_ready cn' = cn_schema_ready cn \<and> (r = Done () \<longrightarrow> cn' = cn)"
  by (auto simp: require_store_writable_def Let_def give_def dest!: cn_fail_run split: if_splits)

section \<open>The mutation scope\<close>

lemma exec_run:
  assumes "exec_sql E sql ph cn = (r, cn')"
  obtains rc m db where "sq_exec E sql (cn_db cn) = (rc, m, db)" "V cn' = view db"
    "cn_schema_ready cn' = cn_schema_ready cn" "r = Done () \<longleftrightarrow> rc = SQLITE_OK"
proof -
  obtain rc m db where s: "sq_exec E sql (cn_db cn) = (rc, m, db)"
    by (metis prod_cases3)
  show ?thesis
  proof (cases "rc = SQLITE_OK")
    case True
    with assms s show ?thesis
      by (intro that [OF s]) (auto simp: exec_sql_def Let_def V_def)
  next
    case False
    with assms s have "cn_fail E (map_sqlite_status rc) ph rc m (cn\<lparr>cn_db := db\<rparr>) = (r, cn')"
      by (auto simp: exec_sql_def Let_def)
    from cn_fail_run [OF this] False show ?thesis
      by (intro that [OF s]) (auto simp: V_def)
  qed
qed

text \<open>
  The frame a scope opens: the transaction itself when there was none, else the savepoint of
  the mutation.
\<close>

lemma begin_run:
  assumes "begin_store_mutation E cn = (r, cn')"
  shows "cn_schema_ready cn' = cn_schema_ready cn \<and>
    (case r of
       Done owns \<Rightarrow> owns = (v_frames (V cn) = []) \<and>
         V cn' = (V cn)\<lparr>v_frames := (scope_frame owns, v_now (V cn)) # v_frames (V cn)\<rparr>
     | Failed s e \<Rightarrow> quiet_failure (V cn) (V cn'))"
proof -
  let ?owns = "v_frames (V cn) = []"
  have owns: "sq_autocommit E (cn_db cn) = ?owns"
    by (simp add: autocommit V_def)
  let ?sql = "if ?owns then SQL_BEGIN_IMMEDIATE else SQL_SAVEPOINT_MUTATION"
  obtain r1 cn1 where run: "exec_sql E ?sql OBJ cn = (r1, cn1)"
    by fastforce
  then obtain rc m db where s: "sq_exec E ?sql (cn_db cn) = (rc, m, db)" "V cn1 = view db"
    "cn_schema_ready cn1 = cn_schema_ready cn" "r1 = Done () \<longleftrightarrow> rc = SQLITE_OK"
    by (rule exec_run)
  have *: "(r, cn') = (case r1 of
      Done _ \<Rightarrow> (Done ?owns, if ?owns then sync_internal_transaction_state E cn1 else cn1)
    | Failed st e \<Rightarrow> (Failed st e, cn1))"
    using assms run unfolding begin_store_mutation_def Let_def owns
    by (auto simp: chain_def give_def split: outcome.splits)
  show ?thesis
  proof (cases ?owns)
    case True
    with s exec_begin [of "cn_db cn" rc m db] * show ?thesis
      by (cases r1) (auto simp: scope_frame_def V_def)
  next
    case False
    with s exec_savepoint [of "cn_db cn" rc m db] * show ?thesis
      by (cases r1) (auto simp: scope_frame_def V_def)
  qed
qed

text \<open>
  Rolling the scope back restores the frames and tables from before it; if even that fails,
  what the connection has committed is still untouched.
\<close>

lemma scope_committed:
  "v_frames v1 = (scope_frame (v_frames v = []), v_now v) # v_frames v \<Longrightarrow> committed v1 = committed v"
  by (auto simp: committed_def)

lemma rollback_run:
  assumes "v_frames (V cn) = (scope_frame owns, db) # fs" and "owns \<longleftrightarrow> fs = []"
  shows "cn_schema_ready (rollback_store_mutation E owns cn) = cn_schema_ready cn"
    and "V (rollback_store_mutation E owns cn) = \<lparr>v_now = db, v_frames = fs\<rparr> \<or>
      frame_failure (V cn) (V (rollback_store_mutation E owns cn))"
proof -
  have "cn_schema_ready (rollback_store_mutation E owns cn) = cn_schema_ready cn \<and>
    (V (rollback_store_mutation E owns cn) = \<lparr>v_now = db, v_frames = fs\<rparr> \<or>
      frame_failure (V cn) (V (rollback_store_mutation E owns cn)))"
  proof (cases owns)
    case True
    obtain r1 cn1 where run: "exec_sql E SQL_ROLLBACK OBJ cn = (r1, cn1)"
      by fastforce
    then obtain rc m db' where s: "sq_exec E SQL_ROLLBACK (cn_db cn) = (rc, m, db')" "V cn1 = view db'"
      "cn_schema_ready cn1 = cn_schema_ready cn" "r1 = Done () \<longleftrightarrow> rc = SQLITE_OK"
      by (rule exec_run)
    have "V (rollback_store_mutation E owns cn) = view db'"
      "cn_schema_ready (rollback_store_mutation E owns cn) = cn_schema_ready cn"
      using True run s by (simp_all add: rollback_store_mutation_def)
    with exec_rollback [OF s(1)] assms True show ?thesis
      by (auto simp: V_def rolled_back_def committed_def intro: quiet_frame_failure split: if_splits)
  next
    case False
    obtain r1 cn1 where run: "exec_sql E SQL_UNDO_MUTATION OBJ cn = (r1, cn1)"
      by fastforce
    then obtain rc m db' where s: "sq_exec E SQL_UNDO_MUTATION (cn_db cn) = (rc, m, db')" "V cn1 = view db'"
      "cn_schema_ready cn1 = cn_schema_ready cn" "r1 = Done () \<longleftrightarrow> rc = SQLITE_OK"
      by (rule exec_run)
    have "V (rollback_store_mutation E owns cn) = view db'"
      "cn_schema_ready (rollback_store_mutation E owns cn) = cn_schema_ready cn"
      using False run s by (simp_all add: rollback_store_mutation_def)
    with exec_undo [OF s(1), of db fs] assms False show ?thesis
      by (auto simp: V_def scope_frame_def split: if_splits)
  qed
  then show "cn_schema_ready (rollback_store_mutation E owns cn) = cn_schema_ready cn"
    "V (rollback_store_mutation E owns cn) = \<lparr>v_now = db, v_frames = fs\<rparr> \<or>
      frame_failure (V cn) (V (rollback_store_mutation E owns cn))"
    by blast+
qed

text \<open>
  What a failed scope leaves, against the view before it: the same view; or everything rolled
  back; or, only when the rollback itself failed, the scope's frame still open.
\<close>

lemma rollback_closed:
  assumes "v_frames (V cn) = []"
  shows "V (rollback_store_mutation E owns cn) = V cn"
    and "cn_schema_ready (rollback_store_mutation E owns cn) = cn_schema_ready cn"
proof -
  have "V (rollback_store_mutation E owns cn) = V cn \<and>
    cn_schema_ready (rollback_store_mutation E owns cn) = cn_schema_ready cn"
  proof (cases owns)
    case True
    obtain r1 cn1 where run: "exec_sql E SQL_ROLLBACK OBJ cn = (r1, cn1)"
      by fastforce
    then obtain rc m db' where s: "sq_exec E SQL_ROLLBACK (cn_db cn) = (rc, m, db')" "V cn1 = view db'"
      "cn_schema_ready cn1 = cn_schema_ready cn" "r1 = Done () \<longleftrightarrow> rc = SQLITE_OK"
      by (rule exec_run)
    with exec_rollback [OF s(1)] assms True run show ?thesis
      by (auto simp: rollback_store_mutation_def V_def rolled_back_def quiet_failure_def split: if_splits)
  next
    case False
    obtain r1 cn1 where run: "exec_sql E SQL_UNDO_MUTATION OBJ cn = (r1, cn1)"
      by fastforce
    then obtain rc m db' where s: "sq_exec E SQL_UNDO_MUTATION (cn_db cn) = (rc, m, db')" "V cn1 = view db'"
      "cn_schema_ready cn1 = cn_schema_ready cn" "r1 = Done () \<longleftrightarrow> rc = SQLITE_OK"
      by (rule exec_run)
    with exec_undo_outside [OF s(1)] assms False run show ?thesis
      by (auto simp: rollback_store_mutation_def V_def)
  qed
  then show "V (rollback_store_mutation E owns cn) = V cn"
    "cn_schema_ready (rollback_store_mutation E owns cn) = cn_schema_ready cn"
    by blast+
qed

lemma rolled_back_scope:
  assumes "in_scope v v1" and "rolled_back v1 v2"
  shows "v2 = v \<or> rolled_back v v2"
  using assms by (cases v) (auto simp: in_scope_def rolled_back_def committed_def)

lemma rollback_restores:
  assumes "in_scope v v1" and "frame_failure v1 (V cn)" and "owns \<longleftrightarrow> v_frames v = []"
  shows "scope_failure v (V (rollback_store_mutation E owns cn))"
    and "cn_schema_ready (rollback_store_mutation E owns cn) = cn_schema_ready cn"
proof -
  let ?cn' = "rollback_store_mutation E owns cn"
  have "v_frames v1 \<noteq> []"
    using assms(1) by (simp add: in_scope_def)
  with assms(2) consider "v_frames (V cn) = v_frames v1" | "rolled_back v1 (V cn)"
    by (auto simp: frame_failure_def)
  then have "scope_failure v (V ?cn') \<and> cn_schema_ready ?cn' = cn_schema_ready cn"
  proof cases
    case 1
    with assms(1,3) have f: "v_frames (V cn) = (scope_frame owns, v_now v) # v_frames v"
      by (simp add: in_scope_def)
    from rollback_run(2) [OF f assms(3)]
    consider "V ?cn' = v" | "v_frames (V ?cn') = v_frames (V cn)" | "rolled_back (V cn) (V ?cn')"
      using f by (cases v) (auto simp: frame_failure_def)
    then have "scope_failure v (V ?cn')"
    proof cases
      case 3
      moreover have "in_scope v (V cn)"
        using f assms(3) by (simp add: in_scope_def)
      ultimately show ?thesis
        using rolled_back_scope unfolding scope_failure_def by blast
    qed (use f assms(3) in \<open>auto simp: scope_failure_def\<close>)
    with rollback_run(1) [OF f assms(3)] show ?thesis by blast
  next
    case 2
    then have "v_frames (V cn) = []"
      by (simp add: rolled_back_def)
    with rollback_closed [of cn owns] rolled_back_scope [OF assms(1) 2] show ?thesis
      by (auto simp: scope_failure_def)
  qed
  then show "scope_failure v (V ?cn')" "cn_schema_ready ?cn' = cn_schema_ready cn"
    by blast+
qed

lemma guarded_in_scope:
  assumes "keeps m P" and "guarded (rollback_store_mutation E owns) m cn = (r, cn')"
    and "in_scope v (V cn)" and "owns \<longleftrightarrow> v_frames v = []"
  shows "cn_schema_ready cn' = cn_schema_ready cn"
    and "case r of Done x \<Rightarrow> m cn = (Done x, cn') \<and> in_scope v (V cn')
      | Failed s e \<Rightarrow> scope_failure v (V cn')"
proof -
  obtain r1 cn1 where run: "m cn = (r1, cn1)"
    by fastforce
  have "cn_schema_ready cn' = cn_schema_ready cn \<and>
    (case r of Done x \<Rightarrow> m cn = (Done x, cn') \<and> in_scope v (V cn') | Failed s e \<Rightarrow> scope_failure v (V cn'))"
  proof (cases r1)
    case (Done x)
    with run obeys_Done [OF assms(1)] assms(2,3) show ?thesis
      by (auto simp: guarded_def in_scope_def)
  next
    case (Failed s e)
    with run assms(2) have "r = Failed s e" "cn' = rollback_store_mutation E owns cn1"
      by (auto simp: guarded_def)
    with Failed run obeys_Failed [OF assms(1)] rollback_restores [OF assms(3) _ assms(4)] show ?thesis
      by auto
  qed
  then show "cn_schema_ready cn' = cn_schema_ready cn"
    and "case r of Done x \<Rightarrow> m cn = (Done x, cn') \<and> in_scope v (V cn')
      | Failed s e \<Rightarrow> scope_failure v (V cn')"
    by blast+
qed

lemma commit_in_scope:
  assumes "commit_store_mutation E owns cn = (r, cn')"
    and "in_scope v (V cn)" and "owns \<longleftrightarrow> v_frames v = []"
  shows "cn_schema_ready cn' = cn_schema_ready cn"
    and "case r of Done _ \<Rightarrow> V cn' = \<lparr>v_now = v_now (V cn), v_frames = v_frames v\<rparr>
      | Failed s e \<Rightarrow> scope_failure v (V cn')"
proof -
  let ?sql = "if owns then SQL_COMMIT else SQL_RELEASE_MUTATION"
  obtain r1 cn1 where run: "exec_sql E ?sql OBJ cn = (r1, cn1)"
    by fastforce
  then obtain rc m db where s: "sq_exec E ?sql (cn_db cn) = (rc, m, db)" "V cn1 = view db"
    "cn_schema_ready cn1 = cn_schema_ready cn" "r1 = Done () \<longleftrightarrow> rc = SQLITE_OK"
    by (rule exec_run)
  have f: "v_frames (view (cn_db cn)) = (scope_frame owns, v_now v) # v_frames v"
    using assms(2,3) by (simp add: in_scope_def V_def)
  have outcome: "if rc = SQLITE_OK then V cn1 = (V cn)\<lparr>v_frames := v_frames v\<rparr>
      else quiet_failure (V cn) (V cn1)"
  proof (cases owns)
    case True
    with f assms(3) exec_commit [of "cn_db cn" rc m db "v_now v"] s show ?thesis
      by (auto simp: scope_frame_def V_def)
  next
    case False
    with f assms(3) exec_release [of "cn_db cn" rc m db "v_now v" "v_frames v"] s show ?thesis
      by (auto simp: scope_frame_def V_def)
  qed
  have "cn_schema_ready cn' = cn_schema_ready cn \<and>
    (case r of Done _ \<Rightarrow> V cn' = \<lparr>v_now = v_now (V cn), v_frames = v_frames v\<rparr>
      | Failed s e \<Rightarrow> scope_failure v (V cn'))"
  proof (cases r1)
    case (Done u)
    with assms(1) run have "r = Done ()" "V cn' = V cn1" "cn_schema_ready cn' = cn_schema_ready cn1"
      by (cases owns; auto simp: commit_store_mutation_def chain_def guarded_def give_def)+
    with Done s outcome show ?thesis
      by (auto simp: frames_update)
  next
    case (Failed st e)
    with assms(1) run have r: "r = Failed st e" "cn' = rollback_store_mutation E owns cn1"
      by (auto simp: commit_store_mutation_def chain_def guarded_def)
    from Failed s(4) outcome have "frame_failure (V cn) (V cn1)"
      by (auto intro: quiet_frame_failure)
    from rollback_restores [OF assms(2) this assms(3)] r s(3) show ?thesis by simp
  qed
  then show "cn_schema_ready cn' = cn_schema_ready cn"
    and "case r of Done _ \<Rightarrow> V cn' = \<lparr>v_now = v_now (V cn), v_frames = v_frames v\<rparr>
      | Failed s e \<Rightarrow> scope_failure v (V cn')"
    by blast+
qed

lemma begin_in_scope:
  assumes "begin_store_mutation E cn = (r, cn')"
  shows "cn_schema_ready cn' = cn_schema_ready cn"
    and "case r of Done owns \<Rightarrow> owns = (v_frames (V cn) = []) \<and> in_scope (V cn) (V cn') \<and>
        v_now (V cn') = v_now (V cn)
      | Failed s e \<Rightarrow> scope_failure (V cn) (V cn')"
  using begin_run [OF assms] by (auto simp: in_scope_def intro: quiet_scope_failure split: outcome.splits)

section \<open>What the steps of a mutation do\<close>

lemma prepare_Done:
  "prepare E sql ph cn = (Done st, cn') \<Longrightarrow>
     st = \<lparr>st_sql = sql, st_params = \<lambda>_. Sql_Null, st_rows = None\<rparr> \<and> V cn' = V cn"
  by (drule prepare_run) blast

lemma bind_Done:
  "bind_value E i v ph st cn = (Done st', cn') \<Longrightarrow>
     st' = st\<lparr>st_params := (st_params st)(i := v)\<rparr> \<and> V cn' = V cn"
  by (drule bind_run) blast

lemma step_first_Done:
  assumes "step E ph \<lparr>st_sql = sql_text q, st_params = p, st_rows = None\<rparr> cn = (Done x, cn')"
    and "v_now (V cn) = Present t" and "answer_of q p t = Rows rs t'" and "q \<noteq> Prune_Changes"
  shows "x = (if rs = [] then SQLITE_DONE else SQLITE_ROW,
      \<lparr>st_sql = sql_text q, st_params = p, st_rows = Some rs\<rparr>) \<and>
    V cn' = \<lparr>v_now = Present t', v_frames = v_frames (V cn)\<rparr>"
proof -
  obtain rc st' where x: "x = (rc, st')" by fastforce
  from step_first [OF assms(1) [unfolded x], of q t rs t'] assms(2-4) x show ?thesis
    by (auto simp: now_update)
qed

lemma step_more_Done:
  assumes "step E ph \<lparr>st_sql = sql_text q, st_params = p, st_rows = Some (r # rs)\<rparr> cn = (Done x, cn')"
  shows "x = (if rs = [] then SQLITE_DONE else SQLITE_ROW,
      \<lparr>st_sql = sql_text q, st_params = p, st_rows = Some rs\<rparr>) \<and> V cn' = V cn"
proof -
  obtain rc st' where x: "x = (rc, st')" by fastforce
  from step_more [OF assms [unfolded x]] x show ?thesis
    by auto
qed

text \<open>A statement of at most six parameters, prepared, bound and stepped once.\<close>

lemma set_revision_Done:
  assumes "set_store_revision E n cn = (Done u, cn')" and "v_now (V cn) = Present t" and "0 \<le> n"
  shows "V cn' = \<lparr>v_now = Present (with_revision n t), v_frames = v_frames (V cn)\<rparr>"
proof -
  from assms(1) obtain st1 cn1 st2 cn2 x cn3 where
    "prepare E (sql_text Set_Revision) OBJ cn = (Done st1, cn1)"
    "bind_value E 1 (Sql_Int n) OBJ st1 cn1 = (Done st2, cn2)"
    "step E OBJ st2 cn2 = (Done x, cn3)" and last: "V cn' = V cn3"
    unfolding set_store_revision_def bind_defs
    by (auto simp: chain_Done split: if_splits)
  then have s: "step E OBJ \<lparr>st_sql = sql_text Set_Revision, st_params = (\<lambda>_. Sql_Null)(1 := Sql_Int n),
      st_rows = None\<rparr> cn2 = (Done x, cn3)" and v: "V cn2 = V cn"
    by (auto dest!: prepare_Done bind_Done simp del: sql_text.simps)
  from step_first_Done [OF s, of t "[]" "with_revision n t"] assms(2,3) v last show ?thesis
    by (simp add: with_revision_def)
qed

lemma register_Done:
  assumes "register_store E now name cn = (Done u, cn')" and "v_now (V cn) = Present t"
    and "store_id_of (c_bytes name) t = None \<Longrightarrow> next_row_id (tb_stores t) \<le> sql_max"
  shows "V cn' = \<lparr>v_now = Present (with_store (c_bytes name) now t), v_frames = v_frames (V cn)\<rparr>"
proof -
  from assms(1) obtain st1 cn1 st2 cn2 st3 cn3 x cn4 where
    "prepare E (sql_text Insert_Store) OBJ cn = (Done st1, cn1)"
    "bind_value E 1 (Sql_Text (c_bytes name)) OBJ st1 cn1 = (Done st2, cn2)"
    "bind_value E 2 (Sql_Int now) OBJ st2 cn2 = (Done st3, cn3)"
    "step E OBJ st3 cn3 = (Done x, cn4)" and last: "V cn' = V cn4"
    unfolding register_store_def bind_defs
    by (auto simp: chain_Done split: if_splits)
  then have s: "step E OBJ \<lparr>st_sql = sql_text Insert_Store,
      st_params = (\<lambda>_. Sql_Null)(1 := Sql_Text (c_bytes name), 2 := Sql_Int now),
      st_rows = None\<rparr> cn3 = (Done x, cn4)" and v: "V cn3 = V cn"
    by (auto dest!: prepare_Done bind_Done simp del: sql_text.simps)
  from step_first_Done [OF s, of t "[]" "with_store (c_bytes name) now t"] assms(2,3) v last show ?thesis
    by (auto simp: with_store_def not_less)
qed

lemma find_Done:
  assumes "find_store E name cn = (Done i, cn')" and "v_now (V cn) = Present t"
  shows "V cn' = V cn \<and> store_id_of (c_bytes name) t = Some i"
proof -
  from assms(1) obtain st1 cn1 st2 cn2 rc st3 cn3 where
    "prepare E (sql_text Select_Store) OBJ cn = (Done st1, cn1)"
    "bind_value E 1 (Sql_Text (c_bytes name)) OBJ st1 cn1 = (Done st2, cn2)"
    "step E OBJ st2 cn2 = (Done (rc, st3), cn3)" and last: "rc \<noteq> SQLITE_DONE" "i = column_int64 E st3 0" "cn' = cn3"
    unfolding find_store_def bind_defs
    by (auto simp: chain_Done split: if_splits)
  then have s: "step E OBJ \<lparr>st_sql = sql_text Select_Store,
      st_params = (\<lambda>_. Sql_Null)(1 := Sql_Text (c_bytes name)), st_rows = None\<rparr> cn2 = (Done (rc, st3), cn3)"
    and v: "V cn2 = V cn"
    by (auto dest!: prepare_Done bind_Done simp del: sql_text.simps)
  let ?rows = "case store_id_of (c_bytes name) t of None \<Rightarrow> [] | Some i \<Rightarrow> [[Sql_Int i]]"
  have "answer_of Select_Store ((\<lambda>_. Sql_Null)(1 := Sql_Text (c_bytes name))) t = Rows ?rows t"
    by simp
  from step_first_Done [OF s _ this] assms(2) v
  have "(rc, st3) = (if ?rows = [] then SQLITE_DONE else SQLITE_ROW, \<lparr>st_sql = sql_text Select_Store,
      st_params = (\<lambda>_. Sql_Null)(1 := Sql_Text (c_bytes name)), st_rows = Some ?rows\<rparr>)" "V cn3 = V cn"
    by (auto simp: same_view)
  with last show ?thesis
    by (cases "store_id_of (c_bytes name) t") (auto simp: column_int64_def column_def)
qed

lemma find_Failed:
  assumes "find_store E name cn = (Failed ESDB_ERR_NOT_FOUND e, cn')" and "v_now (V cn) = Present t"
  shows "V cn' = V cn \<and> store_id_of (c_bytes name) t = None"
proof -
  from assms(1) obtain st1 cn1 st2 cn2 rc st3 cn3 where
    "prepare E (sql_text Select_Store) OBJ cn = (Done st1, cn1)"
    "bind_value E 1 (Sql_Text (c_bytes name)) OBJ st1 cn1 = (Done st2, cn2)"
    "step E OBJ st2 cn2 = (Done (rc, st3), cn3)" and last: "rc = SQLITE_DONE" "cn' = cn3"
    unfolding find_store_def bind_defs
    by (auto simp: chain_Failed dest: prepare_Failed bind_Failed step_Failed split: if_splits)
  then have s: "step E OBJ \<lparr>st_sql = sql_text Select_Store,
      st_params = (\<lambda>_. Sql_Null)(1 := Sql_Text (c_bytes name)), st_rows = None\<rparr> cn2 = (Done (rc, st3), cn3)"
    and v: "V cn2 = V cn"
    by (auto dest!: prepare_Done bind_Done simp del: sql_text.simps)
  let ?rows = "case store_id_of (c_bytes name) t of None \<Rightarrow> [] | Some i \<Rightarrow> [[Sql_Int i]]"
  have "answer_of Select_Store ((\<lambda>_. Sql_Null)(1 := Sql_Text (c_bytes name))) t = Rows ?rows t"
    by simp
  from step_first_Done [OF s _ this] assms(2) v last show ?thesis
    by (cases "store_id_of (c_bytes name) t") (auto simp: same_view)
qed

lemma get_store_id_Done:
  assumes "get_store_id E now name True cn = (Done i, cn')" and "v_now (V cn) = Present t"
    and "store_id_of (c_bytes name) t = None \<Longrightarrow> next_row_id (tb_stores t) \<le> sql_max"
  shows "V cn' = \<lparr>v_now = Present (with_store (c_bytes name) now t), v_frames = v_frames (V cn)\<rparr>"
    and "store_id_of (c_bytes name) (with_store (c_bytes name) now t) = Some i"
proof -
  from assms(1) obtain cn1 where r: "register_store E now name cn = (Done (), cn1)"
    and f: "find_store E name cn1 = (Done i, cn')"
    unfolding get_store_id_def by (auto simp: chain_Done)
  note v1 = register_Done [OF r assms(2,3)]
  from find_Done [OF f, of "with_store (c_bytes name) now t"] v1
  show "V cn' = \<lparr>v_now = Present (with_store (c_bytes name) now t), v_frames = v_frames (V cn)\<rparr>"
    "store_id_of (c_bytes name) (with_store (c_bytes name) now t) = Some i"
    by simp_all
qed

lemma insert_change_Done:
  assumes "insert_change E s key operation type at cn = (Done r, cn')" and "v_now (V cn) = Present t"
    and "store_name_of s t \<noteq> None"
  shows "r = next_revision t" and "next_revision t \<le> sql_max"
    and "V cn' = \<lparr>v_now = Present (with_change s (c_bytes key) operation (sint type) at t),
      v_frames = v_frames (V cn)\<rparr>"
proof -
  let ?p = "(\<lambda>_. Sql_Null)(1 := Sql_Int s, 2 := Sql_Text (c_bytes key), 3 := Sql_Int operation,
      4 := Sql_Int (sint type), 5 := Sql_Int at)"
  from assms(1) obtain st1 cn1 st2 cn2 st3 cn3 st4 cn4 st5 cn5 st6 cn6 rc st7 cn7 rc' st8 cn8 where
    "prepare E (sql_text Insert_Change) OBJ cn = (Done st1, cn1)"
    "bind_value E 1 (Sql_Int s) OBJ st1 cn1 = (Done st2, cn2)"
    "bind_value E 2 (Sql_Text (c_bytes key)) OBJ st2 cn2 = (Done st3, cn3)"
    "bind_value E 3 (Sql_Int operation) OBJ st3 cn3 = (Done st4, cn4)"
    "bind_value E 4 (Sql_Int (sint type)) OBJ st4 cn4 = (Done st5, cn5)"
    "bind_value E 5 (Sql_Int at) OBJ st5 cn5 = (Done st6, cn6)"
    and s1: "step E OBJ st6 cn6 = (Done (rc, st7), cn7)"
    and s2: "step E OBJ st7 cn7 = (Done (rc', st8), cn8)"
    and last: "r = column_int64 E st7 0" "cn' = cn8"
    unfolding insert_change_def bind_defs Let_def
    by (auto simp: chain_Done split: if_splits)
  then have st6: "st6 = \<lparr>st_sql = sql_text Insert_Change, st_params = ?p, st_rows = None\<rparr>"
    and v: "V cn6 = V cn"
    by (auto dest!: prepare_Done bind_Done simp del: sql_text.simps)
  let ?ans = "database_answer Insert_Change ?p (v_now (V cn6))"
  obtain rc0 rows db where raw: "sq_step E (sql_text Insert_Change) ?p None (cn_db cn6) = (rc0, rows, db)"
    by (metis prod_cases3)
  from s1 st6 raw have "rc0 = SQLITE_ROW \<or> rc0 = SQLITE_DONE"
    by (auto simp: step_def Let_def split: if_splits)
  from step_refuses [OF raw this] v assms(2,3) show "next_revision t \<le> sql_max"
    by (auto simp: database_answer_def V_def next_revision_def Let_def max_def not_less split: if_splits)
  with assms(3) have ans: "answer_of Insert_Change ?p t
      = Rows [[Sql_Int (next_revision t)]] (with_change s (c_bytes key) operation (sint type) at t)"
    by (simp add: next_revision_def with_change_def Let_def not_less)
  from step_first_Done [OF s1 [unfolded st6] _ ans] v assms(2)
  have st7: "st7 = \<lparr>st_sql = sql_text Insert_Change, st_params = ?p, st_rows = Some [[Sql_Int (next_revision t)]]\<rparr>"
    and v7: "V cn7 = \<lparr>v_now = Present (with_change s (c_bytes key) operation (sint type) at t),
      v_frames = v_frames (V cn)\<rparr>"
    by simp_all
  from st7 last(1) show "r = next_revision t"
    by (simp add: column_int64_def column_def)
  from step_more_Done [OF s2 [unfolded st7]] v7 last(2)
  show "V cn' = \<lparr>v_now = Present (with_change s (c_bytes key) operation (sint type) at t),
      v_frames = v_frames (V cn)\<rparr>"
    by simp
qed

lemma upsert_Done:
  assumes "upsert_record E s key v r now cn = (Done u, cn')" and "v_now (V cn) = Present t"
    and "store_name_of s t \<noteq> None"
  shows "V cn' = \<lparr>v_now = Present (with_record s (c_bytes key) v r now t), v_frames = v_frames (V cn)\<rparr>"
proof -
  let ?p = "(\<lambda>_. Sql_Null)(1 := Sql_Int s, 2 := Sql_Text (c_bytes key), 3 := Sql_Int (sint (ev_type v)),
      4 := Sql_Blob (ev_payload v), 5 := Sql_Int r, 6 := Sql_Int now)"
  have payload: "(if ev_payload v = [] then bind_zeroblob E 4 0 OBJ st
      else bind_blob64 E 4 (ev_payload v) OBJ st) = bind_value E 4 (Sql_Blob (ev_payload v)) OBJ st" for st
    by (simp add: bind_zeroblob_def bind_blob64_def)
  from assms(1) obtain st1 cn1 st2 cn2 st3 cn3 st4 cn4 st5 cn5 st6 cn6 st7 cn7 x cn8 where
    "prepare E (sql_text Upsert_Record) OBJ cn = (Done st1, cn1)"
    "bind_value E 1 (Sql_Int s) OBJ st1 cn1 = (Done st2, cn2)"
    "bind_value E 2 (Sql_Text (c_bytes key)) OBJ st2 cn2 = (Done st3, cn3)"
    "bind_value E 3 (Sql_Int (sint (ev_type v))) OBJ st3 cn3 = (Done st4, cn4)"
    "bind_value E 4 (Sql_Blob (ev_payload v)) OBJ st4 cn4 = (Done st5, cn5)"
    "bind_value E 5 (Sql_Int r) OBJ st5 cn5 = (Done st6, cn6)"
    "bind_value E 6 (Sql_Int now) OBJ st6 cn6 = (Done st7, cn7)"
    and s1: "step E OBJ st7 cn7 = (Done x, cn8)" and last: "V cn' = V cn8"
    unfolding upsert_record_def payload unfolding bind_defs
    by (auto simp: chain_Done split: if_splits)
  then have st7: "st7 = \<lparr>st_sql = sql_text Upsert_Record, st_params = ?p, st_rows = None\<rparr>"
    and v: "V cn7 = V cn"
    by (auto dest!: prepare_Done bind_Done simp del: sql_text.simps)
  have "answer_of Upsert_Record ?p t = Rows [] (with_record s (c_bytes key) v r now t)"
    using assms(3) by (simp add: with_record_def Let_def)
  from step_first_Done [OF s1 [unfolded st7] _ this] v assms(2) last show ?thesis
    by simp
qed

lemma put_body_Done:
  assumes "put_body E now name key v cn = (Done r, cn')" and "v_now (V cn) = Present t"
    and "store_id_of (c_bytes name) t = None \<Longrightarrow> next_row_id (tb_stores t) \<le> sql_max"
    and "0 \<le> next_revision (with_store (c_bytes name) (now 0) t)"
  shows "V cn' = \<lparr>v_now = Present (put_tables now (c_bytes name) (c_bytes key) v t), v_frames = v_frames (V cn)\<rparr>"
    and "r = next_revision (with_store (c_bytes name) (now 0) t)" and "r \<le> sql_max"
proof -
  from assms(1) obtain s cn1 cn2 cn3 where
    1: "get_store_id E (now 0) name True cn = (Done s, cn1)" and
    2: "insert_change E s key ESDB_OBJECT_CHANGE_PUT (ev_type v) (now 1) cn1 = (Done r, cn2)" and
    3: "upsert_record E s key v r (now 2) cn2 = (Done (), cn3)" and
    4: "set_store_revision E r cn3 = (Done (), cn')"
    unfolding put_body_def by (auto simp: chain_Done)
  let ?t1 = "with_store (c_bytes name) (now 0) t"
  note a = get_store_id_Done [OF 1 assms(2,3)]
  then have now1: "v_now (V cn1) = Present ?t1" by simp
  note named = store_id_name [OF a(2)]
  note b = insert_change_Done [OF 2 now1 named]
  let ?t2 = "with_change s (c_bytes key) ESDB_OBJECT_CHANGE_PUT (sint (ev_type v)) (now 1) ?t1"
  have now2: "v_now (V cn2) = Present ?t2"
    using b(3) by simp
  have named2: "store_name_of s ?t2 \<noteq> None"
    using named by simp
  note c = upsert_Done [OF 3 now2 named2]
  have now3: "v_now (V cn3) = Present (with_record s (c_bytes key) v r (now 2) ?t2)"
    using c by simp
  have "0 \<le> r"
    using b(1) assms(4) by simp
  note d = set_revision_Done [OF 4 now3 this]
  show "r = next_revision ?t1" "r \<le> sql_max"
    using b(1,2) by simp_all
  show "V cn' = \<lparr>v_now = Present (put_tables now (c_bytes name) (c_bytes key) v t), v_frames = v_frames (V cn)\<rparr>"
    using d c b a by (simp add: put_tables_def Let_def)
qed

lemma delete_record_Done:
  assumes "delete_record E s key cn = (Done b, cn')" and "v_now (V cn) = Present t"
  shows "b \<longleftrightarrow> map_of (tb_records t) (s, Str (c_bytes key)) \<noteq> None"
    and "V cn' = \<lparr>v_now = Present (if b then t\<lparr>tb_records := map_erase (s, Str (c_bytes key)) (tb_records t)\<rparr> else t),
      v_frames = v_frames (V cn)\<rparr>"
proof -
  let ?p = "(\<lambda>_. Sql_Null)(1 := Sql_Int s, 2 := Sql_Text (c_bytes key))"
  from assms(1) obtain st1 cn1 st2 cn2 st3 cn3 rc st4 cn4 where
    "prepare E (sql_text Delete_Record) OBJ cn = (Done st1, cn1)"
    "bind_value E 1 (Sql_Int s) OBJ st1 cn1 = (Done st2, cn2)"
    "bind_value E 2 (Sql_Text (c_bytes key)) OBJ st2 cn2 = (Done st3, cn3)"
    and s1: "step E OBJ st3 cn3 = (Done (rc, st4), cn4)"
    and last: "if rc \<noteq> SQLITE_ROW then \<not> b \<and> cn' = cn4
      else b \<and> (\<exists>x. step E OBJ st4 cn4 = (Done x, cn'))"
    unfolding delete_record_def bind_defs
    by (fastforce simp: chain_Done split: if_splits)
  then have st3: "st3 = \<lparr>st_sql = sql_text Delete_Record, st_params = ?p, st_rows = None\<rparr>"
    and v: "V cn3 = V cn"
    by (auto dest!: prepare_Done bind_Done simp del: sql_text.simps)
  let ?present = "map_of (tb_records t) (s, Str (c_bytes key)) \<noteq> None"
  let ?t' = "if ?present then t\<lparr>tb_records := map_erase (s, Str (c_bytes key)) (tb_records t)\<rparr> else t"
  let ?rows = "if ?present then [[Sql_Int 1]] else []"
  have "answer_of Delete_Record ?p t = Rows ?rows ?t'"
    by simp
  from step_first_Done [OF s1 [unfolded st3] _ this] v assms(2)
  have 4: "(rc, st4) = (if ?rows = [] then SQLITE_DONE else SQLITE_ROW, \<lparr>st_sql = sql_text Delete_Record,
      st_params = ?p, st_rows = Some ?rows\<rparr>)"
    "V cn4 = \<lparr>v_now = Present ?t', v_frames = v_frames (V cn)\<rparr>"
    by simp_all
  show "b \<longleftrightarrow> ?present"
    using last 4(1) by (auto split: if_splits)
  show "V cn' = \<lparr>v_now = Present (if b then t\<lparr>tb_records := map_erase (s, Str (c_bytes key)) (tb_records t)\<rparr> else t),
      v_frames = v_frames (V cn)\<rparr>"
  proof (cases ?present)
    case True
    with 4 last obtain x where s2: "step E OBJ \<lparr>st_sql = sql_text Delete_Record, st_params = ?p,
        st_rows = Some [[Sql_Int 1]]\<rparr> cn4 = (Done x, cn')" and "b"
      by auto
    with step_more_Done [OF s2] 4(2) True show ?thesis
      by simp
  next
    case False
    with 4 last show ?thesis by auto
  qed
qed

section \<open>The schema\<close>

lemma inspect_Done:
  assumes "inspect_store_table_count E cn = (Done n, cn')"
  shows "V cn' = V cn" and "v_now (V cn) = Absent \<Longrightarrow> n = 0" and "v_now (V cn) = Present t \<Longrightarrow> n = 4"
proof -
  from obeys_Done [OF reads_inspect assms] show same: "V cn' = V cn" by blast
  from assms obtain st1 cn1 st2 cn2 where
    p: "prepare E (sql_text Count_Tables) OBJ cn = (Done st1, cn1)"
    and s: "step E OBJ st1 cn1 = (Done (SQLITE_ROW, st2), cn2)" and n: "n = column_int E st2 0"
    unfolding inspect_store_table_count_def Let_def by (auto simp: chain_Done split: if_splits)
  from p have st1: "st1 = \<lparr>st_sql = sql_text Count_Tables, st_params = \<lambda>_. Sql_Null, st_rows = None\<rparr>"
    and v: "V cn1 = V cn"
    by (auto dest!: prepare_Done simp del: sql_text.simps)
  obtain rc rows db where raw: "sq_step E (sql_text Count_Tables) (\<lambda>_. Sql_Null) None (cn_db cn1) = (rc, rows, db)"
    by (metis prod_cases3)
  with s st1 have ok: "rc = SQLITE_ROW \<or> rc = SQLITE_DONE" "st2 = st1\<lparr>st_rows := Some rows\<rparr>"
    by (auto simp: step_def Let_def split: if_splits)
  show "n = 0" if "v_now (V cn) = Absent"
  proof -
    from that v have "database_answer Count_Tables (\<lambda>_. Sql_Null) (v_now (view (cn_db cn1)))
        = (Rows [[Sql_Int 0]] initial_tables, \<lambda>_. Absent)"
      by (simp add: database_answer_def V_def)
    from step_answers [OF raw ok(1) this] ok(2) n show ?thesis
      by (simp add: column_int_def column_int64_def column_def)
  qed
  show "n = 4" if "v_now (V cn) = Present t"
  proof -
    from that v have "database_answer Count_Tables (\<lambda>_. Sql_Null) (v_now (view (cn_db cn1)))
        = (Rows [[Sql_Int 4]] t, Present)"
      by (simp add: database_answer_def V_def)
    from step_answers [OF raw ok(1) this] ok(2) n show ?thesis
      by (simp add: column_int_def column_int64_def column_def)
  qed
qed

lemma keeps_create: "keeps (exec_sql E SQL_CREATE_SCHEMA OBJ) (\<lambda>_. True)"
  unfolding obeys_def
proof (intro allI impI)
  fix cn r cn'
  assume "exec_sql E SQL_CREATE_SCHEMA OBJ cn = (r, cn')"
  then obtain rc m db where s: "sq_exec E SQL_CREATE_SCHEMA (cn_db cn) = (rc, m, db)" "V cn' = view db"
    "cn_schema_ready cn' = cn_schema_ready cn" "r = Done () \<longleftrightarrow> rc = SQLITE_OK"
    by (rule exec_run)
  with exec_create_frames [OF s(1)] show "cn_schema_ready cn' = cn_schema_ready cn \<and>
      (case r of Done x \<Rightarrow> v_frames (V cn') = v_frames (V cn) \<and> True
       | Failed s e \<Rightarrow> frame_failure (V cn) (V cn'))"
    by (cases r) (auto simp: V_def)
qed

lemma create_Done:
  assumes "exec_sql E SQL_CREATE_SCHEMA OBJ cn = (Done u, cn')" and "v_now (V cn) = Absent"
  shows "V cn' = \<lparr>v_now = Present initial_tables, v_frames = v_frames (V cn)\<rparr>"
proof -
  from assms(1) obtain rc m db where s: "sq_exec E SQL_CREATE_SCHEMA (cn_db cn) = (rc, m, db)" "V cn' = view db"
    "(Done u :: unit outcome) = Done () \<longleftrightarrow> rc = SQLITE_OK"
    by (rule exec_run) auto
  then have "sq_exec E SQL_CREATE_SCHEMA (cn_db cn) = (SQLITE_OK, m, db)"
    by simp
  from exec_create [OF this] assms(2) s(2) show ?thesis
    by (simp add: V_def now_update)
qed

lemma reads_in_scope:
  assumes "reads m P" and "guarded (rollback_store_mutation E owns) m cn = (r, cn')"
    and "in_scope v (V cn)" and "owns \<longleftrightarrow> v_frames v = []"
  shows "cn_schema_ready cn' = cn_schema_ready cn"
    and "case r of Done x \<Rightarrow> m cn = (Done x, cn') \<and> V cn' = V cn | Failed s e \<Rightarrow> scope_failure v (V cn')"
proof -
  have "keeps m P"
    unfolding obeys_def
  proof (intro allI impI)
    fix cn r cn'
    assume run: "m cn = (r, cn')"
    show "cn_schema_ready cn' = cn_schema_ready cn \<and>
      (case r of Done x \<Rightarrow> v_frames (V cn') = v_frames (V cn) \<and> P x
       | Failed s e \<Rightarrow> frame_failure (V cn) (V cn'))"
    proof (cases r)
      case (Done x)
      with obeys_Done [OF assms(1)] run show ?thesis by auto
    next
      case (Failed s e)
      with obeys_Failed [OF assms(1)] run show ?thesis by (auto intro: quiet_frame_failure)
    qed
  qed
  note g = guarded_in_scope [OF this assms(2-4)]
  show "cn_schema_ready cn' = cn_schema_ready cn" by (rule g(1))
  show "case r of Done x \<Rightarrow> m cn = (Done x, cn') \<and> V cn' = V cn | Failed s e \<Rightarrow> scope_failure v (V cn')"
    using g(2) obeys_Done [OF assms(1)] by (cases r) auto
qed

lemma create_schema_run:
  assumes "create_schema E cn = (r, cn')" and "v_now (V cn) = Absent"
  shows "cn_schema_ready cn' = cn_schema_ready cn"
    and "case r of Done _ \<Rightarrow> V cn' = \<lparr>v_now = Present initial_tables, v_frames = v_frames (V cn)\<rparr>
      | Failed s e \<Rightarrow> scope_failure (V cn) (V cn')"
proof -
  let ?v = "V cn"
  let ?goal = "cn_schema_ready cn' = cn_schema_ready cn \<and>
    (case r of Done _ \<Rightarrow> V cn' = \<lparr>v_now = Present initial_tables, v_frames = v_frames ?v\<rparr>
      | Failed s e \<Rightarrow> scope_failure ?v (V cn'))"
  obtain r1 cn1 where b: "begin_store_mutation E cn = (r1, cn1)" by fastforce
  note begun = begin_in_scope [OF b]
  have ?goal
  proof (cases r1)
    case (Failed s e)
    with assms(1) b begun show ?thesis
      by (auto simp: create_schema_def chain_def)
  next
    case (Done owns)
    with begun have 1: "cn_schema_ready cn1 = cn_schema_ready cn" "owns \<longleftrightarrow> v_frames ?v = []"
      "in_scope ?v (V cn1)" "v_now (V cn1) = Absent"
      using assms(2) by auto
    obtain r2 cn2 where i: "guarded (rollback_store_mutation E owns) (inspect_store_table_count E) cn1 = (r2, cn2)"
      by fastforce
    note inspected = reads_in_scope [OF reads_inspect i 1(3,2)]
    show ?thesis
    proof (cases r2)
      case (Failed s e)
      with assms(1) b Done i inspected 1(1) show ?thesis
        by (auto simp: create_schema_def chain_def)
    next
      case done2: (Done n)
      with inspected have 2: "cn_schema_ready cn2 = cn_schema_ready cn" "V cn2 = V cn1"
        "inspect_store_table_count E cn1 = (Done n, cn2)"
        using 1(1) by auto
      from inspect_Done(2) [OF 2(3)] 1(4) have n: "n = 0" by simp
      obtain r3 cn3 where c: "guarded (rollback_store_mutation E owns) (exec_sql E SQL_CREATE_SCHEMA OBJ) cn2 = (r3, cn3)"
        by fastforce
      have scope2: "in_scope ?v (V cn2)" using 1(3) 2(2) by simp
      note created = guarded_in_scope [OF keeps_create c scope2 1(2)]
      show ?thesis
      proof (cases r3)
        case (Failed s e)
        with assms(1) b Done i done2 n c created 2(1) show ?thesis
          by (auto simp: create_schema_def chain_def)
      next
        case done3: (Done u)
        with created have 3: "in_scope ?v (V cn3)" "exec_sql E SQL_CREATE_SCHEMA OBJ cn2 = (Done u, cn3)"
          "cn_schema_ready cn3 = cn_schema_ready cn"
          using 2(1) by auto
        from create_Done [OF 3(2)] 1(4) 2(2) have now3: "v_now (V cn3) = Present initial_tables" by simp
        from assms(1) b Done i done2 n c done3
        have "commit_store_mutation E owns cn3 = (r, cn')"
          by (simp add: create_schema_def chain_def)
        note committed = commit_in_scope [OF this 3(1) 1(2)]
        with now3 3(3) show ?thesis by (cases r) auto
      qed
    qed
  qed
  then show "cn_schema_ready cn' = cn_schema_ready cn"
    and "case r of Done _ \<Rightarrow> V cn' = \<lparr>v_now = Present initial_tables, v_frames = v_frames (V cn)\<rparr>
      | Failed s e \<Rightarrow> scope_failure (V cn) (V cn')"
    by blast+
qed

text \<open>
  The schema the operations run on: the tables that are there, or the initial ones once they
  have been created.
\<close>

definition usable :: "'d connection \<Rightarrow> store_tables \<Rightarrow> bool" where
  "usable cn t \<longleftrightarrow> v_now (V cn) = Present t \<or>
     (v_now (V cn) = Absent \<and> \<not> cn_schema_ready cn \<and> t = initial_tables)"

lemma checks_run:
  assumes "chain (check_schema_version E) (\<lambda>_. chain (read_store_revision_metadata E)
      (\<lambda>_ cn. (Done (), cn\<lparr>cn_schema_ready := True\<rparr>))) cn = (r, cn')"
  shows "case r of Done _ \<Rightarrow> V cn' = V cn \<and> cn_schema_ready cn'
    | Failed s e \<Rightarrow> quiet_failure (V cn) (V cn') \<and> cn_schema_ready cn' = cn_schema_ready cn"
proof -
  obtain r1 cn1 where c1: "check_schema_version E cn = (r1, cn1)" by fastforce
  show ?thesis
  proof (cases r1)
    case (Failed s e)
    with assms c1 obeys_Failed [OF reads_version] show ?thesis
      by (auto simp: chain_def)
  next
    case (Done u)
    with c1 obeys_Done [OF reads_version] have 1: "V cn1 = V cn" "cn_schema_ready cn1 = cn_schema_ready cn"
      by blast+
    obtain r2 cn2 where c2: "read_store_revision_metadata E cn1 = (r2, cn2)" by fastforce
    show ?thesis
    proof (cases r2)
      case (Failed s e)
      from obeys_Failed [OF reads_metadata c2 [unfolded Failed]] 1
      have "quiet_failure (V cn) (V cn2)" "cn_schema_ready cn2 = cn_schema_ready cn" by auto
      with assms c1 Done c2 Failed show ?thesis
        by (auto simp: chain_def)
    next
      case done2: (Done n)
      from obeys_Done [OF reads_metadata c2 [unfolded done2]] 1 have "V cn2 = V cn" by auto
      with assms c1 Done c2 done2 show ?thesis
        by (auto simp: chain_def)
    qed
  qed
qed

text \<open>The checks after the tables were counted or created.\<close>

definition schema_checks :: "('d, unit) action" where
  "schema_checks = chain (check_schema_version E) (\<lambda>_. chain (read_store_revision_metadata E)
     (\<lambda>_ cn. (Done (), cn\<lparr>cn_schema_ready := True\<rparr>)))"

lemma quiet_ensure_failure: "quiet_failure v v' \<Longrightarrow> ensure_failure t v v'"
  by (simp add: ensure_failure_def quiet_scope_failure)

lemma ensure_absent_run:
  assumes "ensure_object_store_schema E cn = (r, cn')" and "\<not> cn_schema_ready cn" and "v_now (V cn) = Absent"
    and "t = initial_tables" and "\<not> sq_readonly E (cn_db cn) < 0"
    and i: "inspect_store_table_count E cn = (Done n, cn1)"
  shows "case r of Done _ \<Rightarrow> V cn' = with_schema t (V cn) \<and> cn_schema_ready cn'
    | Failed s e \<Rightarrow> ensure_failure t (V cn) (V cn') \<and> cn_schema_ready cn' = cn_schema_ready cn"
proof -
  note inspected = inspect_Done [OF i]
  from i obeys_Done [OF reads_inspect] have ready1: "cn_schema_ready cn1 = cn_schema_ready cn" by blast
  have n: "n = 0" using inspected(2) [OF assms(3)] .
  show ?thesis
  proof (cases "sq_readonly E (cn_db cn) = 0")
    case True
    obtain r2 cn2 where c: "create_schema E cn1 = (r2, cn2)" by fastforce
    from inspected(1) assms(3) have "v_now (V cn1) = Absent" by simp
    note created = create_schema_run [OF c this]
    show ?thesis
    proof (cases r2)
      case (Failed s e)
      with True assms(1,2,5) i n c created inspected(1) ready1 show ?thesis
        by (auto simp: ensure_object_store_schema_def Let_def chain_def ensure_failure_def)
    next
      case (Done u)
      with True assms(1,2,5) i n c have "schema_checks cn2 = (r, cn')"
        by (simp add: ensure_object_store_schema_def Let_def chain_def schema_checks_def)
      moreover have "V cn2 = with_schema t (V cn)" "cn_schema_ready cn2 = cn_schema_ready cn"
        using Done created inspected(1) ready1 assms(4) by (auto simp: with_schema_def)
      ultimately show ?thesis
        using checks_run [of cn2 r cn'] by (cases r) (auto simp: ensure_failure_def schema_checks_def)
    qed
  next
    case False
    with assms(1,2,5) i n have "cn_fail E ESDB_ERR_NOT_FOUND OBJ SQLITE_NOTFOUND
        (Some ''ESDB Store schema is not present in the read-only database'') cn1 = (r, cn') \<or>
      (\<exists>s e. r = Failed s e \<and> V cn' = V cn1 \<and> cn_schema_ready cn' = cn_schema_ready cn1)"
      by (auto simp: ensure_object_store_schema_def Let_def chain_def cn_fail_def fail_with_def)
    with inspected(1) ready1 show ?thesis
      by (auto simp: quiet_ensure_failure dest!: cn_fail_run)
  qed
qed

text \<open>With the tables there, the schema is only checked.\<close>

lemma ensure_present_run:
  assumes "ensure_object_store_schema E cn = (r, cn')" and "v_now (V cn) = Present t"
  shows "case r of Done _ \<Rightarrow> V cn' = V cn \<and> cn_schema_ready cn'
    | Failed s e \<Rightarrow> quiet_failure (V cn) (V cn') \<and> cn_schema_ready cn' = cn_schema_ready cn"
proof (cases "cn_schema_ready cn \<or> sq_readonly E (cn_db cn) < 0")
  case True
  with assms show ?thesis
    by (auto simp: ensure_object_store_schema_def give_def Let_def quiet_failure_def split: if_splits dest!: cn_fail_run)
next
  case False
  obtain r1 cn1 where i: "inspect_store_table_count E cn = (r1, cn1)" by fastforce
  show ?thesis
  proof (cases r1)
    case (Failed s e)
    with False assms(1) i obeys_Failed [OF reads_inspect] show ?thesis
      by (auto simp: ensure_object_store_schema_def Let_def chain_def)
  next
    case (Done n)
    note inspected = inspect_Done [OF i [unfolded Done]]
    from i Done obeys_Done [OF reads_inspect] have ready1: "cn_schema_ready cn1 = cn_schema_ready cn"
      by blast
    from inspected(3) [OF assms(2)] False assms(1) i Done have "schema_checks cn1 = (r, cn')"
      by (simp add: ensure_object_store_schema_def Let_def chain_def give_def schema_checks_def)
    from checks_run [OF this [unfolded schema_checks_def]] inspected(1) ready1 show ?thesis
      by (cases r) auto
  qed
qed

lemma ensure_run:
  assumes "ensure_object_store_schema E cn = (r, cn')" and "usable cn t"
  shows "case r of Done _ \<Rightarrow> V cn' = with_schema t (V cn) \<and> cn_schema_ready cn'
    | Failed s e \<Rightarrow> ensure_failure t (V cn) (V cn') \<and> cn_schema_ready cn' = cn_schema_ready cn"
proof (cases "v_now (V cn) = Present t")
  case True
  with ensure_present_run [OF assms(1) True] show ?thesis
    by (cases r) (auto simp: with_schema_def same_view quiet_ensure_failure)
next
  case False
  with assms(2) have absent: "v_now (V cn) = Absent" "\<not> cn_schema_ready cn" "t = initial_tables"
    by (auto simp: usable_def)
  show ?thesis
  proof (cases "sq_readonly E (cn_db cn) < 0")
    case True
    with absent assms(1) show ?thesis
      by (auto simp: ensure_object_store_schema_def Let_def quiet_ensure_failure dest!: cn_fail_run)
  next
    case ro: False
    obtain r1 cn1 where i: "inspect_store_table_count E cn = (r1, cn1)" by fastforce
    show ?thesis
    proof (cases r1)
      case (Failed s e)
      with absent ro assms(1) i obeys_Failed [OF reads_inspect] show ?thesis
        by (auto simp: ensure_object_store_schema_def Let_def chain_def quiet_ensure_failure)
    next
      case (Done n)
      from ensure_absent_run [OF assms(1) absent(2,1,3) ro i [unfolded Done]] show ?thesis .
    qed
  qed
qed

end

end
