(* ===== verification/Object_Store_Runs.thy ===== *)
theory Object_Store_Runs
  imports Object_Store_Rules
begin

text \<open>
  Whole operations of the object store over any engine that satisfies the contract: what a put,
  a delete, a get, a prune or a change query answers and does to the tables when it succeeds,
  and what it may leave behind when it fails.
\<close>

text \<open>
  A failed mutation leaves what a failed scope leaves, from the view before the call or from
  that view with the schema created.
\<close>

definition schema_ready_view :: "store_tables \<Rightarrow> sql_view \<Rightarrow> sql_view" where
  "schema_ready_view t v = \<lparr>v_now = Present t, v_frames = v_frames v\<rparr>"

definition undone_scope :: "sql_view \<Rightarrow> sql_view \<Rightarrow> bool" where
  "undone_scope v v' \<longleftrightarrow> v' = v \<or> rolled_back v v' \<or>
     v_frames v' = (if v_frames v = [] then F_Begin else MUTATION_FRAME, v_now v) # v_frames v"

definition failed_mutation :: "store_tables \<Rightarrow> sql_view \<Rightarrow> sql_view \<Rightarrow> bool" where
  "failed_mutation t v v' \<longleftrightarrow> undone_scope v v' \<or> undone_scope (schema_ready_view t v) v'"

text \<open>The tables an operation runs on: those that are there, or the ones the schema creates.\<close>

definition runs_on :: "sql_view \<Rightarrow> bool \<Rightarrow> store_tables \<Rightarrow> bool" where
  "runs_on v ready t \<longleftrightarrow> v_now v = Present t \<or> (v_now v = Absent \<and> \<not> ready \<and> t = initial_tables)"

lemma failed_mutation_refl [simp]: "failed_mutation t v v"
  by (simp add: failed_mutation_def undone_scope_def)

lemma undone_committed: "undone_scope v v' \<Longrightarrow> committed v' = committed v"
  by (auto simp: undone_scope_def rolled_back_def committed_def)

lemma failed_mutation_committed:
  assumes "failed_mutation t v v'" and "runs_on v ready t"
  shows "committed v' = committed v \<or>
    (v_frames v = [] \<and> v_now v = Absent \<and> committed v' = Present initial_tables)"
proof -
  have "committed (schema_ready_view t v) = committed v \<or>
      (v_frames v = [] \<and> v_now v = Absent \<and> committed (schema_ready_view t v) = Present initial_tables)"
    using assms(2) by (auto simp: runs_on_def schema_ready_view_def committed_def)
  with assms(1) undone_committed show ?thesis
    unfolding failed_mutation_def by metis
qed

text \<open>What a successful put promises.\<close>

definition put_done ::
  "(nat \<Rightarrow> int) \<Rightarrow> byte list option \<Rightarrow> byte list option \<Rightarrow> esdb_value option \<Rightarrow> store_tables
   \<Rightarrow> u64 \<Rightarrow> sql_view \<Rightarrow> sql_view \<Rightarrow> bool" where
  "put_done now name key v t revision view0 view1 \<longleftrightarrow>
     valid_object_store_name name \<and> valid_object_store_key key \<and> v \<noteq> None \<and> valid_value_type (ev_type (the v)) \<and>
     view1 = schema_ready_view (put_tables now (c_bytes (the name)) (c_bytes (the key)) (the v) t) view0 \<and>
     revision = of_int (next_revision (with_store (c_bytes (the name)) (now 0) t)) \<and>
     next_revision (with_store (c_bytes (the name)) (now 0) t) \<le> sql_max"

definition delete_done ::
  "int \<Rightarrow> byte list option \<Rightarrow> byte list option \<Rightarrow> store_tables \<Rightarrow> bool \<Rightarrow> u64 \<Rightarrow> sql_view \<Rightarrow> sql_view \<Rightarrow> bool"
where
  "delete_done now name key t deleted revision view0 view1 \<longleftrightarrow>
     valid_object_store_name name \<and> valid_object_store_key key \<and>
     (deleted \<longleftrightarrow> find_record (c_bytes (the name)) (c_bytes (the key)) t \<noteq> None) \<and>
     view1 = schema_ready_view
       (if deleted then delete_tables now (c_bytes (the name)) (c_bytes (the key)) t else t) view0 \<and>
     revision = (if deleted then of_int (next_revision t) else 0) \<and>
     (deleted \<longrightarrow> next_revision t \<le> sql_max)"

context sqlite_engine
begin

lemma scope_failure_undone: "scope_failure v v' \<longleftrightarrow> undone_scope v v'"
  by (simp add: scope_failure_def undone_scope_def scope_frame_def)

lemma with_schema_ready: "with_schema t v = schema_ready_view t v"
  by (simp add: with_schema_def schema_ready_view_def)

lemma usable_runs_on: "usable cn t \<longleftrightarrow> runs_on (V cn) (cn_schema_ready cn) t"
  by (simp add: usable_def runs_on_def)

lemma ensure_failure_mutation: "ensure_failure t v v' \<Longrightarrow> failed_mutation t v v'"
  by (auto simp: ensure_failure_def failed_mutation_def scope_failure_undone with_schema_ready
      dest: quiet_scope_failure)

lemma public_call_run:
  assumes "public_call n m (Some cn) = (r, Some cn')"
  obtains cn0 where "m cn0 = (r, cn')" "V cn0 = V cn" "cn_schema_ready cn0 = cn_schema_ready cn"
  using assms by (auto simp: public_call_def on_database_def intro!: that [of "metrics_only count_operation cn"]
      split: prod.splits)

text \<open>A scope with one body: opened, run, rolled back when the body fails, closed.\<close>

lemma scope_run:
  assumes "chain (begin_store_mutation E) (\<lambda>owns.
      chain (guarded (rollback_store_mutation E owns) m) (\<lambda>x.
      chain (commit_store_mutation E owns) (\<lambda>_. give (f x)))) cn = (r, cn')"
    and "keeps m P"
  shows "case r of
      Done y \<Rightarrow> \<exists>x cn1 cn2. m cn1 = (Done x, cn2) \<and> y = f x \<and> v_now (V cn1) = v_now (V cn) \<and>
        V cn' = \<lparr>v_now = v_now (V cn2), v_frames = v_frames (V cn)\<rparr> \<and> cn_schema_ready cn' = cn_schema_ready cn
    | Failed s e \<Rightarrow> scope_failure (V cn) (V cn') \<and> cn_schema_ready cn' = cn_schema_ready cn"
proof -
  obtain r1 cn1 where b: "begin_store_mutation E cn = (r1, cn1)" by fastforce
  note begun = begin_in_scope [OF b]
  show ?thesis
  proof (cases r1)
    case (Failed s e)
    with assms(1) b begun show ?thesis by (auto simp: chain_def)
  next
    case (Done owns)
    with begun have 1: "cn_schema_ready cn1 = cn_schema_ready cn" "owns \<longleftrightarrow> v_frames (V cn) = []"
      "in_scope (V cn) (V cn1)" "v_now (V cn1) = v_now (V cn)" by auto
    obtain r2 cn2 where g: "guarded (rollback_store_mutation E owns) m cn1 = (r2, cn2)" by fastforce
    note body = guarded_in_scope [OF assms(2) g 1(3,2)]
    show ?thesis
    proof (cases r2)
      case (Failed s e)
      with assms(1) b Done g body 1(1) show ?thesis by (auto simp: chain_def)
    next
      case done2: (Done x)
      with body have 2: "m cn1 = (Done x, cn2)" "in_scope (V cn) (V cn2)" "cn_schema_ready cn2 = cn_schema_ready cn"
        using 1(1) by auto
      obtain r3 cn3 where c: "commit_store_mutation E owns cn2 = (r3, cn3)" by fastforce
      note commit = commit_in_scope [OF c 2(2) 1(2)]
      from assms(1) b Done g done2 c
      have "(case r3 of Done _ \<Rightarrow> (Done (f x), cn3) | Failed s e \<Rightarrow> (Failed s e, cn3)) = (r, cn')"
        by (auto simp: chain_def give_def split: outcome.splits)
      moreover have "(\<exists>u. r3 = Done u \<and> r = Done (f x) \<and> cn' = cn3) \<or> (\<exists>s e. r3 = Failed s e \<and> r = Failed s e \<and> cn' = cn3)"
        using calculation by (cases r3) auto
      ultimately show ?thesis
        using commit 2 1(4) by (elim disjE exE conjE) (simp, blast, simp)
    qed
  qed
qed

section \<open>Missing names and keys\<close>

text \<open>Which failures report ESDB_ERR_NOT_FOUND: a missing store or key, and nothing of the engine's.\<close>

definition never_missing :: "('d, 'a) action \<Rightarrow> bool" where
  "never_missing m \<longleftrightarrow> (\<forall>cn s e cn'. m cn = (Failed s e, cn') \<longrightarrow> s \<noteq> ESDB_ERR_NOT_FOUND)"

lemma never_missingD: "never_missing m \<Longrightarrow> m cn \<noteq> (Failed ESDB_ERR_NOT_FOUND e, cn')"
  unfolding never_missing_def by blast

lemma never_missing_chain: "never_missing m \<Longrightarrow> (\<And>x. never_missing (f x)) \<Longrightarrow> never_missing (chain m f)"
  unfolding never_missing_def chain_Failed by blast

lemma never_missing_step_chain:
  "(\<And>rc st'. never_missing (g rc st')) \<Longrightarrow> never_missing (chain (step E ph st) (\<lambda>(rc, st'). g rc st'))"
  by (rule never_missing_chain) (simp_all add: never_missing_def split_beta, blast dest: step_Failed)

lemma never_missing_guarded: "never_missing m \<Longrightarrow> never_missing (guarded c m)"
  unfolding never_missing_def by (auto simp: guarded_Failed)

lemma never_missing_fail: "s \<noteq> ESDB_ERR_NOT_FOUND \<Longrightarrow> never_missing (cn_fail E s ph c m)"
  unfolding never_missing_def by (auto dest: cn_fail_status)

lemma never_missing_basic:
  "never_missing (prepare E sql ph)" "never_missing (bind_value E i v ph st)" "never_missing (give x)"
  unfolding never_missing_def by (auto dest: prepare_Failed bind_Failed)

lemma never_missing_exec: "never_missing (exec_sql E sql ph)"
  unfolding never_missing_def
proof (intro allI impI)
  fix cn s e cn'
  assume "exec_sql E sql ph cn = (Failed s e, cn')"
  moreover obtain rc m db where "sq_exec E sql (cn_db cn) = (rc, m, db)" by (metis prod_cases3)
  ultimately show "s \<noteq> ESDB_ERR_NOT_FOUND"
    using exec_code [of sql "cn_db cn" rc m db]
    by (auto simp: exec_sql_def Let_def error_code_def dest: cn_fail_status split: if_splits)
qed

lemma never_missing_if: "(b \<Longrightarrow> never_missing m) \<Longrightarrow> (\<not> b \<Longrightarrow> never_missing m') \<Longrightarrow> never_missing (if b then m else m')"
  by simp

lemmas never_missing_rules = never_missing_step_chain never_missing_chain never_missing_guarded never_missing_fail
  never_missing_basic never_missing_exec never_missing_if

lemma never_missing_inspect: "never_missing (inspect_store_table_count E)"
  unfolding inspect_store_table_count_def Let_def by (intro never_missing_rules) simp_all

lemma never_missing_begin: "never_missing (begin_store_mutation E)"
  unfolding begin_store_mutation_def Let_def never_missing_def
  using never_missing_exec [unfolded never_missing_def] by (auto simp: chain_Failed give_def)

lemma never_missing_commit: "never_missing (commit_store_mutation E owns)"
  unfolding commit_store_mutation_def
  by (intro never_missing_chain never_missing_guarded never_missing_exec) (auto simp: never_missing_def give_def)

lemma never_missing_partial: "never_missing (\<lambda>cn. partial_schema E (f cn))"
  unfolding never_missing_def partial_schema_def by (auto dest: cn_fail_status)

lemma never_missing_create: "never_missing (create_schema E)"
  unfolding create_schema_def
  by (intro never_missing_rules never_missing_begin never_missing_inspect never_missing_partial
      never_missing_commit)

lemma never_missing_version: "never_missing (check_schema_version E)"
  unfolding check_schema_version_def
  by (intro never_missing_rules) (auto intro!: never_missing_rules split: option.splits)

lemma never_missing_metadata: "never_missing (read_store_revision_metadata E)"
  unfolding read_store_revision_metadata_def Let_def
  by (intro never_missing_rules) (auto intro!: never_missing_rules split: option.splits)

lemma ensure_missing:
  assumes "ensure_object_store_schema E cn = (Failed ESDB_ERR_NOT_FOUND e, cn')"
  shows "v_now (V cn) \<noteq> Present t"
proof
  assume present: "v_now (V cn) = Present t"
  let ?ready = "(\<lambda>_ cn. (Done (), cn\<lparr>cn_schema_ready := True\<rparr>)) :: u64 \<Rightarrow> ('d, unit) action"
  have "never_missing (?ready x)" for x
    by (simp add: never_missing_def)
  then have checks: "never_missing (chain (check_schema_version E) (\<lambda>_. chain (read_store_revision_metadata E) ?ready))"
    by (intro never_missing_chain never_missing_version never_missing_metadata)
  from assms have rest: "\<not> cn_schema_ready cn" "chain (inspect_store_table_count E) (\<lambda>count.
          if count \<noteq> 0 \<and> count \<noteq> 4 then partial_schema E
          else
           chain (if count = 0
              then (if sq_readonly E (cn_db cn) \<noteq> 0
                then cn_fail E ESDB_ERR_NOT_FOUND OBJ SQLITE_NOTFOUND
                       (Some ''ESDB Store schema is not present in the read-only database'')
                else create_schema E)
              else give ()) (\<lambda>_.
           chain (check_schema_version E) (\<lambda>_. chain (read_store_revision_metadata E) ?ready))) cn
      = (Failed ESDB_ERR_NOT_FOUND e, cn')"
    by (auto simp: ensure_object_store_schema_def Let_def dest: cn_fail_status split: if_splits)
  then obtain count cn1 where i: "inspect_store_table_count E cn = (Done count, cn1)"
    using never_missingD [OF never_missing_inspect] by (auto simp: chain_Failed)
  with inspect_Done(3) [OF i present] rest(2) never_missingD [OF checks] show False
    by (auto simp: chain_def give_def)
qed

text \<open>A schema that is missing and cannot be created leaves everything as it was.\<close>

lemma ensure_missing_view:
  assumes "ensure_object_store_schema E cn = (Failed ESDB_ERR_NOT_FOUND e, cn')"
  shows "V cn' = V cn"
proof -
  let ?ready = "(\<lambda>_ cn. (Done (), cn\<lparr>cn_schema_ready := True\<rparr>)) :: u64 \<Rightarrow> ('d, unit) action"
  let ?checks = "chain (check_schema_version E) (\<lambda>_. chain (read_store_revision_metadata E) ?ready)"
  have "never_missing (?ready x)" for x by (simp add: never_missing_def)
  then have checks: "never_missing ?checks"
    by (intro never_missing_chain never_missing_version never_missing_metadata)
  then have create: "never_missing (chain (create_schema E) (\<lambda>_. ?checks))"
    by (rule never_missing_chain [OF never_missing_create])
  note partial = never_missing_partial [where f = "\<lambda>cn. cn", simplified]
  have stopped: "chain (cn_fail E st ph c m) f cn1 = (r, cn') \<Longrightarrow> V cn' = V cn1"
    for st ph c m and f :: "unit \<Rightarrow> ('d, unit) action" and cn1 r
    by (auto simp: chain_def cn_fail_def fail_with_def V_def Let_def)
  show ?thesis
  proof (cases "cn_schema_ready cn \<or> sq_readonly E (cn_db cn) < 0")
    case True
    with assms show ?thesis
      by (auto simp: ensure_object_store_schema_def give_def Let_def split: if_splits dest: cn_fail_run)
  next
    case False
    with assms have "chain (inspect_store_table_count E) (\<lambda>count.
          if count \<noteq> 0 \<and> count \<noteq> 4 then partial_schema E
          else
           chain (if count = 0
              then (if sq_readonly E (cn_db cn) \<noteq> 0
                then cn_fail E ESDB_ERR_NOT_FOUND OBJ SQLITE_NOTFOUND
                       (Some ''ESDB Store schema is not present in the read-only database'')
                else create_schema E)
              else give ()) (\<lambda>_. ?checks)) cn = (Failed ESDB_ERR_NOT_FOUND e, cn')"
      by (simp add: ensure_object_store_schema_def Let_def)
    then obtain n cn1 where i: "inspect_store_table_count E cn = (Done n, cn1)"
      and rest: "(if n \<noteq> 0 \<and> n \<noteq> 4 then partial_schema E
          else
           chain (if n = 0
              then (if sq_readonly E (cn_db cn) \<noteq> 0
                then cn_fail E ESDB_ERR_NOT_FOUND OBJ SQLITE_NOTFOUND
                       (Some ''ESDB Store schema is not present in the read-only database'')
                else create_schema E)
              else give ()) (\<lambda>_. ?checks)) cn1 = (Failed ESDB_ERR_NOT_FOUND e, cn')"
      using never_missingD [OF never_missing_inspect] unfolding chain_Failed by blast
    have "never_missing (chain (give ()) (\<lambda>_. ?checks))"
      by (rule never_missing_chain [OF never_missing_basic(3) checks])
    with rest create partial have "V cn' = V cn1"
      by (auto dest: never_missingD stopped split: if_splits)
    with obeys_Done [OF reads_inspect i] show ?thesis by simp
  qed
qed

section \<open>Put\<close>

lemma ensured_run:
  assumes "chain (ensure_object_store_schema E) (\<lambda>_. m) cn = (r, cn')" and "usable cn t"
  obtains (failed) s e where "r = Failed s e" "failed_mutation t (V cn) (V cn')"
      "cn_schema_ready cn' = cn_schema_ready cn"
      "s = ESDB_ERR_NOT_FOUND \<longrightarrow> v_now (V cn) = Absent \<and> t = initial_tables"
      "s = ESDB_ERR_NOT_FOUND \<longrightarrow> V cn' = V cn" "v_now (V cn) = Present t \<longrightarrow> quiet_failure (V cn) (V cn')"
  | (ensured) cn1 where "m cn1 = (r, cn')" "V cn1 = schema_ready_view t (V cn)" "cn_schema_ready cn1"
proof -
  obtain r1 cn1 where e: "ensure_object_store_schema E cn = (r1, cn1)" by fastforce
  note run = ensure_run [OF e assms(2)]
  show thesis
  proof (cases r1)
    case (Failed s e')
    have "s = ESDB_ERR_NOT_FOUND \<longrightarrow> v_now (V cn) = Absent \<and> t = initial_tables"
      using assms(2) e Failed ensure_missing by (auto simp: usable_def)
    moreover have "s = ESDB_ERR_NOT_FOUND \<longrightarrow> V cn1 = V cn"
      using e Failed ensure_missing_view by auto
    moreover have "v_now (V cn) = Present t \<longrightarrow> quiet_failure (V cn) (V cn1)"
      using ensure_present_run [OF e] Failed by auto
    ultimately show thesis
      using assms(1) e run ensure_failure_mutation failed Failed
      by (auto simp: chain_def)
  next
    case (Done u)
    with assms(1) e run ensured show thesis
      by (auto simp: chain_def with_schema_ready)
  qed
qed

lemma writable_chain:
  assumes "chain (require_store_writable E) (\<lambda>_. m) cn = (r, cn')"
  obtains (failed) s e where "r = Failed s e" "V cn' = V cn" "cn_schema_ready cn' = cn_schema_ready cn"
  | (writable) "m cn = (r, cn')"
proof -
  obtain r1 cn1 where w: "require_store_writable E cn = (r1, cn1)" by fastforce
  note run = writable_run [OF w]
  show thesis
  proof (cases r1)
    case (Failed s e')
    with assms(1) w run failed show thesis by (auto simp: chain_def)
  next
    case (Done u)
    with assms(1) w run writable show thesis by (auto simp: chain_def)
  qed
qed

lemma failed_after_schema:
  "V cn1 = schema_ready_view t v \<Longrightarrow> scope_failure (V cn1) v' \<Longrightarrow> failed_mutation t v v'"
  "V cn1 = schema_ready_view t v \<Longrightarrow> quiet_failure (V cn1) v' \<Longrightarrow> failed_mutation t v v'"
  by (auto simp: failed_mutation_def scope_failure_undone dest: quiet_scope_failure)

lemma schema_ready_view_simps [simp]:
  "v_now (schema_ready_view t v) = Present t" "v_frames (schema_ready_view t v) = v_frames v"
  by (simp_all add: schema_ready_view_def)

lemma put_run:
  assumes "esdb_object_store_put E now name key v (Some cn) = (r, Some cn')" and "usable cn t"
    and "store_id_of (c_bytes (the name)) t = None \<Longrightarrow> next_row_id (tb_stores t) \<le> sql_max"
    and "0 \<le> next_revision (with_store (c_bytes (the name)) (now 0) t)"
  shows "case r of
      Done revision \<Rightarrow> put_done now name key v t revision (V cn) (V cn') \<and> cn_schema_ready cn'
    | Failed s e \<Rightarrow> failed_mutation t (V cn) (V cn')"
proof -
  let ?bad = "\<not> valid_object_store_name name \<or> \<not> valid_object_store_key key \<or> v = None
      \<or> \<not> valid_value_type (ev_type (the v))"
  from assms(1) obtain cn0 where run: "(if ?bad
      then cn_fail E ESDB_ERR_INVALID_ARGUMENT OBJ SQLITE_MISUSE (Some ''invalid store put arguments'')
      else chain (ensure_object_store_schema E) (\<lambda>_. chain (require_store_writable E) (\<lambda>_.
        chain (begin_store_mutation E) (\<lambda>owns.
        chain (guarded (rollback_store_mutation E owns) (put_body E now (the name) (the key) (the v))) (\<lambda>revision.
        chain (commit_store_mutation E owns) (\<lambda>_. give (of_int revision :: u64))))))) cn0 = (r, cn')"
    and cn0: "V cn0 = V cn" "cn_schema_ready cn0 = cn_schema_ready cn"
    unfolding esdb_object_store_put_def by (rule public_call_run)
  have usable0: "usable cn0 t" using assms(2) cn0 by (simp add: usable_def)
  show ?thesis
  proof (cases ?bad)
    case True
    with run cn0 show ?thesis by (auto dest!: cn_fail_run)
  next
    case good: False
    from run [unfolded if_not_P [OF good]] usable0 show ?thesis
    proof (cases rule: ensured_run)
      case failed
      with cn0 show ?thesis by simp
    next
      case (ensured cn1)
      from ensured(1) show ?thesis
      proof (cases rule: writable_chain)
        case failed
        with ensured(2) cn0 show ?thesis by (simp add: failed_mutation_def undone_scope_def)
      next
        case writable
        note scope = scope_run [OF writable keeps_put_body]
        show ?thesis
        proof (cases r)
          case (Failed s e')
          with scope ensured(2) cn0 failed_after_schema(1) [of cn1 t "V cn"] show ?thesis by simp
        next
          case (Done revision)
          with scope obtain x cn3 cn4 where b: "put_body E now (the name) (the key) (the v) cn3 = (Done x, cn4)"
            "revision = of_int x" "v_now (V cn3) = v_now (V cn1)"
            "V cn' = \<lparr>v_now = v_now (V cn4), v_frames = v_frames (V cn1)\<rparr>" "cn_schema_ready cn'"
            using ensured(3) by auto
          have "v_now (V cn3) = Present t" using b(3) ensured(2) by simp
          note put = put_body_Done [OF b(1) this assms(3,4)]
          from put b ensured(2) cn0 good Done show ?thesis
            by (auto simp: put_done_def schema_ready_view_def)
        qed
      qed
    qed
  qed
qed

section \<open>Delete\<close>

text \<open>The steps of a delete's scope as one body.\<close>

definition delete_body ::
  "'d sqlite \<Rightarrow> int \<Rightarrow> int \<Rightarrow> byte list \<Rightarrow> ('d, bool \<times> u64) action" where
  "delete_body E' now s key =
     chain (delete_record E' s key) (\<lambda>deleted.
       if \<not> deleted then give (False, 0)
       else chain (insert_change E' s key ESDB_OBJECT_CHANGE_DELETE ESDB_VALUE_NULL now) (\<lambda>revision.
            chain (set_store_revision E' revision) (\<lambda>_. give (True, of_int revision))))"

lemma delete_scope:
  "chain (guarded c (delete_record E s key)) (\<lambda>deleted.
     if \<not> deleted then chain k (\<lambda>_. give (False, 0 :: u64))
     else
      chain (guarded c (insert_change E s key ESDB_OBJECT_CHANGE_DELETE ESDB_VALUE_NULL now)) (\<lambda>revision.
      chain (guarded c (set_store_revision E revision)) (\<lambda>_.
      chain k (\<lambda>_. give (True, of_int revision)))))
   = chain (guarded c (delete_body E now s key)) (\<lambda>x. chain k (\<lambda>_. give x))"
proof (rule ext)
  fix cn
  obtain r1 cn1 where 1: "delete_record E s key cn = (r1, cn1)" by fastforce
  obtain r2 cn2 where 2: "insert_change E s key ESDB_OBJECT_CHANGE_DELETE ESDB_VALUE_NULL now cn1 = (r2, cn2)"
    by fastforce
  show "chain (guarded c (delete_record E s key)) (\<lambda>deleted.
     if \<not> deleted then chain k (\<lambda>_. give (False, 0 :: u64))
     else
      chain (guarded c (insert_change E s key ESDB_OBJECT_CHANGE_DELETE ESDB_VALUE_NULL now)) (\<lambda>revision.
      chain (guarded c (set_store_revision E revision)) (\<lambda>_.
      chain k (\<lambda>_. give (True, of_int revision))))) cn
   = chain (guarded c (delete_body E now s key)) (\<lambda>x. chain k (\<lambda>_. give x)) cn"
  proof (cases r1)
    case (Failed st e)
    with 1 show ?thesis by (simp add: delete_body_def chain_def guarded_def)
  next
    case (Done deleted)
    show ?thesis
    proof (cases "deleted \<and> (\<exists>revision. r2 = Done revision)")
      case False
      with 1 2 Done show ?thesis
        by (cases r2) (auto simp: delete_body_def chain_def guarded_def give_def)
    next
      case True
      then obtain revision where r2: "r2 = Done revision" and deleted by blast
      obtain r3 cn3 where "set_store_revision E revision cn2 = (r3, cn3)" by fastforce
      with 1 2 Done r2 \<open>deleted\<close> show ?thesis
        by (cases r3) (auto simp: delete_body_def chain_def guarded_def give_def)
    qed
  qed
qed

lemma keeps_delete_body: "keeps (delete_body E now s key) (\<lambda>_. True)"
  unfolding delete_body_def
  by (intro keeps_chain [where P = "\<lambda>_. True"] keeps_delete_record keeps_insert_change
      keeps_set_revision keeps_give obeys_if) simp_all

lemma delete_body_Done:
  assumes "delete_body E now s key cn = (Done (deleted, revision), cn')" and "v_now (V cn) = Present t"
    and "store_id_of name t = Some s" and "0 \<le> next_revision t"
  shows "deleted \<longleftrightarrow> find_record name (c_bytes key) t \<noteq> None"
    and "V cn' = schema_ready_view (if deleted then delete_tables now name (c_bytes key) t else t) (V cn)"
    and "revision = (if deleted then of_int (next_revision t) else 0)"
    and "deleted \<Longrightarrow> next_revision t \<le> sql_max"
proof -
  from assms(1) obtain b cn1 where d: "delete_record E s key cn = (Done b, cn1)"
    and rest: "(if \<not> b then give (False, 0) else
      chain (insert_change E s key ESDB_OBJECT_CHANGE_DELETE ESDB_VALUE_NULL now) (\<lambda>revision.
            chain (set_store_revision E revision) (\<lambda>_. give (True, of_int revision)))) cn1
      = (Done (deleted, revision), cn')"
    unfolding delete_body_def by (auto simp: chain_Done)
  note del = delete_record_Done [OF d assms(2)]
  from rest have b: "b = deleted"
    by (auto simp: chain_Done split: if_splits)
  with del(1) assms(3) show found: "deleted \<longleftrightarrow> find_record name (c_bytes key) t \<noteq> None"
    by (simp add: find_record_def)
  have "V cn' = schema_ready_view (if deleted then delete_tables now name (c_bytes key) t else t) (V cn) \<and>
    revision = (if deleted then of_int (next_revision t) else 0) \<and> (deleted \<longrightarrow> next_revision t \<le> sql_max)"
  proof (cases deleted)
    case False
    with rest b del show ?thesis
      by (auto simp: schema_ready_view_def)
  next
    case True
    with rest b obtain r cn2 where i: "insert_change E s key ESDB_OBJECT_CHANGE_DELETE ESDB_VALUE_NULL now cn1 = (Done r, cn2)"
      and st: "set_store_revision E r cn2 = (Done (), cn')" and rev: "revision = of_int r"
      by (auto simp: chain_Done)
    from del(2) b True have now1: "v_now (V cn1) = Present (without_record s (c_bytes key) t)"
      by (simp add: without_record_def)
    have "store_name_of s (without_record s (c_bytes key) t) \<noteq> None"
      using store_id_name [OF assms(3)] by simp
    note ins = insert_change_Done [OF i now1 this]
    let ?t2 = "with_change s (c_bytes key) ESDB_OBJECT_CHANGE_DELETE (sint ESDB_VALUE_NULL) now
        (without_record s (c_bytes key) t)"
    have now2: "v_now (V cn2) = Present ?t2" using ins(3) by simp
    have "0 \<le> r" using ins(1) assms(4) by simp
    note set = set_revision_Done [OF st now2 this]
    from set ins del(2) b True rev assms(3) show ?thesis
      by (simp add: delete_tables_def schema_ready_view_def Let_def)
  qed
  then show "V cn' = schema_ready_view (if deleted then delete_tables now name (c_bytes key) t else t) (V cn)"
    "revision = (if deleted then of_int (next_revision t) else 0)"
    "deleted \<Longrightarrow> next_revision t \<le> sql_max"
    by blast+
qed

lemma get_store_id_False: "get_store_id E now name False = find_store E name"
  by (rule ext) (simp add: get_store_id_def chain_def give_def)

text \<open>The mutation of a delete whose store exists.\<close>

definition delete_found :: "int \<Rightarrow> byte list \<Rightarrow> int \<Rightarrow> ('d, bool \<times> u64) action" where
  "delete_found now key store_id =
     chain (require_store_writable E) (\<lambda>_.
     chain (begin_store_mutation E) (\<lambda>owns.
     chain (guarded (rollback_store_mutation E owns) (delete_body E now store_id key)) (\<lambda>x.
     chain (commit_store_mutation E owns) (\<lambda>_. give x))))"

lemma delete_found_run:
  assumes "delete_found now (the key) i cn = (r, cn')" and "V cn = schema_ready_view t v" and "cn_schema_ready cn"
    and "store_id_of (c_bytes (the name)) t = Some i" and "0 \<le> next_revision t"
    and "valid_object_store_name name" "valid_object_store_key key"
  shows "case r of
      Done (deleted, revision) \<Rightarrow> delete_done now name key t deleted revision v (V cn') \<and> cn_schema_ready cn'
    | Failed s e \<Rightarrow> failed_mutation t v (V cn')"
  using assms(1) unfolding delete_found_def
proof (cases rule: writable_chain)
  case failed
  with assms(2) show ?thesis by (simp add: failed_mutation_def undone_scope_def)
next
  case writable
  note scope = scope_run [OF writable keeps_delete_body]
  show ?thesis
  proof (cases r)
    case (Failed s e')
    with scope assms(2) failed_after_schema(1) [of cn t v] show ?thesis by simp
  next
    case (Done y)
    obtain deleted revision where y: "y = (deleted, revision)" by fastforce
    with Done scope obtain cn3 cn4 where b: "delete_body E now i (the key) cn3 = (Done (deleted, revision), cn4)"
      "v_now (V cn3) = v_now (V cn)" "V cn' = \<lparr>v_now = v_now (V cn4), v_frames = v_frames (V cn)\<rparr>"
      "cn_schema_ready cn'"
      using assms(3) by auto
    have "v_now (V cn3) = Present t" using b(2) assms(2) by simp
    note del = delete_body_Done [OF b(1) this assms(4,5)]
    from del b assms(2,6,7) Done y show ?thesis
      by (simp add: delete_done_def schema_ready_view_def)
  qed
qed

definition delete_rest :: "int \<Rightarrow> byte list \<Rightarrow> byte list \<Rightarrow> ('d, bool \<times> u64) action" where
  "delete_rest now name key cn =
     (case find_store E name cn of
        (Failed status e, cn') \<Rightarrow> if status = ESDB_ERR_NOT_FOUND then (Done (False, 0), cn') else (Failed status e, cn')
      | (Done store_id, cn') \<Rightarrow> delete_found now key store_id cn')"

lemma delete_rest_run:
  assumes "delete_rest now (the name) (the key) cn = (r, cn')" and "V cn = schema_ready_view t v" and "cn_schema_ready cn"
    and "0 \<le> next_revision t" and "valid_object_store_name name" "valid_object_store_key key"
  shows "case r of
      Done (deleted, revision) \<Rightarrow> delete_done now name key t deleted revision v (V cn') \<and> cn_schema_ready cn'
    | Failed s e \<Rightarrow> failed_mutation t v (V cn')"
proof -
  have now1: "v_now (V cn) = Present t" using assms(2) by simp
  obtain r2 cn2 where f: "find_store E (the name) cn = (r2, cn2)" by fastforce
  show ?thesis
  proof (cases r2)
    case (Failed s e)
    note bad = obeys_Failed [OF reads_find f [unfolded Failed]]
    show ?thesis
    proof (cases "s = ESDB_ERR_NOT_FOUND")
      case True
      with find_Failed [OF _ now1] f Failed
      have "V cn2 = V cn" "store_id_of (c_bytes (the name)) t = None" by blast+
      with assms f Failed True bad show ?thesis by (auto simp: delete_rest_def delete_done_def find_record_def)
    next
      case False
      with assms(1) f Failed have "r = Failed s e" "cn' = cn2" by (auto simp: delete_rest_def)
      with bad failed_after_schema(2) [OF assms(2)] show ?thesis by simp
    qed
  next
    case (Done i)
    from find_Done [OF f [unfolded Done] now1] assms(2)
    have 2: "V cn2 = schema_ready_view t v" "store_id_of (c_bytes (the name)) t = Some i" by auto
    from obeys_Done [OF reads_find f [unfolded Done]] assms(3) have ready2: "cn_schema_ready cn2" by simp
    from assms(1) f Done have "delete_found now (the key) i cn2 = (r, cn')" by (simp add: delete_rest_def)
    from delete_found_run [OF this 2(1) ready2 2(2) assms(4,5,6)] show ?thesis .
  qed
qed

lemma delete_run:
  assumes "esdb_object_store_delete E now name key (Some cn) = (r, Some cn')" and "usable cn t"
    and "0 \<le> next_revision t"
  shows "case r of
      Done (deleted, revision) \<Rightarrow> delete_done now name key t deleted revision (V cn) (V cn') \<and> cn_schema_ready cn'
    | Failed s e \<Rightarrow> failed_mutation t (V cn) (V cn')"
proof -
  let ?bad = "\<not> valid_object_store_name name \<or> \<not> valid_object_store_key key"
  from assms(1) obtain cn0 where run: "(if ?bad
      then cn_fail E ESDB_ERR_INVALID_ARGUMENT OBJ SQLITE_MISUSE (Some ''invalid store delete arguments'')
      else chain (ensure_object_store_schema E) (\<lambda>_. delete_rest now (the name) (the key))) cn0 = (r, cn')"
    and cn0: "V cn0 = V cn" "cn_schema_ready cn0 = cn_schema_ready cn"
    unfolding esdb_object_store_delete_def delete_scope get_store_id_False delete_rest_def delete_found_def
    by (rule public_call_run)
  have usable0: "usable cn0 t" using assms(2) cn0 by (simp add: usable_def)
  show ?thesis
  proof (cases ?bad)
    case True
    with run cn0 show ?thesis by (auto dest!: cn_fail_run)
  next
    case good: False
    from run [unfolded if_not_P [OF good]] usable0 show ?thesis
    proof (cases rule: ensured_run)
      case failed
      with cn0 show ?thesis by simp
    next
      case (ensured cn1)
      from delete_rest_run [OF ensured(1,2,3) assms(3), unfolded cn0] good show ?thesis by simp
    qed
  qed
qed

section \<open>Reading\<close>

lemma column_first: "column \<lparr>st_sql = q, st_params = p, st_rows = Some (row # rows)\<rparr> i =
    (if i < length row then row ! i else Sql_Null)"
  by (simp add: column_def)

lemma column_int_small:
  "column st i = Sql_Int n \<Longrightarrow> - (2 ^ 31) \<le> n \<Longrightarrow> n < 2 ^ 31 \<Longrightarrow> column_int E st i = n"
  by (simp add: column_int_def column_int64_def)

lemma raw_type_valid:
  assumes "0 \<le> n" and "n \<le> 8"
  shows "valid_value_type (word_of_int n)"
proof -
  from assms have "n = 0 \<or> n = 1 \<or> n = 2 \<or> n = 3 \<or> n = 4 \<or> n = 5 \<or> n = 6 \<or> n = 7 \<or> n = 8"
    by arith
  then show ?thesis
    by (auto simp: valid_value_type_def)
qed

lemma clone_Done:
  assumes "clone_sql_value E alloc st i j cn = (Done x, cn')"
    and "column st i = Sql_Int (rr_type row)" and "column st j = Sql_Blob (rr_payload row)"
    and "- (2 ^ 31) \<le> rr_type row" and "rr_type row < 2 ^ 31"
  shows "x = row_value row" and "cn' = cn" and "canonical x"
  using assms column_int_small [OF assms(2,4,5)] raw_type_valid [of "rr_type row"]
  by (auto simp: clone_sql_value_def Let_def row_value_def canonical_def valid_raw_type_def
      give_def split: if_splits)

lemma clone_reads: "reads (clone_sql_value E alloc st i j) (\<lambda>_. True)"
  unfolding clone_sql_value_def Let_def
  by (auto intro!: reads_rules split: sql_value.splits)

lemma clone_never_missing: "never_missing (clone_sql_value E alloc st i j)"
  unfolding clone_sql_value_def Let_def
  by (auto intro!: never_missing_rules split: sql_value.splits)

definition get_read :: "value_alloc \<Rightarrow> statement \<Rightarrow> ('d, esdb_value) action" where
  "get_read alloc st = chain (step E OBJ st) (\<lambda>(rc, st).
     if rc = SQLITE_DONE then (\<lambda>cn. (Failed ESDB_ERR_NOT_FOUND clear_error, cn))
     else clone_sql_value E alloc st 0 1)"

definition get_query :: "value_alloc \<Rightarrow> byte list \<Rightarrow> byte list \<Rightarrow> ('d, esdb_value) action" where
  "get_query alloc name key =
     chain (prepare E SQL_GET_RECORD OBJ) (\<lambda>st.
     chain (bind_value E 1 (Sql_Text (c_bytes name)) OBJ st) (\<lambda>st.
     chain (bind_value E 2 (Sql_Text (c_bytes key)) OBJ st) (get_read alloc)))"

lemma reads_get_query: "reads (get_query alloc name key) (\<lambda>_. True)"
proof -
  have "reads (get_read alloc st) (\<lambda>_. True)" if "st_sql st \<in> read_sql" for st
    unfolding get_read_def using that by (intro reads_rules clone_reads obeys_status) simp_all
  then show ?thesis
    unfolding get_query_def by (intro reads_prepare_chain reads_bind_chain) simp
qed

lemma get_step:
  assumes "prepare E (sql_text Get_Record) OBJ cn1 = (Done st1, cn2)"
    "bind_value E 1 (Sql_Text (c_bytes name)) OBJ st1 cn2 = (Done st2, cn3)"
    "bind_value E 2 (Sql_Text (c_bytes key)) OBJ st2 cn3 = (Done st3, cn4)"
    "step E OBJ st3 cn4 = (Done (rc, st4), cn5)" and "v_now (V cn1) = Present t"
  shows "V cn5 = V cn1" "case find_record (c_bytes name) (c_bytes key) t of
      None \<Rightarrow> rc = SQLITE_DONE
    | Some row \<Rightarrow> rc = SQLITE_ROW \<and> column st4 0 = Sql_Int (rr_type row) \<and> column st4 1 = Sql_Blob (rr_payload row)"
proof -
  let ?p = "(\<lambda>_. Sql_Null)(1 := Sql_Text (c_bytes name), 2 := Sql_Text (c_bytes key))"
  let ?rows = "case find_record (c_bytes name) (c_bytes key) t of
      None \<Rightarrow> [] | Some row \<Rightarrow> [[Sql_Int (rr_type row), Sql_Blob (rr_payload row)]]"
  from assms(1-4) have s: "step E OBJ \<lparr>st_sql = sql_text Get_Record, st_params = ?p, st_rows = None\<rparr> cn4 = (Done (rc, st4), cn5)"
    and v: "V cn4 = V cn1"
    by (auto dest!: prepare_Done bind_Done simp del: sql_text.simps)
  have "answer_of Get_Record ?p t = Rows ?rows t" by (simp split: option.splits)
  from step_first_Done [OF s _ this] v assms(5)
  have "(rc, st4) = (if ?rows = [] then SQLITE_DONE else SQLITE_ROW,
      \<lparr>st_sql = sql_text Get_Record, st_params = ?p, st_rows = Some ?rows\<rparr>) \<and> V cn5 = V cn1" by (simp add: same_view)
  then show "V cn5 = V cn1" "case find_record (c_bytes name) (c_bytes key) t of
      None \<Rightarrow> rc = SQLITE_DONE
    | Some row \<Rightarrow> rc = SQLITE_ROW \<and> column st4 0 = Sql_Int (rr_type row) \<and> column st4 1 = Sql_Blob (rr_payload row)"
    by (auto simp: column_first split: option.splits)
qed

lemma get_query_Done:
  assumes "get_query alloc name key cn = (Done x, cn')" and "v_now (V cn) = Present t" and "types_small t"
  shows "\<exists>row. find_record (c_bytes name) (c_bytes key) t = Some row \<and> x = row_value row" "canonical x" "V cn' = V cn"
proof -
  from assms(1) obtain st1 cn2 st2 cn3 st3 cn4 rc st4 cn5 where q:
    "prepare E (sql_text Get_Record) OBJ cn = (Done st1, cn2)"
    "bind_value E 1 (Sql_Text (c_bytes name)) OBJ st1 cn2 = (Done st2, cn3)"
    "bind_value E 2 (Sql_Text (c_bytes key)) OBJ st2 cn3 = (Done st3, cn4)"
    "step E OBJ st3 cn4 = (Done (rc, st4), cn5)"
    and c: "rc \<noteq> SQLITE_DONE" "clone_sql_value E alloc st4 0 1 cn5 = (Done x, cn')"
    unfolding get_query_def get_read_def by (auto simp: chain_Done split: if_splits)
  note stepped = get_step [OF q assms(2)]
  from stepped(2) c(1) obtain row where row: "find_record (c_bytes name) (c_bytes key) t = Some row"
    and st4: "column st4 0 = Sql_Int (rr_type row)" "column st4 1 = Sql_Blob (rr_payload row)"
    by (auto split: option.splits)
  note cloned = clone_Done [OF c(2) st4 find_record_small [OF row assms(3)]]
  from cloned row show "\<exists>row. find_record (c_bytes name) (c_bytes key) t = Some row \<and> x = row_value row" by blast
  from cloned stepped(1) show "canonical x" "V cn' = V cn" by simp_all
qed

lemma get_query_missing:
  assumes "get_query alloc name key cn = (Failed ESDB_ERR_NOT_FOUND e, cn')" and "v_now (V cn) = Present t"
  shows "find_record (c_bytes name) (c_bytes key) t = None" "V cn' = V cn"
proof -
  from assms(1) obtain st1 cn2 st2 cn3 st3 cn4 rc st4 cn5 where q:
    "prepare E (sql_text Get_Record) OBJ cn = (Done st1, cn2)"
    "bind_value E 1 (Sql_Text (c_bytes name)) OBJ st1 cn2 = (Done st2, cn3)"
    "bind_value E 2 (Sql_Text (c_bytes key)) OBJ st2 cn3 = (Done st3, cn4)"
    "step E OBJ st3 cn4 = (Done (rc, st4), cn5)" and rc: "rc = SQLITE_DONE" "cn' = cn5"
    unfolding get_query_def get_read_def
    by (auto simp: chain_Failed never_missingD [OF clone_never_missing]
        dest: prepare_Failed bind_Failed step_Failed split: if_splits)
  from get_step [OF q assms(2)] rc show "find_record (c_bytes name) (c_bytes key) t = None" "V cn' = V cn"
    by (auto split: option.splits)
qed

lemma get_run:
  assumes "esdb_object_store_get E alloc name key out_given (Some cn) = (r, Some cn')" and "usable cn t"
    and "types_small t"
  shows "case r of
      Done x \<Rightarrow> valid_object_store_name name \<and> valid_object_store_key key \<and>
        (\<exists>row. find_record (c_bytes (the name)) (c_bytes (the key)) t = Some row \<and> x = row_value row) \<and>
        canonical x \<and> V cn' = schema_ready_view t (V cn)
    | Failed s e \<Rightarrow> failed_mutation t (V cn) (V cn') \<and>
        (v_now (V cn) = Present t \<longrightarrow> quiet_failure (V cn) (V cn')) \<and>
        (s = ESDB_ERR_NOT_FOUND \<longrightarrow> find_record (c_bytes (the name)) (c_bytes (the key)) t = None \<and>
          (V cn' = V cn \<or> V cn' = schema_ready_view t (V cn)))"
proof -
  let ?bad = "\<not> out_given \<or> \<not> valid_object_store_name name \<or> \<not> valid_object_store_key key"
  from assms(1) obtain cn0 where run: "(if ?bad
      then cn_fail E ESDB_ERR_INVALID_ARGUMENT OBJ SQLITE_MISUSE (Some ''invalid store get arguments'')
      else chain (ensure_object_store_schema E) (\<lambda>_. get_query alloc (the name) (the key))) cn0 = (r, cn')"
    and cn0: "V cn0 = V cn" "cn_schema_ready cn0 = cn_schema_ready cn"
    unfolding esdb_object_store_get_def get_query_def get_read_def bind_defs by (rule public_call_run)
  have usable0: "usable cn0 t" using assms(2) cn0 by (simp add: usable_def)
  show ?thesis
  proof (cases ?bad)
    case True
    with run cn0 show ?thesis by (auto dest!: cn_fail_run)
  next
    case good: False
    from run [unfolded if_not_P [OF good]] usable0 show ?thesis
    proof (cases rule: ensured_run)
      case (failed s e)
      with cn0 show ?thesis by (auto simp: find_record_def store_id_of_def initial_tables_def)
    next
      case (ensured cn1)
      have now1: "v_now (V cn1) = Present t" using ensured(2) by simp
      show ?thesis
      proof (cases r)
        case (Done x)
        from get_query_Done [OF ensured(1) [unfolded Done] now1 assms(3)] ensured(2) cn0 Done good
        show ?thesis by simp
      next
        case (Failed s e)
        with get_query_missing [OF _ now1] ensured(1)
        have "s = ESDB_ERR_NOT_FOUND \<longrightarrow>
          find_record (c_bytes (the name)) (c_bytes (the key)) t = None \<and> V cn' = V cn1" by blast
        moreover have quiet: "quiet_failure (V cn1) (V cn')"
          using obeys_Failed [OF reads_get_query] ensured(1) Failed by blast
        moreover have "v_now (V cn) = Present t \<longrightarrow> quiet_failure (V cn) (V cn')"
        proof
          assume "v_now (V cn) = Present t"
          then have "V cn1 = V cn" using ensured(2) cn0 by (simp add: schema_ready_view_def)
          with quiet show "quiet_failure (V cn) (V cn')" by simp
        qed
        ultimately show ?thesis
          using failed_after_schema(2) [OF ensured(2) quiet] ensured(2) Failed cn0 by (simp; blast?)
      qed
    qed
  qed
qed

end

end
