(* ===== verification/Object_Store_Queries.thy ===== *)
theory Object_Store_Queries
  imports Object_Store_Runs Memory_Store_Spec
begin

text \<open>
  The reading operations of the object store over any engine that satisfies the contract: the
  revision, scans, change queries and pruning.
\<close>

section \<open>The journal and the records as the host sees them\<close>

definition journal_change :: "store_tables \<Rightarrow> int \<times> change_row \<Rightarrow> object_change" where
  "journal_change t c =
     \<lparr>oc_revision = of_int (fst c), oc_operation = cr_operation (snd c),
      oc_value_type = word_of_int (cr_type (snd c)),
      oc_store = c_str (the (store_name_of (cr_store (snd c)) t)), oc_key = c_str (cr_key (snd c))\<rparr>"

text \<open>The changes after a revision, of one store or of all.\<close>

definition object_changes :: "byte list option \<Rightarrow> int \<Rightarrow> store_tables \<Rightarrow> object_change list" where
  "object_changes name a t =
     map (journal_change t)
       (filter (\<lambda>c. a < fst c \<and>
           (name = None \<or> store_name_of (cr_store (snd c)) t = Some (c_bytes (the name))))
         (tb_changes t))"

lemma journal_rows_wf:
  assumes "changes_wf t"
  shows "journal_rows a keep limit t =
    take (nat limit) (map (\<lambda>c. change_sql_row (the (store_name_of (cr_store (snd c)) t)) c)
      (filter (\<lambda>c. a < fst c \<and> keep (the (store_name_of (cr_store (snd c)) t))) (tb_changes t)))"
proof -
  have "List.map_filter (\<lambda>c. case store_name_of (cr_store (snd c)) t of
            Some name \<Rightarrow> if a < fst c \<and> keep name then Some (change_sql_row name c) else None
          | None \<Rightarrow> None) cs
      = map (\<lambda>c. change_sql_row (the (store_name_of (cr_store (snd c)) t)) c)
          (filter (\<lambda>c. a < fst c \<and> keep (the (store_name_of (cr_store (snd c)) t))) cs)"
    if "\<forall>c \<in> set cs. store_name_of (cr_store (snd c)) t \<noteq> None" for cs
    using that by (induction cs) (auto simp: map_filter_simps)
  with assms show ?thesis
    by (simp add: journal_rows_def changes_wf_def)
qed

lemma sint_revision:
  assumes "\<not> ESDB_REVISION_MAX < a"
  shows "sint a = uint a"
proof -
  from assms have "uint a < 2 ^ 63"
    by (simp add: not_less word_le_def)
  then show ?thesis
    unfolding sint_uint using order_trans [OF _ uint_ge_0, of "- (2 ^ 63)" a]
    by (intro signed_take_bit_int_eq_self) simp_all
qed

lemma sint_limit:
  assumes "\<not> (10000 :: u32) < a"
  shows "sint a = uint a" and "nat (sint a) = unat a" and "unat a \<le> 10000"
proof -
  from assms have "uint a \<le> 10000"
    by (simp add: not_less word_le_def)
  then show *: "sint a = uint a"
    unfolding sint_uint using order_trans [OF _ uint_ge_0, of "- (2 ^ 31)" a]
    by (intro signed_take_bit_int_eq_self) simp_all
  then show "nat (sint a) = unat a" by simp
  from assms show "unat a \<le> 10000"
    by (simp add: not_less word_le_nat_alt)
qed

text \<open>The records of a store in key order, after a key or from the start.\<close>

definition object_records :: "byte list \<Rightarrow> byte list option \<Rightarrow> store_tables \<Rightarrow> object_record list" where
  "object_records name after_key t =
     map (\<lambda>((_, k), r). \<lparr>or_key = Str (bytes k), or_value = row_value r, or_revision = of_int (rr_revision r)\<rparr>)
       (filter (\<lambda>((s, k), r). store_id_of name t = Some s \<and>
           (after_key = None \<or> Str (c_bytes (the after_key)) < k)) (tb_records t))"

context sqlite_engine
begin

section \<open>The revision\<close>

lemma metadata_Done:
  assumes "read_store_revision_metadata E cn = (Done r, cn')" and "v_now (V cn) = Present t"
    and "0 \<le> tb_sequence t" and "tb_sequence t \<le> sql_max"
  shows "uint r = tb_sequence t" and "map_of (tb_meta t) key_revision \<noteq> None"
proof -
  from assms(1) obtain st1 cn1 rc st2 cn2 where
    p: "prepare E (sql_text Read_Revision) OBJ cn = (Done st1, cn1)"
    and s: "step E OBJ st1 cn1 = (Done (rc, st2), cn2)" and rc: "rc = SQLITE_ROW"
    and r: "r = of_int (column_int64 E st2 1)"
    unfolding read_store_revision_metadata_def Let_def
    by (auto simp: chain_Done split: if_splits option.splits)
  from p have st1: "st1 = \<lparr>st_sql = sql_text Read_Revision, st_params = \<lambda>_. Sql_Null, st_rows = None\<rparr>"
    and v: "V cn1 = V cn"
    by (auto dest!: prepare_Done simp del: sql_text.simps)
  let ?rows = "case map_of (tb_meta t) key_revision of
      None \<Rightarrow> [] | Some digits \<Rightarrow> [[Sql_Text digits, Sql_Int (tb_sequence t)]]"
  have "answer_of Read_Revision (\<lambda>_. Sql_Null) t = Rows ?rows t"
    by (simp split: option.splits)
  from step_first_Done [OF s [unfolded st1] _ this] assms(2) v rc
  obtain digits where digits: "map_of (tb_meta t) key_revision = Some digits"
    and "column_int64 E st2 1 = tb_sequence t"
    by (auto simp: column_int64_def column_first split: option.splits if_splits)
  with r assms(3,4) show "uint r = tb_sequence t"
    by (simp add: uint_word_of_int sql_max_def)
  from digits show "map_of (tb_meta t) key_revision \<noteq> None" by simp
qed

lemma revision_run:
  assumes "esdb_object_store_revision E out_given (Some cn) = (r, Some cn')" and "usable cn t"
    and "0 \<le> tb_sequence t" and "tb_sequence t \<le> sql_max"
  shows "case r of
      Done revision \<Rightarrow> uint revision = tb_sequence t \<and> V cn' = schema_ready_view t (V cn)
    | Failed s e \<Rightarrow> failed_mutation t (V cn) (V cn')"
proof -
  from assms(1) obtain cn0 where run: "(if \<not> out_given
        then cn_fail E ESDB_ERR_INVALID_ARGUMENT OBJ SQLITE_MISUSE
               (Some ''database and out_revision are required'')
        else chain (ensure_object_store_schema E) (\<lambda>_. read_store_revision_metadata E)) cn0 = (r, cn')"
    and cn0: "V cn0 = V cn" "cn_schema_ready cn0 = cn_schema_ready cn"
    unfolding esdb_object_store_revision_def by (rule public_call_run)
  have usable0: "usable cn0 t" using assms(2) cn0 by (simp add: usable_def)
  show ?thesis
  proof (cases out_given)
    case False
    with run cn0 show ?thesis by (auto dest!: cn_fail_run)
  next
    case True
    with run have "chain (ensure_object_store_schema E) (\<lambda>_. read_store_revision_metadata E) cn0 = (r, cn')"
      by simp
    from this usable0 show ?thesis
    proof (cases rule: ensured_run)
      case failed
      with cn0 show ?thesis by simp
    next
      case (ensured cn1)
      show ?thesis
      proof (cases r)
        case (Done revision)
        with ensured obeys_Done [OF reads_metadata] metadata_Done [of cn1 revision cn' t] assms(3,4) cn0
        show ?thesis by simp
      next
        case (Failed s e)
        with ensured obeys_Failed [OF reads_metadata, of cn1 s e cn'] failed_after_schema(2) [OF ensured(2)] cn0
        show ?thesis by simp
      qed
    qed
  qed
qed

section \<open>Snapshots\<close>

lemma query_texts [simp]:
  "SQL_CHANGES_ALL \<in> read_sql" "SQL_CHANGES_STORE \<in> read_sql" "SQL_SCAN_ALL \<in> read_sql"
  "SQL_SCAN_AFTER \<in> read_sql"
  using sql_text_read [of Changes_All] sql_text_read [of Changes_Store] sql_text_read [of Scan_All]
    sql_text_read [of Scan_After] by simp_all

lemma reads_collect:
  assumes "\<And>st. reads (read_row st) (\<lambda>_. True)" and "st_sql st \<in> read_sql"
  shows "reads (collect_rows fuel throws i E ph read_row st acc) (\<lambda>_. True)"
  using assms(2)
proof (induction fuel arbitrary: i st acc)
  case 0
  then show ?case by (simp add: reads_give)
next
  case (Suc fuel)
  show ?case
    unfolding collect_rows.simps
  proof (rule reads_step_chain [OF Suc.prems], rule obeys_if)
    fix rc and st' :: statement
    assume st': "st_sql st' = st_sql st"
    show "reads (give (Snap_Rows acc)) (\<lambda>_. True)" by (rule reads_give) simp
    show "reads (chain (read_row st') (\<lambda>row. case throws (Suc i) of
        None \<Rightarrow> collect_rows fuel throws (Suc i) E ph read_row st' (acc @ [row])
      | Some e \<Rightarrow> give (Snap_Thrown e))) (\<lambda>_. True)"
      using Suc.IH [of st'] Suc.prems st'
      by (intro reads_chain [OF assms(1)]) (auto intro: reads_give split: option.splits)
  qed
qed

text \<open>
  A row reader: what it answers is a function of the current row, and it leaves the view.
\<close>

definition reads_rows :: "(statement \<Rightarrow> ('d, 'e) action) \<Rightarrow> (sql_row \<Rightarrow> 'e) \<Rightarrow> sql_row set \<Rightarrow> bool" where
  "reads_rows read_row decode good \<longleftrightarrow> (\<forall>st row rows cn x cn'. st_rows st = Some (row # rows) \<longrightarrow> row \<in> good \<longrightarrow>
     read_row st cn = (Done x, cn') \<longrightarrow> x = decode row \<and> V cn' = V cn)"

lemma reads_rowsD:
  assumes "reads_rows read_row decode good" and "row \<in> good"
    and "read_row \<lparr>st_sql = sql, st_params = p, st_rows = Some (row # rows)\<rparr> cn = (Done x, cn')"
  shows "x = decode row" and "V cn' = V cn"
proof -
  have "st_rows \<lparr>st_sql = sql, st_params = p, st_rows = Some (row # rows)\<rparr> = Some (row # rows)" by simp
  with assms show "x = decode row" and "V cn' = V cn"
    unfolding reads_rows_def by blast+
qed

lemma collect_more:
  assumes "reads_rows read_row decode good" and "set rows \<subseteq> good" and "length rows < fuel"
    and "collect_rows fuel throws i E ph read_row
        \<lparr>st_sql = sql_text q, st_params = p, st_rows = Some (row # rows)\<rparr> acc cn = (Done (Snap_Rows out), cn')"
  shows "out = acc @ map decode rows \<and> V cn' = V cn"
  using assms(2-)
proof (induction rows arbitrary: fuel i row acc cn)
  case Nil
  then obtain f where f: "fuel = Suc f" by (cases fuel) auto
  with Nil.prems obtain x cn1 where s: "step E ph \<lparr>st_sql = sql_text q, st_params = p, st_rows = Some [row]\<rparr> cn = (Done x, cn1)"
    by (auto simp: chain_Done)
  from step_more_Done [OF s] s Nil.prems f show ?case
    by (simp add: chain_def give_def)
next
  case (Cons r rows)
  then obtain f where f: "fuel = Suc f" "length rows < f" by (cases fuel) auto
  with Cons.prems obtain x cn1 where s: "step E ph \<lparr>st_sql = sql_text q, st_params = p,
      st_rows = Some (row # r # rows)\<rparr> cn = (Done x, cn1)"
    by (auto simp: chain_Done)
  let ?st = "\<lparr>st_sql = sql_text q, st_params = p, st_rows = Some (r # rows)\<rparr>"
  from step_more_Done [OF s] have x: "x = (SQLITE_ROW, ?st)" "V cn1 = V cn" by simp_all
  from s x Cons.prems(3) f obtain y cn2 where r: "read_row ?st cn1 = (Done y, cn2)"
    and rest: "collect_rows f throws (Suc i) E ph read_row ?st (acc @ [y]) cn2 = (Done (Snap_Rows out), cn')"
    by (auto simp: chain_Done split: option.splits)
  from reads_rowsD [OF assms(1) _ r] Cons.prems(1) have "y = decode r" "V cn2 = V cn1"
    by simp_all
  with Cons.IH [OF _ f(2) rest] Cons.prems(1) x show ?case by simp
qed

lemma collect_first:
  assumes "reads_rows read_row decode good" and "set rows \<subseteq> good" and "length rows \<le> fuel"
    and "collect_rows (Suc fuel) throws i E ph read_row
        \<lparr>st_sql = sql_text q, st_params = p, st_rows = None\<rparr> [] cn = (Done (Snap_Rows out), cn')"
    and "v_now (V cn) = Present t" and "answer_of q p t = Rows rows t" and "q \<noteq> Prune_Changes"
  shows "out = map decode rows \<and> V cn' = V cn"
proof -
  from assms(4) obtain x cn1 where s: "step E ph \<lparr>st_sql = sql_text q, st_params = p, st_rows = None\<rparr> cn = (Done x, cn1)"
    by (auto simp: chain_Done)
  let ?st = "\<lparr>st_sql = sql_text q, st_params = p, st_rows = Some rows\<rparr>"
  from step_first_Done [OF s assms(5,6,7)] assms(5)
  have x: "x = (if rows = [] then SQLITE_DONE else SQLITE_ROW, ?st)" "V cn1 = V cn"
    by (simp_all add: same_view)
  show ?thesis
  proof (cases rows)
    case Nil
    with s x assms(4) show ?thesis by (simp add: chain_def give_def)
  next
    case (Cons r rest)
    with s x assms(4) obtain y cn2 where r: "read_row ?st cn1 = (Done y, cn2)"
      and more: "collect_rows fuel throws (Suc i) E ph read_row ?st [y] cn2 = (Done (Snap_Rows out), cn')"
      by (auto simp: chain_Done split: option.splits)
    from reads_rowsD [OF assms(1) _ r [unfolded Cons]] assms(2) Cons have "y = decode r" "V cn2 = V cn1"
      by simp_all
    with collect_more [OF assms(1) _ _ more [unfolded Cons]] assms(2,3) x Cons show ?thesis by simp
  qed
qed

section \<open>Change queries\<close>

definition change_of :: "sql_row \<Rightarrow> object_change" where
  "change_of row =
     (case row of
        [Sql_Int r, Sql_Int operation, Sql_Int type, Sql_Text name, Sql_Text key] \<Rightarrow>
          \<lparr>oc_revision = of_int r, oc_operation = operation, oc_value_type = word_of_int type,
           oc_store = c_str name, oc_key = c_str key\<rparr>
      | _ \<Rightarrow> \<lparr>oc_revision = 0, oc_operation = 0, oc_value_type = 0, oc_store = Str [], oc_key = Str []\<rparr>)"

definition change_rows :: "sql_row set" where
  "change_rows = {change_sql_row name c |name c. 0 \<le> cr_type (snd c) \<and> cr_type (snd c) \<le> 8 \<and>
     cr_operation (snd c) \<in> {ESDB_OBJECT_CHANGE_PUT, ESDB_OBJECT_CHANGE_DELETE}}"

lemma change_reader: "reads_rows (read_change_row E) change_of change_rows"
  unfolding reads_rows_def
proof (intro allI impI)
  fix st :: statement and row rows cn x cn'
  assume st: "st_rows st = Some (row # rows)" and "row \<in> change_rows"
    and run: "read_change_row E st cn = (Done x, cn')"
  then obtain name c where row: "row = change_sql_row name c" and c: "0 \<le> cr_type (snd c)" "cr_type (snd c) \<le> 8"
    "cr_operation (snd c) = 1 \<or> cr_operation (snd c) = 2"
    by (auto simp: change_rows_def)
  have cols: "column st 0 = Sql_Int (fst c)" "column st (Suc 0) = Sql_Int (cr_operation (snd c))"
    "column st 2 = Sql_Int (cr_type (snd c))" "column st 3 = Sql_Text name" "column st 4 = Sql_Text (cr_key (snd c))"
    using st row by (simp_all add: column_def change_sql_row_def)
  from c have "column_int E st 1 = cr_operation (snd c)" "column_int E st 2 = cr_type (snd c)"
    by (auto intro!: column_int_small simp: cols)
  with run cols show "x = change_of row \<and> V cn' = V cn"
    by (auto simp: read_change_row_def Let_def column_text_def column_int64_def give_def row
        change_of_def change_sql_row_def split: if_splits)
qed

lemma changes_statement_Done:
  assumes "changes_statement E name a limit cn = (Done st, cn')" and "\<not> (10000 :: u32) < limit"
    and "\<not> ESDB_REVISION_MAX < a"
  obtains q p where "st = \<lparr>st_sql = sql_text q, st_params = p, st_rows = None\<rparr>" "V cn' = V cn"
    "q \<noteq> Prune_Changes" "\<And>t. answer_of q p t =
      Rows (journal_rows (uint a) (\<lambda>n. name = None \<or> n = c_bytes (the name)) (uint limit) t) t"
proof -
  note ints = sint_revision [OF assms(3)] sint_limit(1) [OF assms(2)]
  show thesis
  proof (cases name)
    case None
    with assms(1) obtain st1 cn1 st2 cn2 where
      "prepare E (sql_text Changes_All) SUB cn = (Done st1, cn1)"
      "bind_value E 1 (Sql_Int (sint a)) SUB st1 cn1 = (Done st2, cn2)"
      "bind_value E 2 (Sql_Int (sint limit)) SUB st2 cn2 = (Done st, cn')"
      unfolding changes_statement_def bind_defs by (auto simp: chain_Done)
    then show thesis
      using None ints
      by (intro that [of Changes_All "(\<lambda>_. Sql_Null)(1 := Sql_Int (uint a), 2 := Sql_Int (uint limit))"])
        (auto dest!: prepare_Done bind_Done)
  next
    case (Some n)
    with assms(1) obtain st1 cn1 st2 cn2 st3 cn3 where
      "prepare E (sql_text Changes_Store) SUB cn = (Done st1, cn1)"
      "bind_value E 1 (Sql_Int (sint a)) SUB st1 cn1 = (Done st2, cn2)"
      "bind_value E 2 (Sql_Text (c_bytes n)) SUB st2 cn2 = (Done st3, cn3)"
      "bind_value E 3 (Sql_Int (sint limit)) SUB st3 cn3 = (Done st, cn')"
      unfolding changes_statement_def bind_defs by (auto simp: chain_Done)
    then show thesis
      using Some ints
      by (intro that [of Changes_Store "(\<lambda>_. Sql_Null)(1 := Sql_Int (uint a), 2 := Sql_Text (c_bytes n),
          3 := Sql_Int (uint limit))"]) (auto dest!: prepare_Done bind_Done)
  qed
qed

lemma change_of_row:
  "store_name_of (cr_store (snd c)) t = Some name \<Longrightarrow> change_of (change_sql_row name c) = journal_change t c"
  by (simp add: change_of_def change_sql_row_def journal_change_def)

lemma changes_collected:
  assumes "chain (ensure_object_store_schema E) (\<lambda>_.
      chain (changes_statement E name a limit) (\<lambda>st.
      chain (collect_rows (Suc (unat limit)) throws i E SUB (read_change_row E) st [])
        (\<lambda>snapshot. case snapshot of Snap_Thrown e \<Rightarrow> thrown e | Snap_Rows rows \<Rightarrow> give rows))) cn = (Done rows, cn')"
    and "\<And>e cn x cn'. thrown e cn \<noteq> (Done x, cn')"
    and "usable cn t" and "changes_wf t" and "\<not> (10000 :: u32) < limit" and "\<not> ESDB_REVISION_MAX < a"
  shows "rows = take (unat limit) (object_changes name (uint a) t)" and "V cn' = schema_ready_view t (V cn)"
proof -
  from assms(1) obtain cn1 where e: "ensure_object_store_schema E cn = (Done (), cn1)"
    and q: "chain (changes_statement E name a limit) (\<lambda>st.
      chain (collect_rows (Suc (unat limit)) throws i E SUB (read_change_row E) st [])
        (\<lambda>snapshot. case snapshot of Snap_Thrown e \<Rightarrow> thrown e | Snap_Rows rows \<Rightarrow> give rows)) cn1 = (Done rows, cn')"
    by (auto simp: chain_Done)
  from ensure_run [OF e assms(3)] have v1: "V cn1 = schema_ready_view t (V cn)"
    by (simp add: with_schema_ready)
  from q obtain st cn2 snapshot cn3 where s: "changes_statement E name a limit cn1 = (Done st, cn2)"
    and c3: "collect_rows (Suc (unat limit)) throws i E SUB (read_change_row E) st [] cn2 = (Done snapshot, cn3)"
    and "(case snapshot of Snap_Thrown e \<Rightarrow> thrown e | Snap_Rows rows \<Rightarrow> give rows) cn3 = (Done rows, cn')"
    by (auto simp: chain_Done simp del: collect_rows.simps)
  with assms(2) have c: "collect_rows (Suc (unat limit)) throws i E SUB (read_change_row E) st [] cn2
      = (Done (Snap_Rows rows), cn')"
    by (cases snapshot) simp_all
  from changes_statement_Done [OF s assms(5,6)] obtain k p where
    st: "st = \<lparr>st_sql = sql_text k, st_params = p, st_rows = None\<rparr>" and v2: "V cn2 = V cn1" and k: "k \<noteq> Prune_Changes"
    and ans: "answer_of k p t =
      Rows (journal_rows (uint a) (\<lambda>n. name = None \<or> n = c_bytes (the name)) (uint limit) t) t"
    by metis
  let ?cs = "filter (\<lambda>c. uint a < fst c \<and>
      (name = None \<or> the (store_name_of (cr_store (snd c)) t) = c_bytes (the name))) (tb_changes t)"
  let ?rows = "take (unat limit) (map (\<lambda>c. change_sql_row (the (store_name_of (cr_store (snd c)) t)) c) ?cs)"
  have rows: "journal_rows (uint a) (\<lambda>n. name = None \<or> n = c_bytes (the name)) (uint limit) t = ?rows"
    using journal_rows_wf [OF assms(4)] by simp
  have "change_sql_row n c \<in> change_rows" if "c \<in> set (tb_changes t)" for n c
    using assms(4) that unfolding changes_wf_def change_rows_def by blast
  then have "set ?rows \<subseteq> change_rows"
    by (auto dest!: in_set_takeD)
  moreover have "length ?rows \<le> unat limit" by simp
  moreover have "v_now (V cn2) = Present t" using v1 v2 by simp
  ultimately have out: "rows = map change_of ?rows \<and> V cn' = V cn2"
    using collect_first [OF change_reader _ _ c [unfolded st] _ ans [unfolded rows] k] by blast
  have named: "store_name_of (cr_store (snd c)) t \<noteq> None" if "c \<in> set (tb_changes t)" for c
    using assms(4) that by (auto simp: changes_wf_def)
  have decoded: "change_of (change_sql_row (the (store_name_of (cr_store (snd c)) t)) c) = journal_change t c"
    if "c \<in> set (tb_changes t)" for c
    using named [OF that] change_of_row by (metis option.exhaust_sel)
  have mapped: "map change_of ?rows = take (unat limit) (map (journal_change t) ?cs)"
    unfolding take_map [symmetric] map_map comp_def
    using decoded by (auto intro!: arg_cong [of _ _ "take (unat limit)"] map_cong simp del: option.collapse)
  have same: "?cs = filter (\<lambda>c. uint a < fst c \<and>
           (name = None \<or> store_name_of (cr_store (snd c)) t = Some (c_bytes (the name)))) (tb_changes t)"
    using named by (intro filter_cong refl) (metis option.exhaust_sel option.sel)
  show "rows = take (unat limit) (object_changes name (uint a) t)"
    using out mapped unfolding object_changes_def same [symmetric] by metis
  show "V cn' = schema_ready_view t (V cn)" using out v1 v2 by simp
qed

text \<open>What the host sees of a snapshot it is shown one by one.\<close>

lemma delivered:
  assumes "deliver (logged callback) rows None 0 (user, []) = (threw, prev, m, (user', seen))"
    and "rows = take (change_limit limit) rows'" and "\<not> (10000 :: u32) < limit"
  shows "unat (of_nat m :: u32) = m" and "seen = take m rows'" and "length seen = m" and "m \<le> change_limit limit"
    and "prev = (if seen = [] then None else Some (last seen))"
proof -
  from deliver_logged [OF assms(1)] obtain k where k: "k \<le> length rows" "m = k" "seen = take k rows"
    "prev = (if k = 0 then None else Some (rows ! (k - 1)))"
    by auto
  from k(1) assms(2) have bound: "k \<le> change_limit limit" by simp
  moreover have "change_limit limit \<le> 10000"
    using sint_limit(3) [OF assms(3)] by (auto simp: change_limit_def)
  ultimately show "unat (of_nat m :: u32) = m"
    using k(2) by (simp add: unat_of_nat)
  show "seen = take m rows'" using k bound assms(2) by (simp add: min_def)
  show len: "length seen = m" using k by simp
  show "m \<le> change_limit limit" using bound k(2) by simp
  show "prev = (if seen = [] then None else Some (last seen))"
  proof (cases "k = 0")
    case True
    with k show ?thesis by simp
  next
    case False
    then have "seen \<noteq> []" using len k(2) by auto
    moreover have "last seen = rows ! (k - 1)"
      using False k \<open>seen \<noteq> []\<close> len by (simp add: last_conv_nth)
    ultimately show ?thesis using False k(4) by simp
  qed
qed

lemma changes_run:
  assumes "object_store_changes_since_impl E throws name a limit (Some (logged callback)) (user, []) cn
      = ((Done (revision, n), cn'), (user', seen))"
    and "usable cn t" and "changes_wf t"
  shows "seen = take (unat n) (object_changes name (uint a) t)" and "length seen = unat n"
    and "unat n \<le> change_limit limit"
    and "revision = (if seen = [] then a else oc_revision (last seen))"
    and "V cn' = schema_ready_view t (V cn)"
proof -
  let ?lim = "if limit = 0 then ESDB_OBJECT_CHANGE_LIMIT_MAX else limit"
  define thrown :: "exn \<Rightarrow> ('d, object_change list) action" where "thrown e = (case e of
      Bad_Alloc \<Rightarrow> cn_fail E ESDB_ERR_OUT_OF_MEMORY SUB SQLITE_NOMEM (Some ''failed to allocate change snapshot'')
    | Other_Exn \<Rightarrow> cn_fail E ESDB_ERR_INTERNAL SUB SQLITE_ERROR
        (Some ''unexpected exception while building change snapshot''))" for e
  have thrown: "thrown e cn \<noteq> (Done x, cn')" for e cn x cn'
    by (cases e) (auto simp: thrown_def)
  define collected where "collected = (case throws 0 of Some e \<Rightarrow> thrown e
    | None \<Rightarrow> chain (ensure_object_store_schema E) (\<lambda>_.
        chain (changes_statement E name a ?lim) (\<lambda>st.
        chain (collect_rows (Suc (unat ?lim)) throws 0 E SUB (read_change_row E) st [])
          (\<lambda>snapshot. case snapshot of Snap_Thrown e \<Rightarrow> thrown e | Snap_Rows rows \<Rightarrow> give rows))))"
  from assms(1) have cond: "\<not> (10000 :: u32) < limit" "\<not> ESDB_REVISION_MAX < a"
    "\<not> (name \<noteq> None \<and> \<not> valid_object_store_name name)"
    by (auto simp: object_store_changes_since_impl_def invalid_revision_def split: if_splits)
  have first: "\<not> (Some (logged callback) = None \<or> (10000 :: u32) < limit)" using cond(1) by simp
  have run: "(case collected cn of
      (Failed status e, cn) \<Rightarrow> ((Failed status e, cn), (user, []))
    | (Done rows, cn) \<Rightarrow>
       (case deliver (logged callback) rows None 0 (user, []) of
          (threw, seen, delivered, user') \<Rightarrow>
            ((if threw then cn_fail E ESDB_ERR_INTERNAL SUB SQLITE_ABORT
                (Some ''change callback threw an exception'') cn
              else (Done (case seen of None \<Rightarrow> a | Some c \<Rightarrow> oc_revision c, of_nat delivered), cn)), user')))
      = ((Done (revision, n), cn'), (user', seen))"
    using assms(1)
    unfolding object_store_changes_since_impl_def collected_def thrown_def Let_def option.sel
      if_not_P [OF first] if_not_P [OF cond(2)] if_not_P [OF cond(3)] .
  then obtain rows cn1 where c: "collected cn = (Done rows, cn1)"
    by (auto split: prod.splits outcome.splits)
  obtain threw prev m u' s' where d: "deliver (logged callback) rows None 0 (user, []) = (threw, prev, m, (u', s'))"
    by (metis prod_cases3 surj_pair)
  from run c d have out: "\<not> threw" "revision = (case prev of None \<Rightarrow> a | Some c \<Rightarrow> oc_revision c)"
    "n = of_nat m" "cn' = cn1" "user' = u'" "seen = s'"
    by (auto split: if_splits)
  from c thrown have q: "chain (ensure_object_store_schema E) (\<lambda>_.
        chain (changes_statement E name a ?lim) (\<lambda>st.
        chain (collect_rows (Suc (unat ?lim)) throws 0 E SUB (read_change_row E) st [])
          (\<lambda>snapshot. case snapshot of Snap_Thrown e \<Rightarrow> thrown e | Snap_Rows rows \<Rightarrow> give rows))) cn
      = (Done rows, cn1)"
    unfolding collected_def by (cases "throws 0") simp_all
  have lim: "\<not> (10000 :: u32) < ?lim" "unat ?lim = change_limit limit"
    using cond(1) by (auto simp: change_limit_def)
  note col = changes_collected [OF q thrown assms(2,3) lim(1) cond(2)]
  note del = delivered [OF d _ cond(1), of "object_changes name (uint a) t"]
  from col(1) lim(2) have rows: "rows = take (change_limit limit) (object_changes name (uint a) t)" by simp
  show "seen = take (unat n) (object_changes name (uint a) t)" "length seen = unat n"
    "unat n \<le> change_limit limit" "V cn' = schema_ready_view t (V cn)"
    using del(1-4) [OF rows] out col(2) by simp_all
  show "revision = (if seen = [] then a else oc_revision (last seen))"
    using del(5) [OF rows] out by simp
qed

section \<open>Scans\<close>

definition record_of :: "sql_row \<Rightarrow> object_record" where
  "record_of row =
     (case row of
        [Sql_Text key, Sql_Int type, Sql_Blob payload, Sql_Int revision] \<Rightarrow>
          \<lparr>or_key = Str key, or_value = \<lparr>ev_type = word_of_int type, ev_payload = payload\<rparr>,
           or_revision = of_int revision\<rparr>
      | _ \<Rightarrow> \<lparr>or_key = Str [], or_value = \<lparr>ev_type = 0, ev_payload = []\<rparr>, or_revision = 0\<rparr>)"

definition record_rows :: "sql_row set" where
  "record_rows = {[Sql_Text k, Sql_Int (rr_type r), Sql_Blob (rr_payload r), Sql_Int (rr_revision r)] |k (r :: record_row).
     0 \<le> rr_type r \<and> rr_type r \<le> 8}"

lemma record_rowE:
  assumes "row \<in> record_rows"
  obtains k and r :: record_row where
    "row = [Sql_Text k, Sql_Int (rr_type r), Sql_Blob (rr_payload r), Sql_Int (rr_revision r)]"
    "0 \<le> rr_type r" "rr_type r \<le> 8"
  using assms unfolding record_rows_def by blast

lemma record_reader: "reads_rows (read_record_row E alloc) record_of record_rows"
  unfolding reads_rows_def
proof (intro allI impI)
  fix st :: statement and row rows cn x cn'
  assume st: "st_rows st = Some (row # rows)" and "row \<in> record_rows"
    and run: "read_record_row E alloc st cn = (Done x, cn')"
  from \<open>row \<in> record_rows\<close> obtain k and r :: record_row where
    row: "row = [Sql_Text k, Sql_Int (rr_type r), Sql_Blob (rr_payload r), Sql_Int (rr_revision r)]"
    and type: "0 \<le> rr_type r" "rr_type r \<le> 8"
    by (rule record_rowE)
  have cols: "column st 0 = Sql_Text k" "column st 1 = Sql_Int (rr_type r)" "column st 2 = Sql_Blob (rr_payload r)"
    "column st 3 = Sql_Int (rr_revision r)"
    using st row by (simp_all add: column_def)
  from run cols obtain y where c: "clone_sql_value E alloc st 1 2 cn = (Done y, cn')"
    and x: "x = \<lparr>or_key = Str k, or_value = y, or_revision = of_int (rr_revision r)\<rparr>"
    by (auto simp: read_record_row_def Let_def column_text_def column_int64_def chain_Done split: if_splits)
  from clone_Done [OF c cols(2,3)] type have "y = row_value r" "cn' = cn" by simp_all
  with x row show "x = record_of row \<and> V cn' = V cn"
    by (simp add: record_of_def row_value_def)
qed

lemma scan_statement_Done:
  assumes "scan_statement E name after_key limit cn = (Done st, cn')" and "\<not> (10000 :: u32) < limit"
  obtains q p where "st = \<lparr>st_sql = sql_text q, st_params = p, st_rows = None\<rparr>" "V cn' = V cn"
    "q \<noteq> Prune_Changes" "\<And>t. answer_of q p t = Rows (scan_rows (c_bytes name)
      (\<lambda>k. after_key = None \<or> Str (c_bytes (the after_key)) < k) (uint limit) t) t"
proof -
  note ints = sint_limit(1) [OF assms(2)]
  show thesis
  proof (cases after_key)
    case None
    with assms(1) obtain st1 cn1 st2 cn2 where
      "prepare E (sql_text Scan_All) OBJ cn = (Done st1, cn1)"
      "bind_value E 1 (Sql_Text (c_bytes name)) OBJ st1 cn1 = (Done st2, cn2)"
      "bind_value E 2 (Sql_Int (sint limit)) OBJ st2 cn2 = (Done st, cn')"
      unfolding scan_statement_def bind_defs by (auto simp: chain_Done)
    then show thesis
      using None ints
      by (intro that [of Scan_All "(\<lambda>_. Sql_Null)(1 := Sql_Text (c_bytes name), 2 := Sql_Int (uint limit))"])
        (auto dest!: prepare_Done bind_Done)
  next
    case (Some k)
    with assms(1) obtain st1 cn1 st2 cn2 st3 cn3 where
      "prepare E (sql_text Scan_After) OBJ cn = (Done st1, cn1)"
      "bind_value E 1 (Sql_Text (c_bytes name)) OBJ st1 cn1 = (Done st2, cn2)"
      "bind_value E 2 (Sql_Text (c_bytes k)) OBJ st2 cn2 = (Done st3, cn3)"
      "bind_value E 3 (Sql_Int (sint limit)) OBJ st3 cn3 = (Done st, cn')"
      unfolding scan_statement_def bind_defs by (auto simp: chain_Done)
    then show thesis
      using Some ints
      by (intro that [of Scan_After "(\<lambda>_. Sql_Null)(1 := Sql_Text (c_bytes name),
          2 := Sql_Text (c_bytes k), 3 := Sql_Int (uint limit))"]) (auto dest!: prepare_Done bind_Done)
  qed
qed

lemma scan_rows_records:
  assumes "types_small t"
  shows "set (scan_rows name keep limit t) \<subseteq> record_rows"
    and "length (scan_rows name keep limit t) \<le> nat limit"
    and "map record_of (scan_rows name (\<lambda>k. after_key = None \<or> Str (c_bytes (the after_key)) < k) limit t) =
      take (nat limit) (object_records name after_key t)"
proof -
  show "set (scan_rows name keep limit t) \<subseteq> record_rows"
  proof
    fix x
    assume "x \<in> set (scan_rows name keep limit t)"
    then obtain p where p: "p \<in> set (tb_records t)" and x: "x = [Sql_Text (bytes (snd (fst p))),
        Sql_Int (rr_type (snd p)), Sql_Blob (rr_payload (snd p)), Sql_Int (rr_revision (snd p))]"
      by (auto simp: scan_rows_def dest!: in_set_takeD split: option.splits)
    from assms p have "0 \<le> rr_type (snd p)" "rr_type (snd p) \<le> 8"
      by (auto simp: types_small_def)
    with x show "x \<in> record_rows" unfolding record_rows_def by blast
  qed
  show "length (scan_rows name keep limit t) \<le> nat limit"
    by (auto simp: scan_rows_def split: option.splits)
  show "map record_of (scan_rows name (\<lambda>k. after_key = None \<or> Str (c_bytes (the after_key)) < k) limit t) =
      take (nat limit) (object_records name after_key t)"
  proof (cases "store_id_of name t")
    case None
    then have "filter (\<lambda>((s, k), r :: record_row). False) (tb_records t) = []"
      by (auto simp: filter_empty_conv)
    with None show ?thesis by (simp add: scan_rows_def object_records_def)
  next
    case (Some i)
    then have "(\<lambda>((s, k), r :: record_row). s = i \<and> (after_key = None \<or> Str (c_bytes (the after_key)) < k)) =
        (\<lambda>((s, k), r). store_id_of name t = Some s \<and> (after_key = None \<or> Str (c_bytes (the after_key)) < k))"
      by auto
    with Some show ?thesis
      by (auto simp: scan_rows_def object_records_def take_map record_of_def row_value_def)
  qed
qed

lemma scan_collected:
  assumes "chain (ensure_object_store_schema E) (\<lambda>_.
      chain (scan_statement E name after_key limit) (\<lambda>st.
      chain (collect_rows (Suc (unat limit)) throws i E OBJ (read_record_row E alloc) st [])
        (\<lambda>snapshot. case snapshot of Snap_Thrown e \<Rightarrow> thrown e | Snap_Rows rows \<Rightarrow> give rows))) cn = (Done rows, cn')"
    and "\<And>e cn x cn'. thrown e cn \<noteq> (Done x, cn')"
    and "usable cn t" and "types_small t" and "\<not> (10000 :: u32) < limit"
  shows "rows = take (unat limit) (object_records (c_bytes name) after_key t)"
    and "V cn' = schema_ready_view t (V cn)"
proof -
  from assms(1) obtain cn1 where e: "ensure_object_store_schema E cn = (Done (), cn1)"
    and q: "chain (scan_statement E name after_key limit) (\<lambda>st.
      chain (collect_rows (Suc (unat limit)) throws i E OBJ (read_record_row E alloc) st [])
        (\<lambda>snapshot. case snapshot of Snap_Thrown e \<Rightarrow> thrown e | Snap_Rows rows \<Rightarrow> give rows)) cn1 = (Done rows, cn')"
    by (auto simp: chain_Done)
  from ensure_run [OF e assms(3)] have v1: "V cn1 = schema_ready_view t (V cn)"
    by (simp add: with_schema_ready)
  from q obtain st cn2 snapshot cn3 where s: "scan_statement E name after_key limit cn1 = (Done st, cn2)"
    and c3: "collect_rows (Suc (unat limit)) throws i E OBJ (read_record_row E alloc) st [] cn2 = (Done snapshot, cn3)"
    and "(case snapshot of Snap_Thrown e \<Rightarrow> thrown e | Snap_Rows rows \<Rightarrow> give rows) cn3 = (Done rows, cn')"
    by (auto simp: chain_Done simp del: collect_rows.simps)
  with assms(2) have c: "collect_rows (Suc (unat limit)) throws i E OBJ (read_record_row E alloc) st [] cn2
      = (Done (Snap_Rows rows), cn')"
    by (cases snapshot) simp_all
  from scan_statement_Done [OF s assms(5)] obtain k p where
    st: "st = \<lparr>st_sql = sql_text k, st_params = p, st_rows = None\<rparr>" and v2: "V cn2 = V cn1" and k: "k \<noteq> Prune_Changes"
    and ans: "answer_of k p t = Rows (scan_rows (c_bytes name)
      (\<lambda>k. after_key = None \<or> Str (c_bytes (the after_key)) < k) (uint limit) t) t"
    by metis
  let ?rows = "scan_rows (c_bytes name) (\<lambda>k. after_key = None \<or> Str (c_bytes (the after_key)) < k) (uint limit) t"
  have "v_now (V cn2) = Present t" using v1 v2 by simp
  moreover have "length ?rows \<le> unat limit"
    using scan_rows_records(2) [OF assms(4), of "c_bytes name" _ "uint limit"] by simp
  ultimately have "rows = map record_of ?rows \<and> V cn' = V cn2"
    using collect_first [OF record_reader scan_rows_records(1) [OF assms(4)] _ c [unfolded st] _ ans k] by blast
  with scan_rows_records(3) [OF assms(4), of "c_bytes name" after_key "uint limit"] v1 v2
  show "rows = take (unat limit) (object_records (c_bytes name) after_key t)"
    "V cn' = schema_ready_view t (V cn)"
    by simp_all
qed

lemma scan_run:
  assumes "esdb_object_store_scan E throws alloc name after_key limit (Some (logged callback)) (user, []) (Some cn)
      = ((Done n, Some cn'), (user', seen))"
    and "usable cn t" and "types_small t"
  shows "seen = take (unat n) (object_records (c_bytes (the name)) after_key t)" and "length seen = unat n"
    and "unat n \<le> change_limit limit" and "V cn' = schema_ready_view t (V cn)"
proof -
  let ?lim = "if limit = 0 then ESDB_OBJECT_SCAN_LIMIT_MAX else limit"
  define thrown :: "exn \<Rightarrow> ('d, object_record list) action" where "thrown e = (case e of
      Bad_Alloc \<Rightarrow> cn_fail E ESDB_ERR_OUT_OF_MEMORY OBJ SQLITE_NOMEM (Some ''failed to allocate Store scan snapshot'')
    | Other_Exn \<Rightarrow> cn_fail E ESDB_ERR_INTERNAL OBJ SQLITE_ERROR
        (Some ''unexpected exception while building Store scan snapshot''))" for e
  have thrown: "thrown e cn \<noteq> (Done x, cn')" for e cn x cn'
    by (cases e) (auto simp: thrown_def)
  let ?bad = "Some (logged callback) = None \<or> \<not> valid_object_store_name name
      \<or> (after_key \<noteq> None \<and> \<not> valid_object_store_key after_key) \<or> ESDB_OBJECT_SCAN_LIMIT_MAX < limit"
  define collected where "collected = public_call (null_database E OBJ SQLITE_MISUSE ''invalid Store scan arguments'')
    (if ?bad then cn_fail E ESDB_ERR_INVALID_ARGUMENT OBJ SQLITE_MISUSE (Some ''invalid Store scan arguments'')
     else case throws 0 of Some e \<Rightarrow> thrown e
      | None \<Rightarrow> chain (ensure_object_store_schema E) (\<lambda>_.
          chain (scan_statement E (the name) after_key ?lim) (\<lambda>st.
          chain (collect_rows (Suc (unat ?lim)) throws 0 E OBJ (read_record_row E alloc) st [])
            (\<lambda>snapshot. case snapshot of Snap_Thrown e \<Rightarrow> thrown e | Snap_Rows rows \<Rightarrow> give rows)))) (Some cn)"
  have run: "(case collected of
      (Failed status e, database) \<Rightarrow> ((Failed status e, database), (user, []))
    | (Done rows, database) \<Rightarrow>
       (case deliver (logged callback) rows None 0 (user, []) of
          (threw, seen, delivered, user') \<Rightarrow>
            ((if threw then on_database (null_database E OBJ SQLITE_ABORT [])
                (cn_fail E ESDB_ERR_INTERNAL OBJ SQLITE_ABORT (Some ''Store scan callback threw an exception'')) database
              else (Done (of_nat delivered), database)), user')))
      = ((Done n, Some cn'), (user', seen))"
    using assms(1) unfolding esdb_object_store_scan_def collected_def thrown_def Let_def option.sel .
  then obtain rows db1 where c: "collected = (Done rows, db1)"
    by (auto split: prod.splits outcome.splits)
  obtain threw prev m u' s' where d: "deliver (logged callback) rows None 0 (user, []) = (threw, prev, m, (u', s'))"
    by (metis prod_cases3 surj_pair)
  obtain cn1 where db1: "db1 = Some cn1"
    using c by (auto simp: collected_def public_call_def on_database_def split: prod.splits)
  from run c d have out: "n = of_nat m" "cn' = cn1" "seen = s'"
    by (auto simp: on_database_def db1 split: if_splits prod.splits)
  from c db1 obtain cn0 where c0: "(if ?bad then cn_fail E ESDB_ERR_INVALID_ARGUMENT OBJ SQLITE_MISUSE
        (Some ''invalid Store scan arguments'')
     else case throws 0 of Some e \<Rightarrow> thrown e
      | None \<Rightarrow> chain (ensure_object_store_schema E) (\<lambda>_.
          chain (scan_statement E (the name) after_key ?lim) (\<lambda>st.
          chain (collect_rows (Suc (unat ?lim)) throws 0 E OBJ (read_record_row E alloc) st [])
            (\<lambda>snapshot. case snapshot of Snap_Thrown e \<Rightarrow> thrown e | Snap_Rows rows \<Rightarrow> give rows)))) cn0 = (Done rows, cn1)"
    and cn0: "V cn0 = V cn" "cn_schema_ready cn0 = cn_schema_ready cn"
    unfolding collected_def by (blast elim: public_call_run)
  have good: "\<not> ?bad"
  proof
    assume bad: ?bad
    from c0 [unfolded if_P [OF bad]] show False by simp
  qed
  then have cond: "\<not> (10000 :: u32) < limit" by blast
  from c0 [unfolded if_not_P [OF good]] thrown have q: "chain (ensure_object_store_schema E) (\<lambda>_.
        chain (scan_statement E (the name) after_key ?lim) (\<lambda>st.
        chain (collect_rows (Suc (unat ?lim)) throws 0 E OBJ (read_record_row E alloc) st [])
          (\<lambda>snapshot. case snapshot of Snap_Thrown e \<Rightarrow> thrown e | Snap_Rows rows \<Rightarrow> give rows))) cn0
      = (Done rows, cn1)"
    by (cases "throws 0") simp_all
  have lim: "\<not> (10000 :: u32) < ?lim" "unat ?lim = change_limit limit"
    using cond by (auto simp: change_limit_def)
  have "usable cn0 t" using assms(2) cn0 by (simp add: usable_def)
  note col = scan_collected [OF q thrown this assms(3) lim(1)]
  from col(1) lim(2) have rows: "rows = take (change_limit limit) (object_records (c_bytes (the name)) after_key t)"
    by simp
  from delivered(1-4) [OF d rows cond] out col(2) cn0
  show "seen = take (unat n) (object_records (c_bytes (the name)) after_key t)" "length seen = unat n"
    "unat n \<le> change_limit limit" "V cn' = schema_ready_view t (V cn)"
    by simp_all
qed

section \<open>Pruning\<close>

lemma count_more:
  assumes "count_pruned fuel E \<lparr>st_sql = sql_text q, st_params = p, st_rows = Some (row # rows)\<rparr> d cn = (Done x, cn')"
  shows "x = (if length rows < fuel then Some (d + of_nat (length rows)) else None) \<and> V cn' = V cn"
  using assms
proof (induction rows arbitrary: fuel row d cn)
  case Nil
  show ?case
  proof (cases fuel)
    case 0
    with Nil show ?thesis by simp
  next
    case (Suc f)
    with Nil obtain y cn1 where s: "step E OBJ \<lparr>st_sql = sql_text q, st_params = p, st_rows = Some [row]\<rparr> cn = (Done y, cn1)"
      by (auto simp: chain_Done)
    from step_more_Done [OF s] s Nil Suc show ?thesis
      by (simp add: chain_def give_def)
  qed
next
  case (Cons r rows)
  show ?case
  proof (cases fuel)
    case 0
    with Cons show ?thesis by simp
  next
    case (Suc f)
    with Cons.prems obtain y cn1 where s: "step E OBJ \<lparr>st_sql = sql_text q, st_params = p,
        st_rows = Some (row # r # rows)\<rparr> cn = (Done y, cn1)"
      by (auto simp: chain_Done)
    let ?st = "\<lparr>st_sql = sql_text q, st_params = p, st_rows = Some (r # rows)\<rparr>"
    from step_more_Done [OF s] have y: "y = (SQLITE_ROW, ?st)" "V cn1 = V cn" by simp_all
    from s y Cons.prems Suc have "count_pruned f E ?st (d + 1) cn1 = (Done x, cn')"
      by (auto simp: chain_Done split: if_splits)
    from Cons.IH [OF this] y(2) Suc show ?thesis by (simp add: algebra_simps)
  qed
qed

lemma prune_first:
  assumes "count_pruned (Suc fuel) E \<lparr>st_sql = sql_text Prune_Changes, st_params = p, st_rows = None\<rparr> 0 cn = (Done x, cn')"
    and "v_now (V cn) = Present t" and "p 1 = Sql_Int through"
  defines "n \<equiv> length (filter (\<lambda>c. fst c \<le> through) (tb_changes t))"
  shows "x = (if n \<le> fuel then Some (of_nat n) else None) \<and> V cn' = schema_ready_view (pruned through t) (V cn)"
proof -
  obtain rc rows db where raw: "sq_step E (sql_text Prune_Changes) p None (cn_db cn) = (rc, rows, db)"
    by (metis prod_cases3)
  let ?st = "\<lparr>st_sql = sql_text Prune_Changes, st_params = p, st_rows = Some rows\<rparr>"
  from assms(1) raw have ok: "rc = SQLITE_ROW \<or> rc = SQLITE_DONE"
    and s: "step E OBJ \<lparr>st_sql = sql_text Prune_Changes, st_params = p, st_rows = None\<rparr> cn
      = (Done (rc, ?st), cn\<lparr>cn_db := db\<rparr>)"
    by (auto simp: chain_Done step_def Let_def split: if_splits)
  let ?rs = "map (\<lambda>c. [Sql_Int (fst c)]) (filter (\<lambda>c. fst c \<le> through) (tb_changes t))"
  have ans: "database_answer Prune_Changes p (v_now (view (cn_db cn))) = (Rows ?rs (pruned through t), Present)"
    using assms(2,3) by (simp add: database_answer_def V_def pruned_def)
  from step_answers [OF raw ok ans]
  have m: "mset rows = mset ?rs" "rc = (if rows = [] then SQLITE_DONE else SQLITE_ROW)"
    "V (cn\<lparr>cn_db := db\<rparr>) = schema_ready_view (pruned through t) (V cn)"
    by (simp_all add: V_def schema_ready_view_def now_update)
  have len: "length rows = n"
    using mset_eq_length [OF m(1)] by (simp add: n_def)
  show ?thesis
  proof (cases rows)
    case Nil
    with assms(1) s m len show ?thesis
      by (auto simp: chain_def give_def)
  next
    case (Cons r rest)
    with assms(1) s m have "count_pruned fuel E ?st 1 (cn\<lparr>cn_db := db\<rparr>) = (Done x, cn')"
      by (auto simp: chain_def split: if_splits)
    from count_more [OF this [unfolded Cons]] len Cons m(3) show ?thesis
      by auto
  qed
qed

lemma prune_run:
  assumes "esdb_object_store_prune_changes (Suc fuel) E through (Some cn) = (Done x, Some cn')" and "usable cn t"
  defines "n \<equiv> length (filter (\<lambda>c. fst c \<le> uint through) (tb_changes t))"
  shows "x = (if n \<le> fuel then Some (of_nat n) else None)"
    and "V cn' = schema_ready_view (pruned (uint through) t) (V cn)"
proof -
  let ?query = "chain (prepare E SQL_PRUNE OBJ) (\<lambda>st.
      chain (bind_value E 1 (Sql_Int (sint through)) OBJ st) (\<lambda>st. count_pruned (Suc fuel) E st 0))"
  from assms(1) obtain cn0 where run: "(if ESDB_REVISION_MAX < through
        then invalid_revision E OBJ ''through_revision exceeds the ESDB revision domain''
        else chain (ensure_object_store_schema E) (\<lambda>_. chain (require_store_writable E) (\<lambda>_. ?query))) cn0
      = (Done x, cn')"
    and cn0: "V cn0 = V cn" "cn_schema_ready cn0 = cn_schema_ready cn"
    unfolding esdb_object_store_prune_changes_def bind_defs by (rule public_call_run)
  have good: "\<not> ESDB_REVISION_MAX < through"
    using run by (auto simp: invalid_revision_def)
  have "usable cn0 t" using assms(2) cn0 by (simp add: usable_def)
  from run [unfolded if_not_P [OF good]] this obtain cn1 where
    w: "chain (require_store_writable E) (\<lambda>_. ?query) cn1 = (Done x, cn')"
    and v1: "V cn1 = schema_ready_view t (V cn)"
    using cn0 by (cases rule: ensured_run) auto
  from w have "?query cn1 = (Done x, cn')"
    by (cases rule: writable_chain) auto
  then obtain st1 cn2 st2 cn3 where
    "prepare E (sql_text Prune_Changes) OBJ cn1 = (Done st1, cn2)"
    "bind_value E 1 (Sql_Int (sint through)) OBJ st1 cn2 = (Done st2, cn3)"
    and q: "count_pruned (Suc fuel) E st2 0 cn3 = (Done x, cn')"
    by (auto simp: chain_Done simp del: count_pruned.simps)
  then have st: "st2 = \<lparr>st_sql = sql_text Prune_Changes,
      st_params = (\<lambda>_. Sql_Null)(1 := Sql_Int (sint through)), st_rows = None\<rparr>" and v: "V cn3 = V cn1"
    by (auto dest!: prepare_Done bind_Done simp del: sql_text.simps)
  from prune_first [OF q [unfolded st], of t "uint through"] v v1 sint_revision [OF good]
  show "x = (if n \<le> fuel then Some (of_nat n) else None)"
    "V cn' = schema_ready_view (pruned (uint through) t) (V cn)"
    by (simp_all add: n_def schema_ready_view_def)
qed

section \<open>A schema that is gone\<close>

text \<open>
  The connection remembers that the schema is there. When it is not there any more, every put
  fails: its statements do not prepare, and nothing creates the tables again.
\<close>

lemma put_without_schema:
  assumes "cn_schema_ready cn" and "v_now (V cn) = Absent"
    and "esdb_object_store_put E now name key v (Some cn) = (r, Some cn')"
  shows "\<exists>s e. r = Failed s e"
proof (rule ccontr)
  assume "\<nexists>s e. r = Failed s e"
  then obtain revision where r: "r = Done revision" by (cases r) auto
  let ?bad = "\<not> valid_object_store_name name \<or> \<not> valid_object_store_key key \<or> v = None
      \<or> \<not> valid_value_type (ev_type (the v))"
  from assms(3) obtain cn0 where run: "(if ?bad
      then cn_fail E ESDB_ERR_INVALID_ARGUMENT OBJ SQLITE_MISUSE (Some ''invalid store put arguments'')
      else chain (ensure_object_store_schema E) (\<lambda>_. chain (require_store_writable E) (\<lambda>_.
        chain (begin_store_mutation E) (\<lambda>owns.
        chain (guarded (rollback_store_mutation E owns) (put_body E now (the name) (the key) (the v))) (\<lambda>revision.
        chain (commit_store_mutation E owns) (\<lambda>_. give (of_int revision :: u64))))))) cn0 = (r, cn')"
    and cn0: "V cn0 = V cn" "cn_schema_ready cn0 = cn_schema_ready cn"
    unfolding esdb_object_store_put_def by (rule public_call_run)
  have good: "\<not> ?bad"
  proof
    assume bad: ?bad
    from run [unfolded if_P [OF bad] r] show False by simp
  qed
  from run [unfolded if_not_P [OF good] r] obtain cn1 cn2 owns cn3 x cn4 where
    "ensure_object_store_schema E cn0 = (Done (), cn1)" "require_store_writable E cn1 = (Done (), cn2)"
    and b: "begin_store_mutation E cn2 = (Done owns, cn3)"
    and body: "put_body E now (the name) (the key) (the v) cn3 = (Done x, cn4)"
    by (auto simp: chain_Done)
  then have "V cn2 = V cn"
    using assms(1) cn0 writable_run [of cn1 "Done ()" cn2]
    by (simp add: ensure_object_store_schema_def give_def)
  with begin_in_scope(2) [OF b] assms(2) have absent: "v_now (V cn3) = Absent" by simp
  from body obtain st cn5 where "prepare E (sql_text Insert_Store) OBJ cn3 = (Done st, cn5)"
    by (auto simp: put_body_def get_store_id_def register_store_def chain_Done)
  from prepare_run [OF this] absent show False by blast
qed

end

end
