(* ===== verification/Transactions_Reference.thy ===== *)
theory Transactions_Reference
  imports Sqlite_Transactions
begin

text \<open>
  An executable meaning of the transaction texts on a view, shared by the reference engines
  that satisfy the contracts.
\<close>

text \<open>The name in a text made by \<open>mk\<close>, which starts after \<open>k\<close> characters.\<close>

definition name_in :: "nat \<Rightarrow> (string \<Rightarrow> string) \<Rightarrow> string \<Rightarrow> string option" where
  "name_in k mk sql =
     (let n = takeWhile (\<lambda>c. c \<noteq> CHR '';'') (drop k sql)
      in if plain_name n \<and> mk n = sql then Some n else None)"

definition from_savepoint :: "string \<Rightarrow> (frame \<times> 'c) list \<Rightarrow> (frame \<times> 'c) list" where
  "from_savepoint name frames = dropWhile (\<lambda>f. fst f \<noteq> F_Savepoint name) frames"

text \<open>\<open>None\<close>: another statement; \<open>Some None\<close>: it fails.\<close>

definition tx_exec :: "string \<Rightarrow> 'c tx_view \<Rightarrow> 'c tx_view option option" where
  "tx_exec sql v =
     (if sql \<in> begin_sql ` {Deferred, Immediate, Exclusive}
      then Some (if v_frames v = [] then Some (v\<lparr>v_frames := [(F_Begin, v_now v)]\<rparr>) else None)
      else if sql = SQL_COMMIT
      then Some (if v_frames v = [] then None else Some (v\<lparr>v_frames := []\<rparr>))
      else if sql = SQL_ROLLBACK
      then Some (if v_frames v = [] then None else Some \<lparr>v_now = committed v, v_frames = []\<rparr>)
      else case name_in 10 savepoint_sql sql of
        Some n \<Rightarrow> Some (Some (v\<lparr>v_frames := (F_Savepoint n, v_now v) # v_frames v\<rparr>))
      | None \<Rightarrow>
       (case name_in 8 release_sql sql of
          Some n \<Rightarrow>
            Some (case from_savepoint n (v_frames v) of
                    [] \<Rightarrow> None | f # fs \<Rightarrow> Some (v\<lparr>v_frames := fs\<rparr>))
        | None \<Rightarrow>
         (case name_in 12 undo_sql sql of
            Some n \<Rightarrow>
              Some (case from_savepoint n (v_frames v) of
                      [] \<Rightarrow> None | f # fs \<Rightarrow> Some \<lparr>v_now = snd f, v_frames = fs\<rparr>)
          | None \<Rightarrow> None)))"

section \<open>Telling the texts apart\<close>

lemma plain_char_no_semicolon: "plain_char c \<Longrightarrow> c \<noteq> CHR '';''"
  by (rule notI) (simp add: plain_char_def less_eq_char_def)

lemma takeWhile_plain: "plain_name n \<Longrightarrow> takeWhile (\<lambda>c. c \<noteq> CHR '';'') (n @ CHR '';'' # rest) = n"
proof -
  assume "plain_name n"
  then have "\<forall>c \<in> set n. c \<noteq> CHR '';''"
    unfolding plain_name_def list_all_iff using plain_char_no_semicolon by blast
  then show ?thesis by (simp add: takeWhile_append2)
qed

lemma name_in_made:
  "plain_name n \<Longrightarrow> name_in 10 savepoint_sql (savepoint_sql n) = Some n"
  "plain_name n \<Longrightarrow> name_in 8 release_sql (release_sql n) = Some n"
  "plain_name n \<Longrightarrow> name_in 12 undo_sql (undo_sql n) = Some n"
  by (simp_all add: name_in_def savepoint_sql_def release_sql_def undo_sql_def takeWhile_plain)

lemma name_in_other: "(\<And>n. mk n \<noteq> sql) \<Longrightarrow> name_in k mk sql = None"
  by (simp add: name_in_def Let_def)

lemma texts_differ [simp]:
  "savepoint_sql n \<noteq> release_sql m" "savepoint_sql n \<noteq> undo_sql m" "release_sql n \<noteq> undo_sql m"
  "savepoint_sql n \<noteq> begin_sql b" "release_sql n \<noteq> begin_sql b" "undo_sql n \<noteq> begin_sql b"
  "savepoint_sql n \<noteq> SQL_COMMIT" "release_sql n \<noteq> SQL_COMMIT" "undo_sql n \<noteq> SQL_COMMIT"
  "savepoint_sql n \<noteq> SQL_ROLLBACK" "release_sql n \<noteq> SQL_ROLLBACK" "undo_sql n \<noteq> SQL_ROLLBACK"
  "SQL_COMMIT \<noteq> begin_sql b" "SQL_ROLLBACK \<noteq> begin_sql b" "SQL_ROLLBACK \<noteq> SQL_COMMIT"
  by (cases b; simp add: savepoint_sql_def release_sql_def undo_sql_def SQL_COMMIT_def SQL_ROLLBACK_def)+

lemmas texts_differ_sym [simp] = texts_differ [symmetric]

section \<open>The meaning of each text\<close>

lemma begin_among: "begin_sql m \<in> begin_sql ` {Deferred, Immediate, Exclusive}"
  by (cases m) auto

lemma tx_begin: "tx_exec (begin_sql m) v =
    Some (if v_frames v = [] then Some (v\<lparr>v_frames := [(F_Begin, v_now v)]\<rparr>) else None)"
  using begin_among [of m] by (simp only: tx_exec_def if_True)

lemma tx_commit: "tx_exec SQL_COMMIT v = Some (if v_frames v = [] then None else Some (v\<lparr>v_frames := []\<rparr>))"
  unfolding tx_exec_def by (simp del: begin_sql.simps)

lemma tx_rollback: "tx_exec SQL_ROLLBACK v =
    Some (if v_frames v = [] then None else Some \<lparr>v_now = committed v, v_frames = []\<rparr>)"
  unfolding tx_exec_def by (simp del: begin_sql.simps)

lemma tx_savepoint: "plain_name n \<Longrightarrow> tx_exec (savepoint_sql n) v =
    Some (Some (v\<lparr>v_frames := (F_Savepoint n, v_now v) # v_frames v\<rparr>))"
  unfolding tx_exec_def by (simp add: name_in_made del: begin_sql.simps)

lemma tx_release: "plain_name n \<Longrightarrow> tx_exec (release_sql n) v =
    Some (case from_savepoint n (v_frames v) of [] \<Rightarrow> None | f # fs \<Rightarrow> Some (v\<lparr>v_frames := fs\<rparr>))"
  unfolding tx_exec_def by (simp add: name_in_made name_in_other del: begin_sql.simps)

lemma tx_undo: "plain_name n \<Longrightarrow> tx_exec (undo_sql n) v =
    Some (case from_savepoint n (v_frames v) of
            [] \<Rightarrow> None | f # fs \<Rightarrow> Some \<lparr>v_now = snd f, v_frames = fs\<rparr>)"
  unfolding tx_exec_def by (simp add: name_in_made name_in_other del: begin_sql.simps)

lemma tx_other:
  assumes "\<And>b. sql \<noteq> begin_sql b" and "sql \<noteq> SQL_COMMIT" and "sql \<noteq> SQL_ROLLBACK"
    and "\<And>n. savepoint_sql n \<noteq> sql" and "\<And>n. release_sql n \<noteq> sql" and "\<And>n. undo_sql n \<noteq> sql"
  shows "tx_exec sql v = None"
  unfolding tx_exec_def using assms by (simp add: name_in_other image_iff del: begin_sql.simps)

lemma from_savepoint_top [simp]: "from_savepoint n ((F_Savepoint n, c) # fs) = (F_Savepoint n, c) # fs"
  by (simp add: from_savepoint_def)

lemma from_savepoint_missing: "no_savepoint v \<Longrightarrow> from_savepoint n (v_frames v) = []"
  by (auto simp: from_savepoint_def no_savepoint_def)

lemmas tx_meanings = tx_begin tx_commit tx_rollback tx_savepoint tx_release tx_undo

lemma tx_known:
  "tx_exec (begin_sql mode) v \<noteq> None" "tx_exec SQL_COMMIT v \<noteq> None" "tx_exec SQL_ROLLBACK v \<noteq> None"
  "plain_name n \<Longrightarrow> tx_exec (savepoint_sql n) v \<noteq> None"
  "plain_name n \<Longrightarrow> tx_exec (release_sql n) v \<noteq> None" "plain_name n \<Longrightarrow> tx_exec (undo_sql n) v \<noteq> None"
  by (simp_all add: tx_meanings)

section \<open>Failing calls\<close>

definition failed_view :: "bool \<Rightarrow> 'c tx_view \<Rightarrow> 'c tx_view" where
  "failed_view auto v = (if auto \<and> v_frames v \<noteq> [] then \<lparr>v_now = committed v, v_frames = []\<rparr> else v)"

lemma failed_view_quiet [simp]: "quiet_failure v (failed_view auto v)"
  by (auto simp: failed_view_def quiet_failure_def rolled_back_def)

lemma failed_view_no_frames [simp]: "v_frames v = [] \<Longrightarrow> failed_view auto v = v"
  by (simp add: failed_view_def)

lemma failed_view_frame [simp]: "frame_failure v (failed_view auto v)"
  by (rule quiet_frame_failure) simp

text \<open>
  A call of an engine that either fails with a failed view or has the meaning of the text
  satisfies the laws of the transaction texts; in the middle of an undo it may also stop.
\<close>

definition tx_outcome :: "string \<Rightarrow> int \<Rightarrow> 'c tx_view \<Rightarrow> 'c tx_view \<Rightarrow> bool" where
  "tx_outcome sql rc v v' \<longleftrightarrow> (rc \<noteq> SQLITE_OK \<and> (\<exists>auto. v' = failed_view auto v)) \<or>
     (\<exists>w. tx_exec sql v = Some (Some w) \<and> rc = SQLITE_OK \<and> v' = w)"

lemma tx_outcome_laws:
  "tx_outcome (begin_sql mode) rc v v' \<Longrightarrow>
     if rc = SQLITE_OK then v_frames v = [] \<and> v' = v\<lparr>v_frames := [(F_Begin, v_now v)]\<rparr>
     else quiet_failure v v'"
  "tx_outcome SQL_COMMIT rc v v' \<Longrightarrow>
     if rc = SQLITE_OK then v_frames v \<noteq> [] \<and> v' = v\<lparr>v_frames := []\<rparr> else quiet_failure v v'"
  "tx_outcome SQL_ROLLBACK rc v v' \<Longrightarrow>
     if rc = SQLITE_OK then rolled_back v v' else quiet_failure v v'"
  "tx_outcome (savepoint_sql name) rc v v' \<Longrightarrow> plain_name name \<Longrightarrow>
     if rc = SQLITE_OK then v' = v\<lparr>v_frames := (F_Savepoint name, v_now v) # v_frames v\<rparr>
     else quiet_failure v v'"
  "tx_outcome (release_sql name) rc v v' \<Longrightarrow> plain_name name \<Longrightarrow>
     v_frames v = (F_Savepoint name, c) # fs \<Longrightarrow>
     if rc = SQLITE_OK then v' = v\<lparr>v_frames := fs\<rparr> else quiet_failure v v'"
  "tx_outcome (release_sql name) rc v v' \<Longrightarrow> plain_name name \<Longrightarrow> no_savepoint v \<Longrightarrow>
     rc \<noteq> SQLITE_OK \<and> quiet_failure v v'"
  "tx_outcome (undo_sql name) rc v v' \<Longrightarrow> plain_name name \<Longrightarrow>
     v_frames v = (F_Savepoint name, c) # fs \<Longrightarrow>
     if rc = SQLITE_OK then v' = \<lparr>v_now = c, v_frames = fs\<rparr> else frame_failure v v'"
  "tx_outcome (undo_sql name) rc v v' \<Longrightarrow> plain_name name \<Longrightarrow> no_savepoint v \<Longrightarrow>
     rc \<noteq> SQLITE_OK \<and> quiet_failure v v'"
  by (auto simp: tx_outcome_def tx_meanings rolled_back_def from_savepoint_missing split: if_splits
      simp del: begin_sql.simps)

end
