(* ===== verification/Sqlite_Reference.thy ===== *)
theory Sqlite_Reference
  imports Object_Store_Rules Transactions_Reference
begin

text \<open>
  An executable engine that satisfies the contract of \<open>Sqlite_Contract\<close>, with a script of
  faults: each call takes the next entry, which makes it succeed or fail with a code, with or
  without an automatic rollback. The properties of the object store are applied to it.
\<close>

record ref_db =
  rd_view :: sql_view
  rd_script :: "(int \<times> bool) list"
  rd_readonly :: int

definition all_sql :: "store_sql list" where
  "all_sql = [Read_Revision, Count_Tables, Set_Revision, Insert_Store, Select_Store, Insert_Change,
     Schema_Version, Upsert_Record, Get_Record, Delete_Record, Exists_Record, Count_Records,
     Scan_All, Scan_After, Changes_All, Changes_Store, Prune_Changes]"

definition sql_of :: "string \<Rightarrow> store_sql option" where
  "sql_of sql = find (\<lambda>q. sql_text q = sql) all_sql"

definition next_fault :: "ref_db \<Rightarrow> (int \<times> bool) option \<times> ref_db" where
  "next_fault d =
     (case rd_script d of
        [] \<Rightarrow> (None, d)
      | (rc, auto) # rest \<Rightarrow>
          (if error_code rc then Some (rc, auto) else None,
           d\<lparr>rd_script := rest\<rparr>))"

definition exec_view :: "string \<Rightarrow> sql_view \<Rightarrow> sql_view option" where
  "exec_view sql v =
     (case tx_exec sql v of
        Some r \<Rightarrow> r
      | None \<Rightarrow>
         if sql = SQL_CREATE_SCHEMA \<and> v_now v = Absent then Some (v\<lparr>v_now := Present initial_tables\<rparr>)
         else None)"

definition ref_exec :: "string \<Rightarrow> ref_db \<Rightarrow> int \<times> string option \<times> ref_db" where
  "ref_exec sql d =
     (case next_fault d of
        (Some (rc, auto), d) \<Rightarrow> (rc, Some ''fault'', d\<lparr>rd_view := failed_view auto (rd_view d)\<rparr>)
      | (None, d) \<Rightarrow>
         (case exec_view sql (rd_view d) of
            None \<Rightarrow> (SQLITE_ERROR, Some ''error'', d)
          | Some v \<Rightarrow> (SQLITE_OK, None, d\<lparr>rd_view := v\<rparr>)))"

definition ref_prepare :: "string \<Rightarrow> ref_db \<Rightarrow> int \<times> ref_db" where
  "ref_prepare sql d =
     (case next_fault d of
        (Some (rc, auto), d) \<Rightarrow> (rc, d)
      | (None, d) \<Rightarrow>
         (case sql_of sql of
            None \<Rightarrow> (SQLITE_ERROR, d)
          | Some q \<Rightarrow>
             (case v_now (rd_view d) of
                Present t \<Rightarrow> (SQLITE_OK, d)
              | _ \<Rightarrow> (if q = Count_Tables then SQLITE_OK else SQLITE_ERROR, d))))"

definition ref_bind :: "string \<Rightarrow> nat \<Rightarrow> sql_value \<Rightarrow> ref_db \<Rightarrow> int \<times> ref_db" where
  "ref_bind sql i v d =
     (case next_fault d of (Some (rc, auto), d) \<Rightarrow> (rc, d) | (None, d) \<Rightarrow> (SQLITE_OK, d))"

definition row_code :: "sql_row list \<Rightarrow> int" where
  "row_code rows = (if rows = [] then SQLITE_DONE else SQLITE_ROW)"

definition ref_step ::
  "string \<Rightarrow> (nat \<Rightarrow> sql_value) \<Rightarrow> sql_row list option \<Rightarrow> ref_db \<Rightarrow> int \<times> sql_row list \<times> ref_db" where
  "ref_step sql p pending d =
     (case next_fault d of
        (Some (rc, auto), d) \<Rightarrow> (rc, [], d\<lparr>rd_view := failed_view auto (rd_view d)\<rparr>)
      | (None, d) \<Rightarrow>
         (case pending of
            Some [] \<Rightarrow> (SQLITE_MISUSE, [], d)
          | Some (row # rows) \<Rightarrow> (row_code rows, rows, d)
          | None \<Rightarrow>
             (case sql_of sql of
                None \<Rightarrow> (SQLITE_ERROR, [], d)
              | Some q \<Rightarrow>
                 (case database_answer q p (v_now (rd_view d)) of
                    (Rows rows t, mk) \<Rightarrow>
                      (row_code rows, rows, d\<lparr>rd_view := (rd_view d)\<lparr>v_now := mk t\<rparr>\<rparr>)
                  | (Refused, _) \<Rightarrow> (SQLITE_FULL, [], d)
                  | (No_Claim, _) \<Rightarrow> (SQLITE_ERROR, [], d)))))"

definition ref_sqlite :: "ref_db sqlite" where
  "ref_sqlite =
     \<lparr>sq_errstr = (\<lambda>_. ''error''),
      sq_diagnosis = (\<lambda>_. \<lparr>dg_extended_errcode = 0, dg_errmsg = ''error''\<rparr>),
      sq_autocommit = (\<lambda>d. v_frames (rd_view d) = []), sq_readonly = rd_readonly,
      sq_exec = ref_exec, sq_prepare = ref_prepare, sq_bind = ref_bind, sq_step = ref_step,
      sq_int_of = (\<lambda>_. 0), sq_text_of = (\<lambda>_. None)\<rparr>"

section \<open>The engine satisfies the contract\<close>

lemma all_sql_distinct: "distinct (map sql_text all_sql)"
  by code_simp

lemma all_sql_all: "q \<in> set all_sql"
  by (cases q) (simp_all add: all_sql_def)

lemma sql_of_text [simp]: "sql_of (sql_text q) = Some q"
proof -
  have "inj_on sql_text (set all_sql)"
    using all_sql_distinct by (simp add: distinct_map)
  then have "sql_text q' = sql_text q \<Longrightarrow> q' = q" for q'
    using all_sql_all by (metis inj_onD)
  then show ?thesis
    using all_sql_all [of q] unfolding sql_of_def
    by (cases "find (\<lambda>q'. sql_text q' = sql_text q) all_sql")
      (auto simp: find_None_iff find_Some_iff)
qed

lemma next_fault_frame: "next_fault d = (f, d') \<Longrightarrow> rd_view d' = rd_view d"
  by (auto simp: next_fault_def split: list.splits prod.splits if_splits)

lemma error_code_not_success: "error_code rc \<Longrightarrow> rc \<noteq> SQLITE_OK \<and> rc \<noteq> SQLITE_ROW \<and> rc \<noteq> SQLITE_DONE"
  by (auto simp: error_code_def map_sqlite_status_def Let_def)

lemma next_fault_error: "next_fault d = (Some (rc, auto), d') \<Longrightarrow> error_code rc"
  by (auto simp: next_fault_def split: list.splits prod.splits if_splits)

lemma next_fault_code: "next_fault d = (Some (rc, auto), d') \<Longrightarrow> rc \<noteq> SQLITE_OK \<and> rc \<noteq> SQLITE_ROW \<and> rc \<noteq> SQLITE_DONE"
  using next_fault_error error_code_not_success by blast

lemma engine_errors [simp]: "error_code SQLITE_ERROR" "error_code SQLITE_MISUSE" "error_code SQLITE_FULL"
  by (simp_all add: error_code_def map_sqlite_status_def)

lemma ref_fields [simp]:
  "sq_autocommit ref_sqlite d \<longleftrightarrow> v_frames (rd_view d) = []" "sq_readonly ref_sqlite = rd_readonly"
  "sq_exec ref_sqlite = ref_exec" "sq_prepare ref_sqlite = ref_prepare" "sq_bind ref_sqlite = ref_bind"
  "sq_step ref_sqlite = ref_step"
  by (simp_all add: ref_sqlite_def)

text \<open>A call either fails with a fault, or acts on the same view.\<close>

lemma ref_exec_cases:
  assumes "ref_exec sql d = (rc, m, d')"
  shows "(rc \<noteq> SQLITE_OK \<and> (\<exists>auto. rd_view d' = failed_view auto (rd_view d))) \<or>
    (case exec_view sql (rd_view d) of
       None \<Rightarrow> rc = SQLITE_ERROR \<and> rd_view d' = rd_view d
     | Some v \<Rightarrow> rc = SQLITE_OK \<and> rd_view d' = v)"
proof (cases "next_fault d")
  case (Pair f d1)
  then have view1: "rd_view d1 = rd_view d" by (rule next_fault_frame)
  show ?thesis
  proof (cases f)
    case None
    with assms Pair view1 show ?thesis
      by (auto simp: ref_exec_def split: option.splits)
  next
    case (Some fault)
    with assms Pair view1 show ?thesis
      by (cases fault) (auto simp: ref_exec_def dest: next_fault_code)
  qed
qed

lemma ref_step_cases:
  assumes "ref_step sql p pending d = (rc, rows, d')"
  shows "(rc \<noteq> SQLITE_ROW \<and> rc \<noteq> SQLITE_DONE \<and> (\<exists>auto. rd_view d' = failed_view auto (rd_view d))) \<or>
    (\<exists>row. pending = Some (row # rows) \<and> rc = row_code rows \<and> rd_view d' = rd_view d) \<or>
    (\<exists>q t mk. pending = None \<and> sql_of sql = Some q \<and>
       database_answer q p (v_now (rd_view d)) = (Rows rows t, mk) \<and> rc = row_code rows \<and>
       rd_view d' = (rd_view d)\<lparr>v_now := mk t\<rparr>)"
proof (cases "next_fault d")
  case (Pair f d1)
  then have view1: "rd_view d1 = rd_view d" by (rule next_fault_frame)
  show ?thesis
  proof (cases f)
    case (Some fault)
    with assms Pair view1 show ?thesis
      by (cases fault) (auto simp: ref_step_def dest: next_fault_code)
  next
    case None
    have "failed_view False (rd_view d) = rd_view d"
      by (simp add: failed_view_def)
    with assms Pair view1 None show ?thesis
      by (auto simp: ref_step_def split: option.splits list.splits prod.splits answer.splits) metis+
  qed
qed

text \<open>Only the creation of the schema is no transaction text: it starts with a C of its own.\<close>

lemma create_text: "SQL_CREATE_SCHEMA = CHR ''C'' # CHR ''R'' # drop 2 SQL_CREATE_SCHEMA"
  unfolding SQL_CREATE_SCHEMA_def by simp

lemma tx_create: "tx_exec SQL_CREATE_SCHEMA v = None"
proof (rule tx_other)
  show "SQL_CREATE_SCHEMA \<noteq> begin_sql b" for b
    by (subst create_text, cases b) simp_all
qed (subst create_text, simp add: SQL_COMMIT_def SQL_ROLLBACK_def savepoint_sql_def release_sql_def undo_sql_def)+

lemma create_view: "exec_view SQL_CREATE_SCHEMA v =
    (if v_now v = Absent then Some (v\<lparr>v_now := Present initial_tables\<rparr>) else None)"
  by (simp add: exec_view_def tx_create)

lemma ref_exec_tx:
  assumes "ref_exec sql d = (rc, m, d')" and "tx_exec sql (rd_view d) \<noteq> None"
  shows "tx_outcome sql rc (rd_view d) (rd_view d')"
proof -
  have "failed_view False (rd_view d) = rd_view d"
    by (simp add: failed_view_def)
  with ref_exec_cases [OF assms(1)] assms(2) show ?thesis
    unfolding tx_outcome_def exec_view_def by (auto split: option.splits) metis+
qed

lemma ref_prepare_view: "ref_prepare sql d = (rc, d') \<Longrightarrow> rd_view d' = rd_view d"
  by (cases "next_fault d")
    (auto simp: ref_prepare_def dest!: next_fault_frame split: option.splits prod.splits database.splits if_splits)

lemma ref_prepare_absent:
  assumes "ref_prepare (sql_text q) d = (rc, d')" and "v_now (rd_view d) = Absent" and "q \<noteq> Count_Tables"
  shows "rc \<noteq> SQLITE_OK"
proof (cases "next_fault d")
  case (Pair f d1)
  then have view1: "rd_view d1 = rd_view d" by (rule next_fault_frame)
  show ?thesis
  proof (cases f)
    case None
    with assms Pair view1 show ?thesis
      by (auto simp: ref_prepare_def)
  next
    case (Some fault)
    with assms Pair show ?thesis
      by (cases fault) (auto simp: ref_prepare_def dest: next_fault_code)
  qed
qed

lemma ref_bind_view: "ref_bind sql i v d = (rc, d') \<Longrightarrow> rd_view d' = rd_view d"
  by (cases "next_fault d") (auto simp: ref_bind_def dest!: next_fault_frame split: option.splits prod.splits)

lemma row_code_success [simp]: "row_code rows = SQLITE_ROW \<or> row_code rows = SQLITE_DONE"
  "row_code rows = SQLITE_DONE \<longleftrightarrow> rows = []" "row_code rows = SQLITE_ROW \<longleftrightarrow> rows \<noteq> []"
  "row_code [] = SQLITE_DONE"
  by (simp_all add: row_code_def)

lemma read_answer:
  "reads_only q \<Longrightarrow> answer_of q p t = Rows rows t' \<Longrightarrow> t' = t"
  by (cases q) (auto split: sql_value.splits if_splits)

lemma read_database_answer:
  "reads_only q \<Longrightarrow> database_answer q p db = (Rows rows t, mk) \<Longrightarrow> mk t = db"
  using read_answer [of q p]
  by (auto simp: database_answer_def split: database.splits if_splits simp del: answer_of.simps reads_only.simps)

lemma ref_prepare_code: "ref_prepare sql d = (rc, d') \<Longrightarrow> rc = SQLITE_OK \<or> error_code rc"
  by (cases "next_fault d")
    (auto simp: ref_prepare_def dest: next_fault_error split: option.splits prod.splits database.splits if_splits)

lemma ref_bind_code: "ref_bind sql i v d = (rc, d') \<Longrightarrow> rc = SQLITE_OK \<or> error_code rc"
  by (cases "next_fault d") (auto simp: ref_bind_def dest: next_fault_error split: option.splits prod.splits)

lemma ref_step_code:
  "ref_step sql p pending d = (rc, rows, d') \<Longrightarrow> rc = SQLITE_ROW \<or> rc = SQLITE_DONE \<or> error_code rc"
  by (cases "next_fault d") (auto simp: ref_step_def row_code_def dest: next_fault_error
      split: option.splits prod.splits list.splits answer.splits if_splits)

lemma ref_exec_code: "ref_exec sql d = (rc, m, d') \<Longrightarrow> rc = SQLITE_OK \<or> error_code rc"
  by (cases "next_fault d") (auto simp: ref_exec_def dest: next_fault_error split: option.splits prod.splits)

lemmas ref_tx_laws =
  tx_outcome_laws(1) [OF ref_exec_tx [OF _ tx_known(1)]] tx_outcome_laws(2) [OF ref_exec_tx [OF _ tx_known(2)]]
  tx_outcome_laws(3) [OF ref_exec_tx [OF _ tx_known(3)]] tx_outcome_laws(4) [OF ref_exec_tx [OF _ tx_known(4)]]
  tx_outcome_laws(5) [OF ref_exec_tx [OF _ tx_known(5)]] tx_outcome_laws(6) [OF ref_exec_tx [OF _ tx_known(5)]]
  tx_outcome_laws(7) [OF ref_exec_tx [OF _ tx_known(6)]] tx_outcome_laws(8) [OF ref_exec_tx [OF _ tx_known(6)]]

text \<open>The laws of transactions, then those of the statements.\<close>

interpretation ref_tx: sql_transactions ref_sqlite rd_view
proof (unfold_locales, unfold ref_fields)
  fix sql rc and d d' :: ref_db
  assume "ref_prepare sql d = (rc, d')"
  then show "rc = SQLITE_OK \<or> error_code rc" by (rule ref_prepare_code)
next
  fix sql i v rc and d d' :: ref_db
  assume "ref_bind sql i v d = (rc, d')"
  then show "rc = SQLITE_OK \<or> error_code rc" by (rule ref_bind_code)
next
  fix sql p pending rc rows and d d' :: ref_db
  assume "ref_step sql p pending d = (rc, rows, d')"
  then show "rc = SQLITE_ROW \<or> rc = SQLITE_DONE \<or> error_code rc" by (rule ref_step_code)
next
  fix sql rc m and d d' :: ref_db
  assume "ref_exec sql d = (rc, m, d')"
  then show "rc = SQLITE_OK \<or> error_code rc" by (rule ref_exec_code)
next
  fix sql rc and d d' :: ref_db
  assume "ref_prepare sql d = (rc, d')"
  then show "rd_view d' = rd_view d" by (rule ref_prepare_view)
next
  fix sql i v rc and d d' :: ref_db
  assume "ref_bind sql i v d = (rc, d')"
  then show "rd_view d' = rd_view d" by (rule ref_bind_view)
qed (rule refl | (rule ref_tx_laws; assumption))+

interpretation ref: sqlite_engine ref_sqlite rd_view
proof (unfold_locales, unfold ref_fields)
  fix q rc and d d' :: ref_db
  assume "ref_prepare (sql_text q) d = (rc, d')" "v_now (rd_view d) = Absent" "q \<noteq> Count_Tables"
  then show "rc \<noteq> SQLITE_OK" by (rule ref_prepare_absent)
next
  fix q p rc rows rs t mk and d d' :: ref_db
  assume s: "ref_step (sql_text q) p None d = (rc, rows, d')" and ok: "rc = SQLITE_ROW \<or> rc = SQLITE_DONE"
    and a: "database_answer q p (v_now (rd_view d)) = (Rows rs t, mk)"
  from ref_step_cases [OF s] ok a
  show "(if q = Prune_Changes then mset rows = mset rs else rows = rs) \<and>
      rc = (if rows = [] then SQLITE_DONE else SQLITE_ROW) \<and> rd_view d' = (rd_view d)\<lparr>v_now := mk t\<rparr>"
    by (auto simp: row_code_def)
next
  fix q p rc rows and d d' :: ref_db
  assume s: "ref_step (sql_text q) p None d = (rc, rows, d')" and ok: "rc = SQLITE_ROW \<or> rc = SQLITE_DONE"
  from ref_step_cases [OF s] ok show "fst (database_answer q p (v_now (rd_view d))) \<noteq> Refused"
    by auto
next
  fix q p rc rows and d d' :: ref_db
  assume s: "ref_step (sql_text q) p None d = (rc, rows, d')"
    and bad: "rc \<noteq> SQLITE_ROW" "rc \<noteq> SQLITE_DONE"
  from ref_step_cases [OF s] bad show "quiet_failure (rd_view d) (rd_view d')"
    by auto
next
  fix q p pending rc rows and d d' :: ref_db
  assume s: "ref_step (sql_text q) p pending d = (rc, rows, d')"
  from ref_step_cases [OF s] show "if rc = SQLITE_ROW \<or> rc = SQLITE_DONE
      then v_frames (rd_view d') = v_frames (rd_view d) else frame_failure (rd_view d) (rd_view d')"
    by auto
next
  fix q p r rs rc rows and d d' :: ref_db
  assume s: "ref_step (sql_text q) p (Some (r # rs)) d = (rc, rows, d')"
    and ok: "rc = SQLITE_ROW \<or> rc = SQLITE_DONE"
  from ref_step_cases [OF s] ok
  show "rows = rs \<and> rc = (if rs = [] then SQLITE_DONE else SQLITE_ROW) \<and> rd_view d' = rd_view d"
    by (auto simp: row_code_def)
next
  fix q p pending rc rows and d d' :: ref_db
  assume s: "ref_step (sql_text q) p pending d = (rc, rows, d')" and ro: "reads_only q"
  from ref_step_cases [OF s] show "if rc = SQLITE_ROW \<or> rc = SQLITE_DONE then rd_view d' = rd_view d
      else quiet_failure (rd_view d) (rd_view d')"
    using read_database_answer [OF ro] by (auto simp: now_update same_view simp del: reads_only.simps)
next
  fix rc m and d d' :: ref_db
  assume s: "ref_exec SQL_CREATE_SCHEMA d = (rc, m, d')"
  from ref_exec_cases [OF s] show "if rc = SQLITE_OK then v_frames (rd_view d') = v_frames (rd_view d)
      else frame_failure (rd_view d) (rd_view d')"
    by (auto simp: create_view split: if_splits)
next
  fix m and d d' :: ref_db
  assume s: "ref_exec SQL_CREATE_SCHEMA d = (SQLITE_OK, m, d')" and "v_now (rd_view d) = Absent"
  with ref_exec_cases [OF s] show "rd_view d' = (rd_view d)\<lparr>v_now := Present initial_tables\<rparr>"
    by (auto simp: create_view)
qed

end
