(* ===== verification/Object_Store_Spec.thy ===== *)
theory Object_Store_Spec
  imports Object_Store_Queries Sqlite_Reference
begin

text \<open>
  The properties of the persistent object store, over every engine and view that satisfy the
  contract of \<open>Sqlite_Contract\<close>, with witnesses on the executable engine of
  \<open>Sqlite_Reference\<close>. The abstract store is a map from store name and key to a value and the
  revision that wrote it, with the revision of the whole database.
\<close>

abbreviation view_of :: "('d \<Rightarrow> sql_view) \<Rightarrow> 'd connection \<Rightarrow> sql_view" where
  "view_of view cn \<equiv> view (cn_db cn)"

text \<open>
  The tables an operation on a connection runs on: present, or about to be created. A store can
  be registered as long as the row ids of the stores table are not exhausted.
\<close>

definition opens :: "('d \<Rightarrow> sql_view) \<Rightarrow> 'd connection \<Rightarrow> store_tables \<Rightarrow> bool" where
  "opens view cn t \<longleftrightarrow> runs_on (view (cn_db cn)) (cn_schema_ready cn) t \<and> store_wf t \<and>
     next_row_id (tb_stores t) \<le> sql_max"

lemma opens_usable: "sqlite_engine E view \<Longrightarrow> opens view cn t \<Longrightarrow> sqlite_engine.usable view cn t"
  by (simp add: opens_def sqlite_engine.usable_runs_on sqlite_engine.V_def)

lemma opens_wf: "opens view cn t \<Longrightarrow> store_wf t"
  by (simp add: opens_def)

lemma wf_next_revision:
  "store_wf t \<Longrightarrow> 0 \<le> next_revision (with_store name at t) \<and> 0 \<le> next_revision t"
  using next_revision_wf by (simp add: store_wf_def)

lemma wf_types_small: "store_wf t \<Longrightarrow> types_small t"
  by (auto simp: store_wf_def records_wf_def types_small_def)

lemma uint_of_revision: "0 \<le> n \<Longrightarrow> n \<le> sql_max \<Longrightarrow> uint (of_int n :: u64) = n"
  by (simp add: uint_word_of_int sql_max_def)

lemma put_outcome:
  assumes "sqlite_engine E view" and "opens view cn t"
    and "esdb_object_store_put E now name key v (Some cn) = (r, Some cn')"
  shows "case r of
      Done revision \<Rightarrow> put_done now name key v t revision (view_of view cn) (view_of view cn') \<and> cn_schema_ready cn'
    | Failed s e \<Rightarrow> failed_mutation t (view_of view cn) (view_of view cn')"
  using sqlite_engine.put_run [OF assms(1,3) opens_usable [OF assms(1,2)]] assms(2) wf_next_revision
  by (auto simp: opens_def sqlite_engine.V_def [OF assms(1)] split: outcome.splits)

lemma delete_outcome:
  assumes "sqlite_engine E view" and "opens view cn t"
    and "esdb_object_store_delete E now name key (Some cn) = (r, Some cn')"
  shows "case r of
      Done (deleted, revision) \<Rightarrow>
        delete_done now name key t deleted revision (view_of view cn) (view_of view cn') \<and> cn_schema_ready cn'
    | Failed s e \<Rightarrow> failed_mutation t (view_of view cn) (view_of view cn')"
  using sqlite_engine.delete_run [OF assms(1,3) opens_usable [OF assms(1,2)]] assms(2) wf_next_revision
  by (auto simp: opens_def sqlite_engine.V_def [OF assms(1)] split: outcome.splits)

section \<open>A sample database\<close>

definition blank_metrics :: db_metrics where
  "blank_metrics = \<lparr>dm_operation_count = 0, dm_error_count = 0, dm_busy_count = 0, dm_commit_count = 0,
     dm_rollback_count = 0, dm_last_error = clear_error\<rparr>"

definition fresh_connection :: "(int \<times> bool) list \<Rightarrow> ref_db connection" where
  "fresh_connection script =
     \<lparr>cn_db = \<lparr>rd_view = \<lparr>v_now = Absent, v_frames = []\<rparr>, rd_script = script, rd_readonly = 0\<rparr>,
      cn_transaction_active = False, cn_active_transaction = None, cn_savepoints = [], cn_schema_ready = False,
      cn_metrics = blank_metrics\<rparr>"

lemma initial_wf: "store_wf initial_tables"
  by (simp add: store_wf_def initial_tables_def stores_wf_def records_wf_def changes_wf_def meta_wf_def
      journal_agrees_def newest_change_def key_revision_def key_version_def ascii_def sql_max_def
      decimal.simps [of 0] less_cpp_string_def)

lemma fresh_opens: "opens rd_view (fresh_connection script) initial_tables"
  by (simp add: opens_def runs_on_def fresh_connection_def initial_wf)
    (simp add: initial_tables_def next_row_id_def sql_max_def)

text \<open>One record put into a fresh database.\<close>

abbreviation sample_store :: "byte list option" where "sample_store \<equiv> Some [115]"
abbreviation sample_name :: "byte list option" where "sample_name \<equiv> Some [107]"

definition one_record :: "ref_db connection" where
  "one_record = the (snd (esdb_object_store_put ref_sqlite (\<lambda>_. 5) sample_store sample_name
     (Some sample_value) (Some (fresh_connection []))))"

lemma one_record_status:
  "fst (esdb_object_store_put ref_sqlite (\<lambda>_. 5) sample_store sample_name (Some sample_value)
     (Some (fresh_connection []))) = Done 1"
  by code_simp

lemma public_call_some: "\<exists>r cn'. public_call n m (Some cn) = (r, Some cn')"
  by (cases "m (metrics_only count_operation cn)") (simp add: public_call_def on_database_def)

lemma call_result:
  assumes "fst (public_call n m (Some cn)) = r"
  shows "public_call n m (Some cn) = (r, Some (the (snd (public_call n m (Some cn)))))"
  using assms public_call_some [of n m cn] by auto

lemma one_record_run:
  "esdb_object_store_put ref_sqlite (\<lambda>_. 5) sample_store sample_name (Some sample_value)
     (Some (fresh_connection [])) = (Done 1, Some one_record)"
  using one_record_status unfolding one_record_def esdb_object_store_put_def by (rule call_result)

definition one_record_tables :: store_tables where
  "one_record_tables = put_tables (\<lambda>_. 5) [115] [107] sample_value initial_tables"

lemma one_record_wf: "store_wf one_record_tables"
  and one_record_sequence: "tb_sequence one_record_tables = 1"
proof -
  have n: "next_revision initial_tables \<le> sql_max"
    using next_revision_wf [OF initial_wf] by (simp add: initial_tables_def sql_max_def)
  show "store_wf one_record_tables"
    unfolding one_record_tables_def by (rule store_wf_put_tables [OF initial_wf sample_type n])
  show "tb_sequence one_record_tables = 1"
    using store_wf_put_tables(2) [OF initial_wf sample_type n] by (simp add: one_record_tables_def initial_tables_def)
qed

lemma one_record_contents: "store_contents one_record_tables ([115], [107]) = Some (sample_value, 1)"
  unfolding one_record_tables_def by (subst contents_put_tables [OF initial_wf]) (simp add: initial_tables_def)

lemma one_record_view:
  "view_of rd_view one_record = \<lparr>v_now = Present one_record_tables, v_frames = []\<rparr>"
  "cn_schema_ready one_record"
  using put_outcome [OF ref.sqlite_engine_axioms fresh_opens one_record_run]
  by (simp_all add: put_done_def one_record_tables_def schema_ready_view_def fresh_connection_def)

lemma one_record_opens: "opens rd_view one_record one_record_tables"
proof -
  have "tb_stores one_record_tables = [(1, [115], 5)]"
    by (simp add: one_record_tables_def put_tables_rows put_rows_def with_store_def initial_tables_def
        store_id_of_def next_row_id_def)
  then show ?thesis
    by (simp add: opens_def runs_on_def one_record_view one_record_wf next_row_id_def sql_max_def)
qed

section \<open>Mutations\<close>

text \<open>
  C1: failed puts and deletes are atomic. Whatever fails (an argument, the schema, a statement
  of the mutation, its COMMIT or RELEASE, the rollback itself), every other connection still
  sees the database as it was, or with the empty schema created; and unless the engine rolled
  the whole transaction back or refused the rollback, so does this connection.
\<close>

theorem failed_mutations_are_atomic:
  assumes "sqlite_engine E view" and "opens view cn t"
    and "esdb_object_store_put E now name key v (Some cn) = (Failed s e, Some cn') \<or>
      esdb_object_store_delete E at name key (Some cn) = (Failed s e, Some cn')"
  shows "failed_mutation t (view_of view cn) (view_of view cn') \<and>
    (committed (view_of view cn') = committed (view_of view cn) \<or>
     v_frames (view_of view cn) = [] \<and> v_now (view_of view cn) = Absent \<and>
     committed (view_of view cn') = Present initial_tables)"
proof -
  from assms(3) have "failed_mutation t (view_of view cn) (view_of view cn')"
    using put_outcome [OF assms(1,2), of now name key v "Failed s e" cn']
      delete_outcome [OF assms(1,2), of at name key "Failed s e" cn'] by auto
  moreover have "runs_on (view_of view cn) (cn_schema_ready cn) t"
    using assms(2) by (simp add: opens_def)
  ultimately show ?thesis
    using failed_mutation_committed by blast
qed

text \<open>The 35th engine call of a put into a fresh database is the step of the record's upsert.\<close>

definition upsert_fault :: "(int \<times> bool) list" where
  "upsert_fault = replicate 34 (SQLITE_OK, False) @ [(SQLITE_IOERR, False)]"

lemma upsert_fault_status:
  "status_of (fst (esdb_object_store_put ref_sqlite (\<lambda>_. 5) sample_store sample_name (Some sample_value)
     (Some (fresh_connection upsert_fault)))) = ESDB_ERR_IO"
  by code_simp

theorem failed_mutations_are_atomic_witness:
  "\<exists>cn'. snd (esdb_object_store_put ref_sqlite (\<lambda>_. 5) sample_store sample_name (Some sample_value)
      (Some (fresh_connection upsert_fault))) = Some cn' \<and>
    committed (view_of rd_view cn') \<in> {Absent, Present initial_tables}"
proof -
  let ?run = "esdb_object_store_put ref_sqlite (\<lambda>_. 5) sample_store sample_name (Some sample_value)
      (Some (fresh_connection upsert_fault))"
  obtain r cn' where run: "?run = (r, Some cn')"
    unfolding esdb_object_store_put_def using public_call_some by blast
  with upsert_fault_status obtain s e where "r = Failed s e"
    by (cases r) auto
  with failed_mutations_are_atomic [OF ref.sqlite_engine_axioms fresh_opens] run show ?thesis
    by (fastforce simp: fresh_connection_def committed_def)
qed

text \<open>
  C2: a put that succeeds is one step of the abstract store: the key maps to the value at the
  next revision, which it answers, every other key is as it was, the tables are well-formed and
  the open transactions are the same. It only succeeds for a valid name, key and value type.
\<close>

theorem put_refines_map:
  assumes "sqlite_engine E view" and "opens view cn t"
    and "esdb_object_store_put E now name key v (Some cn) = (Done revision, Some cn')"
  shows "valid_object_store_name name \<and> valid_object_store_key key \<and>
    (\<exists>x t'. v = Some x \<and> valid_value_type (ev_type x) \<and>
      view_of view cn' = schema_ready_view t' (view_of view cn) \<and> store_wf t' \<and>
      store_contents t' = (store_contents t)
        ((c_bytes (the name), c_bytes (the key)) \<mapsto> (x, tb_sequence t + 1)) \<and>
      uint revision = tb_sequence t + 1 \<and> tb_sequence t' = tb_sequence t + 1 \<and> tb_sequence t' \<le> sql_max)"
proof -
  have wf: "store_wf t" using assms(2) by (rule opens_wf)
  from put_outcome [OF assms] obtain x where v: "v = Some x" and
    did: "put_done now name key v t revision (view_of view cn) (view_of view cn')"
    by (auto simp: put_done_def)
  then have type: "valid_value_type (ev_type x)" and n: "next_revision t \<le> sql_max"
    by (simp_all add: put_done_def)
  note t' = store_wf_put_tables [OF wf type n, of now "c_bytes (the name)" "c_bytes (the key)"]
  have "uint revision = tb_sequence t + 1"
    using did uint_of_revision [OF _ n] wf_next_revision [OF wf] next_revision_wf [OF wf]
    by (simp add: put_done_def)
  with did v type t' contents_put_tables [OF wf, of now "c_bytes (the name)" "c_bytes (the key)" x]
    next_revision_wf [OF wf] n show ?thesis
    unfolding put_done_def by auto
qed

theorem put_refines_map_witness:
  "store_contents one_record_tables = (store_contents initial_tables)(([115], [107]) \<mapsto> (sample_value, 1)) \<and>
   uint (1 :: u64) = tb_sequence initial_tables + 1"
proof -
  from put_refines_map [OF ref.sqlite_engine_axioms fresh_opens one_record_run] obtain t' where
    "view_of rd_view one_record = schema_ready_view t' (view_of rd_view (fresh_connection []))"
    "store_contents t' = (store_contents initial_tables)(([115], [107]) \<mapsto> (sample_value, tb_sequence initial_tables + 1))"
    "uint (1 :: u64) = tb_sequence initial_tables + 1"
    by auto
  then show ?thesis
    by (simp add: one_record_view schema_ready_view_def)
qed

text \<open>
  C11: a delete that succeeds reports whether the key was there. If it was, the key is gone,
  the revision answered is the next one and nothing else has changed; if not, the revision
  answered is 0 and the store is as it was.
\<close>

theorem delete_refines_map:
  assumes "sqlite_engine E view" and "opens view cn t"
    and "esdb_object_store_delete E now name key (Some cn) = (Done (deleted, revision), Some cn')"
  shows "let k = (c_bytes (the name), c_bytes (the key)) in
    (deleted \<longleftrightarrow> store_contents t k \<noteq> None) \<and>
    (if deleted
     then (\<exists>t'. view_of view cn' = schema_ready_view t' (view_of view cn) \<and> store_wf t' \<and>
        store_contents t' = (store_contents t)(k := None) \<and>
        tb_sequence t' = tb_sequence t + 1 \<and> uint revision = tb_sequence t + 1)
     else view_of view cn' = schema_ready_view t (view_of view cn) \<and> revision = 0)"
proof -
  have wf: "store_wf t" using assms(2) by (rule opens_wf)
  let ?n = "c_bytes (the name)" and ?k = "c_bytes (the key)"
  from delete_outcome [OF assms]
  have did: "delete_done now name key t deleted revision (view_of view cn) (view_of view cn')"
    by simp
  show ?thesis
  proof (cases deleted)
    case False
    with did show ?thesis
      by (simp add: delete_done_def store_contents_def)
  next
    case True
    with did have found: "find_record ?n ?k t \<noteq> None" and n: "next_revision t \<le> sql_max"
      by (simp_all add: delete_done_def)
    then have s: "store_id_of ?n t \<noteq> None"
      by (auto simp: find_record_def split: option.splits)
    note t' = store_wf_delete_tables [OF wf s n, of now ?k]
    have "uint revision = tb_sequence t + 1"
      using did True uint_of_revision [OF _ n] wf_next_revision [OF wf] next_revision_wf [OF wf]
      by (simp add: delete_done_def)
    with did True t' contents_delete_tables [OF wf s, of now ?k] found show ?thesis
      unfolding delete_done_def Let_def by (auto simp: store_contents_def)
  qed
qed

lemma delete_status:
  "fst (esdb_object_store_delete ref_sqlite 6 sample_store sample_name (Some one_record)) = Done (True, 2)"
  by code_simp

definition deleted_record :: "ref_db connection" where
  "deleted_record = the (snd (esdb_object_store_delete ref_sqlite 6 sample_store sample_name (Some one_record)))"

lemma delete_sample_run:
  "esdb_object_store_delete ref_sqlite 6 sample_store sample_name (Some one_record) = (Done (True, 2), Some deleted_record)"
  using delete_status unfolding deleted_record_def esdb_object_store_delete_def by (rule call_result)

theorem delete_refines_map_witness:
  "\<exists>t'. v_now (view_of rd_view deleted_record) = Present t' \<and> store_contents t' ([115], [107]) = None \<and>
    tb_sequence t' = 2"
  using delete_refines_map [OF ref.sqlite_engine_axioms one_record_opens delete_sample_run]
  by (auto simp: one_record_sequence Let_def schema_ready_view_def)

section \<open>Reading\<close>




text \<open>
  C27: a change query shows the host the changes journalled after its cursor, of one store or
  of all, in revision order without gaps up to where it stops, and answers the revision of the
  last one shown as the next cursor; it changes nothing.
\<close>

theorem object_changes_are_the_journal:
  assumes "sqlite_engine E view" and "opens view cn t"
    and "esdb_object_store_changes_since E throws name a limit (Some (logged callback)) (user, []) (Some cn)
      = ((Done (revision, n), Some cn'), (user', seen))"
  shows "seen = take (unat n) (object_changes name (uint a) t) \<and> length seen = unat n \<and>
    unat n \<le> change_limit limit \<and> revision = (if seen = [] then a else oc_revision (last seen)) \<and>
    view_of view cn' = schema_ready_view t (view_of view cn)"
proof -
  let ?cn = "metrics_only count_operation cn"
  have run: "object_store_changes_since_impl E throws name a limit (Some (logged callback)) (user, []) ?cn
      = ((Done (revision, n), cn'), (user', seen))"
    using assms(3) by (auto simp: esdb_object_store_changes_since_def split: prod.splits)
  have wf: "changes_wf t" using opens_wf [OF assms(2)] by (simp add: store_wf_def)
  have "opens view ?cn t"
    using assms(2) by (simp add: opens_def metrics_only_def)
  from sqlite_engine.changes_run [OF assms(1) run opens_usable [OF assms(1) this] wf] show ?thesis
    by (simp add: sqlite_engine.V_def [OF assms(1)] metrics_only_def)
qed

lemma changes_status:
  "fst (fst (esdb_object_store_changes_since ref_sqlite (\<lambda>_. None) None 0 0 (Some (logged go_on)) ((), [])
     (Some one_record))) = Done (1, 1)"
  by code_simp

theorem object_changes_are_the_journal_witness:
  "snd (snd (esdb_object_store_changes_since ref_sqlite (\<lambda>_. None) None 0 0 (Some (logged go_on)) ((), [])
     (Some one_record))) = take 1 (object_changes None 0 one_record_tables)"
proof -
  let ?run = "esdb_object_store_changes_since ref_sqlite (\<lambda>_. None) None 0 0 (Some (logged go_on)) ((), [])
     (Some one_record)"
  obtain r cn' user' seen where run: "?run = ((r, Some cn'), (user', seen))"
    unfolding esdb_object_store_changes_since_def
    by (cases "object_store_changes_since_impl ref_sqlite (\<lambda>_. None) None 0 0 (Some (logged go_on)) ((), [])
        (metrics_only count_operation one_record)") (force split: prod.splits)
  with changes_status have "r = Done (1, 1)" by simp
  with object_changes_are_the_journal [OF ref.sqlite_engine_axioms one_record_opens] run show ?thesis
    by fastforce
qed

lemma ordered_second:
  "sorted_wrt (<) (map fst xs) \<Longrightarrow> \<forall>p \<in> set xs. fst (fst p) = (s :: 'a :: linorder) \<Longrightarrow>
     sorted_wrt (<) (map (\<lambda>p. snd (fst p) :: 'b :: linorder) xs)"
  by (induction xs) (auto simp: less_prod_def' dest: bspec)

lemma object_records_ordered:
  assumes "store_wf t"
  shows "sorted_wrt (<) (map or_key (object_records name after_key t))"
proof (cases "store_id_of name t")
  case None
  then have "object_records name after_key t = []"
    by (auto simp: object_records_def filter_empty_conv)
  then show ?thesis by simp
next
  case (Some i)
  let ?P = "\<lambda>p :: (int \<times> cpp_string) \<times> record_row. store_id_of name t = Some (fst (fst p)) \<and>
      (after_key = None \<or> Str (c_bytes (the after_key)) < snd (fst p))"
  have "sorted_wrt (<) (map fst (filter ?P (tb_records t)))"
    using assms sorted_wrt_filter [of "\<lambda>p q. fst p < fst q" "tb_records t" ?P]
    by (simp add: store_wf_def records_wf_def sorted_wrt_map)
  then have "sorted_wrt (<) (map (\<lambda>p. snd (fst p)) (filter ?P (tb_records t)))"
    by (rule ordered_second [where s = i]) (simp add: Some)
  moreover have "?P = (\<lambda>((s, k), r). store_id_of name t = Some s \<and>
      (after_key = None \<or> Str (c_bytes (the after_key)) < k))"
    by (auto simp: fun_eq_iff)
  ultimately show ?thesis
    by (simp add: object_records_def split_beta comp_def)
qed

text \<open>
  A scan shows the host the records of a store in key order, the ones after a key or from
  the start, with their values and revisions, as many as the limit and the host allow; it
  changes nothing.
\<close>

theorem object_scan_is_ordered:
  assumes "sqlite_engine E view" and "opens view cn t"
    and "esdb_object_store_scan E throws alloc name after_key limit (Some (logged callback)) (user, []) (Some cn)
      = ((Done n, Some cn'), (user', seen))"
  shows "seen = take (unat n) (object_records (c_bytes (the name)) after_key t) \<and> length seen = unat n \<and>
    unat n \<le> change_limit limit \<and> sorted_wrt (<) (map or_key seen) \<and>
    view_of view cn' = schema_ready_view t (view_of view cn)"
proof -
  note run = sqlite_engine.scan_run [OF assms(1,3) opens_usable [OF assms(1,2)] wf_types_small [OF opens_wf [OF assms(2)]]]
  have "sorted_wrt (<) (map or_key seen)"
    using object_records_ordered [OF opens_wf [OF assms(2)], of "c_bytes (the name)" after_key] run(1)
    by (simp add: take_map [symmetric] sorted_wrt_take)
  with run show ?thesis
    by (simp add: sqlite_engine.V_def [OF assms(1)])
qed

lemma scan_status:
  "(case fst (esdb_object_store_scan ref_sqlite (\<lambda>_. None) plenty sample_store None 0 (Some (logged go_on)) ((), [])
     (Some one_record)) of (r, db) \<Rightarrow> r = Done 1 \<and> \<not> Option.is_none db)"
  by code_simp

theorem object_scan_is_ordered_witness:
  "snd (snd (esdb_object_store_scan ref_sqlite (\<lambda>_. None) plenty sample_store None 0 (Some (logged go_on)) ((), [])
     (Some one_record))) = take 1 (object_records [115] None one_record_tables)"
proof -
  let ?run = "esdb_object_store_scan ref_sqlite (\<lambda>_. None) plenty sample_store None 0 (Some (logged go_on)) ((), [])
     (Some one_record)"
  obtain r db user' seen where run: "?run = ((r, db), (user', seen))"
    by (metis surj_pair)
  with scan_status obtain cn' where r: "r = Done 1" and "db = Some cn'"
    by (auto simp: Option.is_none_def)
  with object_scan_is_ordered [OF ref.sqlite_engine_axioms one_record_opens] run r show ?thesis
    by fastforce
qed

text \<open>
  The revision answered is the number the journal has counted to, which pruning never
  lowers: it reads the sequence and cross-checks the stored text, and changes nothing.
\<close>

theorem object_revision_is_sequence:
  assumes "sqlite_engine E view" and "opens view cn t"
    and "esdb_object_store_revision E out_given (Some cn) = (r, Some cn')"
  shows "case r of
      Done revision \<Rightarrow> uint revision = tb_sequence t \<and> view_of view cn' = schema_ready_view t (view_of view cn)
    | Failed s e \<Rightarrow> failed_mutation t (view_of view cn) (view_of view cn')"
  using sqlite_engine.revision_run [OF assms(1,3) opens_usable [OF assms(1,2)]] opens_wf [OF assms(2)]
  by (auto simp: store_wf_def sqlite_engine.V_def [OF assms(1)] split: outcome.splits)

lemma revision_status: "fst (esdb_object_store_revision ref_sqlite True (Some one_record)) = Done 1"
  by code_simp

theorem object_revision_is_sequence_witness:
  "fst (esdb_object_store_revision ref_sqlite True (Some one_record)) = Done 1 \<and> tb_sequence one_record_tables = 1"
proof -
  obtain r cn' where run: "esdb_object_store_revision ref_sqlite True (Some one_record) = (r, Some cn')"
    unfolding esdb_object_store_revision_def using public_call_some by blast
  from object_revision_is_sequence [OF ref.sqlite_engine_axioms one_record_opens this] revision_status run
  show ?thesis by simp
qed

text \<open>
  Pruning drops exactly the changes up to the given revision and answers how many they
  were, with enough steps for them; the records, their revisions and the store's revision stay,
  and the tables stay well-formed.
\<close>

theorem prune_only_forgets_history:
  assumes "sqlite_engine E view" and "opens view cn t"
    and "esdb_object_store_prune_changes (Suc fuel) E through (Some cn) = (Done x, Some cn')"
  shows "let t' = pruned (uint through) t; n = length (filter (\<lambda>c. fst c \<le> uint through) (tb_changes t)) in
    x = (if n \<le> fuel then Some (of_nat n) else None) \<and>
    view_of view cn' = schema_ready_view t' (view_of view cn) \<and> store_wf t' \<and>
    store_contents t' = store_contents t \<and> tb_sequence t' = tb_sequence t \<and>
    (\<forall>a. uint through \<le> a \<longrightarrow> object_changes None a t' = object_changes None a t)"
proof -
  note run = sqlite_engine.prune_run [OF assms(1,3) opens_usable [OF assms(1,2)]]
  have "object_changes None a (pruned (uint through) t) = object_changes None a t" if "uint through \<le> a" for a
  proof -
    have "filter (\<lambda>c. a < fst c) (filter (\<lambda>c. \<not> fst c \<le> uint through) (tb_changes t)) = filter (\<lambda>c. a < fst c) (tb_changes t)"
      using that by (auto intro!: filter_cong simp: filter_filter)
    moreover have "journal_change (pruned (uint through) t) = journal_change t"
      by (rule ext) (simp add: journal_change_def store_name_of_def)
    ultimately show ?thesis
      by (simp add: object_changes_def pruned_def)
  qed
  with run store_wf_pruned [OF opens_wf [OF assms(2)], of "uint through"] show ?thesis
    by (simp add: sqlite_engine.V_def [OF assms(1)] Let_def)
qed

lemma prune_status: "fst (esdb_object_store_prune_changes (Suc 1) ref_sqlite 1 (Some one_record)) = Done (Some 1)"
  by code_simp

theorem prune_only_forgets_history_witness:
  "\<exists>cn'. esdb_object_store_prune_changes (Suc 1) ref_sqlite 1 (Some one_record) = (Done (Some 1), Some cn') \<and>
    v_now (view_of rd_view cn') = Present (pruned 1 one_record_tables)"
proof -
  obtain r cn' where run: "esdb_object_store_prune_changes (Suc 1) ref_sqlite 1 (Some one_record) = (r, Some cn')"
    unfolding esdb_object_store_prune_changes_def using public_call_some by blast
  moreover from this prune_status have "r = Done (Some 1)" by simp
  ultimately show ?thesis
    using prune_only_forgets_history [OF ref.sqlite_engine_axioms one_record_opens]
    by (fastforce simp: Let_def schema_ready_view_def)
qed

text \<open>
  A stored revision is accepted exactly when its text, up to the terminator, is the
  decimal of a number of the revision domain: no sign, no leading zero, nothing else.
\<close>

theorem revision_text_is_canonical_decimal:
  "parse_revision_text s = Some r \<longleftrightarrow>
     (\<exists>digits. s = Some digits \<and> c_bytes digits = decimal (unat r) \<and> r \<le> ESDB_REVISION_MAX)"
  by (simp add: parse_revision_text_iff word_le_nat_alt)

end
