(* ===== verification/Storage_Provider.thy ===== *)
theory Storage_Provider
  imports Sqlite_Api "HOL-Library.Product_Lexorder"
begin

text \<open>
  The storage provider of src/esdb_zipvfs.cpp: the registry of codec configurations, the choice
  of the VFS a database is opened with, the callbacks ZIPVFS is given, and the check after an
  open. What the build contains is a \<open>build\<close>; zlib, Zstd and ZIPVFS are arguments.
\<close>

section \<open>Open options\<close>

record open_options =
  oo_flags :: u32
  oo_busy_timeout_ms :: u32
  oo_journal_mode :: u32
  oo_synchronous :: u32
  oo_cache_kib :: u32
  oo_wal_autocheckpoint_pages :: u32
  oo_foreign_keys :: u32
  oo_storage_mode :: u32
  oo_storage_provider :: u32
  oo_compression_codec :: u32
  oo_compression_level :: u32
  oo_reserved :: "u32 list"

abbreviation "ESDB_STORAGE_DEFAULT \<equiv> (0 :: u32)"
abbreviation "ESDB_STORAGE_PLAIN \<equiv> (1 :: u32)"
abbreviation "ESDB_STORAGE_COMPRESSED \<equiv> (2 :: u32)"
abbreviation "ESDB_PROVIDER_AUTO \<equiv> (0 :: u32)"
abbreviation "ESDB_PROVIDER_SQLITE \<equiv> (1 :: u32)"
abbreviation "ESDB_PROVIDER_ZIPVFS \<equiv> (2 :: u32)"
abbreviation "ESDB_CODEC_NONE \<equiv> (0 :: u32)"
abbreviation "ESDB_CODEC_ZSTD \<equiv> (1 :: u32)"
abbreviation "ESDB_CODEC_DEFLATE \<equiv> (2 :: u32)"

text \<open>\<open>snprintf\<close> into a buffer of \<open>capacity\<close> bytes keeps what fits before the terminator.\<close>

definition snprintf_text :: "nat \<Rightarrow> string \<Rightarrow> string" where
  "snprintf_text capacity text = take (capacity - 1) text"

lemma length_decimal: "n < 10 ^ Suc k \<Longrightarrow> length (decimal n) \<le> Suc k"
proof (induction k arbitrary: n)
  case 0
  then show ?case by (simp add: decimal.simps [of n])
next
  case (Suc k)
  from Suc.prems have "n div 10 < 10 ^ Suc k" by simp
  from Suc.IH [OF this] show ?case by (simp add: decimal.simps [of n])
qed

lemma length_decimal_u32: "length (decimal (unat (w :: u32))) \<le> 10"
  using length_decimal [of "unat w" 9] unat_u32_bound [of w] by simp

definition signed_decimal :: "int \<Rightarrow> byte list" where
  "signed_decimal n = (if n < 0 then 45 # decimal (nat (- n)) else decimal (nat n))"

section \<open>The build\<close>

record build =
  bd_has_zipvfs :: bool
  bd_has_zstd :: bool

definition zipvfs_compiled :: "build \<Rightarrow> bool" where
  "zipvfs_compiled b = bd_has_zipvfs b"

definition zipvfs_zstd_compiled :: "build \<Rightarrow> bool" where
  "zipvfs_zstd_compiled b \<longleftrightarrow> bd_has_zipvfs b \<and> bd_has_zstd b"

section \<open>Codec configurations\<close>

record codec_config =
  cc_codec :: u32
  cc_level :: int
  cc_vfs_name :: string
  cc_header :: string

type_synonym codec_registry = "((u32 \<times> int) \<times> codec_config) list"

text \<open>
  The libraries: levels and bounds, compression into a buffer of a capacity, and the ZIPVFS
  layer over an unknown state \<open>'z\<close>. A compression answers its code and what it wrote; the Zstd
  functions answer an error or what they wrote.
\<close>

record 'z zip_libraries =
  zl_default_level :: int
  zl_no_compression :: int
  zl_best_compression :: int
  zl_ok :: int
  zl_compress_bound :: "nat \<Rightarrow> nat"
  zl_compress2 :: "int \<Rightarrow> nat \<Rightarrow> byte list \<Rightarrow> int \<times> byte list"
  zl_uncompress :: "nat \<Rightarrow> byte list \<Rightarrow> int \<times> byte list"
  zs_default_level :: int
  zs_min_level :: int
  zs_max_level :: int
  zs_compress_bound :: "nat \<Rightarrow> nat"
  zs_compress :: "int \<Rightarrow> nat \<Rightarrow> byte list \<Rightarrow> byte list option"
  zs_decompress :: "nat \<Rightarrow> byte list \<Rightarrow> byte list option"
  zv_create_vfs :: "string \<Rightarrow> codec_config \<Rightarrow> 'z \<Rightarrow> int \<times> 'z"
  zv_errmsg :: "int \<Rightarrow> string option"

definition normalize_level :: "build \<Rightarrow> 'z zip_libraries \<Rightarrow> u32 \<Rightarrow> int \<Rightarrow> int option" where
  "normalize_level b Z codec requested =
     (if codec = ESDB_CODEC_DEFLATE
      then if requested = 0 then Some (zl_default_level Z)
           else if requested < zl_no_compression Z \<or> zl_best_compression Z < requested then None
           else Some requested
      else if zipvfs_zstd_compiled b \<and> codec = ESDB_CODEC_ZSTD
      then if requested = 0 then Some (zs_default_level Z)
           else if requested < zs_min_level Z \<or> zs_max_level Z < requested then None
           else Some requested
      else None)"

definition codec_header :: "u32 \<Rightarrow> string" where
  "codec_header codec = (if codec = ESDB_CODEC_DEFLATE then ''ESDBZLIB1'' else ''ESDBZSTD1'')"

definition codec_vfs_name :: "u32 \<Rightarrow> int \<Rightarrow> string" where
  "codec_vfs_name codec level =
     snprintf_text 64 (''esdb-zv-'' @ (if codec = ESDB_CODEC_DEFLATE then ''deflate'' else ''zstd'') @ ''-'' @
       chars (signed_decimal level))"

definition new_codec_config :: "u32 \<Rightarrow> int \<Rightarrow> codec_config" where
  "new_codec_config codec level =
     \<lparr>cc_codec = codec, cc_level = level, cc_vfs_name = codec_vfs_name codec level,
      cc_header = codec_header codec\<rparr>"

text \<open>
  \<open>ensure_zipvfs\<close>, under the registry mutex. A string assignment or the insertion may throw,
  before the registration with ZIPVFS; \<open>config_ok\<close> is the allocation of the configuration. A
  failed registration takes the new entry out again.
\<close>

record 'z zip_state =
  zw_registry :: codec_registry
  zw_layer :: 'z

definition open_error :: "(int \<Rightarrow> string) \<Rightarrow> esdb_status \<Rightarrow> int \<Rightarrow> string \<Rightarrow> esdb_error" where
  "open_error errstr status sqlite_code message =
     set_error errstr None status ESDB_PHASE_OPEN sqlite_code (Some message)"

definition register_codec ::
  "(int \<Rightarrow> string) \<Rightarrow> 'z zip_libraries \<Rightarrow> u32 \<Rightarrow> int \<Rightarrow> 'z zip_state
   \<Rightarrow> (esdb_error + string) \<times> 'z zip_state" where
  "register_codec errstr Z codec level w =
     (let config = new_codec_config codec level in
      case zv_create_vfs Z (cc_vfs_name config) config (zw_layer w) of
        (rc, layer) \<Rightarrow>
          if rc \<noteq> SQLITE_OK
          then (Inl (open_error errstr (map_sqlite_status rc) rc
                  (case zv_errmsg Z rc of
                     None \<Rightarrow> ''failed to register ZIPVFS provider''
                   | Some m \<Rightarrow> if m = [] then ''failed to register ZIPVFS provider'' else m)),
                w\<lparr>zw_layer := layer\<rparr>)
          else (Inr (cc_vfs_name config),
                \<lparr>zw_registry = map_put (codec, level) config (zw_registry w), zw_layer = layer\<rparr>))"

definition ensure_zipvfs ::
  "(int \<Rightarrow> string) \<Rightarrow> build \<Rightarrow> 'z zip_libraries \<Rightarrow> exn option \<Rightarrow> bool \<Rightarrow> u32 \<Rightarrow> int \<Rightarrow> 'z zip_state
   \<Rightarrow> (esdb_error + string) \<times> 'z zip_state" where
  "ensure_zipvfs errstr b Z thrown config_ok codec requested_level w =
     (case normalize_level b Z codec requested_level of
        None \<Rightarrow>
          (Inl (if codec = ESDB_CODEC_ZSTD \<and> \<not> zipvfs_zstd_compiled b
             then open_error errstr ESDB_ERR_UNSUPPORTED SQLITE_MISUSE
               ''ZIPVFS Zstd support is not compiled into this ESDB build''
             else open_error errstr ESDB_ERR_INVALID_ARGUMENT SQLITE_MISUSE
               ''compression level is outside the selected codec range''), w)
      | Some level \<Rightarrow>
         (case map_of (zw_registry w) (codec, level) of
            Some config \<Rightarrow> (Inr (cc_vfs_name config), w)
          | None \<Rightarrow>
             if \<not> config_ok
             then (Inl (open_error errstr ESDB_ERR_OUT_OF_MEMORY SQLITE_NOMEM
                     ''failed to allocate ZIPVFS codec config''), w)
             else case thrown of
               Some Bad_Alloc \<Rightarrow> (Inl (open_error errstr ESDB_ERR_OUT_OF_MEMORY SQLITE_NOMEM
                     ''failed to allocate ZIPVFS registry state''), w)
             | Some Other_Exn \<Rightarrow> (Inl (open_error errstr ESDB_ERR_INTERNAL SQLITE_ERROR
                     ''unexpected exception registering ZIPVFS''), w)
             | None \<Rightarrow> register_codec errstr Z codec level w))"

section \<open>Selection and verification\<close>

text \<open>
  A null \<open>error\<close> changes the status these two return: \<open>error_given\<close> says whether there is one.
  The answer of the selection is the name of the VFS, if any.
\<close>

definition storage_vfs_select ::
  "(int \<Rightarrow> string) \<Rightarrow> build \<Rightarrow> 'z zip_libraries \<Rightarrow> exn option \<Rightarrow> bool \<Rightarrow> bool \<Rightarrow> open_options
   \<Rightarrow> 'z zip_state \<Rightarrow> string option outcome \<times> 'z zip_state" where
  "storage_vfs_select errstr b Z thrown config_ok error_given options w =
     (if oo_storage_mode options \<noteq> ESDB_STORAGE_COMPRESSED then (Done None, w)
      else if \<not> zipvfs_compiled b
      then (Failed ESDB_ERR_UNSUPPORTED (open_error errstr ESDB_ERR_UNSUPPORTED SQLITE_NOTFOUND
              ''no ZIPVFS provider is compiled into this ESDB build''), w)
      else case ensure_zipvfs errstr b Z thrown config_ok (oo_compression_codec options)
          (sint (oo_compression_level options)) w of
        (Inr name, w) \<Rightarrow> (Done (Some name), w)
      | (Inl e, w) \<Rightarrow>
          (Failed (if error_given \<and> err_status e \<noteq> ESDB_OK then err_status e else ESDB_ERR_UNSUPPORTED) e, w))"

text \<open>\<open>sqlite3_file_control\<close> with ZIPVFS_CTRL_STAT answers the code \<open>stat d\<close>.\<close>

definition storage_verify_open ::
  "'d sqlite \<Rightarrow> build \<Rightarrow> ('d \<Rightarrow> int) \<Rightarrow> bool \<Rightarrow> open_options \<Rightarrow> 'd \<Rightarrow> unit outcome" where
  "storage_verify_open E b stat error_given options d =
     (if oo_storage_mode options \<noteq> ESDB_STORAGE_COMPRESSED then Done ()
      else if \<not> zipvfs_compiled b
      then Failed ESDB_ERR_UNSUPPORTED
             (set_error (sq_errstr E) (Some (sq_diagnosis E d)) ESDB_ERR_UNSUPPORTED ESDB_PHASE_OPEN
               SQLITE_NOTFOUND (Some ''compressed database opened without ZIPVFS support''))
      else
       let rc = stat d in
       if rc \<noteq> SQLITE_OK
       then
        let e = set_error (sq_errstr E) (Some (sq_diagnosis E d))
              (if rc = SQLITE_NOTFOUND then ESDB_ERR_UNSUPPORTED else map_sqlite_status rc)
              ESDB_PHASE_OPEN rc
              (Some (if rc = SQLITE_NOTFOUND
                then ''compressed storage request did not resolve to a ZIPVFS database''
                else ''ZIPVFS verification failed''))
        in Failed (if error_given then err_status e else map_sqlite_status rc) e
       else Done ())"

section \<open>Callbacks\<close>

text \<open>
  The arguments are C pointers and sizes: \<open>None\<close> is a null pointer; the answer carries what was
  written to the destination, whose length the callback stores.
\<close>

abbreviation "INT_MAX \<equiv> (2147483647 :: int)"

definition int_bound :: "nat \<Rightarrow> int" where
  "int_bound bound = (if INT_MAX < int bound then INT_MAX else int bound)"

definition zlib_bound :: "'z zip_libraries \<Rightarrow> int \<Rightarrow> int" where
  "zlib_bound Z source_length =
     (if source_length < 0 then 0 else int_bound (zl_compress_bound Z (nat source_length)))"

definition bad_buffers :: "bool \<Rightarrow> int option \<Rightarrow> byte list option \<Rightarrow> int \<Rightarrow> bool" where
  "bad_buffers destination destination_length source source_length \<longleftrightarrow>
     \<not> destination \<or> destination_length = None \<or> source = None \<or> source_length < 0 \<or> the destination_length < 0"

definition zlib_compress ::
  "'z zip_libraries \<Rightarrow> codec_config option \<Rightarrow> bool \<Rightarrow> int option \<Rightarrow> byte list option \<Rightarrow> int
   \<Rightarrow> int \<times> byte list option" where
  "zlib_compress Z context destination destination_length source source_length =
     (if context = None \<or> bad_buffers destination destination_length source source_length
      then (SQLITE_MISUSE, None)
      else
       case zl_compress2 Z (cc_level (the context)) (nat (the destination_length))
           (take (nat source_length) (the source)) of
         (rc, written) \<Rightarrow>
           if rc \<noteq> zl_ok Z \<or> INT_MAX < int (length written) then (SQLITE_ERROR, None)
           else (SQLITE_OK, Some written))"

definition zlib_uncompress ::
  "'z zip_libraries \<Rightarrow> bool \<Rightarrow> int option \<Rightarrow> byte list option \<Rightarrow> int \<Rightarrow> int \<times> byte list option" where
  "zlib_uncompress Z destination destination_length source source_length =
     (if bad_buffers destination destination_length source source_length then (SQLITE_MISUSE, None)
      else
       case zl_uncompress Z (nat (the destination_length)) (take (nat source_length) (the source)) of
         (rc, written) \<Rightarrow>
           if rc \<noteq> zl_ok Z \<or> INT_MAX < int (length written) then (SQLITE_ERROR, None)
           else (SQLITE_OK, Some written))"

definition zstd_bound :: "'z zip_libraries \<Rightarrow> int \<Rightarrow> int" where
  "zstd_bound Z source_length =
     (if source_length < 0 then 0 else int_bound (zs_compress_bound Z (nat source_length)))"

definition zstd_result :: "byte list option \<Rightarrow> int \<times> byte list option" where
  "zstd_result result =
     (case result of
        None \<Rightarrow> (SQLITE_ERROR, None)
      | Some written \<Rightarrow> if INT_MAX < int (length written) then (SQLITE_ERROR, None) else (SQLITE_OK, Some written))"

definition zstd_compress ::
  "'z zip_libraries \<Rightarrow> codec_config option \<Rightarrow> bool \<Rightarrow> int option \<Rightarrow> byte list option \<Rightarrow> int
   \<Rightarrow> int \<times> byte list option" where
  "zstd_compress Z context destination destination_length source source_length =
     (if context = None \<or> bad_buffers destination destination_length source source_length
      then (SQLITE_MISUSE, None)
      else zstd_result (zs_compress Z (cc_level (the context)) (nat (the destination_length))
             (take (nat source_length) (the source))))"

definition zstd_uncompress ::
  "'z zip_libraries \<Rightarrow> bool \<Rightarrow> int option \<Rightarrow> byte list option \<Rightarrow> int \<Rightarrow> int \<times> byte list option" where
  "zstd_uncompress Z destination destination_length source source_length =
     (if bad_buffers destination destination_length source source_length then (SQLITE_MISUSE, None)
      else zstd_result (zs_decompress Z (nat (the destination_length)) (take (nat source_length) (the source))))"

text \<open>
  The methods a database file gets: its header, its configuration, and the functions of the
  codec. \<open>strncmp\<close> of 13 bytes compares the C strings up to there.
\<close>

datatype codec_functions = Zlib_Functions | Zstd_Functions

record codec_methods =
  cm_header :: string
  cm_context :: codec_config
  cm_functions :: codec_functions

definition zipvfs_autodetect ::
  "build \<Rightarrow> codec_config option \<Rightarrow> string option \<Rightarrow> bool \<Rightarrow> int \<times> codec_methods option" where
  "zipvfs_autodetect b context header methods_given =
     (case context of
        None \<Rightarrow> (SQLITE_MISUSE, None)
      | Some config \<Rightarrow>
         if \<not> methods_given then (SQLITE_MISUSE, None)
         else if header \<noteq> None
           \<and> take 13 (takeWhile (\<lambda>c. of_char c \<noteq> (0 :: nat)) (the header)) \<noteq> take 13 (cc_header config)
         then (SQLITE_NOTADB, None)
         else
          let methods = (\<lambda>f. \<lparr>cm_header = cc_header config, cm_context = config, cm_functions = f\<rparr>) in
          if cc_codec config = ESDB_CODEC_DEFLATE then (SQLITE_OK, Some (methods Zlib_Functions))
          else if zipvfs_zstd_compiled b \<and> cc_codec config = ESDB_CODEC_ZSTD
          then (SQLITE_OK, Some (methods Zstd_Functions))
          else (SQLITE_MISUSE, None))"

end
