(* ===== verification/Runtime.thy ===== *)
theory Runtime
  imports Sqlite_Transactions Storage_Provider
begin

text \<open>
  The connection runtime of src/esdb_runtime.cpp: transaction handles, savepoints, the schema
  version and its migrations, integrity checks. A session is an open \<open>esdb_database\<close> with the
  options it was opened with and its transaction objects: the number of an object stands for
  its address, and the map says which objects are live and whether they are active. A handle
  that was destroyed is not passed again (the header forbids it).
\<close>

section \<open>Sessions\<close>

record 'd session =
  ss_connection :: "'d connection"
  ss_options :: open_options
  ss_transactions :: "nat \<Rightarrow> bool option"

type_synonym ('d, 'a) session_action = "'d session \<Rightarrow> 'a outcome \<times> 'd session"

definition on_connection :: "('d connection \<Rightarrow> 'd connection) \<Rightarrow> 'd session \<Rightarrow> 'd session" where
  "on_connection f s = s\<lparr>ss_connection := f (ss_connection s)\<rparr>"

definition in_connection :: "('d, 'a) action \<Rightarrow> ('d, 'a) session_action" where
  "in_connection m s = (case m (ss_connection s) of (r, cn) \<Rightarrow> (r, s\<lparr>ss_connection := cn\<rparr>))"

text \<open>\<open>count_operation\<close> and \<open>clear_error\<close> open a public call; the database may be null.\<close>

definition counted :: "('d, 'a) session_action \<Rightarrow> ('d, 'a) session_action" where
  "counted m s = m (on_connection (metrics_only count_operation) s)"

definition on_session ::
  "'a outcome \<Rightarrow> ('d, 'a) session_action \<Rightarrow> 'd session option \<Rightarrow> 'a outcome \<times> 'd session option" where
  "on_session null_result m database =
     (case database of
        None \<Rightarrow> (null_result, None)
      | Some s \<Rightarrow> (case m s of (r, s') \<Rightarrow> (r, Some s')))"

section \<open>Statements of the application\<close>

text \<open>
  After a statement that may have begun or ended a transaction the flags follow SQLite; the
  object behind \<open>active_transaction\<close> is written through the pointer.
\<close>

definition set_inactive :: "nat \<Rightarrow> (nat \<Rightarrow> bool option) \<Rightarrow> nat \<Rightarrow> bool option" where
  "set_inactive i objects = objects(i := map_option (\<lambda>_. False) (objects i))"

definition sync_transaction_state :: "'d sqlite \<Rightarrow> 'd session \<Rightarrow> 'd session" where
  "sync_transaction_state E s =
     (let cn = ss_connection s;
          active = \<not> sq_autocommit E (cn_db cn)
      in if active then s\<lparr>ss_connection := cn\<lparr>cn_transaction_active := True\<rparr>\<rparr>
         else s\<lparr>ss_connection := cn\<lparr>cn_transaction_active := False, cn_savepoints := [],
                  cn_active_transaction := None\<rparr>,
                ss_transactions := (case cn_active_transaction cn of
                    None \<Rightarrow> ss_transactions s
                  | Some i \<Rightarrow> set_inactive i (ss_transactions s))\<rparr>)"

definition esdb_exec ::
  "'d sqlite \<Rightarrow> byte list option \<Rightarrow> 'd session option \<Rightarrow> unit outcome \<times> 'd session option" where
  "esdb_exec E sql =
     on_session (null_database E ESDB_PHASE_EXEC SQLITE_MISUSE ''invalid database or SQL'')
       (counted (\<lambda>s.
          case in_connection
              (case sql of
                 None \<Rightarrow> cn_fail E ESDB_ERR_INVALID_ARGUMENT ESDB_PHASE_EXEC SQLITE_MISUSE
                          (Some ''invalid database or SQL'')
               | Some text \<Rightarrow> exec_sql E (chars (takeWhile (\<lambda>b. b \<noteq> 0) text)) ESDB_PHASE_EXEC) s of
            (r, s') \<Rightarrow> (r, sync_transaction_state E s')))"

section \<open>Transactions\<close>

abbreviation "TX \<equiv> ESDB_PHASE_TRANSACTION"

abbreviation "ESDB_TRANSACTION_DEFERRED \<equiv> (0 :: u32)"
abbreviation "ESDB_TRANSACTION_IMMEDIATE \<equiv> (1 :: u32)"
abbreviation "ESDB_TRANSACTION_EXCLUSIVE \<equiv> (2 :: u32)"

definition begin_mode_of :: "u32 \<Rightarrow> begin_mode option" where
  "begin_mode_of mode =
     (if mode = ESDB_TRANSACTION_DEFERRED then Some Deferred
      else if mode = ESDB_TRANSACTION_IMMEDIATE then Some Immediate
      else if mode = ESDB_TRANSACTION_EXCLUSIVE then Some Exclusive
      else None)"

definition set_active :: "bool \<Rightarrow> 'd session \<Rightarrow> 'd session" where
  "set_active b = on_connection (\<lambda>cn. cn\<lparr>cn_transaction_active := b\<rparr>)"

text \<open>
  The address the allocator answers is the argument \<open>object\<close>: no address when the allocation
  fails, then what was begun is rolled back and its outcome ignored.
\<close>

definition begin_transaction ::
  "'d sqlite \<Rightarrow> nat option \<Rightarrow> u32 \<Rightarrow> ('d, nat) session_action" where
  "begin_transaction E object mode s =
     (if cn_transaction_active (ss_connection s)
      then in_connection (cn_fail E ESDB_ERR_INVALID_STATE TX SQLITE_MISUSE
             (Some ''an ESDB transaction is already active on this connection'')) s
      else case begin_mode_of mode of
        None \<Rightarrow> in_connection (cn_fail E ESDB_ERR_INVALID_ARGUMENT TX SQLITE_MISUSE
                 (Some ''unknown transaction mode'')) s
      | Some m \<Rightarrow>
          chain (in_connection (exec_sql E (begin_sql m) TX)) (\<lambda>_ s.
            let s = set_active True s in
            case object of
              None \<Rightarrow>
                let s = set_active False (snd (in_connection (exec_sql E SQL_ROLLBACK TX) s)) in
                in_connection (cn_fail E ESDB_ERR_OUT_OF_MEMORY TX SQLITE_NOMEM
                  (Some ''transaction allocation failed'')) s
            | Some i \<Rightarrow>
                (Done i, (on_connection (\<lambda>cn. cn\<lparr>cn_active_transaction := Some i\<rparr>) s)
                  \<lparr>ss_transactions := (ss_transactions s)(i \<mapsto> True)\<rparr>)) s)"

definition esdb_begin ::
  "'d sqlite \<Rightarrow> nat option \<Rightarrow> u32 \<Rightarrow> bool \<Rightarrow> 'd session option \<Rightarrow> nat outcome \<times> 'd session option" where
  "esdb_begin E object mode out_given =
     on_session (null_database E TX SQLITE_MISUSE ''invalid transaction arguments'')
       (counted (if \<not> out_given
          then in_connection (cn_fail E ESDB_ERR_INVALID_ARGUMENT TX SQLITE_MISUSE
                 (Some ''invalid transaction arguments''))
          else begin_transaction E object mode))"

text \<open>\<open>if (database->active_transaction == transaction) active_transaction = nullptr\<close>\<close>

definition forget_transaction :: "nat \<Rightarrow> 'd session \<Rightarrow> 'd session" where
  "forget_transaction i s =
     (on_connection (\<lambda>cn. cn\<lparr>cn_savepoints := [],
        cn_active_transaction :=
          (if cn_active_transaction cn = Some i then None else cn_active_transaction cn)\<rparr>) s)
     \<lparr>ss_transactions := (ss_transactions s)(i \<mapsto> False)\<rparr>"

definition finish_transaction :: "'d sqlite \<Rightarrow> bool \<Rightarrow> nat \<Rightarrow> ('d, unit) session_action" where
  "finish_transaction E is_commit i s =
     (if ss_transactions s i \<noteq> Some True
      then in_connection (cn_fail E ESDB_ERR_INVALID_STATE TX SQLITE_MISUSE
             (Some ''transaction is not active'')) s
      else
       case in_connection (exec_sql E (if is_commit then SQL_COMMIT else SQL_ROLLBACK) TX) s of
         (Done _, s) \<Rightarrow>
           (Done (), on_connection (metrics_only (if is_commit then count_commit else count_rollback))
              (forget_transaction i (set_active False s)))
       | (Failed status e, s) \<Rightarrow>
           let active = \<not> sq_autocommit E (cn_db (ss_connection s));
               s = set_active active s
           in (Failed status e, if active then s else forget_transaction i s))"

text \<open>A transaction handle names its session, so the call has both or neither.\<close>

definition transaction_call ::
  "'d sqlite \<Rightarrow> bool \<Rightarrow> ('d session \<times> nat) option \<Rightarrow> unit outcome \<times> 'd session option" where
  "transaction_call E is_commit transaction =
     (case transaction of
        None \<Rightarrow>
          (Failed ESDB_ERR_INVALID_STATE
             (set_error (sq_errstr E) None ESDB_ERR_INVALID_STATE TX SQLITE_MISUSE
               (Some ''transaction is not active'')), None)
      | Some (s, i) \<Rightarrow>
          (case counted (finish_transaction E is_commit i) s of (r, s') \<Rightarrow> (r, Some s')))"

definition esdb_commit where "esdb_commit E = transaction_call E True"
definition esdb_rollback where "esdb_rollback E = transaction_call E False"

text \<open>The rollback of a destroyed handle reports nothing.\<close>

definition destroy_transaction :: "'d sqlite \<Rightarrow> nat \<Rightarrow> 'd session \<Rightarrow> 'd session" where
  "destroy_transaction E i s =
     (let s = (if ss_transactions s i = Some True then snd (finish_transaction E False i s) else s)
      in s\<lparr>ss_transactions := (ss_transactions s)(i := None)\<rparr>)"

definition esdb_transaction_destroy ::
  "'d sqlite \<Rightarrow> ('d session \<times> nat) option \<Rightarrow> 'd session option" where
  "esdb_transaction_destroy E transaction = map_option (\<lambda>(s, i). destroy_transaction E i s) transaction"

definition esdb_transaction_active :: "('d session \<times> nat) option \<Rightarrow> int" where
  "esdb_transaction_active transaction =
     (case transaction of
        Some (s, i) \<Rightarrow> if ss_transactions s i = Some True then 1 else 0
      | None \<Rightarrow> 0)"

section \<open>Savepoints\<close>

abbreviation "SVP \<equiv> ESDB_PHASE_SAVEPOINT"

definition SAVEPOINT_CAPACITY :: nat where "SAVEPOINT_CAPACITY = 64"

definition name_message :: string where
  "name_message = ''invalid savepoint name (expected [A-Za-z0-9_], 1..64 bytes)''"

definition pop_savepoint :: "'d session \<Rightarrow> 'd session" where
  "pop_savepoint = on_connection (\<lambda>cn. cn\<lparr>cn_savepoints := butlast (cn_savepoints cn)\<rparr>)"

definition savepoint_call ::
  "'d sqlite \<Rightarrow> byte list option \<Rightarrow> (byte list \<Rightarrow> ('d, unit) session_action)
   \<Rightarrow> 'd session option \<Rightarrow> unit outcome \<times> 'd session option" where
  "savepoint_call E name m =
     on_session (null_database E SVP SQLITE_MISUSE name_message)
       (counted (if \<not> valid_savepoint_name name
          then in_connection (cn_fail E ESDB_ERR_INVALID_ARGUMENT SVP SQLITE_MISUSE (Some name_message))
          else m (c_bytes (the name))))"

definition savepoint_begin :: "'d sqlite \<Rightarrow> byte list \<Rightarrow> ('d, unit) session_action" where
  "savepoint_begin E name s =
     (if \<not> cn_transaction_active (ss_connection s)
      then in_connection (cn_fail E ESDB_ERR_INVALID_STATE SVP SQLITE_MISUSE
             (Some ''savepoints require an active transaction'')) s
      else if SAVEPOINT_CAPACITY \<le> length (cn_savepoints (ss_connection s))
      then in_connection (cn_fail E ESDB_ERR_INVALID_STATE SVP SQLITE_MISUSE
             (Some ''savepoint depth limit reached'')) s
      else
       chain (in_connection (exec_sql E (snprintf_text 128 (savepoint_sql (chars name))) SVP)) (\<lambda>_ s.
         give () (on_connection (\<lambda>cn. cn\<lparr>cn_savepoints := cn_savepoints cn @ [name]\<rparr>) s)) s)"

text \<open>\<open>savepoint_depth == 0 || strcmp(top, name) != 0\<close>\<close>

definition not_on_top :: "byte list \<Rightarrow> 'd session \<Rightarrow> bool" where
  "not_on_top name s =
     (let names = cn_savepoints (ss_connection s) in names = [] \<or> last names \<noteq> name)"

definition savepoint_release :: "'d sqlite \<Rightarrow> byte list \<Rightarrow> ('d, unit) session_action" where
  "savepoint_release E name s =
     (if not_on_top name s
      then in_connection (cn_fail E ESDB_ERR_INVALID_STATE SVP SQLITE_MISUSE
             (Some ''savepoint release must match the most recent active savepoint'')) s
      else
       chain (in_connection (exec_sql E (snprintf_text 128 (release_sql (chars name))) SVP))
         (\<lambda>_ s. give () (pop_savepoint s)) s)"

definition savepoint_rollback :: "'d sqlite \<Rightarrow> byte list \<Rightarrow> ('d, unit) session_action" where
  "savepoint_rollback E name s =
     (if not_on_top name s
      then in_connection (cn_fail E ESDB_ERR_INVALID_STATE SVP SQLITE_MISUSE
             (Some ''savepoint rollback must match the most recent active savepoint'')) s
      else
       chain (in_connection (exec_sql E (snprintf_text 160 (undo_sql (chars name))) SVP))
         (\<lambda>_ s. give () (pop_savepoint s)) s)"

definition esdb_savepoint_begin where
  "esdb_savepoint_begin E name = savepoint_call E name (savepoint_begin E)"
definition esdb_savepoint_release where
  "esdb_savepoint_release E name = savepoint_call E name (savepoint_release E)"
definition esdb_savepoint_rollback where
  "esdb_savepoint_rollback E name = savepoint_call E name (savepoint_rollback E)"

definition esdb_savepoint_depth :: "'d session option \<Rightarrow> u32" where
  "esdb_savepoint_depth database =
     (case database of None \<Rightarrow> 0 | Some s \<Rightarrow> of_nat (length (cn_savepoints (ss_connection s))))"

section \<open>Versions\<close>

abbreviation "MIG \<equiv> ESDB_PHASE_MIGRATION"

definition SQL_DATA_VERSION :: string where "SQL_DATA_VERSION = ''PRAGMA data_version;''"
definition SQL_USER_VERSION :: string where "SQL_USER_VERSION = ''PRAGMA user_version;''"

definition set_version_sql :: "nat \<Rightarrow> string" where
  "set_version_sql n = ''PRAGMA user_version='' @ chars (decimal n) @ '';''"

definition query_u32 ::
  "'d sqlite \<Rightarrow> string \<Rightarrow> esdb_phase \<Rightarrow> esdb_status \<Rightarrow> string \<Rightarrow> ('d, u32) action" where
  "query_u32 E sql phase status message =
     chain (query_u64 E sql phase) (\<lambda>v.
       if 4294967295 < v then cn_fail E status phase SQLITE_RANGE (Some message)
       else give (ucast v))"

definition esdb_data_version_get ::
  "'d sqlite \<Rightarrow> bool \<Rightarrow> 'd session option \<Rightarrow> u32 outcome \<times> 'd session option" where
  "esdb_data_version_get E out_given =
     on_session
       (null_database E ESDB_PHASE_HEALTH SQLITE_MISUSE
         (if out_given then ''invalid scalar query arguments'' else ''out_data_version is required''))
       (counted (in_connection (if \<not> out_given
          then cn_fail E ESDB_ERR_INVALID_ARGUMENT ESDB_PHASE_HEALTH SQLITE_MISUSE
                 (Some ''out_data_version is required'')
          else query_u32 E SQL_DATA_VERSION ESDB_PHASE_HEALTH ESDB_ERR_SQLITE
                 ''data_version exceeds uint32 range'')))"

definition user_version_get :: "'d sqlite \<Rightarrow> ('d, u32) session_action" where
  "user_version_get E =
     in_connection (query_u32 E SQL_USER_VERSION MIG ESDB_ERR_MIGRATION ''user_version exceeds uint32 range'')"

definition esdb_user_version_get ::
  "'d sqlite \<Rightarrow> bool \<Rightarrow> 'd session option \<Rightarrow> u32 outcome \<times> 'd session option" where
  "esdb_user_version_get E out_given =
     on_session
       (null_database E MIG SQLITE_MISUSE
         (if out_given then ''invalid scalar query arguments'' else ''out_version is required''))
       (counted (if \<not> out_given
          then in_connection (cn_fail E ESDB_ERR_INVALID_ARGUMENT MIG SQLITE_MISUSE
                 (Some ''out_version is required''))
          else user_version_get E))"

definition user_version_set :: "'d sqlite \<Rightarrow> u32 \<Rightarrow> ('d, unit) session_action" where
  "user_version_set E version =
     in_connection (exec_sql E (snprintf_text 64 (set_version_sql (unat version))) MIG)"

definition esdb_user_version_set ::
  "'d sqlite \<Rightarrow> u32 \<Rightarrow> 'd session option \<Rightarrow> unit outcome \<times> 'd session option" where
  "esdb_user_version_set E version =
     on_session (null_database E MIG SQLITE_MISUSE ''database is required'')
       (counted (user_version_set E version))"

section \<open>The object store of a session\<close>

text \<open>The object store works on the connection of the slot's session.\<close>

definition on_connection_of ::
  "('d connection option \<Rightarrow> 'r \<times> 'd connection option) \<Rightarrow> 'd session option \<Rightarrow> 'r \<times> 'd session option" where
  "on_connection_of f database =
     (case database of
        None \<Rightarrow> (fst (f None), None)
      | Some s \<Rightarrow>
         (case f (Some (ss_connection s)) of
            (r, connection) \<Rightarrow>
              (r, Some (case connection of None \<Rightarrow> s | Some cn \<Rightarrow> s\<lparr>ss_connection := cn\<rparr>))))"

text \<open>An operation that also drives a callback answers the callback's context.\<close>

definition with_context ::
  "('c option \<Rightarrow> ('r \<times> 'c option) \<times> 'u) \<Rightarrow> 'c option \<Rightarrow> ('r \<times> 'u) \<times> 'c option" where
  "with_context f connection = (case f connection of ((r, connection), user) \<Rightarrow> ((r, user), connection))"

end
