(* ===== verification/Runtime_Upkeep.thy ===== *)
theory Runtime_Upkeep
  imports Runtime
begin

text \<open>
  Schema migrations, integrity checks and online backups of src/esdb_runtime.cpp. The loop of
  the migrations ends because every step raises the version by one; the integrity loop ends
  with the rows of its statement and the backup loop with the copy, which fuel stands for.
\<close>

section \<open>Migrations\<close>

text \<open>
  A callback works on the session it gets and answers its status with what it left in the error
  record, or throws (\<open>None\<close>). A null callback is no migration.
\<close>

type_synonym 'd migration_fn = "u32 \<Rightarrow> u32 \<Rightarrow> 'd session \<Rightarrow> (esdb_status \<times> esdb_error) option \<times> 'd session"

record 'd migration =
  mg_from_version :: u32
  mg_to_version :: u32
  mg_apply :: "'d migration_fn option"

definition find_migration :: "'d migration list \<Rightarrow> u32 \<Rightarrow> 'd migration option" where
  "find_migration migrations current =
     find (\<lambda>m. mg_from_version m = current \<and> mg_to_version m = current + 1 \<and> mg_apply m \<noteq> None) migrations"

text \<open>\<open>esdb_rollback(transaction, nullptr); esdb_transaction_destroy(transaction);\<close>\<close>

definition abandon :: "'d sqlite \<Rightarrow> nat \<Rightarrow> 'd session \<Rightarrow> 'd session" where
  "abandon E i s = destroy_transaction E i (snd (counted (finish_transaction E False i) s))"

text \<open>What a failing callback reported, with the defaults for what it left empty.\<close>

definition callback_failure :: "'d sqlite \<Rightarrow> esdb_status \<Rightarrow> esdb_error \<Rightarrow> ('d, 'a) action" where
  "callback_failure E status e =
     cn_fail E status MIG
       (if err_sqlite_code e \<noteq> SQLITE_OK then err_sqlite_code e else SQLITE_ERROR)
       (Some (if err_message e \<noteq> [] then err_message e else ''migration callback failed''))"

definition apply_migration :: "'d sqlite \<Rightarrow> nat \<Rightarrow> 'd migration \<Rightarrow> ('d, unit) session_action" where
  "apply_migration E i m s =
     (case the (mg_apply m) (mg_from_version m) (mg_to_version m) s of
        (None, s) \<Rightarrow>
          in_connection (cn_fail E ESDB_ERR_INTERNAL MIG SQLITE_ABORT
            (Some ''migration callback threw an exception'')) (abandon E i s)
      | (Some (status, e), s) \<Rightarrow>
          if status \<noteq> ESDB_OK then in_connection (callback_failure E status e) (abandon E i s)
          else guarded (abandon E i) (counted (user_version_set E (mg_to_version m))) s)"

lemma find_migration_Some:
  assumes "find_migration migrations current = Some m"
  shows "m \<in> set migrations" "mg_from_version m = current" "mg_to_version m = current + 1"
    "mg_apply m \<noteq> None"
  using assms by (auto simp: find_migration_def find_Some_iff in_set_conv_nth)

lemma next_version: "(current :: u32) < target_version \<Longrightarrow> unat (current + 1) = Suc (unat current)"
  using unat_u32_bound [of target_version] unat_u32_bound [of current]
  by (simp add: word_less_nat_alt unat_word_ariths)

function migrate_steps ::
  "'d sqlite \<Rightarrow> u32 \<Rightarrow> 'd migration list \<Rightarrow> nat \<Rightarrow> u32 \<Rightarrow> ('d, unit) session_action" where
  "migrate_steps E target_version migrations i current s =
     (if \<not> current < target_version then (Done (), s)
      else case find_migration migrations current of
        None \<Rightarrow>
          in_connection (cn_fail E ESDB_ERR_MIGRATION MIG SQLITE_NOTFOUND
            (Some ''missing contiguous migration step'')) (abandon E i s)
      | Some m \<Rightarrow>
          (case apply_migration E i m s of
             (Failed status e, s') \<Rightarrow> (Failed status e, s')
           | (Done _, s') \<Rightarrow> migrate_steps E target_version migrations i (mg_to_version m) s'))"
  by pat_completeness auto

termination
  by (relation "measure (\<lambda>(E, target_version, migrations, i, current, s). unat target_version - unat current)")
    (auto simp: find_migration_Some(3) next_version word_less_nat_alt)

declare migrate_steps.simps [simp del]

definition migrate ::
  "'d sqlite \<Rightarrow> nat option \<Rightarrow> u32 \<Rightarrow> 'd migration list \<Rightarrow> ('d, unit) session_action" where
  "migrate E object target_version migrations =
     chain (counted (user_version_get E)) (\<lambda>current.
       if current = target_version then give ()
       else if target_version < current
       then in_connection (cn_fail E ESDB_ERR_UNSUPPORTED MIG SQLITE_MISUSE
              (Some ''downgrade migrations are not supported by esdb_migrate''))
       else
        chain (counted (begin_transaction E object ESDB_TRANSACTION_IMMEDIATE)) (\<lambda>i.
        chain (migrate_steps E target_version migrations i current) (\<lambda>_ s.
          case counted (finish_transaction E True i) s of
            (r, s) \<Rightarrow> (r, destroy_transaction E i s))))"

text \<open>\<open>migrations\<close> may be null only when the count is 0: \<open>None\<close> is a null array with a count.\<close>

definition esdb_migrate ::
  "'d sqlite \<Rightarrow> nat option \<Rightarrow> u32 \<Rightarrow> 'd migration list option \<Rightarrow> 'd session option
   \<Rightarrow> unit outcome \<times> 'd session option" where
  "esdb_migrate E object target_version migrations =
     on_session (null_database E MIG SQLITE_MISUSE ''invalid migration arguments'')
       (counted (case migrations of
            None \<Rightarrow> in_connection (cn_fail E ESDB_ERR_INVALID_ARGUMENT MIG SQLITE_MISUSE
                     (Some ''invalid migration arguments''))
          | Some ms \<Rightarrow> migrate E object target_version ms))"

section \<open>Integrity\<close>

definition SQL_QUICK_CHECK :: string where "SQL_QUICK_CHECK = ''PRAGMA quick_check;''"
definition SQL_INTEGRITY_CHECK :: string where "SQL_INTEGRITY_CHECK = ''PRAGMA integrity_check;''"

text \<open>
  The rows are read to the end; the first one that is not \<open>ok\<close> and not empty is the message.
  The buffer of the message keeps 255 characters. \<open>None\<close> is running out of fuel.
\<close>

fun integrity_rows ::
  "nat \<Rightarrow> 'd sqlite \<Rightarrow> statement \<Rightarrow> bool \<Rightarrow> string \<Rightarrow> ('d, (bool \<times> string) option) action" where
  "integrity_rows 0 E st ok problem = give None"
| "integrity_rows (Suc fuel) E st ok problem =
     chain (step E ESDB_PHASE_INTEGRITY st) (\<lambda>(rc, st).
       if rc \<noteq> SQLITE_ROW then give (Some (ok, problem))
       else
        let text = map_option c_bytes (column_text E st 0) in
        if text = Some (ascii ''ok'') then integrity_rows fuel E st ok problem
        else integrity_rows fuel E st False
               (if problem = [] \<and> text \<noteq> None then take 255 (chars (the text)) else problem))"

definition integrity_check :: "nat \<Rightarrow> 'd sqlite \<Rightarrow> bool \<Rightarrow> ('d, unit option) action" where
  "integrity_check fuel E quick =
     chain (prepare E (if quick then SQL_QUICK_CHECK else SQL_INTEGRITY_CHECK) ESDB_PHASE_INTEGRITY) (\<lambda>st.
     chain (integrity_rows fuel E st True []) (\<lambda>found.
       case found of
         None \<Rightarrow> give None
       | Some (ok, problem) \<Rightarrow>
           if \<not> ok
           then cn_fail E ESDB_ERR_CORRUPT ESDB_PHASE_INTEGRITY SQLITE_CORRUPT
                  (Some (if problem = [] then ''SQLite integrity check failed'' else problem))
           else give (Some ())))"

definition esdb_integrity_check ::
  "nat \<Rightarrow> 'd sqlite \<Rightarrow> int \<Rightarrow> 'd session option \<Rightarrow> unit option outcome \<times> 'd session option" where
  "esdb_integrity_check fuel E quick =
     on_session (null_database E ESDB_PHASE_INTEGRITY SQLITE_MISUSE ''database is required'')
       (counted (in_connection (integrity_check fuel E (quick \<noteq> 0))))"

section \<open>Backups\<close>

text \<open>
  The second connection a backup opens, over an unknown type \<open>'t\<close> of target handles: opening
  gives a handle, or fails with a code and may leave a handle all the same.
\<close>

datatype 't opened = Opened 't | Open_Failed int "'t option"

record ('d, 't) backup_api =
  bk_open :: "byte list \<Rightarrow> 't opened"
  bk_diagnosis :: "'t \<Rightarrow> sqlite_diagnosis"
  bk_init :: "'d \<Rightarrow> 't \<Rightarrow> bool \<times> 't"
  bk_errcode :: "'t \<Rightarrow> int"
  bk_step :: "'d \<Rightarrow> 't \<Rightarrow> int \<times> 't"
  bk_finish :: "'t \<Rightarrow> int \<times> 't"
  bk_close :: "'t \<Rightarrow> int"

abbreviation "BKP \<equiv> ESDB_PHASE_BACKUP"

text \<open>\<open>fail\<close> with another handle than the connection's own.\<close>

definition fail_on ::
  "'d sqlite \<Rightarrow> sqlite_diagnosis option \<Rightarrow> esdb_status \<Rightarrow> esdb_phase \<Rightarrow> int \<Rightarrow> string option
   \<Rightarrow> ('d, 'a) action" where
  "fail_on E dg status phase sqlite_code message cn =
     (case fail_with (set_error (sq_errstr E) dg status phase sqlite_code message) (cn_metrics cn) of
        (r, m) \<Rightarrow> (r, cn\<lparr>cn_metrics := m\<rparr>))"

definition is_busy :: "int \<Rightarrow> bool" where
  "is_busy rc \<longleftrightarrow> rc = SQLITE_BUSY \<or> rc = SQLITE_LOCKED"

text \<open>
  \<open>do ... while\<close>: the answer is the last code and the target, with the retries counted; more
  than 200 busy answers end the loop.
\<close>

fun backup_loop ::
  "nat \<Rightarrow> ('d, 't) backup_api \<Rightarrow> 'd \<Rightarrow> nat \<Rightarrow> 't \<Rightarrow> (int \<times> 't) option" where
  "backup_loop 0 B d retries t = None"
| "backup_loop (Suc fuel) B d retries t =
     (case bk_step B d t of
        (rc, t) \<Rightarrow>
          if is_busy rc
          then if 200 < Suc retries then Some (rc, t) else backup_loop fuel B d (Suc retries) t
          else if rc = SQLITE_OK then backup_loop fuel B d retries t
          else Some (rc, t))"

definition backup_failure :: "'d sqlite \<Rightarrow> sqlite_diagnosis option \<Rightarrow> int \<Rightarrow> string option \<Rightarrow> ('d, 'a) action" where
  "backup_failure E dg rc message = fail_on E dg (map_sqlite_status rc) BKP rc message"

text \<open>The answer carries the target as the backup left it; \<open>None\<close> is running out of fuel.\<close>

definition backup_to ::
  "nat \<Rightarrow> 'd sqlite \<Rightarrow> ('d, 't) backup_api \<Rightarrow> byte list \<Rightarrow> ('d, 't option) action" where
  "backup_to fuel E B path cn =
     (case bk_open B path of
        Open_Failed rc target \<Rightarrow> backup_failure E (map_option (bk_diagnosis B) target) rc None cn
      | Opened t \<Rightarrow>
         (case bk_init B (cn_db cn) t of
            (False, t) \<Rightarrow> backup_failure E (Some (bk_diagnosis B t)) (bk_errcode B t) None cn
          | (True, t) \<Rightarrow>
             (case backup_loop fuel B (cn_db cn) 0 t of
                None \<Rightarrow> give None cn
              | Some (rc, t) \<Rightarrow>
                 (case bk_finish B t of
                    (finish_rc, t) \<Rightarrow>
                      let rc = (if finish_rc \<noteq> SQLITE_OK then finish_rc else rc) in
                      if rc \<noteq> SQLITE_OK \<and> rc \<noteq> SQLITE_DONE
                      then backup_failure E (Some (bk_diagnosis B t)) rc None cn
                      else
                       let rc = bk_close B t in
                       if rc \<noteq> SQLITE_OK
                       then backup_failure E (Some (bk_diagnosis B t)) rc
                              (Some ''failed to close backup database'') cn
                       else give (Some t) cn))))"

definition esdb_backup_to ::
  "nat \<Rightarrow> 'd sqlite \<Rightarrow> ('d, 't) backup_api \<Rightarrow> byte list option \<Rightarrow> 'd session option
   \<Rightarrow> 't option outcome \<times> 'd session option" where
  "esdb_backup_to fuel E B path =
     on_session (null_database E BKP SQLITE_MISUSE ''database and target path are required'')
       (counted (in_connection (if path = None \<or> c_bytes (the path) = []
          then cn_fail E ESDB_ERR_INVALID_ARGUMENT BKP SQLITE_MISUSE
                 (Some ''database and target path are required'')
          else backup_to fuel E B (c_bytes (the path)))))"

end
