(* ===== verification/Runtime_Rules.thy ===== *)
theory Runtime_Rules
  imports Runtime
begin

text \<open>
  What each operation of the runtime does to the state that matters for transactions: the view
  the engine gives the connection, the flags, the names of the savepoints and the transaction
  objects. Counters and recorded errors are left out of this state.
\<close>

section \<open>Actions that leave the transaction state alone\<close>

definition same_flags :: "'d connection \<Rightarrow> 'd connection \<Rightarrow> bool" where
  "same_flags cn cn' \<longleftrightarrow> cn_transaction_active cn' = cn_transaction_active cn \<and>
     cn_savepoints cn' = cn_savepoints cn \<and> cn_active_transaction cn' = cn_active_transaction cn"

definition leaves_flags :: "('d, 'a) action \<Rightarrow> bool" where
  "leaves_flags m \<longleftrightarrow> (\<forall>cn. same_flags cn (snd (m cn)))"

lemma same_flags_refl [simp]: "same_flags cn cn"
  by (simp add: same_flags_def)

lemma same_flags_trans: "same_flags a b \<Longrightarrow> same_flags b c \<Longrightarrow> same_flags a c"
  by (simp add: same_flags_def)

lemma leaves_flagsD: "leaves_flags m \<Longrightarrow> m cn = (r, cn') \<Longrightarrow> same_flags cn cn'"
  by (metis leaves_flags_def snd_conv)

lemma leaves_chain: "leaves_flags m \<Longrightarrow> (\<And>x. leaves_flags (f x)) \<Longrightarrow> leaves_flags (chain m f)"
  by (auto simp: leaves_flags_def chain_def split: prod.splits outcome.splits) (metis same_flags_trans snd_conv)+

lemma leaves_if: "leaves_flags m \<Longrightarrow> leaves_flags m' \<Longrightarrow> leaves_flags (if c then m else m')"
  by simp

lemma leaves_option: "leaves_flags m \<Longrightarrow> (\<And>x. leaves_flags (f x)) \<Longrightarrow> leaves_flags (case c of None \<Rightarrow> m | Some x \<Rightarrow> f x)"
  by (cases c) simp_all

lemma leaves_base:
  "leaves_flags (give x)" "leaves_flags (cn_fail E st ph c msg)" "leaves_flags (exec_sql E sql ph)"
  "leaves_flags (prepare E sql ph)" "leaves_flags (step E ph statement)" "leaves_flags (bind_value E i v ph statement)"
  by (auto simp: leaves_flags_def same_flags_def give_def cn_fail_def fail_with_def exec_sql_def prepare_def step_def
      bind_value_def Let_def split: prod.splits)

section \<open>The core of a session\<close>

record 'c core =
  co_view :: "'c tx_view"
  co_active :: bool
  co_current :: "nat option"
  co_names :: "byte list list"
  co_objects :: "nat \<Rightarrow> bool option"

definition core_of :: "('d \<Rightarrow> 'c tx_view) \<Rightarrow> 'd session \<Rightarrow> 'c core" where
  "core_of view s =
     (let cn = ss_connection s in
      \<lparr>co_view = view (cn_db cn), co_active = cn_transaction_active cn,
       co_current = cn_active_transaction cn, co_names = cn_savepoints cn,
       co_objects = ss_transactions s\<rparr>)"

lemma core_of_metrics [simp]: "core_of view (on_connection (metrics_only f) s) = core_of view s"
  by (simp add: core_of_def on_connection_def metrics_only_def Let_def)

lemma core_of_set_active [simp]: "core_of view (set_active b s) = (core_of view s)\<lparr>co_active := b\<rparr>"
  by (simp add: core_of_def on_connection_def set_active_def Let_def)

lemma core_of_forget [simp]:
  "core_of view (forget_transaction i s) = (core_of view s)
     \<lparr>co_names := [],
      co_current := (if co_current (core_of view s) = Some i then None else co_current (core_of view s)),
      co_objects := (co_objects (core_of view s))(i \<mapsto> False)\<rparr>"
  by (simp add: core_of_def on_connection_def forget_transaction_def Let_def)

lemma core_of_fields:
  "cn_transaction_active (ss_connection s) = co_active (core_of view s)"
  "ss_transactions s = co_objects (core_of view s)"
  "cn_savepoints (ss_connection s) = co_names (core_of view s)"
  "view (cn_db (ss_connection s)) = co_view (core_of view s)"
  by (simp_all add: core_of_def Let_def)

lemma in_connection_fail:
  "in_connection (cn_fail E st ph c m) s = (r, s') \<Longrightarrow> core_of view s' = core_of view s \<and> (\<exists>e. r = Failed st e)"
  by (auto simp: in_connection_def cn_fail_def fail_with_def core_of_def Let_def)

lemma in_connection_fail_not_Done [simp]: "in_connection (cn_fail E st ph c m) s \<noteq> (Done x, s')"
  by (auto simp: in_connection_def cn_fail_def fail_with_def Let_def)

lemma in_connection_exec:
  assumes "in_connection (exec_sql E sql ph) s = (r, s')"
  obtains rc m d where "sq_exec E sql (cn_db (ss_connection s)) = (rc, m, d)"
    and "core_of view s' = (core_of view s)\<lparr>co_view := view d\<rparr>"
    and "cn_db (ss_connection s') = d"
    and "if rc = SQLITE_OK then r = Done () else \<exists>e. r = Failed (map_sqlite_status rc) e"
proof -
  obtain rc m d where "sq_exec E sql (cn_db (ss_connection s)) = (rc, m, d)"
    by (metis prod_cases3)
  with assms that show ?thesis
    by (auto simp: in_connection_def exec_sql_def cn_fail_def fail_with_def core_of_def Let_def split: if_splits)
qed

abbreviation push_frame :: "frame \<Rightarrow> 'c tx_view \<Rightarrow> 'c tx_view" where
  "push_frame f v \<equiv> v\<lparr>v_frames := (f, v_now v) # v_frames v\<rparr>"

text \<open>The state after the transaction of object \<open>i\<close> has ended with view \<open>v\<close>.\<close>

definition ended :: "nat \<Rightarrow> 'c tx_view \<Rightarrow> 'c core \<Rightarrow> 'c core" where
  "ended i v c =
     c\<lparr>co_view := v, co_active := False, co_names := [],
       co_current := (if co_current c = Some i then None else co_current c),
       co_objects := (co_objects c)(i \<mapsto> False)\<rparr>"

section \<open>Names in SQL texts\<close>

lemma savepoint_char_plain: "savepoint_char b \<Longrightarrow> plain_char (char_of (unat b))"
proof -
  assume a: "savepoint_char b"
  have "unat b < 256" using unsigned_less [of b] by simp
  then have "of_char (char_of (unat b) :: char) = unat b" by simp
  moreover have "char_of (95 :: nat) = CHR ''_''" by code_simp
  ultimately show ?thesis using a
    by (auto simp: savepoint_char_def plain_char_def less_eq_char_def word_le_nat_alt)
qed

lemma valid_name_plain:
  assumes "valid_savepoint_name (Some t)"
  shows "plain_name (chars (c_bytes t))" "length (c_bytes t) \<le> 64"
  using assms savepoint_char_plain
  by (auto simp: savepoint_name_iff plain_name_def chars_def list_all_iff)

text \<open>The buffers of 128 and 160 bytes hold every text a valid name gives.\<close>

lemma savepoint_buffers:
  assumes "length name \<le> 64"
  shows "snprintf_text 128 (savepoint_sql (chars name)) = savepoint_sql (chars name)"
    "snprintf_text 128 (release_sql (chars name)) = release_sql (chars name)"
    "snprintf_text 160 (undo_sql (chars name)) = undo_sql (chars name)"
  using assms by (simp_all add: snprintf_text_def savepoint_sql_def release_sql_def undo_sql_def chars_def)

text \<open>The innermost frame carries the name, or no savepoint is open at all.\<close>

definition top_or_none :: "byte list \<Rightarrow> 'c tx_view \<Rightarrow> bool" where
  "top_or_none name v \<longleftrightarrow> (\<exists>c fs. v_frames v = (F_Savepoint (chars name), c) # fs) \<or> no_savepoint v"

section \<open>Operations\<close>

context sql_transactions
begin

abbreviation C :: "'d session \<Rightarrow> 'c core" where "C \<equiv> core_of view"

lemma autocommit_core: "sq_autocommit E (cn_db (ss_connection s)) \<longleftrightarrow> v_frames (co_view (C s)) = []"
  by (simp add: autocommit core_of_def Let_def)

text \<open>The rollback after a failed allocation, whose outcome is ignored.\<close>

lemma unallocated_core:
  assumes "in_connection (cn_fail E ESDB_ERR_OUT_OF_MEMORY TX SQLITE_NOMEM (Some ''transaction allocation failed''))
      (set_active False (snd (in_connection (exec_sql E SQL_ROLLBACK TX) (set_active True s1)))) = (r, s')"
    and "C s1 = c\<lparr>co_view := push_frame F_Begin (co_view c)\<rparr>" and "\<not> co_active c" and "v_frames (co_view c) = []"
  shows "\<exists>e v'. r = Failed ESDB_ERR_OUT_OF_MEMORY e \<and> C s' = c\<lparr>co_view := v'\<rparr> \<and>
    (v' = push_frame F_Begin (co_view c) \<or> v' = co_view c)"
proof -
  obtain r2 s2 where undo: "in_connection (exec_sql E SQL_ROLLBACK TX) (set_active True s1) = (r2, s2)" by fastforce
  from in_connection_exec [OF this, where view = view] obtain rc2 msg2 d2
    where x2: "sq_exec E SQL_ROLLBACK (cn_db (ss_connection (set_active True s1))) = (rc2, msg2, d2)"
      and c2: "C s2 = (C (set_active True s1))\<lparr>co_view := view d2\<rparr>" .
  have "quiet_failure (push_frame F_Begin (co_view c)) (view d2)"
    using rollback_law [OF x2, unfolded core_of_fields(4) [where view = view]] assms(2)
    by (auto simp: quiet_failure_def split: if_splits)
  then have "view d2 = push_frame F_Begin (co_view c) \<or> view d2 = co_view c"
    using assms(4) by (auto simp: quiet_failure_def rolled_back_def committed_def)
  moreover from assms(1) undo have "in_connection (cn_fail E ESDB_ERR_OUT_OF_MEMORY TX SQLITE_NOMEM
      (Some ''transaction allocation failed'')) (set_active False s2) = (r, s')" by simp
  from in_connection_fail [OF this, where view = view]
  obtain e where r: "r = Failed ESDB_ERR_OUT_OF_MEMORY e" and same: "C s' = C (set_active False s2)" by blast
  moreover from same have "C s' = c\<lparr>co_view := view d2\<rparr>" using assms(2,3) c2 by simp
  ultimately show ?thesis by blast
qed

lemma begin_core:
  assumes "begin_transaction E object mode s = (r, s')"
  shows "case r of
      Done i \<Rightarrow> object = Some i \<and> \<not> co_active (C s) \<and> v_frames (co_view (C s)) = [] \<and>
        C s' = (C s)\<lparr>co_view := push_frame F_Begin (co_view (C s)), co_active := True, co_current := Some i,
          co_objects := (co_objects (C s))(i \<mapsto> True)\<rparr>
    | Failed st e \<Rightarrow> \<exists>v'. C s' = (C s)\<lparr>co_view := v'\<rparr> \<and>
        (quiet_failure (co_view (C s)) v' \<or>
         (object = None \<and> \<not> co_active (C s) \<and> v_frames (co_view (C s)) = [] \<and>
          v' = push_frame F_Begin (co_view (C s))))"
proof (cases "co_active (C s) \<or> begin_mode_of mode = None")
  case True
  with assms have same: "C s' = C s" and "\<exists>st e. r = Failed st e"
    unfolding begin_transaction_def core_of_fields(1) [where view = view]
    by (auto split: if_splits option.splits dest!: in_connection_fail [where view = view])
  then obtain st e where r: "r = Failed st e" by blast
  show ?thesis unfolding r outcome.case
    by (rule exI [of _ "co_view (C s)"]) (simp add: same quiet_failure_def)
next
  case False
  then obtain m where m: "begin_mode_of mode = Some m" and idle: "\<not> co_active (C s)" by auto
  obtain r1 s1 where run: "in_connection (exec_sql E (begin_sql m) TX) s = (r1, s1)" by fastforce
  from in_connection_exec [OF run, where view = view] obtain rc msg d
    where x: "sq_exec E (begin_sql m) (cn_db (ss_connection s)) = (rc, msg, d)"
      and c1: "C s1 = (C s)\<lparr>co_view := view d\<rparr>"
      and r1: "if rc = SQLITE_OK then r1 = Done () else \<exists>e. r1 = Failed (map_sqlite_status rc) e" .
  note law = begin_law [OF x, unfolded core_of_fields(4) [where view = view]]
  have view1: "view d = co_view (C s1)" using c1 by simp
  show ?thesis
  proof (cases "rc = SQLITE_OK")
    case False
    with r1 obtain e where r1: "r1 = Failed (map_sqlite_status rc) e" by auto
    have "begin_transaction E object mode s = (Failed (map_sqlite_status rc) e, s1)"
      using run m idle r1 by (simp add: begin_transaction_def core_of_fields(1) [where view = view] chain_def)
    with assms have r: "r = Failed (map_sqlite_status rc) e" and s': "s' = s1" by simp_all
    have "quiet_failure (co_view (C s)) (view d)" using law False by simp
    then show ?thesis unfolding r s' c1 outcome.case by (intro exI [of _ "view d"]) simp
  next
    case True
    with r1 law have r1: "r1 = Done ()" and closed: "v_frames (co_view (C s)) = []"
      and pushed: "view d = push_frame F_Begin (co_view (C s))" by auto
    show ?thesis
    proof (cases object)
      case (Some i)
      let ?s = "(on_connection (\<lambda>cn. cn\<lparr>cn_active_transaction := Some i\<rparr>) (set_active True s1))
          \<lparr>ss_transactions := (ss_transactions (set_active True s1))(i \<mapsto> True)\<rparr>"
      have "begin_transaction E object mode s = (Done i, ?s)"
        using run m idle r1 Some
        by (simp add: begin_transaction_def core_of_fields(1) [where view = view] chain_def Let_def)
      with assms have r: "r = Done i" and s': "s' = ?s" by simp_all
      have "C ?s = (C s1)\<lparr>co_active := True, co_current := Some i, co_objects := (co_objects (C s1))(i \<mapsto> True)\<rparr>"
        by (simp add: core_of_def on_connection_def set_active_def Let_def)
      with c1 pushed closed idle Some show ?thesis unfolding r s' outcome.case by simp
    next
      case None
      with run m idle r1 assms have "in_connection (cn_fail E ESDB_ERR_OUT_OF_MEMORY TX SQLITE_NOMEM
            (Some ''transaction allocation failed''))
          (set_active False (snd (in_connection (exec_sql E SQL_ROLLBACK TX) (set_active True s1)))) = (r, s')"
        by (simp add: begin_transaction_def core_of_fields(1) [where view = view] chain_def Let_def)
      from unallocated_core [OF this c1 [unfolded pushed] idle closed]
      obtain e v' where r: "r = Failed ESDB_ERR_OUT_OF_MEMORY e" and "C s' = (C s)\<lparr>co_view := v'\<rparr>"
        and "v' = push_frame F_Begin (co_view (C s)) \<or> v' = co_view (C s)" by blast
      then show ?thesis
        unfolding r outcome.case using None idle closed by (intro exI [of _ v']) (auto simp: quiet_failure_def)
    qed
  qed
qed

lemma finish_core:
  assumes "finish_transaction E is_commit i s = (r, s')"
  shows "case r of
      Done _ \<Rightarrow> co_objects (C s) i = Some True \<and> v_frames (co_view (C s)) \<noteq> [] \<and>
        C s' = ended i (if is_commit then (co_view (C s))\<lparr>v_frames := []\<rparr>
          else \<lparr>v_now = committed (co_view (C s)), v_frames = []\<rparr>) (C s)
    | Failed st e \<Rightarrow>
        if co_objects (C s) i \<noteq> Some True then C s' = C s
        else \<exists>v'. quiet_failure (co_view (C s)) v' \<and>
          C s' = (if v_frames v' = [] then ended i v' (C s) else (C s)\<lparr>co_view := v', co_active := True\<rparr>)"
proof (cases "co_objects (C s) i = Some True")
  case False
  with assms show ?thesis
    unfolding finish_transaction_def core_of_fields(2) [where view = view]
    by (auto dest!: in_connection_fail [where view = view])
next
  case True
  let ?sql = "if is_commit then SQL_COMMIT else SQL_ROLLBACK"
  obtain r1 s1 where run: "in_connection (exec_sql E ?sql TX) s = (r1, s1)" by fastforce
  from in_connection_exec [OF run, where view = view] obtain rc msg d
    where x: "sq_exec E ?sql (cn_db (ss_connection s)) = (rc, msg, d)"
      and c1: "C s1 = (C s)\<lparr>co_view := view d\<rparr>"
      and r1: "if rc = SQLITE_OK then r1 = Done () else \<exists>e. r1 = Failed (map_sqlite_status rc) e" .
  have law: "if rc = SQLITE_OK
      then v_frames (co_view (C s)) \<noteq> [] \<and> view d = (if is_commit then (co_view (C s))\<lparr>v_frames := []\<rparr>
          else \<lparr>v_now = committed (co_view (C s)), v_frames = []\<rparr>)
      else quiet_failure (co_view (C s)) (view d)"
    using x commit_law [of "cn_db (ss_connection s)" rc msg d] rollback_law [of "cn_db (ss_connection s)" rc msg d]
    unfolding core_of_fields(4) [where view = view] by (auto simp: rolled_back_def split: if_splits)
  note open_object = True
  show ?thesis
  proof (cases "rc = SQLITE_OK")
    case True
    with r1 have "r1 = Done ()" by simp
    with assms run open_object c1 law True show ?thesis
      by (auto simp: finish_transaction_def core_of_fields(2) [where view = view] ended_def)
  next
    case False
    with r1 obtain e where r1: "r1 = Failed (map_sqlite_status rc) e" by auto
    have "sq_autocommit E (cn_db (ss_connection s1)) \<longleftrightarrow> v_frames (view d) = []"
      using c1 by (simp add: autocommit_core)
    moreover have "finish_transaction E is_commit i s = (r1,
        if sq_autocommit E (cn_db (ss_connection s1)) then forget_transaction i (set_active False s1)
        else set_active True s1)"
      using open_object run r1
      by (simp add: finish_transaction_def core_of_fields(2) [where view = view] Let_def)
    ultimately have "r = r1" and s': "s' = (if v_frames (view d) = [] then forget_transaction i (set_active False s1)
        else set_active True s1)"
      using assms by auto
    have "C s' = (if v_frames (view d) = [] then ended i (view d) (C s)
        else (C s)\<lparr>co_view := view d, co_active := True\<rparr>)"
      unfolding s' using c1 by (simp add: ended_def)
    with \<open>r = r1\<close> r1 law False open_object show ?thesis by auto
  qed
qed

lemma failed_core: "in_connection (cn_fail E st ph c m) s = (r, s') \<Longrightarrow>
    \<exists>e v'. r = Failed st e \<and> quiet_failure (co_view (C s)) v' \<and> C s' = (C s)\<lparr>co_view := v'\<rparr>"
  by (auto simp: quiet_failure_def dest!: in_connection_fail [where view = view]
      intro!: exI [of _ "co_view (C s)"])

lemma savepoint_begin_core:
  assumes "savepoint_begin E name s = (r, s')" and "plain_name (chars name)" and "length name \<le> 64"
  shows "case r of
      Done _ \<Rightarrow> co_active (C s) \<and> length (co_names (C s)) < SAVEPOINT_CAPACITY \<and>
        C s' = (C s)\<lparr>co_view := push_frame (F_Savepoint (chars name)) (co_view (C s)),
          co_names := co_names (C s) @ [name]\<rparr>
    | Failed st e \<Rightarrow> \<exists>v'. quiet_failure (co_view (C s)) v' \<and> C s' = (C s)\<lparr>co_view := v'\<rparr>"
proof (cases "co_active (C s) \<and> length (co_names (C s)) < SAVEPOINT_CAPACITY")
  case False
  with assms(1) show ?thesis
    unfolding savepoint_begin_def core_of_fields [where view = view]
    by (auto dest!: failed_core split: if_splits)
next
  case True
  obtain r1 s1 where run: "in_connection (exec_sql E (savepoint_sql (chars name)) SVP) s = (r1, s1)" by fastforce
  from in_connection_exec [OF run, where view = view] obtain rc msg d
    where x: "sq_exec E (savepoint_sql (chars name)) (cn_db (ss_connection s)) = (rc, msg, d)"
      and c1: "C s1 = (C s)\<lparr>co_view := view d\<rparr>"
      and r1: "if rc = SQLITE_OK then r1 = Done () else \<exists>e. r1 = Failed (map_sqlite_status rc) e" .
  note law = savepoint_law [OF x assms(2), unfolded core_of_fields(4) [where view = view]]
  have named: "C (on_connection (\<lambda>cn. cn\<lparr>cn_savepoints := cn_savepoints cn @ [name]\<rparr>) s1) =
      (C s1)\<lparr>co_names := co_names (C s1) @ [name]\<rparr>"
    by (simp add: core_of_def on_connection_def Let_def)
  have "savepoint_begin E name s = chain (\<lambda>_. (r1, s1)) (\<lambda>_ s.
      give () (on_connection (\<lambda>cn. cn\<lparr>cn_savepoints := cn_savepoints cn @ [name]\<rparr>) s)) s"
    using True run assms(3)
    by (simp add: savepoint_begin_def core_of_fields [where view = view] savepoint_buffers chain_def)
  with assms(1) have "chain (\<lambda>_. (r1, s1)) (\<lambda>_ s.
      give () (on_connection (\<lambda>cn. cn\<lparr>cn_savepoints := cn_savepoints cn @ [name]\<rparr>) s)) s = (r, s')" by simp
  with r1 law c1 True named show ?thesis
    by (cases "rc = SQLITE_OK") (auto simp: chain_def give_def intro!: exI [of _ "view d"])
qed

lemma pop_core: "C (pop_savepoint s) = (C s)\<lparr>co_names := butlast (co_names (C s))\<rparr>"
  by (simp add: core_of_def on_connection_def pop_savepoint_def Let_def)

lemma not_on_top_core: "not_on_top name s \<longleftrightarrow> co_names (C s) = [] \<or> last (co_names (C s)) \<noteq> name"
  by (simp add: not_on_top_def core_of_def Let_def)

lemma popped_core:
  assumes "chain (in_connection (exec_sql E sql ph)) (\<lambda>_ s. give () (pop_savepoint s)) s = (r, s')"
    and "\<And>rc m d. sq_exec E sql (cn_db (ss_connection s)) = (rc, m, d) \<Longrightarrow>
      if rc = SQLITE_OK then good (view d) else bad (view d)"
  shows "case r of
      Done _ \<Rightarrow> \<exists>v'. good v' \<and> C s' = (C s)\<lparr>co_view := v', co_names := butlast (co_names (C s))\<rparr>
    | Failed st e \<Rightarrow> \<exists>v'. bad v' \<and> C s' = (C s)\<lparr>co_view := v'\<rparr>"
proof -
  obtain r1 s1 where run: "in_connection (exec_sql E sql ph) s = (r1, s1)" by fastforce
  from in_connection_exec [OF run, where view = view] obtain rc msg d
    where x: "sq_exec E sql (cn_db (ss_connection s)) = (rc, msg, d)"
      and c1: "C s1 = (C s)\<lparr>co_view := view d\<rparr>"
      and r1: "if rc = SQLITE_OK then r1 = Done () else \<exists>e. r1 = Failed (map_sqlite_status rc) e" .
  from assms(1) run r1 assms(2) [OF x] c1 show ?thesis
    by (cases "rc = SQLITE_OK") (auto simp: chain_def give_def pop_core intro!: exI [of _ "view d"])
qed

lemma savepoint_release_core:
  assumes "savepoint_release E name s = (r, s')" and "plain_name (chars name)" and "length name \<le> 64"
    and "top_or_none name (co_view (C s))"
  shows "case r of
      Done _ \<Rightarrow> co_names (C s) \<noteq> [] \<and> last (co_names (C s)) = name \<and>
        (\<exists>c fs. v_frames (co_view (C s)) = (F_Savepoint (chars name), c) # fs \<and>
           C s' = (C s)\<lparr>co_view := (co_view (C s))\<lparr>v_frames := fs\<rparr>, co_names := butlast (co_names (C s))\<rparr>)
    | Failed st e \<Rightarrow> \<exists>v'. quiet_failure (co_view (C s)) v' \<and> C s' = (C s)\<lparr>co_view := v'\<rparr>"
proof (cases "not_on_top name s")
  case True
  with assms(1) show ?thesis
    by (auto simp: savepoint_release_def dest!: failed_core)
next
  case False
  with assms(1,3) have run: "chain (in_connection (exec_sql E (release_sql (chars name)) SVP))
      (\<lambda>_ s. give () (pop_savepoint s)) s = (r, s')"
    by (simp add: savepoint_release_def savepoint_buffers)
  have "case r of
      Done _ \<Rightarrow> \<exists>v'. (\<exists>c fs. v_frames (co_view (C s)) = (F_Savepoint (chars name), c) # fs \<and>
          v' = (co_view (C s))\<lparr>v_frames := fs\<rparr>) \<and>
        C s' = (C s)\<lparr>co_view := v', co_names := butlast (co_names (C s))\<rparr>
    | Failed st e \<Rightarrow> \<exists>v'. quiet_failure (co_view (C s)) v' \<and> C s' = (C s)\<lparr>co_view := v'\<rparr>"
  proof (rule popped_core [OF run])
    fix rc m d
    assume x: "sq_exec E (release_sql (chars name)) (cn_db (ss_connection s)) = (rc, m, d)"
    from assms(4) consider c fs where "v_frames (co_view (C s)) = (F_Savepoint (chars name), c) # fs"
      | "no_savepoint (co_view (C s))" by (auto simp: top_or_none_def)
    then show "if rc = SQLITE_OK
        then \<exists>c fs. v_frames (co_view (C s)) = (F_Savepoint (chars name), c) # fs \<and>
          view d = (co_view (C s))\<lparr>v_frames := fs\<rparr>
        else quiet_failure (co_view (C s)) (view d)"
    proof cases
      case 1
      with release_law [OF x assms(2), unfolded core_of_fields(4) [where view = view]] show ?thesis by auto
    next
      case 2
      with release_missing_law [OF x assms(2), unfolded core_of_fields(4) [where view = view]] show ?thesis by auto
    qed
  qed
  with False show ?thesis
    by (auto simp: not_on_top_core split: outcome.splits)
qed

lemma savepoint_rollback_core:
  assumes "savepoint_rollback E name s = (r, s')" and "plain_name (chars name)" and "length name \<le> 64"
    and "top_or_none name (co_view (C s))"
  shows "case r of
      Done _ \<Rightarrow> co_names (C s) \<noteq> [] \<and> last (co_names (C s)) = name \<and>
        (\<exists>c fs. v_frames (co_view (C s)) = (F_Savepoint (chars name), c) # fs \<and>
           C s' = (C s)\<lparr>co_view := \<lparr>v_now = c, v_frames = fs\<rparr>, co_names := butlast (co_names (C s))\<rparr>)
    | Failed st e \<Rightarrow> \<exists>v'. C s' = (C s)\<lparr>co_view := v'\<rparr> \<and>
        (quiet_failure (co_view (C s)) v' \<or>
         v_frames (co_view (C s)) \<noteq> [] \<and> frame_failure (co_view (C s)) v')"
proof (cases "not_on_top name s")
  case True
  with assms(1) show ?thesis
    by (auto simp: savepoint_rollback_def dest!: failed_core)
next
  case False
  with assms(1,3) have run: "chain (in_connection (exec_sql E (undo_sql (chars name)) SVP))
      (\<lambda>_ s. give () (pop_savepoint s)) s = (r, s')"
    by (simp add: savepoint_rollback_def savepoint_buffers)
  let ?bad = "\<lambda>v'. quiet_failure (co_view (C s)) v' \<or>
      v_frames (co_view (C s)) \<noteq> [] \<and> frame_failure (co_view (C s)) v'"
  have "case r of
      Done _ \<Rightarrow> \<exists>v'. (\<exists>c fs. v_frames (co_view (C s)) = (F_Savepoint (chars name), c) # fs \<and>
          v' = \<lparr>v_now = c, v_frames = fs\<rparr>) \<and>
        C s' = (C s)\<lparr>co_view := v', co_names := butlast (co_names (C s))\<rparr>
    | Failed st e \<Rightarrow> \<exists>v'. ?bad v' \<and> C s' = (C s)\<lparr>co_view := v'\<rparr>"
  proof (rule popped_core [OF run])
    fix rc m d
    assume x: "sq_exec E (undo_sql (chars name)) (cn_db (ss_connection s)) = (rc, m, d)"
    from assms(4) consider c fs where "v_frames (co_view (C s)) = (F_Savepoint (chars name), c) # fs"
      | "no_savepoint (co_view (C s))" by (auto simp: top_or_none_def)
    then show "if rc = SQLITE_OK
        then \<exists>c fs. v_frames (co_view (C s)) = (F_Savepoint (chars name), c) # fs \<and>
          view d = \<lparr>v_now = c, v_frames = fs\<rparr>
        else ?bad (view d)"
    proof cases
      case 1
      with undo_law [OF x assms(2), unfolded core_of_fields(4) [where view = view]] show ?thesis by auto
    next
      case 2
      with undo_missing_law [OF x assms(2), unfolded core_of_fields(4) [where view = view]] show ?thesis by auto
    qed
  qed
  with False show ?thesis
    by (auto simp: not_on_top_core split: outcome.splits)
qed

lemma sync_core: "C (sync_transaction_state E s) =
    (if v_frames (co_view (C s)) = []
     then (C s)\<lparr>co_active := False, co_names := [], co_current := None,
       co_objects := (case co_current (C s) of None \<Rightarrow> co_objects (C s)
         | Some i \<Rightarrow> set_inactive i (co_objects (C s)))\<rparr>
     else (C s)\<lparr>co_active := True\<rparr>)"
proof -
  have "sync_transaction_state E s =
    (let cn = ss_connection s in
     if v_frames (co_view (C s)) = []
     then s\<lparr>ss_connection := cn\<lparr>cn_transaction_active := False, cn_savepoints := [],
              cn_active_transaction := None\<rparr>,
            ss_transactions := (case cn_active_transaction cn of
                None \<Rightarrow> ss_transactions s | Some i \<Rightarrow> set_inactive i (ss_transactions s))\<rparr>
     else s\<lparr>ss_connection := cn\<lparr>cn_transaction_active := True\<rparr>\<rparr>)"
    by (simp add: sync_transaction_state_def autocommit_core Let_def)
  then show ?thesis
    by (simp add: core_of_def Let_def split: option.split)
qed

lemma destroy_core:
  "\<exists>v'. C (destroy_transaction E i s) =
     (let c = (if co_objects (C s) i = Some True then
          if v_frames v' = [] then ended i v' (C s) else (C s)\<lparr>co_view := v', co_active := True\<rparr>
        else C s)
      in c\<lparr>co_objects := (co_objects c)(i := None)\<rparr>) \<and> quiet_failure (co_view (C s)) v'"
proof -
  let ?s1 = "if ss_transactions s i = Some True then snd (finish_transaction E False i s) else s"
  have removed: "C (s1\<lparr>ss_transactions := (ss_transactions s1)(i := None)\<rparr>) =
      (C s1)\<lparr>co_objects := (co_objects (C s1))(i := None)\<rparr>" for s1 :: "'d session"
    by (simp add: core_of_def Let_def)
  have d: "C (destroy_transaction E i s) = (C ?s1)\<lparr>co_objects := (co_objects (C ?s1))(i := None)\<rparr>"
    unfolding destroy_transaction_def Let_def by (rule removed)
  show ?thesis
  proof (cases "co_objects (C s) i = Some True")
    case False
    then have "C ?s1 = C s" by (simp add: core_of_fields(2) [where view = view])
    with d False show ?thesis
      by (intro exI [of _ "co_view (C s)"]) (simp add: quiet_failure_def Let_def)
  next
    case True
    obtain r s1 where f: "finish_transaction E False i s = (r, s1)" by fastforce
    then have s1: "?s1 = s1" using True by (simp add: core_of_fields(2) [where view = view])
    have "\<exists>v'. quiet_failure (co_view (C s)) v' \<and>
        C s1 = (if v_frames v' = [] then ended i v' (C s) else (C s)\<lparr>co_view := v', co_active := True\<rparr>)"
    proof (cases r)
      case (Done u)
      with finish_core [OF f] show ?thesis
        by (intro exI [of _ "\<lparr>v_now = committed (co_view (C s)), v_frames = []\<rparr>"])
          (auto simp: quiet_failure_def rolled_back_def)
    next
      case (Failed st e)
      with finish_core [OF f] True show ?thesis by auto
    qed
    then obtain v' where "quiet_failure (co_view (C s)) v'"
      and "C s1 = (if v_frames v' = [] then ended i v' (C s) else (C s)\<lparr>co_view := v', co_active := True\<rparr>)"
      by blast
    with d s1 True show ?thesis
      by (intro exI [of _ v']) (simp add: Let_def)
  qed
qed

end

end
