(* ===== verification/Runtime_Query.thy ===== *)
theory Runtime_Query
  imports Runtime
begin

text \<open>
  The typed single-statement query of src/esdb_runtime.cpp (\<open>esdb_query\<close>): values bound as
  parameters, rows decoded to values and shown to a callback, the transaction flags brought
  back in step with SQLite afterwards.
\<close>

section \<open>What else of SQLite is called\<close>

text \<open>
  On a text that prepared: the rest after its first statement (\<open>pzTail\<close>, possibly null), whether
  there was a statement at all, how many parameters it has, whether it only reads, and the
  names of its columns. \<open>qa_changes\<close> is \<open>sqlite3_changes64\<close>.
\<close>

record 'd query_api =
  qa_tail :: "string \<Rightarrow> 'd \<Rightarrow> byte list option"
  qa_statement :: "string \<Rightarrow> 'd \<Rightarrow> bool"
  qa_parameter_count :: "string \<Rightarrow> 'd \<Rightarrow> int"
  qa_readonly :: "string \<Rightarrow> 'd \<Rightarrow> bool"
  qa_columns :: "string \<Rightarrow> 'd \<Rightarrow> string option list"
  qa_changes :: "'d \<Rightarrow> int"

abbreviation "EXEC \<equiv> ESDB_PHASE_EXEC"

section \<open>Parameters\<close>

fun query_tail_is_empty :: "byte list \<Rightarrow> bool" where
  "query_tail_is_empty [] = True"
| "query_tail_is_empty (c # cs) =
     (if c = 0 then True
      else if c \<noteq> 32 \<and> c \<noteq> 9 \<and> c \<noteq> 13 \<and> c \<noteq> 10 \<and> c \<noteq> 12 \<and> c \<noteq> 11 then False
      else query_tail_is_empty cs)"

text \<open>\<open>std::isnan\<close> on the bits of a double.\<close>

definition is_nan :: "u64 \<Rightarrow> bool" where
  "is_nan bits \<longleftrightarrow> drop_bit 52 bits AND 0x7ff = 0x7ff \<and> bits AND 0xfffffffffffff \<noteq> 0"

text \<open>What a value is bound as, or the status and message it is refused with.\<close>

definition parameter_value :: "esdb_value option \<Rightarrow> (esdb_status \<times> string) + sql_value" where
  "parameter_value v =
     (let type = esdb_value_type_of v in
      if type = ESDB_VALUE_NULL then Inr Sql_Null
      else if type = ESDB_VALUE_BOOL then
       (case esdb_value_get_bool v True of
          Failed _ _ \<Rightarrow> Inl (ESDB_ERR_TYPE_MISMATCH, ''invalid BOOL query parameter'')
        | Done x \<Rightarrow> Inr (Sql_Int (if x \<noteq> 0 then 1 else 0)))
      else if type = ESDB_VALUE_INT32 then
       (case esdb_value_get_int32 v True of
          Failed _ _ \<Rightarrow> Inl (ESDB_ERR_TYPE_MISMATCH, ''invalid INT32 query parameter'')
        | Done x \<Rightarrow> Inr (Sql_Int (sint x)))
      else if type = ESDB_VALUE_INT64 then
       (case esdb_value_get_int64 v True of
          Failed _ _ \<Rightarrow> Inl (ESDB_ERR_TYPE_MISMATCH, ''invalid INT64 query parameter'')
        | Done x \<Rightarrow> Inr (Sql_Int (sint x)))
      else if type = ESDB_VALUE_DOUBLE then
       (case esdb_value_get_double v True of
          Failed _ _ \<Rightarrow> Inl (ESDB_ERR_TYPE_MISMATCH, ''invalid DOUBLE query parameter'')
        | Done x \<Rightarrow>
            if is_nan x
            then Inl (ESDB_ERR_UNSUPPORTED, ''NaN DOUBLE query parameters are not representable by SQLite'')
            else Inr (Sql_Real x))
      else if type \<in> {ESDB_VALUE_UTF8, ESDB_VALUE_ARRAY, ESDB_VALUE_OBJECT, ESDB_VALUE_BYTES} then
       (case esdb_value_get_data v True True of
          Failed _ _ \<Rightarrow> Inl (ESDB_ERR_TYPE_MISMATCH, ''invalid query parameter payload'')
        | Done (data, n) \<Rightarrow>
            let payload = (case data of None \<Rightarrow> [] | Some bs \<Rightarrow> take (unat n) bs) in
            Inr (if type = ESDB_VALUE_BYTES then Sql_Blob payload else Sql_Text payload))
      else Inl (ESDB_ERR_UNSUPPORTED, ''unsupported query parameter type''))"

definition esdb_query_bind_value ::
  "'d sqlite \<Rightarrow> nat \<Rightarrow> esdb_value option \<Rightarrow> statement \<Rightarrow> ('d, statement) action" where
  "esdb_query_bind_value E index v st =
     (if v = None
      then cn_fail E ESDB_ERR_INVALID_ARGUMENT EXEC SQLITE_MISUSE (Some ''query parameter value is null'')
      else case parameter_value v of
        Inl (status, message) \<Rightarrow> cn_fail E status EXEC SQLITE_MISMATCH (Some message)
      | Inr sql \<Rightarrow> bind_value E index sql EXEC st)"

fun bind_parameters ::
  "'d sqlite \<Rightarrow> nat \<Rightarrow> esdb_value option list \<Rightarrow> statement \<Rightarrow> ('d, statement) action" where
  "bind_parameters E index [] st = give st"
| "bind_parameters E index (v # vs) st =
     chain (esdb_query_bind_value E index v st) (bind_parameters E (Suc index) vs)"

section \<open>Rows\<close>

text \<open>
  A text or blob column may not be available for want of memory (\<open>fetched\<close>). A value that does
  not decode is reported with the message of its constructor.
\<close>

definition decode_failure :: "'d sqlite \<Rightarrow> esdb_status \<Rightarrow> esdb_error \<Rightarrow> ('d, 'a) action" where
  "decode_failure E status e =
     cn_fail E status EXEC
       (if status = ESDB_ERR_OUT_OF_MEMORY then SQLITE_NOMEM
        else if status = ESDB_ERR_INVALID_ARGUMENT then SQLITE_MISMATCH else SQLITE_ERROR)
       (Some (if err_message e \<noteq> [] then err_message e else ''failed to decode query result column''))"

definition column_outcome :: "value_alloc \<Rightarrow> sql_value \<Rightarrow> esdb_value outcome" where
  "column_outcome alloc v =
     (case v of
        Sql_Null \<Rightarrow> esdb_value_create_null alloc True
      | Sql_Int n \<Rightarrow> esdb_value_create_int64 alloc (of_int n) True
      | Sql_Real bits \<Rightarrow> esdb_value_create_double alloc bits True
      | Sql_Text t \<Rightarrow> esdb_value_create_text alloc ESDB_VALUE_UTF8 (Some t) (of_nat (length t)) True
      | Sql_Blob bs \<Rightarrow> esdb_value_create_bytes alloc (Some bs) (of_nat (length bs)) True)"

definition unavailable :: "bool \<Rightarrow> sql_value \<Rightarrow> string option" where
  "unavailable fetched v =
     (case v of
        Sql_Text t \<Rightarrow> if \<not> fetched \<and> t \<noteq> [] then Some ''SQLite could not materialize TEXT column'' else None
      | Sql_Blob bs \<Rightarrow> if \<not> fetched \<and> bs \<noteq> [] then Some ''SQLite could not materialize BLOB column'' else None
      | _ \<Rightarrow> None)"

definition esdb_query_column_value ::
  "'d sqlite \<Rightarrow> value_alloc \<Rightarrow> bool \<Rightarrow> statement \<Rightarrow> nat \<Rightarrow> ('d, esdb_value) action" where
  "esdb_query_column_value E alloc fetched st i =
     (case unavailable fetched (column st i) of
        Some message \<Rightarrow> cn_fail E ESDB_ERR_OUT_OF_MEMORY EXEC SQLITE_NOMEM (Some message)
      | None \<Rightarrow>
         (case column_outcome alloc (column st i) of
            Failed status e \<Rightarrow> decode_failure E status e
          | Done v \<Rightarrow> give v))"

text \<open>The memory of a call: per row and column, the allocator and the columns fetched.\<close>

record query_memory =
  qm_alloc :: "nat \<Rightarrow> nat \<Rightarrow> value_alloc"
  qm_fetched :: "nat \<Rightarrow> nat \<Rightarrow> bool"

fun decode_columns ::
  "'d sqlite \<Rightarrow> query_memory \<Rightarrow> nat \<Rightarrow> statement \<Rightarrow> nat list \<Rightarrow> ('d, esdb_value list) action" where
  "decode_columns E M row st [] = give []"
| "decode_columns E M row st (i # is) =
     chain (esdb_query_column_value E (qm_alloc M row i) (qm_fetched M row i) st i) (\<lambda>v.
     chain (decode_columns E M row st is) (\<lambda>vs. give (v # vs)))"

text \<open>What an exception out of the row loop is reported as, the library's own or the callback's.\<close>

definition query_thrown :: "'d sqlite \<Rightarrow> exn \<Rightarrow> ('d, 'a) action" where
  "query_thrown E e =
     (case e of
        Bad_Alloc \<Rightarrow> cn_fail E ESDB_ERR_OUT_OF_MEMORY EXEC SQLITE_NOMEM (Some ''query row allocation failed'')
      | Other_Exn \<Rightarrow> cn_fail E ESDB_ERR_INTERNAL EXEC SQLITE_ERROR
          (Some ''unexpected exception while executing query''))"

text \<open>
  The loop over the rows: the callback that asks to stop is not called again, the remaining rows
  are still counted. It ends with the rows of the statement, which the fuel stands for.
\<close>

type_synonym 'u row_callback = "('u, string option list \<times> esdb_value list) callback"

fun query_rows ::
  "nat \<Rightarrow> 'd sqlite \<Rightarrow> query_memory \<Rightarrow> string option list \<Rightarrow> statement \<Rightarrow> nat \<Rightarrow> 'u row_callback option
   \<Rightarrow> 'u \<Rightarrow> 'd connection \<Rightarrow> (nat option outcome \<times> 'd connection) \<times> 'u" where
  "query_rows 0 E M names st rows callback user cn = ((Done None, cn), user)"
| "query_rows (Suc fuel) E M names st rows callback user cn =
     (case step E EXEC st cn of
        (Failed status e, cn) \<Rightarrow> ((Failed status e, cn), user)
      | (Done (rc, st), cn) \<Rightarrow>
         if rc = SQLITE_DONE then ((Done (Some rows), cn), user)
         else case callback of
           None \<Rightarrow> query_rows fuel E M names st (Suc rows) None user cn
         | Some cb \<Rightarrow>
            (case decode_columns E M rows st [0..<length names] cn of
               (Failed status e, cn) \<Rightarrow> ((Failed status e, cn), user)
             | (Done values, cn) \<Rightarrow>
                (case cb user (names, values) of
                   (Cb_Continue, user) \<Rightarrow> query_rows fuel E M names st (Suc rows) (Some cb) user cn
                 | (Cb_Stop, user) \<Rightarrow> query_rows fuel E M names st (Suc rows) None user cn
                 | (Cb_Throw e, user) \<Rightarrow> (query_thrown E e cn, user))))"

section \<open>The query\<close>

text \<open>The two out parameters: the rows, and the changes of a statement that writes.\<close>

type_synonym query_result = "u64 \<times> u64"

definition change_count :: "'d query_api \<Rightarrow> bool \<Rightarrow> 'd \<Rightarrow> u64" where
  "change_count Q readonly d =
     (if readonly then 0 else let changes = qa_changes Q d in if 0 < changes then of_int changes else 0)"

definition query_statement ::
  "'d sqlite \<Rightarrow> 'd query_api \<Rightarrow> string \<Rightarrow> esdb_value option list \<Rightarrow> u32 \<Rightarrow> ('d, statement) action" where
  "query_statement E Q sql parameters parameter_count =
     chain (prepare E sql EXEC) (\<lambda>st cn.
       if \<not> qa_statement Q sql (cn_db cn)
         \<or> (case qa_tail Q sql (cn_db cn) of None \<Rightarrow> False | Some t \<Rightarrow> \<not> query_tail_is_empty t)
       then cn_fail E ESDB_ERR_INVALID_ARGUMENT EXEC SQLITE_MISUSE
              (Some ''esdb_query accepts exactly one SQL statement'') cn
       else if qa_parameter_count Q sql (cn_db cn) \<noteq> sint parameter_count
       then cn_fail E ESDB_ERR_INVALID_ARGUMENT EXEC SQLITE_RANGE
              (Some ''query parameter count does not match SQL placeholders'') cn
       else bind_parameters E 1 (take (unat parameter_count) parameters) st cn)"

definition run_query ::
  "nat \<Rightarrow> 'd sqlite \<Rightarrow> 'd query_api \<Rightarrow> query_memory \<Rightarrow> exn option \<Rightarrow> string \<Rightarrow> 'u row_callback option \<Rightarrow> 'u
   \<Rightarrow> statement \<Rightarrow> 'd session \<Rightarrow> (query_result option outcome \<times> 'd session) \<times> 'u" where
  "run_query fuel E Q M thrown sql callback user st s =
     (let cn = ss_connection s;
          readonly = qa_readonly Q sql (cn_db cn);
          executed =
           (case thrown of
              Some e \<Rightarrow> (query_thrown E e cn, user)
            | None \<Rightarrow> query_rows fuel E M (qa_columns Q sql (cn_db cn)) st 0 callback user cn)
      in case executed of
           ((r, cn), user) \<Rightarrow>
             let result = (case r of
                  Failed status e \<Rightarrow> Failed status e
                | Done None \<Rightarrow> Done None
                | Done (Some rows) \<Rightarrow> Done (Some (of_nat rows, change_count Q readonly (cn_db cn))))
             in ((result, sync_transaction_state E (s\<lparr>ss_connection := cn\<rparr>)), user))"

definition invalid_query ::
  "byte list option \<Rightarrow> esdb_value option list option \<Rightarrow> u32 \<Rightarrow> bool" where
  "invalid_query sql parameters parameter_count \<longleftrightarrow>
     sql = None \<or> c_bytes (the sql) = [] \<or> \<not> valid_utf8 sql (length (c_bytes (the sql)))
     \<or> (parameter_count \<noteq> 0 \<and> parameters = None) \<or> 2147483647 < parameter_count"

definition query_parameters :: "esdb_value option list option \<Rightarrow> esdb_value option list" where
  "query_parameters parameters = (case parameters of None \<Rightarrow> [] | Some ps \<Rightarrow> ps)"

text \<open>A call that fails before its first step leaves the transaction flags alone.\<close>

definition esdb_query ::
  "nat \<Rightarrow> 'd sqlite \<Rightarrow> 'd query_api \<Rightarrow> query_memory \<Rightarrow> exn option \<Rightarrow> byte list option
   \<Rightarrow> esdb_value option list option \<Rightarrow> u32 \<Rightarrow> 'u row_callback option \<Rightarrow> 'u \<Rightarrow> 'd session option
   \<Rightarrow> (query_result option outcome \<times> 'd session option) \<times> 'u" where
  "esdb_query fuel E Q M thrown sql parameters parameter_count callback user database =
     (case database of
        None \<Rightarrow> ((null_database E EXEC SQLITE_MISUSE ''invalid query arguments'', None), user)
      | Some s \<Rightarrow>
          let s = on_connection (metrics_only count_operation) s in
          if invalid_query sql parameters parameter_count
          then (case in_connection (cn_fail E ESDB_ERR_INVALID_ARGUMENT EXEC SQLITE_MISUSE
                  (Some ''invalid query arguments'')) s of (r, s) \<Rightarrow> ((r, Some s), user))
          else
           let text = chars (c_bytes (the sql)) in
           case in_connection
               (query_statement E Q text (query_parameters parameters) parameter_count) s of
             (Failed status e, s) \<Rightarrow> ((Failed status e, Some s), user)
           | (Done st, s) \<Rightarrow>
              (case run_query fuel E Q M thrown text callback user st s of
                 ((r, s), user) \<Rightarrow> ((r, Some s), user)))"

end
