(* ===== verification/Runtime_Machine.thy ===== *)
theory Runtime_Machine
  imports Runtime_Rules Runtime_Query
begin

text \<open>
  The runtime as a transition system over its transaction, savepoint and SQL calls, in every
  order and with every failure of SQLite: what holds of the savepoint stack and the transaction
  handles in all sessions these calls reach, and the nested transactions they implement. The
  object store and the migrations, which open a scope or a transaction of their own, are not
  calls of this machine.
\<close>

section \<open>Calls\<close>

text \<open>
  The data a query hands its callback is a number here: a callback that answers by its rows and
  by how often it was called is covered.
\<close>

datatype 'd call =
    Call_Begin "nat option" u32
  | Call_Commit nat
  | Call_Rollback nat
  | Call_Destroy nat
  | Call_Savepoint "byte list option"
  | Call_Release "byte list option"
  | Call_Undo "byte list option"
  | Call_Exec "byte list option"
  | Call_Query nat "'d query_api" query_memory "exn option" "byte list option"
      "esdb_value option list option" u32 "nat row_callback option"
  | Call_Version u32

text \<open>Whether a call succeeded, and the session after it.\<close>

definition succeeded :: "'a outcome \<Rightarrow> bool" where
  "succeeded r = (case r of Done _ \<Rightarrow> True | Failed _ _ \<Rightarrow> False)"

lemma succeeded_simps [simp]: "succeeded (Done x)" "\<not> succeeded (Failed st e)"
  by (simp_all add: succeeded_def)

definition answer :: "'a outcome \<times> 'd session option \<Rightarrow> bool \<times> 'd session" where
  "answer run = (case run of (r, s') \<Rightarrow> (succeeded r, the s'))"

fun perform :: "'d sqlite \<Rightarrow> 'd call \<Rightarrow> 'd session \<Rightarrow> bool \<times> 'd session" where
  "perform E (Call_Begin object mode) s = answer (esdb_begin E object mode True (Some s))"
| "perform E (Call_Commit i) s = answer (esdb_commit E (Some (s, i)))"
| "perform E (Call_Rollback i) s = answer (esdb_rollback E (Some (s, i)))"
| "perform E (Call_Destroy i) s = (True, the (esdb_transaction_destroy E (Some (s, i))))"
| "perform E (Call_Savepoint name) s = answer (esdb_savepoint_begin E name (Some s))"
| "perform E (Call_Release name) s = answer (esdb_savepoint_release E name (Some s))"
| "perform E (Call_Undo name) s = answer (esdb_savepoint_rollback E name (Some s))"
| "perform E (Call_Exec sql) s = answer (esdb_exec E sql (Some s))"
| "perform E (Call_Query fuel Q M thrown sql parameters n callback) s =
     answer (fst (esdb_query fuel E Q M thrown sql parameters n callback 0 (Some s)))"
| "perform E (Call_Version n) s = answer (esdb_user_version_set E n (Some s))"

text \<open>
  An allocation answers an address no live object has. The SQL the application runs itself may
  begin, commit and roll back transactions, and a failing statement may have rolled one back;
  it opens, releases and rolls back no savepoint: the frames afterwards are those before, a
  transaction just begun, or none.
\<close>

definition sql_frames :: "'c tx_view \<Rightarrow> 'c tx_view \<Rightarrow> bool" where
  "sql_frames v v' \<longleftrightarrow> map fst (v_frames v') \<in> {map fst (v_frames v), [F_Begin], []}"

fun runs_sql :: "'d call \<Rightarrow> bool" where
  "runs_sql (Call_Exec _) = True"
| "runs_sql (Call_Query _ _ _ _ _ _ _ _) = True"
| "runs_sql (Call_Version _) = True"
| "runs_sql _ = False"

fun allowed :: "('d \<Rightarrow> 'c tx_view) \<Rightarrow> 'd call \<Rightarrow> 'd session \<Rightarrow> 'd session \<Rightarrow> bool" where
  "allowed view (Call_Begin object mode) s s' =
     (case object of None \<Rightarrow> True | Some i \<Rightarrow> ss_transactions s i = None)"
| "allowed view c s s' =
     (runs_sql c \<longrightarrow> sql_frames (co_view (core_of view s)) (co_view (core_of view s')))"

text \<open>A session as \<open>esdb_open\<close> makes it.\<close>

definition idle :: "'c core \<Rightarrow> bool" where
  "idle c \<longleftrightarrow> v_frames (co_view c) = [] \<and> \<not> co_active c \<and> co_current c = None \<and> co_names c = [] \<and>
     co_objects c = (\<lambda>_. None)"

inductive reachable :: "'d sqlite \<Rightarrow> ('d \<Rightarrow> 'c tx_view) \<Rightarrow> 'd session \<Rightarrow> bool" for E view where
  opened: "idle (core_of view s) \<Longrightarrow> reachable E view s"
| called: "reachable E view s \<Longrightarrow> perform E c s = (ok, s') \<Longrightarrow> allowed view c s s' \<Longrightarrow> reachable E view s'"

section \<open>The invariant\<close>

text \<open>
  The frames SQLite has open are the innermost of the tracked savepoints, then at most the
  BEGIN. (They are all of them unless SQLite rolled a transaction back on its own.)
\<close>

definition frame_names :: "'c core \<Rightarrow> nat \<Rightarrow> bool \<Rightarrow> frame list" where
  "frame_names c k begun =
     map (\<lambda>n. F_Savepoint (chars n)) (take k (rev (co_names c))) @ (if begun then [F_Begin] else [])"

definition tracks :: "'c core \<Rightarrow> bool" where
  "tracks c \<longleftrightarrow> (\<exists>k begun. k \<le> length (co_names c) \<and> map fst (v_frames (co_view c)) = frame_names c k begun)"

definition session_inv :: "'c core \<Rightarrow> bool" where
  "session_inv c \<longleftrightarrow> tracks c \<and> (\<not> co_active c \<longrightarrow> co_names c = []) \<and>
     length (co_names c) \<le> SAVEPOINT_CAPACITY \<and>
     (\<forall>i. co_objects c i = Some True \<longrightarrow> co_active c \<and> co_current c = Some i)"

lemma tracks_closed: "v_frames (co_view c) = [] \<Longrightarrow> tracks c"
  unfolding tracks_def by (intro exI [of _ 0] exI [of _ False]) (simp add: frame_names_def)

lemma tracks_same:
  "tracks c \<Longrightarrow> co_names c' = co_names c \<Longrightarrow> v_frames (co_view c') = v_frames (co_view c) \<Longrightarrow> tracks c'"
  by (simp add: tracks_def frame_names_def)

lemma tracks_quiet:
  "tracks c \<Longrightarrow> quiet_failure (co_view c) (co_view c') \<Longrightarrow> co_names c' = co_names c \<Longrightarrow> tracks c'"
  by (auto simp: quiet_failure_def rolled_back_def intro: tracks_same tracks_closed)

lemma tracks_push:
  assumes "tracks c"
  shows "tracks (c\<lparr>co_view := push_frame (F_Savepoint (chars name)) (co_view c), co_names := co_names c @ [name]\<rparr>)"
proof -
  from assms obtain k begun where "k \<le> length (co_names c)"
    "map fst (v_frames (co_view c)) = frame_names c k begun" by (auto simp: tracks_def)
  then show ?thesis
    unfolding tracks_def by (intro exI [of _ "Suc k"] exI [of _ begun]) (simp add: frame_names_def)
qed

lemma tracks_top:
  assumes "tracks c" and "co_names c \<noteq> []" and "last (co_names c) = name"
  shows "top_or_none name (co_view c)"
proof -
  from assms(1) obtain k begun where k: "map fst (v_frames (co_view c)) = frame_names c k begun"
    by (auto simp: tracks_def)
  show ?thesis
  proof (cases k)
    case 0
    with k have "set (map fst (v_frames (co_view c))) \<subseteq> {F_Begin}" by (auto simp: frame_names_def)
    then show ?thesis by (auto simp: top_or_none_def no_savepoint_def)
  next
    case (Suc k')
    obtain names where "co_names c = names @ [name]"
      using assms(2,3) by (metis append_butlast_last_id)
    with k Suc show ?thesis
      by (cases "v_frames (co_view c)") (auto simp: frame_names_def top_or_none_def)
  qed
qed

lemma tracks_pop:
  assumes "tracks c" and "v_frames (co_view c) = (F_Savepoint (chars name), d) # fs"
  shows "tracks (c\<lparr>co_view := \<lparr>v_now = d', v_frames = fs\<rparr>, co_names := butlast (co_names c)\<rparr>)"
proof -
  from assms(1) obtain k begun where k: "k \<le> length (co_names c)"
    "map fst (v_frames (co_view c)) = frame_names c k begun" by (auto simp: tracks_def)
  with assms(2) obtain k' where Suc: "k = Suc k'"
    by (cases k) (auto simp: frame_names_def split: if_splits)
  with k obtain names n where names: "co_names c = names @ [n]"
    by (cases "co_names c" rule: rev_cases) auto
  with k Suc assms(2) have "k' \<le> length names" and
    "map fst fs = frame_names (c\<lparr>co_names := names\<rparr>) k' begun"
    by (auto simp: frame_names_def)
  with names show ?thesis
    unfolding tracks_def by (intro exI [of _ k'] exI [of _ begun]) (simp add: frame_names_def)
qed

lemma tracks_sql:
  assumes "tracks c" and "sql_frames (co_view c) v'"
  shows "tracks (c\<lparr>co_view := v'\<rparr>)"
proof -
  from assms(1) obtain k begun where k: "k \<le> length (co_names c)"
    "map fst (v_frames (co_view c)) = frame_names c k begun" by (auto simp: tracks_def)
  from assms(2) consider "map fst (v_frames v') = map fst (v_frames (co_view c))"
    | "map fst (v_frames v') = [F_Begin]" | "map fst (v_frames v') = []"
    by (auto simp: sql_frames_def)
  then show ?thesis
  proof cases
    case 1
    with k show ?thesis
      unfolding tracks_def by (intro exI [of _ k] exI [of _ begun]) (simp add: frame_names_def)
  next
    case 2
    then show ?thesis
      unfolding tracks_def by (intro exI [of _ 0] exI [of _ True]) (simp add: frame_names_def)
  next
    case 3
    then show ?thesis
      unfolding tracks_def by (intro exI [of _ 0] exI [of _ False]) (simp add: frame_names_def)
  qed
qed

text \<open>The remaining parts of the invariant only look at the flags.\<close>

lemma session_inv_view:
  "session_inv c \<Longrightarrow> tracks (c\<lparr>co_view := v'\<rparr>) \<Longrightarrow> session_inv (c\<lparr>co_view := v'\<rparr>)"
  by (simp add: session_inv_def)

lemma session_inv_quiet:
  "session_inv c \<Longrightarrow> quiet_failure (co_view c) v' \<Longrightarrow> session_inv (c\<lparr>co_view := v'\<rparr>)"
  by (rule session_inv_view) (auto simp: session_inv_def intro: tracks_quiet)

lemma session_inv_ended:
  assumes "session_inv c" and "v_frames v' = []" and "co_objects c i = Some True"
  shows "session_inv (ended i v' c)"
proof -
  have current: "\<And>j. co_objects c j = Some True \<Longrightarrow> co_current c = Some j"
    using assms(1) unfolding session_inv_def by blast
  have none: "co_objects (ended i v' c) j \<noteq> Some True" for j
    using current [of i] current [of j] assms(3) by (cases "j = i") (auto simp: ended_def)
  have "tracks (ended i v' c)" by (rule tracks_closed) (simp add: ended_def assms(2))
  with none show ?thesis unfolding session_inv_def by (simp add: ended_def)
qed

lemma session_inv_finish:
  assumes "session_inv c" and "quiet_failure (co_view c) v'" and "co_objects c i = Some True"
  shows "session_inv (if v_frames v' = [] then ended i v' c else c\<lparr>co_view := v', co_active := True\<rparr>)"
proof (cases "v_frames v' = []")
  case True
  with session_inv_ended [OF assms(1) True assms(3)] show ?thesis by simp
next
  case False
  with assms(2) have same: "v' = co_view c" by (auto simp: quiet_failure_def rolled_back_def)
  have "co_active c" using assms(1,3) by (auto simp: session_inv_def)
  then have "c\<lparr>co_view := co_view c, co_active := True\<rparr> = c" by simp
  with False assms(1) show ?thesis unfolding same by simp
qed

section \<open>Preservation\<close>

context sql_transactions
begin

lemma inv_begin:
  assumes "session_inv (C s)" and "begin_transaction E object mode s = (r, s')"
    and "\<And>i. object = Some i \<Longrightarrow> co_objects (C s) i = None"
  shows "session_inv (C s')"
proof (cases r)
  case (Done i)
  with begin_core [OF assms(2)] have idle0: "\<not> co_active (C s)" "v_frames (co_view (C s)) = []"
    and c': "C s' = (C s)\<lparr>co_view := push_frame F_Begin (co_view (C s)), co_active := True,
      co_current := Some i, co_objects := (co_objects (C s))(i \<mapsto> True)\<rparr>" by auto
  have "co_names (C s) = []" and "\<And>j. co_objects (C s) j \<noteq> Some True"
    using assms(1) idle0(1) by (auto simp: session_inv_def)
  moreover have "tracks (C s')"
    unfolding tracks_def using idle0(2) calculation(1)
    by (intro exI [of _ 0] exI [of _ True]) (simp add: c' frame_names_def)
  ultimately show ?thesis by (auto simp: session_inv_def c')
next
  case (Failed st e)
  with begin_core [OF assms(2)] obtain v' where c': "C s' = (C s)\<lparr>co_view := v'\<rparr>"
    and v': "quiet_failure (co_view (C s)) v' \<or> (\<not> co_active (C s) \<and> v_frames (co_view (C s)) = [] \<and>
      v' = push_frame F_Begin (co_view (C s)))" by auto
  from v' show ?thesis
  proof
    assume "quiet_failure (co_view (C s)) v'"
    with assms(1) show ?thesis unfolding c' by (rule session_inv_quiet)
  next
    assume begun: "\<not> co_active (C s) \<and> v_frames (co_view (C s)) = [] \<and> v' = push_frame F_Begin (co_view (C s))"
    then have "co_names (C s) = []" using assms(1) by (simp add: session_inv_def)
    with begun have "tracks ((C s)\<lparr>co_view := v'\<rparr>)"
      unfolding tracks_def by (intro exI [of _ 0] exI [of _ True]) (simp add: frame_names_def)
    with assms(1) show ?thesis unfolding c' by (rule session_inv_view)
  qed
qed

lemma inv_finish:
  assumes "session_inv (C s)" and "finish_transaction E is_commit i s = (r, s')"
  shows "session_inv (C s')"
proof (cases r)
  case (Done u)
  with finish_core [OF assms(2)] assms(1) show ?thesis
    by (auto intro!: session_inv_ended)
next
  case (Failed st e)
  with finish_core [OF assms(2)] assms(1) session_inv_finish [OF assms(1)] show ?thesis
    by (cases "co_objects (C s) i = Some True") auto
qed

lemma inv_destroy:
  assumes "session_inv (C s)"
  shows "session_inv (C (destroy_transaction E i s))"
proof -
  obtain v' where d: "C (destroy_transaction E i s) =
     (let c = (if co_objects (C s) i = Some True then
          if v_frames v' = [] then ended i v' (C s) else (C s)\<lparr>co_view := v', co_active := True\<rparr>
        else C s)
      in c\<lparr>co_objects := (co_objects c)(i := None)\<rparr>)" and q: "quiet_failure (co_view (C s)) v'"
    using destroy_core by blast
  have drop: "session_inv c \<Longrightarrow> session_inv (c\<lparr>co_objects := (co_objects c)(i := None)\<rparr>)" for c :: "'c core"
    by (auto simp: session_inv_def intro: tracks_same split: if_splits)
  show ?thesis
    using drop assms session_inv_finish [OF assms q, of i] unfolding d Let_def by (auto split: if_splits)
qed

lemma inv_savepoint:
  assumes "session_inv (C s)" and "valid_savepoint_name (Some t)"
    and "savepoint_begin E (c_bytes t) s = (r, s')"
  shows "session_inv (C s')"
proof (cases r)
  case (Done u)
  from savepoint_begin_core [OF assms(3) valid_name_plain [OF assms(2)]] Done
  have "co_active (C s)" "length (co_names (C s)) < SAVEPOINT_CAPACITY"
    and c': "C s' = (C s)\<lparr>co_view := push_frame (F_Savepoint (chars (c_bytes t))) (co_view (C s)),
      co_names := co_names (C s) @ [c_bytes t]\<rparr>" by simp_all
  moreover have "tracks (C s')"
    unfolding c' using assms(1) by (intro tracks_push) (simp add: session_inv_def)
  ultimately show ?thesis using assms(1) by (auto simp: session_inv_def)
next
  case (Failed st e)
  from savepoint_begin_core [OF assms(3) valid_name_plain [OF assms(2)]] Failed
  obtain v' where "quiet_failure (co_view (C s)) v'" and c': "C s' = (C s)\<lparr>co_view := v'\<rparr>" by auto
  with assms(1) show ?thesis unfolding c' by (intro session_inv_quiet)
qed

text \<open>A call whose name is not on top of the stack changes nothing.\<close>

lemma refused_pop:
  assumes "not_on_top name s"
  shows "\<exists>e. savepoint_release E name s = (Failed ESDB_ERR_INVALID_STATE e, snd (savepoint_release E name s))"
    "C (snd (savepoint_release E name s)) = C s"
    "\<exists>e. savepoint_rollback E name s = (Failed ESDB_ERR_INVALID_STATE e, snd (savepoint_rollback E name s))"
    "C (snd (savepoint_rollback E name s)) = C s"
  using assms
  by (simp_all add: savepoint_release_def savepoint_rollback_def in_connection_def cn_fail_def fail_with_def
      core_of_def Let_def)

lemma on_top_top:
  assumes "tracks (C s)" and "\<not> not_on_top name s"
  shows "top_or_none name (co_view (C s))"
  using assms tracks_top [OF assms(1)] by (auto simp: not_on_top_core)

lemma session_inv_popped:
  assumes "session_inv c" and "v_frames (co_view c) = (F_Savepoint (chars name), d) # fs"
  shows "session_inv (c\<lparr>co_view := \<lparr>v_now = d', v_frames = fs\<rparr>, co_names := butlast (co_names c)\<rparr>)"
  using assms tracks_pop [OF _ assms(2), of d'] by (auto simp: session_inv_def)

lemma inv_release:
  assumes "session_inv (C s)" and "valid_savepoint_name (Some t)"
    and "savepoint_release E (c_bytes t) s = (r, s')"
  shows "session_inv (C s')"
proof (cases "not_on_top (c_bytes t) s")
  case True
  with refused_pop(2) [OF True] assms(1,3) show ?thesis by simp
next
  case False
  have "tracks (C s)" using assms(1) by (simp add: session_inv_def)
  note core = savepoint_release_core [OF assms(3) valid_name_plain [OF assms(2)] on_top_top [OF this False]]
  show ?thesis
  proof (cases r)
    case (Done u)
    with core obtain c fs where f: "v_frames (co_view (C s)) = (F_Savepoint (chars (c_bytes t)), c) # fs"
      and c': "C s' = (C s)\<lparr>co_view := (co_view (C s))\<lparr>v_frames := fs\<rparr>, co_names := butlast (co_names (C s))\<rparr>"
      by auto
    from session_inv_popped [OF assms(1) f, of "v_now (co_view (C s))"] show ?thesis
      unfolding c' by (cases "co_view (C s)") simp
  next
    case (Failed st e)
    with core assms(1) show ?thesis by (auto intro: session_inv_quiet)
  qed
qed

lemma inv_rollback_to:
  assumes "session_inv (C s)" and "valid_savepoint_name (Some t)"
    and "savepoint_rollback E (c_bytes t) s = (r, s')"
  shows "session_inv (C s')"
proof (cases "not_on_top (c_bytes t) s")
  case True
  with refused_pop(4) [OF True] assms(1,3) show ?thesis by simp
next
  case False
  have tr: "tracks (C s)" using assms(1) by (simp add: session_inv_def)
  note core = savepoint_rollback_core [OF assms(3) valid_name_plain [OF assms(2)] on_top_top [OF tr False]]
  show ?thesis
  proof (cases r)
    case (Done u)
    with core obtain c fs where f: "v_frames (co_view (C s)) = (F_Savepoint (chars (c_bytes t)), c) # fs"
      and c': "C s' = (C s)\<lparr>co_view := \<lparr>v_now = c, v_frames = fs\<rparr>, co_names := butlast (co_names (C s))\<rparr>"
      by auto
    from session_inv_popped [OF assms(1) f, of c] show ?thesis unfolding c' .
  next
    case (Failed st e)
    with core obtain v' where c': "C s' = (C s)\<lparr>co_view := v'\<rparr>"
      and v': "quiet_failure (co_view (C s)) v' \<or>
        v_frames (co_view (C s)) \<noteq> [] \<and> frame_failure (co_view (C s)) v'" by auto
    then have "quiet_failure (co_view (C s)) v' \<or> v_frames v' = v_frames (co_view (C s))"
      by (auto simp: frame_failure_def quiet_failure_def)
    then have "tracks ((C s)\<lparr>co_view := v'\<rparr>)"
      using tr by (auto intro: tracks_quiet tracks_same)
    with assms(1) show ?thesis unfolding c' by (rule session_inv_view)
  qed
qed

lemma inv_sync:
  assumes "session_inv (C s)"
  shows "session_inv (C (sync_transaction_state E s))"
proof (cases "v_frames (co_view (C s)) = []")
  case False
  with assms show ?thesis by (auto simp: sync_core session_inv_def intro: tracks_same)
next
  case True
  have "co_objects (C (sync_transaction_state E s)) i \<noteq> Some True" for i
    using assms True
    by (cases "co_current (C s)") (auto simp: sync_core session_inv_def set_inactive_def)
  with True show ?thesis
    by (auto simp: sync_core session_inv_def intro: tracks_closed)
qed

text \<open>The application's own SQL: it moves the view, then the flags are brought in step or not.\<close>

lemma inv_sql_view:
  "session_inv (C s) \<Longrightarrow> sql_frames (co_view (C s)) v' \<Longrightarrow> session_inv ((C s)\<lparr>co_view := v'\<rparr>)"
  by (rule session_inv_view) (auto simp: session_inv_def intro: tracks_sql)

lemma inv_sql:
  assumes "session_inv (C s)" and "C s1 = (C s)\<lparr>co_view := v'\<rparr>" and "sql_frames (co_view (C s)) v'"
  shows "session_inv (C (sync_transaction_state E s1))"
  using inv_sql_view [OF assms(1,3)] by (intro inv_sync) (simp add: assms(2))

text \<open>What a call runs, on a session with the same core.\<close>

lemma perform_begin:
  assumes "perform E (Call_Begin object mode) s = (ok, s')"
  obtains s0 r where "C s0 = C s" "begin_transaction E object mode s0 = (r, s')" "ok = succeeded r"
  using assms
  by (auto simp: answer_def esdb_begin_def on_session_def counted_def split: prod.splits
      intro: that [OF core_of_metrics])

lemma perform_commit:
  assumes "perform E (Call_Commit i) s = (ok, s')"
  obtains s0 r where "C s0 = C s" "finish_transaction E True i s0 = (r, s')" "ok = succeeded r"
  using assms by (auto simp: answer_def esdb_commit_def transaction_call_def counted_def
      split: prod.splits intro: that [OF core_of_metrics])

lemma perform_rollback:
  assumes "perform E (Call_Rollback i) s = (ok, s')"
  obtains s0 r where "C s0 = C s" "finish_transaction E False i s0 = (r, s')" "ok = succeeded r"
  using assms by (auto simp: answer_def esdb_rollback_def transaction_call_def counted_def
      split: prod.splits intro: that [OF core_of_metrics])

lemma perform_savepoint_call:
  assumes "answer (savepoint_call E name m (Some s)) = (ok, s')"
  obtains (bad) "C s' = C s" "\<not> ok"
    | (run) t s0 r where "name = Some t" "valid_savepoint_name (Some t)" "C s0 = C s"
        "m (c_bytes t) s0 = (r, s')" "ok = succeeded r"
proof (cases "valid_savepoint_name name")
  case False
  with assms have "C s' = C s \<and> \<not> ok"
    by (auto simp: answer_def savepoint_call_def on_session_def counted_def split: prod.splits
        dest!: in_connection_fail [where view = view])
  with bad show thesis by blast
next
  case True
  then obtain t where t: "name = Some t" by (cases name) (auto simp: valid_savepoint_name_def)
  with assms True show thesis
    by (auto simp: answer_def savepoint_call_def on_session_def counted_def split: prod.splits
        intro: run [OF t _ core_of_metrics])
qed

lemma perform_exec:
  assumes "perform E (Call_Exec sql) s = (ok, s')"
  obtains s1 v' where "C s1 = (C s)\<lparr>co_view := v'\<rparr>" "s' = sync_transaction_state E s1"
proof -
  define s0 where "s0 = on_connection (metrics_only count_operation) s"
  have s0: "C s0 = C s" by (simp add: s0_def)
  define m where "m = (case sql of
      None \<Rightarrow> cn_fail E ESDB_ERR_INVALID_ARGUMENT ESDB_PHASE_EXEC SQLITE_MISUSE
        (Some ''invalid database or SQL'')
    | Some text \<Rightarrow> exec_sql E (chars (takeWhile (\<lambda>b. b \<noteq> 0) text)) ESDB_PHASE_EXEC)"
  obtain r s1 where run: "in_connection m s0 = (r, s1)" by fastforce
  have "s' = sync_transaction_state E s1"
    using assms run by (simp add: answer_def esdb_exec_def on_session_def counted_def m_def s0_def
        split: prod.splits)
  moreover have "\<exists>v'. C s1 = (C s)\<lparr>co_view := v'\<rparr>"
  proof (cases sql)
    case None
    with in_connection_fail [OF run [unfolded m_def None option.case], where view = view] s0 show ?thesis
      by (intro exI [of _ "co_view (C s)"]) simp
  next
    case (Some t)
    with run have "in_connection (exec_sql E (chars (c_bytes t)) ESDB_PHASE_EXEC) s0 = (r, s1)"
      by (simp add: m_def)
    from in_connection_exec [OF this, where view = view] s0 show ?thesis by metis
  qed
  ultimately show thesis using that by blast
qed

text \<open>A connection call whose code only moves the engine's handle leaves the flags.\<close>

lemma same_flags_core:
  "same_flags (ss_connection s) cn \<Longrightarrow> C (s\<lparr>ss_connection := cn\<rparr>) = (C s)\<lparr>co_view := view (cn_db cn)\<rparr>"
  by (simp add: same_flags_def core_of_def Let_def)

lemma connection_core:
  "in_connection m s = (r, s') \<Longrightarrow> leaves_flags m \<Longrightarrow> \<exists>v'. C s' = (C s)\<lparr>co_view := v'\<rparr>"
  by (auto simp: in_connection_def split: prod.splits dest!: leaves_flagsD same_flags_core)

lemma perform_version:
  assumes "perform E (Call_Version n) s = (ok, s')"
  obtains v' where "C s' = (C s)\<lparr>co_view := v'\<rparr>"
proof -
  obtain r where "user_version_set E n (on_connection (metrics_only count_operation) s) = (r, s')"
    using assms by (auto simp: answer_def esdb_user_version_set_def on_session_def counted_def split: prod.splits)
  from connection_core [OF this [unfolded user_version_set_def] leaves_base(3)] that show thesis by auto
qed

text \<open>A query that is refused before its first step has only prepared and bound.\<close>

definition keeps_view :: "('d, 'a) action \<Rightarrow> bool" where
  "keeps_view m \<longleftrightarrow> (\<forall>cn. view (cn_db (snd (m cn))) = view (cn_db cn))"

lemma keeps_chain: "keeps_view m \<Longrightarrow> (\<And>x. keeps_view (f x)) \<Longrightarrow> keeps_view (chain m f)"
  by (auto simp: keeps_view_def chain_def split: prod.splits outcome.splits) (metis snd_conv)+

lemma keeps_base: "keeps_view (give x)" "keeps_view (cn_fail E st ph c msg)" "keeps_view (prepare E sql ph)"
  "keeps_view (bind_value E i v ph statement)"
  using prepare_view bind_view
  by (auto simp: keeps_view_def give_def cn_fail_def fail_with_def prepare_def bind_value_def Let_def split: prod.splits)

lemma bind_parameters_quiet:
  "keeps_view (bind_parameters E k vs st) \<and> leaves_flags (bind_parameters E k vs st)"
proof (induction vs arbitrary: k st)
  case (Cons v vs)
  have "keeps_view (esdb_query_bind_value E k v st)" "leaves_flags (esdb_query_bind_value E k v st)"
    by (auto simp: esdb_query_bind_value_def keeps_base leaves_base split: sum.splits)
  with Cons show ?case by (simp add: keeps_chain leaves_chain)
qed (simp add: keeps_base leaves_base)

lemma query_statement_quiet:
  "keeps_view (query_statement E Q sql vs n)" "leaves_flags (query_statement E Q sql vs n)"
proof -
  have quiet: "keeps_view (\<lambda>cn. if a cn then m cn else if b cn then m' cn else m'' cn)"
    "leaves_flags (\<lambda>cn. if a cn then m cn else if b cn then m' cn else m'' cn)"
    if "keeps_view m" "keeps_view m'" "keeps_view m''" "leaves_flags m" "leaves_flags m'" "leaves_flags m''"
    for a b and m m' m'' :: "('d, statement) action"
    using that by (simp_all add: keeps_view_def leaves_flags_def)
  show "keeps_view (query_statement E Q sql vs n)" "leaves_flags (query_statement E Q sql vs n)"
    unfolding query_statement_def
    by (intro keeps_chain leaves_chain quiet keeps_base leaves_base bind_parameters_quiet [THEN conjunct1]
        bind_parameters_quiet [THEN conjunct2])+
qed

lemma decode_columns_flags: "leaves_flags (decode_columns E M n st cols)"
proof (induction cols)
  case (Cons i cols)
  have "leaves_flags (esdb_query_column_value E (qm_alloc M n i) (qm_fetched M n i) st i)"
    by (auto simp: esdb_query_column_value_def decode_failure_def leaves_base split: option.split outcome.split)
  with Cons show ?case by (simp add: leaves_chain leaves_base)
qed (simp add: leaves_base)

lemma leaves_thrown: "leaves_flags (query_thrown E e)"
  by (cases e) (simp_all add: query_thrown_def leaves_base)

lemma query_rows_flags:
  "query_rows fuel E M names st n callback user cn = ((r, cn'), user') \<Longrightarrow> same_flags cn cn'"
proof (induction fuel arbitrary: st n callback user cn)
  case (Suc fuel)
  obtain x cn1 where s: "step E EXEC st cn = (x, cn1)" by fastforce
  note step1 = leaves_flagsD [OF leaves_base(5) s]
  have on: "query_rows fuel E M names st2 m callback2 user2 cn1 = ((r, cn'), user') \<Longrightarrow> same_flags cn cn'" for st2 m callback2 user2
    using Suc.IH step1 same_flags_trans by blast
  show ?case
  proof (cases x)
    case (Failed status e)
    with Suc.prems s step1 show ?thesis by simp
  next
    case (Done y)
    obtain rc st' where y: "y = (rc, st')" by fastforce
    obtain z cn2 where d: "decode_columns E M n st' [0..<length names] cn1 = (z, cn2)" by fastforce
    from same_flags_trans [OF step1 leaves_flagsD [OF decode_columns_flags d]] have step2: "same_flags cn cn2" .
    have on2: "query_rows fuel E M names st2 m callback2 user2 cn2 = ((r, cn'), user') \<Longrightarrow> same_flags cn cn'" for st2 m callback2 user2
      using Suc.IH step2 same_flags_trans by blast
    have thrown2: "query_thrown E e cn2 = (y, cn3) \<Longrightarrow> same_flags cn cn3" for e and y :: "nat option outcome" and cn3
      by (rule same_flags_trans [OF step2 leaves_flagsD [OF leaves_thrown]])
    from Suc.prems s Done y d step1 step2 on on2 thrown2 show ?thesis
      by (auto split: if_splits option.splits outcome.splits prod.splits callback_result.splits)
  qed
qed simp

lemma perform_query:
  assumes "perform E (Call_Query fuel Q M thrown sql parameters n callback) s = (ok, s')"
  obtains (refused) "C s' = C s"
    | (ran) s1 v' where "C s1 = (C s)\<lparr>co_view := v'\<rparr>" "s' = sync_transaction_state E s1"
proof -
  define s0 where "s0 = on_connection (metrics_only count_operation) s"
  have s0: "C s0 = C s" by (simp add: s0_def)
  obtain r t user' where q: "esdb_query fuel E Q M thrown sql parameters n callback 0 (Some s) = ((r, t), user')"
    by (metis surj_pair)
  with assms have s': "s' = the t" by (simp add: answer_def)
  note unfold = q [unfolded esdb_query_def, simplified, folded s0_def, unfolded Let_def]
  show thesis
  proof (cases "invalid_query sql parameters n")
    case True
    with unfold have "in_connection (cn_fail E ESDB_ERR_INVALID_ARGUMENT EXEC SQLITE_MISUSE
        (Some ''invalid query arguments'')) s0 = (r, s')"
      by (auto simp: s' split: prod.splits)
    with in_connection_fail [where view = view] s0 refused show thesis by metis
  next
    case False
    let ?text = "chars (c_bytes (the sql))"
    obtain x s2 where stmt: "in_connection (query_statement E Q ?text (query_parameters parameters) n) s0 = (x, s2)"
      by fastforce
    then obtain cn2 where q2: "query_statement E Q ?text (query_parameters parameters) n (ss_connection s0) = (x, cn2)"
      and s2: "s2 = s0\<lparr>ss_connection := cn2\<rparr>" by (auto simp: in_connection_def split: prod.splits)
    have flags2: "same_flags (ss_connection s0) cn2" by (rule leaves_flagsD [OF query_statement_quiet(2) q2])
    have "view (cn_db cn2) = view (cn_db (ss_connection s0))"
      using query_statement_quiet(1) [unfolded keeps_view_def] q2 by (metis snd_conv)
    with same_flags_core [OF flags2] have core2: "C s2 = C s"
      unfolding s2 s0 [symmetric] by (simp add: core_of_fields(4) [where view = view])
    show thesis
    proof (cases x)
      case (Failed status e)
      with unfold False stmt have "s' = s2" by (auto simp: s')
      with core2 refused show thesis by simp
    next
      case (Done st)
      obtain r2 s3 user3 where run: "run_query fuel E Q M thrown ?text callback 0 st s2 = ((r2, s3), user3)"
        by (metis surj_pair)
      with unfold False stmt Done have s3: "s' = s3" by (auto simp: s')
      from run obtain cn3 where cn3: "s3 = sync_transaction_state E (s2\<lparr>ss_connection := cn3\<rparr>)"
        and "same_flags (ss_connection s2) cn3"
      proof -
        from run that show thesis
          by (auto simp: run_query_def Let_def split: option.splits prod.splits
              dest!: query_rows_flags leaves_flagsD [OF leaves_thrown])
      qed
      from same_flags_core [OF this(2)] core2 have "C (s2\<lparr>ss_connection := cn3\<rparr>) = (C s)\<lparr>co_view := view (cn_db cn3)\<rparr>" by simp
      with ran cn3 s3 show thesis by blast
    qed
  qed
qed

lemma sync_view: "co_view (C (sync_transaction_state E s)) = co_view (C s)"
  by (simp add: sync_core)

lemma session_inv_step:
  assumes "session_inv (C s)" and "perform E c s = (ok, s')" and "allowed view c s s'"
  shows "session_inv (C s')"
proof (cases c)
  case (Call_Begin object mode)
  with assms(2) perform_begin obtain s0 r
    where r: "C s0 = C s" "begin_transaction E object mode s0 = (r, s')" by metis
  moreover have "\<And>i. object = Some i \<Longrightarrow> co_objects (C s) i = None"
    using assms(3) Call_Begin by (simp add: core_of_def Let_def)
  ultimately show ?thesis using inv_begin [OF _ r(2)] assms(1) by simp
next
  case (Call_Commit i)
  with assms(2) perform_commit obtain s0 r
    where "C s0 = C s" "finish_transaction E True i s0 = (r, s')" by metis
  with inv_finish assms(1) show ?thesis by metis
next
  case (Call_Rollback i)
  with assms(2) perform_rollback obtain s0 r
    where "C s0 = C s" "finish_transaction E False i s0 = (r, s')" by metis
  with inv_finish assms(1) show ?thesis by metis
next
  case (Call_Destroy i)
  with assms(2) have "s' = destroy_transaction E i s" by (simp add: esdb_transaction_destroy_def)
  with inv_destroy [OF assms(1)] show ?thesis by simp
next
  case (Call_Savepoint name)
  with assms(2) have "answer (savepoint_call E name (savepoint_begin E) (Some s)) = (ok, s')"
    by (simp add: esdb_savepoint_begin_def)
  then show ?thesis
    by (cases rule: perform_savepoint_call) (use assms(1) inv_savepoint in metis)+
next
  case (Call_Release name)
  with assms(2) have "answer (savepoint_call E name (savepoint_release E) (Some s)) = (ok, s')"
    by (simp add: esdb_savepoint_release_def)
  then show ?thesis
    by (cases rule: perform_savepoint_call) (use assms(1) inv_release in metis)+
next
  case (Call_Undo name)
  with assms(2) have "answer (savepoint_call E name (savepoint_rollback E) (Some s)) = (ok, s')"
    by (simp add: esdb_savepoint_rollback_def)
  then show ?thesis
    by (cases rule: perform_savepoint_call) (use assms(1) inv_rollback_to in metis)+
next
  case (Call_Exec sql)
  with assms(2) perform_exec obtain s1 v'
    where s1: "C s1 = (C s)\<lparr>co_view := v'\<rparr>" and s': "s' = sync_transaction_state E s1" by metis
  with inv_sql [OF assms(1) s1] assms(3) Call_Exec show ?thesis by (simp add: sync_view)
next
  case (Call_Query fuel Q M thrown sql parameters n callback)
  with assms(2) have "perform E (Call_Query fuel Q M thrown sql parameters n callback) s = (ok, s')" by simp
  then show ?thesis
  proof (cases rule: perform_query)
    case refused
    with assms(1) show ?thesis by simp
  next
    case (ran s1 v')
    with inv_sql [OF assms(1) ran(1)] assms(3) Call_Query show ?thesis by (simp add: sync_view)
  qed
next
  case (Call_Version n)
  with assms(2) perform_version obtain v' where v': "C s' = (C s)\<lparr>co_view := v'\<rparr>" by metis
  with inv_sql_view [OF assms(1), of v'] assms(3) Call_Version show ?thesis by simp
qed

lemma idle_inv: "idle c \<Longrightarrow> session_inv c"
  by (simp add: idle_def session_inv_def tracks_closed)

lemma reachable_inv: "reachable E view s \<Longrightarrow> session_inv (C s)"
  by (induction rule: reachable.induct) (auto intro: idle_inv session_inv_step)

end

end
