(* ===== verification/Runtime_Nesting.thy ===== *)
theory Runtime_Nesting
  imports Runtime_Machine
begin

text \<open>
  The abstract machine of nested transactions and its implementation by the public calls: as
  long as the flags mirror SQLite's frames, a call that succeeds is one transition of the
  machine and keeps them mirrored, and whatever happens, only a commit publishes.
\<close>

section \<open>The abstract machine\<close>

datatype nest_op = N_Begin | N_Commit | N_Rollback | N_Savepoint string | N_Release string | N_Undo string

fun nest :: "nest_op \<Rightarrow> 'c tx_view \<Rightarrow> 'c tx_view option" where
  "nest N_Begin v = (if v_frames v = [] then Some (push_frame F_Begin v) else None)"
| "nest N_Commit v = (if v_frames v = [] then None else Some (v\<lparr>v_frames := []\<rparr>))"
| "nest N_Rollback v = (if v_frames v = [] then None else Some \<lparr>v_now = committed v, v_frames = []\<rparr>)"
| "nest (N_Savepoint n) v = (if v_frames v = [] then None else Some (push_frame (F_Savepoint n) v))"
| "nest (N_Release n) v =
     (case v_frames v of
        (f, c) # fs \<Rightarrow> if f = F_Savepoint n then Some (v\<lparr>v_frames := fs\<rparr>) else None
      | [] \<Rightarrow> None)"
| "nest (N_Undo n) v =
     (case v_frames v of
        (f, c) # fs \<Rightarrow> if f = F_Savepoint n then Some \<lparr>v_now = c, v_frames = fs\<rparr> else None
      | [] \<Rightarrow> None)"

definition name_of :: "byte list option \<Rightarrow> string" where
  "name_of name = chars (c_bytes (the name))"

fun op_of :: "'d call \<Rightarrow> nest_op option" where
  "op_of (Call_Begin _ _) = Some N_Begin"
| "op_of (Call_Commit _) = Some N_Commit"
| "op_of (Call_Rollback _) = Some N_Rollback"
| "op_of (Call_Savepoint name) = Some (N_Savepoint (name_of name))"
| "op_of (Call_Release name) = Some (N_Release (name_of name))"
| "op_of (Call_Undo name) = Some (N_Undo (name_of name))"
| "op_of _ = None"

definition mirrors :: "'c core \<Rightarrow> bool" where
  "mirrors c \<longleftrightarrow> map fst (v_frames (co_view c)) = frame_names c (length (co_names c)) (co_active c) \<and>
     (\<not> co_active c \<longrightarrow> co_names c = [])"

lemma mirrors_tracks: "mirrors c \<Longrightarrow> tracks c"
  unfolding mirrors_def tracks_def by blast

lemma mirrors_frames: "mirrors c \<Longrightarrow> v_frames (co_view c) = [] \<longleftrightarrow> \<not> co_active c"
  by (cases "v_frames (co_view c)") (auto simp: mirrors_def frame_names_def split: if_splits)

lemma mirrors_ended: "v_frames v' = [] \<Longrightarrow> mirrors (ended i v' c)"
  by (simp add: mirrors_def ended_def frame_names_def)

lemma mirrors_popped:
  assumes "mirrors c" and "v_frames (co_view c) = (F_Savepoint (chars name), d) # fs"
  shows "mirrors (c\<lparr>co_view := \<lparr>v_now = d', v_frames = fs\<rparr>, co_names := butlast (co_names c)\<rparr>)"
    and "fs \<noteq> []"
proof -
  have active: "co_active c" using mirrors_frames [OF assms(1)] assms(2) by simp
  with assms obtain n names where names: "co_names c = names @ [n]"
    by (cases "co_names c" rule: rev_cases) (auto simp: mirrors_def frame_names_def)
  with assms active have fs: "map fst fs = map (\<lambda>n. F_Savepoint (chars n)) (rev names) @ [F_Begin]"
    by (auto simp: mirrors_def frame_names_def)
  with names active show "mirrors (c\<lparr>co_view := \<lparr>v_now = d', v_frames = fs\<rparr>, co_names := butlast (co_names c)\<rparr>)"
    by (simp add: mirrors_def frame_names_def)
  from fs show "fs \<noteq> []" by auto
qed

lemma ended_view [simp]: "co_view (ended i v' c) = v'"
  by (simp add: ended_def)

section \<open>Refinement\<close>

context sql_transactions
begin

lemma succeeded_Done: "succeeded r \<Longrightarrow> \<exists>x. r = Done x"
  by (cases r) auto

lemma nest_savepoint:
  assumes "perform E (Call_Savepoint name) s = (True, s')" and "mirrors (C s)" and "op_of (Call_Savepoint name) = Some op"
  shows "nest op (co_view (C s)) = Some (co_view (C s')) \<and> mirrors (C s')"
proof -
  from assms(1) have "answer (savepoint_call E name (savepoint_begin E) (Some s)) = (True, s')"
    by (simp add: esdb_savepoint_begin_def)
  then show ?thesis
  proof (cases rule: perform_savepoint_call)
    case (run t s0 r)
    then obtain u where "r = Done u" using succeeded_Done by blast
    with savepoint_begin_core [OF run(4) valid_name_plain [OF run(2)]] run(3)
    have "co_active (C s)" and c': "C s' = (C s)\<lparr>co_view := push_frame (F_Savepoint (chars (c_bytes t))) (co_view (C s)),
        co_names := co_names (C s) @ [c_bytes t]\<rparr>" by simp_all
    with assms(2,3) run(1) mirrors_frames [OF assms(2)] show ?thesis
      by (auto simp: mirrors_def frame_names_def name_of_def)
  qed simp
qed

lemma nest_release:
  assumes "perform E (Call_Release name) s = (True, s')" and "mirrors (C s)" and "op_of (Call_Release name) = Some op"
  shows "nest op (co_view (C s)) = Some (co_view (C s')) \<and> mirrors (C s')"
proof -
  from assms(1) have "answer (savepoint_call E name (savepoint_release E) (Some s)) = (True, s')"
    by (simp add: esdb_savepoint_release_def)
  then show ?thesis
  proof (cases rule: perform_savepoint_call)
    case (run t s0 r)
    then obtain u where u: "r = Done u" using succeeded_Done by blast
    with refused_pop(1) [of "c_bytes t" s0] run(4) have "\<not> not_on_top (c_bytes t) s0" by auto
    from savepoint_release_core [OF run(4) valid_name_plain [OF run(2)] on_top_top [OF _ this]] u run(3)
      mirrors_tracks [OF assms(2)]
    obtain d fs where f: "v_frames (co_view (C s)) = (F_Savepoint (chars (c_bytes t)), d) # fs"
      and c': "C s' = (C s)\<lparr>co_view := (co_view (C s))\<lparr>v_frames := fs\<rparr>, co_names := butlast (co_names (C s))\<rparr>"
      by auto
    have "(co_view (C s))\<lparr>v_frames := fs\<rparr> = \<lparr>v_now = v_now (co_view (C s)), v_frames = fs\<rparr>" by simp
    with mirrors_popped(1) [OF assms(2) f, of "v_now (co_view (C s))"] f c' assms(3) run(1)
    show ?thesis by (auto simp: name_of_def)
  qed simp
qed

lemma nest_undo:
  assumes "perform E (Call_Undo name) s = (True, s')" and "mirrors (C s)" and "op_of (Call_Undo name) = Some op"
  shows "nest op (co_view (C s)) = Some (co_view (C s')) \<and> mirrors (C s')"
proof -
  from assms(1) have "answer (savepoint_call E name (savepoint_rollback E) (Some s)) = (True, s')"
    by (simp add: esdb_savepoint_rollback_def)
  then show ?thesis
  proof (cases rule: perform_savepoint_call)
    case (run t s0 r)
    then obtain u where u: "r = Done u" using succeeded_Done by blast
    with refused_pop(3) [of "c_bytes t" s0] run(4) have "\<not> not_on_top (c_bytes t) s0" by auto
    from savepoint_rollback_core [OF run(4) valid_name_plain [OF run(2)] on_top_top [OF _ this]] u run(3)
      mirrors_tracks [OF assms(2)]
    obtain d fs where f: "v_frames (co_view (C s)) = (F_Savepoint (chars (c_bytes t)), d) # fs"
      and c': "C s' = (C s)\<lparr>co_view := \<lparr>v_now = d, v_frames = fs\<rparr>, co_names := butlast (co_names (C s))\<rparr>"
      by auto
    with mirrors_popped(1) [OF assms(2) f, of d] assms(3) run(1) show ?thesis
      by (auto simp: name_of_def)
  qed simp
qed

lemma nest_call:
  assumes "perform E c s = (True, s')" and "mirrors (C s)" and "op_of c = Some op"
  shows "nest op (co_view (C s)) = Some (co_view (C s')) \<and> mirrors (C s')"
proof (cases c)
  case (Call_Begin object mode)
  with assms(1) perform_begin obtain s0 r
    where r: "C s0 = C s" "begin_transaction E object mode s0 = (r, s')" "succeeded r" by metis
  then obtain i where "r = Done i" using succeeded_Done by blast
  with begin_core [OF r(2)] r(1) assms(2,3) Call_Begin show ?thesis
    by (auto simp: mirrors_def frame_names_def)
next
  case (Call_Commit i)
  with assms(1) perform_commit obtain s0 r
    where r: "C s0 = C s" "finish_transaction E True i s0 = (r, s')" "succeeded r" by metis
  then obtain u where "r = Done u" using succeeded_Done by blast
  with finish_core [OF r(2)] r(1) assms(3) Call_Commit show ?thesis
    by (auto simp: mirrors_ended)
next
  case (Call_Rollback i)
  with assms(1) perform_rollback obtain s0 r
    where r: "C s0 = C s" "finish_transaction E False i s0 = (r, s')" "succeeded r" by metis
  then obtain u where "r = Done u" using succeeded_Done by blast
  with finish_core [OF r(2)] r(1) assms(3) Call_Rollback show ?thesis
    by (auto simp: mirrors_ended)
next
  case (Call_Destroy i)
  with assms(3) show ?thesis by simp
next
  case (Call_Exec sql)
  with assms(3) show ?thesis by simp
next
  case (Call_Query fuel Q M thrown sql parameters n callback)
  with assms(3) show ?thesis by simp
next
  case (Call_Version n)
  with assms(3) show ?thesis by simp
next
  case (Call_Savepoint name)
  with assms nest_savepoint show ?thesis by simp
next
  case (Call_Release name)
  with assms nest_release show ?thesis by simp
next
  case (Call_Undo name)
  with assms nest_undo show ?thesis by simp
qed

section \<open>Publication\<close>

lemma quiet_committed: "quiet_failure v v' \<Longrightarrow> committed v' = committed v"
  by (auto simp: quiet_failure_def rolled_back_def committed_def)

lemma frame_committed: "frame_failure v v' \<Longrightarrow> v_frames v \<noteq> [] \<Longrightarrow> committed v' = committed v"
  by (auto simp: frame_failure_def rolled_back_def committed_def)

lemma push_committed: "committed (push_frame f v) = committed v"
  "v_frames v = [] \<Longrightarrow> committed (v\<lparr>v_frames := [(f, v_now v)]\<rparr>) = committed v"
  by (simp_all add: committed_def)

lemma begin_committed:
  assumes "begin_transaction E object mode s = (r, s')"
  shows "committed (co_view (C s')) = committed (co_view (C s))"
  using begin_core [OF assms] by (cases r) (auto simp: quiet_committed push_committed)

lemma finish_committed:
  assumes "finish_transaction E is_commit i s = (r, s')" and "is_commit \<longrightarrow> \<not> succeeded r"
  shows "committed (co_view (C s')) = committed (co_view (C s))"
proof (cases r)
  case (Done u)
  with finish_core [OF assms(1)] assms(2) show ?thesis
    by (auto simp: ended_def) (simp add: committed_def)
next
  case (Failed st e)
  with finish_core [OF assms(1)] show ?thesis
    by (auto simp: ended_def quiet_committed split: if_splits)
qed

lemma destroy_committed: "committed (co_view (C (destroy_transaction E i s))) = committed (co_view (C s))"
proof -
  obtain v' where d: "C (destroy_transaction E i s) =
     (let c = (if co_objects (C s) i = Some True then
          if v_frames v' = [] then ended i v' (C s) else (C s)\<lparr>co_view := v', co_active := True\<rparr>
        else C s)
      in c\<lparr>co_objects := (co_objects c)(i := None)\<rparr>)" and q: "quiet_failure (co_view (C s)) v'"
    using destroy_core by blast
  show ?thesis unfolding d Let_def using quiet_committed [OF q] by (simp add: ended_def)
qed

lemma savepoint_publishes_nothing:
  assumes "perform E (Call_Savepoint name) s = (ok, s')" and "tracks (C s)"
    and "committed (co_view (C s')) \<noteq> committed (co_view (C s))"
  shows False
proof -
  from assms(1) have "answer (savepoint_call E name (savepoint_begin E) (Some s)) = (ok, s')"
    by (simp add: esdb_savepoint_begin_def)
  then show ?thesis
  proof (cases rule: perform_savepoint_call)
    case (run t s0 r)
    have "committed (co_view (C s')) = committed (co_view (C s))"
      using savepoint_begin_core [OF run(4) valid_name_plain [OF run(2)]] run(3)
      by (cases r) (auto simp: push_committed quiet_committed)
    with assms(3) show ?thesis by simp
  qed (use assms(3) in simp)
qed

lemma release_publishes:
  assumes "perform E (Call_Release name) s = (ok, s')" and "tracks (C s)"
    and "committed (co_view (C s')) \<noteq> committed (co_view (C s))"
  shows "ok \<and> (\<exists>f. v_frames (co_view (C s)) = [f] \<and> fst f \<noteq> F_Begin)"
proof -
  from assms(1) have "answer (savepoint_call E name (savepoint_release E) (Some s)) = (ok, s')"
    by (simp add: esdb_savepoint_release_def)
  then show ?thesis
  proof (cases rule: perform_savepoint_call)
    case (run t s0 r)
    have on_top: "\<not> not_on_top (c_bytes t) s0"
    proof
      assume "not_on_top (c_bytes t) s0"
      with refused_pop(2) [OF this] run(3,4) assms(3) show False by simp
    qed
    note core = savepoint_release_core [OF run(4) valid_name_plain [OF run(2)] on_top_top [OF _ on_top]]
    show ?thesis
    proof (cases r)
      case (Done u)
      with core run(3) assms(2) obtain d fs
        where f: "v_frames (co_view (C s)) = (F_Savepoint (chars (c_bytes t)), d) # fs"
          and c': "C s' = (C s)\<lparr>co_view := (co_view (C s))\<lparr>v_frames := fs\<rparr>, co_names := butlast (co_names (C s))\<rparr>"
        by auto
      have "fs = []"
        using assms(3) f c' by (cases fs) (auto simp: committed_def)
      with f Done run(5) show ?thesis by auto
    next
      case (Failed st e)
      with core run(3) assms(2) have "committed (co_view (C s')) = committed (co_view (C s))"
        by (auto simp: quiet_committed)
      with assms(3) show ?thesis by simp
    qed
  qed (use assms(3) in simp)
qed

lemma undo_publishes_nothing:
  assumes "perform E (Call_Undo name) s = (ok, s')" and "tracks (C s)"
    and "committed (co_view (C s')) \<noteq> committed (co_view (C s))"
  shows False
proof -
  from assms(1) have "answer (savepoint_call E name (savepoint_rollback E) (Some s)) = (ok, s')"
    by (simp add: esdb_savepoint_rollback_def)
  then show ?thesis
  proof (cases rule: perform_savepoint_call)
    case (run t s0 r)
    have on_top: "\<not> not_on_top (c_bytes t) s0"
    proof
      assume "not_on_top (c_bytes t) s0"
      with refused_pop(4) [OF this] run(3,4) assms(3) show False by simp
    qed
    note core = savepoint_rollback_core [OF run(4) valid_name_plain [OF run(2)] on_top_top [OF _ on_top]]
    have "committed (co_view (C s')) = committed (co_view (C s))"
    proof (cases r)
      case (Done u)
      with core run(3) assms(2) show ?thesis
        by (auto simp: committed_def)
    next
      case (Failed st e)
      with core run(3) assms(2) show ?thesis
        by (auto simp: quiet_committed frame_committed)
    qed
    with assms(3) show ?thesis by simp
  qed (use assms(3) in simp)
qed

lemma published_by:
  assumes "perform E c s = (ok, s')" and "tracks (C s)" and "\<not> runs_sql c"
    and "committed (co_view (C s')) \<noteq> committed (co_view (C s))"
  shows "ok \<and> ((\<exists>i. c = Call_Commit i) \<or> (\<exists>n f. c = Call_Release n \<and> v_frames (co_view (C s)) = [f] \<and> fst f \<noteq> F_Begin))"
proof (cases c)
  case (Call_Begin object mode)
  with assms(1) perform_begin obtain s0 r
    where "C s0 = C s" "begin_transaction E object mode s0 = (r, s')" by metis
  with begin_committed assms(4) show ?thesis by metis
next
  case (Call_Commit i)
  with assms(1) perform_commit obtain s0 r
    where "C s0 = C s" "finish_transaction E True i s0 = (r, s')" "ok = succeeded r" by metis
  with finish_committed assms(4) Call_Commit show ?thesis by metis
next
  case (Call_Rollback i)
  with assms(1) perform_rollback obtain s0 r
    where "C s0 = C s" "finish_transaction E False i s0 = (r, s')" by metis
  with finish_committed assms(4) show ?thesis by metis
next
  case (Call_Destroy i)
  with assms(1,4) destroy_committed show ?thesis by (auto simp: esdb_transaction_destroy_def)
next
  case (Call_Exec sql)
  with assms(3) show ?thesis by simp
next
  case (Call_Query fuel Q M thrown sql parameters n callback)
  with assms(3) show ?thesis by simp
next
  case (Call_Version n)
  with assms(3) show ?thesis by simp
next
  case (Call_Savepoint name)
  with assms savepoint_publishes_nothing show ?thesis by blast
next
  case (Call_Release name)
  with assms release_publishes show ?thesis by blast
next
  case (Call_Undo name)
  with assms undo_publishes_nothing show ?thesis by blast
qed

section \<open>A savepoint outside a transaction\<close>

lemma stale_release:
  assumes "v_frames (co_view (C s)) = []" and "perform E (Call_Savepoint name) s = (True, s1)"
    and "perform E (Call_Exec sql) s1 = (executed, s2)" and "v_frames (co_view (C s2)) = v_frames (co_view (C s1))"
    and "perform E (Call_Release name) s2 = (True, s3)" and "perform E (Call_Rollback i) s3 = (undone, s4)"
  shows "committed (co_view (C s2)) = committed (co_view (C s)) \<and>
    committed (co_view (C s3)) = v_now (co_view (C s2)) \<and>
    \<not> undone \<and> committed (co_view (C s4)) = v_now (co_view (C s2))"
proof -
  from assms(2) have "answer (savepoint_call E name (savepoint_begin E) (Some s)) = (True, s1)"
    by (simp add: esdb_savepoint_begin_def)
  then obtain t where t: "name = Some t" "valid_savepoint_name (Some t)"
    and c1: "C s1 = (C s)\<lparr>co_view := push_frame (F_Savepoint (chars (c_bytes t))) (co_view (C s)),
      co_names := co_names (C s) @ [c_bytes t]\<rparr>"
  proof (cases rule: perform_savepoint_call)
    case (run t s0 r)
    then obtain u where "r = Done u" using succeeded_Done by blast
    with savepoint_begin_core [OF run(4) valid_name_plain [OF run(2)]] run(3) that [OF run(1,2)]
    show thesis by simp
  qed simp
  with assms(1,4) have frames: "v_frames (co_view (C s2)) = [(F_Savepoint (chars (c_bytes t)), v_now (co_view (C s)))]"
    by simp
  have top: "top_or_none (c_bytes t) (co_view (C s2))" by (simp add: top_or_none_def frames)
  from assms(5) have "answer (savepoint_call E name (savepoint_release E) (Some s2)) = (True, s3)"
    by (simp add: esdb_savepoint_release_def)
  then have c3: "v_frames (co_view (C s3)) = [] \<and> v_now (co_view (C s3)) = v_now (co_view (C s2))"
  proof (cases rule: perform_savepoint_call)
    case (run t' s0 r)
    then obtain u where "r = Done u" using succeeded_Done by blast
    with savepoint_release_core [OF run(4) valid_name_plain [OF run(2)]] run(1,3) t(1) frames top
    show ?thesis by auto
  qed simp
  from perform_rollback [OF assms(6)] obtain s0 r where s0: "C s0 = C s3"
    and fin: "finish_transaction E False i s0 = (r, s4)" and undone: "undone = succeeded r" by metis
  with finish_core [OF fin] c3 have "\<not> undone" by (cases r) auto
  moreover have "committed (co_view (C s4)) = committed (co_view (C s3))"
    using finish_committed [OF fin] s0 by simp
  ultimately show ?thesis using c3 frames assms(1) by (simp add: committed_def)
qed

end

end
