(* ===== verification/Runtime_Contract.thy ===== *)
theory Runtime_Contract
  imports Runtime_Nesting Transactions_Reference
begin

text \<open>
  What migrations rely on SQLite for beyond transactions: \<open>PRAGMA user_version\<close> is part of the
  database contents, a signed 32-bit integer. Below, an executable engine with a fault script
  that satisfies this contract; its contents are the version and the log of the other
  statements executed.
\<close>

locale versioned_engine = sql_transactions E view
  for E :: "'d sqlite" and view :: "'d \<Rightarrow> 'c tx_view" +
  fixes version :: "'c \<Rightarrow> int" and set_version :: "int \<Rightarrow> 'c \<Rightarrow> 'c"
  assumes version_range: "- (2 ^ 31) \<le> version c \<and> version c < 2 ^ 31"
    and version_set: "0 \<le> i \<Longrightarrow> i < 2 ^ 31 \<Longrightarrow> version (set_version i c) = i"
    and read_version: "sq_step E SQL_USER_VERSION p None d = (rc, rows, d') \<Longrightarrow>
      if rc = SQLITE_ROW \<or> rc = SQLITE_DONE
      then rc = SQLITE_ROW \<and> rows = [[Sql_Int (version (v_now (view d)))]] \<and> view d' = view d
      else quiet_failure (view d) (view d')"
    and write_version: "sq_exec E (set_version_sql n) d = (rc, m, d') \<Longrightarrow>
      if rc = SQLITE_OK
      then v_frames (view d') = v_frames (view d) \<and>
        (n < 2 ^ 31 \<longrightarrow> v_now (view d') = set_version (int n) (v_now (view d)))
      else quiet_failure (view d) (view d')"

section \<open>A reference engine\<close>

record ver_content =
  vc_version :: int
  vc_log :: "string list"

record ver_db =
  vd_view :: "ver_content tx_view"
  vd_script :: "(int \<times> bool) list"

definition set_content_version :: "int \<Rightarrow> ver_content \<Rightarrow> ver_content" where
  "set_content_version n c = c\<lparr>vc_version := n\<rparr>"

text \<open>A stored version outside the signed 32 bits reads as 0.\<close>

definition content_version :: "ver_content \<Rightarrow> int" where
  "content_version c = (if - (2 ^ 31) \<le> vc_version c \<and> vc_version c < 2 ^ 31 then vc_version c else 0)"

definition next_ver_fault :: "ver_db \<Rightarrow> (int \<times> bool) option \<times> ver_db" where
  "next_ver_fault d =
     (case vd_script d of
        [] \<Rightarrow> (None, d)
      | (rc, auto) # rest \<Rightarrow> (if error_code rc then Some (rc, auto) else None, d\<lparr>vd_script := rest\<rparr>))"

fun digits_of :: "nat \<Rightarrow> string \<Rightarrow> nat" where
  "digits_of n [] = n"
| "digits_of n (c # cs) = digits_of (n * 10 + (of_char c - 48)) cs"

definition version_in :: "string \<Rightarrow> nat option" where
  "version_in sql =
     (let n = digits_of 0 (takeWhile (\<lambda>c. c \<noteq> CHR '';'') (drop 20 sql))
      in if set_version_sql n = sql then Some n else None)"

definition ver_exec_view :: "string \<Rightarrow> ver_content tx_view \<Rightarrow> ver_content tx_view option" where
  "ver_exec_view sql v =
     (case tx_exec sql v of
        Some r \<Rightarrow> r
      | None \<Rightarrow>
         (case version_in sql of
            Some n \<Rightarrow> Some (v\<lparr>v_now := set_content_version (if int n < 2 ^ 31 then int n else 0) (v_now v)\<rparr>)
          | None \<Rightarrow> Some (v\<lparr>v_now := (v_now v)\<lparr>vc_log := vc_log (v_now v) @ [sql]\<rparr>\<rparr>)))"

definition ver_exec :: "string \<Rightarrow> ver_db \<Rightarrow> int \<times> string option \<times> ver_db" where
  "ver_exec sql d =
     (case next_ver_fault d of
        (Some (rc, auto), d) \<Rightarrow> (rc, Some ''fault'', d\<lparr>vd_view := failed_view auto (vd_view d)\<rparr>)
      | (None, d) \<Rightarrow>
         (case ver_exec_view sql (vd_view d) of
            None \<Rightarrow> (SQLITE_ERROR, Some ''error'', d)
          | Some v \<Rightarrow> (SQLITE_OK, None, d\<lparr>vd_view := v\<rparr>)))"

definition ver_prepare :: "string \<Rightarrow> ver_db \<Rightarrow> int \<times> ver_db" where
  "ver_prepare sql d =
     (case next_ver_fault d of (Some (rc, auto), d) \<Rightarrow> (rc, d) | (None, d) \<Rightarrow> (SQLITE_OK, d))"

definition ver_step ::
  "string \<Rightarrow> (nat \<Rightarrow> sql_value) \<Rightarrow> sql_row list option \<Rightarrow> ver_db \<Rightarrow> int \<times> sql_row list \<times> ver_db" where
  "ver_step sql p pending d =
     (case next_ver_fault d of
        (Some (rc, auto), d) \<Rightarrow> (rc, [], d\<lparr>vd_view := failed_view auto (vd_view d)\<rparr>)
      | (None, d) \<Rightarrow>
         (if sql = SQL_USER_VERSION \<and> pending = None
          then (SQLITE_ROW, [[Sql_Int (content_version (v_now (vd_view d)))]], d)
          else (SQLITE_ERROR, [], d)))"

definition ver_sqlite :: "ver_db sqlite" where
  "ver_sqlite =
     \<lparr>sq_errstr = (\<lambda>_. ''error''),
      sq_diagnosis = (\<lambda>_. \<lparr>dg_extended_errcode = 0, dg_errmsg = ''error''\<rparr>),
      sq_autocommit = (\<lambda>d. v_frames (vd_view d) = []), sq_readonly = (\<lambda>_. 0),
      sq_exec = ver_exec, sq_prepare = ver_prepare, sq_bind = (\<lambda>sql i v. ver_prepare sql),
      sq_step = ver_step, sq_int_of = (\<lambda>_. 0), sq_text_of = (\<lambda>_. None)\<rparr>"

lemma ver_fields [simp]:
  "sq_autocommit ver_sqlite d \<longleftrightarrow> v_frames (vd_view d) = []" "sq_exec ver_sqlite = ver_exec"
  "sq_prepare ver_sqlite = ver_prepare" "sq_bind ver_sqlite sql i v = ver_prepare sql"
  "sq_step ver_sqlite = ver_step"
  by (simp_all add: ver_sqlite_def)

section \<open>It satisfies the contract\<close>

lemma next_ver_fault_frame: "next_ver_fault d = (f, d') \<Longrightarrow> vd_view d' = vd_view d"
  by (auto simp: next_ver_fault_def split: list.splits prod.splits if_splits)

lemma next_ver_fault_error: "next_ver_fault d = (Some (rc, auto), d') \<Longrightarrow> error_code rc"
  by (auto simp: next_ver_fault_def split: list.splits prod.splits if_splits)

lemma error_code_failure: "error_code rc \<Longrightarrow> rc \<noteq> SQLITE_OK \<and> rc \<noteq> SQLITE_ROW \<and> rc \<noteq> SQLITE_DONE"
  by (auto simp: error_code_def map_sqlite_status_def Let_def)

lemma error_code_error: "error_code SQLITE_ERROR"
  by (simp add: error_code_def map_sqlite_status_def)

lemma ver_exec_cases:
  assumes "ver_exec sql d = (rc, m, d')"
  shows "(error_code rc \<and> (\<exists>auto. vd_view d' = failed_view auto (vd_view d))) \<or>
    (\<exists>v. ver_exec_view sql (vd_view d) = Some v \<and> rc = SQLITE_OK \<and> vd_view d' = v)"
proof (cases "next_ver_fault d")
  case (Pair f d1)
  then have view1: "vd_view d1 = vd_view d" by (rule next_ver_fault_frame)
  have "failed_view False (vd_view d) = vd_view d" by (simp add: failed_view_def)
  then have same: "\<exists>auto. vd_view d = failed_view auto (vd_view d)" by metis
  show ?thesis
  proof (cases f)
    case None
    with assms Pair view1 same error_code_error show ?thesis
      by (auto simp: ver_exec_def split: option.splits)
  next
    case (Some fault)
    with assms Pair view1 show ?thesis
      by (cases fault) (auto simp: ver_exec_def dest: next_ver_fault_error)
  qed
qed

lemma ver_step_cases:
  assumes "ver_step sql p pending d = (rc, rows, d')"
  shows "(error_code rc \<and> (\<exists>auto. vd_view d' = failed_view auto (vd_view d))) \<or>
    (sql = SQL_USER_VERSION \<and> rc = SQLITE_ROW \<and> rows = [[Sql_Int (content_version (v_now (vd_view d)))]] \<and>
     vd_view d' = vd_view d)"
proof (cases "next_ver_fault d")
  case (Pair f d1)
  then have view1: "vd_view d1 = vd_view d" by (rule next_ver_fault_frame)
  have "failed_view False (vd_view d) = vd_view d" by (simp add: failed_view_def)
  then have same: "\<exists>auto. vd_view d = failed_view auto (vd_view d)" by metis
  show ?thesis
  proof (cases f)
    case None
    with assms Pair view1 same error_code_error show ?thesis
      by (auto simp: ver_step_def split: if_splits)
  next
    case (Some fault)
    with assms Pair view1 show ?thesis
      by (cases fault) (auto simp: ver_step_def dest: next_ver_fault_error)
  qed
qed

lemma ver_prepare_code: "ver_prepare sql d = (rc, d') \<Longrightarrow> rc = SQLITE_OK \<or> error_code rc"
  by (cases "next_ver_fault d")
    (auto simp: ver_prepare_def dest: next_ver_fault_error split: option.splits prod.splits)

lemma ver_prepare_view: "ver_prepare sql d = (rc, d') \<Longrightarrow> vd_view d' = vd_view d"
  by (cases "next_ver_fault d")
    (auto simp: ver_prepare_def dest!: next_ver_fault_frame split: option.splits prod.splits)

lemma ver_exec_tx:
  assumes "ver_exec sql d = (rc, m, d')" and "tx_exec sql (vd_view d) \<noteq> None"
  shows "tx_outcome sql rc (vd_view d) (vd_view d')"
  using ver_exec_cases [OF assms(1)] assms(2) error_code_failure
  unfolding tx_outcome_def ver_exec_view_def by (auto split: option.splits)

lemmas ver_tx_laws =
  tx_outcome_laws(1) [OF ver_exec_tx [OF _ tx_known(1)]] tx_outcome_laws(2) [OF ver_exec_tx [OF _ tx_known(2)]]
  tx_outcome_laws(3) [OF ver_exec_tx [OF _ tx_known(3)]] tx_outcome_laws(4) [OF ver_exec_tx [OF _ tx_known(4)]]
  tx_outcome_laws(5) [OF ver_exec_tx [OF _ tx_known(5)]] tx_outcome_laws(6) [OF ver_exec_tx [OF _ tx_known(5)]]
  tx_outcome_laws(7) [OF ver_exec_tx [OF _ tx_known(6)]] tx_outcome_laws(8) [OF ver_exec_tx [OF _ tx_known(6)]]

interpretation ver_tx: sql_transactions ver_sqlite vd_view
proof (unfold_locales, unfold ver_fields)
  fix sql rc and d d' :: ver_db
  assume "ver_prepare sql d = (rc, d')"
  then show "rc = SQLITE_OK \<or> error_code rc" by (rule ver_prepare_code)
next
  fix sql rc and d d' :: ver_db
  assume "ver_prepare sql d = (rc, d')"
  then show "rc = SQLITE_OK \<or> error_code rc" by (rule ver_prepare_code)
next
  fix sql p pending rc rows and d d' :: ver_db
  assume "ver_step sql p pending d = (rc, rows, d')"
  from ver_step_cases [OF this] show "rc = SQLITE_ROW \<or> rc = SQLITE_DONE \<or> error_code rc" by auto
next
  fix sql rc m and d d' :: ver_db
  assume "ver_exec sql d = (rc, m, d')"
  from ver_exec_cases [OF this] show "rc = SQLITE_OK \<or> error_code rc" by auto
next
  fix sql rc and d d' :: ver_db
  assume "ver_prepare sql d = (rc, d')"
  then show "vd_view d' = vd_view d" by (rule ver_prepare_view)
next
  fix sql rc and d d' :: ver_db
  assume "ver_prepare sql d = (rc, d')"
  then show "vd_view d' = vd_view d" by (rule ver_prepare_view)
qed (rule refl | (rule ver_tx_laws; assumption))+

text \<open>The text of a version names it, and is no transaction text.\<close>

lemma set_version_text: "set_version_sql n = ''PRAGMA user_version='' @ chars (decimal n) @ '';''"
  by (simp add: set_version_sql_def)

lemma tx_set_version: "tx_exec (set_version_sql n) v = None"
proof (rule tx_other)
  show "set_version_sql n \<noteq> begin_sql b" for b
    by (cases b) (simp_all add: set_version_text)
qed (simp_all add: set_version_text SQL_COMMIT_def SQL_ROLLBACK_def savepoint_sql_def release_sql_def undo_sql_def)

lemma digits_of_append: "digits_of n (xs @ ys) = digits_of (digits_of n xs) ys"
  by (induction n xs rule: digits_of.induct) auto

lemma digit_char: "k < 10 \<Longrightarrow> of_char (char_of (unat (of_nat (48 + k) :: byte)) :: char) = 48 + k"
proof -
  assume "k < 10"
  then have "unat (of_nat (48 + k) :: byte) = 48 + k" by (subst unat_of_nat) simp
  then have "unat (of_nat (48 + k) :: byte) mod 256 = 48 + k" using \<open>k < 10\<close> by simp
  then show ?thesis by (simp del: of_nat_add)
qed

lemma decimal_chars:
  "digits_of 0 (chars (decimal n)) = n \<and> (\<forall>c \<in> set (chars (decimal n)). c \<noteq> CHR '';'')"
proof (induction n rule: decimal.induct)
  case (1 n)
  have small: "of_char (char_of (unat (of_nat (48 + k) :: byte)) :: char) = 48 + k"
      "char_of (unat (of_nat (48 + k) :: byte)) \<noteq> CHR '';''" if "k < 10" for k :: nat
  proof -
    show v: "of_char (char_of (unat (of_nat (48 + k) :: byte)) :: char) = 48 + k"
      using that by (rule digit_char)
    show "char_of (unat (of_nat (48 + k) :: byte)) \<noteq> CHR '';''"
    proof
      assume "char_of (unat (of_nat (48 + k) :: byte)) = CHR '';''"
      with v have "of_char (CHR '';'') = 48 + k" by metis
      with that show False by simp
    qed
  qed
  show ?case
  proof (cases "n < 10")
    case True
    with small [of n] show ?thesis by (simp add: decimal.simps [of n] chars_def del: of_nat_add)
  next
    case False
    have "n mod 10 < 10" by simp
    from 1 [OF False] small [OF this] False show ?thesis
      by (auto simp: decimal.simps [of n] chars_def digits_of_append simp del: of_nat_add)
  qed
qed

lemma version_in_set: "version_in (set_version_sql n) = Some n"
proof -
  have "takeWhile (\<lambda>c. c \<noteq> CHR '';'') (chars (decimal n) @ '';'') = chars (decimal n)"
    using decimal_chars [of n] by (simp add: takeWhile_append2)
  with decimal_chars [of n] show ?thesis
    by (simp add: version_in_def set_version_text)
qed

interpretation ver: versioned_engine ver_sqlite vd_view content_version set_content_version
proof (unfold_locales, unfold ver_fields)
  fix c
  show "- (2 ^ 31) \<le> content_version c \<and> content_version c < 2 ^ 31"
    by (simp add: content_version_def)
next
  fix n :: int and c
  assume "0 \<le> n" "n < 2 ^ 31"
  then show "content_version (set_content_version n c) = n"
    by (simp add: content_version_def set_content_version_def)
next
  fix p rc rows and d d' :: ver_db
  assume "ver_step SQL_USER_VERSION p None d = (rc, rows, d')"
  from ver_step_cases [OF this] show "if rc = SQLITE_ROW \<or> rc = SQLITE_DONE
      then rc = SQLITE_ROW \<and> rows = [[Sql_Int (content_version (v_now (vd_view d)))]] \<and> vd_view d' = vd_view d
      else quiet_failure (vd_view d) (vd_view d')"
    using error_code_failure by auto
next
  fix n rc m and d d' :: ver_db
  assume "ver_exec (set_version_sql n) d = (rc, m, d')"
  from ver_exec_cases [OF this] show "if rc = SQLITE_OK
      then v_frames (vd_view d') = v_frames (vd_view d) \<and>
        (n < 2 ^ 31 \<longrightarrow> v_now (vd_view d') = set_content_version (int n) (v_now (vd_view d)))
      else quiet_failure (vd_view d) (vd_view d')"
    using error_code_failure by (auto simp: ver_exec_view_def tx_set_version version_in_set)
qed

end
