(* ===== verification/Migration_Rules.thy ===== *)
theory Migration_Rules
  imports Runtime_Upkeep Runtime_Contract
begin

text \<open>
  What a migration run does, for callbacks that leave transaction control alone: a callback that
  succeeds changes the contents by its \<open>effect\<close> and nothing else, one that fails may leave the
  transaction open or have lost it to SQLite.
\<close>

definition keeps_transaction :: "('d \<Rightarrow> 'c tx_view) \<Rightarrow> ('d migration \<Rightarrow> 'c \<Rightarrow> 'c) \<Rightarrow> 'd migration \<Rightarrow> bool" where
  "keeps_transaction view effect m \<longleftrightarrow>
     (\<forall>s r s'. co_active (core_of view s) \<longrightarrow> v_frames (co_view (core_of view s)) \<noteq> [] \<longrightarrow>
        the (mg_apply m) (mg_from_version m) (mg_to_version m) s = (r, s') \<longrightarrow>
        (if r \<noteq> None \<and> fst (the r) = ESDB_OK
         then core_of view s' = (core_of view s)
           \<lparr>co_view := (co_view (core_of view s))\<lparr>v_now := effect m (v_now (co_view (core_of view s)))\<rparr>\<rparr>
         else v_frames (co_view (core_of view s')) = v_frames (co_view (core_of view s)) \<or>
           rolled_back (co_view (core_of view s)) (co_view (core_of view s'))))"

text \<open>
  The contents after \<open>n\<close> contiguous steps from a version: at each version the first migration
  from it, then the new version number. \<open>None\<close>: a step is missing.
\<close>

fun upgrades ::
  "(int \<Rightarrow> 'c \<Rightarrow> 'c) \<Rightarrow> ('d migration \<Rightarrow> 'c \<Rightarrow> 'c) \<Rightarrow> 'd migration list \<Rightarrow> nat \<Rightarrow> u32 \<Rightarrow> 'c \<Rightarrow> 'c option" where
  "upgrades set_version effect migrations 0 current c = Some c"
| "upgrades set_version effect migrations (Suc n) current c =
     (case find_migration migrations current of
        None \<Rightarrow> None
      | Some m \<Rightarrow>
          upgrades set_version effect migrations n (current + 1)
            (set_version (uint (current + 1)) (effect m c)))"

lemma same_frames_committed:
  "v_frames v' = v_frames v \<Longrightarrow> v_frames v \<noteq> [] \<Longrightarrow> committed v' = committed v"
  by (simp add: committed_def)

lemma version_buffer: "snprintf_text 64 (set_version_sql (unat (v :: u32))) = set_version_sql (unat v)"
  using length_decimal_u32 [of v] by (simp add: snprintf_text_def set_version_sql_def chars_def)

context sql_transactions
begin

lemma counted_finish: "counted (finish_transaction E b i) s = (r, s') \<Longrightarrow>
    \<exists>s0. C s0 = C s \<and> finish_transaction E b i s0 = (r, s')"
  by (auto simp: counted_def intro: exI [of _ "on_connection (metrics_only count_operation) s"])

lemma abandon_committed: "committed (co_view (C (abandon E i s))) = committed (co_view (C s))"
proof -
  obtain r s1 where f: "counted (finish_transaction E False i) s = (r, s1)" by fastforce
  from counted_finish [OF f] obtain s0 where "C s0 = C s" "finish_transaction E False i s0 = (r, s1)" by blast
  then have "committed (co_view (C s1)) = committed (co_view (C s))" using finish_committed by metis
  with f show ?thesis by (simp add: abandon_def destroy_committed)
qed

lemma failed_after: "in_connection (cn_fail E st ph c m) s = (r, s') \<Longrightarrow> C s' = C s \<and> \<not> succeeded r"
  by (auto dest!: in_connection_fail [where view = view])

end

context versioned_engine
begin

lemma version_set_core:
  assumes "counted (user_version_set E v) s = (r, s')"
  shows "case r of
      Done _ \<Rightarrow> \<exists>v'. C s' = (C s)\<lparr>co_view := v'\<rparr> \<and> v_frames v' = v_frames (co_view (C s)) \<and>
        (unat v < 2 ^ 31 \<longrightarrow> v_now v' = set_version (uint v) (v_now (co_view (C s))))
    | Failed st e \<Rightarrow> \<exists>v'. quiet_failure (co_view (C s)) v' \<and> C s' = (C s)\<lparr>co_view := v'\<rparr>"
proof -
  define s0 where "s0 = on_connection (metrics_only count_operation) s"
  have s0: "C s0 = C s" by (simp add: s0_def)
  have run: "in_connection (exec_sql E (set_version_sql (unat v)) MIG) s0 = (r, s')"
    using assms by (simp add: counted_def user_version_set_def version_buffer s0_def)
  from in_connection_exec [OF run, where view = view] obtain rc m d
    where x: "sq_exec E (set_version_sql (unat v)) (cn_db (ss_connection s0)) = (rc, m, d)"
      and c: "C s' = (C s0)\<lparr>co_view := view d\<rparr>"
      and r: "if rc = SQLITE_OK then r = Done () else \<exists>e. r = Failed (map_sqlite_status rc) e" .
  note law = write_version [OF x, unfolded core_of_fields(4) [where view = view] s0]
  show ?thesis
  proof (cases "rc = SQLITE_OK")
    case True
    have "int (unat v) = uint v" by simp
    with law True have now: "v_frames (view d) = v_frames (co_view (C s))"
      "unat v < 2 ^ 31 \<longrightarrow> v_now (view d) = set_version (uint v) (v_now (co_view (C s)))" by simp_all
    from r True have "r = Done ()" by simp
    then show ?thesis using now c s0 by (simp add: exI [of _ "view d"])
  next
    case False
    with r law c s0 show ?thesis by (auto intro!: exI [of _ "view d"])
  qed
qed

lemma small_version:
  "0 \<le> n \<Longrightarrow> n < 2 ^ 31 \<Longrightarrow> uint (ucast (of_int n :: u64) :: u32) = n \<and> \<not> 4294967295 < (of_int n :: u64)"
  by (simp add: unsigned_ucast_eq word_less_def uint_word_of_int take_bit_int_eq_self)

lemma version_query:
  assumes "in_connection (query_u32 E SQL_USER_VERSION MIG ESDB_ERR_MIGRATION msg) s = (r, s')"
  shows "case r of
      Done v \<Rightarrow> C s' = C s \<and> version (v_now (co_view (C s))) = uint v
    | Failed st e \<Rightarrow> \<exists>v'. quiet_failure (co_view (C s)) v' \<and> C s' = (C s)\<lparr>co_view := v'\<rparr>"
proof -
  let ?d = "cn_db (ss_connection s)"
  let ?n = "version (v_now (view ?d))"
  obtain rc1 d1 where p: "sq_prepare E SQL_USER_VERSION ?d = (rc1, d1)" by fastforce
  then have v1: "view d1 = view ?d" by (rule prepare_view)
  obtain rc2 rows d2 where st: "sq_step E SQL_USER_VERSION (\<lambda>_. Sql_Null) None d1 = (rc2, rows, d2)"
    by (metis prod_cases3)
  note law = read_version [OF st, unfolded v1]
  note defs = in_connection_def query_u32_def query_u64_def query_integer64_def chain_def prepare_def step_def
    cn_fail_def fail_with_def column_int64_def column_def give_def Let_def
  have cv: "co_view (C s) = view ?d" by (simp add: core_of_def Let_def)
  show ?thesis
  proof (cases "rc1 = SQLITE_OK \<and> (rc2 = SQLITE_ROW \<or> rc2 = SQLITE_DONE)")
    case False
    with assms p st v1 law have "\<exists>st e. r = Failed st e" "C s' = (C s)\<lparr>co_view := co_view (C s')\<rparr>"
      "quiet_failure (view ?d) (co_view (C s'))"
      by (auto simp: defs core_of_def quiet_failure_def split: if_splits)
    then show ?thesis unfolding cv by auto
  next
    case True
    with law have row: "rc2 = SQLITE_ROW" "rows = [[Sql_Int ?n]]" and v2: "view d2 = view ?d"
      by (auto split: if_splits)
    show ?thesis
    proof (cases "?n < 0")
      case neg: True
      with assms p st True row v2 have "\<exists>st e. r = Failed st e" "C s' = C s"
        by (auto simp: defs core_of_def)
      then show ?thesis by (auto simp: quiet_failure_def intro!: exI [of _ "co_view (C s)"])
    next
      case False
      with version_range [of "v_now (view ?d)"] have fits: "0 \<le> ?n" "?n < 2 ^ 31" by auto
      with small_version [OF this] assms p st True row v2 False
      have "r = Done (ucast (of_int ?n :: u64))" "C s' = C s"
        by (auto simp: defs core_of_def)
      with small_version [OF fits] cv show ?thesis by simp
    qed
  qed
qed

lemma version_get_core:
  assumes "counted (user_version_get E) s = (r, s')"
  shows "case r of
      Done v \<Rightarrow> C s' = C s \<and> version (v_now (co_view (C s))) = uint v
    | Failed st e \<Rightarrow> \<exists>v'. quiet_failure (co_view (C s)) v' \<and> C s' = (C s)\<lparr>co_view := v'\<rparr>"
  using version_query [OF assms [unfolded counted_def user_version_get_def]] by (cases r) simp_all

section \<open>One step\<close>

lemma apply_core:
  assumes "apply_migration E i m s = (r, s')" and "keeps_transaction view effect m"
    and "co_active (C s)" and "v_frames (co_view (C s)) \<noteq> []"
  shows "case r of
      Done _ \<Rightarrow> \<exists>v'. C s' = (C s)\<lparr>co_view := v'\<rparr> \<and> v_frames v' = v_frames (co_view (C s)) \<and>
        (unat (mg_to_version m) < 2 ^ 31 \<longrightarrow>
          v_now v' = set_version (uint (mg_to_version m)) (effect m (v_now (co_view (C s)))))
    | Failed st e \<Rightarrow> committed (co_view (C s')) = committed (co_view (C s))"
proof -
  obtain a s1 where run: "the (mg_apply m) (mg_from_version m) (mg_to_version m) s = (a, s1)" by fastforce
  note keeps = assms(2) [unfolded keeps_transaction_def, rule_format, OF assms(3,4) run]
  show ?thesis
  proof (cases "a \<noteq> None \<and> fst (the a) = ESDB_OK")
    case False
    with keeps assms(4) have same: "committed (co_view (C s1)) = committed (co_view (C s))"
      by (auto simp: committed_def rolled_back_def)
    have "\<exists>st c msg. in_connection (cn_fail E st MIG c msg) (abandon E i s1) = (r, s')"
      using assms(1) run False
      by (cases a) (auto simp: apply_migration_def callback_failure_def split: prod.splits)
    then obtain st c msg where f: "in_connection (cn_fail E st MIG c msg) (abandon E i s1) = (r, s')" by blast
    with failed_after [OF f] same show ?thesis by (cases r) (auto simp: abandon_committed)
  next
    case True
    with keeps have s1: "C s1 = (C s)\<lparr>co_view := (co_view (C s))\<lparr>v_now := effect m (v_now (co_view (C s)))\<rparr>\<rparr>"
      by simp
    from assms(1) run True have g: "guarded (abandon E i) (counted (user_version_set E (mg_to_version m))) s1 = (r, s')"
      by (auto simp: apply_migration_def)
    show ?thesis
    proof (cases r)
      case (Done u)
      with g have "counted (user_version_set E (mg_to_version m)) s1 = (Done u, s')" by simp
      from version_set_core [OF this] s1 Done show ?thesis by auto
    next
      case (Failed st e)
      with g obtain s2 where set: "counted (user_version_set E (mg_to_version m)) s1 = (Failed st e, s2)"
        and s': "s' = abandon E i s2" by (auto simp: guarded_Failed)
      from version_set_core [OF set] have "committed (co_view (C s2)) = committed (co_view (C s1))"
        by (auto simp: quiet_committed)
      moreover have "committed (co_view (C s1)) = committed (co_view (C s))"
        using assms(4) by (simp add: s1 committed_def)
      ultimately show ?thesis using Failed by (simp add: s' abandon_committed)
    qed
  qed
qed

section \<open>The whole run\<close>

lemma steps_core:
  assumes "migrate_steps E target_version migrations i current s = (r, s')"
    and "\<And>m. m \<in> set migrations \<Longrightarrow> keeps_transaction view effect m"
    and "co_active (C s)" and "v_frames (co_view (C s)) \<noteq> []"
  shows "case r of
      Done _ \<Rightarrow> \<exists>v'. C s' = (C s)\<lparr>co_view := v'\<rparr> \<and> v_frames v' = v_frames (co_view (C s)) \<and>
        (unat target_version < 2 ^ 31 \<longrightarrow>
          upgrades set_version effect migrations (unat target_version - unat current) current
            (v_now (co_view (C s))) = Some (v_now v'))
    | Failed st e \<Rightarrow> committed (co_view (C s')) = committed (co_view (C s))"
  using assms(1,3,4)
proof (induction "unat target_version - unat current" arbitrary: current s)
  case 0
  then have "\<not> current < target_version" by (simp add: word_less_nat_alt)
  with 0 show ?case by (auto simp: migrate_steps.simps [of E target_version] intro!: exI [of _ "co_view (C s)"])
next
  case (Suc n)
  then have less: "current < target_version" by (simp add: word_less_nat_alt)
  have n: "unat target_version - unat (current + 1) = n"
    using Suc.hyps(2) by (simp add: next_version [OF less])
  show ?case
  proof (cases "find_migration migrations current")
    case None
    with Suc.prems(1) less have "in_connection (cn_fail E ESDB_ERR_MIGRATION MIG SQLITE_NOTFOUND
        (Some ''missing contiguous migration step'')) (abandon E i s) = (r, s')"
      by (simp add: migrate_steps.simps [of E target_version])
    from failed_after [OF this] show ?thesis by (cases r) (auto simp: abandon_committed)
  next
    case (Some m)
    note m = find_migration_Some [OF Some]
    obtain r1 s1 where step1: "apply_migration E i m s = (r1, s1)" by fastforce
    note core = apply_core [OF step1 assms(2) [OF m(1)] Suc.prems(2,3)]
    have unfolded: "(case r1 of Failed status e \<Rightarrow> (Failed status e, s1)
        | Done _ \<Rightarrow> migrate_steps E target_version migrations i (current + 1) s1) = (r, s')"
      using Suc.prems(1) less Some step1 m(3)
      by (auto simp: migrate_steps.simps [of E target_version migrations i current] split: outcome.splits)
    show ?thesis
    proof (cases r1)
      case (Failed st e)
      with unfolded core show ?thesis by auto
    next
      case (Done u)
      with core obtain v1 where c1: "C s1 = (C s)\<lparr>co_view := v1\<rparr>" "v_frames v1 = v_frames (co_view (C s))"
        and now: "unat (current + 1) < 2 ^ 31 \<longrightarrow>
          v_now v1 = set_version (uint (current + 1)) (effect m (v_now (co_view (C s))))"
        unfolding m(3) by auto
      from unfolded Done have rest: "migrate_steps E target_version migrations i (current + 1) s1 = (r, s')" by simp
      have open1: "co_active (C s1)" "v_frames (co_view (C s1)) \<noteq> []" using c1 Suc.prems(2,3) by simp_all
      from Suc.hyps(1) [OF n [symmetric] rest open1, unfolded n]
      have IH: "case r of
          Done _ \<Rightarrow> \<exists>v'. C s' = (C s1)\<lparr>co_view := v'\<rparr> \<and> v_frames v' = v_frames (co_view (C s1)) \<and>
            (unat target_version < 2 ^ 31 \<longrightarrow>
              upgrades set_version effect migrations n (current + 1) (v_now (co_view (C s1))) = Some (v_now v'))
        | Failed st e \<Rightarrow> committed (co_view (C s')) = committed (co_view (C s1))"
        .
      have "unat target_version < 2 ^ 31 \<Longrightarrow> unat (current + 1) < 2 ^ 31"
        using less by (simp add: next_version word_less_nat_alt)
      with IH c1 now Some Suc.hyps(2) Suc.prems(3) show ?thesis
        by (cases r) (auto simp: Suc.hyps(2) [symmetric] committed_def)
    qed
  qed
qed

text \<open>The end of a run: the commit and the destruction of its handle.\<close>

lemma commit_and_destroy:
  assumes "counted (finish_transaction E True i) s = (r, s')" and "v_frames (co_view (C s)) \<noteq> []"
  shows "case r of
      Done _ \<Rightarrow> co_view (C (destroy_transaction E i s')) = (co_view (C s))\<lparr>v_frames := []\<rparr>
    | Failed st e \<Rightarrow> committed (co_view (C (destroy_transaction E i s'))) = committed (co_view (C s))"
proof -
  from counted_finish [OF assms(1)] obtain s0 where s0: "C s0 = C s"
    and f: "finish_transaction E True i s0 = (r, s')" by blast
  show ?thesis
  proof (cases r)
    case (Failed st e)
    with finish_committed [OF f] s0 show ?thesis by (simp add: destroy_committed)
  next
    case (Done u)
    with finish_core [OF f] s0 have c: "C s' = ended i ((co_view (C s))\<lparr>v_frames := []\<rparr>) (C s)" by simp
    have "co_objects (C s') i \<noteq> Some True" by (simp add: c ended_def)
    moreover obtain w where "C (destroy_transaction E i s') = (let c = (if co_objects (C s') i = Some True then
        if v_frames w = [] then ended i w (C s') else (C s')\<lparr>co_view := w, co_active := True\<rparr>
      else C s') in c\<lparr>co_objects := (co_objects c)(i := None)\<rparr>)"
      using destroy_core [of i s'] by blast
    ultimately have "co_view (C (destroy_transaction E i s')) = (co_view (C s))\<lparr>v_frames := []\<rparr>"
      by (simp add: c Let_def)
    with Done show ?thesis by simp
  qed
qed

text \<open>A run inside the transaction it began.\<close>

definition run_migrations ::
  "u32 \<Rightarrow> 'd migration list \<Rightarrow> nat \<Rightarrow> u32 \<Rightarrow> ('d, unit) session_action" where
  "run_migrations target_version migrations i current =
     chain (migrate_steps E target_version migrations i current) (\<lambda>_ s.
       case counted (finish_transaction E True i) s of (r, s) \<Rightarrow> (r, destroy_transaction E i s))"

lemma run_core:
  assumes "run_migrations target_version migrations i current s = (r, s')"
    and "\<And>m. m \<in> set migrations \<Longrightarrow> keeps_transaction view effect m"
    and "co_active (C s)" and "v_frames (co_view (C s)) \<noteq> []"
  shows "case r of
      Done _ \<Rightarrow> v_frames (co_view (C s')) = [] \<and>
        (unat target_version < 2 ^ 31 \<longrightarrow>
          upgrades set_version effect migrations (unat target_version - unat current) current
            (v_now (co_view (C s))) = Some (v_now (co_view (C s'))))
    | Failed st e \<Rightarrow> committed (co_view (C s')) = committed (co_view (C s))"
proof -
  obtain r2 s2 where steps: "migrate_steps E target_version migrations i current s = (r2, s2)" by fastforce
  note core = steps_core [OF steps assms(2,3,4)]
  show ?thesis
  proof (cases r2)
    case (Failed st e)
    with assms(1) steps have "r = Failed st e" "s' = s2" by (auto simp: run_migrations_def chain_def)
    with core Failed show ?thesis by simp
  next
    case stepped: (Done u)
    with core obtain v2 where c2: "C s2 = (C s)\<lparr>co_view := v2\<rparr>" and v2: "v_frames v2 = v_frames (co_view (C s))"
      and up2: "unat target_version < 2 ^ 31 \<longrightarrow>
        upgrades set_version effect migrations (unat target_version - unat current) current
          (v_now (co_view (C s))) = Some (v_now v2)" by auto
    obtain r3 s3 where fin: "counted (finish_transaction E True i) s2 = (r3, s3)" by fastforce
    from assms(1) stepped steps fin have r: "r = r3" and s': "s' = destroy_transaction E i s3"
      by (auto simp: run_migrations_def chain_def)
    have same: "committed v2 = committed (co_view (C s))" using v2 assms(4) by (simp add: committed_def)
    have "v_frames (co_view (C s2)) \<noteq> []" using c2 v2 assms(4) by simp
    from commit_and_destroy [OF fin this] up2 same show ?thesis
      by (cases r3) (simp_all add: r s' c2)
  qed
qed

lemma begun_core:
  assumes "chain (counted (begin_transaction E object mode)) (\<lambda>i. run_migrations target_version migrations i current) s = (r, s')"
    and "\<And>m. m \<in> set migrations \<Longrightarrow> keeps_transaction view effect m"
  shows "case r of
      Done _ \<Rightarrow> v_frames (co_view (C s)) = [] \<and> v_frames (co_view (C s')) = [] \<and>
        (unat target_version < 2 ^ 31 \<longrightarrow>
          upgrades set_version effect migrations (unat target_version - unat current) current
            (v_now (co_view (C s))) = Some (v_now (co_view (C s'))))
    | Failed st e \<Rightarrow> committed (co_view (C s')) = committed (co_view (C s))"
proof -
  obtain r1 s1 where tx_start: "counted (begin_transaction E object mode) s = (r1, s1)" by fastforce
  then obtain s0 where s0: "C s0 = C s" and b: "begin_transaction E object mode s0 = (r1, s1)"
    by (auto simp: counted_def intro: that [OF core_of_metrics])
  show ?thesis
  proof (cases r1)
    case (Failed st e)
    with assms(1) tx_start have "r = Failed st e" "s' = s1" by (auto simp: chain_def)
    with begin_committed [OF b] s0 show ?thesis by simp
  next
    case (Done i)
    with begin_core [OF b] s0 have closed: "v_frames (co_view (C s)) = []"
      and c1: "co_view (C s1) = push_frame F_Begin (co_view (C s))" "co_active (C s1)" by auto
    from assms(1) tx_start Done have "run_migrations target_version migrations i current s1 = (r, s')"
      by (simp add: chain_def)
    from run_core [OF this assms(2) c1(2)] c1(1) closed show ?thesis
      by (cases r) (simp_all add: push_committed)
  qed
qed

lemma migrate_core:
  assumes "migrate E object target_version migrations s = (r, s')"
    and "\<And>m. m \<in> set migrations \<Longrightarrow> keeps_transaction view effect m"
  shows "case r of
      Done _ \<Rightarrow>
        (version (v_now (co_view (C s))) = uint target_version \<and> C s' = C s) \<or>
        (v_frames (co_view (C s)) = [] \<and> v_frames (co_view (C s')) = [] \<and>
         (unat target_version < 2 ^ 31 \<longrightarrow>
           version (v_now (co_view (C s))) < uint target_version \<and>
           upgrades set_version effect migrations
             (unat target_version - nat (version (v_now (co_view (C s)))))
             (of_int (version (v_now (co_view (C s))))) (v_now (co_view (C s))) =
           Some (v_now (co_view (C s')))))
    | Failed st e \<Rightarrow> committed (co_view (C s')) = committed (co_view (C s))"
proof -
  obtain r0 s0 where get: "counted (user_version_get E) s = (r0, s0)" by fastforce
  note got = version_get_core [OF get]
  show ?thesis
  proof (cases r0)
    case (Failed st e)
    with assms(1) get have "r = Failed st e" "s' = s0" by (auto simp: migrate_def chain_def)
    with got Failed show ?thesis by (auto simp: quiet_committed)
  next
    case (Done current)
    with got have c0: "C s0 = C s" and version: "version (v_now (co_view (C s))) = uint current" by auto
    consider (equal) "current = target_version" | (down) "target_version < current"
      | (up) "current < target_version" by (metis linorder_less_linear)
    then show ?thesis
    proof cases
      case equal
      with assms(1) get Done have "r = Done ()" "s' = s0" by (auto simp: migrate_def chain_def give_def)
      with version c0 equal show ?thesis by simp
    next
      case down
      then have "current \<noteq> target_version" by auto
      with down assms(1) get Done have "in_connection (cn_fail E ESDB_ERR_UNSUPPORTED MIG SQLITE_MISUSE
          (Some ''downgrade migrations are not supported by esdb_migrate'')) s0 = (r, s')"
        by (auto simp: migrate_def chain_def)
      from failed_after [OF this] c0 show ?thesis by (cases r) auto
    next
      case up
      then have "\<not> target_version < current" "current \<noteq> target_version" by auto
      with assms(1) get Done have "chain (counted (begin_transaction E object ESDB_TRANSACTION_IMMEDIATE))
          (\<lambda>i. run_migrations target_version migrations i current) s0 = (r, s')"
        by (simp add: migrate_def run_migrations_def chain_def)
      from begun_core [OF this assms(2)] c0 version up show ?thesis
        by (cases r) (simp_all add: word_less_def)
    qed
  qed
qed

end

end
