(* ===== verification/Runtime_Open.thy ===== *)
theory Runtime_Open
  imports Runtime_Upkeep
begin

text \<open>
  Opening and configuring a connection, and its health report (src/esdb_runtime.cpp). The
  requests are raw 32-bit codes, validated before anything is opened; every setting is read
  back after it was applied.
\<close>

section \<open>Open flags\<close>

abbreviation "ESDB_OPEN_READONLY \<equiv> (1 :: u32)"
abbreviation "ESDB_OPEN_READWRITE \<equiv> (2 :: u32)"
abbreviation "ESDB_OPEN_CREATE \<equiv> (4 :: u32)"
abbreviation "ESDB_OPEN_URI \<equiv> (8 :: u32)"
abbreviation "ESDB_OPEN_FULLMUTEX \<equiv> (16 :: u32)"
abbreviation "ESDB_OPEN_NOMUTEX \<equiv> (32 :: u32)"
abbreviation "ESDB_OPEN_NOFOLLOW \<equiv> (64 :: u32)"

text \<open>The flags of sqlite3.h (src/third_party/sqlite/sqlite3.h).\<close>

abbreviation "SQLITE_OPEN_READONLY \<equiv> (0x1 :: u32)"
abbreviation "SQLITE_OPEN_READWRITE \<equiv> (0x2 :: u32)"
abbreviation "SQLITE_OPEN_CREATE \<equiv> (0x4 :: u32)"
abbreviation "SQLITE_OPEN_URI \<equiv> (0x40 :: u32)"
abbreviation "SQLITE_OPEN_NOMUTEX \<equiv> (0x8000 :: u32)"
abbreviation "SQLITE_OPEN_FULLMUTEX \<equiv> (0x10000 :: u32)"
abbreviation "SQLITE_OPEN_NOFOLLOW \<equiv> (0x1000000 :: u32)"

definition has_flag :: "u32 \<Rightarrow> u32 \<Rightarrow> bool" where
  "has_flag flags flag \<longleftrightarrow> and flags flag \<noteq> 0"

definition sqlite_open_flags :: "u32 \<Rightarrow> u32" where
  "sqlite_open_flags flags =
     (let add = (\<lambda>flag sqlite_flag result. if has_flag flags flag then or result sqlite_flag else result)
      in add ESDB_OPEN_NOFOLLOW SQLITE_OPEN_NOFOLLOW
        (add ESDB_OPEN_NOMUTEX SQLITE_OPEN_NOMUTEX
        (add ESDB_OPEN_FULLMUTEX SQLITE_OPEN_FULLMUTEX
        (add ESDB_OPEN_URI SQLITE_OPEN_URI
        (add ESDB_OPEN_CREATE SQLITE_OPEN_CREATE
        (add ESDB_OPEN_READWRITE SQLITE_OPEN_READWRITE
        (add ESDB_OPEN_READONLY SQLITE_OPEN_READONLY 0)))))))"

definition known_flags :: u32 where
  "known_flags =
     or ESDB_OPEN_READONLY (or ESDB_OPEN_READWRITE (or ESDB_OPEN_CREATE (or ESDB_OPEN_URI
       (or ESDB_OPEN_FULLMUTEX (or ESDB_OPEN_NOMUTEX ESDB_OPEN_NOFOLLOW)))))"

definition valid_open_flags :: "u32 \<Rightarrow> bool" where
  "valid_open_flags flags =
     (let ro = has_flag flags ESDB_OPEN_READONLY; rw = has_flag flags ESDB_OPEN_READWRITE in
      if and flags (not known_flags) \<noteq> 0 then False
      else if ro = rw then False
      else if ro \<and> has_flag flags ESDB_OPEN_CREATE then False
      else if has_flag flags ESDB_OPEN_FULLMUTEX \<and> has_flag flags ESDB_OPEN_NOMUTEX then False
      else True)"

section \<open>Journal and synchronous modes\<close>

abbreviation "ESDB_JOURNAL_UNCHANGED \<equiv> (0 :: u32)"
abbreviation "ESDB_JOURNAL_DELETE \<equiv> (1 :: u32)"
abbreviation "ESDB_JOURNAL_TRUNCATE \<equiv> (2 :: u32)"
abbreviation "ESDB_JOURNAL_PERSIST \<equiv> (3 :: u32)"
abbreviation "ESDB_JOURNAL_MEMORY \<equiv> (4 :: u32)"
abbreviation "ESDB_JOURNAL_WAL \<equiv> (5 :: u32)"
abbreviation "ESDB_JOURNAL_OFF \<equiv> (6 :: u32)"

abbreviation "ESDB_SYNCHRONOUS_UNCHANGED \<equiv> (0 :: u32)"
abbreviation "ESDB_SYNCHRONOUS_OFF \<equiv> (1 :: u32)"
abbreviation "ESDB_SYNCHRONOUS_NORMAL \<equiv> (2 :: u32)"
abbreviation "ESDB_SYNCHRONOUS_FULL \<equiv> (3 :: u32)"
abbreviation "ESDB_SYNCHRONOUS_EXTRA \<equiv> (4 :: u32)"

abbreviation "WAL_AUTOCHECKPOINT_UNCHANGED \<equiv> (0xffffffff :: u32)"

definition valid_journal_request :: "u32 \<Rightarrow> bool" where
  "valid_journal_request mode \<longleftrightarrow>
     mode = ESDB_JOURNAL_UNCHANGED \<or> mode = ESDB_JOURNAL_DELETE \<or> mode = ESDB_JOURNAL_TRUNCATE \<or>
     mode = ESDB_JOURNAL_PERSIST \<or> mode = ESDB_JOURNAL_WAL"

definition valid_synchronous_request :: "u32 \<Rightarrow> bool" where
  "valid_synchronous_request mode \<longleftrightarrow>
     mode = ESDB_SYNCHRONOUS_UNCHANGED \<or> mode = ESDB_SYNCHRONOUS_NORMAL \<or>
     mode = ESDB_SYNCHRONOUS_FULL \<or> mode = ESDB_SYNCHRONOUS_EXTRA"

definition journal_mode_sql :: "u32 \<Rightarrow> string option" where
  "journal_mode_sql mode =
     (if mode = ESDB_JOURNAL_DELETE then Some ''PRAGMA journal_mode=DELETE;''
      else if mode = ESDB_JOURNAL_TRUNCATE then Some ''PRAGMA journal_mode=TRUNCATE;''
      else if mode = ESDB_JOURNAL_PERSIST then Some ''PRAGMA journal_mode=PERSIST;''
      else if mode = ESDB_JOURNAL_MEMORY then Some ''PRAGMA journal_mode=MEMORY;''
      else if mode = ESDB_JOURNAL_WAL then Some ''PRAGMA journal_mode=WAL;''
      else None)"

definition synchronous_sql :: "u32 \<Rightarrow> string option" where
  "synchronous_sql mode =
     (if mode = ESDB_SYNCHRONOUS_NORMAL then Some ''PRAGMA synchronous=NORMAL;''
      else if mode = ESDB_SYNCHRONOUS_FULL then Some ''PRAGMA synchronous=FULL;''
      else if mode = ESDB_SYNCHRONOUS_EXTRA then Some ''PRAGMA synchronous=EXTRA;''
      else None)"

definition parse_journal_mode :: "byte list option \<Rightarrow> u32" where
  "parse_journal_mode text =
     (case map_option c_bytes text of
        None \<Rightarrow> ESDB_JOURNAL_UNCHANGED
      | Some t \<Rightarrow>
          if t = ascii ''delete'' then ESDB_JOURNAL_DELETE
          else if t = ascii ''truncate'' then ESDB_JOURNAL_TRUNCATE
          else if t = ascii ''persist'' then ESDB_JOURNAL_PERSIST
          else if t = ascii ''memory'' then ESDB_JOURNAL_MEMORY
          else if t = ascii ''wal'' then ESDB_JOURNAL_WAL
          else if t = ascii ''off'' then ESDB_JOURNAL_OFF
          else ESDB_JOURNAL_UNCHANGED)"

definition parse_synchronous :: "int \<Rightarrow> u32" where
  "parse_synchronous raw =
     (if raw = 0 then ESDB_SYNCHRONOUS_OFF
      else if raw = 1 then ESDB_SYNCHRONOUS_NORMAL
      else if raw = 2 then ESDB_SYNCHRONOUS_FULL
      else if raw = 3 then ESDB_SYNCHRONOUS_EXTRA
      else ESDB_SYNCHRONOUS_UNCHANGED)"

section \<open>Open options\<close>

definition OPEN_OPTIONS_SIZE :: u32 where "OPEN_OPTIONS_SIZE = 56"

definition esdb_open_options_init :: open_options where
  "esdb_open_options_init =
     \<lparr>oo_flags = or ESDB_OPEN_READWRITE (or ESDB_OPEN_CREATE ESDB_OPEN_FULLMUTEX),
      oo_busy_timeout_ms = 5000, oo_journal_mode = ESDB_JOURNAL_UNCHANGED,
      oo_synchronous = ESDB_SYNCHRONOUS_UNCHANGED, oo_cache_kib = 0,
      oo_wal_autocheckpoint_pages = WAL_AUTOCHECKPOINT_UNCHANGED, oo_foreign_keys = 1,
      oo_storage_mode = ESDB_STORAGE_DEFAULT, oo_storage_provider = ESDB_PROVIDER_AUTO,
      oo_compression_codec = ESDB_CODEC_NONE, oo_compression_level = 0, oo_reserved = [0, 0]\<rparr>"

text \<open>A refused request: status, SQLite code, message.\<close>

definition refuse :: "(int \<Rightarrow> string) \<Rightarrow> esdb_status \<Rightarrow> int \<Rightarrow> string \<Rightarrow> 'a outcome" where
  "refuse errstr status sqlite_code message = Failed status (open_error errstr status sqlite_code message)"

definition validate_plain_request :: "(int \<Rightarrow> string) \<Rightarrow> open_options \<Rightarrow> unit outcome" where
  "validate_plain_request errstr o1 =
     (if oo_storage_provider o1 \<noteq> ESDB_PROVIDER_AUTO \<and> oo_storage_provider o1 \<noteq> ESDB_PROVIDER_SQLITE
      then refuse errstr ESDB_ERR_INVALID_ARGUMENT SQLITE_MISUSE
             ''plain storage cannot use a compressed storage provider''
      else if oo_compression_codec o1 \<noteq> ESDB_CODEC_NONE \<or> oo_compression_level o1 \<noteq> 0
      then refuse errstr ESDB_ERR_INVALID_ARGUMENT SQLITE_MISUSE
             ''plain storage requires codec=NONE and compression_level=0''
      else Done ())"

definition validate_compressed_request :: "(int \<Rightarrow> string) \<Rightarrow> build \<Rightarrow> open_options \<Rightarrow> unit outcome" where
  "validate_compressed_request errstr b o1 =
     (if oo_storage_provider o1 \<noteq> ESDB_PROVIDER_AUTO \<and> oo_storage_provider o1 \<noteq> ESDB_PROVIDER_ZIPVFS
      then refuse errstr ESDB_ERR_INVALID_ARGUMENT SQLITE_MISUSE
             ''compressed storage requires ZIPVFS or AUTO provider selection''
      else if oo_compression_codec o1 \<noteq> ESDB_CODEC_ZSTD \<and> oo_compression_codec o1 \<noteq> ESDB_CODEC_DEFLATE
      then refuse errstr ESDB_ERR_INVALID_ARGUMENT SQLITE_MISUSE
             ''compressed storage requires ZSTD or DEFLATE codec selection''
      else if \<not> zipvfs_compiled b
      then refuse errstr ESDB_ERR_UNSUPPORTED SQLITE_NOTFOUND
             ''this ESDB build does not contain licensed ZIPVFS support''
      else if oo_compression_codec o1 = ESDB_CODEC_ZSTD \<and> \<not> zipvfs_zstd_compiled b
      then refuse errstr ESDB_ERR_UNSUPPORTED SQLITE_NOTFOUND
             ''this ZIPVFS build does not contain the optional Zstd codec''
      else if oo_journal_mode o1 \<noteq> ESDB_JOURNAL_UNCHANGED \<and> oo_journal_mode o1 \<noteq> ESDB_JOURNAL_WAL
      then refuse errstr ESDB_ERR_UNSUPPORTED SQLITE_MISUSE
             ''ZIPVFS currently supports ESDB journal selection UNCHANGED or WAL''
      else if oo_synchronous o1 \<noteq> ESDB_SYNCHRONOUS_UNCHANGED
      then refuse errstr ESDB_ERR_UNSUPPORTED SQLITE_MISUSE
             ''ZIPVFS lower-pager synchronous tuning is provider-specific; leave ESDB synchronous UNCHANGED''
      else Done ())"

definition validate_storage_request :: "(int \<Rightarrow> string) \<Rightarrow> build \<Rightarrow> open_options \<Rightarrow> unit outcome" where
  "validate_storage_request errstr b o1 =
     (if oo_storage_mode o1 = ESDB_STORAGE_DEFAULT \<or> oo_storage_mode o1 = ESDB_STORAGE_PLAIN
      then validate_plain_request errstr o1
      else if oo_storage_mode o1 = ESDB_STORAGE_COMPRESSED then validate_compressed_request errstr b o1
      else refuse errstr ESDB_ERR_INVALID_ARGUMENT SQLITE_MISUSE ''unknown storage mode'')"

section \<open>Configuration\<close>

abbreviation "CFG \<equiv> ESDB_PHASE_CONFIGURE"

text \<open>
  \<open>op_open\<close> is \<open>sqlite3_open_v2\<close> of a path with flags and a VFS, \<open>op_busy_timeout\<close> is
  \<open>sqlite3_busy_timeout\<close>, \<open>op_zipvfs_stat\<close> the file control of the storage provider. Extended
  result codes, switched on first, have no other effect.
\<close>

record 'd open_api =
  op_open :: "byte list \<Rightarrow> u32 \<Rightarrow> string option \<Rightarrow> 'd opened"
  op_busy_timeout :: "int \<Rightarrow> 'd \<Rightarrow> int \<times> 'd"
  op_zipvfs_stat :: "'d \<Rightarrow> int"

definition unsupported :: "'d sqlite \<Rightarrow> string \<Rightarrow> ('d, 'a) action" where
  "unsupported E message = cn_fail E ESDB_ERR_UNSUPPORTED CFG SQLITE_MISMATCH (Some message)"

definition misuse :: "'d sqlite \<Rightarrow> string \<Rightarrow> ('d, 'a) action" where
  "misuse E message = cn_fail E ESDB_ERR_INVALID_ARGUMENT CFG SQLITE_MISUSE (Some message)"

text \<open>Apply a setting, read it back, and require what was asked for.\<close>

definition apply_and_verify ::
  "'d sqlite \<Rightarrow> string \<Rightarrow> string \<Rightarrow> int \<Rightarrow> string \<Rightarrow> ('d, unit) action" where
  "apply_and_verify E apply_sql query_sql expected message =
     chain (exec_sql E apply_sql CFG) (\<lambda>_.
     chain (query_i64 E query_sql CFG) (\<lambda>actual.
       if actual \<noteq> expected then unsupported E message else give ()))"

definition configure_busy_timeout :: "'d sqlite \<Rightarrow> 'd open_api \<Rightarrow> open_options \<Rightarrow> ('d, unit) action" where
  "configure_busy_timeout E A o1 cn =
     (if 2147483647 < oo_busy_timeout_ms o1
      then cn_fail E ESDB_ERR_INVALID_ARGUMENT CFG SQLITE_RANGE
             (Some ''busy timeout exceeds SQLite integer range'') cn
      else case op_busy_timeout A (uint (oo_busy_timeout_ms o1)) (cn_db cn) of
        (rc, d) \<Rightarrow>
          let cn = cn\<lparr>cn_db := d\<rparr> in
          if rc \<noteq> SQLITE_OK then cn_fail E (map_sqlite_status rc) CFG rc None cn else give () cn)"

definition configure_foreign_keys :: "'d sqlite \<Rightarrow> open_options \<Rightarrow> ('d, unit) action" where
  "configure_foreign_keys E o1 =
     apply_and_verify E
       (if oo_foreign_keys o1 \<noteq> 0 then ''PRAGMA foreign_keys=ON;'' else ''PRAGMA foreign_keys=OFF;'')
       ''PRAGMA foreign_keys;'' (uint (oo_foreign_keys o1))
       ''requested foreign_keys mode could not be applied exactly''"

definition journal_query_sql :: "open_options \<Rightarrow> string" where
  "journal_query_sql o1 =
     (if oo_storage_mode o1 = ESDB_STORAGE_COMPRESSED then ''PRAGMA zipvfs_journal_mode;''
      else ''PRAGMA journal_mode;'')"

definition read_journal_mode :: "'d sqlite \<Rightarrow> open_options \<Rightarrow> esdb_phase \<Rightarrow> ('d, u32) action" where
  "read_journal_mode E o1 phase =
     chain (prepare E (journal_query_sql o1) phase) (\<lambda>st.
     chain (step E phase st) (\<lambda>(rc, st).
       give (parse_journal_mode (if rc = SQLITE_ROW then column_text E st 0 else None))))"

definition configure_journal :: "'d sqlite \<Rightarrow> open_options \<Rightarrow> ('d, unit) action" where
  "configure_journal E o1 =
     (if oo_journal_mode o1 = ESDB_JOURNAL_OFF \<or> oo_journal_mode o1 = ESDB_JOURNAL_MEMORY
      then misuse E ''non-durable journal mode is not supported by the ESDB durability policy''
      else if oo_journal_mode o1 = ESDB_JOURNAL_UNCHANGED then give ()
      else
       case (if oo_storage_mode o1 = ESDB_STORAGE_COMPRESSED \<and> oo_journal_mode o1 = ESDB_JOURNAL_WAL
             then Some ''PRAGMA zipvfs_journal_mode=WAL;'' else journal_mode_sql (oo_journal_mode o1)) of
         None \<Rightarrow> misuse E ''unknown journal mode''
       | Some sql \<Rightarrow>
           chain (exec_sql E sql CFG) (\<lambda>_.
           chain (read_journal_mode E o1 CFG) (\<lambda>actual.
             if actual \<noteq> oo_journal_mode o1
             then unsupported E ''requested journal mode could not be applied exactly''
             else give ())))"

definition configure_synchronous :: "'d sqlite \<Rightarrow> open_options \<Rightarrow> ('d, unit) action" where
  "configure_synchronous E o1 =
     (if oo_synchronous o1 = ESDB_SYNCHRONOUS_OFF
      then misuse E ''synchronous=OFF is not supported by the ESDB durability policy''
      else if oo_synchronous o1 = ESDB_SYNCHRONOUS_UNCHANGED then give ()
      else case synchronous_sql (oo_synchronous o1) of
        None \<Rightarrow> misuse E ''unknown synchronous mode''
      | Some sql \<Rightarrow>
          apply_and_verify E sql ''PRAGMA synchronous;''
            (if oo_synchronous o1 = ESDB_SYNCHRONOUS_NORMAL then 1
             else if oo_synchronous o1 = ESDB_SYNCHRONOUS_FULL then 2 else 3)
            ''requested synchronous mode could not be applied exactly'')"

definition configure_cache :: "'d sqlite \<Rightarrow> open_options \<Rightarrow> ('d, unit) action" where
  "configure_cache E o1 =
     (if oo_cache_kib o1 = 0 then give ()
      else apply_and_verify E
        (snprintf_text 64 (''PRAGMA cache_size=-'' @ chars (decimal (unat (oo_cache_kib o1))) @ '';''))
        ''PRAGMA cache_size;'' (- uint (oo_cache_kib o1)) ''requested cache size could not be applied exactly'')"

definition configure_autocheckpoint :: "'d sqlite \<Rightarrow> open_options \<Rightarrow> ('d, unit) action" where
  "configure_autocheckpoint E o1 =
     (if oo_wal_autocheckpoint_pages o1 = WAL_AUTOCHECKPOINT_UNCHANGED then give ()
      else apply_and_verify E
        (snprintf_text 64
          (''PRAGMA wal_autocheckpoint='' @ chars (decimal (unat (oo_wal_autocheckpoint_pages o1))) @ '';''))
        ''PRAGMA wal_autocheckpoint;'' (uint (oo_wal_autocheckpoint_pages o1))
        ''requested WAL autocheckpoint could not be applied exactly'')"

definition configure_database :: "'d sqlite \<Rightarrow> 'd open_api \<Rightarrow> open_options \<Rightarrow> ('d, unit) action" where
  "configure_database E A o1 =
     chain (configure_busy_timeout E A o1) (\<lambda>_.
     chain (configure_foreign_keys E o1) (\<lambda>_.
     chain (configure_journal E o1) (\<lambda>_.
     chain (configure_synchronous E o1) (\<lambda>_.
     chain (configure_cache E o1) (\<lambda>_. configure_autocheckpoint E o1)))))"

section \<open>Opening\<close>

definition first_outcome :: "unit outcome \<Rightarrow> 'a outcome \<Rightarrow> 'a outcome" where
  "first_outcome r continue = (case r of Done _ \<Rightarrow> continue | Failed status e \<Rightarrow> Failed status e)"

definition require_open :: "(int \<Rightarrow> string) \<Rightarrow> bool \<Rightarrow> string \<Rightarrow> unit outcome" where
  "require_open errstr ok message =
     (if ok then Done () else refuse errstr ESDB_ERR_INVALID_ARGUMENT SQLITE_MISUSE message)"

text \<open>The options come with their declared size; without any the documented defaults hold.\<close>

definition resolve_options :: "(int \<Rightarrow> string) \<Rightarrow> (u32 \<times> open_options) option \<Rightarrow> open_options outcome" where
  "resolve_options errstr options =
     (case options of
        None \<Rightarrow> Done esdb_open_options_init
      | Some (struct_size, o1) \<Rightarrow>
          if struct_size \<noteq> OPEN_OPTIONS_SIZE
          then refuse errstr ESDB_ERR_INVALID_ARGUMENT SQLITE_MISUSE ''open options struct_size mismatch''
          else Done o1)"

definition validate_modes :: "(int \<Rightarrow> string) \<Rightarrow> build \<Rightarrow> open_options \<Rightarrow> unit outcome" where
  "validate_modes errstr b o1 =
     first_outcome (require_open errstr (valid_open_flags (oo_flags o1)) ''invalid or unknown open flags'')
     (first_outcome (require_open errstr (valid_journal_request (oo_journal_mode o1))
        ''invalid, unknown, or non-durable journal mode'')
     (first_outcome (require_open errstr (valid_synchronous_request (oo_synchronous o1))
        ''invalid, unknown, or non-durable synchronous mode'')
     (validate_storage_request errstr b o1)))"

definition validate_rest :: "(int \<Rightarrow> string) \<Rightarrow> open_options \<Rightarrow> unit outcome" where
  "validate_rest errstr o1 =
     first_outcome (require_open errstr (oo_foreign_keys o1 \<le> 1) ''foreign_keys must be 0 or 1'')
     (require_open errstr (list_all (\<lambda>r. r = 0) (oo_reserved o1)) ''reserved open options must be zero'')"

definition new_connection :: "'d \<Rightarrow> 'd connection" where
  "new_connection d =
     \<lparr>cn_db = d, cn_transaction_active = False, cn_active_transaction = None, cn_savepoints = [],
      cn_schema_ready = False,
      cn_metrics = \<lparr>dm_operation_count = 1, dm_error_count = 0, dm_busy_count = 0, dm_commit_count = 0,
        dm_rollback_count = 0, dm_last_error = clear_error\<rparr>\<rparr>"

text \<open>A handle that was opened but not verified or configured is closed again.\<close>

definition open_connection ::
  "'d sqlite \<Rightarrow> 'd open_api \<Rightarrow> build \<Rightarrow> bool \<Rightarrow> byte list \<Rightarrow> open_options \<Rightarrow> string option
   \<Rightarrow> 'd session outcome" where
  "open_connection E A b error_given path o1 vfs =
     (case op_open A path (sqlite_open_flags (oo_flags o1)) vfs of
        Open_Failed rc handle \<Rightarrow>
          Failed (map_sqlite_status rc)
            (set_error (sq_errstr E) (map_option (sq_diagnosis E) handle) (map_sqlite_status rc)
               ESDB_PHASE_OPEN rc None)
      | Opened d \<Rightarrow>
         (case storage_verify_open E b (op_zipvfs_stat A) error_given o1 d of
            Failed status e \<Rightarrow> Failed status e
          | Done _ \<Rightarrow>
             (case configure_database E A o1 (new_connection d) of
                (Failed status e, _) \<Rightarrow> Failed status e
              | (Done _, cn) \<Rightarrow>
                  Done \<lparr>ss_connection = cn, ss_options = o1, ss_transactions = (\<lambda>_. None)\<rparr>)))"

definition esdb_open ::
  "'d sqlite \<Rightarrow> 'd open_api \<Rightarrow> build \<Rightarrow> 'z zip_libraries \<Rightarrow> exn option \<Rightarrow> bool \<Rightarrow> bool \<Rightarrow> bool
   \<Rightarrow> byte list option \<Rightarrow> (u32 \<times> open_options) option \<Rightarrow> bool \<Rightarrow> 'z zip_state
   \<Rightarrow> 'd session outcome \<times> 'z zip_state" where
  "esdb_open E A b Z thrown config_ok database_ok error_given path options out_given w =
     (let errstr = sq_errstr E in
      if path = None \<or> c_bytes (the path) = [] \<or> \<not> out_given
      then (refuse errstr ESDB_ERR_INVALID_ARGUMENT SQLITE_MISUSE ''path and out_database are required'', w)
      else case resolve_options errstr options of
        Failed status e \<Rightarrow> (Failed status e, w)
      | Done o1 \<Rightarrow>
         (case validate_modes errstr b o1 of
            Failed status e \<Rightarrow> (Failed status e, w)
          | Done _ \<Rightarrow>
             (case storage_vfs_select errstr b Z thrown config_ok error_given o1 w of
                (Failed status e, w) \<Rightarrow> (Failed status e, w)
              | (Done vfs, w) \<Rightarrow>
                  (first_outcome (validate_rest errstr o1)
                    (if \<not> database_ok
                     then refuse errstr ESDB_ERR_OUT_OF_MEMORY SQLITE_NOMEM ''database allocation failed''
                     else open_connection E A b error_given (c_bytes (the path)) o1 vfs), w))))"

text \<open>
  Closing ends the session: what is left is what \<open>sqlite3_close_v2\<close> (\<open>close_handle\<close>) leaves. No
  transaction object is looked at.
\<close>

definition esdb_close :: "('d \<Rightarrow> 'w) \<Rightarrow> 'd session option \<Rightarrow> 'w option" where
  "esdb_close close_handle database = map_option (\<lambda>s. close_handle (cn_db (ss_connection s))) database"

definition esdb_native_handle :: "'d session option \<Rightarrow> 'd option" where
  "esdb_native_handle database = map_option (\<lambda>s. cn_db (ss_connection s)) database"

section \<open>Capabilities and health\<close>

record backend_capabilities =
  bc_backend_id :: string
  bc_backend_version :: string
  bc_backend_version_number :: u32
  bc_supports :: "u32 list"
  bc_compression_supported :: u32
  bc_page_codec :: u32
  bc_codec_version :: u32
  bc_codec_id :: string

definition CAPABILITIES_SIZE :: u32 where "CAPABILITIES_SIZE = 156"

text \<open>The six \<open>supports_\<close> fields are one list; the library version is SQLite's.\<close>

definition esdb_backend_capabilities_get ::
  "(int \<Rightarrow> string) \<Rightarrow> build \<Rightarrow> string \<Rightarrow> u32 \<Rightarrow> u32 option \<Rightarrow> backend_capabilities outcome" where
  "esdb_backend_capabilities_get errstr b version version_number struct_size =
     (let misuse = (\<lambda>message. Failed ESDB_ERR_INVALID_ARGUMENT
            (set_error errstr None ESDB_ERR_INVALID_ARGUMENT ESDB_PHASE_NONE SQLITE_MISUSE (Some message)))
      in case struct_size of
        None \<Rightarrow> misuse ''out_capabilities is required''
      | Some size1 \<Rightarrow>
          if size1 \<noteq> 0 \<and> size1 \<noteq> CAPABILITIES_SIZE then misuse ''capabilities struct_size mismatch''
          else Done
            \<lparr>bc_backend_id = snprintf_text 32 (if zipvfs_compiled b then ''sqlite+zipvfs'' else ''sqlite''),
             bc_backend_version = snprintf_text 32 version, bc_backend_version_number = version_number,
             bc_supports = [1, 1, 1, 1, 1, 1],
             bc_compression_supported = (if zipvfs_compiled b then 1 else 0),
             bc_page_codec = ESDB_CODEC_NONE, bc_codec_version = 0,
             bc_codec_id = snprintf_text 32 (if zipvfs_compiled b
               then if zipvfs_zstd_compiled b then ''deflate,zstd'' else ''deflate'' else ''none'')\<rparr>)"

record database_health =
  dh_page_size :: u32
  dh_page_count :: u64
  dh_freelist_count :: u64
  dh_database_bytes :: u64
  dh_configured_cache_kib :: int
  dh_journal_mode :: u32
  dh_synchronous :: u32
  dh_storage_mode :: u32
  dh_storage_provider :: u32
  dh_compression_codec :: u32
  dh_compression_level :: u32
  dh_busy_timeout_ms :: u32
  dh_user_version :: u32
  dh_in_transaction :: u32
  dh_savepoint_depth :: u32
  dh_metrics :: db_metrics

definition HEALTH_SIZE :: u32 where "HEALTH_SIZE = 152"

text \<open>A positive cache size counts pages; the product is taken modulo \<open>2 ^ 64\<close>.\<close>

definition cache_kib :: "int \<Rightarrow> u64 \<Rightarrow> int" where
  "cache_kib cache page_size =
     (if cache < 0 then - cache
      else if 0 < cache \<and> 0 < page_size then uint ((of_int cache * page_size) div 1024)
      else 0)"

text \<open>
  The queries in the order of the code. The counters and the last error are read at the end, so
  they include the operations of the report itself; of the last error in \<open>dh_metrics\<close> the
  struct holds the status, the phase and the two codes.
\<close>

definition health_report :: "'d sqlite \<Rightarrow> ('d, database_health) session_action" where
  "health_report E s =
     (let o1 = ss_options s;
          compressed = (oo_storage_mode o1 = ESDB_STORAGE_COMPRESSED);
          u64_of = (\<lambda>sql. in_connection (query_u64 E sql ESDB_PHASE_HEALTH));
          i64_of = (\<lambda>sql. in_connection (query_i64 E sql ESDB_PHASE_HEALTH))
      in
       chain (u64_of ''PRAGMA page_size;'') (\<lambda>page_size.
       chain (u64_of ''PRAGMA page_count;'') (\<lambda>page_count.
       chain (u64_of ''PRAGMA freelist_count;'') (\<lambda>freelist_count.
       chain (i64_of ''PRAGMA cache_size;'') (\<lambda>cache.
       chain (i64_of ''PRAGMA synchronous;'') (\<lambda>synchronous.
       chain (i64_of ''PRAGMA busy_timeout;'') (\<lambda>busy_timeout.
       chain (counted (user_version_get E)) (\<lambda>user_version.
       chain (in_connection (read_journal_mode E o1 ESDB_PHASE_HEALTH)) (\<lambda>journal_mode s.
         let cn = ss_connection s in
         give
           \<lparr>dh_page_size = ucast page_size, dh_page_count = page_count,
            dh_freelist_count = freelist_count,
            dh_database_bytes = ucast (ucast page_size :: u32) * page_count,
            dh_configured_cache_kib = cache_kib cache page_size,
            dh_journal_mode = journal_mode, dh_synchronous = parse_synchronous synchronous,
            dh_storage_mode = oo_storage_mode o1,
            dh_storage_provider = (if compressed then ESDB_PROVIDER_ZIPVFS else ESDB_PROVIDER_SQLITE),
            dh_compression_codec = (if compressed then oo_compression_codec o1 else ESDB_CODEC_NONE),
            dh_compression_level = (if compressed then oo_compression_level o1 else 0),
            dh_busy_timeout_ms = (if 0 < busy_timeout then of_int busy_timeout else 0),
            dh_user_version = user_version,
            dh_in_transaction = (if cn_transaction_active cn then 1 else 0),
            dh_savepoint_depth = of_nat (length (cn_savepoints cn)),
            dh_metrics = cn_metrics cn\<rparr> s)))))))) s)"

definition esdb_database_health_get ::
  "'d sqlite \<Rightarrow> u32 option \<Rightarrow> 'd session option \<Rightarrow> database_health outcome \<times> 'd session option" where
  "esdb_database_health_get E struct_size =
     on_session (null_database E ESDB_PHASE_HEALTH SQLITE_MISUSE ''database and out_health are required'')
       (counted (case struct_size of
            None \<Rightarrow> in_connection (cn_fail E ESDB_ERR_INVALID_ARGUMENT ESDB_PHASE_HEALTH SQLITE_MISUSE
                     (Some ''database and out_health are required''))
          | Some size1 \<Rightarrow>
              if size1 \<noteq> 0 \<and> size1 \<noteq> HEALTH_SIZE
              then in_connection (cn_fail E ESDB_ERR_INVALID_ARGUMENT ESDB_PHASE_HEALTH SQLITE_MISUSE
                     (Some ''health struct_size mismatch''))
              else health_report E))"

end
