(* ===== verification/Runtime_Spec.thy ===== *)
theory Runtime_Spec
  imports Migration_Rules Runtime_Open Runtime_Query
begin

text \<open>
  The properties of transactions, savepoints and migrations, for every engine that satisfies the
  contract, with their witnesses on the reference engine.
\<close>

section \<open>Sessions on the reference engine\<close>

definition ver_view :: "int \<Rightarrow> ver_content tx_view" where
  "ver_view n = \<lparr>v_now = \<lparr>vc_version = n, vc_log = []\<rparr>, v_frames = []\<rparr>"

definition ver_session :: "int \<Rightarrow> (int \<times> bool) list \<Rightarrow> ver_db session" where
  "ver_session n script =
     \<lparr>ss_connection = new_connection \<lparr>vd_view = ver_view n, vd_script = script\<rparr>,
      ss_options = esdb_open_options_init, ss_transactions = (\<lambda>_. None)\<rparr>"

definition after :: "ver_db call list \<Rightarrow> ver_db session \<Rightarrow> ver_db session" where
  "after calls s = foldl (\<lambda>s c. snd (perform ver_sqlite c s)) s calls"

definition savepoint_a :: "byte list option" where "savepoint_a = Some [97]"
definition savepoint_b :: "byte list option" where "savepoint_b = Some [98]"
definition statement_x :: "byte list option" where "statement_x = Some (ascii ''X'')"

lemma ver_session_idle: "idle (core_of vd_view (ver_session n script))"
  by (simp add: idle_def core_of_def ver_session_def new_connection_def ver_view_def)

fun all_allowed :: "ver_db call list \<Rightarrow> ver_db session \<Rightarrow> bool" where
  "all_allowed [] s = True"
| "all_allowed (c # cs) s =
     (let s' = snd (perform ver_sqlite c s) in allowed vd_view c s s' \<and> all_allowed cs s')"

lemma reachable_after:
  "reachable ver_sqlite vd_view s \<Longrightarrow> all_allowed calls s \<Longrightarrow> reachable ver_sqlite vd_view (after calls s)"
proof (induction calls arbitrary: s)
  case (Cons c cs)
  obtain ok s' where "perform ver_sqlite c s = (ok, s')" by fastforce
  with Cons show ?case
    by (auto simp: after_def Let_def intro: reachable.called)
qed (simp add: after_def)

lemmas reachable_run = reachable_after [OF reachable.opened [OF ver_session_idle]]

section \<open>Savepoints and handles\<close>

text \<open>
  C6: in every session that beginning, committing, rolling back and destroying transactions,
  opening, releasing and rolling back savepoints, executing and querying SQL and writing the user
  version can reach, with any failure and any automatic rollback of SQLite on the way, the frames
  SQLite has open are exactly the innermost of the savepoints the connection tracks, then at most
  the BEGIN: so the savepoint a release or a rollback names is the one SQLite acts on. The stack
  never exceeds its 64 slots, and an active transaction handle is always the connection's current
  one, so there is never more than one. The SQL executed may be any that opens, releases and rolls
  back no savepoint itself: BEGIN, COMMIT and ROLLBACK included. Object-store calls and
  migrations are not among the calls.
\<close>

theorem reachable_sessions_track_savepoints:
  assumes "sql_transactions E view" and "reachable E view s"
  shows "(\<exists>k begun. k \<le> length (co_names (core_of view s)) \<and>
       map fst (v_frames (co_view (core_of view s))) =
         map (\<lambda>n. F_Savepoint (chars n)) (take k (rev (co_names (core_of view s)))) @
         (if begun then [F_Begin] else [])) \<and>
     esdb_savepoint_depth (Some s) \<le> 64 \<and>
     (\<forall>i j. esdb_transaction_active (Some (s, i)) = 1 \<longrightarrow> esdb_transaction_active (Some (s, j)) = 1 \<longrightarrow> i = j)"
proof -
  from sql_transactions.reachable_inv [OF assms] have inv: "session_inv (core_of view s)" .
  then have depth: "length (cn_savepoints (ss_connection s)) \<le> 64"
    by (simp add: session_inv_def SAVEPOINT_CAPACITY_def core_of_def Let_def)
  have active: "ss_transactions s i = Some True \<Longrightarrow> cn_active_transaction (ss_connection s) = Some i" for i
    using inv by (simp add: session_inv_def core_of_def Let_def)
  have "esdb_savepoint_depth (Some s) \<le> 64"
    using depth by (simp add: esdb_savepoint_depth_def word_le_nat_alt unat_of_nat)
  moreover have "esdb_transaction_active (Some (s, i)) = 1 \<Longrightarrow> esdb_transaction_active (Some (s, j)) = 1 \<Longrightarrow> i = j" for i j
    using active [of i] active [of j] by (auto simp: esdb_transaction_active_def split: if_splits)
  ultimately show ?thesis
    using inv unfolding session_inv_def tracks_def frame_names_def by blast
qed

text \<open>
  A savepoint inside a transaction and a second one, after a transaction the application began
  and committed with SQL of its own, the handle of which is not active any more.
\<close>

definition statement_begin :: "byte list option" where "statement_begin = Some (ascii ''BEGIN IMMEDIATE;'')"
definition statement_commit :: "byte list option" where "statement_commit = Some (ascii ''COMMIT;'')"

definition nested_calls :: "ver_db call list" where
  "nested_calls = [Call_Exec statement_begin, Call_Exec statement_commit, Call_Begin (Some 5) 0,
     Call_Exec statement_commit, Call_Begin (Some 7) 1, Call_Savepoint savepoint_a, Call_Exec statement_x,
     Call_Savepoint savepoint_b]"

theorem reachable_sessions_track_savepoints_witness:
  "(\<exists>k begun. k \<le> 2 \<and> map fst (v_frames (co_view (core_of vd_view (after nested_calls (ver_session 0 []))))) =
       map (\<lambda>n. F_Savepoint (chars n)) (take k [[98], [97]]) @ (if begun then [F_Begin] else [])) \<and>
   esdb_savepoint_depth (Some (after nested_calls (ver_session 0 []))) \<le> 64"
proof -
  have "all_allowed nested_calls (ver_session 0 [])" by code_simp
  note holds = reachable_sessions_track_savepoints [OF ver_tx.sql_transactions_axioms reachable_run [OF this]]
  have "rev (co_names (core_of vd_view (after nested_calls (ver_session 0 [])))) = [[98], [97]]"
    and "length (co_names (core_of vd_view (after nested_calls (ver_session 0 [])))) = 2" by code_simp+
  with holds show ?thesis by simp
qed

text \<open>
  C3: nested transactions. While the flags mirror SQLite's frames, every begin, commit, rollback
  and savepoint call that succeeds is exactly one transition of the abstract machine of nested
  transactions on what the connection sees: a commit keeps everything, a rollback restores what
  was committed, a savepoint rollback restores what the savepoint saw, a release keeps it; and
  the flags mirror the frames again.
\<close>

theorem calls_refine_nested_transactions:
  assumes "sql_transactions E view" and "perform E c s = (True, s')" and "mirrors (core_of view s)"
    and "op_of c = Some operation"
  shows "nest operation (co_view (core_of view s)) = Some (co_view (core_of view s'))
    \<and> mirrors (core_of view s')"
  using sql_transactions.nest_call [OF assms] .

theorem calls_refine_nested_transactions_witness:
  "nest (N_Undo ''b'') (co_view (core_of vd_view (after nested_calls (ver_session 0 [])))) =
     Some (co_view (core_of vd_view (after (nested_calls @ [Call_Undo savepoint_b]) (ver_session 0 [])))) \<and>
   mirrors (core_of vd_view (after (nested_calls @ [Call_Undo savepoint_b]) (ver_session 0 [])))"
proof -
  let ?s = "after nested_calls (ver_session 0 [])"
  have "fst (perform ver_sqlite (Call_Undo savepoint_b) ?s)" and m: "mirrors (core_of vd_view ?s)" by code_simp+
  then obtain s' where run: "perform ver_sqlite (Call_Undo savepoint_b) ?s = (True, s')"
    by (cases "perform ver_sqlite (Call_Undo savepoint_b) ?s") simp
  have op: "op_of (Call_Undo savepoint_b) = Some (N_Undo ''b'')" by code_simp
  have "after (nested_calls @ [Call_Undo savepoint_b]) (ver_session 0 []) = s'"
    using run by (simp add: after_def)
  with calls_refine_nested_transactions [OF ver_tx.sql_transactions_axioms run m op] show ?thesis by simp
qed

text \<open>
  C7: of the transaction and savepoint calls only a commit publishes. In every session the calls
  of C6 reach, whatever SQLite answers, a call that begins, commits, rolls back or destroys a
  transaction or opens, releases or rolls back a savepoint changes what other connections see
  only if it is a commit that succeeded, or the release of a savepoint that SQLite had opened
  outside any BEGIN. (SQL the application runs, object-store writes, migrations and version
  writes publish on their own when no transaction is open; they are not meant here.)
\<close>

theorem only_commit_publishes:
  assumes "sql_transactions E view" and "reachable E view s" and "perform E c s = (ok, s')"
    and "\<not> runs_sql c"
    and "committed (co_view (core_of view s')) \<noteq> committed (co_view (core_of view s))"
  shows "ok \<and> ((\<exists>i. c = Call_Commit i) \<or>
    (\<exists>name frame. c = Call_Release name \<and> v_frames (co_view (core_of view s)) = [frame] \<and> fst frame \<noteq> F_Begin))"
proof -
  from sql_transactions.reachable_inv [OF assms(1,2)] have "tracks (core_of view s)"
    by (simp add: session_inv_def)
  from sql_transactions.published_by [OF assms(1,3) this assms(4,5)] show ?thesis .
qed

theorem only_commit_publishes_witness:
  "fst (perform ver_sqlite (Call_Commit 7) (after nested_calls (ver_session 0 [])))"
proof -
  let ?s = "after nested_calls (ver_session 0 [])"
  have "all_allowed nested_calls (ver_session 0 [])" by code_simp
  note reach = reachable_run [OF this]
  obtain ok s' where run: "perform ver_sqlite (Call_Commit 7) ?s = (ok, s')" by fastforce
  have "committed (co_view (core_of vd_view (snd (perform ver_sqlite (Call_Commit 7) ?s)))) \<noteq>
      committed (co_view (core_of vd_view ?s))" by code_simp
  with only_commit_publishes [OF ver_tx.sql_transactions_axioms reach run] run show ?thesis by simp
qed

definition stale_calls :: "ver_db call list" where
  "stale_calls = [Call_Begin (Some 7) 1, Call_Savepoint savepoint_a, Call_Savepoint savepoint_b,
     Call_Exec statement_x, Call_Release savepoint_b, Call_Rollback 7]"

text \<open>
  C40: releasing a savepoint can publish work the application never committed. Whenever SQLite has
  dropped the transaction while the session's flag says it is active (an automatic rollback in a
  savepoint call leaves just that), the next savepoint opens a transaction of its own; after any
  SQL inside it that leaves the frames alone, its release publishes all that SQL did, the
  rollback of any transaction handle then fails, and what was published stays published.
\<close>

theorem stale_savepoint_publishes:
  assumes "sql_transactions E view"
    and "v_frames (co_view (core_of view s)) = []"
    and "perform E (Call_Savepoint name) s = (True, s1)"
    and "perform E (Call_Exec sql) s1 = (executed, s2)"
    and "v_frames (co_view (core_of view s2)) = v_frames (co_view (core_of view s1))"
    and "perform E (Call_Release name) s2 = (True, s3)"
    and "perform E (Call_Rollback i) s3 = (undone, s4)"
  shows "committed (co_view (core_of view s2)) = committed (co_view (core_of view s))
    \<and> committed (co_view (core_of view s3)) = v_now (co_view (core_of view s2))
    \<and> \<not> undone \<and> committed (co_view (core_of view s4)) = v_now (co_view (core_of view s2))"
  using sql_transactions.stale_release [OF assms] .

text \<open>The disk fills up while a savepoint is opened, and SQLite rolls the transaction back.\<close>

definition stale_script :: "(int \<times> bool) list" where
  "stale_script = [(0, False), (SQLITE_FULL, True)]"

theorem stale_savepoint_publishes_witness:
  "\<not> fst (perform ver_sqlite (Call_Rollback 7) (after (butlast stale_calls) (ver_session 0 stale_script))) \<and>
   vc_log (committed (co_view (core_of vd_view (after stale_calls (ver_session 0 stale_script))))) = [''X'']"
proof -
  let ?s = "\<lambda>calls. after calls (ver_session 0 stale_script)"
  let ?before = "[Call_Begin (Some 7) 1, Call_Savepoint savepoint_a]"
  have step: "perform ver_sqlite c (?s calls) = (fst (perform ver_sqlite c (?s calls)), ?s (calls @ [c]))" for c calls
    by (simp add: after_def prod_eq_iff)
  have frames: "v_frames (co_view (core_of vd_view (?s ?before))) = []"
    "v_frames (co_view (core_of vd_view (?s (?before @ [Call_Savepoint savepoint_b, Call_Exec statement_x])))) =
     v_frames (co_view (core_of vd_view (?s (?before @ [Call_Savepoint savepoint_b]))))" by code_simp+
  have began: "fst (perform ver_sqlite (Call_Savepoint savepoint_b) (?s ?before)) = True"
    and released: "fst (perform ver_sqlite (Call_Release savepoint_b)
       (?s ((?before @ [Call_Savepoint savepoint_b]) @ [Call_Exec statement_x]))) = True" by code_simp+
  note holds = stale_savepoint_publishes [OF ver_tx.sql_transactions_axioms frames(1)
      step [of "Call_Savepoint savepoint_b" ?before, unfolded began]
      step [of "Call_Exec statement_x" "?before @ [Call_Savepoint savepoint_b]"] _
      step [of "Call_Release savepoint_b" "(?before @ [Call_Savepoint savepoint_b]) @ [Call_Exec statement_x]", unfolded released]
      step [of "Call_Rollback 7"]]
  have "vc_log (v_now (co_view (core_of vd_view
      (?s (?before @ [Call_Savepoint savepoint_b, Call_Exec statement_x]))))) = [''X'']" by code_simp
  with holds frames(2) show ?thesis by (simp add: stale_calls_def)
qed

section \<open>Migrations\<close>

text \<open>
  C4: a migration run is all or nothing. With callbacks that leave transaction control alone, a
  run that fails (a missing step, a failing or throwing callback, a version that cannot be
  written, a commit that fails, a rollback that fails too) leaves what other connections see
  exactly as it was.
\<close>

theorem migrations_are_all_or_nothing:
  assumes "versioned_engine E view version set_version"
    and "\<And>m. m \<in> set migrations \<Longrightarrow> keeps_transaction view effect m"
    and "esdb_migrate E object target_version (Some migrations) (Some s) = (Failed st e, Some s')"
  shows "committed (co_view (core_of view s')) = committed (co_view (core_of view s))"
proof -
  from assms(3) have run: "migrate E object target_version migrations
      (on_connection (metrics_only count_operation) s) = (Failed st e, s')"
    by (auto simp: esdb_migrate_def on_session_def counted_def split: prod.splits)
  from versioned_engine.migrate_core [OF assms(1) run assms(2)] show ?thesis by simp
qed

text \<open>
  C5: a migration run to a target below \<open>2 ^ 31\<close> (SQLite's version is a signed 32-bit number and
  holds no other) that succeeds ends at the target version, outside any transaction, and the
  contents are the old ones with, at each version from the old one up, the effect of the first
  migration from that version and then the new version number: every step exactly once, in
  order. At the target already, it does nothing.
\<close>

theorem migrations_reach_the_target:
  assumes "versioned_engine E view version set_version"
    and "\<And>m. m \<in> set migrations \<Longrightarrow> keeps_transaction view effect m"
    and "esdb_migrate E object target_version (Some migrations) (Some s) = (Done u, Some s')"
    and "unat target_version < 2 ^ 31"
  shows "if version (v_now (co_view (core_of view s))) = uint target_version
    then co_view (core_of view s') = co_view (core_of view s)
    else v_frames (co_view (core_of view s')) = [] \<and>
      version (v_now (co_view (core_of view s))) < uint target_version \<and>
      upgrades set_version effect migrations
        (unat target_version - nat (version (v_now (co_view (core_of view s)))))
        (of_int (version (v_now (co_view (core_of view s))))) (v_now (co_view (core_of view s))) =
      Some (v_now (co_view (core_of view s')))"
proof -
  from assms(3) have run: "migrate E object target_version migrations
      (on_connection (metrics_only count_operation) s) = (Done u, s')"
    by (auto simp: esdb_migrate_def on_session_def counted_def split: prod.splits)
  from versioned_engine.migrate_core [OF assms(1) run assms(2)] assms(4) show ?thesis by auto
qed

subsection \<open>A migration that executes a statement\<close>

definition exec_callback :: "ver_db migration_fn" where
  "exec_callback from_version to_version s =
     (case esdb_exec ver_sqlite statement_x (Some s) of
        (Done _, s') \<Rightarrow> (Some (ESDB_OK, clear_error), the s')
      | (Failed st e, s') \<Rightarrow> (Some (st, e), the s'))"

definition exec_migration :: "u32 \<Rightarrow> ver_db migration" where
  "exec_migration n = \<lparr>mg_from_version = n, mg_to_version = n + 1, mg_apply = Some exec_callback\<rparr>"

definition exec_effect :: "ver_db migration \<Rightarrow> ver_content \<Rightarrow> ver_content" where
  "exec_effect m c = c\<lparr>vc_log := vc_log c @ [''X'']\<rparr>"

lemma statement_x_text: "chars [88] = ''X''" "statement_x = Some [88]"
  by code_simp+

lemma exec_x_view: "ver_exec_view ''X'' v = Some (v\<lparr>v_now := exec_effect m (v_now v)\<rparr>)"
proof -
  have "tx_exec ''X'' v = None"
  proof (rule tx_other)
    show "''X'' \<noteq> begin_sql b" for b by (cases b) simp_all
  qed (simp_all add: SQL_COMMIT_def SQL_ROLLBACK_def savepoint_sql_def release_sql_def undo_sql_def)
  moreover have "version_in ''X'' = None" by code_simp
  ultimately show ?thesis by (simp add: ver_exec_view_def exec_effect_def)
qed

lemma failed_view_cases:
  "v_frames v \<noteq> [] \<Longrightarrow> failed_view auto v = v \<or> rolled_back v (failed_view auto v)"
  by (auto simp: failed_view_def rolled_back_def)

lemma exec_migration_keeps: "keeps_transaction vd_view exec_effect (exec_migration n)"
  unfolding keeps_transaction_def
proof (intro allI impI)
  fix s s' :: "ver_db session" and r
  let ?c = "core_of vd_view s"
  assume active: "co_active ?c" and frames: "v_frames (co_view ?c) \<noteq> []"
    and run: "the (mg_apply (exec_migration n)) (mg_from_version (exec_migration n))
      (mg_to_version (exec_migration n)) s = (r, s')"
  define s0 where "s0 = on_connection (metrics_only count_operation) s"
  have s0: "core_of vd_view s0 = ?c" by (simp add: s0_def)
  obtain r1 s1 where x: "in_connection (exec_sql ver_sqlite ''X'' ESDB_PHASE_EXEC) s0 = (r1, s1)" by fastforce
  have exec: "esdb_exec ver_sqlite statement_x (Some s) = (r1, Some (sync_transaction_state ver_sqlite s1))"
    using x by (simp add: esdb_exec_def on_session_def counted_def statement_x_text s0_def
        split: prod.splits)
  from in_connection_exec [OF x, where view = vd_view] obtain rc m d
    where e: "sq_exec ver_sqlite ''X'' (cn_db (ss_connection s0)) = (rc, m, d)"
      and c1: "core_of vd_view s1 = ?c\<lparr>co_view := vd_view d\<rparr>"
      and r1: "if rc = SQLITE_OK then r1 = Done () else \<exists>e. r1 = Failed (map_sqlite_status rc) e"
    using s0 by metis
  have view0: "vd_view (cn_db (ss_connection s0)) = co_view ?c"
    using s0 core_of_fields(4) [of vd_view s0] by simp
  show "if r \<noteq> None \<and> fst (the r) = ESDB_OK
      then core_of vd_view s' = ?c
        \<lparr>co_view := (co_view ?c)\<lparr>v_now := exec_effect (exec_migration n) (v_now (co_view ?c))\<rparr>\<rparr>
      else v_frames (co_view (core_of vd_view s')) = v_frames (co_view ?c) \<or>
        rolled_back (co_view ?c) (co_view (core_of vd_view s'))"
    using ver_exec_cases [OF e [unfolded ver_fields]]
  proof
    assume "error_code rc \<and> (\<exists>auto. vd_view d = failed_view auto (vd_view (cn_db (ss_connection s0))))"
    then obtain auto where code: "error_code rc" and v: "vd_view d = failed_view auto (co_view ?c)"
      by (auto simp: view0)
    from code r1 error_code_failure obtain e where failed: "r1 = Failed (map_sqlite_status rc) e" by auto
    with run exec have r: "r = Some (map_sqlite_status rc, e)" and s': "s' = sync_transaction_state ver_sqlite s1"
      by (auto simp: exec_migration_def exec_callback_def)
    have "map_sqlite_status rc \<noteq> ESDB_OK" using code by (simp add: error_code_def)
    moreover have "co_view (core_of vd_view s') = vd_view d" by (simp add: s' ver_tx.sync_view c1)
    ultimately show ?thesis using failed_view_cases [OF frames, of auto] v r by auto
  next
    assume "\<exists>v. ver_exec_view ''X'' (vd_view (cn_db (ss_connection s0))) = Some v \<and> rc = SQLITE_OK \<and> vd_view d = v"
    then have ok: "rc = SQLITE_OK"
      and v: "vd_view d = (co_view ?c)\<lparr>v_now := exec_effect (exec_migration n) (v_now (co_view ?c))\<rparr>"
      by (auto simp: view0 exec_x_view [where m = "exec_migration n"])
    with r1 run exec have r: "r = Some (ESDB_OK, clear_error)" and s': "s' = sync_transaction_state ver_sqlite s1"
      by (auto simp: exec_migration_def exec_callback_def)
    have "core_of vd_view s' = (core_of vd_view s1)\<lparr>co_active := True\<rparr>"
      using frames by (simp add: s' ver_tx.sync_core c1 v)
    then show ?thesis using active r by (simp add: c1 v)
  qed
qed

text \<open>From version 0: to version 2 with both steps there, and to version 3 with the last one missing.\<close>

definition two_steps :: "ver_db migration list" where
  "two_steps = [exec_migration 0, exec_migration 1]"

lemma two_steps_keep: "m \<in> set two_steps \<Longrightarrow> keeps_transaction vd_view exec_effect m"
  by (auto simp: two_steps_def exec_migration_keeps)

definition migrated :: "u32 \<Rightarrow> unit outcome \<times> ver_db session option" where
  "migrated target_version = esdb_migrate ver_sqlite (Some 7) target_version (Some two_steps) (Some (ver_session 0 []))"

theorem migrations_are_all_or_nothing_witness:
  "\<exists>st e s'. migrated 3 = (Failed st e, Some s') \<and> committed (co_view (core_of vd_view s')) = v_now (ver_view 0)"
proof -
  have "\<not> succeeded (fst (migrated 3))" "\<not> Option.is_none (snd (migrated 3))" by code_simp+
  then obtain st e s' where run: "migrated 3 = (Failed st e, Some s')"
    by (cases "migrated 3"; cases "fst (migrated 3)") (auto simp: Option.is_none_def)
  have "committed (co_view (core_of vd_view (ver_session 0 []))) = v_now (ver_view 0)"
    by (simp add: committed_def ver_session_def new_connection_def core_of_def ver_view_def)
  with migrations_are_all_or_nothing [OF ver.versioned_engine_axioms two_steps_keep run [unfolded migrated_def]]
    run show ?thesis by simp
qed

theorem migrations_reach_the_target_witness:
  "\<exists>s'. migrated 2 = (Done (), Some s') \<and> v_now (co_view (core_of vd_view s')) = \<lparr>vc_version = 2, vc_log = [''X'', ''X'']\<rparr>"
proof -
  have "succeeded (fst (migrated 2))" "\<not> Option.is_none (snd (migrated 2))" by code_simp+
  then obtain s' where run: "migrated 2 = (Done (), Some s')"
    by (cases "migrated 2"; cases "fst (migrated 2)") (auto simp: Option.is_none_def)
  have start: "co_view (core_of vd_view (ver_session 0 [])) = ver_view 0"
    by (simp add: ver_session_def new_connection_def core_of_def)
  have zero: "content_version (v_now (ver_view 0)) = 0" by (simp add: ver_view_def content_version_def)
  have two: "unat (2 :: u32) = 2" "uint (2 :: u32) = 2" by simp_all
  from migrations_reach_the_target [OF ver.versioned_engine_axioms two_steps_keep run [unfolded migrated_def]]
  have "upgrades set_content_version exec_effect two_steps 2 0 (v_now (ver_view 0)) =
      Some (v_now (co_view (core_of vd_view s')))"
    by (simp add: start zero)
  moreover have "upgrades set_content_version exec_effect two_steps 2 0 (v_now (ver_view 0)) =
      Some \<lparr>vc_version = 2, vc_log = [''X'', ''X'']\<rparr>" by code_simp
  ultimately show ?thesis using run by simp
qed

end
