(* ===== verification/Upkeep_Spec.thy ===== *)
theory Upkeep_Spec
  imports Runtime_Contract Runtime_Upkeep
begin

text \<open>
  Integrity checks and online backups: the rows of a statement as the engine yields them, the
  verdict of a check as a function of its rows, and the end of the backup loop. \<open>yields\<close> is the
  hypothesis on an engine's cursor that the queries use too.
\<close>

section \<open>The rows of a statement\<close>

text \<open>
  Started on a handle \<open>d\<close> the statement stands on the first of the rows \<open>result d\<close>, or is done
  when there is none; each further step moves to the next. Any step may fail instead.
\<close>

definition yields ::
  "'d sqlite \<Rightarrow> string \<Rightarrow> (nat \<Rightarrow> sql_value) \<Rightarrow> ('d \<Rightarrow> sql_row list) \<Rightarrow> bool" where
  "yields E sql p result \<longleftrightarrow>
     (\<forall>d rc rows d'. sq_step E sql p None d = (rc, rows, d') \<longrightarrow> rc = SQLITE_ROW \<or> rc = SQLITE_DONE \<longrightarrow>
        rows = result d \<and> (rc = SQLITE_ROW \<longleftrightarrow> result d \<noteq> [])) \<and>
     (\<forall>r rs d rc rows d'. sq_step E sql p (Some (r # rs)) d = (rc, rows, d') \<longrightarrow>
        rc = SQLITE_ROW \<or> rc = SQLITE_DONE \<longrightarrow> rows = rs \<and> (rc = SQLITE_ROW \<longleftrightarrow> rs \<noteq> []))"

text \<open>The rows a statement has still to stand on.\<close>

definition ahead :: "('d \<Rightarrow> sql_row list) \<Rightarrow> statement \<Rightarrow> 'd \<Rightarrow> sql_row list" where
  "ahead result st d = (case st_rows st of None \<Rightarrow> result d | Some rows \<Rightarrow> tl rows)"

definition step_failed :: "'d sqlite \<Rightarrow> string \<Rightarrow> esdb_status \<Rightarrow> bool" where
  "step_failed E sql status \<longleftrightarrow>
     (\<exists>rc p pending d rows d'. status = map_sqlite_status rc \<and> sq_step E sql p pending d = (rc, rows, d') \<and>
        rc \<noteq> SQLITE_ROW \<and> rc \<noteq> SQLITE_DONE)"

definition prepare_failed :: "'d sqlite \<Rightarrow> string \<Rightarrow> esdb_status \<Rightarrow> bool" where
  "prepare_failed E sql status \<longleftrightarrow>
     (\<exists>rc d d'. status = map_sqlite_status rc \<and> sq_prepare E sql d = (rc, d') \<and> rc \<noteq> SQLITE_OK)"

lemma row_codes [simp]: "SQLITE_DONE \<noteq> SQLITE_ROW" "SQLITE_ROW \<noteq> SQLITE_DONE"
  by simp_all

lemma yields_first:
  "yields E sql p result \<Longrightarrow> sq_step E sql p None d = (rc, rows, d') \<Longrightarrow>
    rc = SQLITE_ROW \<or> rc = SQLITE_DONE \<Longrightarrow> rows = result d \<and> (rc = SQLITE_ROW \<longleftrightarrow> result d \<noteq> [])"
  and yields_next:
  "yields E sql p result \<Longrightarrow> sq_step E sql p (Some (r # rs)) d = (rc, rows, d') \<Longrightarrow>
    rc = SQLITE_ROW \<or> rc = SQLITE_DONE \<Longrightarrow> rows = rs \<and> (rc = SQLITE_ROW \<longleftrightarrow> rs \<noteq> [])"
  unfolding yields_def by blast+

lemma step_ahead:
  assumes "yields E (st_sql st) (st_params st) result" and "st_rows st \<noteq> Some []"
    and "step E phase st cn = (Done (rc, st'), cn')"
  shows "st' = st\<lparr>st_rows := Some (ahead result st (cn_db cn))\<rparr>"
    "rc = (if ahead result st (cn_db cn) = [] then SQLITE_DONE else SQLITE_ROW)"
proof -
  obtain c rows d where s: "sq_step E (st_sql st) (st_params st) (st_rows st) (cn_db cn) = (c, rows, d)"
    by (metis prod_cases3)
  with assms(3) have c: "c = rc" "rc = SQLITE_ROW \<or> rc = SQLITE_DONE" and st': "st' = st\<lparr>st_rows := Some rows\<rparr>"
    by (auto simp: step_def Let_def split: if_splits)
  have "rows = ahead result st (cn_db cn) \<and> (rc = SQLITE_ROW \<longleftrightarrow> ahead result st (cn_db cn) \<noteq> [])"
  proof (cases "st_rows st")
    case None
    with yields_first [OF assms(1) s [unfolded None]] c show ?thesis by (simp add: ahead_def)
  next
    case (Some pending)
    with assms(2) obtain r rs where some: "st_rows st = Some (r # rs)" by (cases pending) auto
    with yields_next [OF assms(1) s [unfolded some]] c show ?thesis by (simp add: ahead_def)
  qed
  with c st' show "st' = st\<lparr>st_rows := Some (ahead result st (cn_db cn))\<rparr>"
    "rc = (if ahead result st (cn_db cn) = [] then SQLITE_DONE else SQLITE_ROW)" by auto
qed

lemma step_fails:
  assumes "step E phase st cn = (Failed status e, cn')"
  shows "step_failed E (st_sql st) status"
proof -
  obtain c rows d where s: "sq_step E (st_sql st) (st_params st) (st_rows st) (cn_db cn) = (c, rows, d)"
    by (metis prod_cases3)
  with assms have "status = map_sqlite_status c" "c \<noteq> SQLITE_ROW" "c \<noteq> SQLITE_DONE"
    by (auto simp: step_def Let_def cn_fail_Failed split: if_splits)
  with s show ?thesis unfolding step_failed_def by blast
qed

lemma prepare_cases:
  assumes "prepare E sql phase cn = (r, cn')"
  shows "(\<exists>status e. r = Failed status e \<and> prepare_failed E sql status) \<or>
    (r = Done \<lparr>st_sql = sql, st_params = (\<lambda>_. Sql_Null), st_rows = None\<rparr> \<and>
     cn' = cn\<lparr>cn_db := snd (sq_prepare E sql (cn_db cn))\<rparr>)"
proof -
  obtain rc d where "sq_prepare E sql (cn_db cn) = (rc, d)" by fastforce
  with assms show ?thesis
    unfolding prepare_failed_def
    by (cases r) (auto simp: prepare_def Let_def cn_fail_Failed split: if_splits)
qed

section \<open>Integrity checks\<close>

text \<open>What a row of the report says, the rows that are not \<open>ok\<close>, and the text that is reported.\<close>

definition row_text :: "'d sqlite \<Rightarrow> sql_row \<Rightarrow> byte list option" where
  "row_text E row =
     map_option c_bytes (case row of Sql_Text t # _ \<Rightarrow> Some t | v # _ \<Rightarrow> sq_text_of E v | [] \<Rightarrow> sq_text_of E Sql_Null)"

definition problems :: "'d sqlite \<Rightarrow> sql_row list \<Rightarrow> byte list option list" where
  "problems E rows = filter (\<lambda>t. t \<noteq> Some (ascii ''ok'')) (map (row_text E) rows)"

definition reported :: "byte list option list \<Rightarrow> string" where
  "reported texts =
     (case find (\<lambda>t. t \<noteq> None \<and> t \<noteq> Some []) texts of
        Some (Some t) \<Rightarrow> take 255 (chars t)
      | _ \<Rightarrow> [])"

lemma reported_Nil [simp]: "reported [] = []"
  by (simp add: reported_def)

lemma reported_Cons:
  "reported (t # ts) = (if t = None \<or> t = Some [] then reported ts else take 255 (chars (the t)))"
  by (cases t) (auto simp: reported_def)

lemma column_text_row:
  "st_rows st = Some (row # rows) \<Longrightarrow> map_option c_bytes (column_text E st 0) = row_text E row"
  by (cases row) (auto simp: column_text_def column_def row_text_def split: sql_value.splits)

lemma integrity_rows_run:
  assumes "yields E (st_sql st) (st_params st) result" and "st_rows st \<noteq> Some []"
    and "ahead result st (cn_db cn) = rows" and "length rows < fuel"
    and "integrity_rows fuel E st ok problem cn = (r, cn')"
  shows "(\<exists>status e. r = Failed status e \<and> step_failed E (st_sql st) status) \<or>
    r = Done (Some (ok \<and> problems E rows = [], if problem = [] then reported (problems E rows) else problem))"
  using assms
proof (induction fuel arbitrary: st ok problem cn rows)
  case (Suc fuel)
  note yields = Suc.prems(1) and some = Suc.prems(2) and ahead = Suc.prems(3)
  obtain x cn1 where s: "step E ESDB_PHASE_INTEGRITY st cn = (x, cn1)" by fastforce
  show ?case
  proof (cases x)
    case (Failed status e)
    with s Suc.prems(5) have "r = Failed status e" by (simp add: chain_def)
    with step_fails [OF s [unfolded Failed]] show ?thesis by blast
  next
    case (Done y)
    obtain rc st' where y: "y = (rc, st')" by fastforce
    note stepped = step_ahead [OF yields some s [unfolded Done y], unfolded ahead]
    show ?thesis
    proof (cases rows)
      case Nil
      with stepped s Done y Suc.prems(5) have "r = Done (Some (ok, problem))"
        by (auto simp: chain_def give_def)
      then show ?thesis by (simp add: Nil problems_def)
    next
      case (Cons row rest)
      with stepped have st': "st' = st\<lparr>st_rows := Some (row # rest)\<rparr>" and rc: "rc = SQLITE_ROW" by simp_all
      let ?t = "row_text E row"
      have t: "map_option c_bytes (column_text E st' 0) = ?t"
        by (rule column_text_row) (simp add: st')
      let ?problem = "if problem = [] \<and> ?t \<noteq> None then take 255 (chars (the ?t)) else problem"
      have next1: "ahead result st' (cn_db cn1) = rest" by (simp add: ahead_def st')
      have run: "(if ?t = Some (ascii ''ok'') then integrity_rows fuel E st' ok problem cn1
          else integrity_rows fuel E st' False ?problem cn1) = (r, cn')"
        using Suc.prems(5)
        by (simp only: integrity_rows.simps chain_def s Done y prod.case outcome.case rc Let_def t simp_thms if_False
            if_distrib [of "\<lambda>f. f cn1"] if_distribR cong: if_cong)
      have IH: "integrity_rows fuel E st' ok1 problem1 cn1 = (r, cn') \<Longrightarrow>
          (\<exists>status e. r = Failed status e \<and> step_failed E (st_sql st) status) \<or>
          r = Done (Some (ok1 \<and> problems E rest = [],
            if problem1 = [] then reported (problems E rest) else problem1))" for ok1 problem1
        using Suc.IH [of st' cn1 rest ok1 problem1] yields next1 Suc.prems(4) Cons by (simp add: st')
      show ?thesis
      proof (cases "?t = Some (ascii ''ok'')")
        case True
        then have "problems E rows = problems E rest" by (simp add: Cons problems_def)
        with run IH [of ok problem] True show ?thesis by auto
      next
        case False
        then have p: "problems E rows = ?t # problems E rest" by (simp add: Cons problems_def)
        have "(if ?problem = [] then reported (problems E rest) else ?problem) =
            (if problem = [] then reported (?t # problems E rest) else problem)"
          by (auto simp: reported_Cons chars_def)
        with run IH [of False ?problem] False p show ?thesis by (auto split: if_splits)
      qed
    qed
  qed
qed simp

definition check_sql :: "int \<Rightarrow> string" where
  "check_sql quick = (if quick \<noteq> 0 then SQL_QUICK_CHECK else SQL_INTEGRITY_CHECK)"

text \<open>
  The verdict of an integrity check. It ends on every report that is shorter than the fuel
  and then either SQLite failed (preparing or stepping the pragma, whose class is answered), or
  the answer is exactly that of the whole report: success when every row is \<open>ok\<close>, and otherwise
  CORRUPT with the first non-empty complaint, cut to 255 characters, as the message.
\<close>

theorem integrity_check_verdict:
  assumes "yields E (check_sql quick) (\<lambda>_. Sql_Null) result"
    and "rows = result (snd (sq_prepare E (check_sql quick) (cn_db (ss_connection s))))"
    and "length rows < fuel"
    and "esdb_integrity_check fuel E quick (Some s) = (r, s')"
  shows "(\<exists>status e. r = Failed status e \<and>
      (prepare_failed E (check_sql quick) status \<or> step_failed E (check_sql quick) status)) \<or>
    (if problems E rows = [] then r = Done (Some ())
     else \<exists>e. r = Failed ESDB_ERR_CORRUPT e \<and>
       err_message e = (if reported (problems E rows) = [] then ''SQLite integrity check failed''
         else reported (problems E rows)))"
proof -
  let ?sql = "check_sql quick"
  let ?cn = "ss_connection (on_connection (metrics_only count_operation) s)"
  have db: "cn_db ?cn = cn_db (ss_connection s)" by (simp add: on_connection_def metrics_only_def)
  obtain cn' where run: "integrity_check fuel E (quick \<noteq> 0) ?cn = (r, cn')"
    using assms(4) by (auto simp: esdb_integrity_check_def on_session_def counted_def in_connection_def
        split: prod.splits)
  obtain x cn1 where p: "prepare E ?sql ESDB_PHASE_INTEGRITY ?cn = (x, cn1)" by fastforce
  from prepare_cases [OF p] show ?thesis
  proof (elim disjE exE conjE)
    fix status e
    assume "x = Failed status e" and "prepare_failed E ?sql status"
    moreover from this run p have "r = Failed status e" by (simp add: integrity_check_def chain_def check_sql_def)
    ultimately show ?thesis by blast
  next
    assume x: "x = Done \<lparr>st_sql = ?sql, st_params = (\<lambda>_. Sql_Null), st_rows = None\<rparr>"
      and cn1: "cn1 = ?cn\<lparr>cn_db := snd (sq_prepare E ?sql (cn_db ?cn))\<rparr>"
    let ?st = "\<lparr>st_sql = ?sql, st_params = (\<lambda>_. Sql_Null), st_rows = None\<rparr>"
    obtain y cn2 where l: "integrity_rows fuel E ?st True [] cn1 = (y, cn2)" by fastforce
    have "ahead result ?st (cn_db cn1) = rows" by (simp add: ahead_def cn1 db assms(2))
    from integrity_rows_run [OF _ _ this assms(3) l] assms(1)
    have "(\<exists>status e. y = Failed status e \<and> step_failed E ?sql status) \<or>
        y = Done (Some (problems E rows = [], reported (problems E rows)))" by simp
    then show ?thesis
    proof (elim disjE exE conjE)
      fix status e
      assume "y = Failed status e" and "step_failed E ?sql status"
      moreover from this run p x l have "r = Failed status e" by (simp add: integrity_check_def chain_def check_sql_def)
      ultimately show ?thesis by blast
    next
      assume "y = Done (Some (problems E rows = [], reported (problems E rows)))"
      with run p x l have "(if problems E rows = [] then give (Some ())
          else cn_fail E ESDB_ERR_CORRUPT ESDB_PHASE_INTEGRITY SQLITE_CORRUPT
            (Some (if reported (problems E rows) = [] then ''SQLite integrity check failed''
              else reported (problems E rows)))) cn2 = (r, cn')"
        by (simp add: integrity_check_def chain_def check_sql_def split: if_splits)
      then show ?thesis
        by (cases r) (auto simp: cn_fail_Failed set_error_def Let_def copy_message_def reported_def
            split: if_splits option.splits)
    qed
  qed
qed

text \<open>An engine that lists fixed rows, whatever the statement.\<close>

definition listing :: "sql_row list \<Rightarrow> ver_db sqlite" where
  "listing rows = ver_sqlite\<lparr>sq_step := (\<lambda>sql p pending d.
     let rs = (case pending of None \<Rightarrow> rows | Some rs \<Rightarrow> tl rs)
     in (if rs = [] then SQLITE_DONE else SQLITE_ROW, rs, d))\<rparr>"

lemma listing_yields: "yields (listing rows) sql p (\<lambda>_. rows)"
  by (simp add: yields_def listing_def Let_def)

section \<open>Backups\<close>

lemma backup_loop_ends:
  assumes "\<And>t rc t'. bk_step B d t = (rc, t') \<Longrightarrow>
      (rc = SQLITE_OK \<longrightarrow> left t' < left t) \<and> (is_busy rc \<longrightarrow> left t' \<le> (left t :: nat))"
    and "left t + (201 - retries) < fuel" and "retries \<le> 200"
  shows "\<exists>rc t' t0. backup_loop fuel B d retries t = Some (rc, t') \<and> rc \<noteq> SQLITE_OK \<and> bk_step B d t0 = (rc, t')"
  using assms(2,3)
proof (induction fuel arbitrary: retries t)
  case (Suc fuel)
  obtain rc t' where s: "bk_step B d t = (rc, t')" by fastforce
  note progress = assms(1) [OF s]
  show ?case
  proof (cases "is_busy rc")
    case True
    then have "rc \<noteq> SQLITE_OK" by (auto simp: is_busy_def)
    with s True Suc.IH [of t' "Suc retries"] Suc.prems progress show ?thesis by auto
  next
    case False
    with s Suc.IH [of t' retries] Suc.prems progress show ?thesis by auto
  qed
qed simp

text \<open>
  C30: a backup ends, and success means a complete copy. Whenever a step that answers OK leaves
  fewer pages to copy and a busy one no more, the loop is left within that many steps and 201
  busy answers: with fuel for them the call never runs out of it (finishing a copy answers OK or
  an error, never DONE). When it then answers success
  the last step answered DONE, and finishing the copy and closing the target succeeded.
\<close>

theorem backups_terminate:
  assumes "\<And>d t rc t'. bk_step B d t = (rc, t') \<Longrightarrow>
      (rc = SQLITE_OK \<longrightarrow> left t' < left t) \<and> (is_busy rc \<longrightarrow> left t' \<le> (left t :: nat))"
    and "\<And>t rc t'. bk_finish B t = (rc, t') \<Longrightarrow> rc \<noteq> SQLITE_DONE"
    and "\<And>t. left t + 201 < fuel"
    and "esdb_backup_to fuel E B path (Some s) = (r, s')"
  shows "r \<noteq> Done None \<and> (\<forall>t. r = Done (Some t) \<longrightarrow>
    (\<exists>t0 t1. bk_step B (cn_db (ss_connection s)) t0 = (SQLITE_DONE, t1) \<and>
      bk_finish B t1 = (SQLITE_OK, t) \<and> bk_close B t = SQLITE_OK))"
proof -
  let ?d = "cn_db (ss_connection s)"
  let ?cn = "ss_connection (on_connection (metrics_only count_operation) s)"
  have db: "cn_db ?cn = ?d" by (simp add: on_connection_def metrics_only_def)
  have loop: "\<exists>rc t' t0. backup_loop fuel B ?d 0 t = Some (rc, t') \<and> rc \<noteq> SQLITE_OK \<and> bk_step B ?d t0 = (rc, t')" for t
    using assms(1,3) by (intro backup_loop_ends [where left = left]) auto
  have no_fail: "backup_failure E dg rc m cn \<noteq> (Done x, cn')" for dg rc m cn cn' and x :: "'b option"
    by (auto simp: backup_failure_def fail_on_def fail_with_def split: prod.splits)
  obtain cn' where run: "(if path = None \<or> c_bytes (the path) = []
      then cn_fail E ESDB_ERR_INVALID_ARGUMENT BKP SQLITE_MISUSE (Some ''database and target path are required'')
      else backup_to fuel E B (c_bytes (the path))) ?cn = (r, cn')"
    using assms(4) by (auto simp: esdb_backup_to_def on_session_def counted_def in_connection_def split: prod.splits)
  show ?thesis
  proof (cases r)
    case (Done x)
    with run have "backup_to fuel E B (c_bytes (the path)) ?cn = (Done x, cn')" by (auto split: if_splits)
    moreover from this obtain t0 t1 where "bk_open B (c_bytes (the path)) = Opened t0" "bk_init B ?d t0 = (True, t1)"
      by (auto simp: backup_to_def no_fail db split: opened.splits prod.splits bool.splits)
    moreover obtain rc t2 t3 where "backup_loop fuel B ?d 0 t1 = Some (rc, t2)" "rc \<noteq> SQLITE_OK"
        and "bk_step B ?d t3 = (rc, t2)" using loop by blast
    moreover obtain rc2 t4 where "bk_finish B t2 = (rc2, t4)" by fastforce
    ultimately show ?thesis using Done assms(2)
      by (auto simp: backup_to_def db Let_def no_fail split: if_splits)
  qed simp
qed

section \<open>Witnesses\<close>

definition sample_session :: "ver_db session" where
  "sample_session =
     \<lparr>ss_connection = \<lparr>cn_db = \<lparr>vd_view = \<lparr>v_now = \<lparr>vc_version = 0, vc_log = []\<rparr>, v_frames = []\<rparr>, vd_script = []\<rparr>,
        cn_transaction_active = False, cn_active_transaction = None, cn_savepoints = [], cn_schema_ready = False,
        cn_metrics = \<lparr>dm_operation_count = 0, dm_error_count = 0, dm_busy_count = 0, dm_commit_count = 0,
          dm_rollback_count = 0, dm_last_error = clear_error\<rparr>\<rparr>,
      ss_options = \<lparr>oo_flags = 0, oo_busy_timeout_ms = 0, oo_journal_mode = 0, oo_synchronous = 0, oo_cache_kib = 0,
        oo_wal_autocheckpoint_pages = 0, oo_foreign_keys = 0, oo_storage_mode = 0, oo_storage_provider = 0,
        oo_compression_codec = 0, oo_compression_level = 0, oo_reserved = []\<rparr>,
      ss_transactions = (\<lambda>_. None)\<rparr>"

text \<open>A report with a complaint after an \<open>ok\<close>.\<close>

definition sample_report :: "sql_row list" where
  "sample_report = [[Sql_Text (ascii ''ok'')], [Sql_Text (ascii ''row 7 missing'')]]"

theorem integrity_check_verdict_witness:
  "\<exists>status e. fst (esdb_integrity_check 5 (listing sample_report) 1 (Some sample_session)) = Failed status e \<and>
     ((prepare_failed (listing sample_report) SQL_QUICK_CHECK status \<or> step_failed (listing sample_report) SQL_QUICK_CHECK status) \<or>
      status = ESDB_ERR_CORRUPT \<and> err_message e = ''row 7 missing'')"
proof -
  let ?E = "listing sample_report"
  obtain r s' where run: "esdb_integrity_check 5 ?E 1 (Some sample_session) = (r, s')" by fastforce
  have small: "length sample_report < 5" by (simp add: sample_report_def)
  have texts: "problems ?E sample_report \<noteq> []" "reported (problems ?E sample_report) = ''row 7 missing''"
    by code_simp+
  have sql: "check_sql 1 = SQL_QUICK_CHECK" by (simp add: check_sql_def)
  from integrity_check_verdict [OF listing_yields refl small run] texts show ?thesis
    unfolding run fst_conv sql by auto
qed

text \<open>A copy of as many pages as the target's number says, each step one page.\<close>

definition page_copy :: "(ver_db, nat) backup_api" where
  "page_copy =
     \<lparr>bk_open = (\<lambda>_. Opened 3), bk_diagnosis = (\<lambda>_. \<lparr>dg_extended_errcode = 0, dg_errmsg = []\<rparr>),
      bk_init = (\<lambda>d t. (True, t)), bk_errcode = (\<lambda>_. 0),
      bk_step = (\<lambda>d t. if t mod 4 = 0 then (SQLITE_DONE, t) else (SQLITE_OK, t mod 4 - 1)),
      bk_finish = (\<lambda>t. (SQLITE_OK, t)), bk_close = (\<lambda>_. SQLITE_OK)\<rparr>"

theorem backups_terminate_witness:
  "fst (esdb_backup_to 300 ver_sqlite page_copy (Some [97]) (Some sample_session)) \<noteq> Done None"
proof -
  have step: "bk_step page_copy d t = (rc, t') \<Longrightarrow>
      (rc = SQLITE_OK \<longrightarrow> t' mod 4 < t mod 4) \<and> (is_busy rc \<longrightarrow> t' mod 4 \<le> t mod 4)" for d t rc t'
    by (auto simp: page_copy_def is_busy_def split: if_splits)
  have finish: "bk_finish page_copy t = (rc, t') \<Longrightarrow> rc \<noteq> SQLITE_DONE" for t rc t'
    by (simp add: page_copy_def)
  have fuel: "t mod 4 + 201 < 300" for t :: nat using mod_less_divisor [of 4 t] by linarith
  obtain r s' where run: "esdb_backup_to 300 ver_sqlite page_copy (Some [97]) (Some sample_session) = (r, s')" by fastforce
  from backups_terminate [where left = "\<lambda>t. t mod 4", OF step finish fuel run] run show ?thesis by simp
qed

end
