(* ===== verification/Query_Spec.thy ===== *)
theory Query_Spec
  imports Upkeep_Spec Runtime_Query
begin

text \<open>
  Typed queries: what the callback of a query is shown, as a function of the rows of the
  statement with its parameters bound, and the round trip of a value through a parameter and
  a column.
\<close>

section \<open>Values of columns\<close>

definition sql_decoded :: "sql_value \<Rightarrow> esdb_value" where
  "sql_decoded v =
     (case v of
        Sql_Null \<Rightarrow> \<lparr>ev_type = ESDB_VALUE_NULL, ev_payload = []\<rparr>
      | Sql_Int n \<Rightarrow> \<lparr>ev_type = ESDB_VALUE_INT64, ev_payload = append_le64 (of_int n)\<rparr>
      | Sql_Real bits \<Rightarrow> \<lparr>ev_type = ESDB_VALUE_DOUBLE, ev_payload = append_le64 bits\<rparr>
      | Sql_Text t \<Rightarrow> \<lparr>ev_type = ESDB_VALUE_UTF8, ev_payload = t\<rparr>
      | Sql_Blob bs \<Rightarrow> \<lparr>ev_type = ESDB_VALUE_BYTES, ev_payload = bs\<rparr>)"

text \<open>SQLite's lengths are 32-bit.\<close>

definition sql_fits :: "sql_value \<Rightarrow> bool" where
  "sql_fits v = (case v of Sql_Text t \<Rightarrow> length t < 2 ^ 31 | Sql_Blob bs \<Rightarrow> length bs < 2 ^ 31 | _ \<Rightarrow> True)"

lemma column_outcome_Done:
  assumes "column_outcome alloc v = Done x" and "sql_fits v"
  shows "x = sql_decoded v" "canonical x"
proof -
  have buffer: "length buf < 2 ^ 31 \<Longrightarrow> length buf < 2 ^ 64" for buf :: "byte list" by simp
  from assms show x: "x = sql_decoded v"
    by (cases v) (auto simp: column_outcome_def sql_decoded_def sql_fits_def constructor_defs fill_payload_Done
        allocate_value_Done value_fail_def take_buffer buffer_length_zero split: if_splits)
  have "valid_utf8 (Some t) (length t)" if "v = Sql_Text t" for t
    using assms that by (auto simp: column_outcome_def sql_fits_def esdb_value_create_text_def value_fail_def
        unat_of_nat split: if_splits)
  then show "canonical x"
    unfolding x by (cases v) (auto simp: sql_decoded_def canonical_def valid_value_type_def payload_valid_def)
qed

lemma column_value_Done:
  assumes "esdb_query_column_value E alloc fetched st i cn = (Done x, cn')" and "sql_fits (column st i)"
  shows "x = sql_decoded (column st i)" "canonical x" "cn' = cn"
proof -
  from assms(1) have "column_outcome alloc (column st i) = Done x" and "cn' = cn"
    by (auto simp: esdb_query_column_value_def decode_failure_def split: option.splits outcome.splits)
  with column_outcome_Done [OF _ assms(2)]
  show "x = sql_decoded (column st i)" "canonical x" "cn' = cn" by auto
qed

lemma decode_columns_Done:
  assumes "decode_columns E M n st cols cn = (Done xs, cn')" and "\<And>i. i \<in> set cols \<Longrightarrow> sql_fits (column st i)"
  shows "xs = map (\<lambda>i. sql_decoded (column st i)) cols \<and> cn' = cn"
  using assms
proof (induction cols arbitrary: cn xs)
  case (Cons i cols)
  from Cons.prems(1) obtain x vs cn1 where
    a: "esdb_query_column_value E (qm_alloc M n i) (qm_fetched M n i) st i cn = (Done x, cn1)"
    and b: "decode_columns E M n st cols cn1 = (Done vs, cn')" and v: "xs = x # vs"
    by (auto simp: chain_Done)
  from column_value_Done [OF a] Cons.prems(2) have "x = sql_decoded (column st i)" "canonical x" "cn1 = cn" by auto
  with Cons.IH [OF b] Cons.prems(2) v show ?case by auto
qed simp

section \<open>Rows shown\<close>

definition cell :: "sql_row \<Rightarrow> nat \<Rightarrow> sql_value" where
  "cell row i = (if i < length row then row ! i else Sql_Null)"

lemma map_cells: "length row = n \<Longrightarrow> map (\<lambda>i. sql_decoded (cell row i)) [0..<n] = map sql_decoded row"
  by (rule nth_equalityI) (simp_all add: cell_def)

text \<open>A callback sees the items in order until it asks to stop.\<close>

fun shown :: "('u, 'e) callback option \<Rightarrow> 'e list \<Rightarrow> 'u \<Rightarrow> 'u" where
  "shown None items user = user"
| "shown (Some cb) [] user = user"
| "shown (Some cb) (e # es) user =
     (case cb user e of (Cb_Continue, user) \<Rightarrow> shown (Some cb) es user | (_, user) \<Rightarrow> user)"

lemma column_cell: "st_rows st = Some (row # rows) \<Longrightarrow> column st i = cell row i"
  by (simp add: column_def cell_def)

text \<open>Every row has the statement's number of columns, each of them of a length SQLite has.\<close>

definition rows_fit :: "nat \<Rightarrow> sql_row list \<Rightarrow> bool" where
  "rows_fit columns rows \<longleftrightarrow> (\<forall>row \<in> set rows. length row = columns \<and> (\<forall>v \<in> set row. sql_fits v))"

lemma cell_fits: "\<forall>v \<in> set row. sql_fits v \<Longrightarrow> sql_fits (cell row i)"
  by (simp add: cell_def) (simp add: sql_fits_def)

lemma query_rows_run:
  assumes "yields E (st_sql st) (st_params st) result" and "st_rows st \<noteq> Some []"
    and "ahead result st (cn_db cn) = rows" and "length rows < fuel" and "rows_fit (length names) rows"
    and "query_rows fuel E M names st n callback user cn = ((Done found, cn'), user')"
  shows "found = Some (n + length rows) \<and>
    user' = shown callback (map (\<lambda>row. (names, map sql_decoded row)) rows) user"
  using assms
proof (induction fuel arbitrary: st callback user cn rows n)
  case (Suc fuel)
  note yields = Suc.prems(1) and some = Suc.prems(2) and ahead = Suc.prems(3) and run = Suc.prems(6)
  obtain x cn1 where s: "step E EXEC st cn = (x, cn1)" by fastforce
  with run obtain y where x: "x = Done y" by (cases x) auto
  obtain rc st' where y: "y = (rc, st')" by fastforce
  note stepped = step_ahead [OF yields some s [unfolded x y], unfolded ahead]
  show ?case
  proof (cases rows)
    case Nil
    with stepped s x y run show ?thesis by (cases callback) auto
  next
    case (Cons row rest)
    with stepped have st': "st' = st\<lparr>st_rows := Some (row # rest)\<rparr>" and rc: "rc = SQLITE_ROW" by simp_all
    from Suc.prems(5) Cons have fit: "\<forall>v \<in> set row. sql_fits v" "rows_fit (length names) rest"
      and columns: "length row = length names" by (auto simp: rows_fit_def)
    have IH: "query_rows fuel E M names st' (Suc n) callback1 user1 cn1 = ((Done found, cn'), user') \<Longrightarrow>
        found = Some (n + length rows) \<and>
        user' = shown callback1 (map (\<lambda>row. (names, map sql_decoded row)) rest) user1" for callback1 user1
      using Suc.IH [of st' cn1 rest "Suc n" callback1 user1] yields fit(2) Suc.prems(4) Cons
      by (simp add: st' ahead_def)
    show ?thesis
    proof (cases callback)
      case None
      with run s x y rc IH [of None user] show ?thesis by (simp add: Cons)
    next
      case (Some cb)
      obtain z cn2 where d: "decode_columns E M n st' [0..<length names] cn1 = (z, cn2)" by fastforce
      with run s x y rc Some obtain vs where z: "z = Done vs" by (cases z) auto
      have "column st' i = cell row i" for i by (rule column_cell) (simp add: st')
      with decode_columns_Done [OF d [unfolded z]] cell_fits [OF fit(1)]
      have vs: "vs = map sql_decoded row" and cn2: "cn2 = cn1" by (simp_all add: map_cells [OF columns])
      obtain reply user1 where cb: "cb user (names, vs) = (reply, user1)" by fastforce
      from run s x y rc Some d z cn2 cb IH [of "Some cb" user1] IH [of None user1] vs show ?thesis
        by (cases reply) (auto simp: Cons query_thrown_def cn_fail_Failed split: exn.splits)
    qed
  qed
qed simp

section \<open>Parameters\<close>

text \<open>The parameters as bound, numbered from 1.\<close>

definition parameter_of :: "esdb_value option \<Rightarrow> sql_value" where
  "parameter_of v = (case parameter_value v of Inr x \<Rightarrow> x | Inl _ \<Rightarrow> Sql_Null)"

definition bound_from :: "nat \<Rightarrow> esdb_value option list \<Rightarrow> (nat \<Rightarrow> sql_value) \<Rightarrow> nat \<Rightarrow> sql_value" where
  "bound_from k vs p i = (if k \<le> i \<and> i < k + length vs then parameter_of (vs ! (i - k)) else p i)"

lemma bind_parameters_Done:
  assumes "\<And>i v d rc d'. sq_bind E (st_sql st) i v d = (rc, d') \<Longrightarrow> content d' = content d"
    and "bind_parameters E k vs st cn = (Done st', cn')"
  shows "st' = st\<lparr>st_params := bound_from k vs (st_params st)\<rparr> \<and> content (cn_db cn') = content (cn_db cn)"
  using assms
proof (induction vs arbitrary: k st cn)
  case Nil
  have "bound_from k [] p = p" for p by (rule ext) (auto simp: bound_from_def)
  with Nil show ?case by simp
next
  case (Cons v vs)
  from Cons.prems(2) obtain st1 cn1 where a: "esdb_query_bind_value E k v st cn = (Done st1, cn1)"
    and b: "bind_parameters E (Suc k) vs st1 cn1 = (Done st', cn')" by (auto simp: chain_Done)
  obtain rc d where bind: "sq_bind E (st_sql st) k (parameter_of v) (cn_db cn) = (rc, d)" by fastforce
  from a bind have st1: "st1 = st\<lparr>st_params := (st_params st)(k := parameter_of v)\<rparr>" and cn1: "cn1 = cn\<lparr>cn_db := d\<rparr>"
    by (auto simp: esdb_query_bind_value_def bind_value_def parameter_of_def Let_def split: if_splits sum.splits prod.splits)
  have "bound_from (Suc k) vs ((st_params st)(k := parameter_of v)) = bound_from k (v # vs) (st_params st)"
    by (rule ext) (auto simp: bound_from_def nth_Cons' le_Suc_eq not_le intro!: arg_cong [where f = parameter_of] arg_cong2 [where f = nth])
  with Cons.IH [of st1 "Suc k" cn1] Cons.prems(1) b show ?case
    by (simp add: st1 cn1 Cons.prems(1) [OF bind] del: fun_upd_apply)
qed

text \<open>
  What SQLite says of a database handle that preparing a statement and binding a parameter do not
  change.
\<close>

definition steady :: "'d sqlite \<Rightarrow> ('d \<Rightarrow> 'x) \<Rightarrow> bool" where
  "steady E of_handle \<longleftrightarrow>
     (\<forall>t d. of_handle (snd (sq_prepare E t d)) = of_handle d) \<and>
     (\<forall>t i v d. of_handle (snd (sq_bind E t i v d)) = of_handle d)"

lemma steady_prepare: "steady E f \<Longrightarrow> sq_prepare E t d = (rc, d') \<Longrightarrow> f d' = f d"
  by (metis steady_def snd_conv)

lemma steady_bind: "steady E f \<Longrightarrow> sq_bind E t i v d = (rc, d') \<Longrightarrow> f d' = f d"
  by (metis steady_def snd_conv)

lemma query_statement_Done:
  assumes "steady E content" and "query_statement E Q text ps n cn = (Done st, cn')"
  shows "st = \<lparr>st_sql = text, st_params = bound_from 1 (take (unat n) ps) (\<lambda>_. Sql_Null), st_rows = None\<rparr> \<and>
    content (cn_db cn') = content (cn_db cn)"
proof -
  from assms(2) obtain st0 cn0 where p: "prepare E text EXEC cn = (Done st0, cn0)"
    and b: "bind_parameters E 1 (take (unat n) ps) st0 cn0 = (Done st, cn')"
    by (auto simp: query_statement_def chain_Done split: if_splits)
  from prepare_cases [OF p] have "st0 = \<lparr>st_sql = text, st_params = (\<lambda>_. Sql_Null), st_rows = None\<rparr>"
    and "content (cn_db cn0) = content (cn_db cn)"
    using steady_prepare [OF assms(1) prod.collapse [symmetric]] by auto
  with bind_parameters_Done [where content = content, OF steady_bind [OF assms(1)] b] show ?thesis by simp
qed

lemma sync_db: "cn_db (ss_connection (sync_transaction_state E s)) = cn_db (ss_connection s)"
  by (auto simp: sync_transaction_state_def Let_def)

text \<open>
  C18: what a query shows. Let the statement, with its parameters bound, have the rows
  \<open>results p d\<close> on a handle \<open>d\<close>, each as wide as the statement has columns; preparing and binding
  change neither them nor what SQLite says of the statement's columns and of its only reading. A
  query that succeeds answers the number of the rows and, of a statement that writes, SQLite's
  count of changes; its callback is shown each row exactly once and in order until it asks to
  stop, with the names of the statement's columns and every one of the row's columns decoded to
  its value; and the transaction flag is SQLite's again.
\<close>

theorem queries_show_their_rows:
  fixes E :: "'d sqlite"
  assumes "\<And>p. yields E (chars (c_bytes sql)) p (results p)"
    and "\<And>p d. length (results p d) < fuel \<and> rows_fit (length (qa_columns Q (chars (c_bytes sql)) d)) (results p d)"
    and "steady E (\<lambda>d. (\<lambda>p. results p d, qa_columns Q (chars (c_bytes sql)) d, qa_readonly Q (chars (c_bytes sql)) d))"
    and "esdb_query fuel E Q M thrown (Some sql) parameters parameter_count callback user (Some s) =
      ((Done counts, Some s'), user')"
  shows "let
      d = cn_db (ss_connection s);
      rows = results (bound_from 1 (take (unat parameter_count) (query_parameters parameters)) (\<lambda>_. Sql_Null)) d in
    counts = Some (of_nat (length rows),
      change_count Q (qa_readonly Q (chars (c_bytes sql)) d) (cn_db (ss_connection s'))) \<and>
    user' = shown callback (map (\<lambda>row. (qa_columns Q (chars (c_bytes sql)) d, map sql_decoded row)) rows) user \<and>
    cn_transaction_active (ss_connection s') = (\<not> sq_autocommit E (cn_db (ss_connection s')))"
proof -
  let ?text = "chars (c_bytes sql)" and ?d = "cn_db (ss_connection s)"
  let ?p = "bound_from 1 (take (unat parameter_count) (query_parameters parameters)) (\<lambda>_. Sql_Null)"
  define s0 where "s0 = on_connection (metrics_only count_operation) s"
  have s0: "cn_db (ss_connection s0) = ?d" by (simp add: s0_def on_connection_def metrics_only_def)
  from assms(4) have "\<not> invalid_query (Some sql) parameters parameter_count"
    by (auto simp: esdb_query_def Let_def in_connection_def split: if_splits prod.splits)
  with assms(4) obtain st cn1 where
    stmt: "query_statement E Q ?text (query_parameters parameters) parameter_count (ss_connection s0) = (Done st, cn1)"
    and run: "run_query fuel E Q M thrown ?text callback user st (s0\<lparr>ss_connection := cn1\<rparr>) = ((Done counts, s'), user')"
    by (auto simp: esdb_query_def Let_def in_connection_def s0_def split: prod.splits outcome.splits)
  from query_statement_Done [OF assms(3) stmt] s0
  have st: "st = \<lparr>st_sql = ?text, st_params = ?p, st_rows = None\<rparr>" and rows: "results ?p (cn_db cn1) = results ?p ?d"
    and columns: "qa_columns Q ?text (cn_db cn1) = qa_columns Q ?text ?d"
    and readonly: "qa_readonly Q ?text (cn_db cn1) = qa_readonly Q ?text ?d" by (simp_all, metis)
  from run obtain found cn2 where
    q: "query_rows fuel E M (qa_columns Q ?text ?d) st 0 callback user cn1 = ((Done found, cn2), user')"
    and counts: "counts = (case found of None \<Rightarrow> None
      | Some n \<Rightarrow> Some (of_nat n, change_count Q (qa_readonly Q ?text ?d) (cn_db cn2)))"
    and s': "s' = sync_transaction_state E (s0\<lparr>ss_connection := cn2\<rparr>)"
    by (auto simp: run_query_def query_thrown_def columns readonly Let_def cn_fail_def fail_with_def
        split: option.splits exn.splits prod.splits outcome.splits)
  have yields: "yields E (st_sql st) (st_params st) (results (st_params st))" using assms(1) by (simp add: st)
  have ahead: "ahead (results (st_params st)) st (cn_db cn1) = results ?p ?d" using rows by (simp add: ahead_def st)
  have "found = Some (0 + length (results ?p ?d)) \<and>
      user' = shown callback (map (\<lambda>row. (qa_columns Q ?text ?d, map sql_decoded row)) (results ?p ?d)) user"
    using query_rows_run [OF yields _ ahead _ _ q] assms(2) by (simp add: st)
  moreover have "cn_transaction_active (ss_connection s') = (\<not> sq_autocommit E (cn_db (ss_connection s')))"
    by (auto simp: s' sync_transaction_state_def Let_def)
  moreover have "cn_db (ss_connection s') = cn_db cn2" by (simp add: s' sync_db)
  ultimately show ?thesis unfolding Let_def counts by simp
qed

section \<open>Round trips\<close>

text \<open>What a value becomes in SQLite: integers are 64-bit, textual values are text.\<close>

definition widened :: "esdb_value \<Rightarrow> esdb_value" where
  "widened v =
     (if ev_type v = ESDB_VALUE_BOOL
      then \<lparr>ev_type = ESDB_VALUE_INT64, ev_payload = append_le64 (if ev_payload v = [0] then 0 else 1)\<rparr>
      else if ev_type v = ESDB_VALUE_INT32
      then \<lparr>ev_type = ESDB_VALUE_INT64, ev_payload = append_le64 (scast (read_le32 (ev_payload v)))\<rparr>
      else if ev_type v = ESDB_VALUE_ARRAY \<or> ev_type v = ESDB_VALUE_OBJECT
      then v\<lparr>ev_type := ESDB_VALUE_UTF8\<rparr>
      else v)"

lemma canonical_cases:
  assumes "canonical v"
  obtains (null) "v = \<lparr>ev_type = ESDB_VALUE_NULL, ev_payload = []\<rparr>"
  | (bool) b where "v = \<lparr>ev_type = ESDB_VALUE_BOOL, ev_payload = [if b then 1 else 0]\<rparr>"
  | (int32) p where "v = \<lparr>ev_type = ESDB_VALUE_INT32, ev_payload = p\<rparr>" "length p = 4"
  | (int64) p where "v = \<lparr>ev_type = ESDB_VALUE_INT64, ev_payload = p\<rparr>" "length p = 8"
  | (double) p where "v = \<lparr>ev_type = ESDB_VALUE_DOUBLE, ev_payload = p\<rparr>" "length p = 8"
  | (textual) t p where "v = \<lparr>ev_type = t, ev_payload = p\<rparr>" "t \<in> {ESDB_VALUE_UTF8, ESDB_VALUE_ARRAY, ESDB_VALUE_OBJECT}"
      "valid_utf8 (Some p) (length p)"
  | (blob) p where "v = \<lparr>ev_type = ESDB_VALUE_BYTES, ev_payload = p\<rparr>"
proof -
  obtain t p where v: "v = \<lparr>ev_type = t, ev_payload = p\<rparr>" by (cases v)
  have "unat t \<le> 8" using assms by (simp add: canonical_def valid_value_type_def v word_le_nat_alt)
  then have "unat t \<in> {0, 1, 2, 3, 4, 5, 6, 7, 8}" by auto
  then have "t \<in> {0, 1, 2, 3, 4, 5, 6, 7, 8}" by (auto simp: word_unat_eq_iff)
  moreover from assms have valid: "payload_valid t p" by (simp add: canonical_def v)
  ultimately show thesis
  proof (elim insertE emptyE)
    assume "t = 0" with valid v show thesis by (intro that(1)) (simp add: payload_valid_def)
  next
    assume "t = 1" with valid v show thesis by (intro that(2) [of "p = [1]"]) (auto simp: payload_valid_def)
  next
    assume "t = 2" with valid v show thesis by (intro that(3)) (simp_all add: payload_valid_def)
  next
    assume "t = 3" with valid v show thesis by (intro that(4)) (simp_all add: payload_valid_def)
  next
    assume "t = 4" with valid v show thesis by (intro that(5)) (simp_all add: payload_valid_def)
  next
    assume "t = 5" with valid show thesis by (intro that(6) [OF v]) (simp_all add: payload_valid_def)
  next
    assume "t = 6" with v show thesis by (intro that(7)) simp
  next
    assume "t = 7" with valid show thesis by (intro that(6) [OF v]) (simp_all add: payload_valid_def)
  next
    assume "t = 8" with valid show thesis by (intro that(6) [OF v]) (simp_all add: payload_valid_def)
  qed
qed

lemmas parameter_defs = parameter_value_def esdb_value_type_of_def column_outcome_def constructor_defs
  fill_payload_def allocate_value_def widened_def

lemma data_parameter:
  assumes "length p < 2 ^ 31" and "t \<in> {ESDB_VALUE_UTF8, ESDB_VALUE_ARRAY, ESDB_VALUE_OBJECT, ESDB_VALUE_BYTES}"
  shows "parameter_value (Some \<lparr>ev_type = t, ev_payload = p\<rparr>) =
    Inr (if t = ESDB_VALUE_BYTES then Sql_Blob p else Sql_Text p)"
proof -
  have "(case (if p = [] then None else Some p) of None \<Rightarrow> [] | Some bs \<Rightarrow> take (unat (of_nat (length p) :: u64)) bs) = p"
    using assms(1) by (simp add: take_buffer)
  moreover have "t \<noteq> ESDB_VALUE_NULL" "t \<noteq> ESDB_VALUE_BOOL" "t \<noteq> ESDB_VALUE_INT32" "t \<noteq> ESDB_VALUE_INT64" "t \<noteq> ESDB_VALUE_DOUBLE"
    using assms(2) by auto
  ultimately show ?thesis
    using assms(2) by (simp only: parameter_value_def esdb_value_type_of_def esdb_value_get_data_def option.case Let_def
        esdb_value.select_convs if_True if_False outcome.case prod.case simp_thms insert_commute)
qed

text \<open>
  C31: a value bound as a parameter and read back as a column, with memory for it. Every canonical
  value is accepted, except a NaN, which SQLite would store as NULL and which is refused; it
  comes back as itself, an integer or a boolean as the 64-bit integer of the same value and a
  textual value as the same text.
\<close>

theorem query_parameters_round_trip:
  assumes "canonical v" and "length (ev_payload v) < 2 ^ 31"
  shows "if ev_type v = ESDB_VALUE_DOUBLE \<and> is_nan (read_le64 (ev_payload v))
    then parameter_value (Some v) =
      Inl (ESDB_ERR_UNSUPPORTED, ''NaN DOUBLE query parameters are not representable by SQLite'')
    else \<exists>x. parameter_value (Some v) = Inr x \<and> column_outcome \<lparr>va_object = True, va_payload = True\<rparr> x = Done (widened v)"
  using assms(1)
proof (cases rule: canonical_cases)
  case null
  then show ?thesis by (simp add: parameter_defs)
next
  case (bool b)
  then show ?thesis by (simp add: parameter_defs esdb_value_get_bool_def)
next
  case (int32 p)
  then show ?thesis by (simp add: parameter_defs esdb_value_get_int32_def)
next
  case (int64 p)
  then show ?thesis by (simp add: parameter_defs esdb_value_get_int64_def append_read_le64)
next
  case (double p)
  then show ?thesis by (simp add: parameter_defs esdb_value_get_double_def append_read_le64)
next
  case (textual t p)
  with assms(2) have p: "length p < 2 ^ 31" by simp
  have "t \<noteq> ESDB_VALUE_BYTES" "t \<in> {ESDB_VALUE_UTF8, ESDB_VALUE_ARRAY, ESDB_VALUE_OBJECT, ESDB_VALUE_BYTES}"
    using textual(2) by auto
  with data_parameter [OF p] have "parameter_value (Some v) = Inr (Sql_Text p)" by (simp only: textual(1) if_False)
  moreover have "column_outcome \<lparr>va_object = True, va_payload = True\<rparr> (Sql_Text p) = Done \<lparr>ev_type = ESDB_VALUE_UTF8, ev_payload = p\<rparr>"
    using p textual(3) by (simp add: column_outcome_def constructor_defs fill_payload_def allocate_value_def take_buffer
        buffer_length_zero unat_of_nat)
  moreover have "widened v = \<lparr>ev_type = ESDB_VALUE_UTF8, ev_payload = p\<rparr>" "ev_type v \<noteq> ESDB_VALUE_DOUBLE"
    using textual(1,2) by (auto simp: widened_def)
  ultimately show ?thesis by simp
next
  case (blob p)
  with assms(2) have p: "length p < 2 ^ 31" by simp
  from blob data_parameter [OF p, of ESDB_VALUE_BYTES] have "parameter_value (Some v) = Inr (Sql_Blob p)" by simp
  moreover have "column_outcome \<lparr>va_object = True, va_payload = True\<rparr> (Sql_Blob p) = Done v"
    using p blob by (simp add: column_outcome_def constructor_defs fill_payload_def allocate_value_def take_buffer
        buffer_length_zero)
  ultimately show ?thesis using blob by (simp add: widened_def)
qed

section \<open>Witnesses\<close>

definition sample_api :: "ver_db query_api" where
  "sample_api =
     \<lparr>qa_tail = (\<lambda>_ _. Some [32, 10]), qa_statement = (\<lambda>_ _. True), qa_parameter_count = (\<lambda>_ _. 1),
      qa_readonly = (\<lambda>_ _. True), qa_columns = (\<lambda>_ _. [Some ''quick_check'']), qa_changes = (\<lambda>_. 0)\<rparr>"

definition roomy :: query_memory where
  "roomy = \<lparr>qm_alloc = (\<lambda>_ _. \<lparr>va_object = True, va_payload = True\<rparr>), qm_fetched = (\<lambda>_ _. True)\<rparr>"

definition collect :: "esdb_value list list row_callback" where
  "collect user row = (Cb_Continue, user @ [snd row])"

definition sample_query ::
  "(query_result option outcome \<times> ver_db session option) \<times> esdb_value list list" where
  "sample_query = esdb_query 5 (listing sample_report) sample_api roomy None (Some [88])
     (Some [Some \<lparr>ev_type = ESDB_VALUE_BOOL, ev_payload = [1]\<rparr>]) 1 (Some collect) [] (Some sample_session)"

theorem queries_show_their_rows_witness:
  "snd sample_query = shown (Some collect)
     (map (\<lambda>row. ([Some ''quick_check''], map sql_decoded row)) sample_report) []"
proof -
  have "succeeded (fst (fst sample_query))" "\<not> Option.is_none (snd (fst sample_query))" by code_simp+
  moreover obtain r t user' where q: "sample_query = ((r, t), user')" by (metis surj_pair)
  ultimately have "succeeded r" "t \<noteq> None" unfolding q by (simp_all add: Option.is_none_def)
  with q obtain counts s' where run: "sample_query = ((Done counts, Some s'), user')" by (cases r) auto
  have columns: "qa_columns sample_api t d = [Some ''quick_check'']" "qa_readonly sample_api t d" for t d
    by (simp_all add: sample_api_def)
  have fit: "length sample_report < 5 \<and> rows_fit (length (qa_columns sample_api t d)) sample_report" for t d
    by (simp add: columns sample_report_def rows_fit_def sql_fits_def ascii_def)
  have steady: "steady (listing sample_report) (\<lambda>d. (\<lambda>_. sample_report, qa_columns sample_api t d, qa_readonly sample_api t d))"
    for t by (simp add: steady_def columns)
  from queries_show_their_rows [where results = "\<lambda>_ _. sample_report", OF listing_yields fit steady
      run [unfolded sample_query_def]]
  show ?thesis unfolding run snd_conv Let_def columns by blast
qed

theorem query_parameters_round_trip_witness:
  "\<exists>x. parameter_value (Some \<lparr>ev_type = ESDB_VALUE_INT32, ev_payload = [251, 255, 255, 255]\<rparr>) = Inr x \<and>
     column_outcome \<lparr>va_object = True, va_payload = True\<rparr> x =
       Done \<lparr>ev_type = ESDB_VALUE_INT64, ev_payload = [251, 255, 255, 255, 255, 255, 255, 255]\<rparr>"
proof -
  let ?v = "\<lparr>ev_type = ESDB_VALUE_INT32, ev_payload = [251, 255, 255, 255]\<rparr>"
  have "canonical ?v" "widened ?v = \<lparr>ev_type = ESDB_VALUE_INT64, ev_payload = [251, 255, 255, 255, 255, 255, 255, 255]\<rparr>"
    by code_simp+
  with query_parameters_round_trip [of ?v] show ?thesis by simp
qed

end
