(* ===== verification/Open_Spec.thy ===== *)
theory Open_Spec
  imports Runtime_Contract Runtime_Open
begin

text \<open>
  Opening a connection: the contract of an engine's settings (what its pragmas write and read),
  that a connection that opened has every setting that was asked for, and a reference engine
  that satisfies the contract.
\<close>

section \<open>The contract of settings\<close>

abbreviation "Q_BUSY \<equiv> ''PRAGMA busy_timeout;''"
abbreviation "Q_KEYS \<equiv> ''PRAGMA foreign_keys;''"
abbreviation "Q_JOURNAL \<equiv> ''PRAGMA journal_mode;''"
abbreviation "Q_ZIPVFS_JOURNAL \<equiv> ''PRAGMA zipvfs_journal_mode;''"
abbreviation "Q_SYNCHRONOUS \<equiv> ''PRAGMA synchronous;''"
abbreviation "Q_CACHE \<equiv> ''PRAGMA cache_size;''"
abbreviation "Q_CHECKPOINT \<equiv> ''PRAGMA wal_autocheckpoint;''"

text \<open>
  The queries in the order the settings are applied: writing one may disturb a later setting (a
  journal mode may come with a synchronous mode of its own), never an earlier one.
\<close>

definition rank :: "string \<Rightarrow> nat" where
  "rank q =
     (if q = Q_BUSY then 0 else if q = Q_KEYS then 1
      else if q = Q_JOURNAL \<or> q = Q_ZIPVFS_JOURNAL then 2
      else if q = Q_SYNCHRONOUS then 3 else if q = Q_CACHE then 4 else if q = Q_CHECKPOINT then 5 else 6)"

text \<open>
  \<open>PRAGMA name=value;\<close>, with one plain word or number as its value and so a single statement,
  writes what \<open>PRAGMA name;\<close> reads.
\<close>

definition plain_setting :: "string \<Rightarrow> bool" where
  "plain_setting v \<longleftrightarrow> v \<noteq> [] \<and> list_all (\<lambda>c. plain_char c \<or> c = CHR ''-'') v"

definition writes :: "string \<Rightarrow> string \<Rightarrow> bool" where
  "writes sql q \<longleftrightarrow> (\<exists>v. plain_setting v \<and> sql = butlast q @ ''='' @ v @ '';'')"

locale settings_engine =
  fixes E :: "'d sqlite" and A :: "'d open_api" and setting :: "string \<Rightarrow> 'd \<Rightarrow> sql_value"
  assumes timeout_set: "op_busy_timeout A ms d = (SQLITE_OK, d') \<Longrightarrow> setting Q_BUSY d' = Sql_Int ms"
    and write_keeps: "sq_exec E sql d = (rc, m, d') \<Longrightarrow> writes sql q \<Longrightarrow> rank q < 6 \<Longrightarrow>
      rank q' < rank q \<Longrightarrow> setting q' d' = setting q' d"
    and prepare_keeps: "sq_prepare E q d = (rc, d') \<Longrightarrow> rank q < 6 \<Longrightarrow> setting q' d' = setting q' d"
    and step_keeps: "sq_step E q (\<lambda>_. Sql_Null) None d = (rc, rows, d') \<Longrightarrow> rank q < 6 \<Longrightarrow>
      setting q' d' = setting q' d"
    and step_reads: "sq_step E q (\<lambda>_. Sql_Null) None d = (SQLITE_ROW, rows, d') \<Longrightarrow> rank q < 6 \<Longrightarrow>
      \<exists>rest. rows = [setting q d] # rest"

section \<open>Reading and writing\<close>

definition int_of :: "'d sqlite \<Rightarrow> sql_value \<Rightarrow> int" where
  "int_of E v = (case v of Sql_Int n \<Rightarrow> n | _ \<Rightarrow> sq_int_of E v)"

definition text_of :: "'d sqlite \<Rightarrow> sql_value \<Rightarrow> byte list option" where
  "text_of E v = (case v of Sql_Text t \<Rightarrow> Some t | _ \<Rightarrow> sq_text_of E v)"

lemma column_values:
  "st_rows st = Some ([v] # rest) \<Longrightarrow> column_int64 E st 0 = int_of E v"
  "st_rows st = Some ([v] # rest) \<Longrightarrow> column_text E st 0 = text_of E v"
  by (auto simp: column_int64_def column_text_def column_def int_of_def text_of_def split: sql_value.splits)

lemma writesI: "sql = butlast q @ ''='' @ v @ '';'' \<Longrightarrow> plain_setting v \<Longrightarrow> writes sql q"
  by (auto simp: writes_def)

lemma plain_digit: "k < 10 \<Longrightarrow> plain_char (char_of (unat (of_nat (48 + k) :: byte)))"
proof -
  assume "k < (10 :: nat)"
  then have "k \<in> {0, 1, 2, 3, 4, 5, 6, 7, 8, 9}" by auto
  then show ?thesis by (elim insertE emptyE) (simp_all, code_simp+)
qed

lemma plain_digits: "list_all plain_char (chars (decimal n))"
proof (induction n rule: decimal.induct)
  case (1 n)
  then show ?case
    using plain_digit [of n] plain_digit [of "n mod 10"]
    by (simp add: decimal.simps [of n] chars_def del: of_nat_add)
qed

lemma plain_settings:
  "plain_setting (chars (decimal n))" "plain_setting (CHR ''-'' # chars (decimal n))"
  using plain_digits [of n] decimal.simps [of n]
  by (auto simp: plain_setting_def chars_def list_all_iff)

lemma plain_words [simp]:
  "plain_setting ''ON''" "plain_setting ''OFF''" "plain_setting ''WAL''" "plain_setting ''DELETE''"
  "plain_setting ''TRUNCATE''" "plain_setting ''PERSIST''" "plain_setting ''NORMAL''" "plain_setting ''FULL''"
  "plain_setting ''EXTRA''" "plain_setting ''MEMORY''"
  by code_simp+

lemma ranks [simp]:
  "rank Q_BUSY = 0" "rank Q_KEYS = 1" "rank Q_JOURNAL = 2" "rank Q_ZIPVFS_JOURNAL = 2" "rank Q_SYNCHRONOUS = 3"
  "rank Q_CACHE = 4" "rank Q_CHECKPOINT = 5"
  by (simp_all add: rank_def)

lemma number_fits:
  "length prefix \<le> 52 \<Longrightarrow> snprintf_text 64 (prefix @ chars (decimal (unat (n :: u32))) @ '';'') = prefix @ chars (decimal (unat n)) @ '';''"
  using length_decimal_u32 [of n] by (simp add: snprintf_text_def chars_def)

lemma writes_texts:
  "writes (if on then ''PRAGMA foreign_keys=ON;'' else ''PRAGMA foreign_keys=OFF;'') Q_KEYS"
  "writes ''PRAGMA zipvfs_journal_mode=WAL;'' Q_ZIPVFS_JOURNAL"
  "journal_mode_sql mode = Some sql \<Longrightarrow> writes sql Q_JOURNAL"
  "synchronous_sql smode = Some sql \<Longrightarrow> writes sql Q_SYNCHRONOUS"
  "writes (snprintf_text 64 (''PRAGMA cache_size=-'' @ chars (decimal (unat (n :: u32))) @ '';'')) Q_CACHE"
  "writes (snprintf_text 64 (''PRAGMA wal_autocheckpoint='' @ chars (decimal (unat n)) @ '';'')) Q_CHECKPOINT"
proof -
  show "writes (if on then ''PRAGMA foreign_keys=ON;'' else ''PRAGMA foreign_keys=OFF;'') Q_KEYS"
    by (rule writesI [where v = "if on then ''ON'' else ''OFF''"]) (cases on; simp)+
  show "writes ''PRAGMA zipvfs_journal_mode=WAL;'' Q_ZIPVFS_JOURNAL"
    by (rule writesI [where v = "''WAL''"]) simp_all
  show "writes sql Q_JOURNAL" if "journal_mode_sql mode = Some sql"
    by (rule writesI [where v = "butlast (drop 20 sql)"]) (use that in \<open>auto simp: journal_mode_sql_def split: if_splits\<close>)
  show "writes sql Q_SYNCHRONOUS" if "synchronous_sql smode = Some sql"
    by (rule writesI [where v = "butlast (drop 19 sql)"]) (use that in \<open>auto simp: synchronous_sql_def split: if_splits\<close>)
  show "writes (snprintf_text 64 (''PRAGMA cache_size=-'' @ chars (decimal (unat n)) @ '';'')) Q_CACHE"
    by (rule writesI [where v = "''-'' @ chars (decimal (unat n))"]) (subst number_fits, simp, simp, simp add: plain_settings)
  show "writes (snprintf_text 64 (''PRAGMA wal_autocheckpoint='' @ chars (decimal (unat n)) @ '';'')) Q_CHECKPOINT"
    by (rule writesI [where v = "chars (decimal (unat n))"]) (subst number_fits, simp, simp, simp add: plain_settings)
qed

context settings_engine
begin

definition kept :: "nat \<Rightarrow> 'd connection \<Rightarrow> 'd connection \<Rightarrow> bool" where
  "kept k cn cn' \<longleftrightarrow> (\<forall>q. rank q < k \<longrightarrow> setting q (cn_db cn') = setting q (cn_db cn))"

lemma kept_refl [simp]: "kept k cn cn"
  by (simp add: kept_def)

lemma kept_trans: "kept j a b \<Longrightarrow> kept k b c \<Longrightarrow> i \<le> j \<Longrightarrow> i \<le> k \<Longrightarrow> kept i a c"
  by (auto simp: kept_def)

lemma read_row:
  assumes "prepare E q phase cn = (Done st, cn1)" and "step E phase st cn1 = (Done (rc, st'), cn')" and "rank q < 6"
  shows "rc = SQLITE_ROW \<Longrightarrow> \<exists>rest. st_rows st' = Some ([setting q (cn_db cn)] # rest)" "kept k cn cn'"
proof -
  obtain c d where p: "sq_prepare E q (cn_db cn) = (c, d)" by fastforce
  with assms(1) have st: "st = \<lparr>st_sql = q, st_params = (\<lambda>_. Sql_Null), st_rows = None\<rparr>" and cn1: "cn1 = cn\<lparr>cn_db := d\<rparr>"
    by (auto simp: prepare_def Let_def split: if_splits)
  obtain c2 rows d2 where s: "sq_step E q (\<lambda>_. Sql_Null) None d = (c2, rows, d2)" by (metis prod_cases3)
  with assms(2) have st': "st_rows st' = Some rows" and rc: "rc = c2" and cn': "cn_db cn' = d2"
    by (auto simp: step_def st cn1 Let_def split: if_splits)
  from prepare_keeps [OF p assms(3)] step_keeps [OF s assms(3)] show "kept k cn cn'"
    by (simp add: kept_def cn')
  assume "rc = SQLITE_ROW"
  with s rc have "sq_step E q (\<lambda>_. Sql_Null) None d = (SQLITE_ROW, rows, d2)" by simp
  from step_reads [OF this assms(3)] prepare_keeps [OF p assms(3), of q] st'
  show "\<exists>rest. st_rows st' = Some ([setting q (cn_db cn)] # rest)" by simp
qed

lemma query_reads:
  assumes "query_i64 E q phase cn = (Done n, cn')" and "rank q < 6"
  shows "n = int_of E (setting q (cn_db cn))" "kept k cn cn'"
proof -
  from assms(1) obtain st cn1 rc st' cn2 where p: "prepare E q phase cn = (Done st, cn1)"
    and s: "step E phase st cn1 = (Done (rc, st'), cn')" and rc: "rc = SQLITE_ROW" and n: "n = column_int64 E st' 0"
    by (auto simp: query_i64_def query_integer64_def chain_Done split: if_splits)
  from read_row(1) [OF p s assms(2) rc] n show "n = int_of E (setting q (cn_db cn))"
    by (auto simp: column_values)
  from read_row(2) [OF p s assms(2)] show "kept k cn cn'" .
qed

lemma write_kept:
  assumes "exec_sql E sql phase cn = (Done u, cn')" and "writes sql q" and "rank q < 6"
  shows "kept (rank q) cn cn'"
proof -
  obtain rc m d where x: "sq_exec E sql (cn_db cn) = (rc, m, d)" by (metis prod_cases3)
  with assms(1) have "cn' = cn\<lparr>cn_db := d\<rparr>" by (auto simp: exec_sql_def Let_def split: if_splits)
  with write_keeps [OF x assms(2,3)] show ?thesis by (simp add: kept_def)
qed

lemma apply_and_verify_holds:
  assumes "apply_and_verify E sql q expected message cn = (Done u, cn')" and "writes sql q" and "rank q < 6"
  shows "int_of E (setting q (cn_db cn')) = expected" "kept (rank q) cn cn'"
proof -
  from assms(1) obtain cn1 actual where x: "exec_sql E sql CFG cn = (Done (), cn1)"
    and a: "query_i64 E q CFG cn1 = (Done actual, cn')" and e: "actual = expected"
    by (auto simp: apply_and_verify_def unsupported_def chain_Done split: if_splits)
  note r = query_reads [OF a assms(3)]
  from r(2) [of 6] assms(3) have "setting q (cn_db cn') = setting q (cn_db cn1)" by (simp add: kept_def)
  with r(1) e show "int_of E (setting q (cn_db cn')) = expected" by simp
  from kept_trans [OF write_kept [OF x assms(2,3)] r(2) [of 6], of "rank q"] assms(3)
  show "kept (rank q) cn cn'" by simp
qed

section \<open>Every setting\<close>

lemma busy_timeout_holds:
  assumes "configure_busy_timeout E A o1 cn = (Done u, cn')"
  shows "setting Q_BUSY (cn_db cn') = Sql_Int (uint (oo_busy_timeout_ms o1))"
proof -
  obtain rc d where t: "op_busy_timeout A (uint (oo_busy_timeout_ms o1)) (cn_db cn) = (rc, d)" by fastforce
  with assms have "rc = SQLITE_OK" "cn' = cn\<lparr>cn_db := d\<rparr>"
    by (auto simp: configure_busy_timeout_def Let_def split: if_splits)
  with timeout_set t show ?thesis by simp
qed

lemma foreign_keys_hold:
  assumes "configure_foreign_keys E o1 cn = (Done u, cn')"
  shows "int_of E (setting Q_KEYS (cn_db cn')) = uint (oo_foreign_keys o1)" "kept 1 cn cn'"
  using apply_and_verify_holds [OF assms [unfolded configure_foreign_keys_def] writes_texts(1)] by simp_all

lemma journal_query_rank: "rank (journal_query_sql o1) = 2"
  by (simp add: journal_query_sql_def)

lemma journal_mode_reads:
  assumes "read_journal_mode E o1 phase cn = (Done mode, cn')" and "mode \<noteq> ESDB_JOURNAL_UNCHANGED"
  shows "parse_journal_mode (text_of E (setting (journal_query_sql o1) (cn_db cn'))) = mode" "kept k cn cn'"
proof -
  from assms(1) obtain st cn1 rc st' where p: "prepare E (journal_query_sql o1) phase cn = (Done st, cn1)"
    and s: "step E phase st cn1 = (Done (rc, st'), cn')"
    and m: "mode = parse_journal_mode (if rc = SQLITE_ROW then column_text E st' 0 else None)"
    by (auto simp: read_journal_mode_def chain_Done)
  have small: "rank (journal_query_sql o1) < 6" by (simp add: journal_query_rank)
  from m assms(2) have row: "rc = SQLITE_ROW" by (auto simp: parse_journal_mode_def split: if_splits)
  from read_row(2) [OF p s small, of 6] small
  have "setting (journal_query_sql o1) (cn_db cn') = setting (journal_query_sql o1) (cn_db cn)" by (simp add: kept_def)
  with read_row(1) [OF p s small row] m row
  show "parse_journal_mode (text_of E (setting (journal_query_sql o1) (cn_db cn'))) = mode" by (auto simp: column_values)
  show "kept k cn cn'" by (rule read_row(2) [OF p s small])
qed

lemma journal_holds:
  assumes "configure_journal E o1 cn = (Done u, cn')"
  shows "oo_journal_mode o1 \<noteq> ESDB_JOURNAL_UNCHANGED \<Longrightarrow>
      parse_journal_mode (text_of E (setting (journal_query_sql o1) (cn_db cn'))) = oo_journal_mode o1"
    "kept 2 cn cn'"
proof -
  let ?parsed = "parse_journal_mode (text_of E (setting (journal_query_sql o1) (cn_db cn')))"
  have "(oo_journal_mode o1 = ESDB_JOURNAL_UNCHANGED \<or> ?parsed = oo_journal_mode o1) \<and> kept 2 cn cn'"
  proof (cases "oo_journal_mode o1 = ESDB_JOURNAL_UNCHANGED")
    case True
    with assms show ?thesis by (auto simp: configure_journal_def misuse_def split: if_splits)
  next
    case False
    let ?sql = "if oo_storage_mode o1 = ESDB_STORAGE_COMPRESSED \<and> oo_journal_mode o1 = ESDB_JOURNAL_WAL
      then Some ''PRAGMA zipvfs_journal_mode=WAL;'' else journal_mode_sql (oo_journal_mode o1)"
    from assms False obtain sql cn1 where sql: "?sql = Some sql" and x: "exec_sql E sql CFG cn = (Done (), cn1)"
      and r: "read_journal_mode E o1 CFG cn1 = (Done (oo_journal_mode o1), cn')"
      by (auto simp: configure_journal_def misuse_def unsupported_def chain_Done split: if_splits option.splits)
    have "writes sql Q_ZIPVFS_JOURNAL \<or> writes sql Q_JOURNAL"
      using sql writes_texts(2) writes_texts(3) by (auto split: if_splits)
    then have "kept 2 cn cn1" using write_kept [OF x] by fastforce
    with journal_mode_reads [OF r False] show ?thesis by (auto intro: kept_trans)
  qed
  then show "oo_journal_mode o1 \<noteq> ESDB_JOURNAL_UNCHANGED \<Longrightarrow> ?parsed = oo_journal_mode o1" "kept 2 cn cn'" by simp_all
qed

lemma synchronous_holds:
  assumes "configure_synchronous E o1 cn = (Done u, cn')" and "valid_synchronous_request (oo_synchronous o1)"
  shows "oo_synchronous o1 \<noteq> ESDB_SYNCHRONOUS_UNCHANGED \<Longrightarrow>
      parse_synchronous (int_of E (setting Q_SYNCHRONOUS (cn_db cn'))) = oo_synchronous o1"
    "kept 3 cn cn'"
proof -
  have "(oo_synchronous o1 = ESDB_SYNCHRONOUS_UNCHANGED \<or>
      parse_synchronous (int_of E (setting Q_SYNCHRONOUS (cn_db cn'))) = oo_synchronous o1) \<and> kept 3 cn cn'"
  proof (cases "oo_synchronous o1 = ESDB_SYNCHRONOUS_UNCHANGED")
    case True
    with assms show ?thesis by (auto simp: configure_synchronous_def misuse_def split: if_splits)
  next
    case False
    with assms(1) obtain sql where sql: "synchronous_sql (oo_synchronous o1) = Some sql"
      and x: "apply_and_verify E sql Q_SYNCHRONOUS (if oo_synchronous o1 = ESDB_SYNCHRONOUS_NORMAL then 1
           else if oo_synchronous o1 = ESDB_SYNCHRONOUS_FULL then 2 else 3)
          ''requested synchronous mode could not be applied exactly'' cn = (Done u, cn')"
      by (auto simp: configure_synchronous_def misuse_def split: if_splits option.splits)
    from apply_and_verify_holds [OF x writes_texts(4) [OF sql]] assms(2) False show ?thesis
      by (auto simp: parse_synchronous_def valid_synchronous_request_def)
  qed
  then show "oo_synchronous o1 \<noteq> ESDB_SYNCHRONOUS_UNCHANGED \<Longrightarrow>
      parse_synchronous (int_of E (setting Q_SYNCHRONOUS (cn_db cn'))) = oo_synchronous o1" "kept 3 cn cn'" by simp_all
qed

lemma cache_holds:
  assumes "configure_cache E o1 cn = (Done u, cn')"
  shows "oo_cache_kib o1 \<noteq> 0 \<Longrightarrow> int_of E (setting Q_CACHE (cn_db cn')) = - uint (oo_cache_kib o1)" "kept 4 cn cn'"
  using assms apply_and_verify_holds [OF _ writes_texts(5), of "oo_cache_kib o1"]
  by (auto simp: configure_cache_def split: if_splits)

lemma autocheckpoint_holds:
  assumes "configure_autocheckpoint E o1 cn = (Done u, cn')"
  shows "oo_wal_autocheckpoint_pages o1 \<noteq> WAL_AUTOCHECKPOINT_UNCHANGED \<Longrightarrow>
      int_of E (setting Q_CHECKPOINT (cn_db cn')) = uint (oo_wal_autocheckpoint_pages o1)" "kept 5 cn cn'"
  using assms apply_and_verify_holds [OF _ writes_texts(6), of "oo_wal_autocheckpoint_pages o1"]
  by (auto simp: configure_autocheckpoint_def split: if_splits)

lemma configured:
  assumes "configure_database E A o1 cn = (Done u, cn')" and "valid_synchronous_request (oo_synchronous o1)"
  defines "d \<equiv> cn_db cn'"
  shows "setting Q_BUSY d = Sql_Int (uint (oo_busy_timeout_ms o1))"
    "int_of E (setting Q_KEYS d) = uint (oo_foreign_keys o1)"
    "oo_journal_mode o1 \<noteq> ESDB_JOURNAL_UNCHANGED \<Longrightarrow>
      parse_journal_mode (text_of E (setting (journal_query_sql o1) d)) = oo_journal_mode o1"
    "oo_synchronous o1 \<noteq> ESDB_SYNCHRONOUS_UNCHANGED \<Longrightarrow>
      parse_synchronous (int_of E (setting Q_SYNCHRONOUS d)) = oo_synchronous o1"
    "oo_cache_kib o1 \<noteq> 0 \<Longrightarrow> int_of E (setting Q_CACHE d) = - uint (oo_cache_kib o1)"
    "oo_wal_autocheckpoint_pages o1 \<noteq> WAL_AUTOCHECKPOINT_UNCHANGED \<Longrightarrow>
      int_of E (setting Q_CHECKPOINT d) = uint (oo_wal_autocheckpoint_pages o1)"
proof -
  from assms(1) obtain c1 c2 c3 c4 c5 where
    b: "configure_busy_timeout E A o1 cn = (Done (), c1)" and f: "configure_foreign_keys E o1 c1 = (Done (), c2)"
    and j: "configure_journal E o1 c2 = (Done (), c3)" and s: "configure_synchronous E o1 c3 = (Done (), c4)"
    and c: "configure_cache E o1 c4 = (Done (), c5)" and w: "configure_autocheckpoint E o1 c5 = (Done u, cn')"
    by (auto simp: configure_database_def chain_Done)
  note f = foreign_keys_hold [OF f] and j = journal_holds [OF j] and s = synchronous_holds [OF s assms(2)]
    and c = cache_holds [OF c] and w = autocheckpoint_holds [OF w]
  have k5: "kept 5 c5 cn'" by (rule w(2))
  have k4: "kept 4 c4 cn'" by (rule kept_trans [OF c(2) k5]) simp_all
  have k3: "kept 3 c3 cn'" by (rule kept_trans [OF s(2) k4]) simp_all
  have k2: "kept 2 c2 cn'" by (rule kept_trans [OF j(2) k3]) simp_all
  have k1: "kept 1 c1 cn'" by (rule kept_trans [OF f(2) k2]) simp_all
  show "setting Q_BUSY d = Sql_Int (uint (oo_busy_timeout_ms o1))"
    using busy_timeout_holds [OF b] k1 by (simp add: kept_def d_def)
  show "int_of E (setting Q_KEYS d) = uint (oo_foreign_keys o1)" using f(1) k2 by (simp add: kept_def d_def)
  show "parse_journal_mode (text_of E (setting (journal_query_sql o1) d)) = oo_journal_mode o1"
    if "oo_journal_mode o1 \<noteq> ESDB_JOURNAL_UNCHANGED"
    using j(1) [OF that] k3 by (simp add: kept_def d_def journal_query_rank)
  show "parse_synchronous (int_of E (setting Q_SYNCHRONOUS d)) = oo_synchronous o1"
    if "oo_synchronous o1 \<noteq> ESDB_SYNCHRONOUS_UNCHANGED"
    using s(1) [OF that] k4 by (simp add: kept_def d_def)
  show "int_of E (setting Q_CACHE d) = - uint (oo_cache_kib o1)" if "oo_cache_kib o1 \<noteq> 0"
    using c(1) [OF that] k5 by (simp add: kept_def d_def)
  show "int_of E (setting Q_CHECKPOINT d) = uint (oo_wal_autocheckpoint_pages o1)"
    if "oo_wal_autocheckpoint_pages o1 \<noteq> WAL_AUTOCHECKPOINT_UNCHANGED" using w(1) [OF that] by (simp add: d_def)
qed

end

section \<open>Opening\<close>

lemma opened_session:
  assumes "esdb_open E A b Z thrown config_ok database_ok error_given path options out_given w = (Done s, w')"
  shows "resolve_options (sq_errstr E) options = Done (ss_options s)"
    "validate_modes (sq_errstr E) b (ss_options s) = Done ()" "validate_rest (sq_errstr E) (ss_options s) = Done ()"
    "\<exists>d. storage_verify_open E b (op_zipvfs_stat A) error_given (ss_options s) d = Done () \<and>
      configure_database E A (ss_options s) (new_connection d) = (Done (), ss_connection s)"
    "ss_transactions s = (\<lambda>_. None)"
  using assms
  by (auto simp: esdb_open_def Let_def first_outcome_def open_connection_def refuse_def
      split: if_splits outcome.splits prod.splits opened.splits)


text \<open>Configuring a connection leaves its transaction state alone.\<close>

lemma leaves_busy: "leaves_flags (configure_busy_timeout E A o1)"
  by (auto simp: leaves_flags_def same_flags_def give_def cn_fail_def fail_with_def configure_busy_timeout_def Let_def
      split: prod.splits)

lemma leaves_query: "leaves_flags (query_i64 E q ph)" "leaves_flags (apply_and_verify E sql q v msg)"
  "leaves_flags (read_journal_mode E o1 ph)"
  unfolding query_i64_def query_integer64_def apply_and_verify_def unsupported_def read_journal_mode_def
  by (auto intro!: leaves_chain leaves_base split: prod.splits)

lemma leaves_configure: "leaves_flags (configure_database E A o1)"
  unfolding configure_database_def configure_foreign_keys_def configure_journal_def configure_synchronous_def
    configure_cache_def configure_autocheckpoint_def misuse_def unsupported_def
  by (intro leaves_chain leaves_if leaves_option leaves_base leaves_busy leaves_query)

text \<open>
  C17: an open that succeeds keeps its promises. The options in force are those given, or the
  documented defaults; they passed validation, so the journal and the synchronous mode are
  durable ones; and after the last step of the configuration the connection has every setting
  that was asked for: the busy timeout, foreign keys, and unless left unchanged the journal
  mode, the synchronous mode, the cache size and the checkpoint interval. No transaction and
  no savepoint is open.
\<close>

theorem open_applies_every_setting:
  assumes "settings_engine E A setting"
    and "esdb_open E A b Z thrown config_ok database_ok error_given path options out_given w = (Done s, w')"
  shows "let o1 = ss_options s; cn = ss_connection s; d = cn_db cn in
    o1 = (case options of None \<Rightarrow> esdb_open_options_init | Some (_, given) \<Rightarrow> given) \<and>
    valid_open_flags (oo_flags o1) \<and> valid_journal_request (oo_journal_mode o1) \<and>
    valid_synchronous_request (oo_synchronous o1) \<and>
    setting Q_BUSY d = Sql_Int (uint (oo_busy_timeout_ms o1)) \<and>
    int_of E (setting Q_KEYS d) = uint (oo_foreign_keys o1) \<and>
    (oo_journal_mode o1 \<noteq> ESDB_JOURNAL_UNCHANGED \<longrightarrow>
      parse_journal_mode (text_of E (setting (journal_query_sql o1) d)) = oo_journal_mode o1) \<and>
    (oo_synchronous o1 \<noteq> ESDB_SYNCHRONOUS_UNCHANGED \<longrightarrow>
      parse_synchronous (int_of E (setting Q_SYNCHRONOUS d)) = oo_synchronous o1) \<and>
    (oo_cache_kib o1 \<noteq> 0 \<longrightarrow> int_of E (setting Q_CACHE d) = - uint (oo_cache_kib o1)) \<and>
    (oo_wal_autocheckpoint_pages o1 \<noteq> WAL_AUTOCHECKPOINT_UNCHANGED \<longrightarrow>
      int_of E (setting Q_CHECKPOINT d) = uint (oo_wal_autocheckpoint_pages o1)) \<and>
    \<not> cn_transaction_active cn \<and> cn_savepoints cn = [] \<and> cn_active_transaction cn = None \<and>
    ss_transactions s = (\<lambda>_. None)"
proof -
  let ?o = "ss_options s"
  note opened = opened_session [OF assms(2)]
  obtain d where c: "configure_database E A ?o (new_connection d) = (Done (), ss_connection s)" using opened(4) by blast
  from opened(1) have given: "?o = (case options of None \<Rightarrow> esdb_open_options_init | Some (_, given) \<Rightarrow> given)"
    by (auto simp: resolve_options_def refuse_def split: option.splits prod.splits if_splits)
  from opened(2) have valid: "valid_open_flags (oo_flags ?o)" "valid_journal_request (oo_journal_mode ?o)"
    "valid_synchronous_request (oo_synchronous ?o)"
    by (auto simp: validate_modes_def first_outcome_def require_open_def refuse_def split: if_splits)
  note settings = settings_engine.configured [OF assms(1) c valid(3)]
  have "\<not> cn_transaction_active (ss_connection s) \<and> cn_savepoints (ss_connection s) = [] \<and>
      cn_active_transaction (ss_connection s) = None"
    using leaves_flagsD [OF leaves_configure c] by (simp add: new_connection_def same_flags_def)
  with given valid settings opened(5) show ?thesis unfolding Let_def by blast
qed

section \<open>A reference engine\<close>

text \<open>The state answers every query; a pragma with a value stores it under its query.\<close>

type_synonym conf_db = "string \<Rightarrow> sql_value"

definition conf_value :: "string \<Rightarrow> sql_value" where
  "conf_value v =
     (if v = ''ON'' \<or> v = ''NORMAL'' then Sql_Int 1 else if v = ''OFF'' then Sql_Int 0
      else if v = ''FULL'' then Sql_Int 2 else if v = ''EXTRA'' then Sql_Int 3
      else if v = ''WAL'' then Sql_Text (ascii ''wal'') else if v = ''DELETE'' then Sql_Text (ascii ''delete'')
      else if v = ''TRUNCATE'' then Sql_Text (ascii ''truncate'')
      else if v = ''PERSIST'' then Sql_Text (ascii ''persist'')
      else if take 1 v = ''-'' then Sql_Int (- int (digits_of 0 (drop 1 v)))
      else Sql_Int (int (digits_of 0 v)))"

definition conf_exec :: "string \<Rightarrow> conf_db \<Rightarrow> int \<times> string option \<times> conf_db" where
  "conf_exec sql d =
     (let name = takeWhile (\<lambda>c. c \<noteq> CHR ''='') sql in
      if name = sql then (SQLITE_ERROR, Some ''error'', d)
      else (SQLITE_OK, None, d(name @ '';'' := conf_value (butlast (drop (Suc (length name)) sql)))))"

definition conf_sqlite :: "conf_db sqlite" where
  "conf_sqlite =
     \<lparr>sq_errstr = (\<lambda>_. ''error''), sq_diagnosis = (\<lambda>_. \<lparr>dg_extended_errcode = 0, dg_errmsg = ''error''\<rparr>),
      sq_autocommit = (\<lambda>_. True), sq_readonly = (\<lambda>_. 0), sq_exec = conf_exec,
      sq_prepare = (\<lambda>sql d. (SQLITE_OK, d)), sq_bind = (\<lambda>sql i v d. (SQLITE_OK, d)),
      sq_step = (\<lambda>sql p pending d. if pending = None \<and> rank sql < 6 then (SQLITE_ROW, [[d sql]], d) else (SQLITE_DONE, [], d)),
      sq_int_of = (\<lambda>_. 0), sq_text_of = (\<lambda>_. None)\<rparr>"

definition conf_api :: "conf_db open_api" where
  "conf_api = \<lparr>op_open = (\<lambda>_ _ _. Opened (\<lambda>_. Sql_Null)), op_busy_timeout = (\<lambda>ms d. (SQLITE_OK, d(Q_BUSY := Sql_Int ms))),
     op_zipvfs_stat = (\<lambda>_. SQLITE_OK)\<rparr>"

lemma rank_cases:
  "rank q < 6 \<Longrightarrow> q = Q_BUSY \<or> q = Q_KEYS \<or> q = Q_JOURNAL \<or> q = Q_ZIPVFS_JOURNAL \<or> q = Q_SYNCHRONOUS \<or>
     q = Q_CACHE \<or> q = Q_CHECKPOINT"
  by (rule ccontr) (simp add: rank_def)

lemma conf_exec_writes:
  assumes "conf_exec sql d = (rc, m, d')" and "writes sql q" and "rank q < 6" and "q' \<noteq> q"
  shows "d' q' = d q'"
proof -
  from assms(2) obtain v where v: "sql = butlast q @ ''='' @ v @ '';''" by (auto simp: writes_def)
  have q: "CHR ''='' \<notin> set (butlast q)" "butlast q @ '';'' = q"
    using rank_cases [OF assms(3)] by (elim disjE; simp)+
  have "takeWhile (\<lambda>c. c \<noteq> CHR ''='') sql = butlast q"
    using q(1) by (auto simp: v takeWhile_append intro: takeWhile_eq_all_conv [THEN iffD2])
  with assms(1,4) q(2) show ?thesis by (auto simp: conf_exec_def Let_def split: if_splits)
qed

interpretation conf: settings_engine conf_sqlite conf_api "\<lambda>q d. d q"
proof unfold_locales
  fix sql d rc m d' q q'
  assume "sq_exec conf_sqlite sql d = (rc, m, d')" "writes sql q" "rank q < 6" "rank q' < rank q"
  then show "d' q' = d q'" using conf_exec_writes [of sql d rc m d' q q'] by (auto simp: conf_sqlite_def)
qed (auto simp: conf_sqlite_def conf_api_def split: if_splits)

text \<open>A durable configuration with every setting given.\<close>

definition sample_options :: open_options where
  "sample_options = esdb_open_options_init\<lparr>oo_journal_mode := ESDB_JOURNAL_WAL, oo_synchronous := ESDB_SYNCHRONOUS_FULL,
     oo_cache_kib := 20, oo_wal_autocheckpoint_pages := 10\<rparr>"

definition sample_libs :: "unit zip_libraries" where
  "sample_libs =
     \<lparr>zl_default_level = - 1, zl_no_compression = 0, zl_best_compression = 9, zl_ok = 0,
      zl_compress_bound = (\<lambda>n. n), zl_compress2 = (\<lambda>_ _ bs. (0, bs)), zl_uncompress = (\<lambda>_ bs. (0, bs)),
      zs_default_level = 3, zs_min_level = - 7, zs_max_level = 22, zs_compress_bound = (\<lambda>n. n),
      zs_compress = (\<lambda>_ _ bs. Some bs), zs_decompress = (\<lambda>_ bs. Some bs),
      zv_create_vfs = (\<lambda>_ _ z. (SQLITE_OK, z)), zv_errmsg = (\<lambda>_. None)\<rparr>"

definition sample_connect :: "conf_db session outcome \<times> unit zip_state" where
  "sample_connect = esdb_open conf_sqlite conf_api \<lparr>bd_has_zipvfs = False, bd_has_zstd = False\<rparr> sample_libs None True True True
     (Some [97]) (Some (OPEN_OPTIONS_SIZE, sample_options)) True \<lparr>zw_registry = [], zw_layer = ()\<rparr>"

theorem open_applies_every_setting_witness:
  "\<exists>s w. sample_connect = (Done s, w) \<and> cn_db (ss_connection s) Q_BUSY = Sql_Int 5000 \<and>
     parse_synchronous (int_of conf_sqlite (cn_db (ss_connection s) Q_SYNCHRONOUS)) = ESDB_SYNCHRONOUS_FULL \<and>
     int_of conf_sqlite (cn_db (ss_connection s) Q_CACHE) = - 20"
proof -
  have "succeeded (fst sample_connect)" by code_simp
  moreover obtain r w where q: "sample_connect = (r, w)" by fastforce
  ultimately have "succeeded r" unfolding q by simp
  with q obtain s where run: "sample_connect = (Done s, w)" by (cases r) auto
  note holds = open_applies_every_setting [OF conf.settings_engine_axioms run [unfolded sample_connect_def], unfolded Let_def]
  have options: "ss_options s = sample_options" using holds by simp
  have "oo_busy_timeout_ms sample_options = 5000" "oo_synchronous sample_options = ESDB_SYNCHRONOUS_FULL"
    "oo_cache_kib sample_options = 20" by (simp_all add: sample_options_def esdb_open_options_init_def)
  with holds have "cn_db (ss_connection s) Q_BUSY = Sql_Int 5000"
    "parse_synchronous (int_of conf_sqlite (cn_db (ss_connection s) Q_SYNCHRONOUS)) = ESDB_SYNCHRONOUS_FULL"
    "int_of conf_sqlite (cn_db (ss_connection s) Q_CACHE) = - 20" unfolding options by simp_all
  with run show ?thesis by blast
qed

end
