(* ===== verification/Storage_Spec.thy ===== *)
theory Storage_Spec
  imports Migration_Rules Runtime_Open
begin

text \<open>
  Limits and the codec registry: the texts the code formats into fixed buffers fit them, the
  names under which codecs are registered do not collide, and the registry stays well-formed.
\<close>

section \<open>Buffers\<close>

lemma length_chars [simp]: "length (chars bs) = length bs"
  by (simp add: chars_def)

lemma snprintf_fits: "length text < n \<Longrightarrow> snprintf_text n text = text"
  by (simp add: snprintf_text_def)

lemma length_signed_decimal:
  assumes "- (2 ^ 31) \<le> level" "level < 2 ^ 31"
  shows "length (signed_decimal level) \<le> 11"
proof -
  have "nat level < 10 ^ Suc 9" "nat (- level) < 10 ^ Suc 9" using assms by auto
  from this [THEN length_decimal] show ?thesis by (auto simp: signed_decimal_def)
qed

text \<open>
  The operations that format into a fixed buffer, as they would be with buffers of any length: the
  whole statement goes to SQLite, the whole text to the caller.
\<close>

definition whole_savepoint_begin :: "'d sqlite \<Rightarrow> byte list \<Rightarrow> ('d, unit) session_action" where
  "whole_savepoint_begin E name s =
     (if \<not> cn_transaction_active (ss_connection s)
      then in_connection (cn_fail E ESDB_ERR_INVALID_STATE SVP SQLITE_MISUSE
             (Some ''savepoints require an active transaction'')) s
      else if SAVEPOINT_CAPACITY \<le> length (cn_savepoints (ss_connection s))
      then in_connection (cn_fail E ESDB_ERR_INVALID_STATE SVP SQLITE_MISUSE
             (Some ''savepoint depth limit reached'')) s
      else
       chain (in_connection (exec_sql E (''SAVEPOINT '' @ chars name @ '';'') SVP)) (\<lambda>_ s.
         give () (on_connection (\<lambda>cn. cn\<lparr>cn_savepoints := cn_savepoints cn @ [name]\<rparr>) s)) s)"

definition whole_savepoint_end :: "'d sqlite \<Rightarrow> string \<Rightarrow> string \<Rightarrow> byte list \<Rightarrow> ('d, unit) session_action" where
  "whole_savepoint_end E verb sql name s =
     (if not_on_top name s
      then in_connection (cn_fail E ESDB_ERR_INVALID_STATE SVP SQLITE_MISUSE
             (Some (''savepoint '' @ verb @ '' must match the most recent active savepoint''))) s
      else chain (in_connection (exec_sql E sql SVP)) (\<lambda>_ s. give () (pop_savepoint s)) s)"

definition whole_setting :: "'d sqlite \<Rightarrow> string \<Rightarrow> u32 \<Rightarrow> int \<Rightarrow> string \<Rightarrow> string \<Rightarrow> ('d, unit) action" where
  "whole_setting E set_prefix n expected query message =
     apply_and_verify E (set_prefix @ chars (decimal (unat n)) @ '';'') query expected message"

text \<open>
  C34: no text is cut off. Every operation of the runtime and the storage provider that formats a
  statement, a VFS name or a capability into a fixed buffer (128 and 160 bytes for savepoints, 64
  for pragmas and for the names of codec VFSs, 32 for the backend's capabilities) is, for every
  argument, engine and session, the operation without the buffer: the savepoint calls, the write
  of \<open>user_version\<close>, the two numeric settings of an open, the name of a codec's VFS at any 32-bit
  level and, for a library version of at most 31 characters, the capabilities.
\<close>

theorem texts_are_never_truncated:
  fixes E :: "'d sqlite"
  assumes "- (2 ^ 31) \<le> level" and "level < 2 ^ 31" and "length version < 32"
  shows "esdb_savepoint_begin E name = savepoint_call E name (whole_savepoint_begin E) \<and>
    esdb_savepoint_release E name =
      savepoint_call E name (\<lambda>n. whole_savepoint_end E ''release'' (''RELEASE '' @ chars n @ '';'') n) \<and>
    esdb_savepoint_rollback E name =
      savepoint_call E name (\<lambda>n. whole_savepoint_end E ''rollback''
        (''ROLLBACK TO '' @ chars n @ ''; RELEASE '' @ chars n @ '';'') n) \<and>
    user_version_set E v =
      in_connection (exec_sql E (''PRAGMA user_version='' @ chars (decimal (unat v)) @ '';'') MIG) \<and>
    configure_cache E o1 =
      (if oo_cache_kib o1 = 0 then give ()
       else whole_setting E ''PRAGMA cache_size=-'' (oo_cache_kib o1) (- uint (oo_cache_kib o1))
         ''PRAGMA cache_size;'' ''requested cache size could not be applied exactly'') \<and>
    configure_autocheckpoint E o1 =
      (if oo_wal_autocheckpoint_pages o1 = WAL_AUTOCHECKPOINT_UNCHANGED then give ()
       else whole_setting E ''PRAGMA wal_autocheckpoint='' (oo_wal_autocheckpoint_pages o1)
         (uint (oo_wal_autocheckpoint_pages o1)) ''PRAGMA wal_autocheckpoint;''
         ''requested WAL autocheckpoint could not be applied exactly'') \<and>
    codec_vfs_name codec level = ''esdb-zv-'' @ (if codec = ESDB_CODEC_DEFLATE then ''deflate'' else ''zstd'') @
      ''-'' @ chars (signed_decimal level) \<and>
    (case esdb_backend_capabilities_get errstr b version version_number size1 of
       Failed _ _ \<Rightarrow> True
     | Done c \<Rightarrow> bc_backend_id c = (if zipvfs_compiled b then ''sqlite+zipvfs'' else ''sqlite'') \<and>
         bc_backend_version c = version \<and>
         bc_codec_id c = (if zipvfs_compiled b
           then if zipvfs_zstd_compiled b then ''deflate,zstd'' else ''deflate'' else ''none''))"
proof (intro conjI)
  have checked: "savepoint_call E name m = savepoint_call E name m'"
    if "\<And>n. length n \<le> 64 \<Longrightarrow> m n = m' n" for m m' :: "byte list \<Rightarrow> ('d, unit) session_action"
  proof (cases "valid_savepoint_name name")
    case True
    then obtain n where "name = Some n" by (cases name) (simp_all add: valid_savepoint_name_def)
    with True have "length (c_bytes (the name)) \<le> 64" by (simp add: savepoint_name_iff)
    then show ?thesis by (simp add: savepoint_call_def that)
  qed (simp add: savepoint_call_def)
  show "esdb_savepoint_begin E name = savepoint_call E name (whole_savepoint_begin E)"
    unfolding esdb_savepoint_begin_def
    by (rule checked, rule ext) (simp only: savepoint_begin_def whole_savepoint_begin_def savepoint_buffers, simp only: savepoint_sql_def)
  show "esdb_savepoint_release E name =
      savepoint_call E name (\<lambda>n. whole_savepoint_end E ''release'' (''RELEASE '' @ chars n @ '';'') n)"
    unfolding esdb_savepoint_release_def
    by (rule checked, rule ext) (simp only: savepoint_release_def whole_savepoint_end_def savepoint_buffers, simp only: release_sql_def, simp)
  show "esdb_savepoint_rollback E name =
      savepoint_call E name (\<lambda>n. whole_savepoint_end E ''rollback''
        (''ROLLBACK TO '' @ chars n @ ''; RELEASE '' @ chars n @ '';'') n)"
    unfolding esdb_savepoint_rollback_def
    by (rule checked, rule ext) (simp only: savepoint_rollback_def whole_savepoint_end_def savepoint_buffers, simp only: undo_sql_def, simp)
  show "user_version_set E v =
      in_connection (exec_sql E (''PRAGMA user_version='' @ chars (decimal (unat v)) @ '';'') MIG)"
    by (simp add: user_version_set_def version_buffer) (simp add: set_version_sql_def)
  have digits: "length (decimal (unat n)) \<le> 10" for n :: u32 by (rule length_decimal_u32)
  show "configure_cache E o1 =
      (if oo_cache_kib o1 = 0 then give ()
       else whole_setting E ''PRAGMA cache_size=-'' (oo_cache_kib o1) (- uint (oo_cache_kib o1))
         ''PRAGMA cache_size;'' ''requested cache size could not be applied exactly'')"
    using digits [of "oo_cache_kib o1"] by (simp add: configure_cache_def whole_setting_def snprintf_fits)
  show "configure_autocheckpoint E o1 =
      (if oo_wal_autocheckpoint_pages o1 = WAL_AUTOCHECKPOINT_UNCHANGED then give ()
       else whole_setting E ''PRAGMA wal_autocheckpoint='' (oo_wal_autocheckpoint_pages o1)
         (uint (oo_wal_autocheckpoint_pages o1)) ''PRAGMA wal_autocheckpoint;''
         ''requested WAL autocheckpoint could not be applied exactly'')"
    using digits [of "oo_wal_autocheckpoint_pages o1"]
    by (simp add: configure_autocheckpoint_def whole_setting_def snprintf_fits)
  show "codec_vfs_name codec level = ''esdb-zv-'' @ (if codec = ESDB_CODEC_DEFLATE then ''deflate'' else ''zstd'') @
      ''-'' @ chars (signed_decimal level)"
    using length_signed_decimal [OF assms(1,2)] unfolding codec_vfs_name_def by (intro snprintf_fits) simp
  show "case esdb_backend_capabilities_get errstr b version version_number size1 of
       Failed _ _ \<Rightarrow> True
     | Done c \<Rightarrow> bc_backend_id c = (if zipvfs_compiled b then ''sqlite+zipvfs'' else ''sqlite'') \<and>
         bc_backend_version c = version \<and>
         bc_codec_id c = (if zipvfs_compiled b
           then if zipvfs_zstd_compiled b then ''deflate,zstd'' else ''deflate'' else ''none'')"
    using assms(3) by (simp add: esdb_backend_capabilities_get_def Let_def snprintf_fits split: option.split)
qed

theorem texts_are_never_truncated_witness:
  "codec_vfs_name ESDB_CODEC_DEFLATE (- 1) = ''esdb-zv-deflate--1'' \<and>
   (\<exists>c. esdb_backend_capabilities_get (\<lambda>_. []) \<lparr>bd_has_zipvfs = True, bd_has_zstd = True\<rparr> ''3.46.0'' 3046000 (Some 0)
        = Done c \<and> bc_backend_version c = ''3.46.0'' \<and> bc_codec_id c = ''deflate,zstd'')"
proof -
  let ?b = "\<lparr>bd_has_zipvfs = True, bd_has_zstd = True\<rparr>"
  have "- (2 ^ 31) \<le> (- 1 :: int)" "(- 1 :: int) < 2 ^ 31" "length ''3.46.0'' < 32" by simp_all
  note whole = texts_are_never_truncated [OF this, where codec = ESDB_CODEC_DEFLATE and b = ?b and
      errstr = "\<lambda>_. []" and version_number = 3046000 and ?size1.0 = "Some 0"]
  note name = whole [THEN conjunct2, THEN conjunct2, THEN conjunct2, THEN conjunct2, THEN conjunct2, THEN conjunct2]
  have "''esdb-zv-'' @ (if ESDB_CODEC_DEFLATE = ESDB_CODEC_DEFLATE then ''deflate'' else ''zstd'') @ ''-'' @
      chars (signed_decimal (- 1)) = ''esdb-zv-deflate--1''" by code_simp
  then have "codec_vfs_name ESDB_CODEC_DEFLATE (- 1) = ''esdb-zv-deflate--1''"
    using conjunct1 [OF name] by simp
  moreover obtain c where c: "esdb_backend_capabilities_get (\<lambda>_. []) ?b ''3.46.0'' 3046000 (Some 0) = Done c"
    by (simp add: esdb_backend_capabilities_get_def)
  moreover have "zipvfs_compiled ?b" "zipvfs_zstd_compiled ?b"
    by (simp_all add: zipvfs_compiled_def zipvfs_zstd_compiled_def)
  ultimately show ?thesis using conjunct2 [OF name] by simp
qed

section \<open>Names of codecs\<close>

lemma digit_not_minus: "k < 10 \<Longrightarrow> (of_nat (48 + k) :: byte) \<noteq> 45"
proof
  assume k: "k < (10 :: nat)" and eq: "(of_nat (48 + k) :: byte) = 45"
  from eq have "unat (of_nat (48 + k) :: byte) = unat (45 :: byte)" by (rule arg_cong)
  with k show False by (simp add: unat_of_nat del: of_nat_add)
qed

lemma decimal_no_minus: "b \<in> set (decimal n) \<Longrightarrow> b \<noteq> 45"
proof (induction n rule: decimal.induct)
  case (1 n)
  show ?case
  proof (cases "n < 10")
    case True
    with 1 digit_not_minus [of n] show ?thesis by (auto simp: decimal.simps [of n])
  next
    case False
    with 1 digit_not_minus [of "n mod 10"] show ?thesis by (auto simp: decimal.simps [of n])
  qed
qed

lemma chars_inj: "chars xs = chars ys \<longleftrightarrow> xs = ys"
proof -
  have "inj (\<lambda>b :: byte. char_of (unat b) :: char)"
  proof (rule injI)
    fix a b :: byte
    assume "(char_of (unat a) :: char) = char_of (unat b)"
    then have "of_char (char_of (unat a) :: char) = (of_char (char_of (unat b) :: char) :: nat)" by simp
    moreover have "unat a < 256" "unat b < 256" using unsigned_less [of a, where ?'a = nat] unsigned_less [of b, where ?'a = nat] by simp_all
    ultimately show "a = b" by (simp add: word_unat_eq_iff)
  qed
  then show ?thesis by (simp add: chars_def inj_map_eq_map)
qed

lemma decimal_inj: "decimal m = decimal n \<longleftrightarrow> m = n"
  using decimal_chars [of m] decimal_chars [of n] by metis

lemma decimal_not_Nil: "decimal n \<noteq> []"
  by (simp add: decimal.simps [of n])

lemma signed_decimal_inj: "signed_decimal a = signed_decimal b \<longleftrightarrow> a = b"
proof -
  have "45 # xs \<noteq> decimal n" for xs n using decimal_no_minus [of 45 n] by (metis list.set_intros(1))
  then show ?thesis
    by (auto simp: signed_decimal_def decimal_inj dest!: sym [of "decimal _" "45 # _"] split: if_splits)
qed

lemma codec_vfs_name_inj:
  assumes "- (2 ^ 31) \<le> a" "a < 2 ^ 31" "- (2 ^ 31) \<le> b" "b < 2 ^ 31"
    and "codec_vfs_name c a = codec_vfs_name d b"
  shows "a = b \<and> (c = ESDB_CODEC_DEFLATE \<longleftrightarrow> d = ESDB_CODEC_DEFLATE)"
proof -
  have full: "- (2 ^ 31) \<le> l \<Longrightarrow> l < 2 ^ 31 \<Longrightarrow>
      codec_vfs_name x l = ''esdb-zv-'' @ (if x = ESDB_CODEC_DEFLATE then ''deflate'' else ''zstd'') @ ''-'' @ chars (signed_decimal l)"
    for x l unfolding codec_vfs_name_def using length_signed_decimal [of l] by (intro snprintf_fits) simp
  from assms(5) have "(c = ESDB_CODEC_DEFLATE \<longleftrightarrow> d = ESDB_CODEC_DEFLATE) \<and> chars (signed_decimal a) = chars (signed_decimal b)"
    unfolding full [OF assms(1,2)] full [OF assms(3,4)] by (simp split: if_splits)
  then show ?thesis by (simp add: chars_inj signed_decimal_inj)
qed

section \<open>The registry\<close>

text \<open>Levels are C integers: those of the libraries and the one asked for.\<close>

definition level_ok :: "int \<Rightarrow> bool" where
  "level_ok level \<longleftrightarrow> - (2 ^ 31) \<le> level \<and> level < 2 ^ 31"

definition levels_ok :: "'z zip_libraries \<Rightarrow> bool" where
  "levels_ok Z \<longleftrightarrow> level_ok (zl_default_level Z) \<and> level_ok (zs_default_level Z)"

definition registry_wf :: "codec_registry \<Rightarrow> bool" where
  "registry_wf reg \<longleftrightarrow> ordered_keys reg \<and>
     (\<forall>((codec, level), config) \<in> set reg. config = new_codec_config codec level \<and> level_ok level \<and>
        (codec = ESDB_CODEC_DEFLATE \<or> codec = ESDB_CODEC_ZSTD))"

lemma normalize_level_Some:
  assumes "normalize_level b Z codec requested = Some level" "levels_ok Z" "level_ok requested"
  shows "level_ok level \<and> (codec = ESDB_CODEC_DEFLATE \<or> codec = ESDB_CODEC_ZSTD)"
  using assms by (auto simp: normalize_level_def levels_ok_def split: if_splits)

lemma registry_wf_entry:
  assumes "registry_wf reg" and "map_of reg (codec, level) = Some config"
  shows "config = new_codec_config codec level" "level_ok level" "codec = ESDB_CODEC_DEFLATE \<or> codec = ESDB_CODEC_ZSTD"
  using assms map_of_SomeD [OF assms(2)] by (auto simp: registry_wf_def)

lemma registry_names_unique:
  assumes "registry_wf reg" and "map_of reg j = Some c" "map_of reg k = Some d" "cc_vfs_name c = cc_vfs_name d"
  shows "j = k"
proof -
  obtain x a y b where jk: "j = (x, a)" "k = (y, b)" by fastforce
  note c = registry_wf_entry [OF assms(1) assms(2) [unfolded jk]] and d = registry_wf_entry [OF assms(1) assms(3) [unfolded jk]]
  from assms(4) c d have "codec_vfs_name x a = codec_vfs_name y b" by (simp add: new_codec_config_def)
  with c(2) d(2) have "a = b \<and> (x = ESDB_CODEC_DEFLATE \<longleftrightarrow> y = ESDB_CODEC_DEFLATE)"
    by (intro codec_vfs_name_inj) (simp_all add: level_ok_def)
  with c(3) d(3) jk show ?thesis by auto
qed

lemma registry_wf_put:
  assumes "registry_wf reg" "level_ok level" "codec = ESDB_CODEC_DEFLATE \<or> codec = ESDB_CODEC_ZSTD"
  shows "registry_wf (map_put (codec, level) (new_codec_config codec level) reg)"
  using assms set_map_put [of "(codec, level)" "new_codec_config codec level" reg]
  unfolding registry_wf_def by (auto intro: ordered_map_put)

text \<open>
  C32: the codec registry. However the registration ends (a level out of range, a failed
  allocation, an exception, a refusal of ZIPVFS), the registry stays in order, every entry
  describes its own key, no entry is lost, and no two codecs share a VFS name. A name answered
  is the one registered for the codec at its normalized level, and asking again answers the
  same name and changes nothing, not even what ZIPVFS knows.
\<close>

theorem codec_registry_stays_well_formed:
  assumes "registry_wf (zw_registry w)" and "levels_ok Z" and "level_ok requested"
    and "ensure_zipvfs errstr b Z thrown config_ok codec requested w = (r, w')"
  shows "registry_wf (zw_registry w') \<and> map_of (zw_registry w) \<subseteq>\<^sub>m map_of (zw_registry w') \<and>
    (\<forall>j k c d. map_of (zw_registry w') j = Some c \<longrightarrow> map_of (zw_registry w') k = Some d \<longrightarrow>
       cc_vfs_name c = cc_vfs_name d \<longrightarrow> j = k) \<and>
    (case r of
       Inl e \<Rightarrow> zw_registry w' = zw_registry w
     | Inr name \<Rightarrow> \<exists>level. normalize_level b Z codec requested = Some level \<and> name = codec_vfs_name codec level \<and>
         map_of (zw_registry w') (codec, level) = Some (new_codec_config codec level) \<and>
         ensure_zipvfs errstr b Z thrown2 config_ok2 codec requested w' = (Inr name, w'))"
proof -
  let ?found = "\<lambda>name. \<exists>level. normalize_level b Z codec requested = Some level \<and> name = codec_vfs_name codec level \<and>
      map_of (zw_registry w') (codec, level) = Some (new_codec_config codec level)"
  have ordered: "ordered_keys (zw_registry w)" using assms(1) by (simp add: registry_wf_def)
  have "registry_wf (zw_registry w') \<and> map_of (zw_registry w) \<subseteq>\<^sub>m map_of (zw_registry w') \<and>
      (case r of Inl e \<Rightarrow> zw_registry w' = zw_registry w | Inr name \<Rightarrow> ?found name)"
  proof (cases "normalize_level b Z codec requested")
    case None
    with assms(1,4) show ?thesis by (auto simp: ensure_zipvfs_def)
  next
    case (Some level)
    note level = normalize_level_Some [OF Some assms(2,3)]
    show ?thesis
    proof (cases "map_of (zw_registry w) (codec, level)")
      case None
      have "map_of (zw_registry w) \<subseteq>\<^sub>m (map_of (zw_registry w))((codec, level) \<mapsto> new_codec_config codec level)"
        using None by (auto simp: map_le_def)
      with Some None assms(1,4) level registry_wf_put [OF assms(1)] map_of_map_put [OF ordered] show ?thesis
        by (auto simp: ensure_zipvfs_def register_codec_def Let_def new_codec_config_def
            split: if_splits option.splits exn.splits prod.splits)
    next
      case found: (Some config)
      from registry_wf_entry(1) [OF assms(1) found] found Some assms(1,4) show ?thesis
        by (auto simp: ensure_zipvfs_def new_codec_config_def)
    qed
  qed
  moreover have "?found name \<Longrightarrow> ensure_zipvfs errstr b Z thrown2 config_ok2 codec requested w' = (Inr name, w')" for name
    by (auto simp: ensure_zipvfs_def new_codec_config_def)
  ultimately show ?thesis
    using registry_names_unique [of "zw_registry w'"] by (auto split: sum.splits)
qed

definition sample_libraries :: "string list zip_libraries" where
  "sample_libraries =
     \<lparr>zl_default_level = - 1, zl_no_compression = 0, zl_best_compression = 9, zl_ok = 0,
      zl_compress_bound = (\<lambda>n. n), zl_compress2 = (\<lambda>_ _ bs. (0, bs)), zl_uncompress = (\<lambda>_ bs. (0, bs)),
      zs_default_level = 3, zs_min_level = - 7, zs_max_level = 22, zs_compress_bound = (\<lambda>n. n),
      zs_compress = (\<lambda>_ _ bs. Some bs), zs_decompress = (\<lambda>_ bs. Some bs),
      zv_create_vfs = (\<lambda>name _ names. (SQLITE_OK, name # names)), zv_errmsg = (\<lambda>_. None)\<rparr>"

theorem codec_registry_stays_well_formed_witness:
  "\<exists>w'. ensure_zipvfs (\<lambda>_. []) \<lparr>bd_has_zipvfs = True, bd_has_zstd = False\<rparr> sample_libraries None True ESDB_CODEC_DEFLATE 0
       \<lparr>zw_registry = [], zw_layer = []\<rparr> = (Inr ''esdb-zv-deflate--1'', w') \<and>
     map_of (zw_registry w') (ESDB_CODEC_DEFLATE, - 1) = Some (new_codec_config ESDB_CODEC_DEFLATE (- 1)) \<and>
     ensure_zipvfs (\<lambda>_. []) \<lparr>bd_has_zipvfs = True, bd_has_zstd = False\<rparr> sample_libraries (Some Bad_Alloc) False
       ESDB_CODEC_DEFLATE 0 w' = (Inr ''esdb-zv-deflate--1'', w')"
proof -
  let ?b = "\<lparr>bd_has_zipvfs = True, bd_has_zstd = False\<rparr>" and ?w = "\<lparr>zw_registry = [], zw_layer = [] :: string list\<rparr>"
  obtain r w' where run: "ensure_zipvfs (\<lambda>_. []) ?b sample_libraries None True ESDB_CODEC_DEFLATE 0 ?w = (r, w')" by fastforce
  have "fst (ensure_zipvfs (\<lambda>_. []) ?b sample_libraries None True ESDB_CODEC_DEFLATE 0 ?w) = Inr ''esdb-zv-deflate--1''" by code_simp
  with run have r: "r = Inr ''esdb-zv-deflate--1''" by simp
  have "registry_wf (zw_registry ?w)" "levels_ok sample_libraries" "level_ok 0"
    by (simp_all add: registry_wf_def levels_ok_def level_ok_def sample_libraries_def)
  moreover have "normalize_level ?b sample_libraries ESDB_CODEC_DEFLATE 0 = Some (- 1)" by code_simp
  ultimately show ?thesis
    using codec_registry_stays_well_formed [OF _ _ _ run, of "Some Bad_Alloc" False] run r by simp
qed

end
