(* ===== verification/C_Numbers.thy ===== *)
theory C_Numbers
  imports Complex_Main Esdb_Prelude
begin

text \<open>
  What the ExternalObject adapter (src/adapters/externalobject/esdb_externalobject.cpp) uses of
  the C and C++ libraries to turn numbers into text and back: \<open>strtoull\<close>, \<open>strtoll\<close>,
  \<open>strtoul\<close>, \<open>strtol\<close>, \<open>strtod\<close>, and the \<open>%.17g\<close> that an output stream of
  precision \<open>max_digits10\<close> prints. What the standard leaves to the platform is in \<open>platform\<close>.
  A double is its 64 bits; its value is computed exactly, as a fraction of integers.
\<close>

section \<open>The platform\<close>

text \<open>
  The width of \<open>long\<close>, the decimal point of the process's C locale (the host sets it, and
  \<open>strtod\<close> follows it), whether \<open>strtod\<close> reports an inexact subnormal result as a range
  error (the standard leaves that open), and the thousands separator of the global C++ locale,
  which a stream that is not given a locale of its own prints integers with.
\<close>

record platform =
  pf_long_bits :: nat
  pf_point :: byte
  pf_subnormal_range :: bool
  pf_separator :: "byte option"

definition is_digit :: "byte \<Rightarrow> bool" where
  "is_digit c \<longleftrightarrow> 48 \<le> c \<and> c \<le> 57"

definition is_space :: "byte \<Rightarrow> bool" where
  "is_space c \<longleftrightarrow> c = 32 \<or> (9 \<le> c \<and> c \<le> 13)"

section \<open>Printing integers\<close>

text \<open>The decimal digits of a number that is not negative.\<close>

function decimal_digits :: "int \<Rightarrow> byte list" where
  "decimal_digits n =
     (if n < 10 then [of_int (48 + n)] else decimal_digits (n div 10) @ [of_int (48 + n mod 10)])"
  by auto
termination
  by (relation "measure nat") auto

declare decimal_digits.simps [simp del]

definition int_decimal :: "int \<Rightarrow> byte list" where
  "int_decimal n = (if n < 0 then 45 # decimal_digits (- n) else decimal_digits n)"

text \<open>The same in the global locale: a separator before every third digit from the right.\<close>

fun group_digits :: "byte \<Rightarrow> byte list \<Rightarrow> byte list" where
  "group_digits separator (a # b # c # d # ds) = a # b # c # separator # group_digits separator (d # ds)"
| "group_digits separator ds = ds"

definition stream_decimal :: "platform \<Rightarrow> int \<Rightarrow> byte list" where
  "stream_decimal P n =
     (case pf_separator P of
        None \<Rightarrow> int_decimal n
      | Some separator \<Rightarrow>
          (if n < 0 then [45] else []) @ rev (group_digits separator (rev (decimal_digits \<bar>n\<bar>))))"

section \<open>Scanning integers\<close>

definition digits_value :: "byte list \<Rightarrow> int" where
  "digits_value ds = foldl (\<lambda>v c. 10 * v + (uint c - 48)) 0 ds"

definition split_sign :: "byte list \<Rightarrow> bool \<times> byte list" where
  "split_sign text =
     (case text of
        [] \<Rightarrow> (False, [])
      | c # cs \<Rightarrow> if c = 45 then (True, cs) else if c = 43 then (False, cs) else (False, c # cs))"

text \<open>Sign, magnitude and where the scan stopped; nothing when no digit is there.\<close>

definition scan_integer :: "byte list \<Rightarrow> (bool \<times> int \<times> byte list) option" where
  "scan_integer text =
     (case split_sign (dropWhile is_space text) of
        (negative, digits) \<Rightarrow>
          if takeWhile is_digit digits = [] then None
          else Some (negative, digits_value (takeWhile is_digit digits), dropWhile is_digit digits))"

text \<open>Value, \<open>errno == ERANGE\<close>, and the rest of the text (\<open>end\<close>).\<close>

definition strtoul_bits :: "nat \<Rightarrow> byte list \<Rightarrow> int \<times> bool \<times> byte list" where
  "strtoul_bits bits text =
     (case scan_integer text of
        None \<Rightarrow> (0, False, text)
      | Some (negative, n, rest) \<Rightarrow>
          if 2 ^ bits \<le> n then (2 ^ bits - 1, True, rest)
          else ((if negative then (- n) mod 2 ^ bits else n), False, rest))"

definition strtol_bits :: "nat \<Rightarrow> byte list \<Rightarrow> int \<times> bool \<times> byte list" where
  "strtol_bits bits text =
     (case scan_integer text of
        None \<Rightarrow> (0, False, text)
      | Some (negative, n, rest) \<Rightarrow>
          let v = (if negative then - n else n) in
          if v < - (2 ^ (bits - 1)) then (- (2 ^ (bits - 1)), True, rest)
          else if 2 ^ (bits - 1) \<le> v then (2 ^ (bits - 1) - 1, True, rest)
          else (v, False, rest))"

definition strtoull where "strtoull = strtoul_bits 64"
definition strtoll where "strtoll = strtol_bits 64"
definition strtoul where "strtoul P = strtoul_bits (pf_long_bits P)"
definition strtol where "strtol P = strtol_bits (pf_long_bits P)"

section \<open>The value of a double\<close>

unbundle bit_operations_syntax

definition dbl_negative :: "u64 \<Rightarrow> bool" where
  "dbl_negative b \<longleftrightarrow> 0x8000000000000000 \<le> b"

definition dbl_exponent :: "u64 \<Rightarrow> int" where
  "dbl_exponent b = uint b div 2 ^ 52 mod 2 ^ 11"

definition dbl_fraction :: "u64 \<Rightarrow> int" where
  "dbl_fraction b = uint b mod 2 ^ 52"

definition dbl_mantissa :: "u64 \<Rightarrow> int" where
  "dbl_mantissa b = (if dbl_exponent b = 0 then dbl_fraction b else dbl_fraction b + 2 ^ 52)"

definition dbl_scale :: "u64 \<Rightarrow> int" where
  "dbl_scale b = (if dbl_exponent b = 0 then - 1074 else dbl_exponent b - 1075)"

definition double_isnan :: "u64 \<Rightarrow> bool" where
  "double_isnan b \<longleftrightarrow> dbl_exponent b = 2047 \<and> dbl_fraction b \<noteq> 0"

definition double_isinf :: "u64 \<Rightarrow> bool" where
  "double_isinf b \<longleftrightarrow> dbl_exponent b = 2047 \<and> dbl_fraction b = 0"

definition double_finite :: "u64 \<Rightarrow> bool" where
  "double_finite b \<longleftrightarrow> dbl_exponent b \<noteq> 2047"

text \<open>\<open>m * base ^ e\<close> as a numerator and a positive denominator.\<close>

definition scaled :: "int \<Rightarrow> int \<Rightarrow> int \<Rightarrow> int \<times> int" where
  "scaled base m e = (if 0 \<le> e then (m * base ^ nat e, 1) else (m, base ^ nat (- e)))"

definition dbl_ratio :: "u64 \<Rightarrow> int \<times> int" where
  "dbl_ratio b = scaled 2 (dbl_mantissa b) (dbl_scale b)"

text \<open>The integer a finite double is equal to, if it is one.\<close>

definition double_integer :: "u64 \<Rightarrow> int option" where
  "double_integer b =
     (case dbl_ratio b of
        (n, d) \<Rightarrow>
          if double_finite b \<and> n mod d = 0
          then Some (if dbl_negative b then - (n div d) else n div d) else None)"

section \<open>Rounding\<close>

definition round_half_even :: "int \<Rightarrow> int \<Rightarrow> int" where
  "round_half_even n d =
     (let q = n div d; r = n mod d in
      if 2 * r < d \<or> (2 * r = d \<and> even q) then q else q + 1)"

function digit_count :: "int \<Rightarrow> int \<Rightarrow> nat" where
  "digit_count base n = (if 2 \<le> base \<and> base \<le> n then Suc (digit_count base (n div base)) else 1)"
  by auto
termination
  by (relation "measure (\<lambda>(base, n). nat n)")
    (auto simp: nat_less_eq_zless int_div_less_self)

declare digit_count.simps [simp del]

text \<open>The exponent \<open>x\<close> with \<open>base ^ x \<le> n / d < base ^ (x + 1)\<close>, for positive n and d.\<close>

definition floor_log :: "int \<Rightarrow> int \<Rightarrow> int \<Rightarrow> int" where
  "floor_log base n d =
     (if d \<le> n then int (digit_count base (n div d)) - 1
      else - int (digit_count base ((d - 1) div n)))"

section \<open>Printing a double\<close>

definition strip_zeros :: "byte list \<Rightarrow> byte list" where
  "strip_zeros ds = rev (dropWhile (\<lambda>c. c = 48) (rev ds))"

text \<open>Seventeen significant digits and the decimal exponent of the first of them.\<close>

definition significant_digits :: "u64 \<Rightarrow> int \<times> int" where
  "significant_digits b =
     (case dbl_ratio b of
        (n, d) \<Rightarrow>
          let x = floor_log 10 n d;
              (n', d') = scaled 10 n (16 - x);
              q = round_half_even n' (d * d')
          in if q = 10 ^ 17 then (10 ^ 16, x + 1) else (q, x))"

definition exponent_text :: "int \<Rightarrow> byte list" where
  "exponent_text x =
     101 # (if x < 0 then 45 else 43) #
       (if \<bar>x\<bar> < 10 then 48 # decimal_digits \<bar>x\<bar> else decimal_digits \<bar>x\<bar>)"

definition with_point :: "byte list \<Rightarrow> byte list \<Rightarrow> byte list" where
  "with_point whole fraction =
     whole @ (if strip_zeros fraction = [] then [] else 46 # strip_zeros fraction)"

text \<open>\<open>%.17g\<close> of a finite double that is not zero.\<close>

definition print_magnitude :: "int \<Rightarrow> int \<Rightarrow> byte list" where
  "print_magnitude q x =
     (let ds = decimal_digits q in
      if x < - 4 \<or> 17 \<le> x
      then with_point (take 1 ds) (drop 1 ds) @ exponent_text x
      else if x < 0
      then with_point [48] (replicate (nat (- x - 1)) 48 @ ds)
      else with_point (take (nat x + 1) ds) (drop (nat x + 1) ds))"

definition print_double :: "u64 \<Rightarrow> byte list" where
  "print_double b =
     (if dbl_mantissa b = 0 then (if dbl_negative b then [45, 48] else [48])
      else (if dbl_negative b then [45] else []) @
        (case significant_digits b of (q, x) \<Rightarrow> print_magnitude q x))"

section \<open>Scanning doubles\<close>

text \<open>
  The nearest double of a positive fraction, ties to even. The carry of a mantissa that rounds
  up to the next power of two runs into the exponent field, and past the largest finite double
  into infinity.
\<close>

definition DOUBLE_INFINITY :: int where "DOUBLE_INFINITY = 2047 * 2 ^ 52"

definition nearest_scale :: "int \<Rightarrow> int \<Rightarrow> int" where
  "nearest_scale n d = max (floor_log 2 n d - 52) (- 1074)"

definition nearest_mantissa :: "int \<Rightarrow> int \<Rightarrow> int" where
  "nearest_mantissa n d =
     (case scaled 2 n (- nearest_scale n d) of (n', d') \<Rightarrow> round_half_even n' (d * d'))"

definition nearest_exact :: "int \<Rightarrow> int \<Rightarrow> bool" where
  "nearest_exact n d \<longleftrightarrow>
     (case scaled 2 n (- nearest_scale n d) of (n', d') \<Rightarrow> n' mod (d * d') = 0)"

definition nearest_double :: "platform \<Rightarrow> int \<Rightarrow> int \<Rightarrow> int \<times> bool" where
  "nearest_double P n d =
     (if n = 0 then (0, False)
      else
       let m = nearest_mantissa n d;
           bits = (nearest_scale n d + 1074) * 2 ^ 52 + m
       in if DOUBLE_INFINITY \<le> bits then (DOUBLE_INFINITY, True)
          else (bits, m < 2 ^ 52 \<and> \<not> nearest_exact n d \<and> (m = 0 \<or> pf_subnormal_range P)))"

definition with_sign :: "bool \<Rightarrow> int \<Rightarrow> u64" where
  "with_sign negative bits = of_int ((if negative then 2 ^ 63 else 0) + bits)"

definition hex_digit :: "byte \<Rightarrow> int option" where
  "hex_digit c =
     (if 48 \<le> c \<and> c \<le> 57 then Some (uint c - 48)
      else if 97 \<le> c \<and> c \<le> 102 then Some (uint c - 87)
      else if 65 \<le> c \<and> c \<le> 70 then Some (uint c - 55)
      else None)"

definition is_hex_digit :: "byte \<Rightarrow> bool" where
  "is_hex_digit c \<longleftrightarrow> hex_digit c \<noteq> None"

definition hex_value :: "byte list \<Rightarrow> int" where
  "hex_value ds = foldl (\<lambda>v c. 16 * v + the (hex_digit c)) 0 ds"

text \<open>Digits, an optional point with more of them: the two parts and the rest.\<close>

definition scan_mantissa :: "byte \<Rightarrow> (byte \<Rightarrow> bool) \<Rightarrow> byte list \<Rightarrow> byte list \<times> byte list \<times> byte list" where
  "scan_mantissa point digit text =
     (let whole = takeWhile digit text; rest = dropWhile digit text in
      case rest of
        c # cs \<Rightarrow>
          if c = point \<and> (whole \<noteq> [] \<or> takeWhile digit cs \<noteq> [])
          then (whole, takeWhile digit cs, dropWhile digit cs)
          else (whole, [], rest)
      | [] \<Rightarrow> (whole, [], rest))"

text \<open>An exponent part that has no digits is not part of the number.\<close>

definition scan_exponent :: "byte list \<Rightarrow> byte list \<Rightarrow> int \<times> byte list" where
  "scan_exponent letters text =
     (case text of
        c # cs \<Rightarrow>
          (case split_sign cs of
             (negative, ds) \<Rightarrow>
               if c \<in> set letters \<and> takeWhile is_digit ds \<noteq> []
               then ((if negative then - digits_value (takeWhile is_digit ds)
                      else digits_value (takeWhile is_digit ds)), dropWhile is_digit ds)
               else (0, text))
      | [] \<Rightarrow> (0, text))"

definition lower :: "byte \<Rightarrow> byte" where
  "lower c = (if 65 \<le> c \<and> c \<le> 90 then c + 32 else c)"

definition starts :: "byte list \<Rightarrow> byte list \<Rightarrow> bool" where
  "starts word1 text \<longleftrightarrow> map lower (take (length word1) text) = word1"

definition is_nan_char :: "byte \<Rightarrow> bool" where
  "is_nan_char c \<longleftrightarrow> is_digit c \<or> (97 \<le> lower c \<and> lower c \<le> 122) \<or> c = 95"

definition skip_nan_chars :: "byte list \<Rightarrow> byte list" where
  "skip_nan_chars text =
     (case text of
        c # cs \<Rightarrow>
          if c = 40 \<and> take 1 (dropWhile is_nan_char cs) = [41]
          then drop 1 (dropWhile is_nan_char cs) else text
      | [] \<Rightarrow> [])"

text \<open>The hexadecimal form is there only when a hexadecimal digit follows the prefix.\<close>

definition strtod_magnitude :: "platform \<Rightarrow> byte list \<Rightarrow> (int \<times> bool \<times> byte list) option" where
  "strtod_magnitude P text =
     (if starts [105, 110, 102] text
      then Some (DOUBLE_INFINITY, False,
             if starts [105, 110, 102, 105, 110, 105, 116, 121] text then drop 8 text else drop 3 text)
      else if starts [110, 97, 110] text
      then Some (DOUBLE_INFINITY + 2 ^ 51, False, skip_nan_chars (drop 3 text))
      else
       case scan_mantissa (pf_point P) is_hex_digit (drop 2 text) of
         (whole, fraction, rest) \<Rightarrow>
           if starts [48, 120] text \<and> whole @ fraction \<noteq> []
           then
             (case scan_exponent [112, 80] rest of
                (e, rest) \<Rightarrow>
                  (case scaled 2 (hex_value (whole @ fraction)) (e - 4 * int (length fraction)) of
                     (n, d) \<Rightarrow> (case nearest_double P n d of (bits, erange) \<Rightarrow> Some (bits, erange, rest))))
           else
            (case scan_mantissa (pf_point P) is_digit text of
               (whole, fraction, rest) \<Rightarrow>
                 if whole @ fraction = [] then None
                 else
                  (case scan_exponent [101, 69] rest of
                     (e, rest) \<Rightarrow>
                       (case scaled 10 (digits_value (whole @ fraction)) (e - int (length fraction)) of
                          (n, d) \<Rightarrow>
                            (case nearest_double P n d of (bits, erange) \<Rightarrow> Some (bits, erange, rest))))))"

definition strtod :: "platform \<Rightarrow> byte list \<Rightarrow> u64 \<times> bool \<times> byte list" where
  "strtod P text =
     (case split_sign (dropWhile is_space text) of
        (negative, unsigned1) \<Rightarrow>
          (case strtod_magnitude P unsigned1 of
             None \<Rightarrow> (0, False, text)
           | Some (bits, erange, rest) \<Rightarrow> (with_sign negative bits, erange, rest)))"

end
