(* ===== verification/Adapter_Wire.thy ===== *)
theory Adapter_Wire
  imports C_Numbers Runtime_Query Runtime_Open Object_Store Memory_Registry
begin

text \<open>
  The ASCII wire of the ExternalObject adapter
  (src/adapters/externalobject/esdb_externalobject.cpp): canonical decimals and hexadecimal text,
  the value wire \<open>V1\<close>, the parameter packet \<open>P1\<close>, the patch packet of \<open>storePatch\<close>, the
  rows a query, a scan or a change window appends to its reply, and the two JSON reports.
  \<open>std::string\<close> and C strings are byte lists; a C string has no zero byte. Bytes are named by
  their codes: 48 to 57 are the digits, 45 the minus, 58 the colon, 10 the newline, 124 the bar.
\<close>

section \<open>Decimals\<close>

definition canonical_decimal_syntax :: "byte list option \<Rightarrow> bool \<Rightarrow> bool" where
  "canonical_decimal_syntax input allow_negative =
     (case input of
        None \<Rightarrow> False
      | Some [] \<Rightarrow> False
      | Some (c # cs) \<Rightarrow>
          if c = 45 \<and> (\<not> allow_negative \<or> cs = []) then False
          else
           let cursor = (if c = 45 then cs else c # cs) in
           if hd cursor = 48 then tl cursor = []
           else 49 \<le> hd cursor \<and> hd cursor \<le> 57 \<and> list_all is_digit (tl cursor))"

definition parse_i64_decimal :: "byte list option \<Rightarrow> int option" where
  "parse_i64_decimal input =
     (if \<not> canonical_decimal_syntax input True then None
      else if the input = [45, 48] then None
      else case strtoll (the input) of
        (value1, erange, end1) \<Rightarrow> if erange \<or> end1 \<noteq> [] then None else Some value1)"

definition parse_revision_decimal :: "byte list option \<Rightarrow> u64 option" where
  "parse_revision_decimal input =
     (if \<not> canonical_decimal_syntax input False then None
      else case strtoull (the input) of
        (value1, erange, end1) \<Rightarrow>
          if erange \<or> end1 \<noteq> [] \<or> uint ESDB_REVISION_MAX < value1 then None else Some (of_int value1))"

definition parse_u32_decimal :: "platform \<Rightarrow> byte list \<Rightarrow> u32 option" where
  "parse_u32_decimal P input =
     (if \<not> canonical_decimal_syntax (Some input) False then None
      else case strtoul P input of
        (value1, erange, end1) \<Rightarrow>
          if erange \<or> end1 \<noteq> [] \<or> 4294967295 < value1 then None else Some (of_int value1))"

definition u64_decimal :: "u64 \<Rightarrow> byte list" where "u64_decimal v = int_decimal (uint v)"
definition u32_decimal :: "u32 \<Rightarrow> byte list" where "u32_decimal v = int_decimal (uint v)"
definition i64_decimal :: "int \<Rightarrow> byte list" where "i64_decimal v = int_decimal v"

definition double_decimal :: "u64 \<Rightarrow> byte list" where
  "double_decimal v =
     (if double_isnan v then ascii ''NaN''
      else if double_isinf v then (if dbl_negative v then ascii ''-Infinity'' else ascii ''Infinity'')
      else if dbl_mantissa v = 0 \<and> dbl_negative v then ascii ''-0''
      else print_double v)"

abbreviation "QUIET_NAN \<equiv> (0x7ff8000000000000 :: u64)"
abbreviation "POSITIVE_INFINITY \<equiv> (0x7ff0000000000000 :: u64)"
abbreviation "NEGATIVE_INFINITY \<equiv> (0xfff0000000000000 :: u64)"
abbreviation "NEGATIVE_ZERO \<equiv> (0x8000000000000000 :: u64)"

definition parse_double_decimal :: "platform \<Rightarrow> byte list \<Rightarrow> u64 option" where
  "parse_double_decimal P input =
     (if input = [] then None
      else if input = ascii ''NaN'' then Some QUIET_NAN
      else if input = ascii ''Infinity'' then Some POSITIVE_INFINITY
      else if input = ascii ''-Infinity'' then Some NEGATIVE_INFINITY
      else if input = ascii ''-0'' then Some NEGATIVE_ZERO
      else case strtod P input of
        (value1, erange, end1) \<Rightarrow> if erange \<or> end1 \<noteq> [] then None else Some value1)"

section \<open>Hexadecimal text\<close>

definition hex_nibble :: "byte \<Rightarrow> int" where
  "hex_nibble c =
     (if 48 \<le> c \<and> c \<le> 57 then uint c - 48
      else if 97 \<le> c \<and> c \<le> 102 then 10 + (uint c - 97)
      else if 65 \<le> c \<and> c \<le> 70 then 10 + (uint c - 65)
      else - 1)"

fun hex_pairs :: "byte list \<Rightarrow> byte list option" where
  "hex_pairs [] = Some []"
| "hex_pairs [c] = None"
| "hex_pairs (c # d # cs) =
     (if hex_nibble c < 0 \<or> hex_nibble d < 0 then None
      else map_option ((#) (of_int (16 * hex_nibble c + hex_nibble d))) (hex_pairs cs))"

definition hex_decode :: "byte list option \<Rightarrow> byte list option" where
  "hex_decode input =
     (case input of None \<Rightarrow> None | Some cs \<Rightarrow> if odd (length cs) then None else hex_pairs cs)"

definition decode_hex_cstring :: "byte list option \<Rightarrow> bool \<Rightarrow> byte list option" where
  "decode_hex_cstring input allow_empty =
     (case hex_decode input of
        None \<Rightarrow> None
      | Some decoded \<Rightarrow>
          if (decoded = [] \<and> \<not> allow_empty) \<or> 0 \<in> set decoded then None else Some decoded)"

definition hex_character :: "int \<Rightarrow> byte" where
  "hex_character k = of_int (if k < 10 then 48 + k else 55 + k)"

definition hex_encode :: "byte list \<Rightarrow> byte list" where
  "hex_encode data =
     concat (map (\<lambda>b. [hex_character (uint b div 16), hex_character (uint b mod 16)]) data)"

section \<open>Values\<close>

text \<open>A refusal that leaves the error record as it was.\<close>

definition make_number_value :: "value_alloc \<Rightarrow> u32 \<Rightarrow> u64 \<Rightarrow> esdb_value outcome" where
  "make_number_value alloc type number =
     (if type = ESDB_VALUE_BOOL then
        if double_integer number \<noteq> Some 0 \<and> double_integer number \<noteq> Some 1
        then status_only ESDB_ERR_INVALID_ARGUMENT
        else esdb_value_create_bool alloc (if double_integer number \<noteq> Some 0 then 1 else 0) True
      else if type = ESDB_VALUE_INT32 then
       (case double_integer number of
          None \<Rightarrow> status_only ESDB_ERR_INVALID_ARGUMENT
        | Some i \<Rightarrow>
            if i < - 2147483648 \<or> 2147483647 < i then status_only ESDB_ERR_INVALID_ARGUMENT
            else esdb_value_create_int32 alloc (of_int i) True)
      else if type = ESDB_VALUE_DOUBLE then esdb_value_create_double alloc number True
      else status_only ESDB_ERR_INVALID_ARGUMENT)"

definition buffer_of :: "byte list \<Rightarrow> byte list option" where
  "buffer_of data = (if data = [] then None else Some data)"

definition make_text_value :: "value_alloc \<Rightarrow> u32 \<Rightarrow> byte list option \<Rightarrow> esdb_value outcome" where
  "make_text_value alloc type payload =
     (if type = ESDB_VALUE_NULL then
        if payload \<noteq> Some [] then status_only ESDB_ERR_INVALID_ARGUMENT
        else esdb_value_create_null alloc True
      else if type = ESDB_VALUE_INT64 then
       (case parse_i64_decimal payload of
          None \<Rightarrow> status_only ESDB_ERR_INVALID_ARGUMENT
        | Some v \<Rightarrow> esdb_value_create_int64 alloc (of_int v) True)
      else case hex_decode payload of
        None \<Rightarrow> status_only ESDB_ERR_INVALID_ARGUMENT
      | Some decoded \<Rightarrow>
          if type = ESDB_VALUE_BYTES
          then esdb_value_create_bytes alloc (buffer_of decoded) (of_nat (length decoded)) True
          else if type = ESDB_VALUE_UTF8 \<or> type = ESDB_VALUE_ARRAY \<or> type = ESDB_VALUE_OBJECT
          then esdb_value_create_text alloc type (buffer_of decoded) (of_nat (length decoded)) True
          else status_only ESDB_ERR_INVALID_ARGUMENT)"

definition wire_tag :: "u32 \<Rightarrow> byte list" where
  "wire_tag type = ascii ''V1:'' @ u32_decimal type @ [58]"

text \<open>The payload after the tag; a size that half of \<open>size_t\<close> cannot hold has no encoding.\<close>

definition value_payload :: "esdb_value \<Rightarrow> byte list option" where
  "value_payload v =
     (let type = esdb_value_type_of (Some v) in
      if type = ESDB_VALUE_NULL then Some []
      else if type = ESDB_VALUE_BOOL then
       (case esdb_value_get_bool (Some v) True of
          Done x \<Rightarrow> Some (if x \<noteq> 0 then [49] else [48]) | Failed _ _ \<Rightarrow> None)
      else if type = ESDB_VALUE_INT32 then
       (case esdb_value_get_int32 (Some v) True of
          Done x \<Rightarrow> Some (int_decimal (sint x)) | Failed _ _ \<Rightarrow> None)
      else if type = ESDB_VALUE_INT64 then
       (case esdb_value_get_int64 (Some v) True of
          Done x \<Rightarrow> Some (i64_decimal (sint x)) | Failed _ _ \<Rightarrow> None)
      else if type = ESDB_VALUE_DOUBLE then
       (case esdb_value_get_double (Some v) True of
          Done x \<Rightarrow> Some (double_decimal x) | Failed _ _ \<Rightarrow> None)
      else if type \<in> {ESDB_VALUE_UTF8, ESDB_VALUE_BYTES, ESDB_VALUE_ARRAY, ESDB_VALUE_OBJECT} then
       (case esdb_value_get_data (Some v) True True of
          Done (data, n) \<Rightarrow>
            if 9223372036854775807 < n then None
            else Some (hex_encode (case data of None \<Rightarrow> [] | Some bs \<Rightarrow> take (unat n) bs))
        | Failed _ _ \<Rightarrow> None)
      else None)"

definition value_wire :: "esdb_value option \<Rightarrow> byte list option" where
  "value_wire value1 =
     (case value1 of
        None \<Rightarrow> None
      | Some v \<Rightarrow> map_option ((@) (wire_tag (ev_type v))) (value_payload v))"

section \<open>Parameter packets\<close>

abbreviation "k_query_parameter_max \<equiv> (1024 :: u32)"
abbreviation "k_query_row_max \<equiv> (10000 :: int)"
abbreviation "k_query_sql_max_bytes \<equiv> (1048576 :: int)"
abbreviation "k_query_parameter_wire_max_bytes \<equiv> (8388608 :: int)"
abbreviation "k_query_result_wire_max_bytes \<equiv> (16777216 :: int)"
abbreviation "k_query_result_header_max_bytes \<equiv> (128 :: int)"

definition size_of :: "byte list \<Rightarrow> int" where "size_of bs = int (length bs)"

text \<open>\<open>find\<close> and the two \<open>substr\<close> around the position found; nothing when it is not there.\<close>

definition split_at :: "byte \<Rightarrow> byte list \<Rightarrow> (byte list \<times> byte list) option" where
  "split_at c input =
     (if c \<in> set input then Some (takeWhile (\<lambda>x. x \<noteq> c) input, tl (dropWhile (\<lambda>x. x \<noteq> c) input))
      else None)"

definition done_value :: "esdb_value outcome \<Rightarrow> esdb_value option" where
  "done_value r = (case r of Done v \<Rightarrow> Some v | Failed _ _ \<Rightarrow> None)"

definition parse_typed_payload :: "platform \<Rightarrow> value_alloc \<Rightarrow> u32 \<Rightarrow> byte list \<Rightarrow> esdb_value option" where
  "parse_typed_payload P alloc type payload =
     (if type = ESDB_VALUE_NULL then
        if payload = [] then done_value (esdb_value_create_null alloc True) else None
      else if type = ESDB_VALUE_BOOL then
        if payload \<noteq> [48] \<and> payload \<noteq> [49] then None
        else done_value (esdb_value_create_bool alloc (if payload = [49] then 1 else 0) True)
      else if type = ESDB_VALUE_INT32 then
       (case parse_i64_decimal (Some payload) of
          None \<Rightarrow> None
        | Some v \<Rightarrow>
            if v < - 2147483648 \<or> 2147483647 < v then None
            else done_value (esdb_value_create_int32 alloc (of_int v) True))
      else if type = ESDB_VALUE_INT64 then
       (case parse_i64_decimal (Some payload) of
          None \<Rightarrow> None
        | Some v \<Rightarrow> done_value (esdb_value_create_int64 alloc (of_int v) True))
      else if type = ESDB_VALUE_DOUBLE then
       (case parse_double_decimal P payload of
          None \<Rightarrow> None
        | Some v \<Rightarrow> done_value (esdb_value_create_double alloc v True))
      else if type \<in> {ESDB_VALUE_UTF8, ESDB_VALUE_BYTES, ESDB_VALUE_ARRAY, ESDB_VALUE_OBJECT}
      then done_value (make_text_value alloc type (Some payload))
      else None)"

definition parse_query_value_wire :: "platform \<Rightarrow> value_alloc \<Rightarrow> byte list \<Rightarrow> esdb_value option" where
  "parse_query_value_wire P alloc wire =
     (if size_of wire < 5 \<or> take 3 wire \<noteq> ascii ''V1:'' then None
      else case split_at 58 (drop 3 wire) of
        None \<Rightarrow> None
      | Some (type_text, payload) \<Rightarrow>
         (case parse_u32_decimal P type_text of
            None \<Rightarrow> None
          | Some type \<Rightarrow>
              if ESDB_VALUE_OBJECT < type then None else parse_typed_payload P alloc type payload))"

text \<open>A line and what follows it; the last line may lack its newline.\<close>

definition next_line :: "byte list \<Rightarrow> byte list \<times> byte list" where
  "next_line input = (takeWhile (\<lambda>c. c \<noteq> 10) input, drop 1 (dropWhile (\<lambda>c. c \<noteq> 10) input))"

text \<open>The loop over the declared count; the allocator of each value may differ.\<close>

fun parse_parameter_lines ::
  "platform \<Rightarrow> (nat \<Rightarrow> value_alloc) \<Rightarrow> nat \<Rightarrow> nat \<Rightarrow> byte list
   \<Rightarrow> (esdb_value list \<times> byte list) option" where
  "parse_parameter_lines P alloc i 0 cursor = Some ([], cursor)"
| "parse_parameter_lines P alloc i (Suc count1) cursor =
     (case next_line cursor of
        (line, cursor) \<Rightarrow>
          if line = [] then None
          else case parse_query_value_wire P (alloc i) line of
            None \<Rightarrow> None
          | Some v \<Rightarrow>
             (case parse_parameter_lines P alloc (Suc i) count1 cursor of
                None \<Rightarrow> None
              | Some (vs, cursor) \<Rightarrow> Some (v # vs, cursor)))"

definition parse_query_parameter_wire ::
  "platform \<Rightarrow> (nat \<Rightarrow> value_alloc) \<Rightarrow> byte list option \<Rightarrow> esdb_value list option" where
  "parse_query_parameter_wire P alloc input =
     (case input of
        None \<Rightarrow> None
      | Some wire \<Rightarrow>
          if k_query_parameter_wire_max_bytes < size_of wire then None
          else case next_line wire of
            (header, cursor) \<Rightarrow>
              if size_of header < 4 \<or> take 3 header \<noteq> ascii ''P1:'' then None
              else case parse_u32_decimal P (drop 3 header) of
                None \<Rightarrow> None
              | Some count1 \<Rightarrow>
                  if k_query_parameter_max < count1 then None
                  else case parse_parameter_lines P alloc 0 (unat count1) cursor of
                    None \<Rightarrow> None
                  | Some (values1, cursor) \<Rightarrow>
                      if dropWhile (\<lambda>c. c = 10) cursor = [] then Some values1 else None)"

section \<open>Patch packets\<close>

text \<open>The three separators of an entry \<open>key:type:lane:payload\<close>.\<close>

definition split_entry :: "byte list \<Rightarrow> (byte list \<times> byte list \<times> byte \<times> byte list) option" where
  "split_entry line =
     (case split_at 58 line of
        None \<Rightarrow> None
      | Some (key_hex, rest) \<Rightarrow>
         (case split_at 58 rest of
            None \<Rightarrow> None
          | Some (type_text, rest) \<Rightarrow>
             (case split_at 58 rest of
                None \<Rightarrow> None
              | Some (lane, payload) \<Rightarrow>
                  if type_text = [] \<or> length lane \<noteq> 1 then None
                  else Some (key_hex, type_text, hd lane, payload))))"

text \<open>Why a packet is refused: the message, and the constructor's error when it reported one.\<close>

type_synonym wire_refusal = "string \<times> esdb_error option"

definition reported :: "'a outcome \<Rightarrow> esdb_error option" where
  "reported r = (if err_status (error_of r) = ESDB_OK then None else Some (error_of r))"

definition patch_lane_value ::
  "platform \<Rightarrow> value_alloc \<Rightarrow> byte \<Rightarrow> u32 \<Rightarrow> byte list \<Rightarrow> esdb_value outcome" where
  "patch_lane_value P alloc lane type payload =
     (if lane = 78 then
       (case parse_double_decimal P payload of
          None \<Rightarrow> status_only ESDB_ERR_INVALID_ARGUMENT
        | Some number \<Rightarrow> make_number_value alloc type number)
      else if lane = 84 then make_text_value alloc type (Some payload)
      else status_only ESDB_ERR_INVALID_ARGUMENT)"

definition parse_patch_entry ::
  "platform \<Rightarrow> value_alloc \<Rightarrow> byte list \<Rightarrow> wire_refusal + (byte list \<times> esdb_value)" where
  "parse_patch_entry P alloc line =
     (case split_entry line of
        None \<Rightarrow> Inl (''storePatch contains a malformed entry'', None)
      | Some (key_hex, type_text, lane, payload) \<Rightarrow>
         (case decode_hex_cstring (Some key_hex) False of
            None \<Rightarrow> Inl (''storePatch contains an invalid key'', None)
          | Some key \<Rightarrow>
             (case strtol P type_text of
                (type_long, erange, end1) \<Rightarrow>
                  if erange \<or> end1 \<noteq> [] \<or> type_long < 0 \<or> 8 < type_long
                  then Inl (''storePatch contains an invalid value type'', None)
                  else case patch_lane_value P alloc lane (of_int type_long) payload of
                    Failed status e \<Rightarrow>
                      Inl (''storePatch contains an invalid value payload'', reported (Failed status e :: esdb_value outcome))
                  | Done v \<Rightarrow> Inr (key, v))))"

fun parse_patch_lines ::
  "platform \<Rightarrow> (nat \<Rightarrow> value_alloc) \<Rightarrow> nat \<Rightarrow> nat \<Rightarrow> byte list
   \<Rightarrow> wire_refusal + ((byte list \<times> esdb_value) list \<times> byte list)" where
  "parse_patch_lines P alloc i 0 cursor = Inr ([], cursor)"
| "parse_patch_lines P alloc i (Suc count1) cursor =
     (case next_line cursor of
        (line, cursor) \<Rightarrow>
         (case parse_patch_entry P (alloc i) line of
            Inl refusal \<Rightarrow> Inl refusal
          | Inr entry \<Rightarrow>
             (case parse_patch_lines P alloc (Suc i) count1 cursor of
                Inl refusal \<Rightarrow> Inl refusal
              | Inr (entries, cursor) \<Rightarrow> Inr (entry # entries, cursor))))"

definition parse_patch_wire ::
  "platform \<Rightarrow> (nat \<Rightarrow> value_alloc) \<Rightarrow> byte list \<Rightarrow> wire_refusal + (byte list \<times> esdb_value) list" where
  "parse_patch_wire P alloc wire =
     (if 16777216 < size_of wire \<or> take 3 wire \<noteq> ascii ''P1:''
      then Inl (''storePatch wire is invalid or exceeds 16 MiB'', None)
      else case next_line wire of
        (header, cursor) \<Rightarrow>
         (case strtoul P (drop 3 header) of
            (parsed_count, erange, count_end) \<Rightarrow>
              if erange \<or> count_end \<noteq> [] \<or> uint ESDB_STORE_PATCH_MAX_ENTRIES < parsed_count
              then Inl (''storePatch count is invalid'', None)
              else case parse_patch_lines P alloc 0 (nat parsed_count) cursor of
                Inl refusal \<Rightarrow> Inl refusal
              | Inr (entries, cursor) \<Rightarrow>
                  if \<not> list_all (\<lambda>c. c = 10 \<or> c = 13) cursor
                  then Inl (''storePatch has trailing data after declared entries'', None)
                  else Inr entries))"

end
