(* ===== verification/Adapter_Replies.thy ===== *)
theory Adapter_Replies
  imports Adapter_Wire
begin

text \<open>
  What the ExternalObject adapter (src/adapters/externalobject/esdb_externalobject.cpp) answers
  with: the callbacks that turn rows, records and changes into lines of the wire, the adapter's
  error record and the two JSON reports.
\<close>

section \<open>Rows of a query\<close>

record query_context =
  qx_names :: "byte list"
  qx_rows :: "byte list"
  qx_column_count :: nat
  qx_returned_rows :: nat
  qx_max_rows :: nat
  qx_names_ready :: bool
  qx_truncated :: bool
  qx_failed :: bool

definition new_query_context :: "nat \<Rightarrow> query_context" where
  "new_query_context max_rows =
     \<lparr>qx_names = [], qx_rows = [], qx_column_count = 0, qx_returned_rows = 0, qx_max_rows = max_rows,
      qx_names_ready = False, qx_truncated = False, qx_failed = False\<rparr>"

fun joined :: "byte list list \<Rightarrow> byte list" where
  "joined [] = []"
| "joined [x] = x"
| "joined (x # y # xs) = x @ [124] @ joined (y # xs)"

text \<open>A column name is a nullable C string.\<close>

definition set_query_column_names :: "string option list \<Rightarrow> query_context \<Rightarrow> query_context option" where
  "set_query_column_names column_names context1 =
     (if None \<in> set column_names then None
      else
       let names = ascii ''N:'' @ joined (map (\<lambda>n. hex_encode (ascii (the n))) column_names) @ [10] in
       if k_query_result_wire_max_bytes < size_of names + k_query_result_header_max_bytes then None
       else Some (context1\<lparr>qx_column_count := length column_names, qx_names := names,
                    qx_names_ready := True\<rparr>))"

text \<open>
  The metadata statement is prepared only for its column names; \<open>columns\<close> is what SQLite says of
  it, nothing when it did not prepare.
\<close>

definition prime_query_column_names :: "string option list option \<Rightarrow> query_context \<Rightarrow> query_context" where
  "prime_query_column_names columns context1 =
     (case columns of
        None \<Rightarrow> context1
      | Some column_names \<Rightarrow>
         (case set_query_column_names column_names context1 of
            None \<Rightarrow> context1\<lparr>qx_failed := True\<rparr>
          | Some context1 \<Rightarrow> context1))"

definition after_tag :: "byte list \<Rightarrow> byte list option" where
  "after_tag wire = (if size_of wire < 3 \<or> take 3 wire \<noteq> ascii ''V1:'' then None else Some (drop 3 wire))"

definition value_cell :: "esdb_value \<Rightarrow> byte list option" where
  "value_cell v = (case value_wire (Some v) of None \<Rightarrow> None | Some wire \<Rightarrow> after_tag wire)"

definition row_text :: "esdb_value list \<Rightarrow> byte list option" where
  "row_text values1 =
     (if None \<in> set (map value_cell values1) then None
      else Some (ascii ''R:'' @ joined (map (\<lambda>v. the (value_cell v)) values1) @ [10]))"

text \<open>
  \<open>append_query_row_wire\<close>; \<open>grows\<close> says whether the allocations for a row succeed. Everything but
  a row taken answers "stop".
\<close>

definition append_query_row_wire ::
  "(nat \<Rightarrow> bool) \<Rightarrow> (query_context, string option list \<times> esdb_value list) callback" where
  "append_query_row_wire grows context1 row1 =
     (case row1 of
        (column_names, values1) \<Rightarrow>
          let failed = (Cb_Stop, context1\<lparr>qx_failed := True\<rparr>) in
          if \<not> grows (qx_returned_rows context1) then failed
          else
           case (if qx_names_ready context1
                 then if qx_column_count context1 \<noteq> length column_names then None else Some context1
                 else set_query_column_names column_names context1) of
             None \<Rightarrow> failed
           | Some context1 \<Rightarrow>
              if qx_max_rows context1 \<le> qx_returned_rows context1
              then (Cb_Stop, context1\<lparr>qx_truncated := True\<rparr>)
              else case row_text values1 of
                None \<Rightarrow> (Cb_Stop, context1\<lparr>qx_failed := True\<rparr>)
              | Some row \<Rightarrow>
                  if k_query_result_wire_max_bytes
                     < size_of (qx_names context1) + size_of (qx_rows context1) + size_of row
                       + k_query_result_header_max_bytes
                  then (Cb_Stop, context1\<lparr>qx_truncated := True\<rparr>)
                  else (Cb_Continue, context1\<lparr>qx_rows := qx_rows context1 @ row,
                          qx_returned_rows := Suc (qx_returned_rows context1)\<rparr>))"

text \<open>The reply: the header, the names and the rows taken.\<close>

definition query_reply :: "u64 \<Rightarrow> u64 \<Rightarrow> query_context \<Rightarrow> byte list" where
  "query_reply total_rows changes context1 =
     (let context1 = (if qx_names_ready context1 then context1
            else context1\<lparr>qx_names := ascii ''N:'' @ [10], qx_column_count := 0\<rparr>);
          truncated = (qx_truncated context1 \<or> int (qx_returned_rows context1) < uint total_rows)
      in ascii ''Q1:'' @ int_decimal (int (qx_column_count context1)) @ [58]
         @ int_decimal (int (qx_returned_rows context1)) @ [58] @ u64_decimal total_rows @ [58]
         @ u64_decimal changes @ [58] @ (if truncated then [49] else [48]) @ [10]
         @ qx_names context1 @ qx_rows context1)"

section \<open>Records and changes\<close>

record record_context =
  rx_body :: "byte list"
  rx_failed :: bool
  rx_count :: nat

definition new_record_context :: record_context where
  "new_record_context = \<lparr>rx_body = [], rx_failed = False, rx_count = 0\<rparr>"

definition record_line :: "u64 \<Rightarrow> byte list \<Rightarrow> byte list \<Rightarrow> byte list" where
  "record_line revision key cell = u64_decimal revision @ [58] @ hex_encode key @ [58] @ cell @ [10]"

definition append_record_line ::
  "(nat \<Rightarrow> bool) \<Rightarrow> record_context \<Rightarrow> u64 \<Rightarrow> byte list \<Rightarrow> esdb_value \<Rightarrow> callback_result \<times> record_context" where
  "append_record_line grows context1 revision key v =
     (case (if grows (rx_count context1) then value_cell v else None) of
        None \<Rightarrow> (Cb_Stop, context1\<lparr>rx_failed := True\<rparr>)
      | Some cell \<Rightarrow>
          (Cb_Continue, context1\<lparr>rx_body := rx_body context1 @ record_line revision key cell,
             rx_count := Suc (rx_count context1)\<rparr>))"

definition append_record_wire :: "(nat \<Rightarrow> bool) \<Rightarrow> (record_context, object_record) callback" where
  "append_record_wire grows context1 r =
     append_record_line grows context1 (or_revision r) (bytes (or_key r)) (or_value r)"

definition append_memory_record_wire ::
  "(nat \<Rightarrow> bool) \<Rightarrow> (record_context, cpp_string \<times> memory_record) callback" where
  "append_memory_record_wire grows context1 r =
     append_record_line grows context1 (mr_revision (snd r)) (bytes (fst r)) (mr_value (snd r))"

definition record_reply :: "record_context \<Rightarrow> byte list" where
  "record_reply context1 = ascii ''V1:'' @ int_decimal (int (rx_count context1)) @ [10] @ rx_body context1"

text \<open>The line of a change names the store only where a window spans several.\<close>

record change_context =
  cx_body :: "byte list"
  cx_failed :: bool
  cx_seen :: nat

definition new_change_context :: change_context where
  "new_change_context = \<lparr>cx_body = [], cx_failed = False, cx_seen = 0\<rparr>"

definition append_change_line ::
  "(nat \<Rightarrow> bool) \<Rightarrow> change_context \<Rightarrow> byte list \<Rightarrow> callback_result \<times> change_context" where
  "append_change_line grows context1 line =
     (if \<not> grows (cx_seen context1) then (Cb_Stop, context1\<lparr>cx_failed := True\<rparr>)
      else (Cb_Continue, context1\<lparr>cx_body := cx_body context1 @ line,
              cx_seen := Suc (cx_seen context1)\<rparr>))"

definition change_head :: "u64 \<Rightarrow> int \<Rightarrow> u32 \<Rightarrow> byte list" where
  "change_head revision operation type =
     u64_decimal revision @ [58] @ int_decimal operation @ [58] @ u32_decimal type @ [58]"

definition append_change_wire :: "(nat \<Rightarrow> bool) \<Rightarrow> (change_context, object_change) callback" where
  "append_change_wire grows context1 c =
     append_change_line grows context1
       (change_head (oc_revision c) (oc_operation c) (oc_value_type c)
          @ hex_encode (bytes (oc_store c)) @ [58] @ hex_encode (bytes (oc_key c)) @ [10])"

fun memory_operation_code :: "store_change_operation \<Rightarrow> int" where
  "memory_operation_code ESDB_STORE_CHANGE_PUT = 1"
| "memory_operation_code ESDB_STORE_CHANGE_DELETE = 2"
| "memory_operation_code ESDB_STORE_CHANGE_CLEAR = 3"

text \<open>The change of a clear has no key: its field is empty.\<close>

definition append_memory_change_wire :: "(nat \<Rightarrow> bool) \<Rightarrow> (change_context, memory_change) callback" where
  "append_memory_change_wire grows context1 c =
     append_change_line grows context1
       (change_head (mc_revision c) (memory_operation_code (mc_operation c)) (mc_value_type c)
          @ hex_encode (bytes (mc_key c)) @ [10])"

definition change_reply :: "u64 \<Rightarrow> u32 \<Rightarrow> change_context \<Rightarrow> byte list" where
  "change_reply last_revision count1 context1 =
     ascii ''V1:'' @ u64_decimal last_revision @ [58] @ u32_decimal count1 @ [10] @ cx_body context1"

definition flagged_revision :: "bool \<Rightarrow> u64 \<Rightarrow> byte list" where
  "flagged_revision flag revision =
     ascii ''V1:'' @ (if flag then ascii ''1:'' else ascii ''0:'') @ u64_decimal revision"

section \<open>The adapter's error record\<close>

datatype adapter_code =
    ADAPTER_OK
  | ADAPTER_BAD_ARGUMENT
  | ADAPTER_NO_STAGED_PATH
  | ADAPTER_OPEN_FAILED
  | ADAPTER_HANDLE_EXHAUSTED
  | ADAPTER_INVALID_HANDLE
  | ADAPTER_DATABASE_ERROR
  | ADAPTER_OUT_OF_MEMORY
  | ADAPTER_INTERNAL

fun adapter_code_number :: "adapter_code \<Rightarrow> int" where
  "adapter_code_number ADAPTER_OK = 0"
| "adapter_code_number ADAPTER_BAD_ARGUMENT = 1"
| "adapter_code_number ADAPTER_NO_STAGED_PATH = 2"
| "adapter_code_number ADAPTER_OPEN_FAILED = 3"
| "adapter_code_number ADAPTER_HANDLE_EXHAUSTED = 4"
| "adapter_code_number ADAPTER_INVALID_HANDLE = 5"
| "adapter_code_number ADAPTER_DATABASE_ERROR = 6"
| "adapter_code_number ADAPTER_OUT_OF_MEMORY = 7"
| "adapter_code_number ADAPTER_INTERNAL = 8"

record adapter_error =
  ae_code :: adapter_code
  ae_database_error :: esdb_error
  ae_message :: string

definition no_adapter_error :: adapter_error where
  "no_adapter_error = \<lparr>ae_code = ADAPTER_OK, ae_database_error = clear_error, ae_message = []\<rparr>"

text \<open>\<open>set_last_error_unlocked\<close> with \<open>copy_text\<close>: at most 255 bytes of the message.\<close>

definition make_adapter_error :: "adapter_code \<Rightarrow> string \<Rightarrow> esdb_error option \<Rightarrow> adapter_error" where
  "make_adapter_error code message database_error =
     \<lparr>ae_code = code,
      ae_database_error = (case database_error of None \<Rightarrow> clear_error | Some e \<Rightarrow> e),
      ae_message = copy_message (Some message)\<rparr>"

section \<open>JSON\<close>

definition lower_hex :: "int \<Rightarrow> byte" where
  "lower_hex k = of_int (if k < 10 then 48 + k else 87 + k)"

definition json_escape_byte :: "byte \<Rightarrow> byte list" where
  "json_escape_byte c =
     (if c = 34 then [92, 34]
      else if c = 92 then [92, 92]
      else if c = 8 then [92, 98]
      else if c = 12 then [92, 102]
      else if c = 10 then [92, 110]
      else if c = 13 then [92, 114]
      else if c = 9 then [92, 116]
      else if c < 32 then [92, 117, 48, 48, lower_hex (uint c div 16), lower_hex (uint c mod 16)]
      else [c])"

definition json_escape :: "byte list \<Rightarrow> byte list" where
  "json_escape input = concat (map json_escape_byte input)"

definition json_text :: "string \<Rightarrow> byte list" where
  "json_text s = [34] @ json_escape (ascii s) @ [34]"

definition json_field :: "string \<Rightarrow> byte list \<Rightarrow> byte list" where
  "json_field name1 v = [44, 34] @ ascii name1 @ [34, 58] @ v"

definition quoted :: "byte list \<Rightarrow> byte list" where "quoted v = [34] @ v @ [34]"

definition json_bool :: "bool \<Rightarrow> byte list" where
  "json_bool b = (if b then ascii ''true'' else ascii ''false'')"

definition error_json :: "platform \<Rightarrow> adapter_error \<Rightarrow> byte list" where
  "error_json P e =
     (let d = ae_database_error e; n = stream_decimal P in
      [123, 34] @ ascii ''ok'' @ [34, 58] @ json_bool (ae_code e = ADAPTER_OK)
      @ json_field ''adapterCode'' (n (adapter_code_number (ae_code e)))
      @ json_field ''message'' (json_text (ae_message e))
      @ json_field ''status'' (n (uint (status_code (err_status d))))
      @ json_field ''statusName'' (json_text (esdb_status_name (status_code (err_status d))))
      @ json_field ''phase'' (n (uint (phase_code (err_phase d))))
      @ json_field ''phaseName'' (json_text (esdb_phase_name (phase_code (err_phase d))))
      @ json_field ''sqliteCode'' (n (err_sqlite_code d))
      @ json_field ''sqliteExtendedCode'' (n (err_sqlite_extended_code d))
      @ json_field ''databaseMessage'' (json_text (err_message d)) @ [125])"

definition journal_name :: "u32 \<Rightarrow> string" where
  "journal_name mode =
     (if mode = ESDB_JOURNAL_DELETE then ''delete''
      else if mode = ESDB_JOURNAL_TRUNCATE then ''truncate''
      else if mode = ESDB_JOURNAL_PERSIST then ''persist''
      else if mode = ESDB_JOURNAL_MEMORY then ''memory''
      else if mode = ESDB_JOURNAL_WAL then ''wal''
      else if mode = ESDB_JOURNAL_OFF then ''off''
      else ''unchanged'')"

definition synchronous_name :: "u32 \<Rightarrow> string" where
  "synchronous_name mode =
     (if mode = ESDB_SYNCHRONOUS_OFF then ''off''
      else if mode = ESDB_SYNCHRONOUS_NORMAL then ''normal''
      else if mode = ESDB_SYNCHRONOUS_FULL then ''full''
      else if mode = ESDB_SYNCHRONOUS_EXTRA then ''extra''
      else ''unchanged'')"

definition health_json :: "platform \<Rightarrow> database_health \<Rightarrow> byte list" where
  "health_json P h =
     (let n = stream_decimal P; w = (\<lambda>v :: u64. quoted (n (uint v))); m = dh_metrics h;
          e = dm_last_error m in
      [123, 34] @ ascii ''ok'' @ [34, 58] @ json_bool True
      @ json_field ''pageSize'' (n (uint (dh_page_size h)))
      @ json_field ''pageCount'' (w (dh_page_count h))
      @ json_field ''freelistCount'' (w (dh_freelist_count h))
      @ json_field ''databaseBytes'' (w (dh_database_bytes h))
      @ json_field ''configuredCacheKiB'' (quoted (n (dh_configured_cache_kib h)))
      @ json_field ''journalMode'' (json_text (journal_name (dh_journal_mode h)))
      @ json_field ''synchronous'' (json_text (synchronous_name (dh_synchronous h)))
      @ json_field ''busyTimeoutMs'' (n (uint (dh_busy_timeout_ms h)))
      @ json_field ''userVersion'' (n (uint (dh_user_version h)))
      @ json_field ''inTransaction'' (json_bool (dh_in_transaction h \<noteq> 0))
      @ json_field ''savepointDepth'' (n (uint (dh_savepoint_depth h)))
      @ json_field ''operationCount'' (w (dm_operation_count m))
      @ json_field ''errorCount'' (w (dm_error_count m))
      @ json_field ''busyCount'' (w (dm_busy_count m))
      @ json_field ''commitCount'' (w (dm_commit_count m))
      @ json_field ''rollbackCount'' (w (dm_rollback_count m))
      @ json_field ''lastErrorStatus'' (n (uint (status_code (err_status e))))
      @ json_field ''lastErrorPhase'' (n (uint (phase_code (err_phase e))))
      @ json_field ''lastErrorSqliteCode'' (n (err_sqlite_code e))
      @ json_field ''lastErrorSqliteExtendedCode'' (n (err_sqlite_extended_code e)) @ [125])"

end
