(* ===== verification/Adapter_Slots.thy ===== *)
theory Adapter_Slots
  imports Adapter_Replies
begin

text \<open>
  The state of the ExternalObject adapter (src/adapters/externalobject/esdb_externalobject.cpp)
  and its lifecycle methods: the table of 255 database slots with their generation-tagged
  handles, the staged path and the last error each thread has, opening, closing, termination,
  health, and the one explicit transaction of a slot. A method takes the calling thread, the
  host's arguments and what memory the call gets, and answers the host's result. Methods run
  one at a time on a slot; the locks that make them do so are in \<open>Adapter_Locks\<close>.
\<close>

section \<open>The host\<close>

text \<open>
  The host's argument accessors (\<open>esabi_arg_get_i32\<close>, \<open>_double\<close>, \<open>_string\<close>) answer the value or
  that the argument is not of that kind.
\<close>

record 'h host =
  h_i32 :: "'h list \<Rightarrow> nat \<Rightarrow> int option"
  h_double :: "'h list \<Rightarrow> nat \<Rightarrow> u64 option"
  h_string :: "'h list \<Rightarrow> nat \<Rightarrow> byte list option"

text \<open>What a method sets the returned value to. The numbers returned are all integers.\<close>

datatype result =
    R_Undefined
  | R_Bool bool
  | R_I32 int
  | R_Double int
  | R_String "byte list"

definition get_i32_arg :: "'h host \<Rightarrow> 'h list \<Rightarrow> nat \<Rightarrow> int option" where
  "get_i32_arg H argv i = h_i32 H argv i"

definition get_double_arg :: "'h host \<Rightarrow> 'h list \<Rightarrow> nat \<Rightarrow> u64 option" where
  "get_double_arg H argv i = h_double H argv i"

definition get_string_arg :: "'h host \<Rightarrow> 'h list \<Rightarrow> nat \<Rightarrow> byte list option" where
  "get_string_arg H argv i = map_option c_bytes (h_string H argv i)"

definition get_dummy :: "'h host \<Rightarrow> 'h list \<Rightarrow> bool" where
  "get_dummy H argv \<longleftrightarrow> length argv = 1 \<and> h_double H argv 0 \<noteq> None"

definition positive :: "int option \<Rightarrow> int option" where
  "positive v = (case v of None \<Rightarrow> None | Some n \<Rightarrow> if 0 < n then Some n else None)"

definition get_handle :: "'h host \<Rightarrow> 'h list \<Rightarrow> int option" where
  "get_handle H argv = (if length argv \<noteq> 1 then None else positive (h_i32 H argv 0))"

section \<open>State\<close>

text \<open>The transaction object of a slot is its number in the session.\<close>

record 'd slot =
  sl_database :: "'d session option"
  sl_transaction :: "nat option"
  sl_generation :: u32
  sl_retired :: bool

record thread_state =
  th_staged_path :: "byte list"
  th_last_error :: adapter_error

record ('d, 'z) adapter =
  ad_slots :: "'d slot list"
  ad_threads :: "nat \<Rightarrow> thread_state"
  ad_stores :: registry_world
  ad_zip :: "'z zip_state"

abbreviation "k_slot_count \<equiv> (255 :: nat)"
abbreviation "k_slot_bits \<equiv> (8 :: nat)"
abbreviation "k_generation_max \<equiv> (8388607 :: u32)"

definition new_slot :: "'d slot" where
  "new_slot = \<lparr>sl_database = None, sl_transaction = None, sl_generation = 1, sl_retired = False\<rparr>"

definition new_adapter :: "registry_world \<Rightarrow> 'z zip_state \<Rightarrow> ('d, 'z) adapter" where
  "new_adapter stores zip1 =
     \<lparr>ad_slots = replicate k_slot_count new_slot,
      ad_threads = (\<lambda>_. \<lparr>th_staged_path = [], th_last_error = no_adapter_error\<rparr>),
      ad_stores = stores, ad_zip = zip1\<rparr>"

definition update_thread :: "nat \<Rightarrow> (thread_state \<Rightarrow> thread_state) \<Rightarrow> ('d, 'z) adapter \<Rightarrow> ('d, 'z) adapter" where
  "update_thread t f A = A\<lparr>ad_threads := (ad_threads A)(t := f (ad_threads A t))\<rparr>"

definition set_last_error ::
  "nat \<Rightarrow> adapter_code \<Rightarrow> string \<Rightarrow> esdb_error option \<Rightarrow> ('d, 'z) adapter \<Rightarrow> ('d, 'z) adapter" where
  "set_last_error t code message database_error =
     update_thread t (\<lambda>th. th\<lparr>th_last_error := make_adapter_error code message database_error\<rparr>)"

definition clear_last_error :: "nat \<Rightarrow> ('d, 'z) adapter \<Rightarrow> ('d, 'z) adapter" where
  "clear_last_error t = update_thread t (\<lambda>th. th\<lparr>th_last_error := no_adapter_error\<rparr>)"

definition update_slot :: "nat \<Rightarrow> ('d slot \<Rightarrow> 'd slot) \<Rightarrow> ('d, 'z) adapter \<Rightarrow> ('d, 'z) adapter" where
  "update_slot i f A = A\<lparr>ad_slots := (ad_slots A)[i := f (ad_slots A ! i)]\<rparr>"

section \<open>Handles\<close>

text \<open>The token of a slot is \<open>generation << 8 | (index + 1)\<close>, read as a signed 32-bit number.\<close>

definition encode_handle :: "nat \<Rightarrow> u32 \<Rightarrow> int" where
  "encode_handle slot_index generation =
     sint (push_bit k_slot_bits generation OR (of_nat slot_index + 1) :: u32)"

definition decode_handle :: "int \<Rightarrow> (nat \<times> u32) option" where
  "decode_handle token =
     (if token \<le> 0 then None
      else
       let raw = (of_int token :: u32);
           encoded_slot = raw AND 0xff;
           generation = drop_bit k_slot_bits raw
       in if encoded_slot = 0 \<or> of_nat k_slot_count < encoded_slot then None
          else if generation = 0 \<or> k_generation_max < generation then None
          else Some (unat (encoded_slot - 1), generation))"

definition lookup_slot :: "int \<Rightarrow> ('d, 'z) adapter \<Rightarrow> nat option" where
  "lookup_slot token A =
     (case decode_handle token of
        None \<Rightarrow> None
      | Some (slot_index, generation) \<Rightarrow>
          let slot = ad_slots A ! slot_index in
          if sl_retired slot \<or> sl_database slot = None \<or> sl_generation slot \<noteq> generation then None
          else Some slot_index)"

definition advance_generation :: "'d slot \<Rightarrow> 'd slot" where
  "advance_generation slot =
     (if k_generation_max \<le> sl_generation slot then slot\<lparr>sl_retired := True\<rparr>
      else slot\<lparr>sl_generation := sl_generation slot + 1\<rparr>)"

section \<open>Calls\<close>

text \<open>
  What one call meets. The adapter's own allocations throw at place 0, while the arguments are
  decoded, or at place 1, while the reply is built; \<open>ce_copy\<close> is the \<open>malloc\<close> of a returned
  string, \<open>ce_grows\<close> the growth of a reply by one line. The rest is what the library below gets:
  its allocations, the address of a new transaction object, the clock.
\<close>

record call_env =
  ce_throws :: throws
  ce_copy :: bool
  ce_value :: "nat \<Rightarrow> value_alloc"
  ce_grows :: "nat \<Rightarrow> bool"
  ce_open :: throws
  ce_library :: throws
  ce_query :: query_memory
  ce_query_exn :: "exn option"
  ce_object :: "nat option"
  ce_config :: "exn option \<times> bool \<times> bool"
  ce_clock :: "nat \<Rightarrow> int"

text \<open>A call that ends early answers; otherwise the next step runs.\<close>

type_synonym ('d, 'z, 'a) method_step = "('d, 'z) adapter \<Rightarrow> (result + 'a) \<times> ('d, 'z) adapter"

definition proceed :: "'a \<Rightarrow> ('d, 'z, 'a) method_step" where
  "proceed x A = (Inr x, A)"

definition and_then ::
  "('d, 'z, 'a) method_step \<Rightarrow> ('a \<Rightarrow> ('d, 'z, 'b) method_step) \<Rightarrow> ('d, 'z, 'b) method_step" where
  "and_then m f A = (case m A of (Inl r, A') \<Rightarrow> (Inl r, A') | (Inr x, A') \<Rightarrow> f x A')"

definition reply :: "('d, 'z, result) method_step \<Rightarrow> ('d, 'z) adapter \<Rightarrow> result \<times> ('d, 'z) adapter" where
  "reply m A = (case m A of (Inl r, A') \<Rightarrow> (r, A') | (Inr r, A') \<Rightarrow> (r, A'))"

text \<open>\<open>set_last_error(...); set the failure value; return ESABI_OK;\<close>\<close>

definition give_up ::
  "nat \<Rightarrow> result \<Rightarrow> adapter_code \<Rightarrow> string \<Rightarrow> esdb_error option \<Rightarrow> ('d, 'z, 'a) method_step" where
  "give_up t failure code message database_error A =
     (Inl failure, set_last_error t code message database_error A)"

definition require :: "nat \<Rightarrow> result \<Rightarrow> adapter_code \<Rightarrow> string \<Rightarrow> 'a option \<Rightarrow> ('d, 'z, 'a) method_step" where
  "require t failure code message v =
     (case v of None \<Rightarrow> give_up t failure code message None | Some x \<Rightarrow> proceed x)"

text \<open>
  The handlers around a method: a thrown \<open>std::bad_alloc\<close> is reported as \<open>oom\<close> where the method
  has such a handler, everything else as an internal error.
\<close>

definition may_throw ::
  "nat \<Rightarrow> result \<Rightarrow> string option \<Rightarrow> string \<Rightarrow> exn option \<Rightarrow> ('d, 'z, unit) method_step" where
  "may_throw t failure oom other thrown =
     (case thrown of
        None \<Rightarrow> proceed ()
      | Some e \<Rightarrow>
          if e = Bad_Alloc \<and> oom \<noteq> None
          then give_up t failure ADAPTER_OUT_OF_MEMORY (the oom) None
          else give_up t failure ADAPTER_INTERNAL other None)"

text \<open>\<open>set_return_string\<close>.\<close>

definition return_string :: "nat \<Rightarrow> call_env \<Rightarrow> byte list \<Rightarrow> ('d, 'z, result) method_step" where
  "return_string t M s A =
     (if ce_copy M then (Inr (R_String s), A)
      else (Inl R_Undefined,
            set_last_error t ADAPTER_OUT_OF_MEMORY ''failed to allocate returned string'' None A))"

text \<open>
  Arguments in two steps: what the host hands over, then what needs memory to decode. Both are
  refused with the same message.
\<close>

definition arguments ::
  "nat \<Rightarrow> result \<Rightarrow> string option \<Rightarrow> string \<Rightarrow> call_env \<Rightarrow> string \<Rightarrow> 'r option \<Rightarrow> ('r \<Rightarrow> 'a option)
   \<Rightarrow> ('d, 'z, 'a) method_step" where
  "arguments t failure oom other M usage raw decode =
     and_then (require t failure ADAPTER_BAD_ARGUMENT usage raw) (\<lambda>given.
     and_then (may_throw t failure oom other (ce_throws M 0)) (\<lambda>_.
     require t failure ADAPTER_BAD_ARGUMENT usage (decode given)))"

definition succeed :: "nat \<Rightarrow> result \<Rightarrow> ('d, 'z, result) method_step" where
  "succeed t r A = (Inr r, clear_last_error t A)"

definition STALE :: string where "STALE = ''database handle is stale or invalid''"

text \<open>\<open>lock_slot\<close>: the slot a token names.\<close>

definition find_slot :: "nat \<Rightarrow> result \<Rightarrow> int \<Rightarrow> ('d, 'z, nat) method_step" where
  "find_slot t failure token A =
     require t failure ADAPTER_INVALID_HANDLE STALE (lookup_slot token A) A"

text \<open>A library call on the slot's database; its failure is the method's.\<close>

definition in_slot ::
  "nat \<Rightarrow> ('d session option \<Rightarrow> 'r \<times> 'd session option) \<Rightarrow> ('d, 'z, 'r) method_step" where
  "in_slot i f A =
     (case f (sl_database (ad_slots A ! i)) of
        (r, database) \<Rightarrow> (Inr r, update_slot i (\<lambda>slot. slot\<lparr>sl_database := database\<rparr>) A))"

definition expect :: "nat \<Rightarrow> result \<Rightarrow> string \<Rightarrow> 'a outcome \<Rightarrow> ('d, 'z, 'a) method_step" where
  "expect t failure message r =
     (case r of
        Done x \<Rightarrow> proceed x
      | Failed status e \<Rightarrow> give_up t failure ADAPTER_DATABASE_ERROR message (Some e))"

definition clear_error_step :: "nat \<Rightarrow> ('d, 'z, unit) method_step" where
  "clear_error_step t A = (Inr (), clear_last_error t A)"

section \<open>Identity\<close>

definition ping :: "nat \<Rightarrow> 'h host \<Rightarrow> 'h list \<Rightarrow> ('d, 'z) adapter \<Rightarrow> result \<times> ('d, 'z) adapter" where
  "ping t H argv =
     reply (and_then (require t (R_I32 0) ADAPTER_BAD_ARGUMENT ''ping expects one dummy double argument''
             (if get_dummy H argv then Some () else None)) (\<lambda>_.
       succeed t (R_I32 42)))"

abbreviation "ESDB_ABI_VERSION \<equiv> (3 :: int)"

definition abiVersion :: "nat \<Rightarrow> 'h host \<Rightarrow> 'h list \<Rightarrow> ('d, 'z) adapter \<Rightarrow> result \<times> ('d, 'z) adapter" where
  "abiVersion t H argv =
     reply (and_then (require t (R_I32 0) ADAPTER_BAD_ARGUMENT ''abiVersion expects one dummy double argument''
             (if get_dummy H argv then Some () else None)) (\<lambda>_.
       succeed t (R_I32 ESDB_ABI_VERSION)))"

text \<open>Both version methods answer a text of the library.\<close>

definition version_method ::
  "string \<Rightarrow> byte list \<Rightarrow> nat \<Rightarrow> call_env \<Rightarrow> 'h host \<Rightarrow> 'h list \<Rightarrow> ('d, 'z) adapter
   \<Rightarrow> result \<times> ('d, 'z) adapter" where
  "version_method name1 answer1 t M H argv =
     reply
       (and_then (require t R_Undefined ADAPTER_BAD_ARGUMENT (name1 @ '' expects one dummy double argument'')
             (if get_dummy H argv then Some () else None)) (\<lambda>_.
        and_then (clear_error_step t) (\<lambda>_.
        and_then (may_throw t R_Undefined None (''unexpected exception in '' @ name1) (ce_throws M 1)) (\<lambda>_.
        return_string t M answer1))))"

definition version where "version = version_method ''version''"
definition sqliteVersion where "sqliteVersion = version_method ''sqliteVersion''"

section \<open>Opening and closing\<close>

definition set_staged_path :: "nat \<Rightarrow> byte list \<Rightarrow> ('d, 'z) adapter \<Rightarrow> ('d, 'z) adapter" where
  "set_staged_path t path = update_thread t (\<lambda>th. th\<lparr>th_staged_path := path\<rparr>)"

definition stage_path :: "nat \<Rightarrow> byte list \<Rightarrow> ('d, 'z, result) method_step" where
  "stage_path t path A = succeed t (R_Bool True) (set_staged_path t path A)"

definition stage ::
  "nat \<Rightarrow> call_env \<Rightarrow> 'h host \<Rightarrow> 'h list \<Rightarrow> ('d, 'z) adapter \<Rightarrow> result \<times> ('d, 'z) adapter" where
  "stage t M H argv =
     reply
       (and_then (require t (R_Bool False) ADAPTER_BAD_ARGUMENT ''stage expects one non-empty string path''
          (if length argv = 1 \<and> get_string_arg H argv 0 \<noteq> Some [] then get_string_arg H argv 0 else None)) (\<lambda>path.
        and_then (may_throw t (R_Bool False) (Some ''failed to stage database path'')
          ''unexpected exception in stage'' (ce_throws M 0)) (\<lambda>_.
        stage_path t path)))"

definition stageHex ::
  "nat \<Rightarrow> call_env \<Rightarrow> 'h host \<Rightarrow> 'h list \<Rightarrow> ('d, 'z) adapter \<Rightarrow> result \<times> ('d, 'z) adapter" where
  "stageHex t M H argv =
     reply
       (and_then (arguments t (R_Bool False) (Some ''failed to decode staged database path'')
          ''unexpected exception in stageHex'' M
          ''stageHex expects non-empty ASCII hex encoding of a NUL-free UTF-8 path''
          (if length argv = 1 then get_string_arg H argv 0 else None)
          (\<lambda>encoded. decode_hex_cstring (Some encoded) False)) (\<lambda>path.
        stage_path t path))"

text \<open>The engine, its opening interface and the libraries below it.\<close>

record ('d, 'z) engine =
  en_sqlite :: "'d sqlite"
  en_open :: "'d open_api"
  en_build :: build
  en_zip :: "'z zip_libraries"
  en_query :: "'d query_api"
  en_platform :: platform

definition free_slot :: "'d slot \<Rightarrow> bool" where
  "free_slot slot \<longleftrightarrow> sl_database slot = None \<and> \<not> sl_retired slot"

text \<open>The first free slot, in the order of the table.\<close>

definition first_free :: "'d slot list \<Rightarrow> nat option" where
  "first_free slots = find (\<lambda>i. free_slot (slots ! i)) [0..<length slots]"

definition open_database ::
  "('d, 'z) engine \<Rightarrow> call_env \<Rightarrow> byte list \<Rightarrow> ('d, 'z, 'd session outcome) method_step" where
  "open_database E M path A =
     (case ce_config M of
        (thrown, config_ok, database_ok) \<Rightarrow>
         (case esdb_open (en_sqlite E) (en_open E) (en_build E) (en_zip E) thrown config_ok database_ok True
             (Some path) (Some (OPEN_OPTIONS_SIZE, esdb_open_options_init)) True (ad_zip A) of
            (r, zip1) \<Rightarrow> (Inr r, A\<lparr>ad_zip := zip1\<rparr>)))"

text \<open>A database that finds no slot is closed again; nothing else of it is left.\<close>

definition install_database :: "nat \<Rightarrow> 'd session \<Rightarrow> ('d, 'z, result) method_step" where
  "install_database t database A =
     (case first_free (ad_slots A) of
        Some i \<Rightarrow>
          succeed t (R_I32 (encode_handle i (sl_generation (ad_slots A ! i))))
            (update_slot i (\<lambda>slot. slot\<lparr>sl_database := Some database\<rparr>) A)
      | None \<Rightarrow>
          give_up t (R_I32 0) ADAPTER_HANDLE_EXHAUSTED
            ''all ExternalObject database handle slots are in use'' None A)"

definition openStaged ::
  "('d, 'z) engine \<Rightarrow> nat \<Rightarrow> call_env \<Rightarrow> 'h host \<Rightarrow> 'h list \<Rightarrow> ('d, 'z) adapter
   \<Rightarrow> result \<times> ('d, 'z) adapter" where
  "openStaged E t M H argv =
     reply
       (and_then (require t (R_I32 0) ADAPTER_BAD_ARGUMENT ''openStaged expects one dummy double argument''
          (if get_dummy H argv then Some () else None)) (\<lambda>_ A.
        let path = th_staged_path (ad_threads A t) in
        and_then (require t (R_I32 0) ADAPTER_NO_STAGED_PATH ''no database path has been staged''
          (if path = [] then None else Some ())) (\<lambda>_.
        and_then (may_throw t (R_I32 0) (Some ''failed to allocate while opening database'')
          ''unexpected exception in openStaged'' (ce_throws M 0)) (\<lambda>_.
        and_then (open_database E M path) (\<lambda>opened.
        case opened of
          Failed status e \<Rightarrow>
            give_up t (R_I32 0) ADAPTER_OPEN_FAILED ''ESDB failed to open the staged database'' (Some e)
        | Done database \<Rightarrow> install_database t database))) A))"

text \<open>\<open>esdb_transaction_destroy(slot.transaction); slot.transaction = nullptr;\<close>\<close>

definition drop_transaction :: "'d sqlite \<Rightarrow> 'd slot \<Rightarrow> 'd slot" where
  "drop_transaction E slot =
     (case (sl_database slot, sl_transaction slot) of
        (Some s, Some i) \<Rightarrow>
          slot\<lparr>sl_database := esdb_transaction_destroy E (Some (s, i)), sl_transaction := None\<rparr>
      | _ \<Rightarrow> slot)"

definition close_slot :: "'d sqlite \<Rightarrow> 'd slot \<Rightarrow> 'd slot" where
  "close_slot E slot = advance_generation ((drop_transaction E slot)\<lparr>sl_database := None\<rparr>)"

definition close1 ::
  "('d, 'z) engine \<Rightarrow> nat \<Rightarrow> 'h host \<Rightarrow> 'h list \<Rightarrow> ('d, 'z) adapter \<Rightarrow> result \<times> ('d, 'z) adapter" where
  "close1 E t H argv =
     reply
       (and_then (require t (R_Bool False) ADAPTER_BAD_ARGUMENT ''close expects one positive integer handle''
          (get_handle H argv)) (\<lambda>handle.
        and_then (find_slot t (R_Bool False) handle) (\<lambda>i A.
        succeed t (R_Bool True) (update_slot i (close_slot (en_sqlite E)) A))))"

text \<open>The hook the host calls before it unloads the library.\<close>

definition terminate_slot :: "'d sqlite \<Rightarrow> 'd slot \<Rightarrow> 'd slot" where
  "terminate_slot E slot =
     (let slot = drop_transaction E slot in
      if sl_database slot = None then slot else advance_generation (slot\<lparr>sl_database := None\<rparr>))"

definition esabi_terminate :: "('d, 'z) engine \<Rightarrow> nat \<Rightarrow> ('d, 'z) adapter \<Rightarrow> ('d, 'z) adapter" where
  "esabi_terminate E t A =
     clear_last_error t (set_staged_path t []
       (A\<lparr>ad_slots := map (terminate_slot (en_sqlite E)) (ad_slots A)\<rparr>))"

definition handleCount ::
  "nat \<Rightarrow> 'h host \<Rightarrow> 'h list \<Rightarrow> ('d, 'z) adapter \<Rightarrow> result \<times> ('d, 'z) adapter" where
  "handleCount t H argv =
     reply
       (and_then (require t (R_I32 0) ADAPTER_BAD_ARGUMENT ''handleCount expects one dummy double argument''
          (if get_dummy H argv then Some () else None)) (\<lambda>_ A.
        succeed t (R_I32 (int (length (filter (\<lambda>slot. sl_database slot \<noteq> None) (ad_slots A))))) A))"

section \<open>Observability\<close>

definition health ::
  "('d, 'z) engine \<Rightarrow> nat \<Rightarrow> call_env \<Rightarrow> 'h host \<Rightarrow> 'h list \<Rightarrow> ('d, 'z) adapter
   \<Rightarrow> result \<times> ('d, 'z) adapter" where
  "health E t M H argv =
     reply
       (and_then (require t R_Undefined ADAPTER_BAD_ARGUMENT ''health expects one positive integer handle''
          (get_handle H argv)) (\<lambda>handle.
        and_then (find_slot t R_Undefined handle) (\<lambda>i.
        and_then (in_slot i (esdb_database_health_get (en_sqlite E) (Some HEALTH_SIZE))) (\<lambda>r.
        and_then (expect t R_Undefined ''ESDB failed to read database health'' r) (\<lambda>snapshot.
        and_then (clear_error_step t) (\<lambda>_.
        and_then (may_throw t R_Undefined (Some ''failed to serialize health result'')
          ''unexpected exception in health'' (ce_throws M 1)) (\<lambda>_.
        return_string t M (health_json (en_platform E) snapshot))))))))"

text \<open>Reading the last error does not clear it.\<close>

definition lastError ::
  "platform \<Rightarrow> nat \<Rightarrow> call_env \<Rightarrow> 'h host \<Rightarrow> 'h list \<Rightarrow> ('d, 'z) adapter \<Rightarrow> result \<times> ('d, 'z) adapter" where
  "lastError P t M H argv =
     reply
       (and_then (require t R_Undefined ADAPTER_BAD_ARGUMENT ''lastError expects one dummy double argument''
          (if get_dummy H argv then Some () else None)) (\<lambda>_.
        and_then (may_throw t R_Undefined (Some ''failed to serialize last error'')
          ''unexpected exception in lastError'' (ce_throws M 1)) (\<lambda>_ A.
        return_string t M (error_json P (th_last_error (ad_threads A t))) A)))"

definition dataVersion ::
  "('d, 'z) engine \<Rightarrow> nat \<Rightarrow> 'h host \<Rightarrow> 'h list \<Rightarrow> ('d, 'z) adapter \<Rightarrow> result \<times> ('d, 'z) adapter" where
  "dataVersion E t H argv =
     reply
       (and_then (require t (R_Double (- 1)) ADAPTER_BAD_ARGUMENT ''dataVersion expects one positive integer handle''
          (get_handle H argv)) (\<lambda>handle.
        and_then (find_slot t (R_Double (- 1)) handle) (\<lambda>i.
        and_then (in_slot i (esdb_data_version_get (en_sqlite E) True)) (\<lambda>r.
        and_then (expect t (R_Double (- 1)) ''ESDB failed to read data_version'' r) (\<lambda>v.
        succeed t (R_Double (uint v)))))))"

section \<open>Transactions\<close>

definition set_transaction :: "nat \<Rightarrow> nat option \<Rightarrow> ('d, 'z) adapter \<Rightarrow> ('d, 'z) adapter" where
  "set_transaction i transaction = update_slot i (\<lambda>slot. slot\<lparr>sl_transaction := transaction\<rparr>)"

definition transactionBegin ::
  "('d, 'z) engine \<Rightarrow> nat \<Rightarrow> call_env \<Rightarrow> 'h host \<Rightarrow> 'h list \<Rightarrow> ('d, 'z) adapter
   \<Rightarrow> result \<times> ('d, 'z) adapter" where
  "transactionBegin E t M H argv =
     reply
       (and_then (require t (R_Bool False) ADAPTER_BAD_ARGUMENT ''transactionBegin expects handle and transaction mode''
          (if length argv \<noteq> 2 then None
           else case (positive (get_i32_arg H argv 0), get_i32_arg H argv 1) of
             (Some handle, Some mode) \<Rightarrow> if mode < 0 \<or> 2 < mode then None else Some (handle, mode)
           | _ \<Rightarrow> None)) (\<lambda>(handle, mode).
        and_then (find_slot t (R_Bool False) handle) (\<lambda>i A.
        if sl_transaction (ad_slots A ! i) \<noteq> None
        then give_up t (R_Bool False) ADAPTER_DATABASE_ERROR
               ''a transaction is already active for this handle'' None A
        else
         and_then (in_slot i (esdb_begin (en_sqlite E) (ce_object M) (of_int mode) True)) (\<lambda>r.
         and_then (expect t (R_Bool False) ''ESDB failed to begin transaction'' r) (\<lambda>object A.
         succeed t (R_Bool True) (set_transaction i (Some object) A))) A)))"

text \<open>
  Commit and rollback: the handle's transaction object is destroyed only when the call
  succeeded; after a failure the slot keeps it.
\<close>

definition finish_slot_transaction ::
  "('d, 'z) engine \<Rightarrow> bool \<Rightarrow> string \<Rightarrow> string \<Rightarrow> nat \<Rightarrow> 'h host \<Rightarrow> 'h list \<Rightarrow> ('d, 'z) adapter
   \<Rightarrow> result \<times> ('d, 'z) adapter" where
  "finish_slot_transaction E is_commit usage failure t H argv =
     reply
       (and_then (require t (R_Bool False) ADAPTER_BAD_ARGUMENT usage (get_handle H argv)) (\<lambda>handle.
        and_then (find_slot t (R_Bool False) handle) (\<lambda>i A.
        case sl_transaction (ad_slots A ! i) of
          None \<Rightarrow> give_up t (R_Bool False) ADAPTER_DATABASE_ERROR
                    ''no transaction is active for this handle'' None A
        | Some object \<Rightarrow>
            and_then (in_slot i (\<lambda>database.
                (if is_commit then esdb_commit else esdb_rollback) (en_sqlite E)
                  (map_option (\<lambda>s. (s, object)) database))) (\<lambda>r.
            and_then (expect t (R_Bool False) failure r) (\<lambda>_ A.
            succeed t (R_Bool True) (update_slot i (drop_transaction (en_sqlite E)) A))) A)))"

definition transactionCommit where
  "transactionCommit E =
     finish_slot_transaction E True ''transactionCommit expects one positive integer handle''
       ''ESDB failed to commit transaction''"

definition transactionRollback where
  "transactionRollback E =
     finish_slot_transaction E False ''transactionRollback expects one positive integer handle''
       ''ESDB failed to roll back transaction''"

definition slot_transaction_active :: "'d slot \<Rightarrow> bool" where
  "slot_transaction_active slot =
     (case (sl_database slot, sl_transaction slot) of
        (Some s, Some i) \<Rightarrow> esdb_transaction_active (Some (s, i)) \<noteq> 0
      | _ \<Rightarrow> False)"

definition transactionActive ::
  "nat \<Rightarrow> 'h host \<Rightarrow> 'h list \<Rightarrow> ('d, 'z) adapter \<Rightarrow> result \<times> ('d, 'z) adapter" where
  "transactionActive t H argv =
     reply
       (and_then (require t (R_Bool False) ADAPTER_BAD_ARGUMENT
          ''transactionActive expects one positive integer handle'' (get_handle H argv)) (\<lambda>handle.
        and_then (find_slot t (R_Bool False) handle) (\<lambda>i A.
        succeed t (R_Bool (slot_transaction_active (ad_slots A ! i))) A)))"

end
