(* ===== verification/Adapter_Objects.thy ===== *)
theory Adapter_Objects
  imports Adapter_Slots
begin

text \<open>
  The methods of the ExternalObject adapter
  (src/adapters/externalobject/esdb_externalobject.cpp) that work on the database of a handle:
  the typed SQL query and the durable object store.
\<close>

section \<open>Shared steps\<close>

definition handle_arg :: "'h host \<Rightarrow> 'h list \<Rightarrow> nat \<Rightarrow> int option" where
  "handle_arg H argv n = (if length argv \<noteq> n then None else positive (get_i32_arg H argv 0))"

definition both :: "'a option \<Rightarrow> 'b option \<Rightarrow> ('a \<times> 'b) option" where
  "both x y = (case (x, y) of (Some a, Some b) \<Rightarrow> Some (a, b) | _ \<Rightarrow> None)"

definition unless :: "bool \<Rightarrow> 'a option \<Rightarrow> 'a option" where
  "unless refused v = (if refused then None else v)"

definition decode_store_key :: "byte list \<times> byte list \<Rightarrow> (byte list \<times> byte list) option" where
  "decode_store_key texts =
     both (decode_hex_cstring (Some (fst texts)) False) (decode_hex_cstring (Some (snd texts)) False)"

text \<open>Handle, store and key, as the first three of \<open>n\<close> arguments.\<close>

definition store_key_args :: "'h host \<Rightarrow> 'h list \<Rightarrow> nat \<Rightarrow> (int \<times> byte list \<times> byte list) option" where
  "store_key_args H argv n =
     both (handle_arg H argv n) (both (get_string_arg H argv 1) (get_string_arg H argv 2))"

definition decode_args ::
  "int \<times> byte list \<times> byte list \<Rightarrow> (int \<times> byte list \<times> byte list) option" where
  "decode_args given = both (Some (fst given)) (decode_store_key (snd given))"

definition store_args :: "'h host \<Rightarrow> 'h list \<Rightarrow> nat \<Rightarrow> (int \<times> byte list) option" where
  "store_args H argv n = both (handle_arg H argv n) (get_string_arg H argv 1)"

definition decode_store_args :: "int \<times> byte list \<Rightarrow> (int \<times> byte list) option" where
  "decode_store_args given = both (Some (fst given)) (decode_hex_cstring (Some (snd given)) False)"

text \<open>A limit between zero and the given maximum.\<close>

definition limit_arg :: "u32 \<Rightarrow> int option \<Rightarrow> u32 option" where
  "limit_arg maximum v =
     (case v of None \<Rightarrow> None | Some n \<Rightarrow> if n < 0 \<or> uint maximum < n then None else Some (of_int n))"

text \<open>An empty text stands for "none"; anything else is hexadecimal.\<close>

definition optional_hex :: "byte list \<Rightarrow> byte list option option" where
  "optional_hex encoded =
     (if encoded = [] then Some None else map_option Some (decode_hex_cstring (Some encoded) False))"

section \<open>Queries\<close>

text \<open>
  The metadata statement: prepared on the native handle and finalized at once. SQLite's columns
  of a text that does not prepare, or has no statement, are not asked for.
\<close>

definition metadata_columns ::
  "('d, 'z) engine \<Rightarrow> string \<Rightarrow> 'd session option \<Rightarrow> string option list option \<times> 'd session option" where
  "metadata_columns E sql database =
     (case database of
        None \<Rightarrow> (None, None)
      | Some s \<Rightarrow>
          let cn = ss_connection s in
          case sq_prepare (en_sqlite E) sql (cn_db cn) of
            (rc, db) \<Rightarrow>
              (if rc = SQLITE_OK \<and> qa_statement (en_query E) sql db
               then Some (qa_columns (en_query E) sql db) else None,
               Some (s\<lparr>ss_connection := cn\<lparr>cn_db := db\<rparr>\<rparr>)))"

text \<open>A transaction the query ended is given up: its object is destroyed.\<close>

definition reap_transaction :: "'d sqlite \<Rightarrow> 'd slot \<Rightarrow> 'd slot" where
  "reap_transaction E slot =
     (if sl_transaction slot \<noteq> None \<and> \<not> slot_transaction_active slot then drop_transaction E slot else slot)"

definition query_usage :: string where
  "query_usage = ''querySql expects handle, SQL UTF-8 hex, P1 parameter packet, and maxRows 0..10000''"

definition query_arguments ::
  "('d, 'z) engine \<Rightarrow> nat \<Rightarrow> call_env \<Rightarrow> 'h host \<Rightarrow> 'h list
   \<Rightarrow> ('d, 'z, int \<times> byte list \<times> esdb_value list \<times> nat) method_step" where
  "query_arguments E t M H argv =
     and_then (require t R_Undefined ADAPTER_BAD_ARGUMENT query_usage
       (both (handle_arg H argv 4) (both (get_string_arg H argv 1) (both (get_string_arg H argv 2)
         (case get_i32_arg H argv 3 of
            None \<Rightarrow> None | Some n \<Rightarrow> if n < 0 \<or> k_query_row_max < n then None else Some (nat n))))))
       (\<lambda>(handle, sql_hex, parameter_wire, max_rows).
     and_then (require t R_Undefined ADAPTER_BAD_ARGUMENT ''querySql SQL exceeds the 1 MiB UTF-8 limit''
       (unless (sql_hex = [] \<or> 2 * k_query_sql_max_bytes < size_of sql_hex) (Some ()))) (\<lambda>_.
     and_then (may_throw t R_Undefined (Some ''querySql allocation failed'')
       ''unexpected exception in querySql'' (ce_throws M 0)) (\<lambda>_.
     and_then (require t R_Undefined ADAPTER_BAD_ARGUMENT
       ''querySql SQL must be non-empty NUL-free UTF-8 bytes encoded as ASCII hex''
       (case decode_hex_cstring (Some sql_hex) False of
          None \<Rightarrow> None | Some sql \<Rightarrow> unless (k_query_sql_max_bytes < size_of sql) (Some sql))) (\<lambda>sql.
     and_then (require t R_Undefined ADAPTER_BAD_ARGUMENT
       ''querySql parameter packet is malformed or exceeds the P1 limits''
       (parse_query_parameter_wire (en_platform E) (ce_value M) (Some parameter_wire))) (\<lambda>parameters.
     proceed (handle, sql, parameters, max_rows))))))"

text \<open>What runs under the lock of the slot; the two out parameters are inside the result.\<close>

definition query_on_slot ::
  "nat \<Rightarrow> ('d, 'z) engine \<Rightarrow> call_env \<Rightarrow> nat \<Rightarrow> byte list \<Rightarrow> esdb_value list \<Rightarrow> nat
   \<Rightarrow> ('d, 'z) adapter \<Rightarrow> (query_result option outcome \<times> query_context) \<times> ('d, 'z) adapter" where
  "query_on_slot fuel E M i sql parameters max_rows A =
     (case metadata_columns E (chars sql) (sl_database (ad_slots A ! i)) of
        (columns, database) \<Rightarrow>
          let context1 = prime_query_column_names columns (new_query_context max_rows);
              values1 = (if parameters = [] then None else Some (map Some parameters))
          in case esdb_query fuel (en_sqlite E) (en_query E) (ce_query M) (ce_query_exn M) (Some sql) values1
               (of_nat (length parameters)) (Some (append_query_row_wire (ce_grows M))) context1 database of
               ((r, database), context1) \<Rightarrow>
                 ((r, context1),
                  update_slot i (reap_transaction (en_sqlite E))
                    (update_slot i (\<lambda>slot. slot\<lparr>sl_database := database\<rparr>) A)))"

definition query_answer ::
  "nat \<Rightarrow> call_env \<Rightarrow> (u64 \<times> u64) outcome \<Rightarrow> query_context \<Rightarrow> ('d, 'z, result) method_step" where
  "query_answer t M r context1 =
     and_then (expect t R_Undefined ''ESDB typed SQL query failed'' r) (\<lambda>(total_rows, changes).
     if qx_failed context1
     then give_up t R_Undefined ADAPTER_INTERNAL ''failed to encode typed SQL query result'' None
     else
      and_then (clear_error_step t) (\<lambda>_.
      and_then (may_throw t R_Undefined (Some ''querySql allocation failed'')
        ''unexpected exception in querySql'' (ce_throws M 1)) (\<lambda>_.
      return_string t M (query_reply total_rows changes context1))))"

text \<open>Running out of fuel is a query that has not returned.\<close>

definition returned :: "'a option outcome \<Rightarrow> 'a outcome option" where
  "returned r =
     (case r of Failed status e \<Rightarrow> Some (Failed status e) | Done None \<Rightarrow> None | Done (Some x) \<Rightarrow> Some (Done x))"

definition querySql ::
  "nat \<Rightarrow> ('d, 'z) engine \<Rightarrow> nat \<Rightarrow> call_env \<Rightarrow> 'h host \<Rightarrow> 'h list \<Rightarrow> ('d, 'z) adapter
   \<Rightarrow> (result \<times> ('d, 'z) adapter) option" where
  "querySql fuel E t M H argv A =
     (case query_arguments E t M H argv A of
        (Inl failure, A) \<Rightarrow> Some (failure, A)
      | (Inr (handle, sql, parameters, max_rows), A) \<Rightarrow>
         (case find_slot t R_Undefined handle A of
            (Inl failure, A) \<Rightarrow> Some (failure, A)
          | (Inr i, A) \<Rightarrow>
             (case query_on_slot fuel E M i sql parameters max_rows A of
                ((r, context1), A) \<Rightarrow>
                  map_option (\<lambda>r. reply (query_answer t M r context1) A) (returned r))))"

section \<open>The object store\<close>

definition objectStoreEnsure ::
  "('d, 'z) engine \<Rightarrow> nat \<Rightarrow> call_env \<Rightarrow> 'h host \<Rightarrow> 'h list \<Rightarrow> ('d, 'z) adapter
   \<Rightarrow> result \<times> ('d, 'z) adapter" where
  "objectStoreEnsure E t M H argv =
     reply
       (and_then (arguments t (R_Bool False) None ''unexpected exception in objectStoreEnsure'' M
          ''objectStoreEnsure expects handle and UTF-8 store name encoded as ASCII hex''
          (store_args H argv 2) decode_store_args) (\<lambda>(handle, store_name).
        and_then (find_slot t (R_Bool False) handle) (\<lambda>i.
        and_then (in_slot i (on_connection_of
          (esdb_object_store_ensure (en_sqlite E) (ce_clock M 0) (Some store_name)))) (\<lambda>r.
        and_then (expect t (R_Bool False) ''ESDB failed to ensure Store'' r) (\<lambda>_.
        succeed t (R_Bool True))))))"

text \<open>Both puts share what follows the decoded value.\<close>

definition made_value ::
  "nat \<Rightarrow> string \<Rightarrow> esdb_value outcome \<Rightarrow> ('d, 'z, esdb_value) method_step" where
  "made_value t message r =
     (case r of
        Done v \<Rightarrow> proceed v
      | Failed status e \<Rightarrow> give_up t R_Undefined ADAPTER_BAD_ARGUMENT message (reported r))"

definition put_on_slot ::
  "('d, 'z) engine \<Rightarrow> nat \<Rightarrow> call_env \<Rightarrow> string \<Rightarrow> string \<Rightarrow> int \<Rightarrow> byte list \<Rightarrow> byte list \<Rightarrow> esdb_value
   \<Rightarrow> ('d, 'z, result) method_step" where
  "put_on_slot E t M oom other handle store_name key v =
     and_then (find_slot t R_Undefined handle) (\<lambda>i.
     and_then (in_slot i (on_connection_of
       (esdb_object_store_put (en_sqlite E) (ce_clock M) (Some store_name) (Some key) (Some v)))) (\<lambda>r.
     and_then (expect t R_Undefined ''ESDB Store put failed'' r) (\<lambda>revision.
     and_then (clear_error_step t) (\<lambda>_.
     and_then (may_throw t R_Undefined (Some oom) other (ce_throws M 1)) (\<lambda>_.
     return_string t M (u64_decimal revision))))))"

definition objectStorePutNumber ::
  "('d, 'z) engine \<Rightarrow> nat \<Rightarrow> call_env \<Rightarrow> 'h host \<Rightarrow> 'h list \<Rightarrow> ('d, 'z) adapter
   \<Rightarrow> result \<times> ('d, 'z) adapter" where
  "objectStorePutNumber E t M H argv =
     reply
       (and_then (arguments t R_Undefined (Some ''failed to allocate Store numeric value'')
          ''unexpected exception in objectStorePutNumber'' M
          ''objectStorePutNumber expects handle, hex-encoded UTF-8 store/key, type, and number''
          (store_key_args H argv 5)
          (\<lambda>given. both (decode_args given) (both (get_i32_arg H argv 3) (get_double_arg H argv 4))))
          (\<lambda>((handle, store_name, key), type, number).
        and_then (made_value t ''numeric value does not match the requested ESDB value type''
          (make_number_value (ce_value M 0) (of_int type) number)) (\<lambda>v.
        put_on_slot E t M ''failed to allocate Store numeric value''
          ''unexpected exception in objectStorePutNumber'' handle store_name key v)))"

definition objectStorePutText ::
  "('d, 'z) engine \<Rightarrow> nat \<Rightarrow> call_env \<Rightarrow> 'h host \<Rightarrow> 'h list \<Rightarrow> ('d, 'z) adapter
   \<Rightarrow> result \<times> ('d, 'z) adapter" where
  "objectStorePutText E t M H argv =
     reply
       (and_then (arguments t R_Undefined (Some ''failed to allocate Store text value'')
          ''unexpected exception in objectStorePutText'' M
          ''objectStorePutText expects handle, hex-encoded UTF-8 store/key, type, and payload''
          (store_key_args H argv 5)
          (\<lambda>given. both (decode_args given) (both (get_i32_arg H argv 3) (get_string_arg H argv 4))))
          (\<lambda>((handle, store_name, key), type, payload).
        and_then (made_value t ''text payload does not match the requested ESDB value type''
          (make_text_value (ce_value M 0) (of_int type) (Some payload))) (\<lambda>v.
        put_on_slot E t M ''failed to allocate Store text value''
          ''unexpected exception in objectStorePutText'' handle store_name key v)))"

abbreviation "MISSING_WIRE \<equiv> ascii ''V1:-1:''"

text \<open>The reply of a read: a missing key has a wire of its own.\<close>

definition read_reply ::
  "nat \<Rightarrow> string \<Rightarrow> string \<Rightarrow> esdb_value outcome \<Rightarrow> ('d, 'z, byte list) method_step" where
  "read_reply t failure encode_failure r =
     (case r of
        Failed status e \<Rightarrow>
          if status = ESDB_ERR_NOT_FOUND
          then and_then (clear_error_step t) (\<lambda>_. proceed MISSING_WIRE)
          else give_up t R_Undefined ADAPTER_DATABASE_ERROR failure (Some e)
      | Done v \<Rightarrow>
         (case value_wire (Some v) of
            None \<Rightarrow> give_up t R_Undefined ADAPTER_INTERNAL encode_failure None
          | Some wire \<Rightarrow> and_then (clear_error_step t) (\<lambda>_. proceed wire)))"

definition objectStoreGet ::
  "('d, 'z) engine \<Rightarrow> nat \<Rightarrow> call_env \<Rightarrow> 'h host \<Rightarrow> 'h list \<Rightarrow> ('d, 'z) adapter
   \<Rightarrow> result \<times> ('d, 'z) adapter" where
  "objectStoreGet E t M H argv =
     reply
       (and_then (arguments t R_Undefined (Some ''failed to encode Store get result'')
          ''unexpected exception in objectStoreGet'' M
          ''objectStoreGet expects handle and hex-encoded UTF-8 store/key''
          (store_key_args H argv 3) decode_args) (\<lambda>(handle, store_name, key).
        and_then (find_slot t R_Undefined handle) (\<lambda>i.
        and_then (in_slot i (on_connection_of
          (esdb_object_store_get (en_sqlite E) (ce_value M 0) (Some store_name) (Some key) True))) (\<lambda>r.
        and_then (read_reply t ''ESDB Store get failed'' ''failed to encode ESDB Store value'' r) (\<lambda>wire.
        and_then (may_throw t R_Undefined (Some ''failed to encode Store get result'')
          ''unexpected exception in objectStoreGet'' (ce_throws M 1)) (\<lambda>_.
        return_string t M wire))))))"

definition objectStoreDelete ::
  "('d, 'z) engine \<Rightarrow> nat \<Rightarrow> call_env \<Rightarrow> 'h host \<Rightarrow> 'h list \<Rightarrow> ('d, 'z) adapter
   \<Rightarrow> result \<times> ('d, 'z) adapter" where
  "objectStoreDelete E t M H argv =
     reply
       (and_then (arguments t R_Undefined None ''unexpected exception in objectStoreDelete'' M
          ''objectStoreDelete expects handle and hex-encoded UTF-8 store/key''
          (store_key_args H argv 3) decode_args) (\<lambda>(handle, store_name, key).
        and_then (find_slot t R_Undefined handle) (\<lambda>i.
        and_then (in_slot i (on_connection_of
          (esdb_object_store_delete (en_sqlite E) (ce_clock M 0) (Some store_name) (Some key)))) (\<lambda>r.
        and_then (expect t R_Undefined ''ESDB Store delete failed'' r) (\<lambda>(deleted, revision).
        and_then (clear_error_step t) (\<lambda>_.
        and_then (may_throw t R_Undefined None ''unexpected exception in objectStoreDelete''
          (ce_throws M 1)) (\<lambda>_.
        return_string t M (flagged_revision deleted revision))))))))"

definition objectStoreExists ::
  "('d, 'z) engine \<Rightarrow> nat \<Rightarrow> call_env \<Rightarrow> 'h host \<Rightarrow> 'h list \<Rightarrow> ('d, 'z) adapter
   \<Rightarrow> result \<times> ('d, 'z) adapter" where
  "objectStoreExists E t M H argv =
     reply
       (and_then (arguments t (R_Bool False) None ''unexpected exception in objectStoreExists'' M
          ''objectStoreExists expects handle and hex-encoded UTF-8 store/key''
          (store_key_args H argv 3) decode_args) (\<lambda>(handle, store_name, key).
        and_then (find_slot t (R_Bool False) handle) (\<lambda>i.
        and_then (in_slot i (on_connection_of
          (esdb_object_store_exists (en_sqlite E) (Some store_name) (Some key) True))) (\<lambda>r.
        and_then (expect t (R_Bool False) ''ESDB Store exists failed'' r) (\<lambda>exists1.
        succeed t (R_Bool exists1))))))"

text \<open>The two methods that answer one number of the slot's store.\<close>

definition answer_number ::
  "nat \<Rightarrow> call_env \<Rightarrow> string \<Rightarrow> string \<Rightarrow> u64 outcome \<Rightarrow> ('d, 'z, result) method_step" where
  "answer_number t M failure other r =
     and_then (expect t R_Undefined failure r) (\<lambda>n.
     and_then (clear_error_step t) (\<lambda>_.
     and_then (may_throw t R_Undefined None other (ce_throws M 1)) (\<lambda>_.
     return_string t M (u64_decimal n))))"

definition objectStoreCount ::
  "('d, 'z) engine \<Rightarrow> nat \<Rightarrow> call_env \<Rightarrow> 'h host \<Rightarrow> 'h list \<Rightarrow> ('d, 'z) adapter
   \<Rightarrow> result \<times> ('d, 'z) adapter" where
  "objectStoreCount E t M H argv =
     reply
       (and_then (arguments t R_Undefined None ''unexpected exception in objectStoreCount'' M
          ''objectStoreCount expects handle and UTF-8 store name encoded as ASCII hex''
          (store_args H argv 2) decode_store_args) (\<lambda>(handle, store_name).
        and_then (find_slot t R_Undefined handle) (\<lambda>i.
        and_then (in_slot i (on_connection_of
          (esdb_object_store_count (en_sqlite E) (Some store_name) True)))
        (answer_number t M ''ESDB Store count failed'' ''unexpected exception in objectStoreCount''))))"

definition objectStoreRevision ::
  "('d, 'z) engine \<Rightarrow> nat \<Rightarrow> call_env \<Rightarrow> 'h host \<Rightarrow> 'h list \<Rightarrow> ('d, 'z) adapter
   \<Rightarrow> result \<times> ('d, 'z) adapter" where
  "objectStoreRevision E t M H argv =
     reply
       (and_then (require t R_Undefined ADAPTER_BAD_ARGUMENT
          ''objectStoreRevision expects one positive integer handle'' (handle_arg H argv 1)) (\<lambda>handle.
        and_then (find_slot t R_Undefined handle) (\<lambda>i.
        and_then (in_slot i (on_connection_of (esdb_object_store_revision (en_sqlite E) True)))
        (answer_number t M ''ESDB Store revision failed'' ''unexpected exception in objectStoreRevision''))))"

text \<open>
  A window is refused when the library failed, when a line could not be appended, or, for a
  scan, when the two counts differ.
\<close>

definition window_failed ::
  "nat \<Rightarrow> bool \<Rightarrow> string \<Rightarrow> string \<Rightarrow> 'a outcome \<Rightarrow> ('d, 'z, 'b) method_step" where
  "window_failed t failed serialize_message message r =
     give_up t R_Undefined (if failed then ADAPTER_OUT_OF_MEMORY else ADAPTER_DATABASE_ERROR)
       (if failed then serialize_message else message)
       (case r of Done _ \<Rightarrow> None | Failed _ e \<Rightarrow> Some e)"

definition scan_window ::
  "nat \<Rightarrow> call_env \<Rightarrow> string \<Rightarrow> string \<Rightarrow> string \<Rightarrow> u32 outcome \<times> record_context
   \<Rightarrow> ('d, 'z, result) method_step" where
  "scan_window t M serialize_message message other run =
     (case run of
        (r, context1) \<Rightarrow>
          if (case r of Failed _ _ \<Rightarrow> True | Done count1 \<Rightarrow> uint count1 \<noteq> int (rx_count context1))
             \<or> rx_failed context1
          then window_failed t (rx_failed context1) serialize_message message r
          else
           and_then (clear_error_step t) (\<lambda>_.
           and_then (may_throw t R_Undefined (Some serialize_message) other (ce_throws M 1)) (\<lambda>_.
           return_string t M (record_reply context1))))"

definition change_window ::
  "nat \<Rightarrow> call_env \<Rightarrow> string \<Rightarrow> string \<Rightarrow> string \<Rightarrow> string \<Rightarrow> (u64 \<times> u32) outcome \<times> change_context
   \<Rightarrow> ('d, 'z, result) method_step" where
  "change_window t M serialize_message message oom other run =
     (case run of
        (r, context1) \<Rightarrow>
         (case r of
            Failed _ _ \<Rightarrow> window_failed t (cx_failed context1) serialize_message message r
          | Done (last_revision, count1) \<Rightarrow>
              if cx_failed context1
              then window_failed t True serialize_message message r
              else
               and_then (clear_error_step t) (\<lambda>_.
               and_then (may_throw t R_Undefined (Some oom) other (ce_throws M 1)) (\<lambda>_.
               return_string t M (change_reply last_revision count1 context1)))))"

definition objectStoreScan ::
  "('d, 'z) engine \<Rightarrow> nat \<Rightarrow> call_env \<Rightarrow> 'h host \<Rightarrow> 'h list \<Rightarrow> ('d, 'z) adapter
   \<Rightarrow> result \<times> ('d, 'z) adapter" where
  "objectStoreScan E t M H argv =
     reply
       (and_then (arguments t R_Undefined (Some ''failed to serialize ObjectStore scan window'')
          ''unexpected exception in objectStoreScan'' M
          ''objectStoreScan expects handle, Store hex, optional after-key hex, and bounded limit''
          (both (store_args H argv 4) (get_string_arg H argv 2))
          (\<lambda>(given, after_hex). both (decode_store_args given) (both (optional_hex after_hex)
            (limit_arg ESDB_OBJECT_SCAN_LIMIT_MAX (get_i32_arg H argv 3)))))
          (\<lambda>((handle, store_name), after_key, limit).
        and_then (find_slot t R_Undefined handle) (\<lambda>i.
        and_then (in_slot i (on_connection_of (with_context
          (esdb_object_store_scan (en_sqlite E) (ce_library M) (ce_value M 0) (Some store_name) after_key
            limit (Some (append_record_wire (ce_grows M))) new_record_context))))
        (scan_window t M ''failed to serialize ObjectStore scan window'' ''ESDB ObjectStore scan failed''
          ''unexpected exception in objectStoreScan''))))"

definition objectStoreChanges ::
  "('d, 'z) engine \<Rightarrow> nat \<Rightarrow> call_env \<Rightarrow> 'h host \<Rightarrow> 'h list \<Rightarrow> ('d, 'z) adapter
   \<Rightarrow> result \<times> ('d, 'z) adapter" where
  "objectStoreChanges E t M H argv =
     reply
       (and_then (arguments t R_Undefined (Some ''failed to serialize Store change window'')
          ''unexpected exception in objectStoreChanges'' M
          ''objectStoreChanges expects handle, optional hex-encoded UTF-8 store name, exact revision string, and bounded limit''
          (both (store_args H argv 4) (get_string_arg H argv 2))
          (\<lambda>((handle, store_hex), after_text).
            both (Some handle) (both (optional_hex store_hex) (both (parse_revision_decimal (Some after_text))
            (limit_arg ESDB_OBJECT_CHANGE_LIMIT_MAX (get_i32_arg H argv 3))))))
          (\<lambda>(handle, store_name, after_revision, limit).
        and_then (find_slot t R_Undefined handle) (\<lambda>i.
        and_then (in_slot i (on_connection_of (with_context
          (esdb_object_store_changes_since (en_sqlite E) (ce_library M) store_name after_revision limit
            (Some (append_change_wire (ce_grows M))) new_change_context))))
        (change_window t M ''failed to serialize Store change window'' ''ESDB Store changes query failed''
          ''failed to serialize Store change window'' ''unexpected exception in objectStoreChanges''))))"

text \<open>The deletion loop of a prune has fuel; without it the method has not returned.\<close>

definition objectStorePrune ::
  "nat \<Rightarrow> ('d, 'z) engine \<Rightarrow> nat \<Rightarrow> call_env \<Rightarrow> 'h host \<Rightarrow> 'h list \<Rightarrow> ('d, 'z) adapter
   \<Rightarrow> (result \<times> ('d, 'z) adapter) option" where
  "objectStorePrune fuel E t M H argv A =
     (case and_then (require t R_Undefined ADAPTER_BAD_ARGUMENT
          ''objectStorePrune expects handle and exact revision string''
          (both (handle_arg H argv 2) (parse_revision_decimal (get_string_arg H argv 1))))
          (\<lambda>(handle, through_revision).
        and_then (find_slot t R_Undefined handle) (\<lambda>i.
        in_slot i (on_connection_of
          (esdb_object_store_prune_changes fuel (en_sqlite E) through_revision)))) A of
        (Inl failure, A) \<Rightarrow> Some (failure, A)
      | (Inr r, A) \<Rightarrow>
          map_option (\<lambda>r. reply (answer_number t M ''ESDB Store prune failed''
            ''unexpected exception in objectStorePrune'' r) A) (returned r))"

end
