(* ===== verification/Adapter_Memory.thy ===== *)
theory Adapter_Memory
  imports Adapter_Objects
begin

text \<open>
  The methods of the ExternalObject adapter
  (src/adapters/externalobject/esdb_externalobject.cpp) on the named process-memory stores.
  Each opens the store by name, which creates it when it is new, runs one operation and closes
  its handle again.
\<close>

section \<open>Opening by name\<close>

text \<open>
  \<open>MemoryStoreGuard\<close>: the handle is closed when the method leaves; what runs between the
  operation and that point does not look at the stores.
\<close>

definition with_store ::
  "nat \<Rightarrow> result \<Rightarrow> call_env \<Rightarrow> byte list \<Rightarrow> (nat option \<Rightarrow> registry_world \<Rightarrow> 'r \<times> registry_world)
   \<Rightarrow> ('d, 'z, 'r) method_step" where
  "with_store t failure M name1 f A =
     (case esdb_store_open (ce_open M) (Some name1) True (ad_stores A) of
        (Failed status e, w) \<Rightarrow>
          give_up t failure ADAPTER_DATABASE_ERROR ''failed to open memory Store'' (Some e)
            (A\<lparr>ad_stores := w\<rparr>)
      | (Done h, w) \<Rightarrow>
         (case f (Some h) w of
            (r, w) \<Rightarrow> (Inr r, A\<lparr>ad_stores := esdb_store_close (Some h) w\<rparr>)))"

definition name_arg :: "'h host \<Rightarrow> 'h list \<Rightarrow> nat \<Rightarrow> byte list option" where
  "name_arg H argv n = (if length argv = n then get_string_arg H argv 0 else None)"

definition name_key_args :: "'h host \<Rightarrow> 'h list \<Rightarrow> nat \<Rightarrow> (byte list \<times> byte list) option" where
  "name_key_args H argv n = both (name_arg H argv n) (get_string_arg H argv 1)"

definition decode_name :: "byte list \<Rightarrow> byte list option" where
  "decode_name encoded = decode_hex_cstring (Some encoded) False"

section \<open>Mutations\<close>

definition storeDestroy ::
  "nat \<Rightarrow> call_env \<Rightarrow> 'h host \<Rightarrow> 'h list \<Rightarrow> ('d, 'z) adapter \<Rightarrow> result \<times> ('d, 'z) adapter" where
  "storeDestroy t M H argv =
     reply
       (and_then (arguments t (R_Bool False) None ''unexpected exception in storeDestroy'' M
          ''storeDestroy expects a hex-encoded UTF-8 Store name'' (name_arg H argv 1) decode_name) (\<lambda>name1 A.
        case esdb_store_destroy (Some name1) (ad_stores A) of
          (r, w) \<Rightarrow>
            and_then (expect t (R_Bool False) ''ESDB memory Store destroy failed'' r) (\<lambda>_.
            succeed t (R_Bool True)) (A\<lparr>ad_stores := w\<rparr>)))"

definition put_in_store ::
  "nat \<Rightarrow> call_env \<Rightarrow> string \<Rightarrow> byte list \<Rightarrow> byte list \<Rightarrow> esdb_value \<Rightarrow> ('d, 'z, result) method_step" where
  "put_in_store t M other name1 key v =
     and_then (with_store t R_Undefined M name1 (on_store (esdb_store_put (ce_library M) (Some key) (Some v)))) (\<lambda>r.
     and_then (expect t R_Undefined ''memory Store put failed'' r) (\<lambda>revision.
     and_then (clear_error_step t) (\<lambda>_.
     and_then (may_throw t R_Undefined (Some ''failed to allocate memory Store value'') other (ce_throws M 1)) (\<lambda>_.
     return_string t M (u64_decimal revision)))))"

definition storePutNumber ::
  "nat \<Rightarrow> call_env \<Rightarrow> 'h host \<Rightarrow> 'h list \<Rightarrow> ('d, 'z) adapter \<Rightarrow> result \<times> ('d, 'z) adapter" where
  "storePutNumber t M H argv =
     reply
       (and_then (arguments t R_Undefined (Some ''failed to allocate memory Store value'')
          ''unexpected exception in storePutNumber'' M
          ''storePutNumber expects Store/key hex, type, and number'' (name_key_args H argv 4)
          (\<lambda>given. both (decode_store_key given) (both (get_i32_arg H argv 2) (get_double_arg H argv 3))))
          (\<lambda>((name1, key), type, number).
        and_then (made_value t ''invalid numeric Store value''
          (make_number_value (ce_value M 0) (of_int type) number)) (\<lambda>v.
        put_in_store t M ''unexpected exception in storePutNumber'' name1 key v)))"

definition storePutText ::
  "nat \<Rightarrow> call_env \<Rightarrow> 'h host \<Rightarrow> 'h list \<Rightarrow> ('d, 'z) adapter \<Rightarrow> result \<times> ('d, 'z) adapter" where
  "storePutText t M H argv =
     reply
       (and_then (arguments t R_Undefined (Some ''failed to allocate memory Store value'')
          ''unexpected exception in storePutText'' M
          ''storePutText expects Store/key hex, type, and payload''
          (both (name_key_args H argv 4) (get_string_arg H argv 3))
          (\<lambda>(given, payload). both (decode_store_key given) (both (get_i32_arg H argv 2) (Some payload))))
          (\<lambda>((name1, key), type, payload).
        and_then (made_value t ''invalid text Store value''
          (make_text_value (ce_value M 0) (of_int type) (Some payload))) (\<lambda>v.
        put_in_store t M ''unexpected exception in storePutText'' name1 key v)))"

definition patch_entries :: "(byte list \<times> esdb_value) list \<Rightarrow> patch_entry list option" where
  "patch_entries entries =
     (if entries = [] then None else Some (map (\<lambda>(key, v). (Some key, Some v)) entries))"

definition storePatch ::
  "platform \<Rightarrow> nat \<Rightarrow> call_env \<Rightarrow> 'h host \<Rightarrow> 'h list \<Rightarrow> ('d, 'z) adapter
   \<Rightarrow> result \<times> ('d, 'z) adapter" where
  "storePatch P t M H argv =
     reply
       (and_then (arguments t R_Undefined (Some ''failed to allocate memory Store patch'')
          ''unexpected exception in storePatch'' M
          ''storePatch expects Store name hex and patch wire'' (name_key_args H argv 2)
          (\<lambda>(name_hex, wire). both (decode_name name_hex) (Some wire))) (\<lambda>(name1, wire).
        and_then (case parse_patch_wire P (ce_value M) wire of
            Inl (message, e) \<Rightarrow> give_up t R_Undefined ADAPTER_BAD_ARGUMENT message e
          | Inr entries \<Rightarrow> proceed entries) (\<lambda>entries.
        and_then (with_store t R_Undefined M name1 (on_store
          (esdb_store_patch (ce_library M) (patch_entries entries) (of_nat (length entries))))) (\<lambda>r.
        and_then (expect t R_Undefined ''memory Store patch failed'' r) (\<lambda>revision.
        and_then (clear_error_step t) (\<lambda>_.
        and_then (may_throw t R_Undefined (Some ''failed to allocate memory Store patch'')
          ''unexpected exception in storePatch'' (ce_throws M 1)) (\<lambda>_.
        return_string t M (u64_decimal revision))))))))"

text \<open>Delete and clear answer whether there was something, and the revision.\<close>

definition answer_flagged ::
  "nat \<Rightarrow> call_env \<Rightarrow> string \<Rightarrow> string \<Rightarrow> (bool \<times> u64) outcome \<Rightarrow> ('d, 'z, result) method_step" where
  "answer_flagged t M failure other r =
     and_then (expect t R_Undefined failure r) (\<lambda>(flag, revision).
     and_then (clear_error_step t) (\<lambda>_.
     and_then (may_throw t R_Undefined None other (ce_throws M 1)) (\<lambda>_.
     return_string t M (flagged_revision flag revision))))"

definition storeDelete ::
  "nat \<Rightarrow> call_env \<Rightarrow> 'h host \<Rightarrow> 'h list \<Rightarrow> ('d, 'z) adapter \<Rightarrow> result \<times> ('d, 'z) adapter" where
  "storeDelete t M H argv =
     reply
       (and_then (arguments t R_Undefined None ''unexpected exception in storeDelete'' M
          ''storeDelete expects Store/key hex'' (name_key_args H argv 2) decode_store_key) (\<lambda>(name1, key).
        and_then (with_store t R_Undefined M name1 (on_store (esdb_store_delete (ce_library M) (Some key))))
        (answer_flagged t M ''memory Store delete failed'' ''unexpected exception in storeDelete'')))"

definition storeClear ::
  "nat \<Rightarrow> call_env \<Rightarrow> 'h host \<Rightarrow> 'h list \<Rightarrow> ('d, 'z) adapter \<Rightarrow> result \<times> ('d, 'z) adapter" where
  "storeClear t M H argv =
     reply
       (and_then (arguments t R_Undefined None ''unexpected exception in storeClear'' M
          ''storeClear expects Store name hex'' (name_arg H argv 1) decode_name) (\<lambda>name1.
        and_then (with_store t R_Undefined M name1 (on_store (esdb_store_clear (ce_library M))))
        (answer_flagged t M ''memory Store clear failed'' ''unexpected exception in storeClear'')))"

section \<open>Reads\<close>

definition storeGet ::
  "nat \<Rightarrow> call_env \<Rightarrow> 'h host \<Rightarrow> 'h list \<Rightarrow> ('d, 'z) adapter \<Rightarrow> result \<times> ('d, 'z) adapter" where
  "storeGet t M H argv =
     reply
       (and_then (arguments t R_Undefined (Some ''failed to encode memory Store get result'')
          ''unexpected exception in storeGet'' M
          ''storeGet expects Store/key hex'' (name_key_args H argv 2) decode_store_key) (\<lambda>(name1, key).
        and_then (with_store t R_Undefined M name1 (reading (esdb_store_get (ce_value M 0) (Some key) True))) (\<lambda>r.
        and_then (read_reply t ''memory Store get failed'' ''failed to encode memory Store value'' r) (\<lambda>wire.
        and_then (may_throw t R_Undefined (Some ''failed to encode memory Store get result'')
          ''unexpected exception in storeGet'' (ce_throws M 1)) (\<lambda>_.
        return_string t M wire)))))"

definition storeExists ::
  "nat \<Rightarrow> call_env \<Rightarrow> 'h host \<Rightarrow> 'h list \<Rightarrow> ('d, 'z) adapter \<Rightarrow> result \<times> ('d, 'z) adapter" where
  "storeExists t M H argv =
     reply
       (and_then (arguments t (R_Bool False) None ''unexpected exception in storeExists'' M
          ''storeExists expects Store/key hex'' (name_key_args H argv 2) decode_store_key) (\<lambda>(name1, key).
        and_then (with_store t (R_Bool False) M name1 (reading (esdb_store_exists (Some key) True))) (\<lambda>r.
        and_then (expect t (R_Bool False) ''memory Store exists failed'' r) (\<lambda>exists1.
        succeed t (R_Bool exists1)))))"

text \<open>The three methods that answer one number of a store.\<close>

definition store_number ::
  "string \<Rightarrow> string \<Rightarrow> (memory_state option \<Rightarrow> u64 outcome) \<Rightarrow> nat \<Rightarrow> call_env \<Rightarrow> 'h host \<Rightarrow> 'h list
   \<Rightarrow> ('d, 'z) adapter \<Rightarrow> result \<times> ('d, 'z) adapter" where
  "store_number name1 failure f t M H argv =
     reply
       (and_then (arguments t R_Undefined None (''unexpected exception in '' @ name1) M
          (name1 @ '' expects Store name hex'') (name_arg H argv 1) decode_name) (\<lambda>store_name.
        and_then (with_store t R_Undefined M store_name (reading f))
        (answer_number t M failure (''unexpected exception in '' @ name1))))"

definition storeCount where
  "storeCount = store_number ''storeCount'' ''memory Store count failed'' (esdb_store_count True)"

definition storeRevision where
  "storeRevision = store_number ''storeRevision'' ''memory Store revision failed'' (esdb_store_revision True)"

definition storeRetainedFloor where
  "storeRetainedFloor =
     store_number ''storeRetainedFloor'' ''memory Store retained-floor query failed''
       (esdb_store_retained_floor True)"

definition storeScan ::
  "nat \<Rightarrow> call_env \<Rightarrow> 'h host \<Rightarrow> 'h list \<Rightarrow> ('d, 'z) adapter \<Rightarrow> result \<times> ('d, 'z) adapter" where
  "storeScan t M H argv =
     reply
       (and_then (arguments t R_Undefined (Some ''failed to serialize memory Store scan window'')
          ''unexpected exception in storeScan'' M
          ''storeScan expects Store hex, optional after-key hex, and bounded limit'' (name_key_args H argv 3)
          (\<lambda>(name_hex, after_hex). both (decode_name name_hex) (both (optional_hex after_hex)
            (limit_arg ESDB_STORE_SCAN_LIMIT_MAX (get_i32_arg H argv 2))))) (\<lambda>(name1, after_key, limit).
        and_then (with_store t R_Undefined M name1 (reading
          (esdb_store_scan (ce_library M) after_key limit
            (Some (append_memory_record_wire (ce_grows M))) new_record_context)))
        (scan_window t M ''failed to serialize memory Store scan window'' ''memory Store scan failed''
          ''unexpected exception in storeScan'')))"

definition storeChanges ::
  "nat \<Rightarrow> call_env \<Rightarrow> 'h host \<Rightarrow> 'h list \<Rightarrow> ('d, 'z) adapter \<Rightarrow> result \<times> ('d, 'z) adapter" where
  "storeChanges t M H argv =
     reply
       (and_then (arguments t R_Undefined (Some ''failed to serialize memory Store changes'')
          ''unexpected exception in storeChanges'' M
          ''storeChanges expects Store hex, exact revision, and bounded limit'' (name_key_args H argv 3)
          (\<lambda>(name_hex, after_text). both (decode_name name_hex) (both (parse_revision_decimal (Some after_text))
            (limit_arg ESDB_STORE_CHANGE_LIMIT_MAX (get_i32_arg H argv 2)))))
          (\<lambda>(name1, after_revision, limit).
        and_then (with_store t R_Undefined M name1 (reading
          (esdb_store_changes_since (ce_library M) after_revision limit
            (Some (append_memory_change_wire (ce_grows M))) new_change_context)))
        (change_window t M ''failed to serialize memory Store change window''
          ''memory Store changes query failed'' ''failed to serialize memory Store changes''
          ''unexpected exception in storeChanges'')))"

end
