(* ===== verification/Adapter_Dispatch.thy ===== *)
theory Adapter_Dispatch
  imports Adapter_Memory
begin

text \<open>
  The table of methods the ExternalObject adapter exports
  (src/adapters/externalobject/esdb_externalobject.cpp, \<open>g_signatures\<close>) with the kinds of argument
  each declares, and the host's call of one of them by name. The transition relation at the end
  is every call any thread can make, the termination hook included.
\<close>

section \<open>The signature table\<close>

datatype adapter_method =
    M_ping | M_abiVersion | M_version | M_sqliteVersion | M_stage | M_stageHex | M_openStaged
  | M_close | M_health | M_lastError | M_dataVersion | M_querySql | M_handleCount
  | M_transactionBegin | M_transactionCommit | M_transactionRollback | M_transactionActive
  | M_objectStoreEnsure | M_objectStorePutNumber | M_objectStorePutText | M_objectStoreGet
  | M_objectStoreDelete | M_objectStoreExists | M_objectStoreCount | M_objectStoreScan
  | M_objectStoreRevision | M_objectStoreChanges | M_objectStorePrune
  | M_storeDestroy | M_storePutNumber | M_storePutText | M_storePatch | M_storeGet
  | M_storeDelete | M_storeExists | M_storeCount | M_storeScan | M_storeClear
  | M_storeRevision | M_storeRetainedFloor | M_storeChanges

datatype signature_kind = ESABI_SIG_DOUBLE | ESABI_SIG_I32 | ESABI_SIG_STRING

fun signature :: "adapter_method \<Rightarrow> signature_kind list" where
  "signature M_ping = [ESABI_SIG_DOUBLE]"
| "signature M_abiVersion = [ESABI_SIG_DOUBLE]"
| "signature M_version = [ESABI_SIG_DOUBLE]"
| "signature M_sqliteVersion = [ESABI_SIG_DOUBLE]"
| "signature M_stage = [ESABI_SIG_STRING]"
| "signature M_stageHex = [ESABI_SIG_STRING]"
| "signature M_openStaged = [ESABI_SIG_DOUBLE]"
| "signature M_close = [ESABI_SIG_I32]"
| "signature M_health = [ESABI_SIG_I32]"
| "signature M_lastError = [ESABI_SIG_DOUBLE]"
| "signature M_dataVersion = [ESABI_SIG_I32]"
| "signature M_querySql = [ESABI_SIG_I32, ESABI_SIG_STRING, ESABI_SIG_STRING, ESABI_SIG_I32]"
| "signature M_handleCount = [ESABI_SIG_DOUBLE]"
| "signature M_transactionBegin = [ESABI_SIG_I32, ESABI_SIG_I32]"
| "signature M_transactionCommit = [ESABI_SIG_I32]"
| "signature M_transactionRollback = [ESABI_SIG_I32]"
| "signature M_transactionActive = [ESABI_SIG_I32]"
| "signature M_objectStoreEnsure = [ESABI_SIG_I32, ESABI_SIG_STRING]"
| "signature M_objectStorePutNumber =
     [ESABI_SIG_I32, ESABI_SIG_STRING, ESABI_SIG_STRING, ESABI_SIG_I32, ESABI_SIG_DOUBLE]"
| "signature M_objectStorePutText =
     [ESABI_SIG_I32, ESABI_SIG_STRING, ESABI_SIG_STRING, ESABI_SIG_I32, ESABI_SIG_STRING]"
| "signature M_objectStoreGet = [ESABI_SIG_I32, ESABI_SIG_STRING, ESABI_SIG_STRING]"
| "signature M_objectStoreDelete = [ESABI_SIG_I32, ESABI_SIG_STRING, ESABI_SIG_STRING]"
| "signature M_objectStoreExists = [ESABI_SIG_I32, ESABI_SIG_STRING, ESABI_SIG_STRING]"
| "signature M_objectStoreCount = [ESABI_SIG_I32, ESABI_SIG_STRING]"
| "signature M_objectStoreScan = [ESABI_SIG_I32, ESABI_SIG_STRING, ESABI_SIG_STRING, ESABI_SIG_I32]"
| "signature M_objectStoreRevision = [ESABI_SIG_I32]"
| "signature M_objectStoreChanges = [ESABI_SIG_I32, ESABI_SIG_STRING, ESABI_SIG_STRING, ESABI_SIG_I32]"
| "signature M_objectStorePrune = [ESABI_SIG_I32, ESABI_SIG_STRING]"
| "signature M_storeDestroy = [ESABI_SIG_STRING]"
| "signature M_storePutNumber = [ESABI_SIG_STRING, ESABI_SIG_STRING, ESABI_SIG_I32, ESABI_SIG_DOUBLE]"
| "signature M_storePutText = [ESABI_SIG_STRING, ESABI_SIG_STRING, ESABI_SIG_I32, ESABI_SIG_STRING]"
| "signature M_storePatch = [ESABI_SIG_STRING, ESABI_SIG_STRING]"
| "signature M_storeGet = [ESABI_SIG_STRING, ESABI_SIG_STRING]"
| "signature M_storeDelete = [ESABI_SIG_STRING, ESABI_SIG_STRING]"
| "signature M_storeExists = [ESABI_SIG_STRING, ESABI_SIG_STRING]"
| "signature M_storeCount = [ESABI_SIG_STRING]"
| "signature M_storeScan = [ESABI_SIG_STRING, ESABI_SIG_STRING, ESABI_SIG_I32]"
| "signature M_storeClear = [ESABI_SIG_STRING]"
| "signature M_storeRevision = [ESABI_SIG_STRING]"
| "signature M_storeRetainedFloor = [ESABI_SIG_STRING]"
| "signature M_storeChanges = [ESABI_SIG_STRING, ESABI_SIG_STRING, ESABI_SIG_I32]"

section \<open>Calling a method\<close>

text \<open>
  The fuel bounds the row loop of a query and the deletion loop of a prune; nothing is returned
  when it runs out. \<open>ve\<close> and \<open>sv\<close> are the texts of the two version functions.
\<close>

fun invoke ::
  "nat \<Rightarrow> byte list \<Rightarrow> byte list \<Rightarrow> ('d, 'z) engine \<Rightarrow> nat \<Rightarrow> call_env \<Rightarrow> 'h host \<Rightarrow> adapter_method \<Rightarrow> 'h list
   \<Rightarrow> ('d, 'z) adapter \<Rightarrow> (result \<times> ('d, 'z) adapter) option" where
  "invoke fuel ve sv E t M H M_ping argv A = Some (ping t H argv A)"
| "invoke fuel ve sv E t M H M_abiVersion argv A = Some (abiVersion t H argv A)"
| "invoke fuel ve sv E t M H M_version argv A = Some (version ve t M H argv A)"
| "invoke fuel ve sv E t M H M_sqliteVersion argv A = Some (sqliteVersion sv t M H argv A)"
| "invoke fuel ve sv E t M H M_stage argv A = Some (stage t M H argv A)"
| "invoke fuel ve sv E t M H M_stageHex argv A = Some (stageHex t M H argv A)"
| "invoke fuel ve sv E t M H M_openStaged argv A = Some (openStaged E t M H argv A)"
| "invoke fuel ve sv E t M H M_close argv A = Some (close1 E t H argv A)"
| "invoke fuel ve sv E t M H M_health argv A = Some (health E t M H argv A)"
| "invoke fuel ve sv E t M H M_lastError argv A = Some (lastError (en_platform E) t M H argv A)"
| "invoke fuel ve sv E t M H M_dataVersion argv A = Some (dataVersion E t H argv A)"
| "invoke fuel ve sv E t M H M_querySql argv A = querySql fuel E t M H argv A"
| "invoke fuel ve sv E t M H M_handleCount argv A = Some (handleCount t H argv A)"
| "invoke fuel ve sv E t M H M_transactionBegin argv A = Some (transactionBegin E t M H argv A)"
| "invoke fuel ve sv E t M H M_transactionCommit argv A = Some (transactionCommit E t H argv A)"
| "invoke fuel ve sv E t M H M_transactionRollback argv A = Some (transactionRollback E t H argv A)"
| "invoke fuel ve sv E t M H M_transactionActive argv A = Some (transactionActive t H argv A)"
| "invoke fuel ve sv E t M H M_objectStoreEnsure argv A = Some (objectStoreEnsure E t M H argv A)"
| "invoke fuel ve sv E t M H M_objectStorePutNumber argv A = Some (objectStorePutNumber E t M H argv A)"
| "invoke fuel ve sv E t M H M_objectStorePutText argv A = Some (objectStorePutText E t M H argv A)"
| "invoke fuel ve sv E t M H M_objectStoreGet argv A = Some (objectStoreGet E t M H argv A)"
| "invoke fuel ve sv E t M H M_objectStoreDelete argv A = Some (objectStoreDelete E t M H argv A)"
| "invoke fuel ve sv E t M H M_objectStoreExists argv A = Some (objectStoreExists E t M H argv A)"
| "invoke fuel ve sv E t M H M_objectStoreCount argv A = Some (objectStoreCount E t M H argv A)"
| "invoke fuel ve sv E t M H M_objectStoreScan argv A = Some (objectStoreScan E t M H argv A)"
| "invoke fuel ve sv E t M H M_objectStoreRevision argv A = Some (objectStoreRevision E t M H argv A)"
| "invoke fuel ve sv E t M H M_objectStoreChanges argv A = Some (objectStoreChanges E t M H argv A)"
| "invoke fuel ve sv E t M H M_objectStorePrune argv A = objectStorePrune fuel E t M H argv A"
| "invoke fuel ve sv E t M H M_storeDestroy argv A = Some (storeDestroy t M H argv A)"
| "invoke fuel ve sv E t M H M_storePutNumber argv A = Some (storePutNumber t M H argv A)"
| "invoke fuel ve sv E t M H M_storePutText argv A = Some (storePutText t M H argv A)"
| "invoke fuel ve sv E t M H M_storePatch argv A = Some (storePatch (en_platform E) t M H argv A)"
| "invoke fuel ve sv E t M H M_storeGet argv A = Some (storeGet t M H argv A)"
| "invoke fuel ve sv E t M H M_storeDelete argv A = Some (storeDelete t M H argv A)"
| "invoke fuel ve sv E t M H M_storeExists argv A = Some (storeExists t M H argv A)"
| "invoke fuel ve sv E t M H M_storeCount argv A = Some (storeCount t M H argv A)"
| "invoke fuel ve sv E t M H M_storeScan argv A = Some (storeScan t M H argv A)"
| "invoke fuel ve sv E t M H M_storeClear argv A = Some (storeClear t M H argv A)"
| "invoke fuel ve sv E t M H M_storeRevision argv A = Some (storeRevision t M H argv A)"
| "invoke fuel ve sv E t M H M_storeRetainedFloor argv A = Some (storeRetainedFloor t M H argv A)"
| "invoke fuel ve sv E t M H M_storeChanges argv A = Some (storeChanges t M H argv A)"

text \<open>One call by one thread, or the host's termination hook.\<close>

inductive adapter_step :: "('d, 'z) engine \<Rightarrow> 'h host \<Rightarrow> ('d, 'z) adapter \<Rightarrow> ('d, 'z) adapter \<Rightarrow> bool"
  for E :: "('d, 'z) engine" and H :: "'h host" where
  step_invoke: "invoke fuel ve sv E t M H f argv A = Some (r, A') \<Longrightarrow> adapter_step E H A A'"
| step_terminate: "adapter_step E H A (esabi_terminate E t A)"

inductive adapter_run :: "('d, 'z) engine \<Rightarrow> 'h host \<Rightarrow> ('d, 'z) adapter \<Rightarrow> ('d, 'z) adapter \<Rightarrow> bool"
  for E :: "('d, 'z) engine" and H :: "'h host" and A where
  run_none: "adapter_run E H A A"
| run_more: "adapter_run E H A A' \<Longrightarrow> adapter_step E H A' A'' \<Longrightarrow> adapter_run E H A A''"

end
