(* ===== verification/Adapter_Calls.thy ===== *)
theory Adapter_Calls
  imports Adapter_Dispatch
begin

text \<open>
  How the methods of the ExternalObject adapter compose. Two contracts are carried through the
  steps a method is made of: what of the adapter's state a call can have changed (a preorder on
  states, closed under the calling thread's own record), and what the call leaves in the
  thread's error record. Each step satisfies them once; a method is the chain of its steps.
\<close>


lemma and_then_assoc: "and_then (and_then m f) k = and_then m (\<lambda>x. and_then (f x) k)"
  by (rule ext) (simp add: and_then_def split: prod.splits sum.splits)

section \<open>What a call changes\<close>

definition bounds ::
  "(('d, 'z) adapter \<Rightarrow> ('d, 'z) adapter \<Rightarrow> bool) \<Rightarrow> (('d, 'z) adapter \<Rightarrow> 'r \<times> ('d, 'z) adapter) \<Rightarrow> bool" where
  "bounds R m \<longleftrightarrow> (\<forall>A. R A (snd (m A)))"

locale call_effect =
  fixes R :: "('d, 'z) adapter \<Rightarrow> ('d, 'z) adapter \<Rightarrow> bool"
    and t :: nat
  assumes unchanged: "R A A"
    and composed: "R A A' \<Longrightarrow> R A' A'' \<Longrightarrow> R A A''"
    and own_thread: "R A (update_thread t f A)"
begin

lemma bounds_and_then:
  assumes "bounds R m" and "\<And>x. bounds R (f x)"
  shows "bounds R (and_then m f)"
  unfolding bounds_def
proof
  fix A
  obtain z A' where m: "m A = (z, A')" by fastforce
  then have "R A A'" using assms(1) by (metis bounds_def snd_conv)
  moreover have "R A' (snd (f x A'))" for x using assms(2) by (simp add: bounds_def)
  ultimately show "R A (snd (and_then m f A))"
    by (cases z) (auto simp: and_then_def m intro: composed)
qed

lemma bounds_reply: "bounds R m \<Longrightarrow> bounds R (reply m)"
  by (auto simp: bounds_def reply_def split: prod.splits sum.splits) (metis snd_conv)+

lemma bounds_steps:
  "bounds R (proceed x)" "bounds R (give_up t fl code msg e)" "bounds R (may_throw t fl oom other thrown)"
  "bounds R (require t fl code msg v)" "bounds R (return_string t M s)" "bounds R (succeed t r)"
  "bounds R (expect t fl msg out)" "bounds R (clear_error_step t)"
  by (auto simp: bounds_def proceed_def give_up_def may_throw_def require_def return_string_def succeed_def
      expect_def clear_error_step_def set_last_error_def clear_last_error_def unchanged own_thread
      split: option.splits outcome.splits)

text \<open>An argument that was accepted is known in what follows.\<close>

lemma bounds_require:
  "(\<And>x. v = Some x \<Longrightarrow> bounds R (k x)) \<Longrightarrow> bounds R (and_then (require t fl code msg v) k)"
  using bounds_steps(2) by (cases v) (auto simp: bounds_def and_then_def require_def proceed_def give_up_def)

lemma bounds_arguments:
  assumes "\<And>given x. raw = Some given \<Longrightarrow> decode given = Some x \<Longrightarrow> bounds R (k x)"
  shows "bounds R (and_then (arguments t fl oom other M usage raw decode) k)"
  unfolding arguments_def and_then_assoc
  by (rule bounds_require, rule bounds_and_then, rule bounds_steps, rule bounds_require, rule assms)

lemma bounds_find_slot:
  assumes "\<And>i g. decode_handle token = Some (i, g) \<Longrightarrow> bounds R (k i)"
  shows "bounds R (and_then (find_slot t fl token) k)"
  unfolding bounds_def
proof
  fix A
  show "R A (snd (and_then (find_slot t fl token) k A))"
  proof (cases "lookup_slot token A")
    case None
    then show ?thesis using bounds_steps(4) [of fl ADAPTER_INVALID_HANDLE STALE None]
      by (simp add: bounds_def and_then_def find_slot_def require_def give_up_def)
  next
    case (Some i)
    then obtain g where "decode_handle token = Some (i, g)"
      by (auto simp: lookup_slot_def Let_def split: option.splits prod.splits if_splits)
    from assms [OF this] Some show ?thesis
      by (simp add: bounds_def and_then_def find_slot_def require_def proceed_def)
  qed
qed

text \<open>The replies methods share.\<close>

lemma bounds_window_failed: "bounds R (window_failed t fl m1 m2 out)"
  unfolding window_failed_def by (rule bounds_steps)

lemma bounds_answers:
  "bounds R (answer_number t M fl other out)" "bounds R (answer_flagged t M fl other flagged)"
  "bounds R (read_reply t fl encode got)" "bounds R (made_value t msg made)"
  "bounds R (query_answer t M totals qx)"
  "bounds R (scan_window t M m1 m2 other scanned)" "bounds R (change_window t M m1 m2 m3 other changed)"
  unfolding answer_number_def answer_flagged_def read_reply_def made_value_def query_answer_def
    scan_window_def change_window_def
  by (auto intro!: bounds_and_then bounds_steps bounds_window_failed split: outcome.splits option.splits prod.splits)

lemma bounds_stage_path: "bounds R (stage_path t path)"
proof -
  have "R A (clear_last_error t (set_staged_path t path A))" for A
    unfolding clear_last_error_def set_staged_path_def by (rule composed [OF own_thread own_thread])
  then show ?thesis by (simp add: bounds_def stage_path_def succeed_def)
qed

end

section \<open>What a call reports\<close>

definition failed :: "nat \<Rightarrow> ('d, 'z) adapter \<Rightarrow> bool" where
  "failed t A \<longleftrightarrow> ae_code (th_last_error (ad_threads A t)) \<noteq> ADAPTER_OK"

text \<open>Ending early sets the failure value and the error; \<open>calm\<close> steps keep a clear record clear.\<close>

definition reports :: "nat \<Rightarrow> result \<Rightarrow> ('d, 'z, 'a) method_step \<Rightarrow> bool" where
  "reports t failure m \<longleftrightarrow> (\<forall>A r A'. m A = (Inl r, A') \<longrightarrow> r = failure \<and> failed t A')"

definition calm :: "nat \<Rightarrow> result \<Rightarrow> ('d, 'z, 'a) method_step \<Rightarrow> bool" where
  "calm t failure m \<longleftrightarrow> reports t failure m \<and>
     (\<forall>A x A'. m A = (Inr x, A') \<longrightarrow> \<not> failed t A \<longrightarrow> \<not> failed t A')"

definition settles :: "nat \<Rightarrow> result \<Rightarrow> ('d, 'z, 'a) method_step \<Rightarrow> bool" where
  "settles t failure m \<longleftrightarrow> reports t failure m \<and> (\<forall>A x A'. m A = (Inr x, A') \<longrightarrow> \<not> failed t A')"

text \<open>What the host sees of a settled method.\<close>

definition verdict :: "nat \<Rightarrow> result \<Rightarrow> result \<times> ('d, 'z) adapter \<Rightarrow> bool" where
  "verdict t failure out \<longleftrightarrow> (if failed t (snd out) then fst out = failure else True)"

lemma failed_set [simp]:
  "failed t (set_last_error t code msg e A) \<longleftrightarrow> code \<noteq> ADAPTER_OK"
  "\<not> failed t (clear_last_error t A)"
  by (simp_all add: failed_def set_last_error_def clear_last_error_def update_thread_def
      make_adapter_error_def no_adapter_error_def)

lemma reports_and_then:
  "reports t fl m \<Longrightarrow> (\<And>x. reports t fl (f x)) \<Longrightarrow> reports t fl (and_then m f)"
  unfolding reports_def and_then_def by (fastforce split: prod.splits sum.splits)

lemma settles_and_then:
  "reports t fl m \<Longrightarrow> (\<And>x. settles t fl (f x)) \<Longrightarrow> settles t fl (and_then m f)"
  unfolding settles_def reports_def and_then_def by (fastforce split: prod.splits sum.splits)

lemma calm_and_then:
  assumes "calm t fl m" and "\<And>x. calm t fl (f x)"
  shows "calm t fl (and_then m f)"
  using reports_and_then [of t fl m f] assms
  unfolding calm_def by (auto simp: and_then_def split: prod.splits sum.splits)

lemma settles_then_calm:
  assumes "settles t fl m" and "\<And>x. calm t fl (f x)"
  shows "settles t fl (and_then m f)"
  using reports_and_then [of t fl m f] assms
  unfolding calm_def settles_def by (auto simp: and_then_def split: prod.splits sum.splits)

lemma settles_reports: "settles t fl m \<Longrightarrow> reports t fl m"
  by (simp add: settles_def)

lemma verdict_reply: "settles t fl m \<Longrightarrow> verdict t fl (reply m A)"
  by (auto simp: settles_def reports_def verdict_def reply_def split: prod.splits sum.splits)

lemma reports_steps:
  "reports t fl (proceed x)" "code \<noteq> ADAPTER_OK \<Longrightarrow> reports t fl (give_up t fl code msg e)"
  "reports t fl (may_throw t fl oom other thrown)"
  "code \<noteq> ADAPTER_OK \<Longrightarrow> reports t fl (require t fl code msg v)"
  "reports t fl (expect t fl msg out)" "reports t fl (find_slot t fl token)" "reports t fl (in_slot i g)"
  "reports t fl (open_database E M path)"
  by (auto simp: reports_def proceed_def give_up_def may_throw_def require_def expect_def find_slot_def in_slot_def
      open_database_def split: option.splits outcome.splits if_splits prod.splits)

lemma reports_arguments: "reports t fl (arguments t fl oom other M usage raw decode)"
  unfolding arguments_def by (intro reports_and_then reports_steps) simp_all

lemma reports_with_store: "reports t fl (with_store t fl M name1 f)"
  by (auto simp: reports_def with_store_def give_up_def split: prod.splits outcome.splits)

lemma calm_steps:
  "calm t fl (proceed x)" "calm t fl (may_throw t fl oom other thrown)" "calm t R_Undefined (return_string t M s)"
  by (auto simp: calm_def reports_def proceed_def give_up_def may_throw_def return_string_def
      split: option.splits if_splits)

lemma settles_steps:
  "settles t fl (succeed t r)" "settles t fl (clear_error_step t)"
  "code \<noteq> ADAPTER_OK \<Longrightarrow> settles t fl (give_up t fl code msg e)"
  "settles t (R_Bool False) (stage_path t path)" "settles t (R_I32 0) (install_database t database)"
  by (auto simp: settles_def reports_def succeed_def clear_error_step_def give_up_def stage_path_def
      install_database_def split: option.splits)

lemma settles_string:
  "settles t R_Undefined (and_then (clear_error_step t) (\<lambda>_.
     and_then (may_throw t R_Undefined oom other thrown) (\<lambda>_. return_string t M s)))"
  by (intro settles_then_calm settles_steps calm_and_then calm_steps)

lemma settles_window_failed: "settles t R_Undefined (window_failed t f m1 m2 out)"
  unfolding window_failed_def by (intro settles_steps) simp

lemma settles_answers:
  "settles t R_Undefined (answer_number t M msg other out)"
  "settles t R_Undefined (answer_flagged t M msg other flagged)"
  "settles t R_Undefined (query_answer t M totals qx)"
  "settles t R_Undefined (scan_window t M m1 m2 other scanned)"
  "settles t R_Undefined (change_window t M m1 m2 m3 other changed)"
  "settles t R_Undefined (read_reply t msg encode got)"
  unfolding answer_number_def answer_flagged_def query_answer_def scan_window_def change_window_def read_reply_def
  by (auto intro!: settles_and_then settles_string settles_steps settles_then_calm [OF settles_steps(2)] calm_steps
      reports_steps settles_window_failed split: outcome.splits option.splits prod.splits)

lemma reports_made_value: "reports t R_Undefined (made_value t msg made)"
  unfolding made_value_def by (auto intro!: reports_steps split: outcome.splits)

end
