(* ===== verification/Adapter_Effects.thy ===== *)
theory Adapter_Effects
  imports Adapter_Calls
begin

text \<open>
  The two contracts of \<open>Adapter_Calls\<close> on every method of the ExternalObject adapter: a method
  touches only the record of its thread and the slot its handle names, keeps every handle as it
  was unless it opens or closes one, and leaves in the thread's error record whether it failed.
\<close>

section \<open>What the error record says\<close>

fun failure_value :: "adapter_method \<Rightarrow> result" where
  "failure_value f =
     (if f \<in> {M_ping, M_abiVersion, M_openStaged, M_handleCount} then R_I32 0
      else if f \<in> {M_stage, M_stageHex, M_close, M_transactionBegin, M_transactionCommit,
        M_transactionRollback, M_transactionActive, M_objectStoreEnsure, M_objectStoreExists,
        M_storeDestroy, M_storeExists} then R_Bool False
      else if f = M_dataVersion then R_Double (- 1)
      else R_Undefined)"

lemmas lifecycle_defs =
  ping_def abiVersion_def version_def sqliteVersion_def version_method_def stage_def stageHex_def
  openStaged_def close1_def handleCount_def health_def lastError_def dataVersion_def
  transactionBegin_def transactionCommit_def transactionRollback_def finish_slot_transaction_def
  transactionActive_def

lemmas object_method_defs =
  objectStoreEnsure_def objectStorePutNumber_def objectStorePutText_def put_on_slot_def objectStoreGet_def
  objectStoreDelete_def objectStoreExists_def objectStoreCount_def objectStoreScan_def
  objectStoreRevision_def objectStoreChanges_def

lemmas memory_method_defs =
  storeDestroy_def storePutNumber_def storePutText_def put_in_store_def storePatch_def storeGet_def
  storeDelete_def storeExists_def storeCount_def storeScan_def storeClear_def storeRevision_def
  storeRetainedFloor_def store_number_def storeChanges_def

lemmas chain_rules =
  verdict_reply settles_and_then reports_arguments reports_with_store reports_made_value
  settles_string settles_answers

lemma settles_read:
  "settles t R_Undefined (and_then (read_reply t msg encode got) (\<lambda>wire.
     and_then (may_throw t R_Undefined oom other thrown) (\<lambda>_. return_string t M wire)))"
  by (intro settles_then_calm settles_answers calm_and_then calm_steps)

text \<open>A step that looks at the state before it goes on.\<close>

definition settled :: "nat \<Rightarrow> result \<Rightarrow> (result + 'a) \<times> ('d, 'z) adapter \<Rightarrow> bool" where
  "settled t fl out \<longleftrightarrow>
     (case out of (Inl r, A) \<Rightarrow> r = fl \<and> failed t A | (Inr x, A) \<Rightarrow> \<not> failed t A)"

lemma settlesI: "(\<And>A. settled t fl (m A)) \<Longrightarrow> settles t fl m"
proof -
  assume each: "\<And>A. settled t fl (m A)"
  show ?thesis
    unfolding settles_def reports_def
  proof (intro conjI allI impI)
    fix A r A'
    assume "m A = (Inl r, A')"
    then show "r = fl" "failed t A'" using each [of A] by (simp_all add: settled_def)
  next
    fix A x A'
    assume "m A = (Inr x, A')"
    then show "\<not> failed t A'" using each [of A] by (simp add: settled_def)
  qed
qed

lemma settledI: "settles t fl m \<Longrightarrow> settled t fl (m A)"
  by (auto simp: settled_def settles_def reports_def split: prod.splits sum.splits)

lemmas settled_steps = settles_steps [THEN settledI]
lemmas settled_and_then = settles_and_then [THEN settledI]

lemmas step_rules = verdict_reply settles_and_then reports_steps reports_arguments reports_with_store
  reports_made_value settles_string settles_answers settles_read settles_steps

text \<open>Methods whose failure value is also an answer, and the opening method.\<close>

lemma answer_verdicts:
  "verdict t (R_I32 0) (openStaged E t M H argv A)" "verdict t (R_I32 0) (handleCount t H argv A)"
  "verdict t (R_Bool False) (transactionActive t H argv A)"
  "verdict t (R_Bool False) (objectStoreExists E t M H argv A)"
  "verdict t (R_Bool False) (storeExists t M H argv A)"
  unfolding openStaged_def handleCount_def transactionActive_def objectStoreExists_def storeExists_def Let_def
  by (rule step_rules settlesI settled_steps settled_and_then allI impI conjI
      | simp split: outcome.split prod.split)+

section \<open>A success is no failure value\<close>

definition never :: "'a \<Rightarrow> ('d, 'z, 'a) method_step \<Rightarrow> bool" where
  "never fl m \<longleftrightarrow> (\<forall>A x A'. m A = (Inr x, A') \<longrightarrow> x \<noteq> fl)"

lemma never_and_then: "(\<And>x. never fl (f x)) \<Longrightarrow> never fl (and_then m f)"
  unfolding never_def and_then_def by (fastforce split: prod.splits sum.splits)

definition unlike :: "'a \<Rightarrow> (result + 'a) \<times> ('d, 'z) adapter \<Rightarrow> bool" where
  "unlike fl out \<longleftrightarrow> (case out of (Inl r, A) \<Rightarrow> True | (Inr x, A) \<Rightarrow> x \<noteq> fl)"

lemma neverI: "(\<And>A. unlike fl (m A)) \<Longrightarrow> never fl m"
proof -
  assume each: "\<And>A. unlike fl (m A)"
  show ?thesis
    unfolding never_def
  proof (intro allI impI)
    fix A x A'
    assume "m A = (Inr x, A')"
    then show "x \<noteq> fl" using each [of A] by (simp add: unlike_def)
  qed
qed

lemma unlikeI: "never fl m \<Longrightarrow> unlike fl (m A)"
  by (auto simp: unlike_def never_def split: prod.splits sum.splits)

lemma never_steps:
  "never R_Undefined (return_string t M s)" "r \<noteq> fl \<Longrightarrow> never fl (succeed t r)"
  "never fl (give_up t fl' code msg e)" "never (R_Bool False) (stage_path t path)"
  by (auto simp: never_def return_string_def succeed_def give_up_def stage_path_def split: if_splits)

lemma never_answers:
  "never R_Undefined (answer_number t M msg other out)"
  "never R_Undefined (answer_flagged t M msg other flagged)"
  "never R_Undefined (query_answer t M totals qx)"
  "never R_Undefined (scan_window t M m1 m2 other scanned)"
  "never R_Undefined (change_window t M m1 m2 m3 other changed)"
  unfolding answer_number_def answer_flagged_def query_answer_def scan_window_def change_window_def window_failed_def
  by (auto intro!: never_and_then never_steps split: outcome.splits option.splits prod.splits)

text \<open>With the error record: failing is answering the failure value.\<close>

definition exact :: "nat \<Rightarrow> result \<Rightarrow> result \<times> ('d, 'z) adapter \<Rightarrow> bool" where
  "exact t fl out \<longleftrightarrow> (failed t (snd out) \<longleftrightarrow> fst out = fl)"

lemma exact_reply: "settles t fl m \<Longrightarrow> never fl m \<Longrightarrow> exact t fl (reply m A)"
  by (auto simp: settles_def reports_def never_def exact_def reply_def split: prod.splits sum.splits)

lemmas unlike_steps = never_steps [THEN unlikeI] never_and_then [THEN unlikeI]

lemma uint_never_negative [simp]: "uint w \<noteq> - 1"
  using uint_ge_0 [of w] by linarith

lemmas exact_rules = exact_reply never_answers never_steps never_and_then settles_string settles_answers
  settles_read settles_steps settles_and_then reports_steps reports_arguments reports_with_store reports_made_value

lemma lifecycle_exact:
  "exact t (R_I32 0) (ping t H argv A)" "exact t (R_I32 0) (abiVersion t H argv A)"
  "exact t R_Undefined (version v t M H argv A)" "exact t R_Undefined (sqliteVersion v t M H argv A)"
  "exact t (R_Bool False) (stage t M H argv A)" "exact t (R_Bool False) (stageHex t M H argv A)"
  "exact t R_Undefined (health E t M H argv A)" "exact t (R_Double (- 1)) (dataVersion E t H argv A)"
  unfolding ping_def abiVersion_def version_def sqliteVersion_def version_method_def stage_def stageHex_def
    health_def dataVersion_def
  by (rule exact_rules | simp)+

lemma table_exact: "exact t (R_Bool False) (close1 E t H argv A)"
  unfolding close1_def
  by (rule exact_rules settlesI settled_steps neverI unlike_steps | simp)+

lemma transaction_exact:
  "exact t (R_Bool False) (transactionBegin E t M H argv A)"
  "exact t (R_Bool False) (transactionCommit E t H argv A)"
  "exact t (R_Bool False) (transactionRollback E t H argv A)"
  unfolding transactionBegin_def transactionCommit_def transactionRollback_def finish_slot_transaction_def
  by (rule exact_rules settlesI settled_steps settled_and_then neverI unlike_steps allI impI conjI
      | simp split: prod.split option.split)+

lemma object_exact:
  "exact t (R_Bool False) (objectStoreEnsure E t M H argv A)"
  "exact t R_Undefined (objectStorePutNumber E t M H argv A)"
  "exact t R_Undefined (objectStorePutText E t M H argv A)"
  "exact t R_Undefined (objectStoreGet E t M H argv A)"
  "exact t R_Undefined (objectStoreDelete E t M H argv A)"
  "exact t R_Undefined (objectStoreCount E t M H argv A)"
  "exact t R_Undefined (objectStoreScan E t M H argv A)"
  "exact t R_Undefined (objectStoreRevision E t M H argv A)"
  "exact t R_Undefined (objectStoreChanges E t M H argv A)"
  unfolding object_method_defs
  by (rule exact_rules allI impI conjI | simp split: prod.split)+

lemma never_read:
  "never R_Undefined (and_then (read_reply t msg encode got) (\<lambda>wire.
     and_then (may_throw t R_Undefined oom other thrown) (\<lambda>_. return_string t M wire)))"
  by (intro never_and_then never_steps)

lemma memory_exact:
  "exact t (R_Bool False) (storeDestroy t M H argv A)" "exact t R_Undefined (storePutNumber t M H argv A)"
  "exact t R_Undefined (storePutText t M H argv A)" "exact t R_Undefined (storePatch P t M H argv A)"
  "exact t R_Undefined (storeGet t M H argv A)" "exact t R_Undefined (storeDelete t M H argv A)"
  "exact t R_Undefined (storeCount t M H argv A)"
  "exact t R_Undefined (storeScan t M H argv A)" "exact t R_Undefined (storeClear t M H argv A)"
  "exact t R_Undefined (storeRevision t M H argv A)" "exact t R_Undefined (storeRetainedFloor t M H argv A)"
  "exact t R_Undefined (storeChanges t M H argv A)"
  unfolding memory_method_defs
  by (rule exact_rules settlesI settled_steps settled_and_then neverI unlike_steps allI impI conjI
      | simp split: prod.split sum.split)+

lemma prune_exact: "objectStorePrune fuel E t M H argv A = Some out \<Longrightarrow> exact t R_Undefined out"
proof -
  let ?first = "and_then (require t R_Undefined ADAPTER_BAD_ARGUMENT
      ''objectStorePrune expects handle and exact revision string''
      (both (handle_arg H argv 2) (parse_revision_decimal (get_string_arg H argv 1))))
      (\<lambda>(handle, through_revision). and_then (find_slot t R_Undefined handle) (\<lambda>i.
        in_slot i (on_connection_of (esdb_object_store_prune_changes fuel (en_sqlite E) through_revision))))"
  have first: "reports t R_Undefined ?first"
    by (rule reports_and_then reports_steps allI impI | simp split: prod.split)+
  assume "objectStorePrune fuel E t M H argv A = Some out"
  then consider r A' where "?first A = (Inl r, A')" "out = (r, A')"
    | r q A' msg other where "?first A = (Inr r, A')" "out = reply (answer_number t M msg other q) A'"
    by (auto simp: objectStorePrune_def split: prod.splits sum.splits)
  then show "exact t R_Undefined out"
  proof cases
    case 1
    then show ?thesis using first unfolding reports_def exact_def by fastforce
  next
    case 2
    then show ?thesis by (simp add: exact_reply settles_answers never_answers)
  qed
qed

lemma query_arguments_reports: "reports t R_Undefined (query_arguments E t M H argv)"
  unfolding query_arguments_def
  by (rule reports_and_then reports_steps allI impI | simp split: prod.split)+

lemma query_exact: "querySql fuel E t M H argv A = Some out \<Longrightarrow> exact t R_Undefined out"
proof -
  assume q: "querySql fuel E t M H argv A = Some out"
  obtain z A1 where first: "query_arguments E t M H argv A = (z, A1)" by fastforce
  show ?thesis
  proof (cases z)
    case (Inl r)
    then show ?thesis
      using q first query_arguments_reports [of t E M H argv] unfolding reports_def exact_def querySql_def by fastforce
  next
    case (Inr given)
    obtain handle sql parameters max_rows where given: "given = (handle, sql, parameters, max_rows)"
      by (cases given)
    obtain z2 A2 where slot: "find_slot t R_Undefined handle A1 = (z2, A2)"
      by fastforce
    show ?thesis
    proof (cases z2)
      case (Inl r)
      then show ?thesis
        using q first slot Inr given reports_steps(6) [of t R_Undefined handle]
        unfolding reports_def exact_def querySql_def by fastforce
    next
      case (Inr i)
      then obtain r context1 A3 where "out = reply (query_answer t M r context1) A3"
        using q first slot \<open>z = Inr given\<close> given by (auto simp: querySql_def split: prod.splits)
      then show ?thesis by (simp add: exact_reply settles_answers never_answers)
    qed
  qed
qed

lemmas exact_methods = lifecycle_exact table_exact transaction_exact object_exact memory_exact query_exact prune_exact

lemma exact_verdict: "exact t fl out \<Longrightarrow> verdict t fl out"
  by (simp add: exact_def verdict_def)

lemma invoke_exact:
  assumes "invoke fuel ve sv E t M H f argv A = Some out"
    and "f \<notin> {M_lastError, M_handleCount, M_transactionActive, M_objectStoreExists, M_storeExists, M_openStaged}"
  shows "exact t (failure_value f) out"
  using assms by (cases f) (auto intro: exact_methods)

lemma invoke_verdict:
  assumes "invoke fuel ve sv E t M H f argv A = Some out" and "f \<noteq> M_lastError"
  shows "verdict t (failure_value f) out"
proof (cases "f \<in> {M_handleCount, M_transactionActive, M_objectStoreExists, M_storeExists, M_openStaged}")
  case True
  then show ?thesis using assms by (auto intro: answer_verdicts)
next
  case False
  then show ?thesis using assms by (intro exact_verdict invoke_exact) auto
qed

section \<open>The table of slots\<close>

text \<open>
  A generation is between 1 and its maximum, a retired slot is at the maximum and closed for
  good, and a slot without a database has no transaction.
\<close>

definition slot_ok :: "'d slot \<Rightarrow> bool" where
  "slot_ok slot \<longleftrightarrow> 0 < sl_generation slot \<and> sl_generation slot \<le> k_generation_max \<and>
     (sl_retired slot \<longrightarrow> sl_generation slot = k_generation_max \<and> sl_database slot = None) \<and>
     (sl_database slot = None \<longrightarrow> sl_transaction slot = None)"

definition table_ok :: "('d, 'z) adapter \<Rightarrow> bool" where
  "table_ok A \<longleftrightarrow> length (ad_slots A) = k_slot_count \<and> (\<forall>slot \<in> set (ad_slots A). slot_ok slot)"

lemma table_ok_new: "table_ok (new_adapter stores zip1)"
  by (simp add: table_ok_def new_adapter_def slot_ok_def new_slot_def)

lemma first_free_Some: "first_free slots = Some i \<Longrightarrow> i < length slots \<and> free_slot (slots ! i)"
  by (auto simp: first_free_def find_Some_iff)

lemma threads_keep_slots [simp]:
  "ad_slots (update_thread t f A) = ad_slots A" "ad_slots (set_last_error t code msg e A) = ad_slots A"
  "ad_slots (clear_last_error t A) = ad_slots A" "ad_slots (set_staged_path t path A) = ad_slots A"
  by (simp_all add: update_thread_def set_last_error_def clear_last_error_def set_staged_path_def)

text \<open>An open either changes no slot or takes the first free one.\<close>

lemma openStaged_cases:
  assumes "openStaged E t M H argv A = (r, A')"
  obtains "r = R_I32 0" and "failed t A'" and "ad_slots A' = ad_slots A"
  | i database where "first_free (ad_slots A) = Some i" and "\<not> failed t A'"
      and "r = R_I32 (encode_handle i (sl_generation (ad_slots A ! i)))"
      and "ad_slots A' = (ad_slots A)[i := (ad_slots A ! i)\<lparr>sl_database := Some database\<rparr>]"
  using assms
  by (auto simp: openStaged_def reply_def and_then_def require_def give_up_def proceed_def may_throw_def
      open_database_def install_database_def succeed_def update_slot_def Let_def
      split: option.splits if_splits prod.splits outcome.splits)

end
