(* ===== verification/Adapter_Handles.thy ===== *)
theory Adapter_Handles
  imports Adapter_Slots
begin

text \<open>
  The handles of the ExternalObject adapter (\<open>encode_handle\<close> and \<open>decode_handle\<close>): slot numbers and
  generations on one side, positive 32-bit tokens on the other, each the inverse of the other.
\<close>

lemma handle_bits:
  assumes "i < k_slot_count" and "g \<le> k_generation_max"
  shows "uint (push_bit k_slot_bits g OR (of_nat i + 1) :: u32) = 256 * uint g + int i + 1"
    and "uint g \<le> 8388607"
proof -
  let ?low = "of_nat i + 1 :: u32"
  show g: "uint g \<le> 8388607" using assms(2) by (simp add: word_le_def)
  have low: "uint ?low = int i + 1"
    using assms(1) by (simp add: uint_word_ariths unsigned_of_nat take_bit_nat_eq_self mod_pos_pos_trivial)
  have high: "uint (push_bit k_slot_bits g) = 256 * uint g"
    using g uint_ge_0 [of g] by (simp add: push_bit_eq_mult uint_word_ariths mod_pos_pos_trivial)
  have "push_bit k_slot_bits g AND ?low = 0"
  proof (rule bit_word_eqI)
    fix n assume n: "n < LENGTH(32)"
    have "take_bit 8 (uint ?low) = uint ?low"
      using low assms(1) by (intro take_bit_int_eq_self) simp_all
    then have "bit (uint ?low) n \<Longrightarrow> n < 8" by (metis bit_take_bit_iff)
    then have "bit ?low n \<Longrightarrow> n < 8" using n by (simp add: bit_uint_iff)
    then show "bit (push_bit k_slot_bits g AND ?low) n = bit (0 :: u32) n"
      by (auto simp: bit_and_iff bit_push_bit_iff)
  qed
  then have "push_bit k_slot_bits g OR ?low = push_bit k_slot_bits g + ?low"
    by (rule disjunctive_add_eq_or [symmetric])
  then show "uint (push_bit k_slot_bits g OR ?low) = 256 * uint g + int i + 1"
    using g assms(1) high low uint_add_lem [of "push_bit k_slot_bits g" ?low] by simp
qed

lemma encode_handle_value:
  assumes "i < k_slot_count" and "g \<le> k_generation_max"
  shows "encode_handle i g = 256 * uint g + int i + 1"
    and "encode_handle i g < 2 ^ 31"
proof -
  let ?w = "push_bit k_slot_bits g OR (of_nat i + 1) :: u32"
  note u = handle_bits [OF assms]
  have small: "uint ?w < 2 ^ 31" using u assms(1) uint_ge_0 [of g] by simp
  then have "sint ?w = uint ?w" 
    using order_trans [OF _ uint_ge_0 [of ?w], of "- (2 ^ 31)"] unfolding sint_uint
    by (intro signed_take_bit_int_eq_self) simp_all
  then show "encode_handle i g = 256 * uint g + int i + 1" using u(1) by (simp add: encode_handle_def)
  with small u(1) show "encode_handle i g < 2 ^ 31" by simp
qed

lemma raw_fields:
  assumes "0 < token" and "token < 2 ^ 31"
  shows "uint ((of_int token :: u32) AND 0xff) = token mod 256"
    and "uint (drop_bit k_slot_bits (of_int token :: u32)) = token div 256"
proof -
  have u: "uint (of_int token :: u32) = token"
    using assms by (simp add: uint_word_of_int_eq take_bit_int_eq_self)
  have "k AND 255 = k mod 256" for k :: int
    using take_bit_eq_mask [of 8 k] by (simp add: take_bit_eq_mod mask_eq_exp_minus_1)
  then show "uint ((of_int token :: u32) AND 0xff) = token mod 256"
    using u by (simp add: uint_and)
  show "uint (drop_bit k_slot_bits (of_int token :: u32)) = token div 256"
    using assms unfolding unsigned_drop_bit_eq u by (simp add: drop_bit_eq_div take_bit_int_eq_self)
qed

lemma decode_handle_iff:
  assumes "token < 2 ^ 31"
  shows "decode_handle token = Some (i, g) \<longleftrightarrow>
     i < k_slot_count \<and> 0 < g \<and> g \<le> k_generation_max \<and> token = 256 * uint g + int i + 1"
proof (cases "0 < token")
  case False
  then have "token \<noteq> 256 * uint g + int i + 1" using uint_ge_0 [of g] by linarith
  with False show ?thesis by (simp add: decode_handle_def)
next
  case True
  let ?low = "(of_int token :: u32) AND 0xff" and ?high = "drop_bit k_slot_bits (of_int token :: u32)"
  note f = raw_fields [OF True assms]
  have low_zero: "?low = 0 \<longleftrightarrow> token mod 256 = 0"
    using f(1) by (metis uint_0_iff)
  have low_max: "of_nat k_slot_count < ?low \<longleftrightarrow> False"
    using f(1) by (simp only: word_less_def) simp
  have high: "?high = g \<longleftrightarrow> token div 256 = uint g" for g
    using f(2) by (metis word_uint_eq_iff)
  have index: "unat (?low - 1) = nat (token mod 256) - 1" if "token mod 256 \<noteq> 0"
  proof -
    have "?low \<noteq> 0" using that low_zero by simp
    then have "unat (?low - 1) = unat ?low - 1" by (rule unat_minus_one)
    then show ?thesis using f(1) by (simp only: unat_eq_nat_uint)
  qed
  show ?thesis
  proof
    assume "decode_handle token = Some (i, g)"
    then have d: "?low \<noteq> 0" "?high \<noteq> 0" "\<not> k_generation_max < ?high" "i = unat (?low - 1)" "g = ?high"
      using True by (auto simp: decode_handle_def Let_def split: if_splits)
    then have m: "token mod 256 \<noteq> 0" using low_zero by simp
    have "token = 256 * (token div 256) + token mod 256" by simp
    moreover have "uint g = token div 256" using d(5) f(2) by simp
    moreover have "int i = token mod 256 - 1" "i < k_slot_count"
      using d(4) index [OF m] m pos_mod_bound [of 256 token] pos_mod_sign [of 256 token] by linarith+
    ultimately show "i < k_slot_count \<and> 0 < g \<and> g \<le> k_generation_max \<and> token = 256 * uint g + int i + 1"
      using d(2,3,5) by (simp add: word_gt_0 not_less)
  next
    assume a: "i < k_slot_count \<and> 0 < g \<and> g \<le> k_generation_max \<and> token = 256 * uint g + int i + 1"
    then have "token = (int i + 1) + uint g * 256" and i: "0 \<le> int i + 1" "int i + 1 < 256" by simp_all
    then have dm: "token mod 256 = int i + 1" "token div 256 = uint g"
      by (simp_all only: mod_mult_self1 div_mult_self1) simp_all
    then have "?high = g" using high by simp
    moreover have "?low \<noteq> 0" using low_zero dm i by simp
    moreover have "unat (?low - 1) = i" using index dm i by simp
    moreover have "\<not> token \<le> 0" "g \<noteq> 0" "\<not> k_generation_max < g"
      using True a by (simp_all only: not_le not_less word_gt_0) simp_all
    ultimately show "decode_handle token = Some (i, g)"
      unfolding decode_handle_def Let_def by (simp only: low_max if_False simp_thms)
  qed
qed

lemma decode_encode_handle:
  assumes "i < k_slot_count" and "0 < g" and "g \<le> k_generation_max"
  shows "decode_handle (encode_handle i g) = Some (i, g)"
  using assms encode_handle_value [OF assms(1,3)] by (simp add: decode_handle_iff)

lemma encode_handle_positive:
  assumes "i < k_slot_count" and "g \<le> k_generation_max"
  shows "0 < encode_handle i g"
  using encode_handle_value(1) [OF assms] uint_ge_0 [of g] by simp

text \<open>
  Handles are a bijection: a token a host can hold (a 32-bit integer) names a slot and a
  generation exactly when it is the handle of that pair, so two open databases never share a
  handle and no other number is accepted for one.
\<close>

theorem handles_are_exact:
  assumes "token < 2 ^ 31"
  shows "decode_handle token = Some (i, g) \<longleftrightarrow>
     i < k_slot_count \<and> 0 < g \<and> g \<le> k_generation_max \<and> encode_handle i g = token"
  using decode_handle_iff [OF assms] encode_handle_value(1) [of i g] by auto

theorem handles_are_exact_witness:
  "decode_handle 2147483647 = Some (254, 8388607) \<and> encode_handle 254 8388607 = 2147483647"
  using handles_are_exact [of 2147483647 254 8388607] encode_handle_value(1) [of 254 8388607] by simp

end
