(* ===== verification/Adapter_Inside.thy ===== *)
theory Adapter_Inside
  imports Adapter_Effects Adapter_Handles
begin

text \<open>
  Which part of the adapter's state each method can touch: the record of its own thread, and of
  the table only the slot its first argument names. Every method except the two that open and
  close leaves the life of every slot as it was, so no handle appears or disappears.
\<close>

section \<open>A call stays inside its slot\<close>

text \<open>A slot keeps its life: it is neither opened nor closed, and without a database it is not touched.\<close>

definition same_life :: "'d slot \<Rightarrow> 'd slot \<Rightarrow> bool" where
  "same_life slot slot' \<longleftrightarrow> sl_generation slot' = sl_generation slot \<and> sl_retired slot' = sl_retired slot \<and>
     (sl_database slot' = None \<longleftrightarrow> sl_database slot = None) \<and> (sl_database slot = None \<longrightarrow> slot' = slot)"

definition inside :: "nat \<Rightarrow> nat set \<Rightarrow> ('d, 'z) adapter \<Rightarrow> ('d, 'z) adapter \<Rightarrow> bool" where
  "inside t S A A' \<longleftrightarrow>
     (\<forall>t'. t' \<noteq> t \<longrightarrow> ad_threads A' t' = ad_threads A t') \<and>
     length (ad_slots A') = length (ad_slots A) \<and>
     (\<forall>j < length (ad_slots A). same_life (ad_slots A ! j) (ad_slots A' ! j) \<and>
        (j \<notin> S \<longrightarrow> ad_slots A' ! j = ad_slots A ! j))"

lemma same_life_refl [simp]: "same_life slot slot"
  by (simp add: same_life_def)

lemma same_life_trans: "same_life a b \<Longrightarrow> same_life b c \<Longrightarrow> same_life a c"
  by (simp add: same_life_def)

lemma inside_refl [simp]: "inside t S A A"
  by (simp add: inside_def)

lemma inside_trans: "inside t S A A' \<Longrightarrow> inside t S A' A'' \<Longrightarrow> inside t S A A''"
  by (auto simp: inside_def intro: same_life_trans)

lemma inside_thread [simp]: "inside t S A (update_thread t f A)"
  by (simp add: inside_def update_thread_def)

interpretation inside: call_effect "inside t S" t for t S
  by unfold_locales (auto intro: inside_trans)

lemma inside_slots:
  "ad_slots A' = ad_slots A \<Longrightarrow> ad_threads A' = ad_threads A \<Longrightarrow> inside t S A A'"
  by (simp add: inside_def)

lemma inside_update_slot:
  "i \<in> S \<Longrightarrow> (\<And>slot. same_life slot (f slot)) \<Longrightarrow> inside t S A (update_slot i f A)"
  by (cases "i < length (ad_slots A)") (auto simp: inside_def update_slot_def nth_list_update)

text \<open>Library calls neither make nor take away the session they work on.\<close>

definition keeps_session :: "('d session option \<Rightarrow> 'r \<times> 'd session option) \<Rightarrow> bool" where
  "keeps_session f \<longleftrightarrow> (\<forall>database. snd (f database) = None \<longleftrightarrow> database = None)"

lemma in_slot_inside:
  assumes "i \<in> S" and "keeps_session f"
  shows "bounds (inside t S) (in_slot i f)"
  unfolding bounds_def
proof
  fix A
  have "same_life slot (slot\<lparr>sl_database := snd (f (sl_database slot))\<rparr>)" for slot
    using assms(2) by (auto simp: same_life_def keeps_session_def)
  moreover have "snd (in_slot i f A) = update_slot i (\<lambda>slot. slot\<lparr>sl_database := snd (f (sl_database slot))\<rparr>) A"
    by (simp add: in_slot_def update_slot_def split: prod.split)
  ultimately show "inside t S A (snd (in_slot i f A))"
    by (simp add: inside_update_slot [OF assms(1)])
qed

lemma on_session_keeps: "keeps_session (on_session r m)"
  by (auto simp: keeps_session_def on_session_def split: option.splits prod.splits)

lemma on_connection_keeps: "keeps_session (on_connection_of f)"
  by (auto simp: keeps_session_def on_connection_of_def split: option.splits prod.splits)

lemma transaction_keeps:
  "keeps_session (\<lambda>database. (if is_commit then esdb_commit else esdb_rollback) E (map_option (\<lambda>s. (s, object)) database))"
  by (auto simp: keeps_session_def esdb_commit_def esdb_rollback_def transaction_call_def split: option.splits prod.splits)

lemma library_keeps:
  "keeps_session (esdb_database_health_get E n)" "keeps_session (esdb_data_version_get E b)"
  "keeps_session (esdb_begin E object mode b)"
  unfolding esdb_database_health_get_def esdb_data_version_get_def esdb_begin_def by (rule on_session_keeps)+

lemma with_store_inside: "bounds (inside t S) (with_store t fl M name1 f)"
  unfolding bounds_def
proof
  fix A
  have "inside t S A (set_last_error t code msg e (A\<lparr>ad_stores := w\<rparr>))" for code msg e w
    unfolding set_last_error_def by (rule inside_trans [OF inside_slots inside_thread]) simp_all
  moreover have "inside t S A (A\<lparr>ad_stores := w\<rparr>)" for w
    by (rule inside_slots) simp_all
  ultimately show "inside t S A (snd (with_store t fl M name1 f A))"
    by (auto simp: with_store_def give_up_def split: prod.split outcome.split)
qed

text \<open>The slot the first argument names.\<close>

definition named_slots :: "'h host \<Rightarrow> 'h list \<Rightarrow> nat set" where
  "named_slots H argv = {i. \<exists>token g. h_i32 H argv 0 = Some token \<and> decode_handle token = Some (i, g)}"

lemma both_Some [simp]: "both x y = Some z \<longleftrightarrow> x = Some (fst z) \<and> y = Some (snd z)"
  by (cases z) (auto simp: both_def split: option.splits)

lemma handle_arg_Some: "handle_arg H argv n = Some token \<Longrightarrow> h_i32 H argv 0 = Some token"
  by (auto simp: handle_arg_def positive_def get_i32_arg_def split: if_splits option.splits)

lemma get_handle_Some: "get_handle H argv = Some token \<Longrightarrow> h_i32 H argv 0 = Some token"
  by (auto simp: get_handle_def positive_def split: if_splits option.splits)

lemma named_slotsI:
  assumes "decode_handle token = Some (i, g)"
  shows "h_i32 H argv 0 = Some token \<Longrightarrow> i \<in> named_slots H argv"
    and "get_handle H argv = Some token \<Longrightarrow> i \<in> named_slots H argv"
    and "handle_arg H argv n = Some token \<Longrightarrow> i \<in> named_slots H argv"
    and "store_args H argv n = Some given \<Longrightarrow> decode_store_args given = Some (token, x) \<Longrightarrow> i \<in> named_slots H argv"
    and "store_key_args H argv n = Some given1 \<Longrightarrow> decode_args given1 = Some (token, y) \<Longrightarrow> i \<in> named_slots H argv"
  using assms
  by (auto simp: named_slots_def store_args_def store_key_args_def decode_store_args_def decode_args_def
      dest: handle_arg_Some get_handle_Some)

lemmas chain = inside.bounds_reply inside.bounds_require inside.bounds_arguments inside.bounds_find_slot
  inside.bounds_and_then inside.bounds_steps inside.bounds_answers inside.bounds_stage_path
  in_slot_inside on_connection_keeps transaction_keeps library_keeps with_store_inside

lemma quiet_methods:
  "bounds (inside t S) (ping t H argv)" "bounds (inside t S) (abiVersion t H argv)"
  "bounds (inside t S) (version v t M H argv)" "bounds (inside t S) (sqliteVersion v t M H argv)"
  "bounds (inside t S) (stage t M H argv)" "bounds (inside t S) (stageHex t M H argv)"
  unfolding ping_def abiVersion_def version_def sqliteVersion_def version_method_def stage_def stageHex_def
  by (rule chain)+

lemma slot_methods:
  "bounds (inside t (named_slots H argv)) (health E t M H argv)"
  "bounds (inside t (named_slots H argv)) (dataVersion E t H argv)"
  "bounds (inside t (named_slots H argv)) (objectStoreEnsure E t M H argv)"
  "bounds (inside t (named_slots H argv)) (objectStoreGet E t M H argv)"
  "bounds (inside t (named_slots H argv)) (objectStoreDelete E t M H argv)"
  "bounds (inside t (named_slots H argv)) (objectStoreExists E t M H argv)"
  "bounds (inside t (named_slots H argv)) (objectStoreCount E t M H argv)"
  "bounds (inside t (named_slots H argv)) (objectStoreRevision E t M H argv)"
  unfolding health_def dataVersion_def object_method_defs
  by (rule chain impI allI | erule named_slotsI; assumption | simp split: prod.split)+

text \<open>Methods with more arguments decode the handle together with the rest.\<close>

lemma put_on_slot_inside:
  assumes "\<And>i g. decode_handle token = Some (i, g) \<Longrightarrow> i \<in> S"
  shows "bounds (inside t S) (put_on_slot E t M oom other token store_name key v)"
  unfolding put_on_slot_def by (rule chain | erule assms)+

lemmas argument_defs = store_args_def store_key_args_def decode_store_args_def decode_args_def

lemma object_put_methods:
  "bounds (inside t (named_slots H argv)) (objectStorePutNumber E t M H argv)"
  "bounds (inside t (named_slots H argv)) (objectStorePutText E t M H argv)"
  unfolding objectStorePutNumber_def objectStorePutText_def
  by (rule chain put_on_slot_inside impI allI | simp (no_asm) split: prod.split
      | erule named_slotsI(1) | fastforce simp: argument_defs dest: handle_arg_Some)+

lemma object_window_methods:
  "bounds (inside t (named_slots H argv)) (objectStoreScan E t M H argv)"
  "bounds (inside t (named_slots H argv)) (objectStoreChanges E t M H argv)"
  unfolding objectStoreScan_def objectStoreChanges_def
  by (rule chain impI allI | simp (no_asm) split: prod.split
      | erule named_slotsI(1) | fastforce simp: argument_defs dest: handle_arg_Some)+

lemma memory_methods:
  "bounds (inside t S) (storePutNumber t M H argv)"
  "bounds (inside t S) (storePutText t M H argv)" "bounds (inside t S) (storePatch P t M H argv)"
  "bounds (inside t S) (storeGet t M H argv)" "bounds (inside t S) (storeDelete t M H argv)"
  "bounds (inside t S) (storeExists t M H argv)" "bounds (inside t S) (storeCount t M H argv)"
  "bounds (inside t S) (storeScan t M H argv)" "bounds (inside t S) (storeClear t M H argv)"
  "bounds (inside t S) (storeRevision t M H argv)" "bounds (inside t S) (storeRetainedFloor t M H argv)"
  "bounds (inside t S) (storeChanges t M H argv)"
  unfolding memory_method_defs
  by (rule chain impI allI conjI | simp split: prod.split sum.split)+

lemma bounds_at: "(\<And>A. inside t S A (snd (m A))) \<Longrightarrow> bounds (inside t S) m"
  by (simp add: bounds_def)

lemma insideI: "bounds (inside t S) m \<Longrightarrow> inside t S A (snd (m A))"
  by (simp add: bounds_def)

lemma inside_stores: "bounds (inside t S) m \<Longrightarrow> inside t S A (snd (m (A\<lparr>ad_stores := w\<rparr>)))"
  by (rule inside_trans [OF inside_slots insideI]) simp_all

lemma store_destroy_method: "bounds (inside t S) (storeDestroy t M H argv)"
  unfolding storeDestroy_def
  by (intro inside.bounds_reply inside.bounds_arguments bounds_at)
    (auto intro!: inside_stores inside.bounds_and_then inside.bounds_steps split: prod.split)

lemma succeed_inside: "inside t S A A' \<Longrightarrow> inside t S A (snd (succeed t r A'))"
  unfolding succeed_def clear_last_error_def by (auto intro: inside_trans [OF _ inside_thread])

lemma give_up_inside: "inside t S A A' \<Longrightarrow> inside t S A (snd (give_up t fl code msg e A'))"
  unfolding give_up_def set_last_error_def by (auto intro: inside_trans [OF _ inside_thread])

lemma drop_transaction_life [simp]: "same_life slot (drop_transaction E slot)"
  by (cases slot) (auto simp: same_life_def drop_transaction_def esdb_transaction_destroy_def split: option.splits)

lemma reap_transaction_life [simp]: "same_life slot (reap_transaction E slot)"
  by (simp add: reap_transaction_def)

lemma answering_methods:
  "bounds (inside t S) (handleCount t H argv)" "bounds (inside t S) (transactionActive t H argv)"
  "bounds (inside t S) (lastError P t M H argv)"
proof -
  show "bounds (inside t S) (handleCount t H argv)" "bounds (inside t S) (transactionActive t H argv)"
    unfolding handleCount_def transactionActive_def
    by (rule chain bounds_at succeed_inside inside_refl)+
  show "bounds (inside t S) (lastError P t M H argv)"
    unfolding lastError_def
    by (intro inside.bounds_reply inside.bounds_require inside.bounds_and_then inside.bounds_steps bounds_at
        insideI [OF inside.bounds_steps(5)])
qed

lemma finish_methods:
  "bounds (inside t (named_slots H argv)) (transactionCommit E t H argv)"
  "bounds (inside t (named_slots H argv)) (transactionRollback E t H argv)"
proof -
  have "bounds (inside t (named_slots H argv)) (finish_slot_transaction E is_commit usage msg t H argv)" for is_commit usage msg
    unfolding finish_slot_transaction_def
  proof (rule inside.bounds_reply, rule inside.bounds_require, rule inside.bounds_find_slot, rule bounds_at)
    fix token i g A
    assume a: "get_handle H argv = Some token" "decode_handle token = Some (i, g)"
    then have i: "i \<in> named_slots H argv" by (simp add: named_slotsI)
    have body: "bounds (inside t (named_slots H argv)) (and_then (in_slot i (\<lambda>database.
          (if is_commit then esdb_commit else esdb_rollback) (en_sqlite E) (map_option (\<lambda>s. (s, object)) database))) (\<lambda>r.
        and_then (expect t (R_Bool False) msg r) (\<lambda>_ A.
        succeed t (R_Bool True) (update_slot i (drop_transaction (en_sqlite E)) A))))" for object
      by (rule chain i bounds_at succeed_inside inside_update_slot drop_transaction_life)+
    show "inside t (named_slots H argv) A (snd (case sl_transaction (ad_slots A ! i) of
          None \<Rightarrow> give_up t (R_Bool False) ADAPTER_DATABASE_ERROR ''no transaction is active for this handle'' None A
        | Some object \<Rightarrow> and_then (in_slot i (\<lambda>database.
            (if is_commit then esdb_commit else esdb_rollback) (en_sqlite E) (map_option (\<lambda>s. (s, object)) database))) (\<lambda>r.
          and_then (expect t (R_Bool False) msg r) (\<lambda>_ A.
          succeed t (R_Bool True) (update_slot i (drop_transaction (en_sqlite E)) A))) A))"
      by (cases "sl_transaction (ad_slots A ! i)")
        (simp_all only: option.case give_up_inside inside_refl insideI [OF body])
  qed
  then show "bounds (inside t (named_slots H argv)) (transactionCommit E t H argv)"
    "bounds (inside t (named_slots H argv)) (transactionRollback E t H argv)"
    by (simp_all add: transactionCommit_def transactionRollback_def)
qed

lemma lookup_slot_Some:
  assumes "lookup_slot token A = Some i"
  shows "\<exists>g. decode_handle token = Some (i, g) \<and> sl_generation (ad_slots A ! i) = g"
    and "sl_database (ad_slots A ! i) \<noteq> None" and "\<not> sl_retired (ad_slots A ! i)"
  using assms by (auto simp: lookup_slot_def Let_def split: option.splits prod.splits if_splits)

text \<open>Only a begin writes a transaction into a slot, and the slot it found has a database.\<close>

lemma begin_on_slot:
  assumes "sl_database (ad_slots A ! i) \<noteq> None" and "i \<in> S"
  shows "inside t S A (snd (and_then (in_slot i (esdb_begin E object mode True)) (\<lambda>r.
    and_then (expect t fl msg r) (\<lambda>object A. succeed t v (set_transaction i (Some object) A))) A))"
proof -
  obtain r database where begun: "esdb_begin E object mode True (sl_database (ad_slots A ! i)) = (r, database)"
    by fastforce
  let ?A1 = "update_slot i (\<lambda>slot. slot\<lparr>sl_database := database\<rparr>) A"
  have database: "database \<noteq> None"
    using library_keeps(3) [of E object mode True] begun assms(1) unfolding keeps_session_def by (metis snd_conv)
  have "inside t S A (snd (in_slot i (esdb_begin E object mode True) A))"
    by (rule insideI [OF in_slot_inside [OF assms(2) library_keeps(3)]])
  then have A1: "inside t S A ?A1" using begun by (simp add: in_slot_def)
  have "inside t S A (set_transaction i x ?A1)" for x
    using database assms
    by (cases "i < length (ad_slots A)")
      (auto simp: inside_def set_transaction_def update_slot_def same_life_def nth_list_update)
  then show ?thesis
    using A1 begun by (cases r)
      (auto simp: and_then_def in_slot_def expect_def proceed_def give_up_def set_last_error_def
        intro: succeed_inside inside_trans [OF _ inside_thread])
qed

lemma begin_method: "bounds (inside t (named_slots H argv)) (transactionBegin E t M H argv)"
proof -
  have "inside t (named_slots H argv) A (snd (and_then (find_slot t (R_Bool False) token) (\<lambda>i A.
        if sl_transaction (ad_slots A ! i) \<noteq> None
        then give_up t (R_Bool False) ADAPTER_DATABASE_ERROR ''a transaction is already active for this handle'' None A
        else and_then (in_slot i (esdb_begin (en_sqlite E) (ce_object M) (of_int mode) True)) (\<lambda>r.
         and_then (expect t (R_Bool False) ''ESDB failed to begin transaction'' r) (\<lambda>object A.
         succeed t (R_Bool True) (set_transaction i (Some object) A))) A) A))"
    if "h_i32 H argv 0 = Some token" for token mode A
  proof (cases "lookup_slot token A")
    case None
    then show ?thesis by (simp add: and_then_def find_slot_def require_def give_up_inside split: prod.split)
      (simp add: give_up_def set_last_error_def)
  next
    case (Some i)
    then have "i \<in> named_slots H argv" "sl_database (ad_slots A ! i) \<noteq> None"
      using that lookup_slot_Some [OF Some] by (auto simp: named_slots_def)
    with Some show ?thesis
      by (simp add: and_then_def [of "find_slot t (R_Bool False) token"] find_slot_def require_def proceed_def
          give_up_inside begin_on_slot)
  qed
  then show ?thesis
    unfolding transactionBegin_def
    by (intro inside.bounds_reply inside.bounds_require bounds_at)
      (auto simp: positive_def get_i32_arg_def split: prod.splits if_splits option.splits)
qed

lemma prune_method:
  assumes "objectStorePrune fuel E t M H argv A = Some out"
  shows "inside t (named_slots H argv) A (snd out)"
proof -
  let ?first = "and_then (require t R_Undefined ADAPTER_BAD_ARGUMENT
      ''objectStorePrune expects handle and exact revision string''
      (both (handle_arg H argv 2) (parse_revision_decimal (get_string_arg H argv 1))))
      (\<lambda>(handle, through_revision). and_then (find_slot t R_Undefined handle) (\<lambda>i.
        in_slot i (on_connection_of (esdb_object_store_prune_changes fuel (en_sqlite E) through_revision))))"
  have first: "bounds (inside t (named_slots H argv)) ?first"
    by (rule chain impI allI | simp (no_asm) split: prod.split
      | erule named_slotsI(1) | fastforce dest: handle_arg_Some)+
  have second: "bounds (inside t (named_slots H argv)) (reply (answer_number t M msg other q))" for msg other q
    by (rule chain)+
  obtain z A1 where z: "?first A = (z, A1)" by fastforce
  then have A1: "inside t (named_slots H argv) A A1" using insideI [OF first, of A] by simp
  from assms z consider r where "out = (r, A1)" | q msg other where "out = reply (answer_number t M msg other q) A1"
    by (cases z) (auto simp: objectStorePrune_def split: prod.splits sum.splits)
  then show ?thesis using A1 by cases (auto intro: inside_trans insideI [OF second])
qed

lemma metadata_keeps: "snd (metadata_columns E sql database) = None \<longleftrightarrow> database = None"
  by (simp add: metadata_columns_def Let_def split: option.split prod.split)

lemma query_keeps:
  "snd (fst (esdb_query fuel E Q M thrown sql parameters n callback user database)) = None \<longleftrightarrow> database = None"
proof (cases database)
  case None
  then show ?thesis by (simp add: esdb_query_def)
next
  case (Some s)
  then show ?thesis
    unfolding esdb_query_def Let_def by (simp split: prod.split outcome.split)
qed

lemma query_on_slot_inside:
  assumes "i \<in> S" and "query_on_slot fuel E M i sql parameters max_rows A = (out, A')"
  shows "inside t S A A'"
proof -
  have "\<exists>database. A' = update_slot i (reap_transaction (en_sqlite E))
          (update_slot i (\<lambda>slot. slot\<lparr>sl_database := database\<rparr>) A)
      \<and> (database = None \<longleftrightarrow> sl_database (ad_slots A ! i) = None)"
  proof -
    let ?db = "sl_database (ad_slots A ! i)"
    obtain columns database1 where meta: "metadata_columns E (chars sql) ?db = (columns, database1)" by fastforce
    obtain r database2 context2 where run: "esdb_query fuel (en_sqlite E) (en_query E) (ce_query M) (ce_query_exn M)
        (Some sql) (if parameters = [] then None else Some (map Some parameters)) (of_nat (length parameters))
        (Some (append_query_row_wire (ce_grows M)))
        (prime_query_column_names columns (new_query_context max_rows)) database1 = ((r, database2), context2)"
      by (metis prod.exhaust)
    have "database1 = None \<longleftrightarrow> ?db = None" using metadata_keeps [of E "chars sql" ?db] meta by simp
    moreover have "database2 = None \<longleftrightarrow> database1 = None" using query_keeps run by (metis fst_conv snd_conv)
    ultimately have "database2 = None \<longleftrightarrow> ?db = None" by simp
    moreover have "A' = update_slot i (reap_transaction (en_sqlite E))
          (update_slot i (\<lambda>slot. slot\<lparr>sl_database := database2\<rparr>) A)"
      using assms(2) unfolding query_on_slot_def meta Let_def prod.case run prod.inject by simp
    ultimately show ?thesis by (intro exI [of _ database2] conjI)
  qed
  then obtain database where both_facts: "A' = update_slot i (reap_transaction (en_sqlite E))
      (update_slot i (\<lambda>slot. slot\<lparr>sl_database := database\<rparr>) A)
      \<and> (database = None \<longleftrightarrow> sl_database (ad_slots A ! i) = None)" by (rule exE)
  note A' = conjunct1 [OF both_facts] and none = conjunct2 [OF both_facts]
  have "inside t S A (update_slot i (\<lambda>slot. slot\<lparr>sl_database := database\<rparr>) A)"
    using none assms(1)
    by (cases "i < length (ad_slots A)") (auto simp: inside_def update_slot_def same_life_def nth_list_update)
  then show ?thesis
    unfolding A' by (rule inside_trans) (simp add: inside_update_slot assms(1))
qed

lemma query_arguments_inside: "bounds (inside t S) (query_arguments E t M H argv)"
  unfolding query_arguments_def
  by (rule inside.bounds_and_then inside.bounds_steps impI allI | simp (no_asm) split: prod.split)+

text \<open>What a chain of steps hands on when it goes through.\<close>

definition yields :: "('a \<Rightarrow> bool) \<Rightarrow> ('d, 'z, 'a) method_step \<Rightarrow> bool" where
  "yields Q m \<longleftrightarrow> (\<forall>A x A'. m A = (Inr x, A') \<longrightarrow> Q x)"

lemma yields_and_then: "(\<And>x. yields Q (f x)) \<Longrightarrow> yields Q (and_then m f)"
  unfolding yields_def and_then_def by (fastforce split: prod.splits sum.splits)

lemma yields_proceed: "Q x \<Longrightarrow> yields Q (proceed x)"
  by (simp add: yields_def proceed_def)

lemma yields_require: "(\<And>x. v = Some x \<Longrightarrow> yields Q (k x)) \<Longrightarrow> yields Q (and_then (require t fl code msg v) k)"
  by (cases v) (auto simp: yields_def and_then_def require_def proceed_def give_up_def)

lemma query_arguments_handle:
  assumes "query_arguments E t M H argv A = (Inr (token, x), A')"
  shows "h_i32 H argv 0 = Some token"
proof -
  have "yields (\<lambda>(token, x). h_i32 H argv 0 = Some token) (query_arguments E t M H argv)"
    unfolding query_arguments_def
  proof (rule yields_require)
    fix given
    assume "both (handle_arg H argv 4) (both (get_string_arg H argv 1) (both (get_string_arg H argv 2)
         (case get_i32_arg H argv 3 of
            None \<Rightarrow> None | Some n \<Rightarrow> if n < 0 \<or> k_query_row_max < n then None else Some (nat n)))) = Some given"
    then have "h_i32 H argv 0 = Some (fst given)" by (auto dest: handle_arg_Some)
    then show "yields (\<lambda>(token, x). h_i32 H argv 0 = Some token)
       (case given of (handle, sql_hex, parameter_wire, max_rows) \<Rightarrow>
     and_then (require t R_Undefined ADAPTER_BAD_ARGUMENT ''querySql SQL exceeds the 1 MiB UTF-8 limit''
       (unless (sql_hex = [] \<or> 2 * k_query_sql_max_bytes < size_of sql_hex) (Some ()))) (\<lambda>_.
     and_then (may_throw t R_Undefined (Some ''querySql allocation failed'')
       ''unexpected exception in querySql'' (ce_throws M 0)) (\<lambda>_.
     and_then (require t R_Undefined ADAPTER_BAD_ARGUMENT
       ''querySql SQL must be non-empty NUL-free UTF-8 bytes encoded as ASCII hex''
       (case decode_hex_cstring (Some sql_hex) False of
          None \<Rightarrow> None | Some sql \<Rightarrow> unless (k_query_sql_max_bytes < size_of sql) (Some sql))) (\<lambda>sql.
     and_then (require t R_Undefined ADAPTER_BAD_ARGUMENT
       ''querySql parameter packet is malformed or exceeds the P1 limits''
       (parse_query_parameter_wire (en_platform E) (ce_value M) (Some parameter_wire))) (\<lambda>parameters.
     proceed (handle, sql, parameters, max_rows))))))"
      by (cases given) (simp only: prod.case fst_conv; (rule yields_and_then)+; rule yields_proceed; simp)
  qed
  with assms show ?thesis unfolding yields_def by blast
qed

lemma query_method:
  assumes "querySql fuel E t M H argv A = Some out"
  shows "inside t (named_slots H argv) A (snd out)"
proof -
  let ?S = "named_slots H argv"
  obtain z A1 where first: "query_arguments E t M H argv A = (z, A1)" by fastforce
  then have A1: "inside t ?S A A1" using insideI [OF query_arguments_inside, of t ?S A E M H argv] by simp
  show ?thesis
  proof (cases z)
    case (Inl r)
    then show ?thesis using assms first A1 by (auto simp: querySql_def)
  next
    case (Inr given)
    obtain token sql parameters max_rows where given: "given = (token, sql, parameters, max_rows)"
      by (cases given)
    obtain z2 A2 where slot: "find_slot t R_Undefined token A1 = (z2, A2)" by fastforce
    then have A2: "inside t ?S A A2"
      using A1 by (auto simp: find_slot_def require_def give_up_def proceed_def set_last_error_def
          intro: inside_trans [OF _ inside_thread] split: option.splits)
    show ?thesis
    proof (cases z2)
      case (Inl r)
      then show ?thesis using assms first slot A2 Inr given by (auto simp: querySql_def)
    next
      case (Inr i)
      then have "lookup_slot token A1 = Some i"
        using slot by (simp add: find_slot_def require_def proceed_def give_up_def split: option.splits)
      then have i: "i \<in> ?S"
        using lookup_slot_Some(1) query_arguments_handle first given \<open>z = Inr given\<close> by (fastforce simp: named_slots_def)
      obtain r context1 A3 where run: "query_on_slot fuel E M i sql parameters max_rows A2 = ((r, context1), A3)"
        by (metis prod.exhaust)
      with Inr have "\<exists>r. out = reply (query_answer t M r context1) A3"
        using assms first slot \<open>z = Inr given\<close> given by (auto simp: querySql_def)
      moreover have "inside t ?S A2 A3" by (rule query_on_slot_inside [OF i run])
      moreover have "bounds (inside t ?S) (reply (query_answer t M r context1))" for r
        by (rule chain)+
      ultimately show ?thesis using A2 by (auto intro: inside_trans insideI)
    qed
  qed
qed

end
