(* ===== verification/C_Number_Rules.thy ===== *)
theory C_Number_Rules
  imports C_Numbers
begin

text \<open>
  That seventeen significant digits are enough: the text \<open>%.17g\<close> prints of a finite double
  reads back as that double, and the decimal texts of integers read back as those integers.
  The argument runs over the reals: a printed double is off by at most half a unit of its
  seventeenth digit, which is less than half the distance to its nearest neighbour.
\<close>

section \<open>Fractions and powers\<close>

lemma scaled_ratio:
  assumes "0 < base" and "scaled base m e = (n, d)"
  shows "0 < d" and "real_of_int n / real_of_int d = real_of_int m * real_of_int base powi e"
  using assms by (auto simp: scaled_def power_int_def field_simps split: if_splits)

lemma powi_pos [simp]: "0 < (2 :: real) powi e" "0 < (10 :: real) powi e"
  by (simp_all add: zero_less_power_int)

lemma div_bounds:
  assumes "0 < (d :: int)"
  shows "a \<le> n div d \<longleftrightarrow> real_of_int a \<le> real_of_int n / real_of_int d"
    and "n div d < a \<longleftrightarrow> real_of_int n / real_of_int d < real_of_int a"
  by (simp_all add: le_floor_iff floor_less_iff flip: floor_divide_of_int_eq [where ?'a = real])

lemma div_at_least_1: "0 < (d :: int) \<Longrightarrow> d \<le> n \<Longrightarrow> 1 \<le> n div d"
  by (simp add: int_one_le_iff_zero_less pos_imp_zdiv_pos_iff)

lemma digit_count_bounds:
  assumes "2 \<le> base" and "1 \<le> n"
  shows "base ^ (digit_count base n - 1) \<le> n \<and> n < base ^ digit_count base n"
  using assms
proof (induction base n rule: digit_count.induct)
  case (1 base n)
  show ?case
  proof (cases "base \<le> n")
    case False
    with 1 show ?thesis by (simp add: digit_count.simps [of base n])
  next
    case True
    let ?k = "digit_count base (n div base)"
    have quotient: "1 \<le> n div base" using True 1(2) by (simp add: div_at_least_1)
    with 1 True have IH: "base ^ (?k - 1) \<le> n div base" "n div base < base ^ ?k" by auto
    have k: "digit_count base n = Suc ?k" using True 1(2) by (simp add: digit_count.simps [of base n])
    have "?k \<noteq> 0" by (subst digit_count.simps) simp
    then have "base ^ ?k = base * base ^ (?k - 1)" by (cases ?k) auto
    also have "\<dots> \<le> base * (n div base)" using IH(1) 1(2) by simp
    also have "\<dots> \<le> n" using 1(2) pos_mod_sign [of base n] by (simp add: minus_mod_eq_mult_div [symmetric])
    finally have "base ^ ?k \<le> n" .
    moreover have "n < base * base ^ ?k"
    proof -
      have "n div base + 1 \<le> base ^ ?k" using IH(2) by simp
      then have "base * (n div base + 1) \<le> base * base ^ ?k" using 1(2) by simp
      moreover have "n < base * (n div base + 1)"
      proof -
        have "n mod base < base" using 1(2) by simp
        then show ?thesis by (metis add.commute add_less_cancel_left distrib_left mult.right_neutral mult_div_mod_eq)
      qed
      ultimately show ?thesis by linarith
    qed
    ultimately show ?thesis by (simp add: k)
  qed
qed

lemma digit_count_pos: "0 < digit_count base n"
  by (subst digit_count.simps) simp

lemma floor_log_bounds:
  assumes "2 \<le> base" and "0 < n" and "0 < d"
  shows "real_of_int base powi floor_log base n d \<le> real_of_int n / real_of_int d"
    and "real_of_int n / real_of_int d < real_of_int base powi (floor_log base n d + 1)"
proof -
  have "real_of_int base powi floor_log base n d \<le> real_of_int n / real_of_int d \<and>
    real_of_int n / real_of_int d < real_of_int base powi (floor_log base n d + 1)"
  proof (cases "d \<le> n")
    case True
    define k where "k = digit_count base (n div d)"
    have "1 \<le> n div d" using True assms by (simp add: div_at_least_1)
    from digit_count_bounds [OF assms(1) this]
    have k: "base ^ (k - 1) \<le> n div d" "n div d < base ^ k" unfolding k_def by auto
    have k0: "0 < k" unfolding k_def by (rule digit_count_pos)
    from k have lower: "real_of_int base ^ (k - 1) \<le> real_of_int n / real_of_int d"
      and upper: "real_of_int n / real_of_int d < real_of_int base ^ k"
      using assms(3) by (simp_all add: div_bounds)
    have "floor_log base n d = int (k - 1)" "floor_log base n d + 1 = int k"
      using True k0 by (auto simp: floor_log_def k_def)
    with lower upper show ?thesis by (simp only: power_int_of_nat)
  next
    case False
    define k where "k = digit_count base ((d - 1) div n)"
    have "1 \<le> (d - 1) div n" using False assms by (simp add: div_at_least_1)
    from digit_count_bounds [OF assms(1) this]
    have k: "base ^ (k - 1) \<le> (d - 1) div n" "(d - 1) div n < base ^ k" unfolding k_def by auto
    have k0: "0 < k" unfolding k_def by (rule digit_count_pos)
    from k have "real_of_int (base ^ (k - 1)) * real_of_int n \<le> real_of_int (d - 1)"
      and "real_of_int (d - 1) < real_of_int (base ^ k) * real_of_int n"
      using assms(2) by (simp_all add: div_bounds field_simps)
    then have "base ^ (k - 1) * n < d" "d \<le> base ^ k * n"
      unfolding of_int_mult [symmetric] of_int_le_iff of_int_less_iff by linarith+
    then have "real_of_int (base ^ (k - 1) * n) < real_of_int d"
      and "real_of_int d \<le> real_of_int (base ^ k * n)" by (simp_all only: of_int_less_iff of_int_le_iff)
    then have lower: "inverse (real_of_int base ^ k) \<le> real_of_int n / real_of_int d"
      and upper: "real_of_int n / real_of_int d < inverse (real_of_int base ^ (k - 1))"
      using assms by (simp_all add: field_simps)
    have f: "floor_log base n d = - int k" "floor_log base n d + 1 = - int (k - 1)"
      using False k0 by (auto simp: floor_log_def k_def)
    show ?thesis
    proof
      show "real_of_int base powi floor_log base n d \<le> real_of_int n / real_of_int d"
        using lower by (subst f(1)) (simp add: power_int_minus)
      show "real_of_int n / real_of_int d < real_of_int base powi (floor_log base n d + 1)"
        using upper by (subst f(2)) (simp only: power_int_minus power_int_of_nat)
    qed
  qed
  then show "real_of_int base powi floor_log base n d \<le> real_of_int n / real_of_int d"
    and "real_of_int n / real_of_int d < real_of_int base powi (floor_log base n d + 1)" by auto
qed


lemma powi_mono_less: "1 < (b :: real) \<Longrightarrow> b powi x < b powi y \<longleftrightarrow> x < y"
  by (metis linorder_neqE_linordered_idom order_less_asym power_int_strict_increasing order_less_irrefl)

lemma floor_log_unique:
  assumes "2 \<le> base" and "0 < n" and "0 < d"
    and "real_of_int base powi x \<le> real_of_int n / real_of_int d"
    and "real_of_int n / real_of_int d < real_of_int base powi (x + 1)"
  shows "floor_log base n d = x"
proof -
  have b: "1 < real_of_int base" using assms(1) by simp
  note bounds = floor_log_bounds [OF assms(1-3)]
  have "real_of_int base powi x < real_of_int base powi (floor_log base n d + 1)"
    using assms(4) bounds(2) by linarith
  moreover have "real_of_int base powi floor_log base n d < real_of_int base powi (x + 1)"
    using assms(5) bounds(1) by linarith
  ultimately show ?thesis by (simp add: powi_mono_less [OF b])
qed

section \<open>Rounding\<close>

lemma div_mod_real:
  assumes "0 < (d :: int)"
  shows "real_of_int n / real_of_int d = real_of_int (n div d) + real_of_int (n mod d) / real_of_int d"
proof -
  have "real_of_int n = real_of_int d * real_of_int (n div d) + real_of_int (n mod d)"
    by (simp only: mult_div_mod_eq flip: of_int_mult of_int_add)
  then have "real_of_int n / real_of_int d =
      (real_of_int d * real_of_int (n div d) + real_of_int (n mod d)) / real_of_int d" by simp
  also have "\<dots> = real_of_int (n div d) + real_of_int (n mod d) / real_of_int d"
    using assms by (simp add: add_divide_distrib)
  finally show ?thesis .
qed

lemma round_half_even_error:
  assumes "0 < d"
  shows "\<bar>real_of_int n / real_of_int d - real_of_int (round_half_even n d)\<bar> \<le> 1 / 2"
proof -
  have r: "0 \<le> n mod d" "n mod d < d" using assms by simp_all
  then have f: "0 \<le> real_of_int (n mod d) / real_of_int d" "real_of_int (n mod d) / real_of_int d < 1"
    using assms by simp_all
  have up: "round_half_even n d = n div d + 1 \<longrightarrow> 1 / 2 \<le> real_of_int (n mod d) / real_of_int d"
    using assms by (auto simp: round_half_even_def Let_def field_simps)
  have down: "round_half_even n d = n div d \<longrightarrow> real_of_int (n mod d) / real_of_int d \<le> 1 / 2"
    using assms by (auto simp: round_half_even_def Let_def field_simps split: if_splits)
  have "round_half_even n d = n div d \<or> round_half_even n d = n div d + 1"
    by (auto simp: round_half_even_def Let_def)
  with up down f show ?thesis unfolding div_mod_real [OF assms, of n] by auto
qed

lemma round_half_even_eq:
  assumes "0 < d" and "\<bar>real_of_int n / real_of_int d - real_of_int r\<bar> < 1 / 2"
  shows "round_half_even n d = r"
proof -
  have "\<bar>real_of_int (round_half_even n d) - real_of_int r\<bar> < 1"
    using round_half_even_error [OF assms(1), of n] assms(2) by linarith
  then have "\<bar>round_half_even n d - r\<bar> < 1" by linarith
  then show ?thesis by linarith
qed

section \<open>Seventeen digits\<close>

lemma scaled_ratio_div:
  assumes "0 < base" and "scaled base n e = (n', d')" and "0 < d"
  shows "0 < d * d'" and
    "real_of_int n' / real_of_int (d * d') = real_of_int n / real_of_int d * real_of_int base powi e"
  using scaled_ratio [OF assms(1,2)] assms(3) by (simp_all add: field_simps)

lemma significant_digits_close:
  assumes "significant_digits b = (q, x)" and "dbl_ratio b = (n, d)" and "0 < n" and "0 < d"
  shows "10 ^ 16 \<le> q" and "q < 10 ^ 17"
    and "\<bar>real_of_int n / real_of_int d - real_of_int q * 10 powi (x - 16)\<bar> \<le> real_of_int n / real_of_int d / (2 * 10 ^ 16)"
proof -
  define v where "v = real_of_int n / real_of_int d"
  define x0 where "x0 = floor_log 10 n d"
  obtain n' d' where s: "scaled 10 n (16 - x0) = (n', d')" by fastforce
  define q0 where "q0 = round_half_even n' (d * d')"
  have qx: "(q, x) = (if q0 = 10 ^ 17 then (10 ^ 16, x0 + 1) else (q0, x0))"
    using assms(1,2) s unfolding significant_digits_def q0_def x0_def by (auto simp: Let_def)
  from floor_log_bounds [of 10 n d] assms(3,4)
  have v: "10 powi x0 \<le> v" "v < 10 powi (x0 + 1)" by (simp_all add: v_def x0_def)
  from scaled_ratio_div [OF _ s assms(4)]
  have pos: "0 < d * d'" and ratio: "real_of_int n' / real_of_int (d * d') = v * 10 powi (16 - x0)"
    by (simp_all add: v_def)
  have split10: "10 powi (16 - x0) * 10 powi x0 = (10 :: real) ^ 16"
    by (simp flip: power_int_add)
  have low: "(10 :: real) ^ 16 \<le> v * 10 powi (16 - x0)"
    using mult_left_mono [OF v(1), of "10 powi (16 - x0)"] split10 by (simp add: mult.commute [of v])
  have high: "v * 10 powi (16 - x0) < (10 :: real) ^ 17"
  proof -
    have "10 powi (16 - x0) * v < 10 powi (16 - x0) * 10 powi (x0 + 1)"
      using v(2) by simp
    also have "10 powi (16 - x0) * 10 powi (x0 + 1) = (10 :: real) ^ 17"
      by (simp flip: power_int_add)
    finally show ?thesis by (simp add: mult.commute)
  qed
  have err: "\<bar>v * 10 powi (16 - x0) - real_of_int q0\<bar> \<le> 1 / 2"
    using round_half_even_error [OF pos, of n'] unfolding ratio q0_def .
  have q0: "10 ^ 16 \<le> q0" "q0 \<le> 10 ^ 17"
  proof -
    have "10 ^ 16 - (1 :: real) < real_of_int q0" "real_of_int q0 < 10 ^ 17 + 1" using err low high by linarith+
    then have "real_of_int (10 ^ 16 - 1) < real_of_int q0" "real_of_int q0 < real_of_int (10 ^ 17 + 1)" by simp_all
    then have "10 ^ 16 - 1 < q0" "q0 < 10 ^ 17 + 1" by (simp_all only: of_int_less_iff)
    then show "10 ^ 16 \<le> q0" "q0 \<le> 10 ^ 17" by linarith+
  qed
  then show "10 ^ 16 \<le> q" "q < 10 ^ 17" using qx by (auto split: if_splits)
  have same: "real_of_int q * 10 powi (x - 16) = real_of_int q0 * 10 powi (x0 - 16)"
  proof (cases "q0 = 10 ^ 17")
    case True
    have "x0 + 1 - 16 = (x0 - 16) + 1" by simp
    then have "(10 :: real) powi (x0 + 1 - 16) = 10 powi (x0 - 16) * 10"
      by (simp only: power_int_add_1 zero_neq_numeral not_False_eq_True disjI1)
    then have "(10 :: real) ^ 16 * 10 powi (x0 + 1 - 16) = 10 ^ 17 * 10 powi (x0 - 16)" by simp
    with True qx show ?thesis by simp
  next
    case False
    with qx show ?thesis by simp
  qed
  have "\<bar>v - real_of_int q0 * 10 powi (x0 - 16)\<bar> = \<bar>v * 10 powi (16 - x0) - real_of_int q0\<bar> * 10 powi (x0 - 16)"
  proof -
    have "10 powi (16 - x0) * 10 powi (x0 - 16) = (1 :: real)" by (simp flip: power_int_add)
    then have "v - real_of_int q0 * 10 powi (x0 - 16) = (v * 10 powi (16 - x0) - real_of_int q0) * 10 powi (x0 - 16)"
      by (simp add: algebra_simps)
    then show ?thesis by (simp add: abs_mult)
  qed
  also have "\<dots> \<le> 1 / 2 * 10 powi (x0 - 16)" using err by (intro mult_right_mono) simp_all
  also have "\<dots> = 10 powi x0 / (2 * 10 ^ 16)" by (simp add: power_int_diff)
  also have "\<dots> \<le> v / (2 * 10 ^ 16)" using v(1) by simp
  finally show "\<bar>real_of_int n / real_of_int d - real_of_int q * 10 powi (x - 16)\<bar> \<le> real_of_int n / real_of_int d / (2 * 10 ^ 16)"
    unfolding same v_def .
qed

section \<open>The nearest double\<close>

lemma nearest_mantissa_eq:
  assumes "0 < d" and "nearest_scale n d = e"
    and "\<bar>real_of_int n / real_of_int d * 2 powi (- e) - real_of_int r\<bar> < 1 / 2"
  shows "nearest_mantissa n d = r"
proof -
  obtain n' d' where s: "scaled 2 n (- e) = (n', d')" by fastforce
  from scaled_ratio_div [OF _ s assms(1)] have pos: "0 < d * d'"
    and ratio: "real_of_int n' / real_of_int (d * d') = real_of_int n / real_of_int d * 2 powi (- e)" by simp_all
  have "round_half_even n' (d * d') = r"
    by (rule round_half_even_eq [OF pos]) (use assms(3) in \<open>simp only: ratio\<close>)
  then show ?thesis using s assms(2) by (simp add: nearest_mantissa_def)
qed

lemma nearest_double_close:
  assumes "0 < n" and "0 < d" and m: "0 < m" "m < 2 ^ 53" and k: "- 1074 \<le> k" "2 ^ 52 \<le> m \<or> k = - 1074"
    and close: "\<bar>real_of_int m * 2 powi k - real_of_int n / real_of_int d\<bar> \<le> real_of_int m * 2 powi k / (2 * 10 ^ 16)"
  shows "(nearest_scale n d = k \<and> nearest_mantissa n d = m) \<or>
    (m = 2 ^ 52 \<and> nearest_scale n d = k - 1 \<and> nearest_mantissa n d = 2 ^ 53)"
proof -
  define w where "w = real_of_int n / real_of_int d * 2 powi (- k)"
  have one: "2 powi k * 2 powi (- k) = (1 :: real)" by (simp flip: power_int_add)
  have w_back: "real_of_int n / real_of_int d = w * 2 powi k" using one by (simp add: w_def mult.assoc mult.commute)
  have scaled_close: "\<bar>real_of_int m - w\<bar> \<le> real_of_int m / (2 * 10 ^ 16)"
  proof -
    have "real_of_int m * 2 powi k - real_of_int n / real_of_int d = (real_of_int m - w) * 2 powi k"
      by (simp only: w_back left_diff_distrib)
    then have "\<bar>real_of_int m - w\<bar> * 2 powi k \<le> real_of_int m / (2 * 10 ^ 16) * 2 powi k"
      using close by (simp only: abs_mult abs_of_pos powi_pos) (simp add: mult.commute)
    then show ?thesis by simp
  qed
  have mr: "1 \<le> real_of_int m" "real_of_int m \<le> 2 ^ 53 - 1"
  proof -
    have "1 \<le> m" "m \<le> 2 ^ 53 - 1" using m by simp_all
    then have "real_of_int 1 \<le> real_of_int m" "real_of_int m \<le> real_of_int (2 ^ 53 - 1)"
      by (simp_all only: of_int_le_iff)
    then show "1 \<le> real_of_int m" "real_of_int m \<le> 2 ^ 53 - 1" by simp_all
  qed
  have "real_of_int m / (2 * 10 ^ 16) < 1 / 2" using mr by simp
  then have near: "\<bar>w - real_of_int m\<bar> < 1 / 2" using scaled_close by linarith
  have log_range: "floor_log 2 n d = e" if "2 powi (e - k) \<le> w" "w < 2 powi (e + 1 - k)" for e
  proof (rule floor_log_unique)
    have "2 powi (e - k) * 2 powi k \<le> w * 2 powi k" using that(1) by simp
    then show "real_of_int 2 powi e \<le> real_of_int n / real_of_int d"
      unfolding w_back by (simp flip: power_int_add)
    have "w * 2 powi k < 2 powi (e + 1 - k) * 2 powi k" using that(2) by simp
    then show "real_of_int n / real_of_int d < real_of_int 2 powi (e + 1)"
      unfolding w_back by (simp flip: power_int_add)
  qed (use assms(1,2) in simp_all)
  have at_k: "nearest_scale n d = k \<Longrightarrow> nearest_mantissa n d = m"
    using assms(2) near by (intro nearest_mantissa_eq [where e = k]) (simp_all add: w_def)
  have top: "w < 2 ^ 53" using near mr by linarith
  show ?thesis
  proof (cases "2 ^ 52 \<le> w")
    case True
    have "floor_log 2 n d = k + 52" using True top by (intro log_range) (simp_all add: power_int_def)
    then have "nearest_scale n d = k" using k by (simp add: nearest_scale_def)
    with at_k show ?thesis by simp
  next
    case below: False
    show ?thesis
    proof (cases "k = - 1074")
      case True
      have "floor_log 2 n d < k + 52"
      proof (rule ccontr)
        assume "\<not> floor_log 2 n d < k + 52"
        then have "(2 :: real) powi (k + 52) \<le> 2 powi floor_log 2 n d" by (intro power_int_increasing) simp_all
        also have "\<dots> \<le> w * 2 powi k"
          using floor_log_bounds(1) [of 2 n d] assms(1,2) by (simp add: w_back)
        finally show False using below by (simp add: power_int_add)
      qed
      then have "nearest_scale n d = k" using True by (simp add: nearest_scale_def)
      with at_k show ?thesis by simp
    next
      case False
      then have m52: "2 ^ 52 \<le> m" using k(2) by simp
      have "m \<le> 2 ^ 52"
      proof (rule ccontr)
        assume "\<not> m \<le> 2 ^ 52"
        then have "real_of_int (2 ^ 52 + 1) \<le> real_of_int m" by (simp only: of_int_le_iff)
        with near below show False by simp
      qed
      with m52 have m_eq: "m = 2 ^ 52" by simp
      have near2: "\<bar>w * 2 - 2 ^ 53\<bar> < 1 / 2" 
      proof -
        have "\<bar>2 ^ 52 - w\<bar> < 1 / 4" using scaled_close unfolding m_eq by simp
        moreover have "(2 :: real) ^ 53 = 2 * 2 ^ 52" by simp
        ultimately show ?thesis by linarith
      qed
      have "floor_log 2 n d = k + 51" using below near2 by (intro log_range) (simp_all add: power_int_def)
      then have scale: "nearest_scale n d = k - 1" using k(1) False by (simp add: nearest_scale_def)
      have "real_of_int n / real_of_int d * 2 powi (- (k - 1)) = w * 2"
        by (simp add: w_def power_int_diff power_int_minus divide_inverse)
      then have "nearest_mantissa n d = 2 ^ 53"
        using assms(2) scale near2 by (intro nearest_mantissa_eq [where e = "k - 1"]) simp_all
      with scale m_eq show ?thesis by simp
    qed
  qed
qed

section \<open>Digits\<close>

lemma digit_byte:
  assumes "0 \<le> k" and "k < 10"
  shows "is_digit (48 + of_int k)" and "uint (48 + of_int k :: byte) = 48 + k"
proof -
  have "(48 + of_int k :: byte) = word_of_int (48 + k)" by simp
  then have u: "uint (48 + of_int k :: byte) = 48 + k"
    using assms by (simp only: uint_word_of_int_eq) (simp add: take_bit_int_eq_self)
  then show "uint (48 + of_int k :: byte) = 48 + k" .
  show "is_digit (48 + of_int k)" unfolding is_digit_def word_le_def u using assms by simp
qed

lemma decimal_digits_digits: "0 \<le> n \<Longrightarrow> list_all is_digit (decimal_digits n)"
proof (induction n rule: decimal_digits.induct)
  case (1 n)
  then show ?case
    by (cases "n < 10") (auto simp: decimal_digits.simps [of n] digit_byte)
qed

lemma decimal_digits_nonempty [simp]: "decimal_digits n \<noteq> []"
  by (subst decimal_digits.simps) simp

lemma digits_value_snoc: "digits_value (ds @ [c]) = 10 * digits_value ds + (uint c - 48)"
  by (simp add: digits_value_def)

lemma digits_value_append: "digits_value (as @ bs) = digits_value as * 10 ^ length bs + digits_value bs"
proof (induction bs rule: rev_induct)
  case Nil
  then show ?case by (simp add: digits_value_def)
next
  case (snoc b bs)
  then show ?case unfolding append_assoc [symmetric] digits_value_snoc by (simp add: algebra_simps)
qed

lemma digits_value_zeros [simp]: "digits_value (replicate k 48) = 0"
  by (induction k) (auto simp: digits_value_snoc digits_value_def simp flip: replicate_append_same)

lemma digits_value_of_digits [simp]: "0 \<le> n \<Longrightarrow> digits_value (decimal_digits n) = n"
proof (induction n rule: decimal_digits.induct)
  case (1 n)
  then show ?case
    by (cases "n < 10")
      (auto simp: decimal_digits.simps [of n] digits_value_snoc digit_byte,
       simp add: digits_value_def digit_byte)
qed

lemma length_decimal_digits: "10 ^ k \<le> n \<Longrightarrow> n < 10 ^ Suc k \<Longrightarrow> length (decimal_digits n) = Suc k"
proof (induction k arbitrary: n)
  case 0
  then show ?case by (simp add: decimal_digits.simps [of n])
next
  case (Suc k)
  define p :: int where "p = 10 ^ k"
  have "10 * p \<le> n" "n < 100 * p" using Suc.prems by (simp_all add: p_def)
  then have "p \<le> n div 10" "n div 10 < 10 * p" by presburger+
  then have "10 ^ k \<le> n div 10" "n div 10 < 10 ^ Suc k" by (simp_all add: p_def)
  note IH = Suc.IH [OF this]
  have "1 \<le> p" by (simp add: p_def)
  with \<open>10 * p \<le> n\<close> have "10 \<le> n" by linarith
  with IH show ?case by (subst decimal_digits.simps) simp
qed

lemma strip_zeros_append: "\<exists>k. ds = strip_zeros ds @ replicate k 48"
proof (induction ds rule: rev_induct)
  case Nil
  then show ?case by (simp add: strip_zeros_def)
next
  case (snoc d ds)
  then obtain k where k: "ds = strip_zeros ds @ replicate k 48" by blast
  show ?case
  proof (cases "d = 48")
    case True
    then have "strip_zeros (ds @ [d]) = strip_zeros ds" by (simp add: strip_zeros_def)
    moreover have "ds @ [d] = strip_zeros ds @ replicate (Suc k) 48"
      using k True by (metis append_assoc replicate_append_same replicate_Suc)
    ultimately show ?thesis by metis
  next
    case False
    then show ?thesis by (intro exI [of _ 0]) (simp add: strip_zeros_def)
  qed
qed

lemma strip_zeros_digits: "list_all is_digit ds \<Longrightarrow> list_all is_digit (strip_zeros ds)"
  by (metis list_all_append strip_zeros_append)

definition text_value :: "byte list \<Rightarrow> byte list \<Rightarrow> int \<Rightarrow> real" where
  "text_value whole fraction e =
     real_of_int (digits_value (whole @ fraction)) * 10 powi (e - int (length fraction))"

lemma text_value_strip: "text_value whole (strip_zeros fraction) e = text_value whole fraction e"
proof -
  obtain k where k: "fraction = strip_zeros fraction @ replicate k 48" using strip_zeros_append by blast
  have "text_value whole fraction e = text_value whole (strip_zeros fraction @ replicate k 48) e"
    using k by simp
  also have "\<dots> = text_value whole (strip_zeros fraction) e"
    by (simp add: text_value_def digits_value_append [of "whole @ strip_zeros fraction" "replicate k 48", simplified]
        power_int_diff power_int_add)
  finally show ?thesis ..
qed

section \<open>Reading a printed double\<close>

text \<open>What may follow the digits: nothing, or an exponent.\<close>

definition number_tail :: "byte list \<Rightarrow> bool" where
  "number_tail text \<longleftrightarrow> text = [] \<or> hd text = 101"

lemma takeWhile_digits:
  assumes "list_all is_digit ds" and "rest = [] \<or> \<not> is_digit (hd rest)"
  shows "takeWhile is_digit (ds @ rest) = ds" and "dropWhile is_digit (ds @ rest) = rest"
proof -
  have "\<forall>d \<in> set ds. is_digit d" using assms(1) by (simp add: list_all_iff)
  moreover have "takeWhile is_digit rest = []" "dropWhile is_digit rest = rest"
    using assms(2) by (cases rest; simp)+
  ultimately show "takeWhile is_digit (ds @ rest) = ds" "dropWhile is_digit (ds @ rest) = rest"
    by (simp_all add: takeWhile_append dropWhile_append)
qed

lemma all_digits [simp]:
  assumes "list_all is_digit ds"
  shows "takeWhile is_digit ds = ds" and "dropWhile is_digit ds = []"
  using takeWhile_digits [OF assms, of "[]"] by simp_all

lemma not_digits [simp]: "\<not> is_digit 46" "\<not> is_digit 101" "\<not> is_digit 45" "\<not> is_digit 43" "\<not> is_digit 120"
  "\<not> is_digit 58" "\<not> is_digit 10" "\<not> is_digit 0" "\<not> is_digit 32"
  by (simp_all add: is_digit_def)

lemma scan_printed:
  assumes "list_all is_digit whole" and "whole \<noteq> []" and "list_all is_digit fraction" and "number_tail tail1"
  shows "scan_mantissa 46 is_digit (with_point whole fraction @ tail1) = (whole, strip_zeros fraction, tail1)"
proof (cases "strip_zeros fraction = []")
  case True
  show ?thesis
  proof (cases tail1)
    case Nil
    with True assms(1) show ?thesis by (simp add: scan_mantissa_def with_point_def Let_def)
  next
    case (Cons c cs)
    with assms(4) have "c = 101" by (simp add: number_tail_def)
    with Cons True takeWhile_digits [OF assms(1), of "c # cs"] show ?thesis
      by (simp add: scan_mantissa_def with_point_def Let_def)
  qed
next
  case False
  have "tail1 = [] \<or> \<not> is_digit (hd tail1)" using assms(4) by (auto simp: number_tail_def)
  with takeWhile_digits [OF strip_zeros_digits [OF assms(3)], of tail1]
    takeWhile_digits [OF assms(1), of "46 # strip_zeros fraction @ tail1"] False assms(2)
  show ?thesis by (simp add: scan_mantissa_def with_point_def Let_def)
qed

lemma scan_exponent_text:
  "scan_exponent [101, 69] (exponent_text x) = (x, [])"
proof -
  let ?ds = "if \<bar>x\<bar> < 10 then 48 # decimal_digits \<bar>x\<bar> else decimal_digits \<bar>x\<bar>"
  have ds: "list_all is_digit ?ds" "?ds \<noteq> []"
    using decimal_digits_digits [of "\<bar>x\<bar>"] by (auto simp: is_digit_def)
  have v: "digits_value ?ds = \<bar>x\<bar>"
    using digits_value_append [of "[48]" "decimal_digits \<bar>x\<bar>"] digits_value_zeros [of 1] by simp
  have "scan_exponent [101, 69] (101 # (if x < 0 then 45 else 43) # ds) = (x, [])"
    if "list_all is_digit ds" "ds \<noteq> []" "digits_value ds = \<bar>x\<bar>" for ds
    using that by (simp add: scan_exponent_def split_sign_def)
  from this [OF ds v] show ?thesis unfolding exponent_text_def .
qed

lemma scan_exponent_none [simp]: "scan_exponent letters [] = (0, [])"
  by (simp add: scan_exponent_def)

text \<open>Every form \<open>%.17g\<close> chooses denotes the same number.\<close>

lemma print_magnitude_form:
  assumes "10 ^ 16 \<le> q" and "q < 10 ^ 17"
  obtains whole fraction tail1 e where
    "print_magnitude q x = with_point whole fraction @ tail1"
    "list_all is_digit whole" "whole \<noteq> []" "list_all is_digit fraction" "number_tail tail1"
    "scan_exponent [101, 69] tail1 = (e, [])"
    "text_value whole fraction e = real_of_int q * 10 powi (x - 16)"
proof -
  define ds where "ds = decimal_digits q"
  have q0: "0 \<le> q" using assms(1) by simp
  have ds: "list_all is_digit ds" "length ds = 17" "digits_value ds = q"
    using decimal_digits_digits [OF q0] length_decimal_digits [of 16 q] assms q0 by (simp_all add: ds_def)
  have part: "list_all is_digit (take k ds)" "list_all is_digit (drop k ds)" for k
    using ds(1) by (metis append_take_drop_id list_all_append)+
  consider "x < - 4 \<or> 17 \<le> x" | "- 4 \<le> x" "x < 0" | "0 \<le> x" "x < 17" by linarith
  then show thesis
  proof cases
    case 1
    show thesis
    proof (rule that [of "take 1 ds" "drop 1 ds" "exponent_text x" x])
      show "print_magnitude q x = with_point (take 1 ds) (drop 1 ds) @ exponent_text x"
        using 1 by (simp add: print_magnitude_def ds_def Let_def)
      show "take 1 ds \<noteq> []" using ds(2) by auto
      show "text_value (take 1 ds) (drop 1 ds) x = real_of_int q * 10 powi (x - 16)"
        using ds by (simp add: text_value_def)
    qed (use part scan_exponent_text in \<open>simp_all add: number_tail_def exponent_text_def\<close>)
  next
    case 2
    show thesis
    proof (rule that [of "[48]" "replicate (nat (- x - 1)) 48 @ ds" "[]" 0])
      show "print_magnitude q x = with_point [48] (replicate (nat (- x - 1)) 48 @ ds) @ []"
        using 2 by (simp add: print_magnitude_def ds_def Let_def)
      show "list_all is_digit (replicate (nat (- x - 1)) 48 @ ds)"
        using ds(1) by (auto simp: list_all_iff is_digit_def)
      have "digits_value ([48] @ replicate (nat (- x - 1)) 48 @ ds) = q"
        using ds(3) digits_value_zeros [of "Suc (nat (- x - 1))"]
          digits_value_append [of "replicate (Suc (nat (- x - 1))) 48" ds] by simp
      then show "text_value [48] (replicate (nat (- x - 1)) 48 @ ds) 0 = real_of_int q * 10 powi (x - 16)"
        using ds(2) 2 by (simp add: text_value_def)
    qed (simp_all add: number_tail_def is_digit_def)
  next
    case 3
    show thesis
    proof (rule that [of "take (nat x + 1) ds" "drop (nat x + 1) ds" "[]" 0])
      show "print_magnitude q x = with_point (take (nat x + 1) ds) (drop (nat x + 1) ds) @ []"
        using 3 by (simp add: print_magnitude_def ds_def Let_def)
      show "take (nat x + 1) ds \<noteq> []" using ds(2) by auto
      have "- int (length (drop (nat x + 1) ds)) = x - 16" using ds(2) 3 by simp
      then show "text_value (take (nat x + 1) ds) (drop (nat x + 1) ds) 0 = real_of_int q * 10 powi (x - 16)"
        using ds(3) by (simp add: text_value_def)
    qed (use part in \<open>simp_all add: number_tail_def\<close>)
  qed
qed

lemma starts_simps [simp]:
  "starts [] text" "\<not> starts (w # ws) []"
  "starts (w # ws) (c # cs) \<longleftrightarrow> lower c = w \<and> starts ws cs"
  by (auto simp: starts_def)

lemma lower_digit: "is_digit c \<Longrightarrow> lower c = c"
  by (auto simp: is_digit_def lower_def word_le_def)

lemma printed_is_decimal:
  assumes "list_all is_digit whole" and "whole \<noteq> []" and "list_all is_digit fraction" and "number_tail tail1"
  shows "\<not> starts (105 # w) (with_point whole fraction @ tail1)"
    and "\<not> starts (110 # w) (with_point whole fraction @ tail1)"
    and "\<not> starts [48, 120] (with_point whole fraction @ tail1)"
proof -
  obtain c cs where whole: "whole = c # cs" using assms(2) by (cases whole) auto
  have c: "is_digit c" using assms(1) whole by simp
  have other: "\<not> is_digit 105" "\<not> is_digit 110" "\<not> is_digit 120" by (simp_all add: is_digit_def)
  with c have "c \<noteq> 105" "c \<noteq> 110" by auto
  then show "\<not> starts (105 # w) (with_point whole fraction @ tail1)"
    "\<not> starts (110 # w) (with_point whole fraction @ tail1)"
    by (simp_all add: whole with_point_def lower_digit [OF c])
  let ?rest = "cs @ (if strip_zeros fraction = [] then [] else 46 # strip_zeros fraction) @ tail1"
  have "?rest = [] \<or> is_digit (hd ?rest) \<or> hd ?rest = 46 \<or> hd ?rest = 101"
    using assms(1,4) whole by (cases cs) (auto simp: number_tail_def)
  then have "\<not> starts [120] ?rest"
  proof (cases ?rest)
    case Nil
    then show ?thesis by (simp only: starts_simps not_False_eq_True)
  next
    case (Cons d ds)
    then have "is_digit d \<or> d = 46 \<or> d = 101"
      using \<open>?rest = [] \<or> is_digit (hd ?rest) \<or> hd ?rest = 46 \<or> hd ?rest = 101\<close> by (metis list.discI list.sel(1))
    moreover have "lower 46 = 46" "lower 101 = 101" by (simp_all add: lower_def)
    ultimately have "lower d \<noteq> 120" using other(3) lower_digit by force
    with Cons show ?thesis by (simp only: starts_simps) simp
  qed
  then show "\<not> starts [48, 120] (with_point whole fraction @ tail1)"
    by (simp add: whole with_point_def)
qed

lemma strtod_magnitude_printed:
  assumes "pf_point P = 46" and "10 ^ 16 \<le> q" and "q < 10 ^ 17"
  obtains n d where "strtod_magnitude P (print_magnitude q x) =
      Some (fst (nearest_double P n d), snd (nearest_double P n d), [])"
    "0 < d" "real_of_int n / real_of_int d = real_of_int q * 10 powi (x - 16)"
proof -
  obtain whole fraction tail1 e where printed: "print_magnitude q x = with_point whole fraction @ tail1"
    and form: "list_all is_digit whole" "whole \<noteq> []" "list_all is_digit fraction" "number_tail tail1"
    and e: "scan_exponent [101, 69] tail1 = (e, [])"
    and v: "text_value whole fraction e = real_of_int q * 10 powi (x - 16)"
    by (rule print_magnitude_form [OF assms(2,3)])
  obtain n d where nd: "scaled 10 (digits_value (whole @ strip_zeros fraction))
      (e - int (length (strip_zeros fraction))) = (n, d)" by fastforce
  from scaled_ratio [OF _ nd] have "0 < d"
    and ratio: "real_of_int n / real_of_int d = text_value whole (strip_zeros fraction) e"
    by (simp_all add: text_value_def)
  have "strtod_magnitude P (print_magnitude q x) =
      Some (fst (nearest_double P n d), snd (nearest_double P n d), [])"
    unfolding printed strtod_magnitude_def
    using printed_is_decimal [OF form] scan_printed [OF form] form(2) e nd
    by (simp add: assms(1) case_prod_beta)
  with \<open>0 < d\<close> ratio v show thesis by (intro that) (simp_all add: text_value_strip)
qed

section \<open>Bits\<close>

lemma dbl_bits: "with_sign (dbl_negative b) ((dbl_scale b + 1074) * 2 ^ 52 + dbl_mantissa b) = b"
proof -
  define u where "u = uint b"
  have u: "0 \<le> u" "u < 2 ^ 64" using uint_bounded [of b] by (simp_all add: u_def)
  have neg: "dbl_negative b \<longleftrightarrow> 2 ^ 63 \<le> u" by (simp add: dbl_negative_def word_le_def u_def)
  have body: "(dbl_scale b + 1074) * 2 ^ 52 + dbl_mantissa b = u mod 2 ^ 63"
  proof -
    have "u mod 2 ^ 63 = 2 ^ 52 * (u div 2 ^ 52 mod 2 ^ 11) + u mod 2 ^ 52"
      using mod_mult2_eq' [of u "2 ^ 52" "2 ^ 11"] by simp
    then show ?thesis
      by (simp add: dbl_scale_def dbl_mantissa_def dbl_exponent_def dbl_fraction_def u_def)
  qed
  have "(if dbl_negative b then 2 ^ 63 else 0) + u mod 2 ^ 63 = u"
  proof (cases "2 ^ 63 \<le> u")
    case True
    have "(u - 2 ^ 63) mod 2 ^ 63 = u - 2 ^ 63" using u True by (intro mod_pos_pos_trivial) simp_all
    then have "u mod 2 ^ 63 = u - 2 ^ 63" by (simp only: minus_mod_self2)
    with True neg show ?thesis by simp
  next
    case False
    with u neg show ?thesis by simp
  qed
  then show ?thesis unfolding with_sign_def body by (simp add: u_def)
qed

lemma dbl_ranges:
  "0 \<le> dbl_exponent b" "dbl_exponent b < 2048" "0 \<le> dbl_fraction b" "dbl_fraction b < 2 ^ 52"
  by (simp_all add: dbl_exponent_def dbl_fraction_def)

lemma dbl_mantissa_range:
  "0 \<le> dbl_mantissa b" "dbl_mantissa b < 2 ^ 53" "- 1074 \<le> dbl_scale b"
  "2 ^ 52 \<le> dbl_mantissa b \<or> dbl_scale b = - 1074"
  using dbl_ranges [of b] by (auto simp: dbl_mantissa_def dbl_scale_def)

lemma double_finite_bits:
  "double_finite b \<Longrightarrow> (dbl_scale b + 1074) * 2 ^ 52 + dbl_mantissa b < DOUBLE_INFINITY"
  using dbl_ranges [of b]
  by (auto simp: double_finite_def dbl_mantissa_def dbl_scale_def DOUBLE_INFINITY_def)

section \<open>The round trip\<close>

text \<open>Subnormal doubles are excepted where \<open>strtod\<close> reports a range error for them.\<close>

definition reads_back :: "platform \<Rightarrow> u64 \<Rightarrow> bool" where
  "reads_back P b \<longleftrightarrow>
     double_finite b \<and> (dbl_exponent b \<noteq> 0 \<or> dbl_fraction b = 0 \<or> \<not> pf_subnormal_range P)"

lemma split_sign_digit: "text \<noteq> [] \<Longrightarrow> is_digit (hd text) \<Longrightarrow> split_sign text = (False, text)"
  by (cases "text") (auto simp: split_sign_def)

lemma digit_not_space: "is_digit c \<Longrightarrow> \<not> is_space c"
  by (auto simp: is_digit_def is_space_def word_le_def)

lemma print_magnitude_hd:
  assumes "10 ^ 16 \<le> q" and "q < 10 ^ 17"
  shows "print_magnitude q x \<noteq> []" and "is_digit (hd (print_magnitude q x))"
proof -
  obtain whole fraction tail1 where "print_magnitude q x = with_point whole fraction @ tail1"
    "list_all is_digit whole" "whole \<noteq> []"
    by (rule print_magnitude_form [OF assms])
  then show "print_magnitude q x \<noteq> []" "is_digit (hd (print_magnitude q x))"
    by (cases whole; simp add: with_point_def)+
qed

lemma strtod_signed:
  assumes "text \<noteq> []" and "is_digit (hd text)" and "strtod_magnitude P text = Some (bits, erange, [])"
  shows "strtod P ((if negative then [45] else []) @ text) = (with_sign negative bits, erange, [])"
proof -
  have "\<not> is_space (hd text)" using assms(2) by (rule digit_not_space)
  then have "dropWhile is_space ((if negative then [45] else []) @ text) = (if negative then [45] else []) @ text"
    using assms(1) by (cases "text") (auto simp: is_space_def)
  moreover have "split_sign ((if negative then [45] else []) @ text) = (negative, text)"
    using split_sign_digit [OF assms(1,2)] by (simp add: split_sign_def)
  ultimately show ?thesis using assms(3) by (simp add: strtod_def)
qed

lemma strtod_print_double:
  assumes "pf_point P = 46" and "reads_back P b"
  shows "strtod P (print_double b) = (b, False, [])"
proof (cases "dbl_mantissa b = 0")
  case True
  then have "dbl_exponent b = 0" "dbl_fraction b = 0"
    using dbl_ranges [of b] by (auto simp: dbl_mantissa_def split: if_splits)
  then have b: "with_sign (dbl_negative b) 0 = b"
    using dbl_bits [of b] by (simp add: dbl_scale_def dbl_mantissa_def)
  have "strtod_magnitude P [48] = Some (0, False, [])"
    using assms(1) by (simp add: strtod_magnitude_def scan_mantissa_def is_digit_def lower_def
        digits_value_def scaled_def nearest_double_def)
  from strtod_signed [OF _ _ this, of "dbl_negative b"] True b show ?thesis
    by (simp add: print_double_def is_digit_def split: if_splits)
next
  case False
  with dbl_mantissa_range(1) [of b] have m: "0 < dbl_mantissa b" by linarith
  obtain n d where nd: "dbl_ratio b = (n, d)" by fastforce
  then have ratio: "real_of_int n / real_of_int d = real_of_int (dbl_mantissa b) * 2 powi dbl_scale b" and d: "0 < d"
    using scaled_ratio [of 2 "dbl_mantissa b" "dbl_scale b"] by (simp_all add: dbl_ratio_def)
  have "0 < real_of_int n / real_of_int d" unfolding ratio using m by simp
  with d have n: "0 < n" by (simp add: zero_less_divide_iff)
  obtain q x where qx: "significant_digits b = (q, x)" by fastforce
  note close = significant_digits_close [OF qx nd n d]
  obtain n' d' where read: "strtod_magnitude P (print_magnitude q x) =
      Some (fst (nearest_double P n' d'), snd (nearest_double P n' d'), [])"
    and d': "0 < d'" and ratio': "real_of_int n' / real_of_int d' = real_of_int q * 10 powi (x - 16)"
    by (rule strtod_magnitude_printed [OF assms(1) close(1,2)])
  have "0 < q" using close(1) by simp
  then have "0 < real_of_int n' / real_of_int d'" unfolding ratio' by simp
  with d' have n': "0 < n'" by (simp add: zero_less_divide_iff)
  have near: "\<bar>real_of_int (dbl_mantissa b) * 2 powi dbl_scale b - real_of_int n' / real_of_int d'\<bar>
      \<le> real_of_int (dbl_mantissa b) * 2 powi dbl_scale b / (2 * 10 ^ 16)"
    using close(3) unfolding ratio ratio' .
  let ?bits = "(dbl_scale b + 1074) * 2 ^ 52 + dbl_mantissa b"
  from nearest_double_close [OF n' d' m dbl_mantissa_range(2,3,4) near]
  have bits: "(nearest_scale n' d' + 1074) * 2 ^ 52 + nearest_mantissa n' d' = ?bits"
    and mantissa: "nearest_mantissa n' d' < 2 ^ 52 \<longrightarrow> nearest_mantissa n' d' = dbl_mantissa b"
    by (auto simp: algebra_simps)
  have "double_finite b" using assms(2) by (simp add: reads_back_def)
  from double_finite_bits [OF this] have "\<not> DOUBLE_INFINITY \<le> ?bits" by simp
  moreover have "\<not> (nearest_mantissa n' d' < 2 ^ 52 \<and> (nearest_mantissa n' d' = 0 \<or> pf_subnormal_range P))"
  proof
    assume "nearest_mantissa n' d' < 2 ^ 52 \<and> (nearest_mantissa n' d' = 0 \<or> pf_subnormal_range P)"
    with mantissa m have "dbl_mantissa b < 2 ^ 52" "pf_subnormal_range P" by auto
    with assms(2) m show False using dbl_ranges(3) [of b]
      by (auto simp: reads_back_def dbl_mantissa_def split: if_splits)
  qed
  ultimately have "nearest_double P n' d' = (?bits, False)"
    using n' bits by (auto simp: nearest_double_def Let_def)
  with read have "strtod_magnitude P (print_magnitude q x) = Some (?bits, False, [])" by simp
  from strtod_signed [OF print_magnitude_hd [OF close(1,2)] this, of "dbl_negative b"]
  show ?thesis unfolding dbl_bits using False qx by (simp add: print_double_def)
qed

end
