(* ===== verification/Adapter_Wire_Spec.thy ===== *)
theory Adapter_Wire_Spec
  imports C_Number_Rules Adapter_Replies
begin

text \<open>
  The wire of the ExternalObject adapter carries values without loss: decimals and hexadecimal
  text are exact, a value read from its own wire is the value, a packet of value wires is the
  list of the values, and what would break this (a host locale with another decimal point) is
  shown to.
\<close>

section \<open>Decimals\<close>

definition plain_digits :: "byte list \<Rightarrow> bool" where
  "plain_digits ds \<longleftrightarrow> ds \<noteq> [] \<and> list_all is_digit ds \<and> (hd ds = 48 \<longrightarrow> ds = [48])"

lemma digit_range: "is_digit c \<Longrightarrow> 0 \<le> uint c - 48 \<and> uint c - 48 < 10"
  by (simp add: is_digit_def word_le_def)

lemma digit_of_value: "is_digit c \<Longrightarrow> 48 + of_int (uint c - 48) = c"
  by simp

lemma digits_value_nonneg: "list_all is_digit ds \<Longrightarrow> 0 \<le> digits_value ds"
proof (induction ds rule: rev_induct)
  case Nil
  then show ?case by (simp add: digits_value_def)
next
  case (snoc c ds)
  then show ?case using digit_range [of c] by (simp add: digits_value_snoc)
qed

lemma digits_value_pos:
  assumes "list_all is_digit ds" and "ds \<noteq> []" and "hd ds \<noteq> 48"
  shows "0 < digits_value ds"
  using assms
proof (induction ds rule: rev_induct)
  case Nil
  then show ?case by simp
next
  case (snoc c ds)
  have c: "0 \<le> uint c - 48" using snoc.prems(1) digit_range [of c] by simp
  show ?case
  proof (cases "ds = []")
    case True
    with snoc.prems have "is_digit c" "c \<noteq> 48" by auto
    then have "48 \<le> uint c" "uint c \<noteq> 48" by (auto simp: is_digit_def word_le_def word_uint_eq_iff)
    with True show ?thesis by (simp add: digits_value_def)
  next
    case False
    with snoc have "0 < digits_value ds" by auto
    with c show ?thesis by (simp add: digits_value_snoc)
  qed
qed

lemma decimal_digits_value: "plain_digits ds \<Longrightarrow> decimal_digits (digits_value ds) = ds"
proof (induction ds rule: rev_induct)
  case Nil
  then show ?case by (simp add: plain_digits_def)
next
  case (snoc c ds)
  then have c: "is_digit c" by (simp add: plain_digits_def)
  note range = digit_range [OF c]
  show ?case
  proof (cases "ds = []")
    case True
    with range show ?thesis by (simp add: digits_value_def decimal_digits.simps)
  next
    case False
    with snoc.prems have ds: "list_all is_digit ds" "hd ds \<noteq> 48" by (auto simp: plain_digits_def)
    then have "0 < digits_value ds" using False by (simp add: digits_value_pos)
    then have big: "\<not> digits_value (ds @ [c]) < 10" and q: "digits_value (ds @ [c]) div 10 = digits_value ds"
      and r: "digits_value (ds @ [c]) mod 10 = uint c - 48"
      using range by (simp_all add: digits_value_snoc)
    from ds False have "plain_digits ds" by (simp add: plain_digits_def)
    with snoc.IH have "decimal_digits (digits_value ds) = ds" by simp
    with big show ?thesis by (subst decimal_digits.simps) (simp add: q r)
  qed
qed

lemma decimal_digits_plain: "0 \<le> n \<Longrightarrow> plain_digits (decimal_digits n)"
proof (induction n rule: decimal_digits.induct)
  case (1 n)
  show ?case
  proof (cases "n < 10")
    case True
    have "n = 0" if "48 + word_of_int n = (48 :: byte)"
    proof -
      have "uint (48 + of_int n :: byte) = 48" using that by simp
      with digit_byte(2) [of n] 1(2) True show ?thesis by simp
    qed
    with True 1(2) digit_byte(1) [of n] show ?thesis
      by (auto simp: plain_digits_def decimal_digits.simps [of n])
  next
    case False
    then have IH: "plain_digits (decimal_digits (n div 10))" using 1 by simp
    have "decimal_digits (n div 10) \<noteq> [48]"
    proof
      assume "decimal_digits (n div 10) = [48]"
      then have "digits_value [48] = n div 10" using digits_value_of_digits [of "n div 10"] False by simp
      then show False using False by (simp add: digits_value_def)
    qed
    moreover have "decimal_digits n = decimal_digits (n div 10) @ [of_int (48 + n mod 10)]"
      using False by (subst decimal_digits.simps) simp
    ultimately show ?thesis
      using IH digit_byte(1) [of "n mod 10"] by (auto simp: plain_digits_def)
  qed
qed

text \<open>The syntax check accepts exactly the texts of the integers, minus zero aside.\<close>

lemma canonical_syntax_plain:
  "canonical_decimal_syntax (Some t) allow_negative \<longleftrightarrow>
     plain_digits t \<or> (allow_negative \<and> (\<exists>ds. t = 45 # ds \<and> plain_digits ds))"
proof -
  have cursor: "(if hd ds = 48 then tl ds = [] else 49 \<le> hd ds \<and> hd ds \<le> 57 \<and> list_all is_digit (tl ds))
      \<longleftrightarrow> plain_digits ds" if "ds \<noteq> []" for ds
  proof (cases ds)
    case (Cons c cs)
    have "49 \<le> c \<longleftrightarrow> 48 \<le> c \<and> c \<noteq> 48"
      by (auto simp: word_le_def word_uint_eq_iff)
    with Cons show ?thesis by (auto simp: plain_digits_def is_digit_def)
  qed (use that in simp)
  show ?thesis
  proof (cases t)
    case Nil
    then show ?thesis by (simp add: canonical_decimal_syntax_def plain_digits_def)
  next
    case (Cons c cs)
    show ?thesis
    proof (cases "c = 45")
      case True
      have "\<not> plain_digits (45 # cs)" by (simp add: plain_digits_def)
      with True Cons cursor [of cs] show ?thesis
        by (cases "cs = []") (auto simp: canonical_decimal_syntax_def Let_def plain_digits_def)
    next
      case False
      with Cons cursor [of "c # cs"] show ?thesis
        by (auto simp: canonical_decimal_syntax_def Let_def)
    qed
  qed
qed

lemma split_sign_plain [simp]:
  "plain_digits ds \<Longrightarrow> split_sign ds = (False, ds)" "split_sign (45 # ds) = (True, ds)"
  by (auto simp: plain_digits_def split_sign_digit list_all_iff) (simp add: split_sign_def)

lemma scan_integer_plain:
  assumes "plain_digits ds"
  shows "scan_integer ds = Some (False, digits_value ds, [])"
    and "scan_integer (45 # ds) = Some (True, digits_value ds, [])"
proof -
  have ds: "list_all is_digit ds" "ds \<noteq> []" "is_digit (hd ds)"
    using assms by (auto simp: plain_digits_def list_all_iff)
  then have "dropWhile is_space ds = ds" using digit_not_space [of "hd ds"] by (cases ds) auto
  moreover have "dropWhile is_space (45 # ds) = 45 # ds" by (simp add: is_space_def)
  ultimately show "scan_integer ds = Some (False, digits_value ds, [])"
    "scan_integer (45 # ds) = Some (True, digits_value ds, [])"
    using ds assms by (simp_all add: scan_integer_def)
qed

lemma int_decimal_cases:
  "0 \<le> n \<Longrightarrow> int_decimal n = decimal_digits n" "n < 0 \<Longrightarrow> int_decimal n = 45 # decimal_digits (- n)"
  by (simp_all add: int_decimal_def)

lemma plain_int_decimal: "plain_digits t \<Longrightarrow> t = int_decimal n \<longleftrightarrow> digits_value t = n"
proof -
  assume t: "plain_digits t"
  then have v: "0 \<le> digits_value t" by (simp add: plain_digits_def digits_value_nonneg)
  have "t \<noteq> 45 # ds" for ds using t by (auto simp: plain_digits_def)
  then show ?thesis
    using decimal_digits_value [OF t] v by (auto simp: int_decimal_def)
qed

lemma negative_int_decimal:
  "plain_digits ds \<Longrightarrow> 45 # ds = int_decimal n \<longleftrightarrow> n < 0 \<and> digits_value ds = - n"
proof -
  assume ds: "plain_digits ds"
  have "45 # ds \<noteq> decimal_digits n" if "0 \<le> n"
    using decimal_digits_digits [OF that] by (metis list.pred_inject(2) not_digits(3))
  then show ?thesis
    using decimal_digits_value [OF ds] by (auto simp: int_decimal_def)
qed

lemma int_decimal_syntax: "canonical_decimal_syntax (Some (int_decimal n)) True"
  using decimal_digits_plain [of n] decimal_digits_plain [of "- n"]
  by (auto simp: canonical_syntax_plain int_decimal_def)

lemma nonneg_decimal_syntax: "0 \<le> n \<Longrightarrow> canonical_decimal_syntax (Some (int_decimal n)) False"
  using decimal_digits_plain [of n] by (simp add: canonical_syntax_plain int_decimal_def)

lemma parse_i64_decimal_iff:
  "parse_i64_decimal (Some t) = Some n \<longleftrightarrow> t = int_decimal n \<and> - (2 ^ 63) \<le> n \<and> n < 2 ^ 63"
proof -
  consider ds where "t = 45 # ds" "plain_digits ds" | "plain_digits t"
    | "\<not> canonical_decimal_syntax (Some t) True"
    by (auto simp: canonical_syntax_plain)
  then show ?thesis
  proof cases
    case (1 ds)
    then have v: "0 \<le> digits_value ds" by (simp add: plain_digits_def digits_value_nonneg)
    have zero: "ds = [48] \<longleftrightarrow> digits_value ds = 0"
      using 1(2) digits_value_pos [of ds] by (auto simp: plain_digits_def digits_value_def)
    have "canonical_decimal_syntax (Some t) True" using 1 by (auto simp: canonical_syntax_plain)
    with 1 zero v show ?thesis
      unfolding 1(1) negative_int_decimal [OF 1(2)]
      by (auto simp: parse_i64_decimal_def strtoll_def strtol_bits_def scan_integer_plain Let_def)
  next
    case 2
    then have v: "0 \<le> digits_value t" by (simp add: plain_digits_def digits_value_nonneg)
    have "canonical_decimal_syntax (Some t) True" "t \<noteq> [45, 48]"
      using 2 by (auto simp: canonical_syntax_plain plain_digits_def)
    with 2 v show ?thesis
      unfolding plain_int_decimal [OF 2]
      by (auto simp: parse_i64_decimal_def strtoll_def strtol_bits_def scan_integer_plain Let_def)
  next
    case 3
    then have "t \<noteq> int_decimal n" using int_decimal_syntax by auto
    with 3 show ?thesis by (simp add: parse_i64_decimal_def)
  qed
qed

lemma strtoul_plain:
  "plain_digits t \<Longrightarrow> strtoul_bits bits t =
     (if 2 ^ bits \<le> digits_value t then (2 ^ bits - 1, True, []) else (digits_value t, False, []))"
  by (simp add: strtoul_bits_def scan_integer_plain)

lemma parse_unsigned_iff:
  assumes "m < 2 ^ bits"
  shows "(canonical_decimal_syntax (Some t) False \<and>
      (case strtoul_bits bits t of (v, erange, end1) \<Rightarrow> \<not> (erange \<or> end1 \<noteq> [] \<or> m < v) \<and> v = n))
    \<longleftrightarrow> t = int_decimal n \<and> 0 \<le> n \<and> n \<le> m"
proof (cases "plain_digits t")
  case True
  then have v: "0 \<le> digits_value t" by (simp add: plain_digits_def digits_value_nonneg)
  have "canonical_decimal_syntax (Some t) False" using True by (simp add: canonical_syntax_plain)
  with True v assms show ?thesis
    unfolding plain_int_decimal [OF True] by (auto simp: strtoul_plain)
next
  case False
  then have no: "\<not> canonical_decimal_syntax (Some t) False" by (simp add: canonical_syntax_plain)
  moreover have "\<not> (t = int_decimal n \<and> 0 \<le> n)" using no nonneg_decimal_syntax by auto
  ultimately show ?thesis by blast
qed

lemma parse_revision_decimal_iff:
  "parse_revision_decimal (Some t) = Some r \<longleftrightarrow> t = u64_decimal r \<and> r \<le> ESDB_REVISION_MAX"
proof -
  obtain v erange end1 where s: "strtoul_bits 64 t = (v, erange, end1)" by (cases "strtoul_bits 64 t")
  have m: "uint ESDB_REVISION_MAX < 2 ^ 64" by simp
  note iff = parse_unsigned_iff [OF m, of t, unfolded s, simplified]
  show ?thesis
  proof
    assume "parse_revision_decimal (Some t) = Some r"
    then have c: "canonical_decimal_syntax (Some t) False" "\<not> erange" "end1 = []" "v \<le> 9223372036854775807"
      and r: "r = of_int v"
      by (auto simp: parse_revision_decimal_def strtoull_def s split: if_splits)
    with iff [of v] have t: "t = int_decimal v" "0 \<le> v" by auto
    then have "uint r = v" unfolding r using c(4) by (simp add: uint_word_of_int_eq take_bit_int_eq_self)
    with t c(4) show "t = u64_decimal r \<and> r \<le> ESDB_REVISION_MAX"
      by (simp add: u64_decimal_def word_le_def)
  next
    assume a: "t = u64_decimal r \<and> r \<le> ESDB_REVISION_MAX"
    then have "t = int_decimal (uint r) \<and> 0 \<le> uint r \<and> uint r \<le> 9223372036854775807"
      by (simp add: u64_decimal_def word_le_def)
    with iff [of "uint r"] have "canonical_decimal_syntax (Some t) False" "\<not> erange" "end1 = []"
      "v \<le> 9223372036854775807" "v = uint r" by auto
    then show "parse_revision_decimal (Some t) = Some r"
      by (simp add: parse_revision_decimal_def strtoull_def s)
  qed
qed

lemma parse_u32_decimal_iff:
  assumes "32 \<le> pf_long_bits P"
  shows "parse_u32_decimal P t = Some k \<longleftrightarrow> t = u32_decimal k"
proof -
  obtain v erange end1 where s: "strtoul_bits (pf_long_bits P) t = (v, erange, end1)"
    by (cases "strtoul_bits (pf_long_bits P) t")
  have "(2 :: int) ^ 32 \<le> 2 ^ pf_long_bits P" using assms by (intro power_increasing) simp_all
  then have m: "(4294967295 :: int) < 2 ^ pf_long_bits P" by simp
  note iff = parse_unsigned_iff [OF m, of t, unfolded s, simplified]
  show ?thesis
  proof
    assume "parse_u32_decimal P t = Some k"
    then have c: "canonical_decimal_syntax (Some t) False" "\<not> erange" "end1 = []" "v \<le> 4294967295"
      and k: "k = of_int v"
      by (auto simp: parse_u32_decimal_def strtoul_def s split: if_splits)
    with iff [of v] have t: "t = int_decimal v" "0 \<le> v" by auto
    then have "uint k = v" unfolding k using c(4) by (simp add: uint_word_of_int_eq take_bit_int_eq_self)
    with t show "t = u32_decimal k" by (simp add: u32_decimal_def)
  next
    assume a: "t = u32_decimal k"
    have "uint k < 2 ^ 32" using uint_bounded [of k] by simp
    then have "uint k \<le> 4294967295" by simp
    with a have "t = int_decimal (uint k) \<and> 0 \<le> uint k \<and> uint k \<le> 4294967295"
      by (simp add: u32_decimal_def)
    with iff [of "uint k"] have "canonical_decimal_syntax (Some t) False" "\<not> erange" "end1 = []"
      "v \<le> 4294967295" "v = uint k" by auto
    then show "parse_u32_decimal P t = Some k"
      by (simp add: parse_u32_decimal_def strtoul_def s)
  qed
qed

section \<open>Doubles\<close>

lemma ascii_words:
  "ascii ''NaN'' = [78, 97, 78]" "ascii ''-0'' = [45, 48]"
  "ascii ''Infinity'' = [73, 110, 102, 105, 110, 105, 116, 121]"
  "ascii ''-Infinity'' = [45, 73, 110, 102, 105, 110, 105, 116, 121]"
  "ascii ''V1:'' = [86, 49, 58]" "ascii ''P1:'' = [80, 49, 58]"
  by code_simp+

text \<open>The doubles that keep their bits: the quiet NaN stands for every NaN.\<close>

definition survives :: "platform \<Rightarrow> u64 \<Rightarrow> bool" where
  "survives P b \<longleftrightarrow> b = QUIET_NAN \<or> double_isinf b \<or> reads_back P b"

lemma dbl_special:
  "double_isnan QUIET_NAN" "dbl_mantissa NEGATIVE_ZERO = 0" "dbl_negative NEGATIVE_ZERO"
  by code_simp+

lemma print_double_hd:
  assumes "dbl_mantissa b \<noteq> 0"
  shows "\<exists>c cs. is_digit c \<and> (print_double b = c # cs \<or> print_double b = 45 # c # cs)"
proof -
  have m: "0 < dbl_mantissa b" using assms dbl_mantissa_range(1) [of b] by linarith
  obtain n d where nd: "dbl_ratio b = (n, d)" by fastforce
  then have d: "0 < d" and ratio: "real_of_int n / real_of_int d = real_of_int (dbl_mantissa b) * 2 powi dbl_scale b"
    using scaled_ratio [of 2 "dbl_mantissa b" "dbl_scale b"] by (simp_all add: dbl_ratio_def)
  have "0 < real_of_int n / real_of_int d" unfolding ratio using m by simp
  with d have n: "0 < n" by (simp add: zero_less_divide_iff)
  obtain q x where qx: "significant_digits b = (q, x)" by fastforce
  from significant_digits_close(1,2) [OF qx nd n d]
  have "print_magnitude q x \<noteq> []" "is_digit (hd (print_magnitude q x))" by (rule print_magnitude_hd)+
  then show ?thesis using assms qx by (cases "print_magnitude q x") (auto simp: print_double_def)
qed

lemma double_round_trip:
  assumes "pf_point P = 46" and "survives P b"
  shows "parse_double_decimal P (double_decimal b) = Some b"
proof -
  consider "b = QUIET_NAN" | "double_isinf b" | "double_finite b" "reads_back P b"
    using assms(2) by (auto simp: survives_def reads_back_def)
  then show ?thesis
  proof cases
    case 1
    then show ?thesis by (simp add: double_decimal_def parse_double_decimal_def dbl_special ascii_words)
  next
    case 2
    then have "\<not> double_isnan b" by (simp add: double_isinf_def double_isnan_def)
    moreover have "b = (if dbl_negative b then NEGATIVE_INFINITY else POSITIVE_INFINITY)"
    proof -
      have "dbl_scale b = 972" "dbl_mantissa b = 2 ^ 52"
        using 2 by (simp_all add: double_isinf_def dbl_scale_def dbl_mantissa_def)
      then have "with_sign (dbl_negative b) (2047 * 2 ^ 52) = b"
        using dbl_bits [of b] by simp
      then show ?thesis by (cases "dbl_negative b") (simp_all add: with_sign_def)
    qed
    ultimately show ?thesis using 2
      by (cases "dbl_negative b") (simp_all add: double_decimal_def parse_double_decimal_def ascii_words)
  next
    case 3
    then have no: "\<not> double_isnan b" "\<not> double_isinf b"
      by (simp_all add: double_finite_def double_isnan_def double_isinf_def)
    note reread = strtod_print_double [OF assms(1) 3(2)]
    show ?thesis
    proof (cases "dbl_mantissa b = 0")
      case zero: True
      show ?thesis
      proof (cases "dbl_negative b")
        case True
        have "reads_back P NEGATIVE_ZERO" by (simp add: reads_back_def double_finite_def dbl_exponent_def dbl_fraction_def)
        from strtod_print_double [OF assms(1) this] have "strtod P [45, 48] = (NEGATIVE_ZERO, False, [])"
          by (simp add: print_double_def dbl_special)
        moreover have "print_double b = [45, 48]" using True zero by (simp add: print_double_def)
        ultimately have "b = NEGATIVE_ZERO" using reread by simp
        then show ?thesis using True zero no
          by (simp add: double_decimal_def parse_double_decimal_def ascii_words)
      next
        case False
        then have "print_double b = [48]" using zero by (simp add: print_double_def)
        then show ?thesis using no zero False reread
          by (simp add: double_decimal_def parse_double_decimal_def ascii_words)
      qed
    next
      case False
      then obtain c cs where c: "is_digit c" "print_double b = c # cs \<or> print_double b = 45 # c # cs"
        using print_double_hd by blast
      have other: "\<not> is_digit 78" "\<not> is_digit 73" by (simp_all add: is_digit_def)
      have "print_double b \<noteq> []" "print_double b \<noteq> ascii ''NaN''" "print_double b \<noteq> ascii ''Infinity''"
        "print_double b \<noteq> ascii ''-Infinity''"
        using c other not_digits(3) by (auto simp: ascii_words)
      moreover have "print_double b \<noteq> ascii ''-0''"
      proof
        assume "print_double b = ascii ''-0''"
        moreover have "reads_back P NEGATIVE_ZERO"
          by (simp add: reads_back_def double_finite_def dbl_exponent_def dbl_fraction_def)
        from strtod_print_double [OF assms(1) this] have "strtod P [45, 48] = (NEGATIVE_ZERO, False, [])"
          by (simp add: print_double_def dbl_special)
        ultimately have "b = NEGATIVE_ZERO" using reread by (simp add: ascii_words)
        with False show False by (simp add: dbl_special)
      qed
      ultimately show ?thesis using no False reread by (simp add: double_decimal_def parse_double_decimal_def)
    qed
  qed
qed

section \<open>Hexadecimal text\<close>

lemma hex_character_nibble:
  assumes "0 \<le> k" and "k < 16"
  shows "hex_nibble (hex_character k) = k"
proof -
  have u: "uint (of_int m :: byte) = m" if "0 \<le> m" "m < 256" for m
    using that by (simp only: uint_word_of_int_eq) (simp add: take_bit_int_eq_self)
  show ?thesis
  proof (cases "k < 10")
    case True
    with assms u [of "48 + k"] show ?thesis by (simp add: hex_character_def hex_nibble_def word_le_def)
  next
    case False
    with assms u [of "55 + k"] show ?thesis by (simp add: hex_character_def hex_nibble_def word_le_def)
  qed
qed

lemma hex_encode_Cons:
  "hex_encode (b # bs) = hex_character (uint b div 16) # hex_character (uint b mod 16) # hex_encode bs"
  by (simp add: hex_encode_def)

lemma length_hex_encode: "length (hex_encode bs) = 2 * length bs"
  by (induction bs) (simp_all add: hex_encode_Cons, simp add: hex_encode_def)

lemma hex_round_trip: "hex_decode (Some (hex_encode bs)) = Some bs"
proof -
  have "hex_pairs (hex_encode bs) = Some bs"
  proof (induction bs)
    case Nil
    then show ?case by (simp add: hex_encode_def)
  next
    case (Cons b bs)
    have "uint b < 256" using uint_bounded [of b] by simp
    then have hi: "0 \<le> uint b div 16" "uint b div 16 < 16" using uint_ge_0 [of b] by (simp_all add: pos_imp_zdiv_nonneg_iff)
    have "of_int (16 * (uint b div 16) + uint b mod 16) = b" by (simp only: mult_div_mod_eq) simp
    with Cons hi show ?case by (simp add: hex_encode_Cons hex_character_nibble)
  qed
  then show ?thesis by (simp add: hex_decode_def length_hex_encode)
qed

section \<open>Values\<close>

text \<open>No payload holds a separator of the wire.\<close>

definition plain_text :: "byte list \<Rightarrow> bool" where
  "plain_text t \<longleftrightarrow> (\<forall>c \<in> set t. c \<noteq> 10 \<and> c \<noteq> 58 \<and> c \<noteq> 124)"

lemma plain_text_simps [simp]:
  "plain_text []" "plain_text (c # t) \<longleftrightarrow> (c \<noteq> 10 \<and> c \<noteq> 58 \<and> c \<noteq> 124) \<and> plain_text t"
  "plain_text (t @ u) \<longleftrightarrow> plain_text t \<and> plain_text u"
  by (auto simp: plain_text_def)

lemma digits_plain_text: "list_all is_digit ds \<Longrightarrow> plain_text ds"
proof -
  have "\<not> is_digit 10" "\<not> is_digit 58" "\<not> is_digit 124" by (simp_all add: is_digit_def)
  then show "list_all is_digit ds \<Longrightarrow> plain_text ds" by (auto simp: plain_text_def list_all_iff)
qed

lemma int_decimal_plain [simp]: "plain_text (int_decimal n)"
  using decimal_digits_digits [of n] decimal_digits_digits [of "- n"]
  by (auto simp: int_decimal_def intro: digits_plain_text)

lemma with_point_plain: "plain_text whole \<Longrightarrow> plain_text fraction \<Longrightarrow> plain_text (with_point whole fraction)"
proof -
  assume "plain_text whole" "plain_text fraction"
  moreover obtain k where "fraction = strip_zeros fraction @ replicate k 48" using strip_zeros_append by blast
  ultimately have "plain_text (strip_zeros fraction)" by (metis plain_text_simps(3))
  with \<open>plain_text whole\<close> show ?thesis by (simp add: with_point_def)
qed

lemma print_magnitude_plain: "0 \<le> q \<Longrightarrow> plain_text (print_magnitude q x)"
proof -
  assume "0 \<le> q"
  then have ds: "plain_text (decimal_digits q)" by (simp add: digits_plain_text decimal_digits_digits)
  have part: "plain_text (take k (decimal_digits q))" "plain_text (drop k (decimal_digits q))" for k
    using ds by (metis append_take_drop_id plain_text_simps(3))+
  have zeros: "plain_text (replicate k 48)" for k by (simp add: plain_text_def)
  have x: "plain_text (exponent_text x)"
    using decimal_digits_digits [of "\<bar>x\<bar>"] by (auto simp: exponent_text_def intro: digits_plain_text)
  show ?thesis
    using part zeros ds x by (auto simp: print_magnitude_def Let_def intro!: with_point_plain)
qed

lemma double_decimal_plain [simp]: "plain_text (double_decimal b)"
proof -
  have "plain_text (print_double b)" if "dbl_mantissa b \<noteq> 0"
  proof -
    have m: "0 < dbl_mantissa b" using that dbl_mantissa_range(1) [of b] by linarith
    obtain n d where nd: "dbl_ratio b = (n, d)" by fastforce
    then have d: "0 < d" and ratio: "real_of_int n / real_of_int d = real_of_int (dbl_mantissa b) * 2 powi dbl_scale b"
      using scaled_ratio [of 2 "dbl_mantissa b" "dbl_scale b"] by (simp_all add: dbl_ratio_def)
    have "0 < real_of_int n / real_of_int d" unfolding ratio using m by simp
    with d have n: "0 < n" by (simp add: zero_less_divide_iff)
    obtain q x where qx: "significant_digits b = (q, x)" by fastforce
    have "0 \<le> q" using significant_digits_close(1) [OF qx nd n d] by simp
    then show ?thesis using that qx by (simp add: print_double_def print_magnitude_plain)
  qed
  then show ?thesis
    by (cases "dbl_mantissa b = 0") (auto simp: double_decimal_def ascii_words print_double_def)
qed

lemma hex_encode_plain [simp]: "plain_text (hex_encode bs)"
proof (induction bs)
  case Nil
  then show ?case by (simp add: hex_encode_def)
next
  case (Cons b bs)
  have "uint b < 256" using uint_bounded [of b] by simp
  then have k: "0 \<le> uint b div 16" "uint b div 16 < 16" "0 \<le> uint b mod 16" "uint b mod 16 < 16"
    using uint_ge_0 [of b] by (simp_all add: pos_imp_zdiv_nonneg_iff)
  have "hex_nibble 10 = - 1" "hex_nibble 58 = - 1" "hex_nibble 124 = - 1" by (simp_all add: hex_nibble_def)
  then have "hex_character j \<noteq> 10 \<and> hex_character j \<noteq> 58 \<and> hex_character j \<noteq> 124"
    if "0 \<le> j" "j < 16" for j
    using hex_character_nibble [OF that] that by auto
  with k Cons show ?case by (simp add: hex_encode_Cons)
qed

text \<open>What the wire of a value can carry.\<close>

definition carried :: "platform \<Rightarrow> esdb_value \<Rightarrow> bool" where
  "carried P v \<longleftrightarrow>
     canonical v \<and> length (ev_payload v) < 2 ^ 63 \<and>
     (ev_type v = ESDB_VALUE_DOUBLE \<longrightarrow> survives P (read_le64 (ev_payload v)))"

definition portable :: "platform \<Rightarrow> bool" where
  "portable P \<longleftrightarrow> pf_point P = 46 \<and> 32 \<le> pf_long_bits P"

definition allocates :: "value_alloc \<Rightarrow> bool" where
  "allocates alloc \<longleftrightarrow> va_object alloc \<and> va_payload alloc"

lemma fill_done:
  "allocates alloc \<Longrightarrow> fill_payload alloc p m (allocate_value alloc t True) = Done \<lparr>ev_type = t, ev_payload = p\<rparr>"
  by (simp add: fill_payload_Done allocates_def)

lemma value_types:
  assumes "valid_value_type t"
  shows "t \<in> {ESDB_VALUE_NULL, ESDB_VALUE_BOOL, ESDB_VALUE_INT32, ESDB_VALUE_INT64, ESDB_VALUE_DOUBLE,
    ESDB_VALUE_UTF8, ESDB_VALUE_BYTES, ESDB_VALUE_ARRAY, ESDB_VALUE_OBJECT}"
proof -
  have "unat t \<le> 8" using assms by (simp add: valid_value_type_def word_le_nat_alt)
  then have "unat t \<in> {0, 1, 2, 3, 4, 5, 6, 7, 8}" by auto
  then show ?thesis by (auto simp: word_unat_eq_iff)
qed

lemma data_payload:
  assumes "ev_type v \<in> {ESDB_VALUE_UTF8, ESDB_VALUE_BYTES, ESDB_VALUE_ARRAY, ESDB_VALUE_OBJECT}"
    and "length (ev_payload v) < 2 ^ 63"
  shows "value_payload v = Some (hex_encode (ev_payload v))"
proof -
  have u: "unat (of_nat (length (ev_payload v)) :: u64) = length (ev_payload v)"
    using assms(2) by (simp add: unat_of_nat)
  then have "\<not> (9223372036854775807 < (of_nat (length (ev_payload v)) :: u64))"
    using assms(2) by (simp add: word_less_nat_alt)
  moreover have "\<not> ev_type v < 5"
    using assms(1) by auto
  ultimately show ?thesis
    using assms(1) u
    by (auto simp: value_payload_def Let_def esdb_value_type_of_def esdb_value_get_data_def)
qed

text \<open>A non-empty buffer is given with its length, an empty one is null.\<close>

lemma buffer_taken:
  fixes p :: "byte list"
  assumes "length p < 2 ^ 63"
  shows "\<not> (0 < (of_nat (length p) :: u64) \<and> buffer_of p = None)"
    and "(if 0 < (of_nat (length p) :: u64) then take (unat (of_nat (length p) :: u64)) (the (buffer_of p)) else []) = p"
    and "valid_utf8 (Some p) (length p) \<Longrightarrow> valid_utf8 (buffer_of p) (unat (of_nat (length p) :: u64))"
proof -
  have len: "length p < 2 ^ 64" using assms by simp
  then have u: "unat (of_nat (length p) :: u64) = length p" by (simp add: unat_of_nat)
  show "\<not> (0 < (of_nat (length p) :: u64) \<and> buffer_of p = None)"
    using buffer_length_zero [OF len] by (simp add: buffer_of_def)
  show "(if 0 < (of_nat (length p) :: u64) then take (unat (of_nat (length p) :: u64)) (the (buffer_of p)) else []) = p"
    unfolding u using buffer_length_zero [OF len] by (simp add: buffer_of_def)
  show "valid_utf8 (buffer_of p) (unat (of_nat (length p) :: u64))" if "valid_utf8 (Some p) (length p)"
    unfolding u using that by (cases p) (simp_all add: buffer_of_def valid_utf8_def)
qed

lemma create_data_value:
  assumes "allocates alloc" and "length p < 2 ^ 63"
  shows "esdb_value_create_bytes alloc (buffer_of p) (of_nat (length p)) True
      = Done \<lparr>ev_type = ESDB_VALUE_BYTES, ev_payload = p\<rparr>"
    and "t \<in> {ESDB_VALUE_UTF8, ESDB_VALUE_ARRAY, ESDB_VALUE_OBJECT} \<Longrightarrow> valid_utf8 (Some p) (length p) \<Longrightarrow>
      esdb_value_create_text alloc t (buffer_of p) (of_nat (length p)) True = Done \<lparr>ev_type = t, ev_payload = p\<rparr>"
proof -
  note b = buffer_taken [OF assms(2)]
  show "esdb_value_create_bytes alloc (buffer_of p) (of_nat (length p)) True
      = Done \<lparr>ev_type = ESDB_VALUE_BYTES, ev_payload = p\<rparr>"
    unfolding esdb_value_create_bytes_def b(2) if_not_P [OF b(1)] by (rule fill_done [OF assms(1)])
  assume t: "t \<in> {ESDB_VALUE_UTF8, ESDB_VALUE_ARRAY, ESDB_VALUE_OBJECT}" and u: "valid_utf8 (Some p) (length p)"
  have not_type: "\<not> (t \<noteq> ESDB_VALUE_UTF8 \<and> t \<noteq> ESDB_VALUE_ARRAY \<and> t \<noteq> ESDB_VALUE_OBJECT)" using t by blast
  have "\<not> (0 < (of_nat (length p) :: u64) \<and> buffer_of p = None \<or>
      \<not> valid_utf8 (buffer_of p) (unat (of_nat (length p) :: u64)))"
    using b(1) b(3) [OF u] by blast
  then show "esdb_value_create_text alloc t (buffer_of p) (of_nat (length p)) True = Done \<lparr>ev_type = t, ev_payload = p\<rparr>"
    unfolding esdb_value_create_text_def if_not_P [OF not_type] by (simp only: if_False b(2) fill_done [OF assms(1)])
qed

lemma text_value_round_trip:
  assumes "allocates alloc" and "canonical v" and "length (ev_payload v) < 2 ^ 63"
    and "ev_type v \<in> {ESDB_VALUE_UTF8, ESDB_VALUE_BYTES, ESDB_VALUE_ARRAY, ESDB_VALUE_OBJECT}"
  shows "make_text_value alloc (ev_type v) (Some (hex_encode (ev_payload v))) = Done v"
proof -
  have v: "\<lparr>ev_type = ev_type v, ev_payload = ev_payload v\<rparr> = v" by simp
  have not_lead: "ev_type v \<noteq> ESDB_VALUE_NULL" "ev_type v \<noteq> ESDB_VALUE_INT64"
    using assms(4) by auto
  show ?thesis
  proof (cases "ev_type v = ESDB_VALUE_BYTES")
    case True
    have "make_text_value alloc ESDB_VALUE_BYTES (Some (hex_encode (ev_payload v)))
        = esdb_value_create_bytes alloc (buffer_of (ev_payload v)) (of_nat (length (ev_payload v))) True"
      by (simp only: make_text_value_def hex_round_trip option.case refl if_True) simp
    also have "\<dots> = Done v"
      unfolding create_data_value(1) [OF assms(1,3)] using v True by (simp only:)
    finally show ?thesis unfolding True .
  next
    case False
    then have t: "ev_type v \<in> {ESDB_VALUE_UTF8, ESDB_VALUE_ARRAY, ESDB_VALUE_OBJECT}" using assms(4) by simp
    have "valid_utf8 (Some (ev_payload v)) (length (ev_payload v))"
      using assms(2) t False by (auto simp: canonical_def payload_valid_def)
    note created = create_data_value(2) [OF assms(1,3) t this]
    have made: "esdb_value_create_text alloc (ev_type v) (buffer_of (ev_payload v)) (of_nat (length (ev_payload v))) True
        = Done v" using created unfolding v .
    have textual: "ev_type v = ESDB_VALUE_UTF8 \<or> ev_type v = ESDB_VALUE_ARRAY \<or> ev_type v = ESDB_VALUE_OBJECT"
      using t by blast
    have "make_text_value alloc (ev_type v) (Some (hex_encode (ev_payload v)))
        = esdb_value_create_text alloc (ev_type v) (buffer_of (ev_payload v)) (of_nat (length (ev_payload v))) True"
      by (simp only: make_text_value_def hex_round_trip option.case False not_lead textual if_False if_True)
    with made show ?thesis by (simp only:)
  qed
qed

lemma payload_round_trip:
  assumes "portable P" and "carried P v" and "allocates alloc"
  shows "\<exists>p. value_payload v = Some p \<and> plain_text p \<and> parse_typed_payload P alloc (ev_type v) p = Some v"
proof -
  have c: "canonical v" "length (ev_payload v) < 2 ^ 63" using assms(2) by (simp_all add: carried_def)
  then have "valid_value_type (ev_type v)" by (simp add: canonical_def)
  note types = value_types [OF this]
  have shape: "payload_valid (ev_type v) (ev_payload v)" using c by (simp add: canonical_def)
  obtain t d where v: "v = \<lparr>ev_type = t, ev_payload = d\<rparr>" by (cases v)
  note fill = fill_done [OF assms(3)]
  consider "ev_type v = ESDB_VALUE_NULL" | "ev_type v = ESDB_VALUE_BOOL" | "ev_type v = ESDB_VALUE_INT32"
    | "ev_type v = ESDB_VALUE_INT64" | "ev_type v = ESDB_VALUE_DOUBLE"
    | "ev_type v \<in> {ESDB_VALUE_UTF8, ESDB_VALUE_BYTES, ESDB_VALUE_ARRAY, ESDB_VALUE_OBJECT}"
    using types by auto
  then show ?thesis
  proof cases
    case 1
    then have "ev_payload v = []" using shape by (simp add: payload_valid_def)
    with 1 assms(3) show ?thesis
      by (simp add: v value_payload_def esdb_value_type_of_def parse_typed_payload_def esdb_value_create_null_def
          allocate_value_def allocates_def done_value_def)
  next
    case 2
    then have "d = [0] \<or> d = [1]" using shape by (auto simp: v payload_valid_def)
    then show ?thesis
      using 2 by (elim disjE) (simp_all add: v value_payload_def esdb_value_type_of_def esdb_value_get_bool_def
          parse_typed_payload_def esdb_value_create_bool_def fill done_value_def)
  next
    case 3
    then have len: "length (ev_payload v) = 4" using shape by (simp add: payload_valid_def)
    let ?x = "read_le32 (ev_payload v)"
    have bounds: "- 2147483648 \<le> sint ?x" "sint ?x < 2147483648"
      using sint_greater_eq [of ?x] sint_less [of ?x] by simp_all
    then have "parse_i64_decimal (Some (int_decimal (sint ?x))) = Some (sint ?x)"
      by (simp add: parse_i64_decimal_iff)
    then have "parse_typed_payload P alloc ESDB_VALUE_INT32 (int_decimal (sint ?x)) = Some v"
      using bounds 3 append_read_le32 [OF len]
      by (simp add: v parse_typed_payload_def esdb_value_create_int32_def fill done_value_def)
    moreover have "value_payload v = Some (int_decimal (sint ?x))"
      using 3 len by (simp add: value_payload_def esdb_value_type_of_def esdb_value_get_int32_def)
    ultimately show ?thesis using 3 by simp
  next
    case 4
    then have len: "length (ev_payload v) = 8" using shape by (simp add: payload_valid_def)
    let ?x = "read_le64 (ev_payload v)"
    have "parse_i64_decimal (Some (int_decimal (sint ?x))) = Some (sint ?x)"
      using sint_greater_eq [of ?x] sint_less [of ?x] by (simp add: parse_i64_decimal_iff)
    then have "parse_typed_payload P alloc ESDB_VALUE_INT64 (int_decimal (sint ?x)) = Some v"
      using 4 append_read_le64 [OF len]
      by (simp add: v parse_typed_payload_def esdb_value_create_int64_def fill done_value_def)
    moreover have "value_payload v = Some (int_decimal (sint ?x))"
      using 4 len by (simp add: value_payload_def esdb_value_type_of_def esdb_value_get_int64_def i64_decimal_def)
    ultimately show ?thesis using 4 by simp
  next
    case 5
    then have len: "length (ev_payload v) = 8" using shape by (simp add: payload_valid_def)
    let ?x = "read_le64 (ev_payload v)"
    have "parse_double_decimal P (double_decimal ?x) = Some ?x"
      using assms(1,2) 5 by (intro double_round_trip) (simp_all add: portable_def carried_def)
    then have "parse_typed_payload P alloc ESDB_VALUE_DOUBLE (double_decimal ?x) = Some v"
      using 5 append_read_le64 [OF len]
      by (simp add: v parse_typed_payload_def esdb_value_create_double_def fill done_value_def)
    moreover have "value_payload v = Some (double_decimal ?x)"
      using 5 len by (simp add: value_payload_def esdb_value_type_of_def esdb_value_get_double_def)
    ultimately show ?thesis using 5 by simp
  next
    case 6
    then have "ev_type v \<noteq> ESDB_VALUE_NULL" "ev_type v \<noteq> ESDB_VALUE_BOOL" "ev_type v \<noteq> ESDB_VALUE_INT32"
      "ev_type v \<noteq> ESDB_VALUE_INT64" "ev_type v \<noteq> ESDB_VALUE_DOUBLE" by auto
    then have "parse_typed_payload P alloc (ev_type v) (hex_encode (ev_payload v))
        = done_value (make_text_value alloc (ev_type v) (Some (hex_encode (ev_payload v))))"
      unfolding parse_typed_payload_def by (simp only: 6 if_True if_False)
    then have "parse_typed_payload P alloc (ev_type v) (hex_encode (ev_payload v)) = Some v"
      unfolding text_value_round_trip [OF assms(3) c 6] by (simp add: done_value_def)
    with data_payload [OF 6 c(2)] show ?thesis by simp
  qed
qed

section \<open>Value wires\<close>

lemma split_at_plain:
  assumes "c \<notin> set xs"
  shows "split_at c (xs @ c # ys) = Some (xs, ys)"
proof -
  have "takeWhile (\<lambda>x. x \<noteq> c) (xs @ c # ys) = xs" "dropWhile (\<lambda>x. x \<noteq> c) (xs @ c # ys) = c # ys"
    using assms by (auto simp: takeWhile_append dropWhile_append takeWhile_eq_all_conv)
  then show ?thesis by (simp add: split_at_def)
qed

lemma u32_decimal_plain [simp]: "plain_text (u32_decimal k)"
  by (simp add: u32_decimal_def)

lemma u32_decimal_nonempty: "u32_decimal k \<noteq> []"
  by (simp add: u32_decimal_def int_decimal_def)

lemma value_wire_Some:
  "value_payload v = Some p \<Longrightarrow>
     value_wire (Some v) = Some ([86, 49, 58] @ u32_decimal (ev_type v) @ [58] @ p)"
  by (simp add: value_wire_def wire_tag_def ascii_words)

lemma parse_value_wire:
  assumes "portable P" and "t \<le> ESDB_VALUE_OBJECT"
  shows "parse_query_value_wire P alloc ([86, 49, 58] @ u32_decimal t @ [58] @ p) = parse_typed_payload P alloc t p"
proof -
  have "58 \<notin> set (u32_decimal t)" using u32_decimal_plain [of t] by (auto simp: plain_text_def)
  from split_at_plain [OF this, of p] have "split_at 58 (u32_decimal t @ 58 # p) = Some (u32_decimal t, p)" .
  moreover have "parse_u32_decimal P (u32_decimal t) = Some t"
    using assms(1) by (simp add: portable_def parse_u32_decimal_iff)
  moreover have "\<not> size_of ([86, 49, 58] @ u32_decimal t @ [58] @ p) < 5"
    using u32_decimal_nonempty [of t] by (cases "u32_decimal t") (auto simp: size_of_def)
  moreover have "\<not> ESDB_VALUE_OBJECT < t" using assms(2) by (simp only: not_less)
  ultimately show ?thesis
    by (simp add: parse_query_value_wire_def ascii_words)
qed

lemma carried_wire:
  assumes "portable P" and "carried P v" and "allocates alloc"
  obtains p where "value_wire (Some v) = Some ([86, 49, 58] @ u32_decimal (ev_type v) @ [58] @ p)"
    and "plain_text p"
    and "parse_query_value_wire P alloc ([86, 49, 58] @ u32_decimal (ev_type v) @ [58] @ p) = Some v"
proof -
  from payload_round_trip [OF assms] obtain p where p: "value_payload v = Some p" "plain_text p"
    "parse_typed_payload P alloc (ev_type v) p = Some v" by blast
  have "ev_type v \<le> ESDB_VALUE_OBJECT" using assms(2) by (simp add: carried_def canonical_def valid_value_type_def)
  from that [OF value_wire_Some [OF p(1)] p(2)] parse_value_wire [OF assms(1) this] p(3) show thesis by simp
qed

end
