(* ===== verification/Adapter_Round_Trips.thy ===== *)
theory Adapter_Round_Trips
  imports Adapter_Wire_Spec
begin

text \<open>
  What the wire of the ExternalObject adapter
  (src/adapters/externalobject/esdb_externalobject.cpp) carries from one side to the other:
  values, parameter packets and the records of a scan. The packets a client sends and the lines
  a client reads are written here as their format says (src/docs/ABI.md), over the adapter's own
  value encoding.
\<close>

section \<open>Values\<close>

text \<open>
  C13: a value the adapter hands out comes back unchanged when the client sends its wire as a
  parameter: for every canonical value whose number survives decimal text, in a process whose
  \<open>strtod\<close> reads a point, \<open>parse_query_value_wire\<close> of \<open>value_wire\<close> is that value: tag, payload
  bits, text bytes and all.
\<close>

theorem value_wire_round_trip:
  assumes "portable P" and "carried P v" and "allocates alloc"
  shows "\<exists>wire. value_wire (Some v) = Some wire \<and> parse_query_value_wire P alloc wire = Some v"
proof -
  obtain p where "value_wire (Some v) = Some ([86, 49, 58] @ u32_decimal (ev_type v) @ [58] @ p)"
    "parse_query_value_wire P alloc ([86, 49, 58] @ u32_decimal (ev_type v) @ [58] @ p) = Some v"
    by (rule carried_wire [OF assms])
  then show ?thesis by blast
qed

definition classic_platform :: platform where
  "classic_platform = \<lparr>pf_long_bits = 64, pf_point = 46, pf_subnormal_range = True, pf_separator = None\<rparr>"

lemma classic_portable: "portable classic_platform" and plenty_allocates: "allocates plenty"
  by (simp_all add: portable_def classic_platform_def allocates_def)

lemma carriedI:
  "canonical v \<Longrightarrow> length (ev_payload v) \<le> 8 \<Longrightarrow>
     (ev_type v = ESDB_VALUE_DOUBLE \<Longrightarrow> survives P (read_le64 (ev_payload v))) \<Longrightarrow> carried P v"
  by (simp add: carried_def)

lemma canonical_examples:
  "canonical \<lparr>ev_type = ESDB_VALUE_DOUBLE, ev_payload = append_le64 0xbfb999999999999a\<rparr>"
  "canonical \<lparr>ev_type = ESDB_VALUE_UTF8, ev_payload = [195, 169, 58, 10]\<rparr>"
  "canonical \<lparr>ev_type = ESDB_VALUE_INT64, ev_payload = append_le64 0x8000000000000000\<rparr>"
  by code_simp+

lemma survives_example: "survives classic_platform 0xbfb999999999999a"
  by code_simp

lemma carried_examples:
  "carried classic_platform \<lparr>ev_type = ESDB_VALUE_DOUBLE, ev_payload = append_le64 0xbfb999999999999a\<rparr>"
  "carried classic_platform \<lparr>ev_type = ESDB_VALUE_UTF8, ev_payload = [195, 169, 58, 10]\<rparr>"
  "carried classic_platform \<lparr>ev_type = ESDB_VALUE_INT64, ev_payload = append_le64 0x8000000000000000\<rparr>"
  using survives_example
  by (auto intro!: carriedI canonical_examples)

theorem value_wire_round_trip_witness:
  "\<exists>wire. value_wire (Some \<lparr>ev_type = ESDB_VALUE_DOUBLE, ev_payload = append_le64 0xbfb999999999999a\<rparr>) = Some wire
     \<and> parse_query_value_wire classic_platform plenty wire
         = Some \<lparr>ev_type = ESDB_VALUE_DOUBLE, ev_payload = append_le64 0xbfb999999999999a\<rparr>"
  by (rule value_wire_round_trip [OF classic_portable carried_examples(1) plenty_allocates])

text \<open>
  C38: the process locale decides whether a fractional double can be sent at all: the adapter
  prints 0.5 with a point whatever the locale, but reads numbers with \<open>strtod\<close>, which stops at the
  point wherever the locale's radix character is another; the text is then refused.
\<close>

theorem other_locales_refuse_fractions:
  assumes "pf_point P \<noteq> 46"
  shows "double_decimal 0x3fe0000000000000 = ascii ''0.5'' \<and> parse_double_decimal P (ascii ''0.5'') = None"
proof
  show "double_decimal 0x3fe0000000000000 = ascii ''0.5''" by code_simp
  have half: "ascii ''0.5'' = [48, 46, 53]" by code_simp
  have "scan_mantissa (pf_point P) is_digit [48, 46, 53] = ([48], [], [46, 53])"
    using assms by (simp add: scan_mantissa_def is_digit_def)
  moreover have "scan_exponent [101, 69] [46, 53] = (0, [46, 53])"
    by (simp add: scan_exponent_def split_sign_def)
  ultimately have "strtod_magnitude P [48, 46, 53] = Some (0, False, [46, 53])"
    by (simp add: strtod_magnitude_def starts_def lower_def scaled_def nearest_double_def digits_value_def
        split: prod.splits)
  then have "strtod P [48, 46, 53] = (with_sign False 0, False, [46, 53])"
    by (simp add: strtod_def is_space_def split_sign_def)
  then show "parse_double_decimal P (ascii ''0.5'') = None"
    unfolding half by (simp add: parse_double_decimal_def ascii_words)
qed

text \<open>A locale with a comma.\<close>

definition comma_platform :: platform where
  "comma_platform = classic_platform\<lparr>pf_point := 44\<rparr>"

theorem other_locales_refuse_fractions_witness:
  "double_decimal 0x3fe0000000000000 = ascii ''0.5'' \<and> parse_double_decimal comma_platform (ascii ''0.5'') = None"
  by (rule other_locales_refuse_fractions) (simp add: comma_platform_def classic_platform_def)

section \<open>Parameter packets\<close>

text \<open>What a client sends: the count, then one wire per line.\<close>

definition parameter_packet :: "byte list list \<Rightarrow> byte list" where
  "parameter_packet wires =
     ascii ''P1:'' @ u32_decimal (of_nat (length wires)) @ [10] @ concat (map (\<lambda>w. w @ [10]) wires)"

lemma next_line_append [simp]: "10 \<notin> set line \<Longrightarrow> next_line (line @ 10 # rest) = (line, rest)"
  by (simp add: next_line_def takeWhile_append dropWhile_append)

lemma carried_line:
  assumes "portable P" and "carried P v" and "allocates alloc"
  obtains line where "value_wire (Some v) = Some line" and "line \<noteq> []" and "10 \<notin> set line"
    and "parse_query_value_wire P alloc line = Some v"
proof -
  obtain p where p: "value_wire (Some v) = Some ([86, 49, 58] @ u32_decimal (ev_type v) @ [58] @ p)" "plain_text p"
    "parse_query_value_wire P alloc ([86, 49, 58] @ u32_decimal (ev_type v) @ [58] @ p) = Some v"
    by (rule carried_wire [OF assms])
  have "10 \<notin> set ([86, 49, 58] @ u32_decimal (ev_type v) @ [58] @ p)"
    using p(2) u32_decimal_plain [of "ev_type v"] by (auto simp: plain_text_def)
  from that [OF p(1) _ this p(3)] show thesis by simp
qed

lemma parse_parameter_lines_wires:
  assumes "portable P" and "\<forall>v \<in> set vs. carried P v" and "\<And>i. allocates (alloc i)"
  shows "parse_parameter_lines P alloc i (length vs)
           (concat (map (\<lambda>v. the (value_wire (Some v)) @ [10]) vs) @ rest) = Some (vs, rest)"
  using assms(2)
proof (induction vs arbitrary: i)
  case Nil
  then show ?case by simp
next
  case (Cons v vs)
  then have "carried P v" by simp
  from carried_line [OF assms(1) this assms(3)] obtain line where
    line: "value_wire (Some v) = Some line" "line \<noteq> []" "10 \<notin> set line" "parse_query_value_wire P (alloc i) line = Some v"
    by blast
  then show ?case using Cons by simp
qed

text \<open>
  A query receives exactly the parameters its client packed: for up to 1024 carried values
  in at most 8 MiB, \<open>parse_query_parameter_wire\<close> of the packet made of their wires is the list of
  those values, in order and with nothing left over, whatever bytes their texts hold.
\<close>

theorem parameter_packet_round_trip:
  assumes "portable P" and "\<forall>v \<in> set vs. carried P v" and "\<And>i. allocates (alloc i)"
    and "length vs \<le> 1024"
    and "size_of (parameter_packet (map (\<lambda>v. the (value_wire (Some v))) vs)) \<le> k_query_parameter_wire_max_bytes"
  shows "parse_query_parameter_wire P alloc
           (Some (parameter_packet (map (\<lambda>v. the (value_wire (Some v))) vs))) = Some vs"
proof -
  let ?n = "of_nat (length vs) :: u32"
  let ?lines = "concat (map (\<lambda>v. the (value_wire (Some v)) @ [10]) vs)"
  have n: "unat ?n = length vs" using assms(4) by (simp add: unat_of_nat)
  then have "\<not> k_query_parameter_max < ?n" using assms(4) by (simp add: word_less_nat_alt)
  moreover have packet: "parameter_packet (map (\<lambda>v. the (value_wire (Some v))) vs)
      = ([80, 49, 58] @ u32_decimal ?n) @ 10 # ?lines"
    by (simp add: parameter_packet_def ascii_words comp_def)
  moreover have "10 \<notin> set ([80, 49, 58] @ u32_decimal ?n)"
    using u32_decimal_plain [of ?n] by (auto simp: plain_text_def)
  note next_line_append [OF this, of ?lines]
  moreover have "\<not> size_of ([80, 49, 58] @ u32_decimal ?n) < 4"
    using u32_decimal_nonempty [of ?n] by (cases "u32_decimal ?n") (auto simp: size_of_def)
  moreover have "parse_u32_decimal P (u32_decimal ?n) = Some ?n"
    using assms(1) by (simp add: portable_def parse_u32_decimal_iff)
  moreover have "parse_parameter_lines P alloc 0 (length vs) ?lines = Some (vs, [])"
    using parse_parameter_lines_wires [OF assms(1-3), where rest = "[]"] by simp
  ultimately show ?thesis
    using assms(5) by (simp add: parse_query_parameter_wire_def n ascii_words)
qed

theorem parameter_packet_round_trip_witness:
  "parse_query_parameter_wire classic_platform (\<lambda>_. plenty)
     (Some (parameter_packet (map (\<lambda>v. the (value_wire (Some v)))
        [\<lparr>ev_type = ESDB_VALUE_UTF8, ev_payload = [195, 169, 58, 10]\<rparr>,
         \<lparr>ev_type = ESDB_VALUE_INT64, ev_payload = append_le64 0x8000000000000000\<rparr>])))
   = Some [\<lparr>ev_type = ESDB_VALUE_UTF8, ev_payload = [195, 169, 58, 10]\<rparr>,
         \<lparr>ev_type = ESDB_VALUE_INT64, ev_payload = append_le64 0x8000000000000000\<rparr>]"
proof (rule parameter_packet_round_trip [OF classic_portable])
  show "\<forall>v \<in> set [\<lparr>ev_type = ESDB_VALUE_UTF8, ev_payload = [195, 169, 58, 10]\<rparr>,
      \<lparr>ev_type = ESDB_VALUE_INT64, ev_payload = append_le64 0x8000000000000000\<rparr>]. carried classic_platform v"
    using carried_examples(2,3) by simp
  show "size_of (parameter_packet (map (\<lambda>v. the (value_wire (Some v)))
        [\<lparr>ev_type = ESDB_VALUE_UTF8, ev_payload = [195, 169, 58, 10]\<rparr>,
         \<lparr>ev_type = ESDB_VALUE_INT64, ev_payload = append_le64 0x8000000000000000\<rparr>]))
      \<le> k_query_parameter_wire_max_bytes" by code_simp
qed (simp_all add: plenty_allocates)

section \<open>Records\<close>

text \<open>How a client reads a scan reply: revision, key and value of each line.\<close>

definition read_record_line ::
  "platform \<Rightarrow> value_alloc \<Rightarrow> byte list \<Rightarrow> (u64 \<times> byte list \<times> esdb_value) option" where
  "read_record_line P alloc line =
     (case split_at 58 line of
        None \<Rightarrow> None
      | Some (revision, rest) \<Rightarrow>
         (case split_at 58 rest of
            None \<Rightarrow> None
          | Some (key, cell) \<Rightarrow>
             (case (parse_revision_decimal (Some revision), hex_decode (Some key),
                 parse_query_value_wire P alloc (ascii ''V1:'' @ cell)) of
                (Some r, Some k, Some v) \<Rightarrow> Some (r, k, v)
              | _ \<Rightarrow> None)))"

fun read_record_lines ::
  "platform \<Rightarrow> value_alloc \<Rightarrow> nat \<Rightarrow> byte list \<Rightarrow> (u64 \<times> byte list \<times> esdb_value) list option" where
  "read_record_lines P alloc 0 input = (if input = [] then Some [] else None)"
| "read_record_lines P alloc (Suc n) input =
     (case next_line input of
        (line, input) \<Rightarrow>
         (case (read_record_line P alloc line, read_record_lines P alloc n input) of
            (Some r, Some rs) \<Rightarrow> Some (r # rs)
          | _ \<Rightarrow> None))"

definition read_record_reply ::
  "platform \<Rightarrow> value_alloc \<Rightarrow> byte list \<Rightarrow> (u64 \<times> byte list \<times> esdb_value) list option" where
  "read_record_reply P alloc input =
     (case next_line input of
        (header, body) \<Rightarrow>
          if take 3 header \<noteq> ascii ''V1:'' then None
          else case parse_u32_decimal P (drop 3 header) of
            None \<Rightarrow> None
          | Some n \<Rightarrow> read_record_lines P alloc (unat n) body)"

lemma carried_cell:
  assumes "portable P" and "carried P v" and "allocates alloc"
  obtains cell where "value_cell v = Some cell" and "10 \<notin> set cell"
    and "parse_query_value_wire P alloc (ascii ''V1:'' @ cell) = Some v"
proof -
  obtain p where p: "value_wire (Some v) = Some ([86, 49, 58] @ u32_decimal (ev_type v) @ [58] @ p)" "plain_text p"
    "parse_query_value_wire P alloc ([86, 49, 58] @ u32_decimal (ev_type v) @ [58] @ p) = Some v"
    by (rule carried_wire [OF assms])
  let ?cell = "u32_decimal (ev_type v) @ [58] @ p"
  have "value_cell v = Some ?cell"
    using p(1) by (simp add: value_cell_def after_tag_def size_of_def ascii_words)
  moreover have "10 \<notin> set ?cell"
    using p(2) u32_decimal_plain [of "ev_type v"] by (auto simp: plain_text_def)
  ultimately show thesis using p(3) by (intro that [of ?cell]) (simp_all add: ascii_words)
qed

lemma u64_decimal_plain [simp]: "plain_text (u64_decimal r)"
  by (simp add: u64_decimal_def)

lemma plain_text_free: "plain_text t \<Longrightarrow> 10 \<notin> set t \<and> 58 \<notin> set t"
  by (auto simp: plain_text_def)

lemma read_carried_line:
  assumes "portable P" and "carried P v" and "allocates alloc" and "r \<le> ESDB_REVISION_MAX"
    and "value_cell v = Some cell"
  shows "\<exists>line. record_line r k cell = line @ [10] \<and> 10 \<notin> set line \<and> read_record_line P alloc line = Some (r, k, v)"
proof -
  from assms(5) have cell: "10 \<notin> set cell" "parse_query_value_wire P alloc (ascii ''V1:'' @ cell) = Some v"
    using carried_cell [OF assms(1-3)] by (metis option.inject)+
  let ?line = "u64_decimal r @ 58 # hex_encode k @ 58 # cell"
  note free = plain_text_free [OF u64_decimal_plain [of r]] plain_text_free [OF hex_encode_plain [of k]]
  have "split_at 58 ?line = Some (u64_decimal r, hex_encode k @ 58 # cell)"
    "split_at 58 (hex_encode k @ 58 # cell) = Some (hex_encode k, cell)"
    using free by (simp_all add: split_at_plain)
  moreover have "parse_revision_decimal (Some (u64_decimal r)) = Some r"
    using assms(4) by (simp add: parse_revision_decimal_iff)
  ultimately have "read_record_line P alloc ?line = Some (r, k, v)"
    using cell(2) by (simp add: read_record_line_def hex_round_trip)
  moreover have "record_line r k cell = ?line @ [10]" "10 \<notin> set ?line"
    using free cell(1) by (simp_all add: record_line_def)
  ultimately show ?thesis by blast
qed

text \<open>The records a window took, in order: as long as none failed, all of them.\<close>

definition took :: "record_context \<Rightarrow> (u64 \<times> byte list \<times> esdb_value) list \<Rightarrow> bool" where
  "took context1 rs \<longleftrightarrow> \<not> rx_failed context1 \<and> rx_count context1 = length rs \<and>
     rx_body context1 = concat (map (\<lambda>(r, k, v). record_line r k (the (value_cell v))) rs)
     \<and> (\<forall>(r, k, v) \<in> set rs. value_cell v \<noteq> None)"

lemma append_record_line_cases:
  assumes "took context1 rs"
  obtains context2 where "append_record_line grows context1 r k v = (Cb_Stop, context2)" and "rx_failed context2"
  | context2 where "append_record_line grows context1 r k v = (Cb_Continue, context2)"
      and "took context2 (rs @ [(r, k, v)])"
proof (cases "if grows (rx_count context1) then value_cell v else None")
  case None
  then show thesis using that(1) by (simp add: append_record_line_def)
next
  case (Some cell)
  then have "value_cell v = Some cell" by (simp split: if_splits)
  let ?context2 = "context1\<lparr>rx_body := rx_body context1 @ record_line r k cell,
      rx_count := Suc (rx_count context1)\<rparr>"
  have "append_record_line grows context1 r k v = (Cb_Continue, ?context2)"
    using Some by (simp add: append_record_line_def)
  moreover have "took ?context2 (rs @ [(r, k, v)])"
    using assms \<open>value_cell v = Some cell\<close> by (simp add: took_def)
  ultimately show thesis by (rule that(2))
qed

lemma deliver_records:
  assumes "\<And>c e. callback c e = append_record_line grows c (fst (view e)) (fst (snd (view e))) (snd (snd (view e)))"
    and "deliver callback es seen n context1 = (threw, seen', n', context2)"
    and "took context1 rs" and "\<not> rx_failed context2"
  shows "\<not> threw \<and> took context2 (rs @ map view es) \<and> n' = n + length es"
  using assms(2,3)
proof (induction es arbitrary: seen n context1 rs)
  case Nil
  then show ?case by simp
next
  case (Cons e es)
  obtain r k v where view: "view e = (r, k, v)" by (cases "view e")
  show ?case
  proof (cases rule: append_record_line_cases [OF Cons.prems(2), of grows r k v])
    case (1 context3)
    then have "callback context1 e = (Cb_Stop, context3)" using assms(1) [of context1 e] view by simp
    with Cons.prems(1) assms(4) 1(2) show ?thesis by simp
  next
    case (2 context3)
    then have "callback context1 e = (Cb_Continue, context3)" using assms(1) [of context1 e] view by simp
    with Cons.prems(1) have "deliver callback es (Some e) (Suc n) context3 = (threw, seen', n', context2)"
      by simp
    from Cons.IH [OF this 2(2)] show ?thesis by (simp add: view)
  qed
qed

lemma took_new: "took new_record_context []"
  by (simp add: took_def new_record_context_def)

lemma read_took_lines:
  assumes "portable P" and "allocates alloc"
    and "\<forall>(r, k, v) \<in> set rs. carried P v \<and> r \<le> ESDB_REVISION_MAX \<and> value_cell v \<noteq> None"
  shows "read_record_lines P alloc (length rs)
     (concat (map (\<lambda>(r, k, v). record_line r k (the (value_cell v))) rs)) = Some rs"
  using assms(3)
proof (induction rs)
  case Nil
  then show ?case by simp
next
  case (Cons x rs)
  obtain r k v where x: "x = (r, k, v)" by (cases x)
  from Cons.prems x obtain cell where cell: "value_cell v = Some cell" "carried P v" "r \<le> ESDB_REVISION_MAX" by auto
  from read_carried_line [OF assms(1) cell(2) assms(2) cell(3,1)] obtain line where
    "record_line r k cell = line @ [10]" "10 \<notin> set line" "read_record_line P alloc line = Some (r, k, v)" by blast
  then show ?case using Cons by (simp add: x cell)
qed

lemma read_took_reply:
  assumes "portable P" and "allocates alloc" and "took context1 rs" and "length rs < 2 ^ 32"
    and "\<forall>(r, k, v) \<in> set rs. carried P v \<and> r \<le> ESDB_REVISION_MAX"
  shows "read_record_reply P alloc (record_reply context1) = Some rs"
proof -
  let ?n = "of_nat (length rs) :: u32"
  have n: "unat ?n = length rs" using assms(4) by (simp add: unat_of_nat)
  then have "uint ?n = int (length rs)" by (metis uint_nat)
  then have reply: "record_reply context1 = ([86, 49, 58] @ u32_decimal ?n) @ 10 # rx_body context1"
    using assms(3) by (simp add: record_reply_def took_def u32_decimal_def ascii_words)
  have "10 \<notin> set ([86, 49, 58] @ u32_decimal ?n)"
    using plain_text_free [OF u32_decimal_plain [of ?n]] by simp
  moreover have "parse_u32_decimal P (u32_decimal ?n) = Some ?n"
    using assms(1) by (simp add: portable_def parse_u32_decimal_iff)
  moreover have "read_record_lines P alloc (length rs) (rx_body context1) = Some rs"
    using assms(3,5) read_took_lines [OF assms(1,2), of rs] by (fastforce simp: took_def)
  ultimately show ?thesis
    unfolding read_record_reply_def reply by (subst next_line_append) (simp_all add: n ascii_words)
qed

end
