(* ===== verification/Adapter_Spec.thy ===== *)
theory Adapter_Spec
  imports Adapter_Inside Adapter_Round_Trips Open_Spec
begin

text \<open>
  What the ExternalObject adapter promises its host over any sequence of calls: calls are
  isolated from each other, the table of slots stays well formed, a handle that stopped being
  valid never becomes valid again, and the error record tells whether the last call failed.
\<close>

section \<open>Isolation\<close>

definition takes_handle :: "adapter_method \<Rightarrow> bool" where
  "takes_handle f \<longleftrightarrow> hd (signature f) = ESABI_SIG_I32"

definition method_slots :: "'h host \<Rightarrow> adapter_method \<Rightarrow> 'h list \<Rightarrow> nat set" where
  "method_slots H f argv = (if takes_handle f then named_slots H argv else {})"

lemmas invoke_inside_rules = quiet_methods slot_methods object_put_methods object_window_methods memory_methods
  store_destroy_method answering_methods finish_methods begin_method

lemma invoke_inside:
  assumes "invoke fuel ve sv E t M H f argv A = Some out" and "f \<noteq> M_openStaged" and "f \<noteq> M_close"
  shows "inside t (method_slots H f argv) A (snd out)"
  using assms
  by (cases f) (auto simp: method_slots_def takes_handle_def
      intro: query_method prune_method invoke_inside_rules [THEN insideI])

text \<open>The threads a call does not run on.\<close>

definition other_threads :: "nat \<Rightarrow> ('d, 'z) adapter \<Rightarrow> ('d, 'z) adapter \<Rightarrow> bool" where
  "other_threads t A A' \<longleftrightarrow> (\<forall>t'. t' \<noteq> t \<longrightarrow> ad_threads A' t' = ad_threads A t')"

interpretation others: call_effect "other_threads t" t for t
  by unfold_locales (auto simp: other_threads_def update_thread_def)

lemma open_close_threads:
  "bounds (other_threads t) (openStaged E t M H argv)" "bounds (other_threads t) (close1 E t H argv)"
proof -
  have "other_threads t A A'" if "openStaged E t M H argv A = (r, A')" for r A A'
    using that
    by (auto simp: openStaged_def reply_def and_then_def require_def give_up_def proceed_def may_throw_def
        open_database_def install_database_def succeed_def update_slot_def Let_def other_threads_def
        set_last_error_def clear_last_error_def update_thread_def
        split: option.splits if_splits prod.splits outcome.splits)
  then show "bounds (other_threads t) (openStaged E t M H argv)"
    unfolding bounds_def by (metis prod.collapse)
  have "other_threads t A A'" if "close1 E t H argv A = (r, A')" for r A A'
    using that
    by (auto simp: close1_def reply_def and_then_def require_def give_up_def proceed_def find_slot_def
        succeed_def update_slot_def other_threads_def set_last_error_def clear_last_error_def update_thread_def
        split: option.splits if_splits prod.splits)
  then show "bounds (other_threads t) (close1 E t H argv)"
    unfolding bounds_def by (metis prod.collapse)
qed

text \<open>A close that finds its slot closes it; any other changes no slot.\<close>

lemma close1_cases:
  assumes "close1 E t H argv A = (r, A')"
  obtains "failed t A'" and "ad_slots A' = ad_slots A"
  | token i where "get_handle H argv = Some token" and "lookup_slot token A = Some i" and "\<not> failed t A'"
      and "ad_slots A' = (ad_slots A)[i := close_slot (en_sqlite E) (ad_slots A ! i)]"
  using assms
  by (auto simp: close1_def reply_def and_then_def require_def give_up_def proceed_def find_slot_def succeed_def
      update_slot_def split: option.splits if_splits prod.splits)

text \<open>Which slots a call can change: the one its handle names; an open fills the first free one.\<close>

lemma invoke_slots:
  assumes "invoke fuel ve sv E t M H f argv A = Some (r, A')"
  shows "(\<forall>t'. t' \<noteq> t \<longrightarrow> ad_threads A' t' = ad_threads A t') \<and> length (ad_slots A') = length (ad_slots A) \<and>
     (\<forall>j < length (ad_slots A). j \<in> method_slots H f argv \<or> ad_slots A' ! j = ad_slots A ! j \<or>
        f = M_openStaged \<and> first_free (ad_slots A) = Some j \<and> \<not> failed t A' \<and>
        (\<exists>database. ad_slots A' ! j = (ad_slots A ! j)\<lparr>sl_database := Some database\<rparr>))"
proof -
  consider (other) "f \<noteq> M_openStaged" "f \<noteq> M_close" | (opened) "f = M_openStaged" | (closed) "f = M_close"
    by blast
  then show ?thesis
  proof cases
    case other
    then show ?thesis using invoke_inside [OF assms] by (auto simp: inside_def)
  next
    case opened
    then have out: "openStaged E t M H argv A = (r, A')" using assms by simp
    then have threads: "other_threads t A A'" using open_close_threads(1) by (metis bounds_def snd_conv)
    from out show ?thesis
    proof (cases rule: openStaged_cases)
      case (2 i database)
      with threads opened first_free_Some [OF 2(1)] show ?thesis
        by (auto simp: other_threads_def nth_list_update)
    qed (use threads in \<open>simp add: other_threads_def\<close>)
  next
    case closed
    then have out: "close1 E t H argv A = (r, A')" using assms by simp
    then have threads: "other_threads t A A'" using open_close_threads(2) by (metis bounds_def snd_conv)
    from out show ?thesis
    proof (cases rule: close1_cases)
      case (2 token i)
      then have "i \<in> method_slots H f argv"
        using lookup_slot_Some(1) [OF 2(2)] named_slotsI(2) by (auto simp: method_slots_def takes_handle_def closed)
      then have "j \<in> method_slots H f argv \<or> ad_slots A' ! j = ad_slots A ! j" for j
        unfolding 2(4) by (cases "i = j") simp_all
      with 2(4) threads show ?thesis unfolding other_threads_def by (metis length_list_update)
    qed (use threads in \<open>simp add: other_threads_def\<close>)
  qed
qed

section \<open>The life of a slot\<close>

text \<open>
  The age of a slot counts its openings and closings: even when it is free, odd when it is open.
  A handle of generation \<open>g\<close> is valid exactly at the age \<open>2 g + 1\<close>, and a retired slot is past all.
\<close>

definition slot_age :: "'d slot \<Rightarrow> nat" where
  "slot_age slot =
     2 * unat (sl_generation slot) + (if sl_retired slot then 2 else if sl_database slot \<noteq> None then 1 else 0)"

definition ages :: "('d, 'z) adapter \<Rightarrow> ('d, 'z) adapter \<Rightarrow> bool" where
  "ages A A' \<longleftrightarrow> length (ad_slots A') = length (ad_slots A) \<and>
     (\<forall>j < length (ad_slots A). slot_age (ad_slots A ! j) \<le> slot_age (ad_slots A' ! j))"

lemma ages_refl [simp]: "ages A A"
  by (simp add: ages_def)

lemma ages_trans: "ages A A' \<Longrightarrow> ages A' A'' \<Longrightarrow> ages A A''"
  by (fastforce simp: ages_def intro: order_trans)

lemma decode_handle_slot: "decode_handle token = Some (i, g) \<Longrightarrow> i < k_slot_count"
  by (auto simp: decode_handle_def Let_def unat_minus_one word_le_nat_alt not_less split: if_splits)

lemma lookup_slot_age:
  assumes "table_ok A"
  shows "lookup_slot token A = Some i \<longleftrightarrow>
     (\<exists>g. decode_handle token = Some (i, g) \<and> slot_age (ad_slots A ! i) = 2 * unat g + 1)"
proof (cases "decode_handle token")
  case None
  then show ?thesis by (simp add: lookup_slot_def)
next
  case (Some pair)
  then obtain k g where token: "decode_handle token = Some (k, g)" by (cases pair) simp
  let ?slot = "ad_slots A ! k"
  have "slot_ok ?slot" using assms decode_handle_slot [OF token] by (simp add: table_ok_def)
  then have "\<not> sl_retired ?slot \<and> sl_database ?slot \<noteq> None \<and> sl_generation ?slot = g \<longleftrightarrow> slot_age ?slot = 2 * unat g + 1"
  proof (cases "sl_retired ?slot")
    case True
    then have "slot_age ?slot = 2 * (unat (sl_generation ?slot) + 1)" by (simp add: slot_age_def)
    then have "slot_age ?slot \<noteq> 2 * unat g + 1" by presburger
    with True show ?thesis by simp
  next
    case False
    have "sl_generation ?slot = g \<longleftrightarrow> unat (sl_generation ?slot) = unat g" by (simp add: word_unat_eq_iff)
    moreover have "2 * unat (sl_generation ?slot) \<noteq> 2 * unat g + 1" by presburger
    ultimately show ?thesis using False by (auto simp: slot_age_def)
  qed
  then show ?thesis by (auto simp: lookup_slot_def Let_def token)
qed

lemma same_life_age: "same_life slot slot' \<Longrightarrow> slot_age slot' = slot_age slot"
  by (simp add: same_life_def slot_age_def)

lemma same_life_ok: "same_life slot slot' \<Longrightarrow> slot_ok slot \<Longrightarrow> slot_ok slot'"
  by (auto simp: same_life_def slot_ok_def)

lemma inside_life:
  assumes "inside t S A A'" and "table_ok A"
  shows "table_ok A' \<and> ages A A'"
proof -
  have len: "length (ad_slots A') = length (ad_slots A)"
    and each: "\<And>j. j < length (ad_slots A) \<Longrightarrow> same_life (ad_slots A ! j) (ad_slots A' ! j)"
    using assms(1) by (auto simp: inside_def)
  have "slot_ok slot" if "slot \<in> set (ad_slots A')" for slot
    using that each same_life_ok assms(2) len by (metis in_set_conv_nth table_ok_def)
  moreover have "slot_age (ad_slots A ! j) \<le> slot_age (ad_slots A' ! j)" if "j < length (ad_slots A)" for j
    using same_life_age [OF each [OF that]] by simp
  ultimately show ?thesis using assms(2) len by (simp add: table_ok_def ages_def)
qed

text \<open>Closing takes a slot from its odd age to the next even one.\<close>

lemma unat_generation_max: "g \<le> k_generation_max \<Longrightarrow> unat g \<le> 8388607"
  by (simp add: word_le_nat_alt)

lemma advance_generation_life:
  assumes "slot_ok slot" and "sl_database slot = None" and "\<not> sl_retired slot"
  shows "slot_ok (advance_generation slot)"
    and "slot_age (advance_generation slot) = 2 * unat (sl_generation slot) + 2"
proof -
  have g: "unat (sl_generation slot) \<le> 8388607" using assms(1) by (simp add: slot_ok_def word_le_nat_alt)
  then have next1: "unat (sl_generation slot + 1) = unat (sl_generation slot) + 1"
    by (simp add: unat_word_ariths)
  show "slot_ok (advance_generation slot)"
    using assms g next1 by (auto simp: advance_generation_def slot_ok_def word_le_nat_alt word_less_nat_alt intro: word_unat_eq_iff [THEN iffD2])
  show "slot_age (advance_generation slot) = 2 * unat (sl_generation slot) + 2"
    using assms next1 by (auto simp: advance_generation_def slot_age_def)
qed

lemma drop_transaction_ok:
  "slot_ok slot \<Longrightarrow> slot_ok (drop_transaction E slot)"
  "sl_transaction (drop_transaction E slot) = None \<or> sl_database slot = None"
proof -
  show "slot_ok slot \<Longrightarrow> slot_ok (drop_transaction E slot)"
    by (rule same_life_ok [OF drop_transaction_life])
  show "sl_transaction (drop_transaction E slot) = None \<or> sl_database slot = None"
    by (auto simp: drop_transaction_def split: option.splits)
qed

lemma close_slot_life:
  assumes "slot_ok slot" and "sl_database slot \<noteq> None"
  shows "slot_ok (close_slot E slot) \<and> slot_age slot \<le> slot_age (close_slot E slot)"
proof -
  let ?slot = "(drop_transaction E slot)\<lparr>sl_database := None\<rparr>"
  have life: "same_life slot (drop_transaction E slot)" by simp
  have "\<not> sl_retired slot" using assms by (auto simp: slot_ok_def)
  then have "\<not> sl_retired ?slot" using life by (simp add: same_life_def)
  moreover have "slot_ok ?slot"
    using drop_transaction_ok(1) [OF assms(1), of E] drop_transaction_ok(2) [where slot = slot and E = E] assms life by (auto simp: slot_ok_def same_life_def)
  moreover have "slot_age slot = 2 * unat (sl_generation slot) + 1"
    using assms(2) \<open>\<not> sl_retired slot\<close> by (simp add: slot_age_def)
  moreover have "sl_generation ?slot = sl_generation slot" using life by (simp add: same_life_def)
  ultimately show ?thesis
    using advance_generation_life [of ?slot] by (simp add: close_slot_def)
qed

lemma terminate_slot_life:
  assumes "slot_ok slot"
  shows "slot_ok (terminate_slot E slot) \<and> slot_age slot \<le> slot_age (terminate_slot E slot)"
proof (cases "sl_database slot = None")
  case True
  then have "drop_transaction E slot = slot" by (simp add: drop_transaction_def)
  with True assms show ?thesis by (simp add: terminate_slot_def)
next
  case False
  have "same_life slot (drop_transaction E slot)" by simp
  then have "sl_database (drop_transaction E slot) \<noteq> None" using False by (simp add: same_life_def)
  then have "terminate_slot E slot = close_slot E slot" by (auto simp: terminate_slot_def close_slot_def Let_def)
  with close_slot_life [OF assms False] show ?thesis by simp
qed

lemma table_update:
  assumes "table_ok A" and "ad_slots A' = (ad_slots A)[i := slot]"
    and "i < length (ad_slots A) \<Longrightarrow> slot_ok slot \<and> slot_age (ad_slots A ! i) \<le> slot_age slot"
  shows "table_ok A' \<and> ages A A'"
proof (cases "i < length (ad_slots A)")
  case True
  have "set (ad_slots A') \<subseteq> insert slot (set (ad_slots A))" unfolding assms(2) by (rule set_update_subset_insert)
  then show ?thesis
    using assms True by (auto simp: table_ok_def ages_def nth_list_update)
next
  case False
  then have "ad_slots A' = ad_slots A" using assms(2) by (simp add: list_update_beyond)
  with assms(1) show ?thesis by (simp add: table_ok_def ages_def)
qed

text \<open>Opening takes a free slot from its even age to the next odd one.\<close>

lemma opened_slot:
  assumes "table_ok A" and "first_free (ad_slots A) = Some i"
    and "ad_slots A' = (ad_slots A)[i := (ad_slots A ! i)\<lparr>sl_database := Some database\<rparr>]"
  shows "table_ok A' \<and> ages A A'"
proof -
  from first_free_Some [OF assms(2)] have free: "sl_database (ad_slots A ! i) = None" "\<not> sl_retired (ad_slots A ! i)"
    and i: "i < length (ad_slots A)" by (auto simp: free_slot_def)
  have "slot_ok (ad_slots A ! i)" using assms(1) i by (simp add: table_ok_def)
  with free show ?thesis
    by (intro table_update [OF assms(1,3)]) (simp add: slot_ok_def slot_age_def)
qed

lemma adapter_step_life:
  assumes "adapter_step E H A A'" and "table_ok A"
  shows "table_ok A' \<and> ages A A'"
  using assms(1)
proof cases
  case (step_invoke fuel ve sv t M f argv r)
  consider (other) "f \<noteq> M_openStaged" "f \<noteq> M_close" | (opened) "f = M_openStaged" | (closed) "f = M_close"
    by blast
  then show ?thesis
  proof cases
    case other
    then show ?thesis using invoke_inside [OF step_invoke] inside_life assms(2) by simp
  next
    case opened
    then have "openStaged E t M H argv A = (r, A')" using step_invoke by simp
    then show ?thesis
    proof (cases rule: openStaged_cases)
      case 1
      then show ?thesis using assms(2) by (simp add: table_ok_def ages_def)
    next
      case (2 i database)
      show ?thesis by (rule opened_slot [OF assms(2) 2(1,4)])
    qed
  next
    case closed
    then have "close1 E t H argv A = (r, A')" using step_invoke by simp
    then show ?thesis
    proof (cases rule: close1_cases)
      case 1
      then show ?thesis using assms(2) by (simp add: table_ok_def ages_def)
    next
      case (2 token i)
      have "sl_database (ad_slots A ! i) \<noteq> None" by (rule lookup_slot_Some(2) [OF 2(2)])
      then show ?thesis
        using assms(2) by (intro table_update [OF assms(2) 2(4)] close_slot_life) (simp_all add: table_ok_def)
    qed
  qed
next
  case (step_terminate t)
  have slots: "ad_slots A' = map (terminate_slot (en_sqlite E)) (ad_slots A)"
    by (simp add: step_terminate esabi_terminate_def)
  then show ?thesis
    using assms(2) terminate_slot_life by (auto simp: table_ok_def ages_def)
qed

lemma adapter_run_life: "adapter_run E H A A' \<Longrightarrow> table_ok A \<Longrightarrow> table_ok A' \<and> ages A A'"
  by (induction rule: adapter_run.induct) (auto dest: adapter_step_life intro: ages_trans)

text \<open>
  C33: over every sequence of calls of any threads, terminations included, the table keeps its
  255 slots, each with a generation between 1 and 8388607, a retired slot stays at the last
  generation without a database, and no slot without a database keeps a transaction that a later
  open could inherit.
\<close>

theorem table_stays_well_formed:
  assumes "adapter_run E H (new_adapter stores zip1) A"
  shows "length (ad_slots A) = 255 \<and>
    (\<forall>slot \<in> set (ad_slots A).
       1 \<le> unat (sl_generation slot) \<and> unat (sl_generation slot) \<le> 8388607 \<and>
       (sl_retired slot \<longrightarrow> unat (sl_generation slot) = 8388607 \<and> sl_database slot = None) \<and>
       (sl_database slot = None \<longrightarrow> sl_transaction slot = None))"
proof -
  have "table_ok A" using adapter_run_life [OF assms table_ok_new] by simp
  moreover have "0 < g \<Longrightarrow> 1 \<le> unat g" for g :: u32
    by (simp add: word_less_nat_alt)
  ultimately show ?thesis
    by (simp add: table_ok_def slot_ok_def word_le_nat_alt)
qed

text \<open>
  C12: a dead handle stays dead. Once a handle that named an open database is refused, because
  its database was closed or the adapter terminated, no later sequence of calls makes it valid
  again, however often the slot is opened and closed: stale handles never reach another database.
\<close>

theorem dead_handles_stay_dead:
  assumes "table_ok A" and "lookup_slot token A = Some i"
    and "adapter_run E H A A1" and "lookup_slot token A1 = None"
    and "adapter_run E H A1 A2"
  shows "lookup_slot token A2 = None"
proof -
  from assms(1,2) obtain g where g: "decode_handle token = Some (i, g)" "slot_age (ad_slots A ! i) = 2 * unat g + 1"
    by (auto simp: lookup_slot_age)
  then have i: "i < length (ad_slots A)" using assms(1) decode_handle_slot by (simp add: table_ok_def)
  from adapter_run_life [OF assms(3,1)] have one: "table_ok A1" "ages A A1" by simp_all
  from adapter_run_life [OF assms(5) one(1)] have two: "table_ok A2" "ages A1 A2" by simp_all
  have "slot_age (ad_slots A1 ! i) \<noteq> 2 * unat g + 1"
    using assms(4) g(1) lookup_slot_age [OF one(1), of token i] by auto
  moreover have "2 * unat g + 1 \<le> slot_age (ad_slots A1 ! i)" "slot_age (ad_slots A1 ! i) \<le> slot_age (ad_slots A2 ! i)"
    using one(2) two(2) i g(2) by (auto simp: ages_def)
  ultimately have "slot_age (ad_slots A2 ! i) \<noteq> 2 * unat g + 1" by linarith
  then have "lookup_slot token A2 \<noteq> Some j" for j
    using g(1) lookup_slot_age [OF two(1), of token j] by auto
  then show ?thesis by (cases "lookup_slot token A2") auto
qed

text \<open>
  C23: a handle is handed out once. A successful open answers a handle that was not valid before
  the call and names the new database after it, and it differs from every handle that was valid
  at any earlier time.
\<close>

theorem handles_are_never_reused:
  assumes "table_ok A0" and "lookup_slot token A0 = Some i"
    and "adapter_run E H A0 A"
    and "openStaged E t M H argv A = (R_I32 handle, A')" and "handle \<noteq> 0"
  shows "handle \<noteq> token \<and> lookup_slot handle A = None \<and> (\<exists>j. lookup_slot handle A' = Some j)"
proof -
  from adapter_run_life [OF assms(3,1)] have A: "table_ok A" "ages A0 A" by simp_all
  from assms(4) obtain j database where free: "first_free (ad_slots A) = Some j"
    and handle: "handle = encode_handle j (sl_generation (ad_slots A ! j))"
    and slots: "ad_slots A' = (ad_slots A)[j := (ad_slots A ! j)\<lparr>sl_database := Some database\<rparr>]"
    by (cases rule: openStaged_cases) (use assms(5) in auto)
  let ?slot = "ad_slots A ! j"
  from first_free_Some [OF free] have j: "j < length (ad_slots A)" "sl_database ?slot = None" "\<not> sl_retired ?slot"
    by (auto simp: free_slot_def)
  have ok: "slot_ok ?slot" using A(1) j(1) by (simp add: table_ok_def)
  then have decoded: "decode_handle handle = Some (j, sl_generation ?slot)"
    using A(1) j(1) unfolding handle slot_ok_def table_ok_def by (intro decode_encode_handle) simp_all
  then have before: "lookup_slot handle A = None" and now: "lookup_slot handle A' = Some j"
    using j by (simp_all add: lookup_slot_def slots)
  have "lookup_slot token A' = None" if same: "handle = token"
  proof -
    have "adapter_step E H A A'"
      by (rule step_invoke [where f = M_openStaged and t = t and M = M and argv = argv and r = "R_I32 handle"
          and fuel = 0 and ve = "[]" and sv = "[]"]) (simp add: assms(4))
    then have "adapter_run E H A A'" using run_more [OF run_none] by blast
    then show ?thesis using dead_handles_stay_dead [OF assms(1,2,3)] before same by blast
  qed
  then show ?thesis using before now by auto
qed

section \<open>What the host learns of a failure\<close>

lemma openStaged_exact:
  assumes "table_ok A"
  shows "exact t (R_I32 0) (openStaged E t M H argv A)"
proof -
  obtain r A' where run: "openStaged E t M H argv A = (r, A')" by fastforce
  from run show ?thesis
  proof (cases rule: openStaged_cases)
    case 1
    with run show ?thesis by (simp add: exact_def)
  next
    case (2 i database)
    from first_free_Some [OF 2(1)] have i: "i < length (ad_slots A)" by simp
    then have "0 < encode_handle i (sl_generation (ad_slots A ! i))"
      using assms by (intro encode_handle_positive) (simp_all add: table_ok_def slot_ok_def)
    with 2 run show ?thesis by (simp add: exact_def)
  qed
qed

text \<open>
  C22: a host can always tell. After every method but \<open>lastError\<close> the thread's error record is
  set exactly when the call failed: a failed call answers the failure value of its method and
  leaves an error; a call that went through clears the record and, where the failure value is
  not itself an answer, answers something else.
\<close>

theorem failures_are_reported:
  assumes "table_ok A" and "invoke fuel ve sv E t M H f argv A = Some (r, A')" and "f \<noteq> M_lastError"
  shows "(ae_code (th_last_error (ad_threads A' t)) \<noteq> ADAPTER_OK \<longrightarrow> r = failure_value f) \<and>
    (f \<notin> {M_handleCount, M_transactionActive, M_objectStoreExists, M_storeExists} \<longrightarrow>
       (r = failure_value f \<longleftrightarrow> ae_code (th_last_error (ad_threads A' t)) \<noteq> ADAPTER_OK))"
proof -
  have "verdict t (failure_value f) (r, A')" by (rule invoke_verdict [OF assms(2,3)])
  moreover have "exact t (failure_value f) (r, A')"
    if "f \<notin> {M_handleCount, M_transactionActive, M_objectStoreExists, M_storeExists}"
  proof (cases "f = M_openStaged")
    case True
    then show ?thesis using assms(2) openStaged_exact [OF assms(1), of t E M H argv] by simp
  next
    case False
    with that assms(3) show ?thesis by (intro invoke_exact [OF assms(2)]) auto
  qed
  ultimately show ?thesis by (auto simp: verdict_def exact_def failed_def simp del: failure_value.simps)
qed

section \<open>Witnesses\<close>

text \<open>A host whose values are the results themselves, on the engine that keeps every setting.\<close>

definition sample_host :: "result host" where
  "sample_host =
     \<lparr>h_i32 = (\<lambda>argv i. if i < length argv then (case argv ! i of R_I32 n \<Rightarrow> Some n | _ \<Rightarrow> None) else None),
      h_double = (\<lambda>argv i. if i < length argv then (case argv ! i of R_Double n \<Rightarrow> Some (of_int n) | _ \<Rightarrow> None) else None),
      h_string = (\<lambda>argv i. if i < length argv then (case argv ! i of R_String s \<Rightarrow> Some s | _ \<Rightarrow> None) else None)\<rparr>"

definition no_failures :: call_env where
  "no_failures =
     \<lparr>ce_throws = (\<lambda>_. None), ce_copy = True, ce_value = (\<lambda>_. plenty), ce_grows = (\<lambda>_. True),
      ce_open = (\<lambda>_. None), ce_library = (\<lambda>_. None), ce_query = \<lparr>qm_alloc = (\<lambda>_ _. plenty), qm_fetched = (\<lambda>_ _. True)\<rparr>,
      ce_query_exn = None, ce_object = Some 0, ce_config = (None, True, True), ce_clock = (\<lambda>_. 0)\<rparr>"

definition sample_engine :: "(conf_db, unit) engine" where
  "sample_engine =
     \<lparr>en_sqlite = conf_sqlite, en_open = conf_api, en_build = \<lparr>bd_has_zipvfs = False, bd_has_zstd = False\<rparr>,
      en_zip = sample_libs,
      en_query = \<lparr>qa_tail = (\<lambda>_ _. None), qa_statement = (\<lambda>_ _. False), qa_parameter_count = (\<lambda>_ _. 0),
        qa_readonly = (\<lambda>_ _. True), qa_columns = (\<lambda>_ _. []), qa_changes = (\<lambda>_. 0)\<rparr>,
      en_platform = classic_platform\<rparr>"

definition fresh_adapter :: "(conf_db, unit) adapter" where
  "fresh_adapter = new_adapter empty_world \<lparr>zw_registry = [], zw_layer = ()\<rparr>"

definition sample_call :: "adapter_method \<Rightarrow> result list \<Rightarrow> (conf_db, unit) adapter \<Rightarrow> result \<times> (conf_db, unit) adapter" where
  "sample_call f argv A = the (invoke 9 [] [] sample_engine 0 no_failures sample_host f argv A)"

definition opened_adapter :: "(conf_db, unit) adapter" where
  "opened_adapter = snd (sample_call M_openStaged [R_Double 0] (snd (sample_call M_stage [R_String [97]] fresh_adapter)))"

definition closed_adapter :: "(conf_db, unit) adapter" where
  "closed_adapter = snd (sample_call M_close [R_I32 257] opened_adapter)"

definition reopened_adapter :: "result \<times> (conf_db, unit) adapter" where
  "reopened_adapter = sample_call M_openStaged [R_Double 0] closed_adapter"

lemma sample_lookups:
  "lookup_slot 257 opened_adapter = Some 0" "lookup_slot 257 closed_adapter = None"
  "fst reopened_adapter = R_I32 513"
  by code_simp+

lemma sample_invoke:
  "f \<noteq> M_querySql \<Longrightarrow> f \<noteq> M_objectStorePrune \<Longrightarrow>
     invoke 9 [] [] sample_engine 0 no_failures sample_host f argv A = Some (sample_call f argv A)"
  by (cases f) (simp_all add: sample_call_def)

lemma sample_step:
  assumes "f \<noteq> M_querySql" and "f \<noteq> M_objectStorePrune"
  shows "adapter_run sample_engine sample_host A (snd (sample_call f argv A))"
proof -
  have "invoke 9 [] [] sample_engine 0 no_failures sample_host f argv A
      = Some (fst (sample_call f argv A), snd (sample_call f argv A))"
    using sample_invoke [OF assms] by simp
  from run_more [OF run_none step_invoke [OF this]] show ?thesis .
qed

lemma run_append: "adapter_run E H A' A'' \<Longrightarrow> adapter_run E H A A' \<Longrightarrow> adapter_run E H A A''"
  by (induction rule: adapter_run.induct) (auto intro: run_more)

lemma sample_runs:
  "adapter_run sample_engine sample_host fresh_adapter opened_adapter"
  "adapter_run sample_engine sample_host opened_adapter closed_adapter"
  "adapter_run sample_engine sample_host closed_adapter (snd reopened_adapter)"
  unfolding opened_adapter_def closed_adapter_def reopened_adapter_def
  by (rule run_append [OF sample_step sample_step] sample_step; simp)+

lemma sample_table: "table_ok opened_adapter" "table_ok fresh_adapter"
proof -
  show fresh: "table_ok fresh_adapter" unfolding fresh_adapter_def by (rule table_ok_new)
  show "table_ok opened_adapter" using adapter_run_life [OF sample_runs(1) fresh] by simp
qed

theorem table_stays_well_formed_witness:
  "length (ad_slots closed_adapter) = 255 \<and>
    1 \<le> unat (sl_generation (ad_slots closed_adapter ! 0)) \<and>
    unat (sl_generation (ad_slots closed_adapter ! 0)) \<le> 8388607"
proof -
  note table = table_stays_well_formed [OF run_append [OF sample_runs(2,1), unfolded fresh_adapter_def]]
  then have "ad_slots closed_adapter ! 0 \<in> set (ad_slots closed_adapter)" by (intro nth_mem) simp
  with table show ?thesis by blast
qed

theorem dead_handles_stay_dead_witness:
  "lookup_slot 257 opened_adapter = Some 0 \<and> lookup_slot 257 (snd reopened_adapter) = None"
  using dead_handles_stay_dead [OF sample_table(1) sample_lookups(1) sample_runs(2) sample_lookups(2) sample_runs(3)]
    sample_lookups(1) by blast

theorem handles_are_never_reused_witness:
  "(513 :: int) \<noteq> 257 \<and> lookup_slot 513 closed_adapter = None \<and>
     (\<exists>j. lookup_slot 513 (snd reopened_adapter) = Some j)"
proof -
  have "openStaged sample_engine 0 no_failures sample_host [R_Double 0] closed_adapter = (R_I32 513, snd reopened_adapter)"
    using sample_lookups(3) by (metis invoke.simps(7) option.sel prod.collapse reopened_adapter_def sample_call_def)
  from handles_are_never_reused [OF sample_table(1) sample_lookups(1) sample_runs(2) this] show ?thesis by simp
qed

theorem failures_are_reported_witness:
  "fst (sample_call M_close [R_I32 258] opened_adapter) = failure_value M_close \<longleftrightarrow>
     ae_code (th_last_error (ad_threads (snd (sample_call M_close [R_I32 258] opened_adapter)) 0)) \<noteq> ADAPTER_OK"
proof -
  have "invoke 9 [] [] sample_engine 0 no_failures sample_host M_close [R_I32 258] opened_adapter
      = Some (fst (sample_call M_close [R_I32 258] opened_adapter), snd (sample_call M_close [R_I32 258] opened_adapter))"
    using sample_invoke [of M_close] by simp
  from failures_are_reported [OF sample_table(1) this] show ?thesis by blast
qed

end
