(* ===== verification/Registry_Calls.thy ===== *)
theory Registry_Calls
  imports Memory_Registry_Spec
begin

text \<open>
  The registry as its callers use it (src/src/esdb_store.cpp): every operation through an open
  handle is steps of the registry machine and keeps the handles, opening adds one and closing
  takes it away. The adapter and the C++ facade rest on these.
\<close>

text \<open>An operation on an open store that is steps of the registry and keeps the handles.\<close>

definition store_op :: "(nat option \<Rightarrow> registry_world \<Rightarrow> 'r \<times> registry_world) \<Rightarrow> bool" where
  "store_op f \<longleftrightarrow> (\<forall>h w tr. registry_run tr w \<longrightarrow> w_handles w h \<noteq> None \<longrightarrow>
     (\<exists>tr'. registry_run tr' (snd (f (Some h) w))) \<and>
     w_handles (snd (f (Some h) w)) = w_handles w \<and> w_subscriptions (snd (f (Some h) w)) = w_subscriptions w)"

lemma on_store_world:
  assumes "\<And>store. snd (f store) = snd (g store)"
  shows "snd (on_store f h w) = snd (on_store g h w)"
  using assms by (auto simp: on_store_def split: option.split prod.split) (metis snd_conv)+

lemma on_store_frame:
  "w_handles (snd (on_store f h w)) = w_handles w" "w_subscriptions (snd (on_store f h w)) = w_subscriptions w"
  "w_registry (snd (on_store f h w)) = w_registry w" "w_next (snd (on_store f h w)) = w_next w"
  by (simp_all add: on_store_def split: option.split prod.split)

lemma mutation_op:
  assumes "mutation g" and "\<And>store. snd (f store) = snd (g store)"
  shows "store_op (on_store f)"
  unfolding store_op_def
proof (intro allI impI conjI on_store_frame)
  fix h w tr
  assume run: "registry_run tr w" and "w_handles w h \<noteq> None"
  then obtain s where s: "w_handles w h = Some s" by blast
  obtain es w' where step: "on_store g (Some h) w = (es, w')" by fastforce
  from run_step [OF run step_mutate [OF s assms(1) step]]
  have "registry_run (tr @ [L_mutate s es]) w'" .
  moreover have "snd (on_store f (Some h) w) = w'"
    using on_store_world [of f g "Some h" w, OF assms(2)] step by simp
  ultimately show "\<exists>tr'. registry_run tr' (snd (on_store f (Some h) w))" by blast
qed

lemma mutation_ops:
  "store_op (on_store (esdb_store_put throws key v))" "store_op (on_store (esdb_store_patch throws entries count1))"
  "store_op (on_store (esdb_store_delete throws key))" "store_op (on_store (esdb_store_clear throws))"
proof -
  show "store_op (on_store (esdb_store_put throws key v))"
    by (rule mutation_op [OF mutation.intros(1) [where throws = throws and key = key and v = v]]) (simp split: prod.split)
  show "store_op (on_store (esdb_store_patch throws entries count1))"
    by (rule mutation_op [OF mutation.intros(2) [where throws = throws and entries = entries and count = count1]]) (simp split: prod.split)
  show "store_op (on_store (esdb_store_delete throws key))"
    by (rule mutation_op [OF mutation.intros(3) [where throws = throws and key = key]]) (simp split: prod.split)
  show "store_op (on_store (esdb_store_clear throws))"
    by (rule mutation_op [OF mutation.intros(4) [where throws = throws]]) (simp split: prod.split)
qed

lemma reading_world: "snd (reading f h w) = w"
proof (cases "handle_state h w")
  case None
  then show ?thesis by (simp add: reading_def on_store_def)
next
  case (Some st)
  then have "w_states w (the (w_handles w (the h))) = Some st"
    by (auto simp: handle_state_def split: option.splits)
  then show ?thesis using Some by (cases w) (simp add: reading_def on_store_def fun_upd_idem)
qed

lemma reading_op: "store_op (reading f)"
  by (auto simp: store_op_def reading_world)

text \<open>Opening adds one handle or none; closing takes it away.\<close>

lemma store_open_frame:
  assumes "esdb_store_open thr name1 out_given w = (r, w1)"
  shows "w_subscriptions w1 = w_subscriptions w"
    and "r = Done h \<Longrightarrow> \<exists>s. w_handles w1 = (w_handles w)(h \<mapsto> s)"
    and "r = Failed status e \<Longrightarrow> w_handles w1 = w_handles w"
  using assms
  by (auto simp: esdb_store_open_def open_handle_def Let_def update_state_def store_fail_def caught_def
      split: if_splits option.splits exn.splits)

lemma store_close_frame:
  "w_handles w h = Some s \<Longrightarrow> w_handles (esdb_store_close (Some h) w) = (w_handles w)(h := None)"
  "w_subscriptions (esdb_store_close (Some h) w) = w_subscriptions w"
  by (auto simp: esdb_store_close_def update_state_def split: option.split)

lemma store_open_fresh:
  "esdb_store_open thr name1 out_given w = (Done h, w1) \<Longrightarrow> w_next w \<le> h"
  by (auto simp: esdb_store_open_def open_handle_def Let_def update_state_def store_fail_def caught_def
      split: if_splits option.splits exn.splits)

lemma store_destroy_frame:
  assumes "esdb_store_destroy name1 w = (r, w1)"
  shows "w_handles w1 = w_handles w" and "w_subscriptions w1 = w_subscriptions w"
  using assms
  by (auto simp: esdb_store_destroy_def Let_def store_fail_def split: if_splits option.splits)

text \<open>A handle that was just opened was not one before.\<close>

lemma opened_handle_new:
  assumes "registry_run tr w" and "esdb_store_open thr name1 out_given w = (Done h, w1)"
  shows "w_handles w h = None"
  using run_ok [OF assms(1)] store_open_fresh [OF assms(2)] by (simp add: world_ok_def fresh_ok_def)

text \<open>Without handles and subscriptions no store is busy.\<close>

lemma unused_not_busy:
  assumes "registry_run tr w" and "w_handles w = Map.empty" and "w_subscriptions w = Map.empty"
  shows "status_of (fst (esdb_store_destroy name1 w)) \<noteq> ESDB_ERR_BUSY"
proof -
  have live: "live_handles w s = {}" "live_subscriptions w s = {}" for s
    using assms(2,3) by (simp_all add: live_handles_def live_subscriptions_def)
  have "counts_ok w" and "registry_ok w" using run_ok [OF assms(1)] by (simp_all add: world_ok_def)
  then have "ms_handle_count (the (w_states w s)) = 0 \<and> ms_subscription_count (the (w_states w s)) = 0"
    if "w_registry w n = Some s" for n s
    using that live by (fastforce simp: counts_ok_def registry_ok_def)
  then show ?thesis
    by (auto simp: esdb_store_destroy_def store_fail_def Let_def split: option.split)
qed

end
