(* ===== verification/Adapter_Stores.thy ===== *)
theory Adapter_Stores
  imports Adapter_Spec Registry_Calls
begin

text \<open>
  The process-memory stores behind the ExternalObject adapter. Every call of the adapter is a
  sequence of steps of the registry (\<open>Memory_Registry_Spec\<close>) that ends with no handle open, so
  what that transition system guarantees holds of the stores a host reaches through the adapter;
  and a value put through one call comes back through another.
\<close>

section \<open>Every call is a run of the registry\<close>

definition world_good :: "registry_world \<Rightarrow> bool" where
  "world_good w \<longleftrightarrow> (\<exists>tr. registry_run tr w) \<and> w_handles w = Map.empty \<and> w_subscriptions w = Map.empty"

text \<open>
  What all threads share beside the table of slots: the process-memory stores and the registry of
  codecs. A call that leaves both alone keeps whatever is true of them.
\<close>

definition shares ::
  "(registry_world \<Rightarrow> 'z zip_state \<Rightarrow> bool) \<Rightarrow> ('d, 'z) adapter \<Rightarrow> ('d, 'z) adapter \<Rightarrow> bool" where
  "shares K A A' \<longleftrightarrow> (K (ad_stores A) (ad_zip A) \<longrightarrow> K (ad_stores A') (ad_zip A'))"

text \<open>What a call on a process-memory store keeps: that the stores are a run, and anything of the codecs.\<close>

definition kept :: "bool \<Rightarrow> ('z zip_state \<Rightarrow> bool) \<Rightarrow> registry_world \<Rightarrow> 'z zip_state \<Rightarrow> bool" where
  "kept good R w z \<longleftrightarrow> (good \<longrightarrow> world_good w) \<and> R z"

definition stores_good :: "('d, 'z) adapter \<Rightarrow> ('d, 'z) adapter \<Rightarrow> bool" where
  "stores_good A A' \<longleftrightarrow> (world_good (ad_stores A) \<longrightarrow> world_good (ad_stores A'))"

lemma update_thread_stores [simp]:
  "ad_stores (update_thread t f A) = ad_stores A" "ad_zip (update_thread t f A) = ad_zip A"
  by (simp_all add: update_thread_def)

interpretation stores: call_effect "shares K" t for K t
  by unfold_locales (auto simp: shares_def)

lemma same_stores: "ad_stores A' = ad_stores A \<Longrightarrow> ad_zip A' = ad_zip A \<Longrightarrow> shares K A A'"
  by (simp add: shares_def)

lemma with_store_good:
  fixes R :: "'z zip_state \<Rightarrow> bool"
  assumes "store_op f"
  shows "bounds (shares (kept good R)) (with_store t fl M name1 f)"
  unfolding bounds_def
proof
  fix A :: "('d, 'z) adapter"
  let ?w = "ad_stores A"
  obtain r w1 where opened: "esdb_store_open (ce_open M) (Some name1) True ?w = (r, w1)" by fastforce
  have "world_good (ad_stores (snd (with_store t fl M name1 f A)))" if good: "world_good ?w"
  proof -
    from good obtain tr where run: "registry_run tr ?w" by (auto simp: world_good_def)
    have run1: "registry_run (tr @ [L_silent]) w1" by (rule run_step [OF run step_open [OF opened]])
    have subs: "w_subscriptions w1 = Map.empty"
      using store_open_frame(1) [OF opened] good by (simp add: world_good_def)
    show ?thesis
    proof (cases r)
      case (Failed status e)
      then have "w_handles w1 = Map.empty"
        using store_open_frame(3) [OF opened Failed] good by (simp add: world_good_def)
      then have "world_good w1" using run1 subs by (auto simp: world_good_def)
      then show ?thesis using opened Failed by (simp add: with_store_def give_up_def set_last_error_def)
    next
      case (Done h)
      then obtain s where h: "w_handles w1 = [h \<mapsto> s]"
        using store_open_frame(2) [OF opened Done] good by (auto simp: world_good_def)
      obtain q w2 where op: "f (Some h) w1 = (q, w2)" by fastforce
      have "w_handles w1 h \<noteq> None" by (simp add: h)
      with assms run1 have "(\<exists>tr'. registry_run tr' w2) \<and> w_handles w2 = w_handles w1 \<and>
          w_subscriptions w2 = w_subscriptions w1"
        unfolding store_op_def by (metis op snd_conv)
      then obtain tr' where w2: "registry_run tr' w2" "w_handles w2 = [h \<mapsto> s]" "w_subscriptions w2 = Map.empty"
        using h subs by auto
      then have "w_handles w2 h \<noteq> None" by simp
      from run_step [OF w2(1) step_close [OF this]]
      have "registry_run (tr' @ [L_silent]) (esdb_store_close (Some h) w2)" .
      then have "world_good (esdb_store_close (Some h) w2)"
        using store_close_frame(1) [of w2 h s] store_close_frame(2) [of h w2] w2 by (auto simp: world_good_def)
      then show ?thesis using opened Done op by (simp add: with_store_def)
    qed
  qed
  moreover have "ad_zip (snd (with_store t fl M name1 f A)) = ad_zip A"
    by (auto simp: with_store_def give_up_def set_last_error_def split: prod.split outcome.split)
  ultimately show "shares (kept good R) A (snd (with_store t fl M name1 f A))" by (simp add: shares_def kept_def)
qed

section \<open>The methods\<close>

lemma in_slot_stores: "bounds (shares K) (in_slot i f)"
  by (auto simp: bounds_def in_slot_def update_slot_def intro!: same_stores split: prod.split)

lemma stores_at: "(\<And>A. shares K A (snd (m A))) \<Longrightarrow> bounds (shares K) m"
  by (simp add: bounds_def)

lemma storesI: "bounds (shares K) m \<Longrightarrow> shares K A (snd (m A))"
  by (simp add: bounds_def)

lemma stores_trans: "ad_stores A' = ad_stores A \<Longrightarrow> ad_zip A' = ad_zip A \<Longrightarrow> bounds (shares K) m \<Longrightarrow> shares K A (snd (m A'))"
  by (simp add: bounds_def shares_def)

lemma stores_then: "bounds (shares K) m \<Longrightarrow> shares K A A1 \<Longrightarrow> shares K A (snd (m A1))"
  by (simp add: bounds_def shares_def)

lemma slot_updates [simp]:
  "ad_stores (update_slot i g A) = ad_stores A" "ad_stores (set_transaction i x A) = ad_stores A"
  "ad_zip (update_slot i g A) = ad_zip A" "ad_zip (set_transaction i x A) = ad_zip A"
  by (simp_all add: update_slot_def set_transaction_def)

lemma open_database_stores: "bounds (shares (\<lambda>w _. Q w)) (open_database E M path)"
  by (auto simp: bounds_def open_database_def shares_def split: prod.split)

lemma install_stores: "bounds (shares K) (install_database t database)"
  unfolding install_database_def
  by (rule stores_at) (auto simp: succeed_def give_up_def set_last_error_def clear_last_error_def
      intro!: same_stores split: option.split)

lemmas stores_chain = stores.bounds_reply stores.bounds_and_then stores.bounds_steps stores.bounds_answers
  stores.bounds_stage_path in_slot_stores open_database_stores install_stores

lemma find_slot_stores: "bounds (shares K) (find_slot t fl token)"
  unfolding find_slot_def by (rule stores_at) (rule storesI [OF stores.bounds_steps(4)])

lemma arguments_stores: "bounds (shares K) (arguments t fl oom other M usage raw decode)"
  unfolding arguments_def by (intro stores_chain)

lemma database_methods_stores:
  "bounds (shares K) (ping t H argv)" "bounds (shares K) (abiVersion t H argv)"
  "bounds (shares K) (version v t M H argv)" "bounds (shares K) (sqliteVersion v t M H argv)"
  "bounds (shares K) (stage t M H argv)" "bounds (shares K) (stageHex t M H argv)"
  "bounds (shares K) (health E t M H argv)" "bounds (shares K) (dataVersion E t H argv)"
  "bounds (shares K) (objectStoreEnsure E t M H argv)" "bounds (shares K) (objectStorePutNumber E t M H argv)"
  "bounds (shares K) (objectStorePutText E t M H argv)" "bounds (shares K) (objectStoreGet E t M H argv)"
  "bounds (shares K) (objectStoreDelete E t M H argv)" "bounds (shares K) (objectStoreExists E t M H argv)"
  "bounds (shares K) (objectStoreCount E t M H argv)" "bounds (shares K) (objectStoreScan E t M H argv)"
  "bounds (shares K) (objectStoreRevision E t M H argv)" "bounds (shares K) (objectStoreChanges E t M H argv)"
  unfolding ping_def abiVersion_def version_def sqliteVersion_def version_method_def stage_def stageHex_def
    health_def dataVersion_def object_method_defs
  by (rule stores_chain find_slot_stores arguments_stores impI allI | simp (no_asm) split: prod.split)+

lemma step_stores:
  "shares K A (snd (succeed t r A))" "ad_stores A' = ad_stores A \<Longrightarrow> ad_zip A' = ad_zip A \<Longrightarrow> shares K A (snd (succeed t r A'))"
  "shares K A (snd (give_up t fl code msg e A))"
  by (simp_all add: succeed_def give_up_def set_last_error_def clear_last_error_def shares_def)

lemma table_methods_stores:
  "bounds (shares K) (close1 E t H argv)" "bounds (shares K) (handleCount t H argv)"
  "bounds (shares K) (transactionActive t H argv)" "bounds (shares K) (lastError P t M H argv)"
  unfolding close1_def handleCount_def transactionActive_def lastError_def
  by (rule stores_chain find_slot_stores | rule stores_at; (rule step_stores(2))?; simp add: step_stores
      storesI [OF stores.bounds_steps(5)])+

lemma open_stores: "bounds (shares (\<lambda>w _. Q w)) (openStaged E t M H argv)"
proof -
  have "bounds (shares (\<lambda>w _. Q w)) (and_then (require t (R_I32 0) ADAPTER_NO_STAGED_PATH ''no database path has been staged''
          (if path = [] then None else Some ())) (\<lambda>_.
        and_then (may_throw t (R_I32 0) (Some ''failed to allocate while opening database'')
          ''unexpected exception in openStaged'' (ce_throws M 0)) (\<lambda>_.
        and_then (open_database E M path) (\<lambda>opened.
        case opened of
          Failed status e \<Rightarrow>
            give_up t (R_I32 0) ADAPTER_OPEN_FAILED ''ESDB failed to open the staged database'' (Some e)
        | Done database \<Rightarrow> install_database t database))))" for path
    by (rule stores_chain impI allI conjI | simp (no_asm) split: outcome.split)+
  note body = this
  show ?thesis
    unfolding openStaged_def Let_def
    by (rule stores.bounds_reply, rule stores.bounds_and_then, rule stores.bounds_steps, rule stores_at)
      (rule storesI [OF body])
qed

lemma begin_stores: "bounds (shares K) (transactionBegin E t M H argv)"
proof -
  have body: "bounds (shares K) (and_then (in_slot i (esdb_begin (en_sqlite E) (ce_object M) mode True)) (\<lambda>r.
         and_then (expect t (R_Bool False) ''ESDB failed to begin transaction'' r) (\<lambda>object A.
         succeed t (R_Bool True) (set_transaction i (Some object) A))))" for i and mode :: u32
    by (rule stores_chain | rule stores_at, rule step_stores(2), simp, simp)+
  show ?thesis
    unfolding transactionBegin_def
    by (rule stores_chain find_slot_stores allI impI | simp (no_asm) split: prod.split
      | rule stores_at, simp (no_asm) add: step_stores storesI [OF body])+
qed

lemma finish_stores:
  "bounds (shares K) (transactionCommit E t H argv)" "bounds (shares K) (transactionRollback E t H argv)"
proof -
  have body: "bounds (shares K) (and_then (in_slot i (\<lambda>database.
          (if is_commit then esdb_commit else esdb_rollback) (en_sqlite E) (map_option (\<lambda>s. (s, object)) database))) (\<lambda>r.
        and_then (expect t (R_Bool False) msg r) (\<lambda>_ A.
        succeed t (R_Bool True) (update_slot i (drop_transaction (en_sqlite E)) A))))" for i is_commit msg object
    by (rule stores_chain | rule stores_at, rule step_stores(2), simp, simp)+
  have "bounds (shares K) (finish_slot_transaction E is_commit usage msg t H argv)" for is_commit usage msg
    unfolding finish_slot_transaction_def
    by (rule stores_chain find_slot_stores
      | rule stores_at, simp only: step_stores storesI [OF body] split: option.split, simp)+
  then show "bounds (shares K) (transactionCommit E t H argv)" "bounds (shares K) (transactionRollback E t H argv)"
    by (simp_all add: transactionCommit_def transactionRollback_def)
qed

lemma memory_methods_stores:
  "bounds (shares (kept good R)) (storePutNumber t M H argv)"
  "bounds (shares (kept good R)) (storePutText t M H argv)" "bounds (shares (kept good R)) (storePatch P t M H argv)"
  "bounds (shares (kept good R)) (storeGet t M H argv)" "bounds (shares (kept good R)) (storeDelete t M H argv)"
  "bounds (shares (kept good R)) (storeExists t M H argv)" "bounds (shares (kept good R)) (storeCount t M H argv)"
  "bounds (shares (kept good R)) (storeScan t M H argv)" "bounds (shares (kept good R)) (storeClear t M H argv)"
  "bounds (shares (kept good R)) (storeRevision t M H argv)" "bounds (shares (kept good R)) (storeRetainedFloor t M H argv)"
  "bounds (shares (kept good R)) (storeChanges t M H argv)"
  unfolding memory_method_defs
  by (rule stores_chain with_store_good mutation_ops reading_op arguments_stores impI allI conjI
      | simp split: prod.split sum.split)+

lemma destroy_world:
  assumes "esdb_store_destroy name1 w = (r, w')" and "world_good w"
  shows "world_good w'"
proof -
  from assms(2) obtain tr where run: "registry_run tr w" and none: "w_handles w = Map.empty" "w_subscriptions w = Map.empty"
    by (auto simp: world_good_def)
  then have "live_handles w s = {}" "live_subscriptions w s = {}" for s
    by (simp_all add: live_handles_def live_subscriptions_def)
  then have "registry_step w L_silent w'" by (intro step_destroy [OF assms(1)]) simp
  moreover have "w_handles w' = w_handles w" "w_subscriptions w' = w_subscriptions w"
    using assms(1) by (auto simp: esdb_store_destroy_def Let_def split: if_splits option.splits)
  ultimately show ?thesis using run none by (auto simp: world_good_def intro: run_step)
qed

lemma destroy_step_stores:
  assumes "esdb_store_destroy (Some name1) (ad_stores A) = (q, w)"
  shows "shares (kept good R) A (snd (and_then (expect t (R_Bool False) msg q) (\<lambda>_. succeed t (R_Bool True)) (A\<lparr>ad_stores := w\<rparr>)))"
proof -
  have "shares (kept good R) A (A\<lparr>ad_stores := w\<rparr>)"
    using destroy_world [OF assms] by (simp add: shares_def kept_def)
  then show ?thesis by (rule stores_then [rotated]) (rule stores_chain)+
qed

lemma destroy_stores: "bounds (shares (kept good R)) (storeDestroy t M H argv)"
  unfolding storeDestroy_def
  by (intro stores.bounds_reply stores.bounds_and_then arguments_stores stores_at)
    (simp add: destroy_step_stores split: prod.split)

lemma prune_stores:
  assumes "objectStorePrune fuel E t M H argv A = Some out"
  shows "shares K A (snd out)"
proof -
  let ?first = "and_then (require t R_Undefined ADAPTER_BAD_ARGUMENT
      ''objectStorePrune expects handle and exact revision string''
      (both (handle_arg H argv 2) (parse_revision_decimal (get_string_arg H argv 1))))
      (\<lambda>(handle, through_revision). and_then (find_slot t R_Undefined handle) (\<lambda>i.
        in_slot i (on_connection_of (esdb_object_store_prune_changes fuel (en_sqlite E) through_revision))))"
  have first: "bounds (shares K) ?first"
    by (rule stores_chain find_slot_stores impI allI | simp (no_asm) split: prod.split)+
  have second: "bounds (shares K) (reply (answer_number t M msg other q))" for msg other q
    by (rule stores_chain)+
  obtain z A1 where z: "?first A = (z, A1)" by fastforce
  then have A1: "shares K A A1" using storesI [OF first, of A] by simp
  from assms z consider r where "out = (r, A1)" | q msg other where "out = reply (answer_number t M msg other q) A1"
    by (cases z) (auto simp: objectStorePrune_def split: prod.splits sum.splits)
  then show ?thesis
  proof cases
    case 2
    then show ?thesis using A1 storesI [OF second] stores.composed by blast
  qed (simp add: A1)
qed

lemma query_stores:
  assumes "querySql fuel E t M H argv A = Some out"
  shows "shares K A (snd out)"
proof -
  have args: "bounds (shares K) (query_arguments E t M H argv)"
    unfolding query_arguments_def by (rule stores_chain impI allI | simp (no_asm) split: prod.split)+
  have answer: "bounds (shares K) (reply (query_answer t M r context1))" for r context1
    by (rule stores_chain)+
  obtain z A1 where first: "query_arguments E t M H argv A = (z, A1)" by fastforce
  then have A1: "shares K A A1" using storesI [OF args, of A] by simp
  show ?thesis
  proof (cases z)
    case (Inl r)
    then show ?thesis using assms first A1 by (auto simp: querySql_def)
  next
    case (Inr given)
    obtain token sql parameters max_rows where given: "given = (token, sql, parameters, max_rows)"
      by (cases given)
    obtain z2 A2 where slot: "find_slot t R_Undefined token A1 = (z2, A2)" by fastforce
    then have A2: "shares K A A2"
      using A1 storesI [OF find_slot_stores, of K A1 t R_Undefined token] stores.composed by simp blast
    show ?thesis
    proof (cases z2)
      case (Inl r)
      then show ?thesis using assms first slot A2 Inr given by (auto simp: querySql_def)
    next
      case (Inr i)
      obtain r context1 A3 where run: "query_on_slot fuel E M i sql parameters max_rows A2 = ((r, context1), A3)"
        by (metis prod.exhaust)
      then have "ad_stores A3 = ad_stores A2" "ad_zip A3 = ad_zip A2"
        by (auto simp: query_on_slot_def Let_def split: prod.splits)
      moreover from Inr have "\<exists>r. out = reply (query_answer t M r context1) A3"
        using assms first slot \<open>z = Inr given\<close> given run by (auto simp: querySql_def)
      ultimately obtain r where out: "out = reply (query_answer t M r context1) A3" and "shares K A A3"
        using A2 by (auto simp: shares_def)
      then show ?thesis unfolding out by (intro stores_then [OF answer])
    qed
  qed
qed

text \<open>Every method keeps the stores a run of the registry; what changes stores and codecs at all.\<close>

definition memory_methods :: "adapter_method set" where
  "memory_methods =
     {M_storeDestroy, M_storePutNumber, M_storePutText, M_storePatch, M_storeGet, M_storeDelete, M_storeExists,
      M_storeCount, M_storeScan, M_storeClear, M_storeRevision, M_storeRetainedFloor, M_storeChanges}"

lemmas database_stores_rules = database_methods_stores table_methods_stores begin_stores finish_stores
lemmas memory_stores_rules = memory_methods_stores destroy_stores

lemma invoke_database_stores:
  assumes "invoke fuel ve sv E t M H f argv A = Some out" and "f \<notin> memory_methods" and "f \<noteq> M_openStaged"
  shows "shares K A (snd out)"
  using assms
  by (cases f) (auto simp: memory_methods_def intro: query_stores prune_stores database_stores_rules [THEN storesI])

lemma invoke_memory_stores:
  assumes "invoke fuel ve sv E t M H f argv A = Some out" and "f \<in> memory_methods"
  shows "shares (kept good R) A (snd out)"
  using assms by (auto simp: memory_methods_def intro: memory_stores_rules [THEN storesI])

lemma invoke_open_stores:
  assumes "invoke fuel ve sv E t M H M_openStaged argv A = Some out"
  shows "shares (\<lambda>w _. Q w) A (snd out)"
  using assms storesI [OF open_stores] by auto

lemma invoke_stores: "invoke fuel ve sv E t M H f argv A = Some out \<Longrightarrow> stores_good A (snd out)"
  using invoke_database_stores [of fuel ve sv E t M H f argv A out "\<lambda>w _. world_good w"]
    invoke_memory_stores [of fuel ve sv E t M H f argv A out True "\<lambda>_. True"]
    invoke_open_stores [of fuel ve sv E t M H argv A out world_good]
  by (cases "f = M_openStaged"; cases "f \<in> memory_methods") (auto simp: stores_good_def shares_def kept_def)

lemma run_stores_good:
  assumes "adapter_run E H (new_adapter empty_world zip1) A"
  shows "world_good (ad_stores A)"
proof -
  have start: "world_good (ad_stores (new_adapter empty_world zip1))"
    using run_start by (auto simp: world_good_def new_adapter_def empty_world_def)
  have "stores_good A1 A2" if "adapter_step E H A1 A2" for A1 A2
    using that
  proof cases
    case (step_invoke fuel ve sv t M f argv r)
    then show ?thesis using invoke_stores by fastforce
  next
    case (step_terminate t)
    then show ?thesis
      by (simp add: stores_good_def esabi_terminate_def clear_last_error_def set_staged_path_def)
  qed
  with assms show ?thesis
    by (induction rule: adapter_run.induct) (auto simp: stores_good_def start)
qed

text \<open>
  C16: the adapter drives the process-memory stores only through complete sequences of registry
  steps: after any calls of any threads the registry is one its transition system can reach, so
  every store is the replay of the log of its mutations, and no handle or subscription is left
  behind that would keep a host from destroying a store.
\<close>

theorem adapter_stores_are_registry_runs:
  assumes "adapter_run E H (new_adapter empty_world zip1) A"
  shows "\<exists>tr. registry_run tr (ad_stores A) \<and>
     (\<forall>s st. w_states (ad_stores A) s = Some st \<longrightarrow> refines st (log_of s tr) \<and>
        ms_handle_count st = 0 \<and> ms_subscription_count st = 0) \<and>
     w_handles (ad_stores A) = Map.empty \<and> w_subscriptions (ad_stores A) = Map.empty"
proof -
  have "world_good (ad_stores A)" by (rule run_stores_good [OF assms])
  then obtain tr where run: "registry_run tr (ad_stores A)"
    and none: "w_handles (ad_stores A) = Map.empty" "w_subscriptions (ad_stores A) = Map.empty"
    by (auto simp: world_good_def)
  have live: "live_handles (ad_stores A) s = {}" "live_subscriptions (ad_stores A) s = {}" for s
    using none by (simp_all add: live_handles_def live_subscriptions_def)
  from run_ok [OF run] have "states_ok (ad_stores A) tr" "counts_ok (ad_stores A)"
    by (simp_all add: world_ok_def)
  then have "refines st (log_of s tr) \<and> ms_handle_count st = 0 \<and> ms_subscription_count st = 0"
    if "w_states (ad_stores A) s = Some st" for s st
    using that by (auto simp: states_ok_def counts_ok_def live)
  with run none show ?thesis by blast
qed

section \<open>Isolation\<close>

text \<open>
  C15: calls are isolated. Whatever a method is called with, every other thread's staged path and
  error record stay as they were, and so does every slot, free or open, other than the one the
  handle names, except that a successful open fills the first free slot, which no handle names,
  and changes nothing of it but its database. Of what all threads share, the process-memory
  stores change only in the methods for them, and the registry of codecs only in an open.
\<close>

theorem calls_are_isolated:
  assumes "invoke fuel ve sv E t M H f argv A = Some (r, A')"
  shows "(\<forall>t'. t' \<noteq> t \<longrightarrow> ad_threads A' t' = ad_threads A t') \<and>
     length (ad_slots A') = length (ad_slots A) \<and>
     (\<forall>j < length (ad_slots A). j \<notin> method_slots H f argv \<longrightarrow> ad_slots A' ! j \<noteq> ad_slots A ! j \<longrightarrow>
        f = M_openStaged \<and> first_free (ad_slots A) = Some j \<and> \<not> failed t A' \<and>
        (\<exists>database. ad_slots A' ! j = (ad_slots A ! j)\<lparr>sl_database := Some database\<rparr>)) \<and>
     (f \<notin> memory_methods \<longrightarrow> ad_stores A' = ad_stores A) \<and>
     (f \<noteq> M_openStaged \<longrightarrow> ad_zip A' = ad_zip A)"
proof (intro conjI)
  have database: "ad_stores A' = ad_stores A \<and> ad_zip A' = ad_zip A" if "f \<notin> memory_methods" "f \<noteq> M_openStaged"
    using invoke_database_stores [OF assms that, where K = "\<lambda>w z. w = ad_stores A \<and> z = ad_zip A"]
    by (simp add: shares_def)
  have memory: "ad_zip A' = ad_zip A" if "f \<in> memory_methods"
    using invoke_memory_stores [OF assms that, where good = False and R = "\<lambda>z. z = ad_zip A"]
    by (simp add: shares_def kept_def)
  have opened: "ad_stores A' = ad_stores A" if "f = M_openStaged"
    using invoke_open_stores [OF assms [unfolded that], where Q = "\<lambda>w. w = ad_stores A"] by (simp add: shares_def)
  from database opened show "f \<notin> memory_methods \<longrightarrow> ad_stores A' = ad_stores A" by blast
  from database memory show "f \<noteq> M_openStaged \<longrightarrow> ad_zip A' = ad_zip A" by blast
qed (use invoke_slots [OF assms] in blast)+

definition named_adapter :: "(conf_db, unit) adapter" where
  "named_adapter = snd (sample_call M_storePutText
     [R_String [54, 49], R_String [54, 50], R_I32 5, R_String [67, 51, 65, 57]] fresh_adapter)"

lemma named_run: "adapter_run sample_engine sample_host fresh_adapter named_adapter"
  unfolding named_adapter_def by (rule sample_step) simp_all

lemma named_store_exists: "w_states (ad_stores named_adapter) 0 \<noteq> None"
  by code_simp

theorem adapter_stores_are_registry_runs_witness:
  "\<exists>tr st. registry_run tr (ad_stores named_adapter) \<and> w_states (ad_stores named_adapter) 0 = Some st \<and>
     refines st (log_of 0 tr) \<and> ms_handle_count st = 0 \<and> w_handles (ad_stores named_adapter) = Map.empty"
proof -
  obtain st where "w_states (ad_stores named_adapter) 0 = Some st" using named_store_exists by blast
  then show ?thesis
    using adapter_stores_are_registry_runs [OF named_run [unfolded fresh_adapter_def]] by blast
qed

theorem calls_are_isolated_witness:
  "ad_slots (snd (sample_call M_transactionBegin [R_I32 514, R_I32 0] opened_adapter)) ! 0 = ad_slots opened_adapter ! 0 \<and>
   ad_stores (snd (sample_call M_transactionBegin [R_I32 514, R_I32 0] opened_adapter)) = ad_stores opened_adapter"
proof -
  have "invoke 9 [] [] sample_engine 0 no_failures sample_host M_transactionBegin [R_I32 514, R_I32 0] opened_adapter
      = Some (fst (sample_call M_transactionBegin [R_I32 514, R_I32 0] opened_adapter),
          snd (sample_call M_transactionBegin [R_I32 514, R_I32 0] opened_adapter))"
    using sample_invoke [of M_transactionBegin] by simp
  note isolated = calls_are_isolated [OF this]
  have "length (ad_slots opened_adapter) = 255" using sample_table by (simp add: table_ok_def)
  moreover have "decode_handle 514 = Some (1, 2)" by code_simp
  then have "0 \<notin> method_slots sample_host M_transactionBegin [R_I32 514, R_I32 0]"
    by (simp add: method_slots_def takes_handle_def named_slots_def sample_host_def)
  moreover have "M_transactionBegin \<notin> memory_methods" by (simp add: memory_methods_def)
  ultimately show ?thesis using isolated by force
qed

end
