(* ===== verification/Adapter_Memory_Spec.thy ===== *)
theory Adapter_Memory_Spec
  imports Adapter_Stores
begin

text \<open>
  Reading back what was put, through the whole ExternalObject adapter: hexadecimal arguments, the
  named store, the codec of values and the wire of the reply.
\<close>

section \<open>Successful steps\<close>

lemma and_then_InrE:
  assumes "and_then m f A = (Inr x, A')"
  obtains y A1 where "m A = (Inr y, A1)" and "f y A1 = (Inr x, A')"
  using assms by (auto simp: and_then_def split: prod.splits sum.splits)

lemma passed_steps:
  "require t fl code msg v A = (Inr x, A') \<longleftrightarrow> v = Some x \<and> A' = A"
  "may_throw t fl oom other thrown A = (Inr u, A') \<longleftrightarrow> thrown = None \<and> A' = A"
  "expect t fl msg out A = (Inr y, A') \<longleftrightarrow> out = Done y \<and> A' = A"
  "clear_error_step t A = (Inr u, A') \<longleftrightarrow> A' = clear_last_error t A"
  "return_string t M s A = (Inr r, A') \<longleftrightarrow> ce_copy M \<and> r = R_String s \<and> A' = A"
  by (auto simp: require_def may_throw_def expect_def clear_error_step_def return_string_def give_up_def
      proceed_def split: option.splits outcome.splits if_splits)

lemma passed_made_value: "made_value t msg out A = (Inr v, A') \<longleftrightarrow> out = Done v \<and> A' = A"
  by (auto simp: made_value_def give_up_def proceed_def split: outcome.splits)

lemma passed_arguments:
  "arguments t fl oom other M usage raw decode A = (Inr x, A') \<Longrightarrow> \<exists>given. raw = Some given \<and> decode given = Some x \<and> A' = A"
  unfolding arguments_def by (auto elim!: and_then_InrE simp: passed_steps)

lemma passed_read_reply:
  "read_reply t msg encode got A = (Inr wire, A') \<Longrightarrow> ad_stores A' = ad_stores A \<and>
     ((\<exists>v. got = Done v \<and> value_wire (Some v) = Some wire) \<or> (\<exists>e. got = Failed ESDB_ERR_NOT_FOUND e \<and> wire = MISSING_WIRE))"
  by (auto simp: read_reply_def and_then_def clear_error_step_def give_up_def proceed_def clear_last_error_def
      split: outcome.splits option.splits if_splits)

text \<open>A string answered by a method that reports went through every step.\<close>

lemma reply_string:
  assumes "reports t R_Undefined m" and "reply m A = (R_String s, A')"
  shows "m A = (Inr (R_String s), A')"
  using assms by (auto simp: reports_def reply_def split: prod.splits sum.splits)

section \<open>The named store\<close>

definition named_store :: "registry_world \<Rightarrow> byte list \<Rightarrow> memory_state option" where
  "named_store w name1 =
     (case w_registry w (c_str name1) of None \<Rightarrow> None | Some s \<Rightarrow> w_states w s)"

definition states_known :: "registry_world \<Rightarrow> bool" where
  "states_known w \<longleftrightarrow> (\<forall>n s. w_registry w n = Some s \<longrightarrow> w_states w s \<noteq> None)"

lemma good_states_known: "world_good w \<Longrightarrow> states_known w"
  using run_ok by (fastforce simp: world_good_def states_known_def world_ok_def registry_ok_def)

lemma store_open_Done:
  assumes "esdb_store_open thr (Some name1) True w = (Done h, w1)"
    and "states_known w"
  shows "\<exists>s st. w_handles w1 h = Some s \<and> w_registry w1 (c_str name1) = Some s \<and>
     w_states w1 s = Some (st\<lparr>ms_handle_count := ms_handle_count st + 1\<rparr>) \<and>
     st = (case named_store w name1 of None \<Rightarrow> new_memory_state (c_str name1) | Some st \<Rightarrow> st)"
proof (cases "w_registry w (c_str name1)")
  case None
  then show ?thesis
    using assms(1)
    by (auto simp: esdb_store_open_def open_handle_def Let_def update_state_def store_fail_def caught_def
        named_store_def split: if_splits option.splits exn.splits)
next
  case (Some s)
  then obtain st where "w_states w s = Some st" using assms(2) by (auto simp: states_known_def)
  with Some show ?thesis
    using assms(1)
    by (auto simp: esdb_store_open_def open_handle_def Let_def update_state_def store_fail_def caught_def
        named_store_def split: if_splits option.splits exn.splits)
qed

text \<open>One call runs its operation on the store of that name, whatever handle it was given.\<close>

lemma with_store_named:
  assumes "with_store t fl M name1 (on_store op1) A = (Inr r, A')"
    and "states_known (ad_stores A)"
    and "\<And>st. snd (op1 (Some st)) \<noteq> None"
  shows "\<exists>st k st' k'. st = (case named_store (ad_stores A) name1 of None \<Rightarrow> new_memory_state (c_str name1) | Some st \<Rightarrow> st) \<and>
     op1 (Some (st\<lparr>ms_handle_count := k\<rparr>)) = (r, Some st') \<and>
     named_store (ad_stores A') name1 = Some (st'\<lparr>ms_handle_count := k'\<rparr>)"
proof -
  from assms(1) obtain h w1 w2 where opened: "esdb_store_open (ce_open M) (Some name1) True (ad_stores A) = (Done h, w1)"
    and ran: "on_store op1 (Some h) w1 = (r, w2)" and A': "A' = A\<lparr>ad_stores := esdb_store_close (Some h) w2\<rparr>"
    by (auto simp: with_store_def give_up_def split: prod.splits outcome.splits)
  from store_open_Done [OF opened assms(2)] obtain s st where
    s: "w_handles w1 h = Some s" "w_registry w1 (c_str name1) = Some s"
      "w_states w1 s = Some (st\<lparr>ms_handle_count := ms_handle_count st + 1\<rparr>)"
    and st: "st = (case named_store (ad_stores A) name1 of None \<Rightarrow> new_memory_state (c_str name1) | Some st \<Rightarrow> st)"
    by blast
  let ?st = "st\<lparr>ms_handle_count := ms_handle_count st + 1\<rparr>"
  obtain st' where op1: "op1 (Some ?st) = (r, Some st')" and w2: "w2 = w1\<lparr>w_states := (w_states w1)(s := Some st')\<rparr>"
    using ran s assms(3) [of ?st] by (auto simp: on_store_def handle_state_def split: prod.splits)
  have "named_store (ad_stores A') name1 = Some (st'\<lparr>ms_handle_count := ms_handle_count st' - 1\<rparr>)"
    using s w2 by (simp add: A' esdb_store_close_def update_state_def named_store_def)
  with st op1 show ?thesis by blast
qed

section \<open>Text values\<close>

lemma hex_decode_length: "hex_decode (Some text1) = Some d \<Longrightarrow> 2 * length d = length text1"
proof -
  have "hex_pairs cs = Some d \<Longrightarrow> 2 * length d = length cs" for cs d
    by (induction cs arbitrary: d rule: hex_pairs.induct) (auto split: if_splits)
  then show "hex_decode (Some text1) = Some d \<Longrightarrow> 2 * length d = length text1"
    by (simp add: hex_decode_def split: if_splits)
qed

lemma made_text:
  assumes "make_text_value alloc type (Some payload) = Done v" and "length payload < 2 ^ 63"
  shows "canonical v \<and> ev_type v \<noteq> ESDB_VALUE_DOUBLE \<and> length (ev_payload v) < 2 ^ 63"
proof -
  consider "type = ESDB_VALUE_NULL" | "type = ESDB_VALUE_INT64"
    | d where "type \<noteq> ESDB_VALUE_NULL" "type \<noteq> ESDB_VALUE_INT64" "hex_decode (Some payload) = Some d"
    using assms(1) by (auto simp: make_text_value_def status_only_def split: if_splits option.splits)
  then show ?thesis
  proof cases
    case 1
    then have "esdb_value_create_null alloc True = Done v"
      using assms(1) by (auto simp: make_text_value_def status_only_def split: if_splits)
    then show ?thesis
      by (auto simp: esdb_value_create_null_def allocate_value_Done canonical_def payload_valid_def valid_value_type_def)
  next
    case 2
    then obtain i where "esdb_value_create_int64 alloc i True = Done v"
      using assms(1) by (auto simp: make_text_value_def status_only_def split: option.splits)
    then show ?thesis
      by (auto simp: esdb_value_create_int64_def fill_payload_Done canonical_def payload_valid_def valid_value_type_def)
  next
    case (3 d)
    then have short: "length d < 2 ^ 63" using hex_decode_length [OF 3(3)] assms(2) by simp
    note b = buffer_taken [OF short]
    show ?thesis
    proof (cases "type = ESDB_VALUE_BYTES")
      case True
      then have "esdb_value_create_bytes alloc (buffer_of d) (of_nat (length d)) True = Done v"
        using assms(1) 3 by (simp add: make_text_value_def)
      then have "v = \<lparr>ev_type = ESDB_VALUE_BYTES, ev_payload = d\<rparr>"
        unfolding esdb_value_create_bytes_def if_not_P [OF b(1)] b(2) by (simp add: fill_payload_Done)
      then show ?thesis using short by (simp add: canonical_def payload_valid_def valid_value_type_def)
    next
      case False
      then have "esdb_value_create_text alloc type (buffer_of d) (of_nat (length d)) True = Done v"
        using assms(1) 3 by (auto simp: make_text_value_def status_only_def split: if_splits)
      then have t: "type = ESDB_VALUE_UTF8 \<or> type = ESDB_VALUE_ARRAY \<or> type = ESDB_VALUE_OBJECT"
        and utf8: "valid_utf8 (buffer_of d) (unat (of_nat (length d) :: u64))"
        and v: "v = \<lparr>ev_type = type, ev_payload = d\<rparr>"
        unfolding esdb_value_create_text_def b(2) by (auto simp: value_fail_def fill_payload_Done split: if_splits)
      have "unat (of_nat (length d) :: u64) = length d" using short by (simp add: unat_of_nat)
      with utf8 have "valid_utf8 (Some d) (length d)"
        by (cases d) (simp_all add: buffer_of_def valid_utf8_def)
      with t v short show ?thesis
        by (auto simp: canonical_def payload_valid_def valid_value_type_def)
    qed
  qed
qed

section \<open>Put, then get\<close>

lemma clear_last_error_stores [simp]: "ad_stores (clear_last_error t A) = ad_stores A"
  by (simp add: clear_last_error_def)

lemmas reports_string = settles_string [THEN settles_reports]
lemmas reports_read = settles_read [THEN settles_reports]

lemma storePutText_success:
  assumes "storePutText t M H argv A = (R_String s, A')"
  shows "\<exists>given payload name1 key type v A1 stamp. name_key_args H argv 4 = Some given \<and>
     get_string_arg H argv 3 = Some payload \<and> decode_store_key given = Some (name1, key) \<and>
     get_i32_arg H argv 2 = Some type \<and>
     make_text_value (ce_value M 0) (of_int type) (Some payload) = Done v \<and>
     with_store t R_Undefined M name1 (on_store (esdb_store_put (ce_library M) (Some key) (Some v))) A = (Inr (Done stamp), A1) \<and>
     ad_stores A' = ad_stores A1 \<and> s = u64_decimal stamp"
proof -
  have r: "reports t R_Undefined (and_then (arguments t R_Undefined oom other M usage raw decode) (\<lambda>((name1, key), type, payload).
        and_then (made_value t msg (make_text_value (ce_value M 0) (of_int type) (Some payload))) (\<lambda>v.
        put_in_store t M other name1 key v)))" for oom other usage msg and raw :: "'r option" and decode
    unfolding put_in_store_def
    by (rule reports_string reports_and_then reports_arguments reports_made_value reports_with_store reports_steps
        impI allI | simp (no_asm) split: prod.split)+
  show ?thesis
    using reply_string [OF r assms [unfolded storePutText_def]]
    by (auto elim!: and_then_InrE simp: passed_steps passed_made_value put_in_store_def dest!: passed_arguments)
qed

lemma storeGet_success:
  assumes "storeGet t M H argv A = (R_String wire, A')"
  shows "\<exists>given name1 key got A1. name_key_args H argv 2 = Some given \<and> decode_store_key given = Some (name1, key) \<and>
     with_store t R_Undefined M name1 (reading (esdb_store_get (ce_value M 0) (Some key) True)) A = (Inr got, A1) \<and>
     ((\<exists>v. got = Done v \<and> value_wire (Some v) = Some wire) \<or> (\<exists>e. got = Failed ESDB_ERR_NOT_FOUND e \<and> wire = MISSING_WIRE))"
proof -
  have r: "reports t R_Undefined (and_then (arguments t R_Undefined oom other M usage raw decode) (\<lambda>(name1, key).
        and_then (with_store t R_Undefined M name1 (reading (esdb_store_get (ce_value M 0) (Some key) True))) (\<lambda>r.
        and_then (read_reply t msg encode r) (\<lambda>wire.
        and_then (may_throw t R_Undefined oom other (ce_throws M 1)) (\<lambda>_. return_string t M wire)))))"
    for oom other usage msg encode and raw :: "'r option" and decode
    by (rule reports_read reports_and_then reports_arguments reports_with_store impI allI
        | simp (no_asm) split: prod.split)+
  show ?thesis
    using reply_string [OF r assms [unfolded storeGet_def]]
    by (auto elim!: and_then_InrE simp: passed_steps dest!: passed_arguments passed_read_reply)
qed

lemma map_of_map_put_self: "map_of (map_put k v xs) k = Some v"
  by (induction k v xs rule: map_put.induct) auto

lemma put_Done_record:
  assumes "esdb_store_put throws key v (Some st) = (Done stamp, store')"
  shows "\<exists>st'. store' = Some st' \<and> map_of (ms_records st') (c_str (the key)) = Some \<lparr>mr_value = the v, mr_revision = stamp\<rparr>"
  using assms
  by (auto simp: esdb_store_put_def Let_def store_fail_def caught_def retain_change_def map_of_map_put_self
      split: if_splits option.splits exn.splits prod.splits)

text \<open>What a put through the adapter leaves under the name, and what a get finds there.\<close>

lemma put_named_store:
  assumes "with_store t fl M name1 (on_store (esdb_store_put throws (Some key) (Some v))) A = (Inr (Done stamp), A')"
    and "states_known (ad_stores A)"
  shows "\<exists>st. named_store (ad_stores A') name1 = Some st \<and>
     map_of (ms_records st) (c_str key) = Some \<lparr>mr_value = v, mr_revision = stamp\<rparr>"
proof -
  have "snd (esdb_store_put throws (Some key) (Some v) (Some st)) \<noteq> None" for st
    by (simp add: esdb_store_put_def Let_def split: option.split)
  from with_store_named [OF assms(1,2) this] obtain st k st' k' where
    put: "esdb_store_put throws (Some key) (Some v) (Some (st\<lparr>ms_handle_count := k\<rparr>)) = (Done stamp, Some st')"
    and "named_store (ad_stores A') name1 = Some (st'\<lparr>ms_handle_count := k'\<rparr>)" by blast
  moreover from put_Done_record [OF put]
  have "map_of (ms_records (st'\<lparr>ms_handle_count := k'\<rparr>)) (c_str key) = Some \<lparr>mr_value = v, mr_revision = stamp\<rparr>" by simp
  ultimately show ?thesis by blast
qed

lemma get_named_store:
  assumes "with_store t fl M name1 (reading f) A = (Inr r, A')" and "states_known (ad_stores A)"
    and "named_store (ad_stores A) name1 = Some st"
  shows "\<exists>k. r = f (Some (st\<lparr>ms_handle_count := k\<rparr>))"
  using with_store_named [OF assms(1) [unfolded reading_def] assms(2)] assms(3) by auto

section \<open>Records that stay\<close>

text \<open>A key has a record in the store of a name.\<close>

definition recorded :: "cpp_string \<Rightarrow> cpp_string \<Rightarrow> memory_record \<Rightarrow> registry_world \<Rightarrow> bool" where
  "recorded n k x w \<longleftrightarrow> world_good w \<and>
     (\<exists>s st. w_registry w n = Some s \<and> w_states w s = Some st \<and> map_of (ms_records st) k = Some x)"

text \<open>Opening, reading and closing by any name, even one that did not exist, takes no record away.\<close>

lemma good_fresh: "world_good w \<Longrightarrow> w_states w (w_next w) = None"
  using run_ok by (fastforce simp: world_good_def world_ok_def fresh_ok_def)

lemma reading_keeps:
  fixes A :: "('d, 'z) adapter"
  assumes "w_registry (ad_stores A) n = Some s" and "w_states (ad_stores A) s = Some st"
    and "w_states (ad_stores A) (w_next (ad_stores A)) = None"
  shows "w_registry (ad_stores (snd (with_store t fl M name1 (reading f) A))) n = Some s \<and>
     map_option ms_records (w_states (ad_stores (snd (with_store t fl M name1 (reading f) A))) s) = Some (ms_records st)"
proof -
  have "s \<noteq> w_next (ad_stores A)" using assms by auto
  moreover obtain r w where "esdb_store_open (ce_open M) (Some name1) True (ad_stores A) = (r, w)" by fastforce
  ultimately show ?thesis
    using assms
    by (auto simp: with_store_def give_up_def set_last_error_def reading_def on_store_def handle_state_def
        esdb_store_open_def open_handle_def update_state_def esdb_store_close_def store_fail_def caught_def Let_def
        split: if_splits option.splits exn.splits prod.splits)
qed

lemma with_store_recorded:
  "bounds (shares (\<lambda>w _. recorded n k x w)) (with_store t fl M name1 (reading f))"
  unfolding bounds_def shares_def
proof (intro allI impI)
  fix A :: "('d, 'z) adapter"
  let ?A' = "snd (with_store t fl M name1 (reading f) A)"
  assume "recorded n k x (ad_stores A)"
  then obtain s st where good: "world_good (ad_stores A)"
    and st: "w_registry (ad_stores A) n = Some s" "w_states (ad_stores A) s = Some st" "map_of (ms_records st) k = Some x"
    by (auto simp: recorded_def)
  have "stores_good A ?A'"
    using storesI [OF with_store_good [OF reading_op, where good = True and R = "\<lambda>_. True"]] by (simp add: stores_good_def shares_def kept_def)
  with good have "world_good (ad_stores ?A')" by (simp add: stores_good_def)
  with reading_keeps [OF st(1,2) good_fresh [OF good], of t fl M name1 f] st(3) show "recorded n k x (ad_stores ?A')"
    unfolding recorded_def by force
qed

definition store_writers :: "adapter_method set" where
  "store_writers = {M_storeDestroy, M_storePutNumber, M_storePutText, M_storePatch, M_storeDelete, M_storeClear}"

lemma reading_methods_recorded:
  "bounds (shares (\<lambda>w _. recorded n k x w)) (storeGet t M H argv)"
  "bounds (shares (\<lambda>w _. recorded n k x w)) (storeExists t M H argv)"
  "bounds (shares (\<lambda>w _. recorded n k x w)) (storeCount t M H argv)"
  "bounds (shares (\<lambda>w _. recorded n k x w)) (storeScan t M H argv)"
  "bounds (shares (\<lambda>w _. recorded n k x w)) (storeRevision t M H argv)"
  "bounds (shares (\<lambda>w _. recorded n k x w)) (storeRetainedFloor t M H argv)"
  "bounds (shares (\<lambda>w _. recorded n k x w)) (storeChanges t M H argv)"
  unfolding memory_method_defs
  by (rule stores_chain with_store_recorded arguments_stores impI allI conjI
      | simp split: prod.split sum.split)+

lemma invoke_reading:
  assumes "invoke fuel ve sv E t M H f argv A = Some out" and "f \<in> memory_methods - store_writers"
  shows "shares (\<lambda>w _. recorded n k x w) A (snd out)"
  using assms
  by (auto simp: memory_methods_def store_writers_def intro: reading_methods_recorded [THEN storesI])

lemma invoke_recorded:
  assumes "invoke fuel ve sv E t M H f argv A = Some (r, A')" and "f \<notin> store_writers" and "recorded n k x (ad_stores A)"
  shows "recorded n k x (ad_stores A')"
proof -
  have "shares (\<lambda>w _. recorded n k x w) A A'"
  proof (cases "f \<in> memory_methods")
    case True
    with invoke_reading [OF assms(1)] assms(2) show ?thesis by simp
  next
    case False
    then show ?thesis
      using invoke_database_stores [OF assms(1) False, of "\<lambda>w _. recorded n k x w"]
        invoke_open_stores [of fuel ve sv E t M H argv A "(r, A')" "recorded n k x"] assms(1)
      by (cases "f = M_openStaged") auto
  qed
  with assms(3) show ?thesis by (simp add: shares_def)
qed

text \<open>Calls of any methods and threads, except those that write to the process-memory stores.\<close>

inductive calls_between :: "('d, 'z) engine \<Rightarrow> 'h host \<Rightarrow> ('d, 'z) adapter \<Rightarrow> ('d, 'z) adapter \<Rightarrow> bool"
  for E :: "('d, 'z) engine" and H :: "'h host" and A where
  between_none: "calls_between E H A A"
| between_call: "calls_between E H A A' \<Longrightarrow> invoke fuel ve sv E t M H f argv A' = Some (r, A'') \<Longrightarrow> f \<notin> store_writers
    \<Longrightarrow> calls_between E H A A''"
| between_terminate: "calls_between E H A A' \<Longrightarrow> calls_between E H A (esabi_terminate E t A')"

lemma between_recorded:
  assumes "calls_between E H A A'" and "recorded n k x (ad_stores A)"
  shows "recorded n k x (ad_stores A')"
  using assms
proof (induction rule: calls_between.induct)
  case (between_call A' fuel ve sv t M f argv r A'')
  then show ?case by (blast intro: invoke_recorded)
qed (simp_all add: esabi_terminate_def clear_last_error_def set_staged_path_def)

text \<open>
  C24: a value put into a process-memory store through the adapter comes back through the adapter:
  when \<open>storePutText\<close> answered a revision and, after any further calls of any threads that do not
  write to a process-memory store, a \<open>storeGet\<close> of the same name and key by any thread answers a
  wire, that wire decodes to exactly the value the put's type and text denote (the wire itself
  may differ from what was sent: hexadecimal digits come back in upper case).
\<close>

theorem stored_text_comes_back:
  assumes "adapter_run E H (new_adapter empty_world zip1) A"
    and "storePutText t M H put_argv A = (R_String stamp, A1)"
    and "calls_between E H A1 A2"
    and "storeGet t' M' H get_argv A2 = (R_String wire, A3)"
    and "get_string_arg H get_argv 0 = get_string_arg H put_argv 0"
    and "get_string_arg H get_argv 1 = get_string_arg H put_argv 1"
    and "portable P" and "allocates alloc"
    and "\<And>payload. get_string_arg H put_argv 3 = Some payload \<Longrightarrow> length payload < 2 ^ 63"
  shows "\<exists>type payload v. get_i32_arg H put_argv 2 = Some type \<and> get_string_arg H put_argv 3 = Some payload \<and>
     make_text_value (ce_value M 0) (of_int type) (Some payload) = Done v \<and>
     parse_query_value_wire P alloc wire = Some v"
proof -
  have good: "world_good (ad_stores A)" by (rule run_stores_good [OF assms(1)])
  have "stores_good A A1"
    using invoke_stores [of 0 "[]" "[]" E t M H M_storePutText put_argv A] assms(2) by simp
  with good have good1: "world_good (ad_stores A1)" by (simp add: stores_good_def)
  from storePutText_success [OF assms(2)] obtain given payload name1 key type v B stamp where
    put: "name_key_args H put_argv 4 = Some given" "get_string_arg H put_argv 3 = Some payload"
      "decode_store_key given = Some (name1, key)" "get_i32_arg H put_argv 2 = Some type"
      "make_text_value (ce_value M 0) (of_int type) (Some payload) = Done v"
      "with_store t R_Undefined M name1 (on_store (esdb_store_put (ce_library M) (Some key) (Some v))) A = (Inr (Done stamp), B)"
      "ad_stores A1 = ad_stores B" by blast
  from put_named_store [OF put(6) good_states_known [OF good]] put(7) good1
  have "recorded (c_str name1) (c_str key) \<lparr>mr_value = v, mr_revision = stamp\<rparr> (ad_stores A1)"
    by (auto simp: recorded_def named_store_def split: option.splits)
  from between_recorded [OF assms(3) this] obtain st where good2: "world_good (ad_stores A2)"
    and st: "named_store (ad_stores A2) name1 = Some st"
      "map_of (ms_records st) (c_str key) = Some \<lparr>mr_value = v, mr_revision = stamp\<rparr>"
    by (auto simp: recorded_def named_store_def)
  from storeGet_success [OF assms(4)] obtain given' name' key' got B' where
    got: "name_key_args H get_argv 2 = Some given'" "decode_store_key given' = Some (name', key')"
      "with_store t' R_Undefined M' name' (reading (esdb_store_get (ce_value M' 0) (Some key') True)) A2 = (Inr got, B')"
    and wire: "(\<exists>v. got = Done v \<and> value_wire (Some v) = Some wire) \<or> (\<exists>e. got = Failed ESDB_ERR_NOT_FOUND e \<and> wire = MISSING_WIRE)"
    by blast
  have "given' = given"
    using put(1) got(1) assms(5,6) by (auto simp: name_key_args_def name_arg_def intro: prod_eqI split: if_splits)
  then have same: "name' = name1" "key' = key" using put(3) got(2) by simp_all
  from get_named_store [OF got(3) good_states_known [OF good2]] st(1) same obtain k where
    "got = esdb_store_get (ce_value M' 0) (Some key) True (Some (st\<lparr>ms_handle_count := k\<rparr>))" by auto
  then have "got = Done v \<or> (\<exists>s e. got = Failed s e \<and> s \<noteq> ESDB_ERR_NOT_FOUND)"
    using st(2) by (auto simp: esdb_store_get_def clone_value_def store_fail_def)
  with wire have v: "value_wire (Some v) = Some wire" by auto
  have "canonical v \<and> ev_type v \<noteq> ESDB_VALUE_DOUBLE \<and> length (ev_payload v) < 2 ^ 63"
    by (rule made_text [OF put(5) assms(9) [OF put(2)]])
  then have "carried P v" by (simp add: carried_def)
  from carried_line [OF assms(7) this assms(8)] v have "parse_query_value_wire P alloc wire = Some v" by auto
  with put(2,4,5) show ?thesis by blast
qed

lemma named_get: "fst (sample_call M_storeGet [R_String [54, 49], R_String [54, 50]] named_adapter)
    = R_String (ascii ''V1:5:C3A9'')"
  by code_simp

theorem stored_text_comes_back_witness:
  "make_text_value plenty 5 (Some [67, 51, 65, 57])
     = Done (the (parse_query_value_wire classic_platform plenty (ascii ''V1:5:C3A9'')))"
proof -
  let ?put = "[R_String [54, 49], R_String [54, 50], R_I32 5, R_String [67, 51, 65, 57]]"
  let ?get = "[R_String [54, 49], R_String [54, 50]]"
  have "fst (sample_call M_storePutText ?put fresh_adapter) = R_String [49]" by code_simp
  then have "storePutText 0 no_failures sample_host ?put fresh_adapter = (R_String [49], named_adapter)"
    by (metis invoke.simps(31) named_adapter_def option.sel prod.collapse sample_call_def)
  moreover obtain A2 where "storeGet 0 no_failures sample_host ?get named_adapter = (R_String (ascii ''V1:5:C3A9''), A2)"
    using named_get by (metis invoke.simps(33) option.sel prod.collapse sample_call_def)
  moreover have "get_string_arg sample_host ?get 0 = get_string_arg sample_host ?put 0"
    "get_string_arg sample_host ?get 1 = get_string_arg sample_host ?put 1"
    "get_i32_arg sample_host ?put 2 = Some 5" "get_string_arg sample_host ?put 3 = Some [67, 51, 65, 57]"
    by code_simp+
  ultimately have "\<exists>type payload v. Some 5 = Some type \<and> Some [67, 51, 65, 57] = Some payload \<and>
     make_text_value (ce_value no_failures 0) (of_int type) (Some payload) = Done v \<and>
     parse_query_value_wire classic_platform plenty (ascii ''V1:5:C3A9'') = Some v"
    using stored_text_comes_back [OF run_none [of sample_engine sample_host "new_adapter empty_world \<lparr>zw_registry = [], zw_layer = ()\<rparr>"],
      folded fresh_adapter_def, of 0 no_failures ?put "[49]" named_adapter named_adapter 0 no_failures ?get "ascii ''V1:5:C3A9''" A2
      classic_platform plenty, OF _ between_none _ _ _ classic_portable plenty_allocates]
    by simp
  then show ?thesis by (auto simp: no_failures_def)
qed

end
