(* ===== verification/Adapter_Scan_Spec.thy ===== *)
theory Adapter_Scan_Spec
  imports Adapter_Memory_Spec
begin

text \<open>
  What a host reads from a scan through the ExternalObject adapter: the reply denotes exactly the
  window of the named store, in key order, or no reply is given at all.
\<close>

lemma replay_revision:
  "length h < 2 ^ 63 \<Longrightarrow> replay h k = Some r \<Longrightarrow> mr_revision r \<le> ESDB_REVISION_MAX"
proof (induction h arbitrary: r rule: rev_induct)
  case (snoc e h)
  have small: "of_nat (Suc (length h)) \<le> ESDB_REVISION_MAX"
    using snoc.prems(1) by (simp add: word_le_nat_alt unat_of_nat del: of_nat_Suc)
  show ?case
  proof (cases "replay h k = Some r")
    case True
    with snoc show ?thesis by simp
  next
    case False
    then show ?thesis using snoc.prems(2) small by (cases e) (auto split: if_splits simp del: of_nat_Suc)
  qed
qed simp

lemma refined_revision:
  assumes "refines st h" and "p \<in> set (ms_records st)"
  shows "mr_revision (snd p) \<le> ESDB_REVISION_MAX"
proof -
  have "map_of (ms_records st) (fst p) = Some (snd p)"
    using assms ordered_keys_distinct [of "ms_records st"] by (intro map_of_is_SomeI) (simp_all add: refines_def)
  then have "replay h (fst p) = Some (snd p)" "length h < 2 ^ 63" using assms(1) by (simp_all add: refines_def)
  then show ?thesis by (intro replay_revision)
qed

definition scan_records :: "memory_state option \<Rightarrow> byte list option \<Rightarrow> (cpp_string \<times> memory_record) list" where
  "scan_records store after_key =
     (let records = (case store of None \<Rightarrow> [] | Some st \<Rightarrow> ms_records st) in
      case after_key of None \<Rightarrow> records | Some k \<Rightarrow> filter (\<lambda>p. c_str k < fst p) records)"

definition shown_record :: "cpp_string \<times> memory_record \<Rightarrow> u64 \<times> byte list \<times> esdb_value" where
  "shown_record p = (mr_revision (snd p), bytes (fst p), mr_value (snd p))"

definition scan_limit :: "u32 \<Rightarrow> nat" where
  "scan_limit limit = unat (if limit = 0 then ESDB_STORE_SCAN_LIMIT_MAX else limit)"

lemma window_records:
  "set (take (scan_limit limit) (scan_records store after_key)) \<subseteq> (case store of None \<Rightarrow> {} | Some st \<Rightarrow> set (ms_records st))"
proof -
  have "set (scan_records store after_key) \<subseteq> (case store of None \<Rightarrow> {} | Some st \<Rightarrow> set (ms_records st))"
    by (auto simp: scan_records_def Let_def split: option.splits)
  with set_take_subset show ?thesis by (rule order_trans)
qed

lemma length_window: "length (map shown_record (take (scan_limit limit) records)) < 2 ^ 32"
proof -
  have "unat limit' < 2 ^ 32" for limit' :: u32
    using unsigned_less [of limit'] by simp
  then show ?thesis by (auto simp: scan_limit_def min_less_iff_disj)
qed

lemma storeScan_success:
  assumes "storeScan t M H argv A = (R_String s, A')"
  shows "\<exists>name_hex after_hex name1 after_key limit count1 context1 A1.
     name_key_args H argv 3 = Some (name_hex, after_hex) \<and> decode_name name_hex = Some name1 \<and>
     optional_hex after_hex = Some after_key \<and> limit_arg ESDB_STORE_SCAN_LIMIT_MAX (get_i32_arg H argv 2) = Some limit \<and>
     with_store t R_Undefined M name1 (reading (esdb_store_scan (ce_library M) after_key limit
            (Some (append_memory_record_wire (ce_grows M))) new_record_context)) A = (Inr (Done count1, context1), A1) \<and>
     \<not> rx_failed context1 \<and> s = record_reply context1"
proof -
  have r: "reports t R_Undefined (and_then (arguments t R_Undefined oom other M usage raw decode) (\<lambda>(name1, after_key, limit).
        and_then (with_store t R_Undefined M name1 (reading
          (esdb_store_scan (ce_library M) after_key limit (Some (append_memory_record_wire (ce_grows M))) new_record_context)))
        (scan_window t M m1 m2 other)))" for oom other usage m1 m2 and raw :: "'r option" and decode
    by (rule settles_answers [THEN settles_reports] reports_and_then reports_arguments reports_with_store impI allI
        | simp (no_asm) split: prod.split)+
  show ?thesis
    using reply_string [OF r assms [unfolded storeScan_def]]
    by (auto elim!: and_then_InrE simp: passed_steps scan_window_def window_failed_def give_up_def dest!: passed_arguments
        split: outcome.splits if_splits)
qed

lemma scan_shows:
  assumes "esdb_store_scan throws after_key limit (Some (append_memory_record_wire grows)) new_record_context (Some st)
      = (Done count1, context1)"
    and "\<not> rx_failed context1" and "ordered_keys (ms_records st)"
  shows "took context1 (map shown_record (take (scan_limit limit) (scan_records (Some st) after_key)))"
proof -
  let ?rest = "case after_key of None \<Rightarrow> ms_records st | Some k \<Rightarrow> map_after (c_str k) (ms_records st)"
  have rest: "?rest = scan_records (Some st) after_key"
    using map_after_filter [OF assms(3)] by (simp add: scan_records_def split: option.split)
  obtain threw seen n c where run: "deliver (append_memory_record_wire grows) (take (scan_limit limit) ?rest) None 0 new_record_context
      = (threw, seen, n, c)" by (metis prod.exhaust)
  then have "c = context1"
    using assms(1) by (auto simp: esdb_store_scan_def scan_limit_def Let_def store_fail_def caught_def
        split: if_splits option.splits exn.splits)
  with deliver_records [OF _ run took_new, of grows shown_record] assms(2)
  show ?thesis
    by (simp add: append_memory_record_wire_def shown_record_def rest)
qed

text \<open>
  C20: what a host decodes from the answer of \<open>storeScan\<close> is the window of the store, nothing more
  and nothing less: the first records after the given key in ascending byte order, each with its
  key, revision and value. A window that could not be serialised whole is never answered.
\<close>

theorem store_scans_decode:
  assumes "adapter_run E H (new_adapter empty_world zip1) A"
    and "storeScan t M H argv A = (R_String answer1, A')"
    and "portable P" and "allocates alloc"
    and "\<forall>s st p. w_states (ad_stores A) s = Some st \<longrightarrow> p \<in> set (ms_records st) \<longrightarrow> carried P (mr_value (snd p))"
  shows "\<exists>name_hex after_hex name1 after_key limit.
     name_key_args H argv 3 = Some (name_hex, after_hex) \<and> decode_name name_hex = Some name1 \<and>
     optional_hex after_hex = Some after_key \<and> limit_arg ESDB_STORE_SCAN_LIMIT_MAX (get_i32_arg H argv 2) = Some limit \<and>
     read_record_reply P alloc answer1
       = Some (map shown_record (take (scan_limit limit) (scan_records (named_store (ad_stores A) name1) after_key)))"
proof -
  have good: "world_good (ad_stores A)" by (rule run_stores_good [OF assms(1)])
  then obtain tr where "registry_run tr (ad_stores A)" by (auto simp: world_good_def)
  then have states: "states_ok (ad_stores A) tr" using run_ok by (simp add: world_ok_def)
  from storeScan_success [OF assms(2)] obtain name_hex after_hex name1 after_key limit count1 context1 A1 where
    args: "name_key_args H argv 3 = Some (name_hex, after_hex)" "decode_name name_hex = Some name1"
     "optional_hex after_hex = Some after_key" "limit_arg ESDB_STORE_SCAN_LIMIT_MAX (get_i32_arg H argv 2) = Some limit"
    and ran: "with_store t R_Undefined M name1 (reading (esdb_store_scan (ce_library M) after_key limit
            (Some (append_memory_record_wire (ce_grows M))) new_record_context)) A = (Inr (Done count1, context1), A1)"
    and context1: "\<not> rx_failed context1" "answer1 = record_reply context1" by blast
  from with_store_named [OF ran [unfolded reading_def] good_states_known [OF good]] obtain st k where
    st: "st = (case named_store (ad_stores A) name1 of None \<Rightarrow> new_memory_state (c_str name1) | Some st \<Rightarrow> st)"
    and scan: "esdb_store_scan (ce_library M) after_key limit (Some (append_memory_record_wire (ce_grows M)))
        new_record_context (Some (st\<lparr>ms_handle_count := k\<rparr>)) = (Done count1, context1)" by auto
  have same: "scan_records (named_store (ad_stores A) name1) after_key = scan_records (Some st) after_key"
    by (cases "named_store (ad_stores A) name1") (simp_all add: st scan_records_def new_memory_state_def split: option.split)
  have "(\<exists>h. refines st h) \<and> (\<forall>p \<in> set (ms_records st). carried P (mr_value (snd p)))"
  proof (cases "named_store (ad_stores A) name1")
    case None
    then show ?thesis using refines_new by (auto simp: st new_memory_state_def)
  next
    case (Some st')
    then obtain s where "w_states (ad_stores A) s = Some st'" by (auto simp: named_store_def split: option.splits)
    then show ?thesis using states assms(5) Some by (auto simp: st states_ok_def)
  qed
  then obtain h where h: "refines st h" and carried: "\<forall>p \<in> set (ms_records st). carried P (mr_value (snd p))" by blast
  have st_records: "ms_records (st\<lparr>ms_handle_count := k\<rparr>) = ms_records st" by simp
  let ?window = "take (scan_limit limit) (scan_records (Some st) after_key)"
  have ordered: "ordered_keys (ms_records st)" using h by (simp add: refines_def)
  then have "took context1 (map shown_record (take (scan_limit limit) (scan_records (Some (st\<lparr>ms_handle_count := k\<rparr>)) after_key)))"
    by (intro scan_shows [OF scan context1(1)]) simp
  then have took: "took context1 (map shown_record ?window)" by (simp add: scan_records_def)
  have each: "\<forall>(r, k, v) \<in> set (map shown_record ?window). carried P v \<and> r \<le> ESDB_REVISION_MAX"
    using carried refined_revision [OF h] window_records [of limit "Some st" after_key] by (auto simp: shown_record_def)
  from read_took_reply [OF assms(3,4) took length_window each] args context1(2) same show ?thesis by auto
qed

lemma named_scan:
  "storeScan 0 no_failures sample_host [R_String [54, 49], R_String [], R_I32 0] named_adapter
     = (R_String (ascii ''V1:1'' @ [10] @ ascii ''1:62:5:C3A9'' @ [10]),
        snd (storeScan 0 no_failures sample_host [R_String [54, 49], R_String [], R_I32 0] named_adapter))"
proof (rule prod_eqI)
  show "fst (storeScan 0 no_failures sample_host [R_String [54, 49], R_String [], R_I32 0] named_adapter)
    = fst (R_String (ascii ''V1:1'' @ [10] @ ascii ''1:62:5:C3A9'' @ [10]),
        snd (storeScan 0 no_failures sample_host [R_String [54, 49], R_String [], R_I32 0] named_adapter))"
    by code_simp
qed simp

lemma named_store_values:
  "map_option (\<lambda>st. map (\<lambda>p. mr_value (snd p)) (ms_records st)) (w_states (ad_stores named_adapter) 0)
     = Some [\<lparr>ev_type = ESDB_VALUE_UTF8, ev_payload = [195, 169]\<rparr>]"
  "Option.is_none (w_states (ad_stores named_adapter) 1)" "w_next (ad_stores named_adapter) = 2"
  by code_simp+

lemma named_carried:
  assumes "w_states (ad_stores named_adapter) s = Some st" and "p \<in> set (ms_records st)"
  shows "carried classic_platform (mr_value (snd p))"
proof -
  obtain tr where "registry_run tr (ad_stores named_adapter)"
    using run_stores_good [OF named_run [unfolded fresh_adapter_def]] by (auto simp: world_good_def)
  then have fresh: "fresh_ok (ad_stores named_adapter) tr" using run_ok by (simp add: world_ok_def)
  have "s = 0"
  proof (rule ccontr)
    assume "s \<noteq> 0"
    with assms(1) named_store_values(2) have "2 \<le> s" by (cases "s = 1") auto
    with fresh assms(1) named_store_values(3) show False by (simp add: fresh_ok_def)
  qed
  with assms(1) named_store_values(1)
  have "map (\<lambda>p. mr_value (snd p)) (ms_records st) = [\<lparr>ev_type = ESDB_VALUE_UTF8, ev_payload = [195, 169]\<rparr>]" by simp
  then have "mr_value (snd p) = \<lparr>ev_type = ESDB_VALUE_UTF8, ev_payload = [195, 169]\<rparr>"
    using assms(2) by auto
  moreover have "canonical \<lparr>ev_type = ESDB_VALUE_UTF8, ev_payload = [195, 169]\<rparr>" by code_simp
  ultimately show ?thesis by (auto intro!: carriedI)
qed

theorem store_scans_decode_witness:
  "read_record_reply classic_platform plenty (ascii ''V1:1'' @ [10] @ ascii ''1:62:5:C3A9'' @ [10])
     = Some (map shown_record (take 10000 (scan_records (named_store (ad_stores named_adapter) [97]) None)))"
proof -
  have "\<forall>s st p. w_states (ad_stores named_adapter) s = Some st \<longrightarrow> p \<in> set (ms_records st) \<longrightarrow>
      carried classic_platform (mr_value (snd p))"
    using named_carried by blast
  from store_scans_decode [OF named_run [unfolded fresh_adapter_def] named_scan classic_portable plenty_allocates this]
  obtain name_hex after_hex name1 after_key limit where
    "name_key_args sample_host [R_String [54, 49], R_String [], R_I32 0] 3 = Some (name_hex, after_hex)"
    "decode_name name_hex = Some name1" "optional_hex after_hex = Some after_key"
    "limit_arg ESDB_STORE_SCAN_LIMIT_MAX (get_i32_arg sample_host [R_String [54, 49], R_String [], R_I32 0] 2) = Some limit"
    and reply1: "read_record_reply classic_platform plenty (ascii ''V1:1'' @ [10] @ ascii ''1:62:5:C3A9'' @ [10])
       = Some (map shown_record (take (scan_limit limit) (scan_records (named_store (ad_stores named_adapter) name1) after_key)))"
    by blast
  moreover have "name_key_args sample_host [R_String [54, 49], R_String [], R_I32 0] 3 = Some ([54, 49], [])"
    "decode_name [54, 49] = Some [97]" "optional_hex [] = Some None"
    "limit_arg ESDB_STORE_SCAN_LIMIT_MAX (get_i32_arg sample_host [R_String [54, 49], R_String [], R_I32 0] 2) = Some 0"
    by code_simp+
  ultimately show ?thesis by (simp add: scan_limit_def)
qed

end
