(* ===== verification/Adapter_Locks.thy ===== *)
theory Adapter_Locks
  imports Adapter_Spec
begin

text \<open>
  The locks of the ExternalObject adapter
  (src/adapters/externalobject/esdb_externalobject.cpp): the table mutex \<open>g_mutex\<close> and one
  \<open>operation_mutex\<close> per slot. A method on a handle looks its slot up under the table lock, takes
  the slot's lock while it still holds the table's, then releases the table and works
  (\<open>lock_slot\<close>); closing keeps both; termination holds the table and takes each slot in turn;
  opening and counting hold the table alone. The transition system interleaves any number of
  threads at every acquire and release.
\<close>

section \<open>Threads and locks\<close>

datatype lock_request = Use int | Shut int | Browse | Sweep

datatype phase =
    Idle
  | Wants_Table lock_request
  | Holds_Table lock_request
  | Wants_Slot bool int nat
  | Leaves_Table int nat
  | Works int nat
  | Shuts int nat
  | Sweeps nat
  | Sweeps_In nat

record ('d, 'z) lock_state =
  lk_table :: "nat option"
  lk_slots :: "nat \<Rightarrow> nat option"
  lk_phase :: "nat \<Rightarrow> phase"
  lk_adapter :: "('d, 'z) adapter"

definition all_idle :: "('d, 'z) adapter \<Rightarrow> ('d, 'z) lock_state" where
  "all_idle A = \<lparr>lk_table = None, lk_slots = (\<lambda>_. None), lk_phase = (\<lambda>_. Idle), lk_adapter = A\<rparr>"

definition move :: "nat \<Rightarrow> phase \<Rightarrow> ('d, 'z) lock_state \<Rightarrow> ('d, 'z) lock_state" where
  "move t p s = s\<lparr>lk_phase := (lk_phase s)(t := p)\<rparr>"

definition take_table :: "nat \<Rightarrow> ('d, 'z) lock_state \<Rightarrow> ('d, 'z) lock_state" where
  "take_table t s = s\<lparr>lk_table := Some t\<rparr>"

definition leave_table :: "('d, 'z) lock_state \<Rightarrow> ('d, 'z) lock_state" where
  "leave_table s = s\<lparr>lk_table := None\<rparr>"

definition take_slot :: "nat \<Rightarrow> nat \<Rightarrow> ('d, 'z) lock_state \<Rightarrow> ('d, 'z) lock_state" where
  "take_slot t i s = s\<lparr>lk_slots := (lk_slots s)(i := Some t)\<rparr>"

definition leave_slot :: "nat \<Rightarrow> ('d, 'z) lock_state \<Rightarrow> ('d, 'z) lock_state" where
  "leave_slot i s = s\<lparr>lk_slots := (lk_slots s)(i := None)\<rparr>"

definition with_adapter :: "('d, 'z) adapter \<Rightarrow> ('d, 'z) lock_state \<Rightarrow> ('d, 'z) lock_state" where
  "with_adapter A s = s\<lparr>lk_adapter := A\<rparr>"

text \<open>After the table lock is taken: a termination starts its loop, the others look at the table.\<close>

definition entered :: "lock_request \<Rightarrow> phase" where
  "entered r = (if r = Sweep then Sweeps 0 else Holds_Table r)"

text \<open>What a browsing method may do to the table: nothing, or take the first free slot.\<close>

definition browsed :: "nat \<Rightarrow> ('d, 'z) adapter \<Rightarrow> ('d, 'z) adapter \<Rightarrow> bool" where
  "browsed t A A' \<longleftrightarrow> inside t {} A A' \<or>
     (\<exists>i database. first_free (ad_slots A) = Some i \<and>
        ad_slots A' = (ad_slots A)[i := (ad_slots A ! i)\<lparr>sl_database := Some database\<rparr>])"

section \<open>Steps\<close>

text \<open>
  A step of a thread that is inside a method. The work under a slot's lock is any change inside
  that slot; it ends with the release of the lock.
\<close>

inductive lock_step ::
  "'d sqlite \<Rightarrow> nat \<Rightarrow> ('d, 'z) lock_state \<Rightarrow> ('d, 'z) lock_state \<Rightarrow> bool"
  for E :: "'d sqlite" and t :: nat where
  lock_table: "lk_phase s t = Wants_Table r \<Longrightarrow> lk_table s = None \<Longrightarrow>
    lock_step E t s (move t (entered r) (take_table t s))"
| lookup_fails: "lk_phase s t = Holds_Table r \<Longrightarrow> r = Use token \<or> r = Shut token \<Longrightarrow>
    lookup_slot token (lk_adapter s) = None \<Longrightarrow> lock_step E t s (move t Idle (leave_table s))"
| lookup_finds: "lk_phase s t = Holds_Table r \<Longrightarrow> r = Use token \<or> r = Shut token \<Longrightarrow>
    lookup_slot token (lk_adapter s) = Some i \<Longrightarrow>
    lock_step E t s (move t (Wants_Slot (r = Shut token) token i) s)"
| browse: "lk_phase s t = Holds_Table Browse \<Longrightarrow> browsed t (lk_adapter s) A \<Longrightarrow>
    lock_step E t s (move t Idle (leave_table (with_adapter A s)))"
| lock_the_slot: "lk_phase s t = Wants_Slot keep token i \<Longrightarrow> lk_slots s i = None \<Longrightarrow>
    lock_step E t s (move t (if keep then Shuts token i else Leaves_Table token i) (take_slot t i s))"
| unlock_table: "lk_phase s t = Leaves_Table token i \<Longrightarrow>
    lock_step E t s (move t (Works token i) (leave_table s))"
| work: "lk_phase s t = Works token i \<Longrightarrow> inside t {i} (lk_adapter s) A \<Longrightarrow>
    lock_step E t s (move t Idle (leave_slot i (with_adapter A s)))"
| shut: "lk_phase s t = Shuts token i \<Longrightarrow>
    lock_step E t s (move t Idle (leave_table (leave_slot i
      (with_adapter (update_slot i (close_slot E) (lk_adapter s)) s))))"
| sweep_lock: "lk_phase s t = Sweeps i \<Longrightarrow> i < k_slot_count \<Longrightarrow> lk_slots s i = None \<Longrightarrow>
    lock_step E t s (move t (Sweeps_In i) (take_slot t i s))"
| sweep_slot: "lk_phase s t = Sweeps_In i \<Longrightarrow>
    lock_step E t s (move t (Sweeps (Suc i)) (leave_slot i
      (with_adapter (update_slot i (terminate_slot E) (lk_adapter s)) s)))"
| sweep_end: "lk_phase s t = Sweeps i \<Longrightarrow> k_slot_count \<le> i \<Longrightarrow>
    lock_step E t s (move t Idle (leave_table s))"

text \<open>Some thread inside a method moves; or an idle thread calls one.\<close>

definition inner_step :: "'d sqlite \<Rightarrow> ('d, 'z) lock_state \<Rightarrow> ('d, 'z) lock_state \<Rightarrow> bool" where
  "inner_step E s s' \<longleftrightarrow> (\<exists>t. lock_step E t s s')"

inductive lock_run :: "'d sqlite \<Rightarrow> nat \<Rightarrow> ('d, 'z) adapter \<Rightarrow> ('d, 'z) lock_state \<Rightarrow> bool"
  for E :: "'d sqlite" and n :: nat and A :: "('d, 'z) adapter" where
  start: "lock_run E n A (all_idle A)"
| request: "lock_run E n A s \<Longrightarrow> t < n \<Longrightarrow> lk_phase s t = Idle \<Longrightarrow> lock_run E n A (move t (Wants_Table r) s)"
| inner: "lock_run E n A s \<Longrightarrow> lock_step E t s s' \<Longrightarrow> lock_run E n A s'"

inductive_cases lock_stepE: "lock_step E t s s'"

section \<open>The methods are such steps\<close>

text \<open>
  A method on a handle changes its own thread and the one slot its handle names, so it is a
  \<open>work\<close> step; an open is a \<open>browse\<close> step.
\<close>

lemma invoke_is_work:
  assumes "invoke fuel ve sv E t M H f argv A = Some out" and "f \<noteq> M_openStaged" and "f \<noteq> M_close"
    and "h_i32 H argv 0 = Some token" and "lookup_slot token A = Some i"
  shows "inside t {i} A (snd out)"
proof -
  obtain g where "decode_handle token = Some (i, g)" using lookup_slot_Some(1) [OF assms(5)] by blast
  then have "method_slots H f argv \<subseteq> {i}" using assms(4) by (auto simp: method_slots_def named_slots_def)
  with invoke_inside [OF assms(1-3)] show ?thesis by (auto simp: inside_def)
qed

lemma open_is_browse:
  assumes "openStaged E t M H argv A = (r, A')"
  shows "browsed t A A'"
  using assms
proof (cases rule: openStaged_cases)
  case 1
  have "other_threads t A A'" using open_close_threads(1) [of t E M H argv] assms unfolding bounds_def by (metis snd_conv)
  with 1 show ?thesis by (simp add: browsed_def inside_def other_threads_def)
next
  case (2 i database)
  then show ?thesis unfolding browsed_def by blast
qed

section \<open>Who holds what\<close>

fun owns_table :: "phase \<Rightarrow> bool" where
  "owns_table (Holds_Table r) = True"
| "owns_table (Wants_Slot keep token i) = True"
| "owns_table (Leaves_Table token i) = True"
| "owns_table (Shuts token i) = True"
| "owns_table (Sweeps i) = True"
| "owns_table (Sweeps_In i) = True"
| "owns_table p = False"

fun owned_slot :: "phase \<Rightarrow> nat option" where
  "owned_slot (Leaves_Table token i) = Some i"
| "owned_slot (Works token i) = Some i"
| "owned_slot (Shuts token i) = Some i"
| "owned_slot (Sweeps_In i) = Some i"
| "owned_slot p = None"

text \<open>The handle a thread goes by, from the moment its lookup found a slot.\<close>

fun claims :: "phase \<Rightarrow> (int \<times> nat) option" where
  "claims (Wants_Slot keep token i) = Some (token, i)"
| "claims (Leaves_Table token i) = Some (token, i)"
| "claims (Works token i) = Some (token, i)"
| "claims (Shuts token i) = Some (token, i)"
| "claims p = None"

fun phase_ok :: "phase \<Rightarrow> bool" where
  "phase_ok (Holds_Table r) = (r \<noteq> Sweep)"
| "phase_ok (Sweeps i) = (i \<le> k_slot_count)"
| "phase_ok (Sweeps_In i) = (i < k_slot_count)"
| "phase_ok p = True"

text \<open>Each lock is held by exactly the thread whose phase says so.\<close>

definition locks_agree :: "('d, 'z) lock_state \<Rightarrow> bool" where
  "locks_agree s \<longleftrightarrow>
     (\<forall>t. owns_table (lk_phase s t) \<longleftrightarrow> lk_table s = Some t) \<and>
     (\<forall>t i. owned_slot (lk_phase s t) = Some i \<longleftrightarrow> lk_slots s i = Some t)"

definition phases_ok :: "nat \<Rightarrow> ('d, 'z) lock_state \<Rightarrow> bool" where
  "phases_ok n s \<longleftrightarrow> (\<forall>t. phase_ok (lk_phase s t)) \<and> (\<forall>t \<ge> n. lk_phase s t = Idle)"

definition claims_hold :: "('d, 'z) lock_state \<Rightarrow> bool" where
  "claims_hold s \<longleftrightarrow>
     (\<forall>t token i. claims (lk_phase s t) = Some (token, i) \<longrightarrow> lookup_slot token (lk_adapter s) = Some i)"

lemmas move_defs = move_def take_table_def leave_table_def take_slot_def leave_slot_def with_adapter_def

lemma lock_step_agree:
  assumes "lock_step E t s s'" and "locks_agree s"
  shows "locks_agree s'"
proof -
  have table: "owns_table (lk_phase s u) \<longleftrightarrow> lk_table s = Some u"
    and slots: "owned_slot (lk_phase s u) = Some i \<longleftrightarrow> lk_slots s i = Some u" for u i
    using assms(2) by (simp_all add: locks_agree_def)
  have "owns_table (lk_phase s' u) \<longleftrightarrow> lk_table s' = Some u" for u
    using assms(1)
    by cases (use table [of t] table [of u] in \<open>auto simp: move_defs entered_def\<close>)
  moreover have "owned_slot (lk_phase s' u) = Some i \<longleftrightarrow> lk_slots s' i = Some u" for u i
    using assms(1)
    by cases (use slots [of t i] slots [of u i] slots [of t] in \<open>auto simp: move_defs entered_def\<close>, (metis option.inject)+)
  ultimately show ?thesis by (simp add: locks_agree_def)
qed

lemma lock_step_phases:
  assumes "lock_step E t s s'" and "phases_ok n s"
  shows "phases_ok n s'"
proof -
  have ok: "phase_ok (lk_phase s u)" and idle: "n \<le> u \<Longrightarrow> lk_phase s u = Idle" for u
    using assms(2) by (simp_all add: phases_ok_def)
  have "phase_ok (lk_phase s' u)" for u
    using assms(1) by cases (use ok [of t] ok [of u] in \<open>auto simp: move_defs entered_def\<close>)
  moreover have "lk_phase s' u = Idle" if "n \<le> u" for u
    using assms(1) by cases (use idle [OF that] idle [of t] that in \<open>auto simp: move_defs\<close>)
  ultimately show ?thesis by (simp add: phases_ok_def)
qed

section \<open>Lookups\<close>

text \<open>Which lookups survive a change of the table.\<close>

lemma lookup_same_life:
  assumes "lookup_slot token A = Some i" and "same_life (ad_slots A ! i) (ad_slots A' ! i)"
  shows "lookup_slot token A' = Some i"
proof -
  from lookup_slot_Some [OF assms(1)] obtain g where token: "decode_handle token = Some (i, g)"
    "sl_generation (ad_slots A ! i) = g" by blast
  then show ?thesis
    using lookup_slot_Some(2,3) [OF assms(1)] assms(2) by (simp add: lookup_slot_def Let_def same_life_def)
qed

lemma lookup_unchanged:
  "lookup_slot token A = Some i \<Longrightarrow> ad_slots A' ! i = ad_slots A ! i \<Longrightarrow> lookup_slot token A' = Some i"
  by (erule lookup_same_life) simp

lemma lookup_inside:
  assumes "inside t S A A'" and "lookup_slot token A = Some i" and "table_ok A"
  shows "lookup_slot token A' = Some i"
proof -
  obtain g where "decode_handle token = Some (i, g)" using lookup_slot_Some(1) [OF assms(2)] by blast
  then have "i < length (ad_slots A)" using assms(3) decode_handle_slot by (simp add: table_ok_def)
  then have "same_life (ad_slots A ! i) (ad_slots A' ! i)" using assms(1) by (simp add: inside_def)
  then show ?thesis by (rule lookup_same_life [OF assms(2)])
qed

lemma lookup_browsed:
  assumes "browsed t A A'" and "lookup_slot token A = Some i" and "table_ok A"
  shows "lookup_slot token A' = Some i"
  using assms(1) unfolding browsed_def
proof
  assume "inside t {} A A'"
  then show ?thesis by (rule lookup_inside [OF _ assms(2,3)])
next
  assume "\<exists>k database. first_free (ad_slots A) = Some k \<and>
      ad_slots A' = (ad_slots A)[k := (ad_slots A ! k)\<lparr>sl_database := Some database\<rparr>]"
  then obtain k database where k: "first_free (ad_slots A) = Some k"
    "ad_slots A' = (ad_slots A)[k := (ad_slots A ! k)\<lparr>sl_database := Some database\<rparr>]" by (elim exE conjE)
  have "k \<noteq> i" using first_free_Some [OF k(1)] lookup_slot_Some(2) [OF assms(2)] by (auto simp: free_slot_def)
  then show ?thesis by (intro lookup_unchanged [OF assms(2)]) (simp add: k(2))
qed

lemma lookup_other_slot:
  "lookup_slot token A = Some i \<Longrightarrow> i \<noteq> k \<Longrightarrow> lookup_slot token (update_slot k f A) = Some i"
  by (erule lookup_unchanged) (simp add: update_slot_def)

text \<open>While one thread holds the table and a slot, no other has a claim on that slot.\<close>

lemma claims_elsewhere:
  assumes "locks_agree s" and "lk_table s = Some t" and "lk_slots s i = Some t"
    and "u \<noteq> t" and "claims (lk_phase s u) = Some (token, k)"
  shows "k \<noteq> i"
proof -
  have "\<not> owns_table (lk_phase s u)" using assms(1,2,4) by (simp add: locks_agree_def)
  then have "owned_slot (lk_phase s u) = Some k" using assms(5) by (cases "lk_phase s u") auto
  then have "lk_slots s k = Some u" using assms(1) by (simp add: locks_agree_def)
  with assms(3,4) show ?thesis by auto
qed

lemma lock_step_claims:
  assumes "lock_step E t s s'" and "locks_agree s" and "table_ok (lk_adapter s)" and "claims_hold s"
  shows "claims_hold s'"
proof -
  have held: "lookup_slot token (lk_adapter s) = Some i"
    if "claims (lk_phase s u) = Some (token, i)" for u token i
    using assms(4) that by (simp add: claims_hold_def)
  have table: "owns_table (lk_phase s t) \<Longrightarrow> lk_table s = Some t"
    and slot: "owned_slot (lk_phase s t) = Some i \<Longrightarrow> lk_slots s i = Some t" for i
    using assms(2) by (simp_all add: locks_agree_def)
  have "lookup_slot token (lk_adapter s') = Some k" if claim: "claims (lk_phase s' u) = Some (token, k)" for u token k
    using assms(1)
  proof cases
    case (browse A)
    then have "claims (lk_phase s u) = Some (token, k)" using claim by (auto simp: move_defs split: if_splits)
    with browse show ?thesis
      using lookup_browsed [OF _ held assms(3)] by (simp add: move_defs)
  next
    case (work token1 i A)
    then have "claims (lk_phase s u) = Some (token, k)" using claim by (auto simp: move_defs split: if_splits)
    with work show ?thesis
      using lookup_inside [OF _ held assms(3)] by (simp add: move_defs)
  next
    case (shut token1 i)
    then have other: "u \<noteq> t" "claims (lk_phase s u) = Some (token, k)"
      using claim by (auto simp: move_defs split: if_splits)
    have "k \<noteq> i" using claims_elsewhere [OF assms(2) table slot other] shut by simp
    with shut show ?thesis using lookup_other_slot [OF held [OF other(2)]] by (simp add: move_defs)
  next
    case (sweep_slot i)
    then have other: "u \<noteq> t" "claims (lk_phase s u) = Some (token, k)"
      using claim by (auto simp: move_defs split: if_splits)
    have "k \<noteq> i" using claims_elsewhere [OF assms(2) table slot other] sweep_slot by simp
    with sweep_slot show ?thesis using lookup_other_slot [OF held [OF other(2)]] by (simp add: move_defs)
  qed (use claim held [of u] held [of t] in \<open>auto simp: move_defs entered_def split: if_splits\<close>)
  then show ?thesis by (simp add: claims_hold_def)
qed

section \<open>The invariant\<close>

lemma lock_step_table:
  assumes "lock_step E t s s'" and "table_ok (lk_adapter s)" and "claims_hold s"
  shows "table_ok (lk_adapter s')"
  using assms(1)
proof cases
  case (browse A)
  from browse(3) have "table_ok A"
    unfolding browsed_def
  proof
    assume "inside t {} (lk_adapter s) A"
    from inside_life [OF this assms(2)] show ?thesis by simp
  next
    assume "\<exists>i database. first_free (ad_slots (lk_adapter s)) = Some i \<and>
      ad_slots A = (ad_slots (lk_adapter s))[i := (ad_slots (lk_adapter s) ! i)\<lparr>sl_database := Some database\<rparr>]"
    then obtain i database where i: "first_free (ad_slots (lk_adapter s)) = Some i"
      "ad_slots A = (ad_slots (lk_adapter s))[i := (ad_slots (lk_adapter s) ! i)\<lparr>sl_database := Some database\<rparr>]"
      by (elim exE conjE)
    then show ?thesis using opened_slot [OF assms(2) i(1,2)] by simp
  qed
  with browse show ?thesis by (simp add: move_defs)
next
  case (work token i A)
  with inside_life [OF work(3) assms(2)] show ?thesis by (simp add: move_defs)
next
  case (shut token i)
  then have "claims (lk_phase s t) = Some (token, i)" by simp
  then have found: "lookup_slot token (lk_adapter s) = Some i" using assms(3) unfolding claims_hold_def by blast
  have "table_ok (update_slot i (close_slot E) (lk_adapter s)) \<and>
      ages (lk_adapter s) (update_slot i (close_slot E) (lk_adapter s))"
    by (rule table_update [OF assms(2)], simp add: update_slot_def, rule close_slot_life)
      (use assms(2) lookup_slot_Some(2) [OF found] in \<open>simp_all add: table_ok_def\<close>)
  with shut show ?thesis by (simp add: move_defs)
next
  case (sweep_slot i)
  have "table_ok (update_slot i (terminate_slot E) (lk_adapter s)) \<and>
      ages (lk_adapter s) (update_slot i (terminate_slot E) (lk_adapter s))"
    by (rule table_update [OF assms(2)], simp add: update_slot_def, rule terminate_slot_life)
      (use assms(2) in \<open>simp_all add: table_ok_def\<close>)
  with sweep_slot show ?thesis by (simp add: move_defs)
qed (use assms(2) in \<open>simp_all add: move_defs\<close>)

definition lock_ok :: "nat \<Rightarrow> ('d, 'z) lock_state \<Rightarrow> bool" where
  "lock_ok n s \<longleftrightarrow> locks_agree s \<and> phases_ok n s \<and> claims_hold s \<and> table_ok (lk_adapter s)"

lemma lock_step_ok: "lock_step E t s s' \<Longrightarrow> lock_ok n s \<Longrightarrow> lock_ok n s'"
  by (simp add: lock_ok_def lock_step_agree lock_step_phases lock_step_claims lock_step_table)

lemma request_ok:
  assumes "lock_ok n s" and "t < n" and "lk_phase s t = Idle"
  shows "lock_ok n (move t (Wants_Table r) s)"
proof -
  let ?s = "move t (Wants_Table r) s"
  have table: "owns_table (lk_phase s u) \<longleftrightarrow> lk_table s = Some u"
    and slots: "owned_slot (lk_phase s u) = Some i \<longleftrightarrow> lk_slots s i = Some u" for u i
    using assms(1) by (simp_all add: lock_ok_def locks_agree_def)
  have "owns_table (lk_phase ?s u) \<longleftrightarrow> lk_table ?s = Some u" for u
    using table [of u] table [of t] assms(3) by (cases "u = t") (simp_all add: move_def)
  moreover have "owned_slot (lk_phase ?s u) = Some i \<longleftrightarrow> lk_slots ?s i = Some u" for u i
    using slots [of u i] slots [of t i] assms(3) by (cases "u = t") (simp_all add: move_def)
  moreover have "phases_ok n ?s" using assms by (simp add: lock_ok_def phases_ok_def move_def)
  moreover have "claims_hold ?s"
    using assms(1) unfolding lock_ok_def claims_hold_def by (simp add: move_def)
  ultimately show ?thesis using assms(1) by (simp add: lock_ok_def locks_agree_def move_def)
qed

lemma lock_run_ok: "lock_run E n A s \<Longrightarrow> table_ok A \<Longrightarrow> lock_ok n s"
proof (induction rule: lock_run.induct)
  case start
  then show ?case
    by (simp add: lock_ok_def all_idle_def locks_agree_def phases_ok_def claims_hold_def)
next
  case (request s t r)
  then show ?case by (intro request_ok) simp_all
next
  case (inner s t s')
  then show ?case using lock_step_ok by blast
qed

section \<open>Every call returns\<close>

text \<open>
  The steps a thread may still take. A termination locks and sweeps 255 slots, one after the
  other; everything else takes at most five steps.
\<close>

fun steps_left :: "phase \<Rightarrow> nat" where
  "steps_left Idle = 0"
| "steps_left (Wants_Table r) = 2 * k_slot_count + 2"
| "steps_left (Holds_Table r) = 4"
| "steps_left (Wants_Slot keep token i) = 3"
| "steps_left (Leaves_Table token i) = 2"
| "steps_left (Works token i) = 1"
| "steps_left (Shuts token i) = 1"
| "steps_left (Sweeps i) = 2 * (k_slot_count - i) + 1"
| "steps_left (Sweeps_In i) = 2 * (k_slot_count - i)"

definition work_left :: "nat \<Rightarrow> ('d, 'z) lock_state \<Rightarrow> nat" where
  "work_left n s = (\<Sum>t<n. steps_left (lk_phase s t))"

lemma lock_step_phase:
  assumes "lock_step E t s s'" and "phases_ok n s"
  shows "u \<noteq> t \<Longrightarrow> lk_phase s' u = lk_phase s u"
    and "steps_left (lk_phase s' t) < steps_left (lk_phase s t)" and "t < n"
proof -
  show "u \<noteq> t \<Longrightarrow> lk_phase s' u = lk_phase s u"
    using assms(1) by cases (simp_all add: move_defs)
  have ok: "phase_ok (lk_phase s t)" and idle: "n \<le> t \<Longrightarrow> lk_phase s t = Idle"
    using assms(2) by (simp_all add: phases_ok_def)
  show "steps_left (lk_phase s' t) < steps_left (lk_phase s t)"
    using assms(1) ok by cases (auto simp: move_defs entered_def)
  show "t < n"
    using assms(1) idle by cases (cases "n \<le> t", simp_all)+
qed

lemma inner_step_work:
  assumes "inner_step E s s'" and "phases_ok n s"
  shows "work_left n s' < work_left n s"
proof -
  obtain t where step: "lock_step E t s s'" using assms(1) unfolding inner_step_def ..
  note moved = lock_step_phase [OF step assms(2)]
  have "steps_left (lk_phase s' u) \<le> steps_left (lk_phase s u)" for u
    using moved(1) [of u] moved(2) by (cases "u = t") simp_all
  then show ?thesis
    unfolding work_left_def using moved(2,3) by (intro sum_strict_mono_ex1) auto
qed

text \<open>A thread that waits for a lock waits for one that can move.\<close>

lemma slot_wait_ends:
  assumes "lock_ok n s" and "lk_table s = Some t" and "owned_slot (lk_phase s t) = None"
  shows "lk_slots s i = None \<or> (\<exists>s'. inner_step E s s')"
proof (cases "lk_slots s i")
  case (Some u)
  then have owner: "owned_slot (lk_phase s u) = Some i"
    using assms(1) by (simp add: lock_ok_def locks_agree_def)
  with assms(3) have "u \<noteq> t" by auto
  then have "\<not> owns_table (lk_phase s u)" using assms(1,2) by (simp add: lock_ok_def locks_agree_def)
  with owner obtain token where "lk_phase s u = Works token i" by (cases "lk_phase s u") auto
  from lock_step.work [OF this inside_refl] show ?thesis unfolding inner_step_def by blast
qed simp

lemma table_owner_moves:
  assumes "lock_ok n s" and "lk_table s = Some t"
  shows "\<exists>s'. inner_step E s s'"
proof -
  have owns: "owns_table (lk_phase s t)" and ok: "phase_ok (lk_phase s t)"
    using assms by (simp_all add: lock_ok_def locks_agree_def phases_ok_def)
  note wait = slot_wait_ends [OF assms, where E = E]
  have moves: "\<exists>s'. inner_step E s s'" if "lock_step E t s s'" for s'
    using that unfolding inner_step_def by blast
  show ?thesis
  proof (cases "lk_phase s t")
    case (Holds_Table r)
    show ?thesis
    proof (cases r)
      case (Use token)
      with Holds_Table show ?thesis
        by (cases "lookup_slot token (lk_adapter s)") (auto intro: moves [OF lookup_fails] moves [OF lookup_finds])
    next
      case (Shut token)
      with Holds_Table show ?thesis
        by (cases "lookup_slot token (lk_adapter s)") (auto intro: moves [OF lookup_fails] moves [OF lookup_finds])
    next
      case Browse
      have "browsed t (lk_adapter s) (lk_adapter s)" by (simp add: browsed_def inside_refl)
      with Browse Holds_Table show ?thesis by (intro moves [OF browse]) simp_all
    next
      case Sweep
      with Holds_Table ok show ?thesis by simp
    qed
  next
    case (Wants_Slot keep token i)
    then show ?thesis using wait [of i] moves [OF lock_the_slot] by auto
  next
    case (Leaves_Table token i)
    then show ?thesis by (rule moves [OF unlock_table])
  next
    case (Shuts token i)
    then show ?thesis by (rule moves [OF shut])
  next
    case (Sweeps i)
    then show ?thesis
      using wait [of i] moves [OF sweep_lock [OF Sweeps]] moves [OF sweep_end [OF Sweeps]]
      by (cases "i < k_slot_count") auto
  next
    case (Sweeps_In i)
    then show ?thesis by (rule moves [OF sweep_slot])
  qed (use owns in simp_all)
qed

lemma busy_thread_moves:
  assumes "lock_ok n s" and "lk_phase s t \<noteq> Idle"
  shows "\<exists>s'. inner_step E s s'"
proof (cases "lk_table s")
  case (Some u)
  then show ?thesis by (rule table_owner_moves [OF assms(1)])
next
  case None
  then have "\<not> owns_table (lk_phase s t)" using assms(1) by (simp add: lock_ok_def locks_agree_def)
  with assms(2) consider r where "lk_phase s t = Wants_Table r" | token i where "lk_phase s t = Works token i"
    by (cases "lk_phase s t") auto
  then show ?thesis
  proof cases
    case 1
    from lock_table [OF this None] show ?thesis unfolding inner_step_def by blast
  next
    case 2
    from lock_step.work [OF this inside_refl] show ?thesis unfolding inner_step_def by blast
  qed
qed

lemma inner_steps_ok:
  "(inner_step E ^^ k) s s' \<Longrightarrow> lock_ok n s \<Longrightarrow> lock_ok n s' \<and> k + work_left n s' \<le> work_left n s"
proof (induction k arbitrary: s')
  case 0
  then show ?case by simp
next
  case (Suc k)
  then obtain u where u: "(inner_step E ^^ k) s u" "inner_step E u s'" by auto
  with Suc have ok: "lock_ok n u" "k + work_left n u \<le> work_left n s" by blast+
  moreover have "work_left n s' < work_left n u"
    using inner_step_work [OF u(2)] ok(1) by (simp add: lock_ok_def)
  moreover have "lock_ok n s'" using u(2) lock_step_ok ok(1) unfolding inner_step_def by blast
  ultimately show ?case by simp
qed

text \<open>
  C14: every call returns. However the locked regions of any number of threads interleave, the
  threads inside a method run to the end: the steps they can take before a new call is made are
  bounded by \<open>work_left\<close>, no thread ever waits for a lock that nobody will release, and when no
  step is left every thread has returned.
\<close>

theorem adapter_calls_return:
  assumes "table_ok A" and "lock_run E n A s" and "(inner_step E ^^ k) s s'"
  shows "k \<le> work_left n s \<and> ((\<exists>t. lk_phase s' t \<noteq> Idle) \<longrightarrow> (\<exists>s''. inner_step E s' s''))"
proof -
  have "lock_ok n s" by (rule lock_run_ok [OF assms(2,1)])
  from inner_steps_ok [OF assms(3) this] have "lock_ok n s'" and "k + work_left n s' \<le> work_left n s" by simp_all
  then show ?thesis using busy_thread_moves by fastforce
qed

section \<open>What the locks protect\<close>

text \<open>
  C21: the two locks protect the slot a method works on. While a thread works on the slot its
  lookup found, its handle still names that slot, although it gave up the table lock: no other
  thread works in the slot, closes it or sweeps it.
\<close>

theorem working_slots_are_protected:
  assumes "table_ok A" and "lock_run E n A s" and "lk_phase s t = Works token i"
  shows "lookup_slot token (lk_adapter s) = Some i \<and> (\<forall>u. u \<noteq> t \<longrightarrow> owned_slot (lk_phase s u) \<noteq> Some i)"
proof -
  have ok: "lock_ok n s" by (rule lock_run_ok [OF assms(2,1)])
  have "claims (lk_phase s t) = Some (token, i)" and "owned_slot (lk_phase s t) = Some i"
    using assms(3) by simp_all
  then have "lookup_slot token (lk_adapter s) = Some i" and "lk_slots s i = Some t"
    using ok unfolding lock_ok_def claims_hold_def locks_agree_def by blast+
  moreover have "lk_slots s i = Some u" if "owned_slot (lk_phase s u) = Some i" for u
    using that ok unfolding lock_ok_def locks_agree_def by blast
  ultimately show ?thesis by auto
qed

section \<open>Waiting with the table\<close>

text \<open>A thread that found its slot and works in it; one that found it busy and waits.\<close>

definition working :: "nat \<Rightarrow> int \<Rightarrow> nat \<Rightarrow> ('d, 'z) lock_state \<Rightarrow> ('d, 'z) lock_state" where
  "working t token i s =
     s\<lparr>lk_phase := (lk_phase s)(t := Works token i), lk_slots := (lk_slots s)(i := Some t)\<rparr>"

definition waiting :: "nat \<Rightarrow> int \<Rightarrow> nat \<Rightarrow> ('d, 'z) lock_state \<Rightarrow> ('d, 'z) lock_state" where
  "waiting t token i s =
     s\<lparr>lk_phase := (lk_phase s)(t := Wants_Slot False token i), lk_table := Some t\<rparr>"

lemma lock_run_waiting:
  assumes "lock_run E n A s" and "t < n" and "lk_phase s t = Idle" and "lk_table s = None"
    and "lookup_slot token (lk_adapter s) = Some i"
  shows "lock_run E n A (waiting t token i s)"
proof -
  let ?s1 = "move t (Wants_Table (Use token)) s"
  let ?s2 = "move t (entered (Use token)) (take_table t ?s1)"
  have "lock_run E n A ?s1" by (rule request [OF assms(1-3)])
  moreover have "lock_step E t ?s1 ?s2" by (rule lock_table) (simp_all add: move_defs assms(4))
  moreover have "lock_step E t ?s2 (move t (Wants_Slot (Use token = Shut token) token i) ?s2)"
    by (rule lookup_finds) (simp_all add: move_defs entered_def assms(5))
  moreover have "move t (Wants_Slot (Use token = Shut token) token i) ?s2 = waiting t token i s"
    by (simp add: move_defs waiting_def)
  ultimately show ?thesis by (metis inner)
qed

lemma lock_run_working:
  assumes "lock_run E n A s" and "t < n" and "lk_phase s t = Idle" and "lk_table s = None"
    and "lookup_slot token (lk_adapter s) = Some i" and "lk_slots s i = None"
  shows "lock_run E n A (working t token i s)"
proof -
  let ?s1 = "waiting t token i s"
  let ?s2 = "move t (if False then Shuts token i else Leaves_Table token i) (take_slot t i ?s1)"
  let ?s3 = "move t (Works token i) (leave_table ?s2)"
  have "lock_step E t ?s1 ?s2" by (rule lock_the_slot) (simp_all add: waiting_def assms(6))
  then have "lock_run E n A ?s2" by (rule inner [OF lock_run_waiting [OF assms(1-5)]])
  moreover have "lock_step E t ?s2 ?s3" by (rule unlock_table) (simp add: move_defs)
  moreover have "?s3 = working t token i s"
    using assms(4) by (simp add: move_defs waiting_def working_def)
  ultimately show ?thesis by (metis inner)
qed

text \<open>
  C37: unrelated handles can serialize. The comment in \<open>lock_slot\<close> says that "a busy database
  never serializes unrelated handles". It does as soon as a second call on the busy handle comes
  in: that call waits for the slot while it holds the table, so a third call, on another handle
  whose slot is free, waits for the table, and nothing in the adapter moves until the first
  returns.
\<close>

theorem busy_database_holds_up_others:
  assumes "lookup_slot a A = Some i" and "lookup_slot b A = Some j" and "i \<noteq> j"
  shows "\<exists>s. lock_run E 3 A s \<and> lk_phase s 0 = Works a i \<and> lk_phase s 2 = Wants_Table (Use b) \<and>
    lookup_slot b (lk_adapter s) = Some j \<and> lk_slots s j = None \<and>
    (\<forall>t s'. lock_step E t s s' \<longrightarrow> t = 0)"
proof -
  let ?s1 = "working 0 a i (all_idle A)"
  let ?s2 = "waiting 1 a i ?s1"
  let ?s3 = "move 2 (Wants_Table (Use b)) ?s2"
  have "lock_run E 3 A ?s1"
    by (rule lock_run_working [OF start]) (simp_all add: all_idle_def assms(1))
  then have "lock_run E 3 A ?s2"
    by (rule lock_run_waiting) (simp_all add: all_idle_def working_def assms(1))
  then have "lock_run E 3 A ?s3"
    by (rule request) (simp_all add: all_idle_def working_def waiting_def)
  moreover have "t = 0" if "lock_step E t ?s3 s'" for t s'
    using that
    by cases (auto simp: all_idle_def working_def waiting_def move_def split: if_splits)
  ultimately show ?thesis
    using assms(2,3) by (intro exI [of _ ?s3]) (simp add: all_idle_def working_def waiting_def move_def)
qed

section \<open>Witnesses\<close>

text \<open>Two databases, opened one after the other: the handles 257 and 258.\<close>

definition twice_opened :: "(conf_db, unit) adapter" where
  "twice_opened = snd (sample_call M_openStaged [R_Double 0] opened_adapter)"

lemma twice_opened_lookups:
  "lookup_slot 257 twice_opened = Some 0" "lookup_slot 258 twice_opened = Some 1"
  by code_simp+

lemma twice_opened_table: "table_ok twice_opened"
proof -
  have "adapter_run sample_engine sample_host opened_adapter twice_opened"
    unfolding twice_opened_def by (rule sample_step) simp_all
  from adapter_run_life [OF this sample_table(1)] show ?thesis by simp
qed

lemma twice_opened_working:
  "lock_run conf_sqlite 2 twice_opened (working 0 257 0 (all_idle twice_opened))"
  by (rule lock_run_working [OF start]) (simp_all add: all_idle_def twice_opened_lookups)

theorem adapter_calls_return_witness:
  "\<exists>s''. inner_step conf_sqlite (working 0 257 0 (all_idle twice_opened)) s''"
proof -
  have none: "(inner_step conf_sqlite ^^ 0) s s" for s :: "(conf_db, unit) lock_state" by simp
  have "lk_phase (working 0 257 0 (all_idle twice_opened)) 0 \<noteq> Idle" by (simp add: working_def)
  then show ?thesis
    using adapter_calls_return [OF twice_opened_table twice_opened_working none] by blast
qed

theorem working_slots_are_protected_witness:
  "lookup_slot 257 twice_opened = Some 0 \<and>
    owned_slot (lk_phase (working 0 257 0 (all_idle twice_opened)) 1) \<noteq> Some 0"
proof -
  have "lk_phase (working 0 257 0 (all_idle twice_opened)) 0 = Works 257 0" by (simp add: working_def)
  from working_slots_are_protected [OF twice_opened_table twice_opened_working this]
  show ?thesis by (simp add: working_def all_idle_def)
qed

theorem busy_database_holds_up_others_witness:
  "\<exists>s. lock_run conf_sqlite 3 twice_opened s \<and> lk_phase s 0 = Works 257 0 \<and>
    lk_phase s 2 = Wants_Table (Use 258) \<and> lookup_slot 258 (lk_adapter s) = Some 1 \<and> lk_slots s 1 = None \<and>
    {t. \<exists>s'. lock_step conf_sqlite t s s'} \<subseteq> {0}"
proof -
  have "(0 :: nat) \<noteq> 1" by simp
  from busy_database_holds_up_others [OF twice_opened_lookups this, of conf_sqlite] show ?thesis
    by (elim ex_forward) auto
qed

end
