(* ===== verification/Facade.thy ===== *)
theory Facade
  imports Runtime_Upkeep Runtime_Open Object_Store Memory_Registry
begin

text \<open>
  The C++ facade (src/include/esdb/esdb.hpp): move-only owners of the library's objects, whose
  destructors release them, with methods that forward to the C interface. An owner is the pointer
  it holds; what a release does to the rest of the program is threaded as a state. A method
  answers the status, what the caller's \<open>Error\<close> holds afterwards, and what it changed.
\<close>

section \<open>Errors\<close>

text \<open>\<open>error ? error->output() : nullptr\<close>: the record is cleared and the call fills it.\<close>

definition filled :: "esdb_error option \<Rightarrow> 'a outcome \<Rightarrow> esdb_error option" where
  "filled error r = map_option (\<lambda>_. error_of r) error"

definition forward :: "esdb_error option \<Rightarrow> 'a outcome \<times> 's \<Rightarrow> 'a outcome \<times> esdb_error option \<times> 's" where
  "forward error run = (case run of (r, s) \<Rightarrow> (r, filled error r, s))"

section \<open>Owners\<close>

text \<open>
  What \<open>Value\<close>, \<open>Store\<close>, \<open>Transaction\<close> and \<open>Database\<close> share; \<open>close\<close> is the call that releases
  the object behind the pointer.
\<close>

definition owner_release :: "'n option \<Rightarrow> 'n option \<times> 'n option" where
  "owner_release native = (native, None)"

definition owner_reset :: "('n \<Rightarrow> 'w \<Rightarrow> 'w) \<Rightarrow> 'n option \<Rightarrow> 'n option \<times> 'w \<Rightarrow> 'n option \<times> 'w" where
  "owner_reset close replacement object =
     (case object of (native, w) \<Rightarrow>
        (replacement, case native of None \<Rightarrow> w | Some n \<Rightarrow> close n w))"

definition owner_destroy :: "('n \<Rightarrow> 'w \<Rightarrow> 'w) \<Rightarrow> 'n option \<times> 'w \<Rightarrow> 'w" where
  "owner_destroy close object = snd (owner_reset close None object)"

text \<open>Moving: the new owner, and the one that lost its pointer.\<close>

definition owner_move :: "'n option \<Rightarrow> 'n option \<times> 'n option" where
  "owner_move other = owner_release other"

text \<open>Assigning an owner to itself does nothing; \<open>same\<close> says that \<open>this == &other\<close>.\<close>

definition owner_assign ::
  "('n \<Rightarrow> 'w \<Rightarrow> 'w) \<Rightarrow> bool \<Rightarrow> 'n option \<Rightarrow> 'n option \<times> 'w \<Rightarrow> ('n option \<times> 'w) \<times> 'n option" where
  "owner_assign close same other object =
     (if same then (object, other)
      else case owner_release other of (n, other) \<Rightarrow> (owner_reset close n object, other))"

section \<open>Values\<close>

text \<open>The heap of a value is its own; destroying it changes nothing else.\<close>

type_synonym value_object = "esdb_value option"

definition value_type :: "value_object \<Rightarrow> u32" where
  "value_type v = esdb_value_type_of v"

definition value_is_null :: "value_object \<Rightarrow> bool" where
  "value_is_null v \<longleftrightarrow> value_type v = ESDB_VALUE_NULL"

definition Value_reset :: "esdb_value option \<Rightarrow> value_object \<Rightarrow> value_object" where
  "Value_reset replacement v = fst (owner_reset (\<lambda>_ w. w) replacement (v, ()))"

text \<open>\<open>adopt(create(..., out.scratch(), ...), out)\<close>: the old value is gone before the new one is made.\<close>

definition value_adopt ::
  "esdb_error option \<Rightarrow> esdb_value outcome \<Rightarrow> esdb_status \<times> esdb_error option \<times> value_object" where
  "value_adopt error r =
     (status_of r, filled error r, (case r of Done v \<Rightarrow> Some v | Failed _ _ \<Rightarrow> None))"

definition Value_null where
  "Value_null alloc error = value_adopt error (esdb_value_create_null alloc True)"

definition Value_boolean where
  "Value_boolean alloc b error = value_adopt error (esdb_value_create_bool alloc (if b then 1 else 0) True)"

definition Value_int32 where
  "Value_int32 alloc x error = value_adopt error (esdb_value_create_int32 alloc x True)"

definition Value_int64 where
  "Value_int64 alloc x error = value_adopt error (esdb_value_create_int64 alloc x True)"

definition Value_number where
  "Value_number alloc bits error = value_adopt error (esdb_value_create_double alloc bits True)"

definition Value_utf8 where
  "Value_utf8 alloc utf8 n error = value_adopt error (esdb_value_create_text alloc ESDB_VALUE_UTF8 utf8 n True)"

definition Value_utf8_c_string where
  "Value_utf8_c_string alloc utf8 error =
     Value_utf8 alloc (map_option c_bytes utf8)
       (case utf8 of None \<Rightarrow> 0 | Some s \<Rightarrow> of_nat (length (c_bytes s))) error"

definition Value_json_object where
  "Value_json_object alloc utf8 n error = value_adopt error (esdb_value_create_text alloc ESDB_VALUE_OBJECT utf8 n True)"

definition Value_json_array where
  "Value_json_array alloc utf8 n error = value_adopt error (esdb_value_create_text alloc ESDB_VALUE_ARRAY utf8 n True)"

definition Value_bytes where
  "Value_bytes alloc data n error = value_adopt error (esdb_value_create_bytes alloc data n True)"

text \<open>The getters of the C interface report no error; the facade reports the status.\<close>

definition value_report :: "esdb_status \<Rightarrow> esdb_error option \<Rightarrow> esdb_error option" where
  "value_report status error =
     (if error = None \<or> status = ESDB_OK then error
      else Some (clear_error\<lparr>err_status := status, err_phase := ESDB_PHASE_VALUE\<rparr>))"

definition value_read ::
  "('a \<Rightarrow> 'b) \<Rightarrow> 'a outcome \<Rightarrow> 'b \<Rightarrow> esdb_error option \<Rightarrow> esdb_status \<times> esdb_error option \<times> 'b" where
  "value_read shown r out error =
     (let error = map_option (\<lambda>_. clear_error) error in
      case r of
        Done x \<Rightarrow> (ESDB_OK, error, shown x)
      | Failed status _ \<Rightarrow> (status, value_report status error, out))"

definition Value_get_bool where
  "Value_get_bool v = value_read (\<lambda>x. x \<noteq> 0) (esdb_value_get_bool v True)"
definition Value_get_int32 where
  "Value_get_int32 v = value_read (\<lambda>x. x) (esdb_value_get_int32 v True)"
definition Value_get_int64 where
  "Value_get_int64 v = value_read (\<lambda>x. x) (esdb_value_get_int64 v True)"
definition Value_get_double where
  "Value_get_double v = value_read (\<lambda>x. x) (esdb_value_get_double v True)"
definition Value_data where
  "Value_data v = value_read (\<lambda>x. x) (esdb_value_get_data v True True)"

section \<open>Process-memory stores\<close>

text \<open>A \<open>Store\<close> owns a handle of the registry.\<close>

type_synonym store_object = "nat option"

definition close_store :: "nat \<Rightarrow> registry_world \<Rightarrow> registry_world" where
  "close_store h w = esdb_store_close (Some h) w"

definition Store_reset where "Store_reset = owner_reset close_store"

definition Store_name :: "store_object \<Rightarrow> registry_world \<Rightarrow> cpp_string option" where
  "Store_name native w = esdb_store_name native w"

text \<open>A failed open leaves the owner as it was; a successful one closes what it had.\<close>

definition Store_open ::
  "throws \<Rightarrow> byte list option \<Rightarrow> esdb_error option \<Rightarrow> store_object \<times> registry_world
   \<Rightarrow> esdb_status \<times> esdb_error option \<times> store_object \<times> registry_world" where
  "Store_open throws name error object =
     (case object of (out, w) \<Rightarrow>
        case esdb_store_open throws name True w of
          (r, w) \<Rightarrow>
            (status_of r, filled error r,
             (case r of Done h \<Rightarrow> Store_reset (Some h) (out, w) | Failed _ _ \<Rightarrow> (out, w))))"

definition Store_destroy where
  "Store_destroy name error w = forward error (esdb_store_destroy name w)"

definition Store_put where
  "Store_put throws key v error native w =
     forward error (on_store (esdb_store_put throws key v) native w)"

definition Store_patch where
  "Store_patch throws entries count1 error native w =
     forward error (on_store (esdb_store_patch throws entries count1) native w)"

text \<open>A value read is owned by \<open>out\<close>; after a failure \<open>out\<close> keeps what it had.\<close>

definition value_out :: "esdb_value outcome \<Rightarrow> value_object \<Rightarrow> value_object" where
  "value_out r out = (case r of Done v \<Rightarrow> Value_reset (Some v) out | Failed _ _ \<Rightarrow> out)"

definition Store_get ::
  "value_alloc \<Rightarrow> byte list option \<Rightarrow> value_object \<Rightarrow> esdb_error option \<Rightarrow> store_object \<Rightarrow> registry_world
   \<Rightarrow> esdb_status \<times> esdb_error option \<times> value_object \<times> registry_world" where
  "Store_get alloc key out error native w =
     (case reading (esdb_store_get alloc key True) native w of
        (r, w) \<Rightarrow> (status_of r, filled error r, value_out r out, w))"

text \<open>
  The optional out parameters of \<open>erase\<close> and \<open>clear\<close>: the flag is written only on success, the
  revision by the C call.
\<close>

definition Store_erase where
  "Store_erase throws key error native w =
     forward error (on_store (esdb_store_delete throws key) native w)"

definition Store_clear where
  "Store_clear throws error native w = forward error (on_store (esdb_store_clear throws) native w)"

definition Store_exists where
  "Store_exists key error native w = forward error (reading (esdb_store_exists key True) native w)"

definition Store_count where
  "Store_count error native w = forward error (reading (esdb_store_count True) native w)"

definition Store_revision where
  "Store_revision error native w = forward error (reading (esdb_store_revision True) native w)"

definition Store_retained_floor where
  "Store_retained_floor error native w = forward error (reading (esdb_store_retained_floor True) native w)"

section \<open>Transactions\<close>

text \<open>A \<open>Transaction\<close> owns a transaction object of the session; destroying it rolls back.\<close>

type_synonym transaction_object = "nat option"

definition Transaction_reset where "Transaction_reset E = owner_reset (destroy_transaction E)"

definition Transaction_active :: "transaction_object \<Rightarrow> 'd session \<Rightarrow> bool" where
  "Transaction_active native s \<longleftrightarrow>
     native \<noteq> None \<and> esdb_transaction_active (map_option (\<lambda>i. (s, i)) native) \<noteq> 0"

text \<open>Commit and rollback give the object up only when they succeeded.\<close>

definition finish_owned ::
  "'d sqlite \<Rightarrow> (('d session \<times> nat) option \<Rightarrow> unit outcome \<times> 'd session option) \<Rightarrow> esdb_error option
   \<Rightarrow> transaction_object \<times> 'd session \<Rightarrow> esdb_status \<times> esdb_error option \<times> transaction_object \<times> 'd session" where
  "finish_owned E finish error object =
     (case object of (native, s) \<Rightarrow>
        case finish (map_option (\<lambda>i. (s, i)) native) of
          (r, s') \<Rightarrow>
            let s = (case s' of None \<Rightarrow> s | Some s \<Rightarrow> s) in
            (status_of r, filled error r,
             (case r of Done _ \<Rightarrow> Transaction_reset E None (native, s) | Failed _ _ \<Rightarrow> (native, s))))"

definition Transaction_commit where "Transaction_commit E = finish_owned E (esdb_commit E)"
definition Transaction_rollback where "Transaction_rollback E = finish_owned E (esdb_rollback E)"

section \<open>Savepoints\<close>

text \<open>
  The guard of a savepoint: whether it points at a database, whether it is active, and its name.
  The session is the one of the database it points at.
\<close>

record savepoint_object =
  sp_database :: bool
  sp_active :: bool
  sp_name :: "byte list"

definition new_savepoint :: savepoint_object where
  "new_savepoint = \<lparr>sp_database = False, sp_active = False, sp_name = []\<rparr>"

definition Savepoint_reset :: "'d sqlite \<Rightarrow> savepoint_object \<times> 'd session \<Rightarrow> savepoint_object \<times> 'd session" where
  "Savepoint_reset E object =
     (case object of (g, s) \<Rightarrow>
        (g\<lparr>sp_active := False, sp_database := False\<rparr>,
         (if sp_active g \<and> sp_database g
          then case esdb_savepoint_rollback E (Some (sp_name g)) (Some s) of (_, s') \<Rightarrow> the s' else s)))"

definition Savepoint_move :: "savepoint_object \<Rightarrow> savepoint_object \<times> savepoint_object" where
  "Savepoint_move other = (other, other\<lparr>sp_database := False, sp_active := False\<rparr>)"

definition Savepoint_assign ::
  "'d sqlite \<Rightarrow> bool \<Rightarrow> savepoint_object \<Rightarrow> savepoint_object \<times> 'd session
   \<Rightarrow> (savepoint_object \<times> 'd session) \<times> savepoint_object" where
  "Savepoint_assign E same other object =
     (if same then (object, other)
      else case Savepoint_reset E object of
        (_, s) \<Rightarrow> ((fst (Savepoint_move other), s), snd (Savepoint_move other)))"

text \<open>A guard that is not active refuses without touching the error record.\<close>

definition savepoint_finish ::
  "(byte list option \<Rightarrow> 'd session option \<Rightarrow> unit outcome \<times> 'd session option) \<Rightarrow> esdb_error option
   \<Rightarrow> savepoint_object \<times> 'd session \<Rightarrow> esdb_status \<times> esdb_error option \<times> savepoint_object \<times> 'd session" where
  "savepoint_finish finish error object =
     (case object of (g, s) \<Rightarrow>
        if \<not> sp_active g \<or> \<not> sp_database g then (ESDB_ERR_INVALID_STATE, error, g, s)
        else case finish (Some (sp_name g)) (Some s) of
          (r, s') \<Rightarrow>
            (status_of r, filled error r,
             (case r of Done _ \<Rightarrow> g\<lparr>sp_active := False, sp_database := False\<rparr> | Failed _ _ \<Rightarrow> g),
             the s'))"

definition Savepoint_release where "Savepoint_release E = savepoint_finish (esdb_savepoint_release E)"
definition Savepoint_rollback where "Savepoint_rollback E = savepoint_finish (esdb_savepoint_rollback E)"

text \<open>
  \<open>Savepoint::begin\<close>: the savepoint is opened first, then what \<open>out\<close> held is reset, then \<open>out\<close>
  takes the new name. \<open>Savepoint_begin\<close> is the call on a database that is open, with an \<open>out\<close> that is
  inactive or guards a savepoint of the same database; \<open>Savepoint_begin_on\<close> adds the check of the
  owner, and a closed one is refused before anything happens.
\<close>

abbreviation "ESDB_SAVEPOINT_NAME_MAX_BYTES \<equiv> (64 :: nat)"

definition Savepoint_begin ::
  "'d sqlite \<Rightarrow> byte list option \<Rightarrow> esdb_error option \<Rightarrow> savepoint_object \<times> 'd session
   \<Rightarrow> esdb_status \<times> esdb_error option \<times> savepoint_object \<times> 'd session" where
  "Savepoint_begin E name error object =
     (case object of (out, s) \<Rightarrow>
        case name of
          None \<Rightarrow> (ESDB_ERR_INVALID_ARGUMENT, error, out, s)
        | Some text1 \<Rightarrow>
            if c_bytes text1 = [] \<or> ESDB_SAVEPOINT_NAME_MAX_BYTES < length (c_bytes text1)
            then (ESDB_ERR_INVALID_ARGUMENT, error, out, s)
            else case esdb_savepoint_begin E name (Some s) of
              (r, s') \<Rightarrow>
               (case r of
                  Failed status _ \<Rightarrow> (status, filled error r, out, the s')
                | Done _ \<Rightarrow>
                    (ESDB_OK, filled error r,
                     \<lparr>sp_database = True, sp_active = True, sp_name = c_bytes text1\<rparr>,
                     snd (Savepoint_reset E (out, the s')))))"

definition Savepoint_begin_on ::
  "'d sqlite \<Rightarrow> byte list option \<Rightarrow> esdb_error option \<Rightarrow> savepoint_object \<times> 'd session option
   \<Rightarrow> esdb_status \<times> esdb_error option \<times> savepoint_object \<times> 'd session option" where
  "Savepoint_begin_on E name error object =
     (case object of
        (out, None) \<Rightarrow> (ESDB_ERR_INVALID_ARGUMENT, error, out, None)
      | (out, Some s) \<Rightarrow> apsnd (apsnd (apsnd Some)) (Savepoint_begin E name error (out, s)))"

section \<open>Databases\<close>

text \<open>
  A \<open>Database\<close> owns a session. What closing the engine's handle does to the rest of the world is
  \<open>close_handle\<close>.
\<close>

definition Database_reset ::
  "('d \<Rightarrow> 'w \<Rightarrow> 'w) \<Rightarrow> 'd session option \<Rightarrow> 'd session option \<times> 'w \<Rightarrow> 'd session option \<times> 'w" where
  "Database_reset close_handle =
     owner_reset (\<lambda>s w. the (esdb_close (\<lambda>db. close_handle db w) (Some s)))"

definition Database_open ::
  "('d \<Rightarrow> 'w \<Rightarrow> 'w) \<Rightarrow> (bool \<Rightarrow> 'w \<Rightarrow> 'd session outcome \<times> 'w) \<Rightarrow> esdb_error option
   \<Rightarrow> 'd session option \<times> 'w \<Rightarrow> esdb_status \<times> esdb_error option \<times> 'd session option \<times> 'w" where
  "Database_open close_handle open1 error object =
     (case object of (out, w) \<Rightarrow>
        case open1 (error \<noteq> None) w of
          (r, w) \<Rightarrow>
            (status_of r, filled error r,
             (case r of Done s \<Rightarrow> Database_reset close_handle (Some s) (out, w) | Failed _ _ \<Rightarrow> (out, w))))"

text \<open>Opening through the C call; the state is the codec registry.\<close>

definition open_call ::
  "'d sqlite \<Rightarrow> 'd open_api \<Rightarrow> build \<Rightarrow> 'z zip_libraries \<Rightarrow> exn option \<times> bool \<times> bool \<Rightarrow> byte list option
   \<Rightarrow> (u32 \<times> open_options) option \<Rightarrow> bool \<Rightarrow> 'z zip_state \<Rightarrow> 'd session outcome \<times> 'z zip_state" where
  "open_call E api b libs config path options error_given =
     (case config of (thrown, config_ok, database_ok) \<Rightarrow>
        esdb_open E api b libs thrown config_ok database_ok error_given path options True)"

definition Database_backend_capabilities where
  "Database_backend_capabilities errstr b version1 version_number error =
     (let r = esdb_backend_capabilities_get errstr b version1 version_number (Some CAPABILITIES_SIZE)
      in (r, filled error r))"

definition Database_exec where
  "Database_exec E sql error db = forward error (esdb_exec E sql db)"

text \<open>A new transaction object replaces what \<open>out\<close> held, which is destroyed.\<close>

definition Database_begin ::
  "'d sqlite \<Rightarrow> nat option \<Rightarrow> u32 \<Rightarrow> esdb_error option \<Rightarrow> transaction_object \<times> 'd session option
   \<Rightarrow> esdb_status \<times> esdb_error option \<times> transaction_object \<times> 'd session option" where
  "Database_begin E object mode error owner =
     (case owner of (out, db) \<Rightarrow>
        case esdb_begin E object mode True db of
          (r, db) \<Rightarrow>
            (status_of r, filled error r,
             (case (r, db) of
                (Done i, Some s) \<Rightarrow> map_prod (\<lambda>n. n) Some (Transaction_reset E (Some i) (out, s))
              | _ \<Rightarrow> (out, db))))"

definition Database_savepoint_begin where
  "Database_savepoint_begin E name error db = forward error (esdb_savepoint_begin E name db)"
definition Database_savepoint_release where
  "Database_savepoint_release E name error db = forward error (esdb_savepoint_release E name db)"
definition Database_savepoint_rollback where
  "Database_savepoint_rollback E name error db = forward error (esdb_savepoint_rollback E name db)"
definition Database_savepoint_depth :: "'d session option \<Rightarrow> u32" where
  "Database_savepoint_depth db = esdb_savepoint_depth db"
definition Database_user_version_get where
  "Database_user_version_get E error db = forward error (esdb_user_version_get E True db)"
definition Database_user_version_set where
  "Database_user_version_set E version1 error db = forward error (esdb_user_version_set E version1 db)"
definition Database_migrate where
  "Database_migrate E object target migrations error db = forward error (esdb_migrate E object target migrations db)"
definition Database_integrity_check where
  "Database_integrity_check fuel E quick error db =
     forward error (esdb_integrity_check fuel E (if quick then 1 else 0) db)"
definition Database_backup_to where
  "Database_backup_to fuel E B path error db = forward error (esdb_backup_to fuel E B path db)"
definition Database_health where
  "Database_health E error db = forward error (esdb_database_health_get E (Some HEALTH_SIZE) db)"
definition Database_data_version_get where
  "Database_data_version_get E error db = forward error (esdb_data_version_get E True db)"
definition Database_native_sqlite_handle where
  "Database_native_sqlite_handle db = esdb_native_handle db"

section \<open>The persistent store\<close>

definition Database_object_store_ensure where
  "Database_object_store_ensure E now name error db =
     forward error (on_connection_of (esdb_object_store_ensure E now name) db)"

definition Database_object_store_put where
  "Database_object_store_put E now name key v error db =
     forward error (on_connection_of (esdb_object_store_put E now name key v) db)"

definition Database_object_store_get ::
  "'d sqlite \<Rightarrow> value_alloc \<Rightarrow> byte list option \<Rightarrow> byte list option \<Rightarrow> value_object \<Rightarrow> esdb_error option
   \<Rightarrow> 'd session option \<Rightarrow> esdb_status \<times> esdb_error option \<times> value_object \<times> 'd session option" where
  "Database_object_store_get E alloc name key out error db =
     (case on_connection_of (esdb_object_store_get E alloc name key True) db of
        (r, db) \<Rightarrow> (status_of r, filled error r, value_out r out, db))"

definition Database_object_store_erase where
  "Database_object_store_erase E now name key error db =
     forward error (on_connection_of (esdb_object_store_delete E now name key) db)"

definition Database_object_store_exists where
  "Database_object_store_exists E name key error db =
     forward error (on_connection_of (esdb_object_store_exists E name key True) db)"

definition Database_object_store_count where
  "Database_object_store_count E name error db =
     forward error (on_connection_of (esdb_object_store_count E name True) db)"

definition Database_object_store_scan where
  "Database_object_store_scan E throws alloc name after_key limit callback user error db =
     (case on_connection_of (with_context
        (esdb_object_store_scan E throws alloc name after_key limit callback user)) db of
        ((r, user), db) \<Rightarrow> ((r, user), filled error r, db))"

definition Database_object_store_revision where
  "Database_object_store_revision E error db =
     forward error (on_connection_of (esdb_object_store_revision E True) db)"

end
