(* ===== verification/Facade_Spec.thy ===== *)
theory Facade_Spec
  imports Facade Registry_Calls Runtime_Spec
begin

text \<open>
  What the owners of the C++ facade (src/include/esdb/esdb.hpp) guarantee: every object of the
  library has exactly one owner, however owners are moved, assigned, released and destroyed, so
  nothing is closed twice and nothing is left open; the guard of a savepoint restores what it was
  opened on; and what happens when a guard that is still active is opened again.
\<close>

section \<open>Exactly one owner\<close>

text \<open>
  The live objects are those some owner holds, each held once, and those released to the caller.
\<close>

definition held_once :: "(nat \<Rightarrow> 'n option) \<Rightarrow> bool" where
  "held_once objs \<longleftrightarrow> (\<forall>x y n. objs x = Some n \<longrightarrow> objs y = Some n \<longrightarrow> x = y)"

definition owned_exactly :: "'n set \<Rightarrow> (nat \<Rightarrow> 'n option) \<Rightarrow> 'n set \<Rightarrow> bool" where
  "owned_exactly L objs free \<longleftrightarrow> L = ran objs \<union> free \<and> ran objs \<inter> free = {} \<and> held_once objs"

lemma held_once_None: "held_once objs \<Longrightarrow> held_once (objs(x := None))"
  by (simp add: held_once_def)

lemma held_once_Some:
  assumes "held_once objs" and "n \<notin> ran objs"
  shows "held_once (objs(x \<mapsto> n))"
proof -
  have "objs y \<noteq> Some n" for y using assms(2) by (auto simp: ran_def)
  then show ?thesis using assms(1) by (simp add: held_once_def) metis
qed

lemma ran_update_None:
  assumes "held_once objs"
  shows "ran (objs(x := None)) = ran objs - set_option (objs x)"
proof (rule set_eqI)
  fix n
  have "(\<exists>y. y \<noteq> x \<and> objs y = Some n) \<longleftrightarrow> (\<exists>y. objs y = Some n) \<and> objs x \<noteq> Some n"
    using assms unfolding held_once_def by metis
  then show "n \<in> ran (objs(x := None)) \<longleftrightarrow> n \<in> ran objs - set_option (objs x)"
    by (auto simp: ran_def)
qed

lemma owned_drop:
  assumes "owned_exactly L objs free"
  shows "owned_exactly (L - set_option (objs x)) (objs(x := None)) free"
proof -
  have "set_option (objs x) \<subseteq> ran objs" by (auto simp: ran_def)
  with assms have "L - set_option (objs x) = (ran objs - set_option (objs x)) \<union> free"
    by (auto simp: owned_exactly_def)
  then show ?thesis
    using assms by (auto simp: owned_exactly_def ran_update_None held_once_None simp del: fun_upd_apply)
qed

lemma owned_place:
  assumes "owned_exactly L objs free" and "objs x = None" and "n \<notin> L"
  shows "owned_exactly (insert n L) (objs(x \<mapsto> n)) free"
  using assms held_once_Some [of objs n x] by (auto simp: owned_exactly_def)

lemma owned_take:
  "owned_exactly L objs free \<Longrightarrow> n \<in> free \<Longrightarrow> owned_exactly (L - {n}) objs (free - {n})"
  by (auto simp: owned_exactly_def)

lemma owned_give:
  "owned_exactly L objs free \<Longrightarrow> n \<notin> L \<Longrightarrow> owned_exactly (insert n L) objs (insert n free)"
  by (auto simp: owned_exactly_def)

text \<open>The interface of a resource: closing a live object ends it and no other.\<close>

locale resource =
  fixes live :: "'w \<Rightarrow> 'n set" and close :: "'n \<Rightarrow> 'w \<Rightarrow> 'w"
  assumes close_live: "n \<in> live w \<Longrightarrow> live (close n w) = live w - {n}"
begin

lemma reset_live:
  assumes "owned_exactly (live w) objs free"
  shows "live (owner_destroy close (objs x, w)) = live w - set_option (objs x)"
proof (cases "objs x")
  case (Some n)
  then have "n \<in> live w" using assms by (auto simp: owned_exactly_def ran_def)
  with Some close_live show ?thesis by (simp add: owner_destroy_def owner_reset_def)
qed (simp add: owner_destroy_def owner_reset_def)

lemma reset_owned:
  assumes "owned_exactly (live w) objs free" and "owner_reset close None (objs x, w) = (native, w')"
  shows "owned_exactly (live w') (objs(x := native)) free"
  using owned_drop [OF assms(1), of x] reset_live [OF assms(1), of x] assms(2)
  by (auto simp: owner_destroy_def owner_reset_def)

text \<open>A new object, open beside the live ones, takes the place of what the owner had.\<close>

lemma replace_owned:
  assumes "owned_exactly (live w) objs free" and "n \<notin> live w" and "live w1 = insert n (live w)"
    and "owner_reset close (Some n) (objs x, w1) = (native, w')"
  shows "owned_exactly (live w') (objs(x := native)) free"
proof -
  have given: "owned_exactly (live w1) objs (insert n free)"
    using owned_give [OF assms(1,2)] assms(3) by simp
  have "live w' = live w1 - set_option (objs x)" and native: "native = Some n"
    using reset_live [OF given, of x] assms(4) by (auto simp: owner_destroy_def owner_reset_def)
  moreover have "n \<notin> set_option (objs x)"
    using assms(1,2) by (auto simp: owned_exactly_def ran_def)
  ultimately have "live w' = insert n (live w - set_option (objs x))" using assms(3) by auto
  moreover have "owned_exactly (insert n (live w - set_option (objs x))) ((objs(x := None))(x \<mapsto> n)) free"
    using owned_drop [OF assms(1), of x] assms(2) by (intro owned_place) auto
  ultimately show ?thesis using native by simp
qed

text \<open>Adopting a released object.\<close>

lemma adopt_owned:
  assumes "owned_exactly (live w) objs free" and "n \<in> free"
    and "owner_reset close (Some n) (objs x, w) = (native, w')"
  shows "owned_exactly (live w') (objs(x := native)) (free - {n})"
proof -
  have "live w' = live w - set_option (objs x)" and native: "native = Some n"
    using reset_live [OF assms(1), of x] assms(3) by (auto simp: owner_destroy_def owner_reset_def)
  moreover have "n \<notin> set_option (objs x)" and "n \<in> live w"
    using assms(1,2) by (auto simp: owned_exactly_def ran_def)
  ultimately have "live w' = insert n (live w - {n} - set_option (objs x))" by auto
  moreover have "owned_exactly (insert n (live w - {n} - set_option (objs x))) ((objs(x := None))(x \<mapsto> n)) (free - {n})"
    using owned_drop [OF owned_take [OF assms(1,2)], of x] by (intro owned_place) auto
  ultimately show ?thesis using native by simp
qed

lemma release_owned:
  assumes "owned_exactly (live w) objs free" and "owner_release (objs x) = (r, native)"
  shows "owned_exactly (live w) (objs(x := native)) (set_option r \<union> free)"
proof (cases "objs x")
  case None
  then show ?thesis using assms by (simp add: owner_release_def fun_upd_idem)
next
  case (Some n)
  then have "n \<in> live w" using assms(1) by (auto simp: owned_exactly_def ran_def)
  then have "insert n (live w - {n}) = live w" by blast
  with owned_give [OF owned_drop [OF assms(1), of x], of n] Some
  have "owned_exactly (live w) (objs(x := None)) (insert n free)" by simp
  moreover have "r = Some n" and "native = None" using Some assms(2) by (simp_all add: owner_release_def)
  ultimately show ?thesis by simp
qed

lemma assign_owned:
  assumes "owned_exactly (live w) objs free" and "x \<noteq> y"
    and "owner_assign close False (objs y) (objs x, w) = ((native, w'), other)"
  shows "owned_exactly (live w') (objs(x := native, y := other)) free"
proof -
  obtain r where released: "owner_release (objs y) = (r, None)" "r = objs y" "other = None"
    and reset: "owner_reset close r (objs x, w) = (native, w')"
    using assms(3) by (auto simp: owner_assign_def owner_release_def)
  have owned: "owned_exactly (live w) (objs(y := None)) (set_option r \<union> free)"
    by (rule release_owned [OF assms(1) released(1)])
  show ?thesis
  proof (cases r)
    case None
    with owned reset released assms(2) show ?thesis
      using reset_owned [of w "objs(y := None)" free x native w'] by (simp add: fun_upd_twist)
  next
    case (Some n)
    have "n \<notin> free" using assms(1) Some released(2) by (auto simp: owned_exactly_def ran_def)
    then have "set_option r \<union> free - {n} = free" using Some by auto
    with adopt_owned [OF owned, of n x native w'] Some reset released assms(2) show ?thesis
      by (simp add: fun_upd_twist)
  qed
qed

end

section \<open>Owners of stores and transactions\<close>

interpretation store_owners: resource "\<lambda>w :: registry_world. dom (w_handles w)" close_store
proof
  fix n and w :: registry_world
  assume "n \<in> dom (w_handles w)"
  then obtain s where "w_handles w n = Some s" by blast
  then show "dom (w_handles (close_store n w)) = dom (w_handles w) - {n}"
    by (simp add: close_store_def store_close_frame(1))
qed

lemma finish_transaction_objects:
  "ss_transactions s i \<noteq> None \<Longrightarrow>
     dom (ss_transactions (snd (finish_transaction E is_commit i s))) = dom (ss_transactions s)"
  by (auto simp: finish_transaction_def in_connection_def on_connection_def forget_transaction_def set_active_def
      Let_def split: prod.splits outcome.splits)

interpretation transaction_owners: resource "\<lambda>s. dom (ss_transactions s)" "destroy_transaction E" for E
proof
  fix n and s :: "'a session"
  assume "n \<in> dom (ss_transactions s)"
  then show "dom (ss_transactions (destroy_transaction E n s)) = dom (ss_transactions s) - {n}"
    using finish_transaction_objects [of s n E False] by (auto simp: destroy_transaction_def Let_def)
qed

text \<open>
  A program that uses any number of \<open>Store\<close> objects: opening, resetting or destroying one,
  adopting a released handle, releasing, moving one into another, and every operation through
  one that holds a handle (\<open>store_op\<close>; its answer is left out here).
\<close>

inductive store_program :: "registry_world \<Rightarrow> (nat \<Rightarrow> store_object) \<Rightarrow> nat set \<Rightarrow> bool" where
  program_starts: "store_program empty_world (\<lambda>_. None) {}"
| object_opens: "store_program w objs free \<Longrightarrow>
    Store_open throws name error (objs x, w) = (status, error', native, w') \<Longrightarrow>
    store_program w' (objs(x := native)) free"
| object_resets: "store_program w objs free \<Longrightarrow> Store_reset None (objs x, w) = (native, w') \<Longrightarrow>
    store_program w' (objs(x := native)) free"
| object_adopts: "store_program w objs free \<Longrightarrow> h \<in> free \<Longrightarrow> Store_reset (Some h) (objs x, w) = (native, w') \<Longrightarrow>
    store_program w' (objs(x := native)) (free - {h})"
| object_releases: "store_program w objs free \<Longrightarrow> owner_release (objs x) = (r, native) \<Longrightarrow>
    store_program w (objs(x := native)) (set_option r \<union> free)"
| object_moves: "store_program w objs free \<Longrightarrow> x \<noteq> y \<Longrightarrow>
    owner_assign close_store False (objs y) (objs x, w) = ((native, w'), other) \<Longrightarrow>
    store_program w' (objs(x := native, y := other)) free"
| object_calls: "store_program w objs free \<Longrightarrow> objs x = Some h \<Longrightarrow>
    store_op (op :: nat option \<Rightarrow> registry_world \<Rightarrow> unit \<times> registry_world) \<Longrightarrow>
    op (Some h) w = (r, w') \<Longrightarrow> store_program w' objs free"
| store_destroyed: "store_program w objs free \<Longrightarrow>
    (\<And>s. card (live_handles w s) < 2 ^ 32 \<and> card (live_subscriptions w s) < 2 ^ 32) \<Longrightarrow>
    Store_destroy name error w = (r, error', w') \<Longrightarrow> store_program w' objs free"

text \<open>An operation through an empty object changes nothing.\<close>

lemma empty_object_calls: "snd (on_store f None w) = w"
  by (simp add: on_store_def handle_state_def)

definition program_ok :: "registry_world \<Rightarrow> (nat \<Rightarrow> store_object) \<Rightarrow> nat set \<Rightarrow> bool" where
  "program_ok w objs free \<longleftrightarrow>
     (\<exists>tr. registry_run tr w) \<and> w_subscriptions w = Map.empty \<and> owned_exactly (dom (w_handles w)) objs free"

lemma program_owned: "program_ok w objs free \<Longrightarrow> owned_exactly (dom (w_handles w)) objs free"
  by (simp add: program_ok_def)

lemma close_run:
  assumes "registry_run tr w" and "case native of None \<Rightarrow> True | Some h \<Rightarrow> w_handles w h \<noteq> None"
  shows "\<exists>tr'. registry_run tr' (owner_destroy close_store (native, w))"
    and "w_subscriptions (owner_destroy close_store (native, w)) = w_subscriptions w"
  using assms run_step [OF assms(1) step_close] store_close_frame(2)
  by (auto simp: owner_destroy_def owner_reset_def close_store_def split: option.splits)

lemma reset_run:
  assumes "program_ok w objs free" and "owner_reset close_store r (objs x, w) = (native, w')"
  shows "(\<exists>tr. registry_run tr w') \<and> w_subscriptions w' = Map.empty"
proof -
  from assms(1) obtain tr where tr: "registry_run tr w" by (auto simp: program_ok_def)
  have live: "case objs x of None \<Rightarrow> True | Some h \<Rightarrow> w_handles w h \<noteq> None"
    using assms(1) by (auto simp: program_ok_def owned_exactly_def ran_def split: option.split)
  have "w' = owner_destroy close_store (objs x, w)"
    using assms(2) by (auto simp: owner_destroy_def owner_reset_def)
  then show ?thesis using close_run [OF tr live] assms(1) by (simp add: program_ok_def)
qed

lemma open_program:
  assumes "program_ok w objs free" and "Store_open throws name error (objs x, w) = (status, error', native, w')"
  shows "program_ok w' (objs(x := native)) free"
proof -
  obtain r w1 where opened: "esdb_store_open throws name True w = (r, w1)" by fastforce
  from assms(1) obtain tr where tr: "registry_run tr w" and owned: "owned_exactly (dom (w_handles w)) objs free"
    by (auto simp: program_ok_def)
  have run1: "registry_run (tr @ [L_silent]) w1" by (rule run_step [OF tr step_open [OF opened]])
  have subs1: "w_subscriptions w1 = Map.empty"
    using store_open_frame(1) [OF opened] assms(1) by (simp add: program_ok_def)
  show ?thesis
  proof (cases r)
    case (Failed st e)
    then have "native = objs x" "w' = w1" using assms(2) opened by (auto simp: Store_open_def)
    then show ?thesis
      using store_open_frame(3) [OF opened Failed] run1 subs1 owned by (auto simp: program_ok_def fun_upd_idem)
  next
    case (Done h)
    then have reset: "owner_reset close_store (Some h) (objs x, w1) = (native, w')"
      using assms(2) opened by (auto simp: Store_open_def Store_reset_def)
    have new: "h \<notin> dom (w_handles w)" using opened_handle_new [OF tr opened [unfolded Done]] by (simp add: domIff)
    obtain s where w1: "w_handles w1 = (w_handles w)(h \<mapsto> s)"
      using store_open_frame(2) [OF opened Done] by blast
    then have live1: "dom (w_handles w1) = insert h (dom (w_handles w))" by auto
    have "program_ok w1 objs (insert h free)"
      using owned_give [OF owned new] run1 subs1 live1 by (auto simp: program_ok_def)
    from reset_run [OF this reset] store_owners.replace_owned [OF owned new live1 reset]
    show ?thesis by (simp add: program_ok_def)
  qed
qed

lemma store_program_ok: "store_program w objs free \<Longrightarrow> program_ok w objs free"
proof (induction rule: store_program.induct)
  case program_starts
  show ?case using run_start by (auto simp: program_ok_def owned_exactly_def held_once_def empty_world_def)
next
  case (object_opens w objs free throws name error x status error' native w')
  then show ?case by (blast intro: open_program)
next
  case (object_resets w objs free x native w')
  then have reset: "owner_reset close_store None (objs x, w) = (native, w')" by (simp add: Store_reset_def)
  from reset_run [OF object_resets(3) reset] store_owners.reset_owned [OF program_owned [OF object_resets(3)] reset]
  show ?case unfolding program_ok_def by blast
next
  case (object_adopts w objs free h x native w')
  then have reset: "owner_reset close_store (Some h) (objs x, w) = (native, w')" by (simp add: Store_reset_def)
  from reset_run [OF object_adopts(4) reset] store_owners.adopt_owned [OF program_owned [OF object_adopts(4)] object_adopts(2) reset]
  show ?case unfolding program_ok_def by blast
next
  case (object_releases w objs free x r native)
  from store_owners.release_owned [OF program_owned [OF object_releases(3)] object_releases(2)] object_releases(3)
  show ?case unfolding program_ok_def by blast
next
  case (object_moves w objs free x y native w' other)
  have "owner_reset close_store (objs y) (objs x, w) = (native, w')"
    using object_moves(3) by (auto simp: owner_assign_def owner_release_def)
  from reset_run [OF object_moves(4) this] store_owners.assign_owned [OF program_owned [OF object_moves(4)] object_moves(2,3)]
  show ?case unfolding program_ok_def by blast
next
  case (object_calls w objs free x h op r w')
  have "w_handles w h \<noteq> None"
    using object_calls(2,5) by (auto simp: program_ok_def owned_exactly_def ran_def)
  with object_calls(3,4,5) show ?case
    unfolding store_op_def program_ok_def by (metis snd_conv)
next
  case (store_destroyed w objs free name error r error' w')
  then have gone: "esdb_store_destroy name w = (r, w')" by (auto simp: Store_destroy_def forward_def split: prod.splits)
  from store_destroyed(4) obtain tr where "registry_run tr w" by (auto simp: program_ok_def)
  from run_step [OF this step_destroy [OF gone store_destroyed(2)]] store_destroy_frame [OF gone] store_destroyed(4)
  show ?case by (auto simp: program_ok_def)
qed

text \<open>
  C25: every store handle has exactly one owner. However a program opens, moves, assigns, releases,
  adopts, resets and destroys \<open>Store\<close> objects, the handles the registry counts are exactly those
  some object holds, each held once, and those released to the program; so no handle is closed
  twice, none is left open behind, and when the last object is gone no store is busy.
\<close>

theorem store_handles_have_one_owner:
  assumes "store_program w objs free"
  shows "(w_handles w h \<noteq> None \<longleftrightarrow> (\<exists>x. objs x = Some h) \<or> h \<in> free) \<and>
    (objs x = Some h \<longrightarrow> h \<notin> free \<and> (\<forall>y. objs y = Some h \<longrightarrow> y = x)) \<and>
    (ran objs = {} \<and> free = {} \<longrightarrow> status_of (fst (esdb_store_destroy name w)) \<noteq> ESDB_ERR_BUSY)"
proof -
  have ok: "program_ok w objs free" by (rule store_program_ok [OF assms])
  then have owned: "dom (w_handles w) = ran objs \<union> free" "ran objs \<inter> free = {}" "held_once objs"
    by (simp_all add: program_ok_def owned_exactly_def)
  have "w_handles w h \<noteq> None \<longleftrightarrow> h \<in> ran objs \<union> free" using owned(1) by (metis domIff)
  then have "w_handles w h \<noteq> None \<longleftrightarrow> (\<exists>x. objs x = Some h) \<or> h \<in> free" by (simp add: ran_def)
  moreover have "h \<notin> free \<and> (\<forall>y. objs y = Some h \<longrightarrow> y = x)" if "objs x = Some h"
    using that owned(2,3) unfolding held_once_def ran_def by blast
  moreover have "status_of (fst (esdb_store_destroy name w)) \<noteq> ESDB_ERR_BUSY" if "ran objs = {} \<and> free = {}"
  proof -
    have "w_handles w = Map.empty" using that owned(1) by simp
    with ok show ?thesis unfolding program_ok_def by (metis unused_not_busy)
  qed
  ultimately show ?thesis by blast
qed

section \<open>Guards of savepoints\<close>

lemma c_bytes_twice [simp]: "c_bytes (c_bytes bs) = c_bytes bs"
  by (simp add: takeWhile_idem)

lemma view_fields: "\<lparr>v_now = v_now v, v_frames = v_frames v\<rparr> = (v :: 'c tx_view)"
  by simp

text \<open>Undoing the newest savepoint takes the view back to where it was opened.\<close>

lemma undo_view:
  assumes "v_frames w = (F_Savepoint n, v_now v) # v_frames v"
  shows "nest (N_Undo n) w = Some v"
  using assms by (simp add: view_fields)

lemma guard_begins:
  assumes "Savepoint_begin E name error (new_savepoint, s) = (status, error', g, s')" and "sp_active g"
  obtains t where "name = Some t" and "perform E (Call_Savepoint name) s = (True, s')"
    and "g = \<lparr>sp_database = True, sp_active = True, sp_name = c_bytes t\<rparr>"
proof -
  obtain r db where called: "esdb_savepoint_begin E name (Some s) = (r, db)" by fastforce
  from assms called obtain t u where "name = Some t" "r = Done u" "s' = the db"
    "g = \<lparr>sp_database = True, sp_active = True, sp_name = c_bytes t\<rparr>"
    by (auto simp: Savepoint_begin_def new_savepoint_def Savepoint_reset_def split: option.splits if_splits outcome.splits)
  with called show thesis by (intro that [of t]) (simp_all add: answer_def)
qed

lemma guard_reset:
  "sp_active g \<Longrightarrow> sp_database g \<Longrightarrow>
     snd (Savepoint_reset E (g, s)) = snd (perform E (Call_Undo (Some (sp_name g))) s)"
  by (simp add: Savepoint_reset_def answer_def split: prod.splits)

text \<open>
  C26: the guard of a savepoint restores what it was opened on. Whatever ran since a guard became
  active, if the frames above it are closed again and SQLite can roll back to it, its destructor
  leaves the connection with exactly the contents and the open frames of the moment before the
  guard was opened.
\<close>

theorem savepoint_guard_restores:
  assumes "sql_transactions E view" and "mirrors (core_of view s)"
    and "Savepoint_begin E name error (new_savepoint, s) = (status, error', g, s1)" and "sp_active g"
    and "mirrors (core_of view s2)" and "v_frames (co_view (core_of view s2)) = v_frames (co_view (core_of view s1))"
    and "fst (perform E (Call_Undo (Some (sp_name g))) s2)"
  shows "co_view (core_of view (snd (Savepoint_reset E (g, s2)))) = co_view (core_of view s) \<and>
    mirrors (core_of view (snd (Savepoint_reset E (g, s2))))"
proof -
  from guard_begins [OF assms(3,4)] obtain t where t: "name = Some t"
    "perform E (Call_Savepoint name) s = (True, s1)" "g = \<lparr>sp_database = True, sp_active = True, sp_name = c_bytes t\<rparr>" .
  let ?n = "chars (c_bytes t)" and ?v = "co_view (core_of view s)"
  have "op_of (Call_Savepoint name) = Some (N_Savepoint ?n)" by (simp add: t(1) name_of_def)
  from sql_transactions.nest_call [OF assms(1) t(2) assms(2) this]
  have "co_view (core_of view s1) = push_frame (F_Savepoint ?n) ?v" by (auto split: if_splits)
  then have frames: "v_frames (co_view (core_of view s2)) = (F_Savepoint ?n, v_now ?v) # v_frames ?v"
    using assms(6) by simp
  let ?s = "snd (Savepoint_reset E (g, s2))"
  have name: "sp_name g = c_bytes t" "sp_active g" "sp_database g" using t(3) by simp_all
  have "?s = snd (perform E (Call_Undo (Some (c_bytes t))) s2)" using guard_reset [OF name(2,3), of E s2] name(1) by simp
  then have run: "perform E (Call_Undo (Some (c_bytes t))) s2 = (True, ?s)"
    using assms(7) name(1) by (simp add: prod_eq_iff)
  have "op_of (Call_Undo (Some (c_bytes t))) = Some (N_Undo ?n)" by (simp add: name_of_def)
  from sql_transactions.nest_call [OF assms(1) run assms(5) this] undo_view [OF frames]
  show ?thesis by (metis option.inject)
qed

text \<open>
  C39: opening a guard again with the name it has is undone at once. \<open>Savepoint::begin\<close> opens the
  savepoint first and resets the guard it is given afterwards; a guard that is active under the
  same name rolls the new savepoint back. The call answers success, the guard claims to be
  active, and yet nothing was opened: the guard still stands for the outer savepoint, and the
  rollback of what the program takes for the inner scope undoes the outer one.
\<close>

theorem reopened_guard_is_undone:
  assumes "sql_transactions E view" and "mirrors (core_of view s)"
    and "sp_active g" and "sp_database g" and "c_bytes t = sp_name g" and "sp_name g \<noteq> []"
    and "esdb_savepoint_begin E (Some t) (Some s) = (Done (), Some s1)"
    and "esdb_savepoint_rollback E (Some (sp_name g)) (Some s1) = (Done (), Some s2)"
  shows "\<exists>error'. Savepoint_begin E (Some t) error (g, s) = (ESDB_OK, error', g, s2) \<and>
    co_view (core_of view s2) = co_view (core_of view s)"
proof -
  let ?n = "chars (c_bytes t)" and ?v = "co_view (core_of view s)"
  have begun: "perform E (Call_Savepoint (Some t)) s = (True, s1)" using assms(7) by (simp add: answer_def)
  have undone: "perform E (Call_Undo (Some (sp_name g))) s1 = (True, s2)" using assms(8) by (simp add: answer_def)
  have op: "op_of (Call_Savepoint (Some t)) = Some (N_Savepoint ?n)" "op_of (Call_Undo (Some (sp_name g))) = Some (N_Undo ?n)"
    using assms(5) by (simp_all add: name_of_def flip: assms(5))
  from sql_transactions.nest_call [OF assms(1) begun assms(2) op(1)]
  have s1: "co_view (core_of view s1) = push_frame (F_Savepoint ?n) ?v" "mirrors (core_of view s1)"
    by (auto split: if_splits)
  have "v_frames (co_view (core_of view s1)) = (F_Savepoint ?n, v_now ?v) # v_frames ?v" using s1(1) by simp
  from undo_view [OF this] sql_transactions.nest_call [OF assms(1) undone s1(2) op(2)]
  have view: "co_view (core_of view s2) = ?v" by (metis option.inject)
  have "valid_savepoint_name (Some t)"
    using begun sql_transactions.perform_savepoint_call [OF assms(1)]
    by (simp add: esdb_savepoint_begin_def) (metis option.inject)
  then have "length (c_bytes t) \<le> 64" using savepoint_name_iff [of "Some t"] by auto
  then have "\<exists>error'. Savepoint_begin E (Some t) error (g, s) = (ESDB_OK, error', g, s2)"
    using assms(3-8) by (simp add: Savepoint_begin_def Savepoint_reset_def)
  with view show ?thesis by blast
qed

section \<open>Witnesses\<close>

text \<open>One object opens the store "a" and is reset.\<close>

definition store_opened :: "store_object \<times> registry_world" where
  "store_opened = snd (snd (Store_open (\<lambda>_. None) (Some [97]) None (None, empty_world)))"

definition store_closed :: "store_object \<times> registry_world" where
  "store_closed = Store_reset None store_opened"

lemma opened_program: "store_program (snd store_opened) ((\<lambda>_. None)(0 := fst store_opened)) {}"
proof -
  obtain st e native w where run: "Store_open (\<lambda>_. None) (Some [97]) None (None, empty_world) = (st, e, native, w)"
    by (cases "Store_open (\<lambda>_. None) (Some [97]) None (None, empty_world)")
  have "store_program w ((\<lambda>_. None)(0 := native)) {}"
    using object_opens [OF program_starts, where x = 0, OF run] .
  then show ?thesis by (simp add: store_opened_def run)
qed

theorem store_handles_have_one_owner_witness:
  "fst store_opened = Some 1 \<and> w_handles (snd store_opened) 1 \<noteq> None \<and>
    status_of (fst (esdb_store_destroy (Some [97]) (snd store_closed))) \<noteq> ESDB_ERR_BUSY"
proof -
  have native: "fst store_opened = Some 1" and gone: "fst store_closed = None" by code_simp+
  have "Store_reset None (((\<lambda>_. None)(0 := fst store_opened)) 0, snd store_opened) = (fst store_closed, snd store_closed)"
    by (simp add: store_closed_def)
  from object_resets [OF opened_program this]
  have "store_program (snd store_closed) ((\<lambda>_. None)(0 := None)) {}"
    unfolding gone by (simp only: fun_upd_upd)
  from store_handles_have_one_owner [OF this, where name = "Some [97]", THEN conjunct2, THEN conjunct2]
  have "status_of (fst (esdb_store_destroy (Some [97]) (snd store_closed))) \<noteq> ESDB_ERR_BUSY"
    by (simp add: ran_def)
  moreover have "\<exists>x. ((\<lambda>_. None)(0 := fst store_opened)) x = Some 1" using native by (intro exI [of _ 0]) simp
  then have "w_handles (snd store_opened) 1 \<noteq> None"
    using store_handles_have_one_owner [OF opened_program, where h = 1, THEN conjunct1] by blast
  ultimately show ?thesis using native by blast
qed

text \<open>A guard inside the savepoint "a", with a statement under it.\<close>

definition before_guard :: "ver_db session" where
  "before_guard = after [Call_Begin (Some 7) 1, Call_Savepoint savepoint_a] (ver_session 0 [])"

definition guard_of_b :: "esdb_status \<times> esdb_error option \<times> savepoint_object \<times> ver_db session" where
  "guard_of_b = Savepoint_begin ver_sqlite savepoint_b None (new_savepoint, before_guard)"

definition under_guard :: "ver_db session" where
  "under_guard = after [Call_Exec statement_x] (snd (snd (snd guard_of_b)))"

theorem savepoint_guard_restores_witness:
  "co_view (core_of vd_view (snd (Savepoint_reset ver_sqlite (fst (snd (snd guard_of_b)), under_guard)))) =
     co_view (core_of vd_view before_guard)"
proof -
  obtain st e g s1 where run: "guard_of_b = (st, e, g, s1)" by (cases guard_of_b)
  have "mirrors (core_of vd_view before_guard)" by code_simp
  moreover have "sp_active (fst (snd (snd guard_of_b)))" by code_simp
  moreover have "mirrors (core_of vd_view under_guard)" by code_simp
  moreover have "v_frames (co_view (core_of vd_view under_guard)) =
      v_frames (co_view (core_of vd_view (snd (snd (snd guard_of_b)))))" by code_simp
  moreover have "fst (perform ver_sqlite (Call_Undo (Some (sp_name (fst (snd (snd guard_of_b)))))) under_guard)" by code_simp
  ultimately show ?thesis
    using savepoint_guard_restores [OF ver_tx.sql_transactions_axioms, of before_guard savepoint_b None st e g s1 under_guard]
    by (simp add: run guard_of_b_def [symmetric])
qed

text \<open>The guard of "b", opened again as "b".\<close>

theorem reopened_guard_is_undone_witness:
  "\<exists>error' s2. Savepoint_begin ver_sqlite savepoint_b None
      (\<lparr>sp_database = True, sp_active = True, sp_name = [98]\<rparr>, after nested_calls (ver_session 0 [])) =
      (ESDB_OK, error', \<lparr>sp_database = True, sp_active = True, sp_name = [98]\<rparr>, s2) \<and>
    co_view (core_of vd_view s2) = co_view (core_of vd_view (after nested_calls (ver_session 0 [])))"
proof -
  let ?s = "after nested_calls (ver_session 0 [])" and ?g = "\<lparr>sp_database = True, sp_active = True, sp_name = [98]\<rparr>"
  let ?s1 = "the (snd (esdb_savepoint_begin ver_sqlite (Some [98]) (Some ?s)))"
  let ?s2 = "the (snd (esdb_savepoint_rollback ver_sqlite (Some [98]) (Some ?s1)))"
  have "fst (esdb_savepoint_begin ver_sqlite (Some [98]) (Some ?s)) = Done ()"
    "snd (esdb_savepoint_begin ver_sqlite (Some [98]) (Some ?s)) \<noteq> None"
    "fst (esdb_savepoint_rollback ver_sqlite (Some [98]) (Some ?s1)) = Done ()"
    "snd (esdb_savepoint_rollback ver_sqlite (Some [98]) (Some ?s1)) \<noteq> None"
    "mirrors (core_of vd_view ?s)"
    by code_simp+
  then have "esdb_savepoint_begin ver_sqlite (Some [98]) (Some ?s) = (Done (), Some ?s1)"
    "esdb_savepoint_rollback ver_sqlite (Some [98]) (Some ?s1) = (Done (), Some ?s2)" and m: "mirrors (core_of vd_view ?s)"
    by (simp_all add: prod_eq_iff)
  from reopened_guard_is_undone [OF ver_tx.sql_transactions_axioms m, of ?g "[98]" ?s1 ?s2 None] this(1,2)
  show ?thesis by (auto simp: savepoint_b_def)
qed

end
