(* ===== verification/Spec2Isabelle.thy ===== *)
theory Spec2Isabelle
  imports Memory_Registry_Spec Object_Store_Spec Runtime_Spec Query_Spec Open_Spec Storage_Spec
    Adapter_Scan_Spec Adapter_Locks Facade_Spec
begin

text \<open>
  A verification library for ESDB, an embedded database runtime in C++ over SQLite. This theory
  imports all of it; the properties stand in the theories of their components, marked C1, C2, ...
  in their text blocks.

  \<^bold>\<open>The program.\<close> A connection (\<open>esdb_database\<close>, src/src/esdb_runtime.cpp) wraps a SQLite handle with
  transaction handles, a savepoint stack, schema migrations, typed queries, integrity checks,
  online backup and a health report; src/src/esdb_zipvfs.cpp chooses the storage it is opened on.
  On a connection lives the persistent object store (src/src/esdb_object_store.cpp): four tables
  with the stores, their records, a journal of changes and the revision. Beside it, without
  SQLite, are the process-memory stores (src/src/esdb_store.cpp): named maps with a bounded
  journal, shared by handles and subscriptions of one process. Both hold the typed values of
  src/src/esdb_value.cpp, and all of them report through the status and error model of
  src/include/esdb/esdb_types.h. On top of all of it sits the ExternalObject adapter
  (src/adapters/externalobject/esdb_externalobject.cpp), through which ExtendScript hosts call:
  a table of 255 slots with generation-tagged handles, one explicit transaction per slot, a text
  wire for values, rows, records and changes, and 41 exported methods. C++ programs use the
  owners of the facade (src/include/esdb/esdb.hpp), whose destructors release what they hold.

  \<^bold>\<open>How code is modelled.\<close> A public function is one definition of the same name. A null pointer is
  \<open>None\<close>; the result is an \<open>outcome\<close>, \<open>Done\<close> with what the out parameters get or \<open>Failed\<close> with the
  status and the error record; an allocation or an exception that may fail is an argument
  (\<open>exn option\<close>, \<open>value_alloc\<close>, ...). Fixed-width integers are words, SQLite's own integers \<open>int\<close>.
  State is passed explicitly: a locked region is one step, so an operation that holds its mutex
  from end to end is one definition, and polls, which call back without the lock, are two. SQLite,
  zlib, Zstd and ZIPVFS are not part of the program: they are records of functions (\<open>sqlite\<close>,
  \<open>open_api\<close>, \<open>query_api\<close>, \<open>backup_api\<close>, \<open>zip_libraries\<close>) over unknown types of state, arguments of
  every definition that calls them. What is relied on is stated as locales, each interpreted on
  an executable reference engine with a script of faults, so every witness runs.

  \<^bold>\<open>The theories.\<close>
  \<^item> \<open>Esdb_Prelude\<close>: bytes, characters, decimals, and ordered maps (\<open>std::map\<close>) with their
    interface as a locale.
  \<^item> \<open>Esdb_Status\<close>: statuses, phases, \<open>map_sqlite_status\<close>, error records and the counters.
    \<open>Utf8_Validation\<close>: the validators, each equal to its specification.
    \<open>Esdb_Value\<close>: constructors, getters, payloads; canonical shapes and round trips.
  \<^item> \<open>Memory_Store\<close>, \<open>Memory_Store_Spec\<close>: one process-memory store, its mutations and reads; they
    refine a log of events, failures change nothing, the journal is the tail of the log, change
    queries and scans page through it.
  \<^item> \<open>Memory_Registry\<close>, \<open>Memory_Registry_Spec\<close>: the registry with handles and subscriptions as a
    transition system over all interleavings of the locked regions; every change is
    acknowledged exactly once, nothing dangles.
  \<^item> \<open>Sqlite_Api\<close>: the engine as the code calls it, \<open>Statement\<close>, \<open>exec_sql\<close>, \<open>query_u64\<close>, \<open>fail\<close>.
    \<open>Sqlite_Transactions\<close>: the laws of BEGIN, COMMIT, ROLLBACK and savepoints on what a connection
    sees, failures and automatic rollbacks included, as the locale \<open>sql_transactions\<close>.
    \<open>Sqlite_Contract\<close> extends it with the meaning of the object store's statements.
    \<open>Transactions_Reference\<close> and \<open>Sqlite_Reference\<close> are the reference engine and its proof.
  \<^item> \<open>Object_Store\<close>: the persistent store. \<open>Object_Store_Tables\<close>, \<open>Object_Store_Rules\<close>,
    \<open>Object_Store_Runs\<close>, \<open>Object_Store_Queries\<close>, \<open>Object_Store_Spec\<close>: the tables as an abstract map,
    one rule per routine, failures atomic, put and delete one step of the map, reads exact.
  \<^item> \<open>Storage_Provider\<close>: codecs, VFS selection and verification. \<open>Runtime\<close>: sessions, transactions,
    savepoints, versions. \<open>Runtime_Upkeep\<close>: migrations, integrity checks, backups. \<open>Runtime_Open\<close>:
    flags, validation, configuration, opening, closing, capabilities, health. \<open>Runtime_Query\<close>:
    typed queries.
  \<^item> \<open>Runtime_Rules\<close>, \<open>Runtime_Machine\<close>, \<open>Runtime_Nesting\<close>: what each call does to the flags and the
    view; the sessions reachable by transaction, savepoint and version calls, queries and the
    application's SQL, which may begin, commit and roll back itself but sets no savepoints of its
    own, and their invariant; the refinement of nested transactions.
    \<open>Runtime_Contract\<close>: the locale \<open>versioned_engine\<close> and its reference engine. \<open>Migration_Rules\<close>:
    what a migration run does. \<open>Runtime_Spec\<close>: the properties of these, with witnesses.
  \<^item> \<open>Upkeep_Spec\<close>, \<open>Query_Spec\<close>: cursors, verdicts, backups that end, rows shown. \<open>Open_Spec\<close>: the
    locale \<open>settings_engine\<close>, and that an open applies every setting. \<open>Storage_Spec\<close>: buffers and
    the codec registry.

  \<^item> \<open>C_Numbers\<close>, \<open>C_Number_Rules\<close>: what the adapter uses of the C library to print and scan numbers,
    exact on the bits of a double, with what is left to the platform as a record. \<open>Adapter_Wire\<close>,
    \<open>Adapter_Replies\<close>: the wires of values, parameters and patches; rows, records, changes and the
    JSON reports. \<open>Adapter_Slots\<close>, \<open>Adapter_Objects\<close>, \<open>Adapter_Memory\<close>: the table, and every method
    as a chain of steps that may end early. \<open>Adapter_Dispatch\<close>: the exported signatures, one call, runs.
  \<^item> \<open>Adapter_Wire_Spec\<close>, \<open>Adapter_Round_Trips\<close>: values and packets survive the wire.
    \<open>Adapter_Handles\<close>: tokens are exact. \<open>Adapter_Calls\<close>: the locale \<open>call_effect\<close>, a relation between
    the adapter before and after that every step of a method respects, with the rules for chains
    of steps; \<open>Adapter_Inside\<close>, \<open>Adapter_Spec\<close>, \<open>Adapter_Stores\<close> interpret it: the slot a call names,
    the threads it leaves alone, the runs of the registry it makes, the stores and codecs it shares. \<open>Adapter_Effects\<close>: the error
    record tells whether a call failed. \<open>Adapter_Memory_Spec\<close>, \<open>Adapter_Scan_Spec\<close>: what a client
    reads back. \<open>Adapter_Locks\<close>: the table lock and the slot locks under all interleavings of
    threads: what they protect, that every call returns, and who waits for whom.
  \<^item> \<open>Registry_Calls\<close>: the registry as its callers use it. \<open>Facade\<close>: the owners and every method of
    the C++ facade. \<open>Facade_Spec\<close>: the locale \<open>resource\<close>, from which store handles and transaction
    objects have exactly one owner; the guards of savepoints.

  \<^bold>\<open>Loops and fuel.\<close> Loops over lists are structural. The UTF-8 scanner and the migration loop are
  functions with a measure (the bytes left, the versions left). Loops that read a cursor and the
  backup loop take fuel, and running out of it is a value of its own: the theorems give the fuel
  that is enough, one more than the rows of the statement, and for a backup the pages left and
  202, so "it returns" is proved and not assumed. The two methods of the adapter that run such a
  loop, \<open>querySql\<close> and \<open>objectStorePrune\<close>, answer nothing when the fuel is out. The threads inside
  the adapter return within \<open>work_left\<close> steps.

  \<^bold>\<open>Not modelled.\<close> Destructors of the C objects free memory only. The facade's observers of an error
  record or a pointer are the fields themselves. The adapter's
  allocations throw at two places of a method, while the arguments are decoded and while the
  reply is built; what a throw in between would leak is not in the model, nor is a leaked value.
  Torn reads inside SQLite, the file system and crashes belong to SQLite's durability and are
  outside the contract. The object store's calls and migrations are not calls of the session
  machine; their properties stand for one call on a connection in any transaction. Generated code, examples, benchmarks, tests and the tools in other
  languages are not part of the runtime.

  \<^bold>\<open>Plan.\<close> The object store's calls as calls of the session machine, so that stores and application
  transactions interleave; whole runs as refinements of the abstract machines.
\<close>

end
